(* ===== verification/Prelude.thy ===== *)
theory Prelude
  imports Main "HOL-Library.AList"
begin

text \<open>
  What every component shares: results with errors as values, Python dictionaries as
  association lists in insertion order, machines as step functions with invariants, and
  time as an integer number of microseconds (the resolution of Python's \<open>datetime\<close>).
\<close>

named_theorems py_dict_simps \<open>lookups after the dictionary operations\<close>
named_theorems machine_inv \<open>one step of a machine keeps its invariant\<close>

section \<open>Results\<close>

text \<open>A Python function that may raise returns \<open>Inl\<close> of the exception or \<open>Inr\<close> of its result.\<close>

type_synonym ('e, 'a) res = "'e + 'a"

fun res_bind :: "('e, 'a) res \<Rightarrow> ('a \<Rightarrow> ('e, 'b) res) \<Rightarrow> ('e, 'b) res" where
  "res_bind (Inl e) f = Inl e"
| "res_bind (Inr x) f = f x"

fun is_ok :: "('e, 'a) res \<Rightarrow> bool" where
  "is_ok (Inl e) = False"
| "is_ok (Inr x) = True"

lemma res_bind_Inr_iff [simp]:
  "res_bind m f = Inr y \<longleftrightarrow> (\<exists>x. m = Inr x \<and> f x = Inr y)"
  by (cases m) auto

lemma res_bind_Inl_iff:
  "res_bind m f = Inl e \<longleftrightarrow> m = Inl e \<or> (\<exists>x. m = Inr x \<and> f x = Inl e)"
  by (cases m) auto

lemma is_ok_iff: "is_ok m \<longleftrightarrow> (\<exists>x. m = Inr x)"
  by (cases m) auto

text \<open>A loop over a list whose body only checks and may raise.\<close>

fun check_each :: "('a \<Rightarrow> ('e, unit) res) \<Rightarrow> 'a list \<Rightarrow> ('e, unit) res" where
  "check_each f [] = Inr ()"
| "check_each f (x # xs) = res_bind (f x) (\<lambda>_. check_each f xs)"

lemma check_each_Inr [simp]: "check_each f xs = Inr u \<longleftrightarrow> (\<forall>x \<in> set xs. f x = Inr ())"
  by (induction xs) auto

section \<open>Dictionaries\<close>

text \<open>
  A Python \<open>dict\<close> iterates in insertion order; assigning to an existing key keeps its place
  and a new key goes last. \<open>AList.update\<close> and \<open>AList.delete\<close> do exactly that.
\<close>

type_synonym ('k, 'v) pydict = "('k \<times> 'v) list"

abbreviation dget :: "('k, 'v) pydict \<Rightarrow> 'k \<Rightarrow> 'v option" where
  "dget d k \<equiv> map_of d k"

definition dhas :: "('k, 'v) pydict \<Rightarrow> 'k \<Rightarrow> bool" where
  "dhas d k = (map_of d k \<noteq> None)"

abbreviation dset :: "'k \<Rightarrow> 'v \<Rightarrow> ('k, 'v) pydict \<Rightarrow> ('k, 'v) pydict" where
  "dset k v d \<equiv> AList.update k v d"

abbreviation ddel :: "'k \<Rightarrow> ('k, 'v) pydict \<Rightarrow> ('k, 'v) pydict" where
  "ddel k d \<equiv> AList.delete k d"

definition dsetdefault :: "'k \<Rightarrow> 'v \<Rightarrow> ('k, 'v) pydict \<Rightarrow> ('k, 'v) pydict" where
  "dsetdefault k v d = (if dhas d k then d else AList.update k v d)"

definition ddel_all :: "'k list \<Rightarrow> ('k, 'v) pydict \<Rightarrow> ('k, 'v) pydict" where
  "ddel_all ks d = fold (\<lambda>k d. AList.delete k d) ks d"

definition wf_dict :: "('k, 'v) pydict \<Rightarrow> bool" where
  "wf_dict d = distinct (map fst d)"

lemma dget_dset [simp, py_dict_simps]: "dget (dset k v d) k' = (if k' = k then Some v else dget d k')"
  by (simp add: update_conv')

lemma dget_ddel [simp, py_dict_simps]: "dget (ddel k d) k' = (if k' = k then None else dget d k')"
  by (simp add: delete_conv')

lemma dhas_dset [simp, py_dict_simps]: "dhas (dset k v d) k' \<longleftrightarrow> k' = k \<or> dhas d k'"
  by (simp add: dhas_def)

lemma dhas_ddel [simp, py_dict_simps]: "dhas (ddel k d) k' \<longleftrightarrow> k' \<noteq> k \<and> dhas d k'"
  by (simp add: dhas_def)

lemma dhas_Nil [simp, py_dict_simps]: "\<not> dhas [] k"
  by (simp add: dhas_def)

lemma dhas_iff_set: "dhas d k \<longleftrightarrow> k \<in> fst ` set d"
  by (simp add: dhas_def map_of_eq_None_iff)

lemma dget_dsetdefault [simp, py_dict_simps]:
  "dget (dsetdefault k v d) k' =
     (if k' = k then Some (case dget d k of None \<Rightarrow> v | Some w \<Rightarrow> w) else dget d k')"
  by (auto simp: dsetdefault_def dhas_def update_conv' split: option.splits)

lemma dget_ddel_all [simp, py_dict_simps]:
  "dget (ddel_all ks d) k = (if k \<in> set ks then None else dget d k)"
  unfolding ddel_all_def by (induction ks arbitrary: d) auto

lemma wf_dict_Nil [simp, intro]: "wf_dict []"
  by (simp add: wf_dict_def)

lemma wf_dict_dset [simp, intro]: "wf_dict d \<Longrightarrow> wf_dict (dset k v d)"
  by (simp add: wf_dict_def distinct_update)

lemma wf_dict_ddel [simp, intro]: "wf_dict d \<Longrightarrow> wf_dict (ddel k d)"
  by (simp add: wf_dict_def distinct_delete)

lemma wf_dict_dsetdefault [simp, intro]: "wf_dict d \<Longrightarrow> wf_dict (dsetdefault k v d)"
  by (simp add: dsetdefault_def wf_dict_dset)

lemma wf_dict_ddel_all [simp, intro]: "wf_dict d \<Longrightarrow> wf_dict (ddel_all ks d)"
  unfolding ddel_all_def by (induction ks arbitrary: d) auto

lemma wf_dict_dget: "wf_dict d \<Longrightarrow> (k, v) \<in> set d \<longleftrightarrow> dget d k = Some v"
  by (auto simp: wf_dict_def)

lemma length_ddel_less: "dhas d k \<Longrightarrow> length (ddel k d) < length d"
proof (induction d)
  case (Cons p d)
  then show ?case
    using length_delete_le [of k d]
    by (cases p) (auto simp: dhas_def delete_simps split: if_splits)
qed simp

lemma length_dset: "length (dset k v d) = (if dhas d k then length d else Suc (length d))"
  by (induction d) (auto simp: dhas_def)

lemma set_dset: "p \<in> set (dset k v d) \<Longrightarrow> p = (k, v) \<or> p \<in> set d"
  by (induction d) (auto split: if_splits)

lemma set_ddel: "p \<in> set (ddel k d) \<Longrightarrow> p \<in> set d"
  by (simp add: AList.delete_eq)

lemma ddel_all_eq: "ddel_all ks d = filter (\<lambda>(k, v). k \<notin> set ks) d"
  unfolding ddel_all_def
  by (induction ks arbitrary: d)
    (auto simp: AList.delete_eq intro!: filter_cong)

section \<open>Lists\<close>

lemma length_filter_imp:
  "(\<And>x. x \<in> set xs \<Longrightarrow> P x \<Longrightarrow> Q x) \<Longrightarrow> length (filter P xs) \<le> length (filter Q xs)"
  by (induction xs) (auto intro: le_SucI)

lemma find_SomeD: "find P xs = Some x \<Longrightarrow> x \<in> set xs \<and> P x"
  by (induction xs) (auto split: if_splits)

lemma find_append: "find P (xs @ ys) = (case find P xs of None \<Rightarrow> find P ys | Some x \<Rightarrow> Some x)"
  by (induction xs) auto

section \<open>The interface of a dictionary\<close>

text \<open>
  The components that keep an index (pending alerts, quarantined patterns, connections, bans)
  call a dictionary through lookup, store and delete. The laws are those the clients use; the
  sweep idiom of the code (collect the keys to remove, then delete each) is proved once here.
\<close>

locale key_store =
  fixes lookup :: "'d \<Rightarrow> 'k \<Rightarrow> 'v option"
    and store :: "'k \<Rightarrow> 'v \<Rightarrow> 'd \<Rightarrow> 'd"
    and remove :: "'k \<Rightarrow> 'd \<Rightarrow> 'd"
  assumes lookup_store: "lookup (store k v d) k' = (if k' = k then Some v else lookup d k')"
    and lookup_remove: "lookup (remove k d) k' = (if k' = k then None else lookup d k')"
begin

definition sweep :: "'k list \<Rightarrow> 'd \<Rightarrow> 'd" where
  "sweep ks d = fold remove ks d"

lemma lookup_sweep: "lookup (sweep ks d) k = (if k \<in> set ks then None else lookup d k)"
  unfolding sweep_def by (induction ks arbitrary: d) (auto simp: lookup_remove)

lemma sweep_then_store: "lookup (store k v (sweep ks d)) k = Some v"
  by (simp add: lookup_store)

lemma sweep_idem: "lookup (sweep ks (sweep ks d)) = lookup (sweep ks d)"
  by (rule ext) (simp add: lookup_sweep)

end

interpretation od: key_store "\<lambda>d k. map_of d k" AList.update AList.delete
  by unfold_locales (simp_all add: update_conv' delete_conv')

section \<open>Machines\<close>

text \<open>
  A component with state is a step function over events; a run folds it over a list of events.
  An invariant that one step keeps holds along every run.
\<close>

definition run :: "('s \<Rightarrow> 'e \<Rightarrow> 's) \<Rightarrow> 's \<Rightarrow> 'e list \<Rightarrow> 's" where
  "run step s es = foldl step s es"

lemma run_simps [simp]:
  "run step s [] = s"
  "run step s (e # es) = run step (step s e) es"
  by (simp_all add: run_def)

lemma run_append: "run step s (es @ fs) = run step (run step s es) fs"
  by (simp add: run_def)

locale machine =
  fixes step :: "'s \<Rightarrow> 'e \<Rightarrow> 's"
    and inv :: "'s \<Rightarrow> bool"
  assumes step_inv: "inv s \<Longrightarrow> inv (step s e)"
begin

lemma run_inv: "inv s \<Longrightarrow> inv (run step s es)"
  by (induction es arbitrary: s) (auto intro: step_inv)

lemma prefix_inv: "inv s \<Longrightarrow> inv (run step s (take n es))"
  by (rule run_inv)

end

text \<open>A machine whose invariant survives some of the events only; every machine is one.\<close>

locale guarded_machine =
  fixes step :: "'s \<Rightarrow> 'e \<Rightarrow> 's"
    and ok :: "'e \<Rightarrow> bool"
    and inv :: "'s \<Rightarrow> bool"
  assumes step_ok: "ok e \<Longrightarrow> inv s \<Longrightarrow> inv (step s e)"
begin

lemma run_ok: "list_all ok es \<Longrightarrow> inv s \<Longrightarrow> inv (run step s es)"
  by (induction es arbitrary: s) (auto intro: step_ok)

end

sublocale machine \<subseteq> every: guarded_machine step "\<lambda>_. True" inv
  by unfold_locales (rule step_inv)

section \<open>Time\<close>

type_synonym time = int \<comment> \<open>microseconds since the epoch\<close>

definition secs :: "int \<Rightarrow> time" where
  "secs n = n * 1000000"

lemma secs_mono [simp]: "secs a \<le> secs b \<longleftrightarrow> a \<le> b"
  by (simp add: secs_def)

lemma secs_less [simp]: "secs a < secs b \<longleftrightarrow> a < b"
  by (simp add: secs_def)

lemma secs_pos [simp]: "0 < secs a \<longleftrightarrow> 0 < a"
  by (simp add: secs_def zero_less_mult_iff)

lemma secs_nonneg [simp]: "0 \<le> secs a \<longleftrightarrow> 0 \<le> a"
  by (simp add: secs_def zero_le_mult_iff)

lemma secs_zero [simp]: "secs 0 = 0"
  by (simp add: secs_def)

end
