(* ===== verification/PyText.thy ===== *)
theory PyText
  imports Prelude "HOL-Library.Char_ord" "HOL-Library.List_Lexorder"
begin

text \<open>
  Python's \<open>str\<close> operations that the program uses. A \<open>char\<close> is a code point U+0000 to U+00FF
  (Latin-1, which is also how HTTP header bytes are decoded), so a \<open>string\<close> is a Python string
  over those code points; the predicates below follow Python's Unicode tables on that range.
\<close>

section \<open>Character classes\<close>

definition ccode :: "char \<Rightarrow> nat" where
  "ccode c = of_char c"

definition is_space :: "char \<Rightarrow> bool" where
  \<comment> \<open>\<open>str.isspace\<close>, the characters \<open>str.strip\<close> removes\<close>
  "is_space c = (let n = ccode c in
     (9 \<le> n \<and> n \<le> 13) \<or> (28 \<le> n \<and> n \<le> 32) \<or> n = 133 \<or> n = 160)"

definition is_dec :: "char \<Rightarrow> bool" where
  \<comment> \<open>\<open>\d\<close> of a \<open>str\<close> pattern, \<open>str.isdecimal\<close>\<close>
  "is_dec c = (48 \<le> ccode c \<and> ccode c \<le> 57)"

definition is_digit :: "char \<Rightarrow> bool" where
  \<comment> \<open>\<open>str.isdigit\<close>: the superscripts two, three and one count as digits\<close>
  "is_digit c = (is_dec c \<or> ccode c \<in> {178, 179, 185})"

definition is_lower_ascii :: "char \<Rightarrow> bool" where
  "is_lower_ascii c = (97 \<le> ccode c \<and> ccode c \<le> 122)"

definition is_upper_ascii :: "char \<Rightarrow> bool" where
  "is_upper_ascii c = (65 \<le> ccode c \<and> ccode c \<le> 90)"

definition is_alpha :: "char \<Rightarrow> bool" where
  \<comment> \<open>\<open>str.isalpha\<close>\<close>
  "is_alpha c = (let n = ccode c in
     is_lower_ascii c \<or> is_upper_ascii c \<or> n \<in> {170, 181, 186} \<or>
     (192 \<le> n \<and> n \<le> 255 \<and> n \<noteq> 215 \<and> n \<noteq> 247))"

definition is_alnum :: "char \<Rightarrow> bool" where
  \<comment> \<open>\<open>str.isalnum\<close>: letters, digits and the vulgar fractions\<close>
  "is_alnum c = (is_alpha c \<or> is_digit c \<or> ccode c \<in> {188, 189, 190})"

definition lower_char :: "char \<Rightarrow> char" where
  "lower_char c = (let n = ccode c in
     if is_upper_ascii c \<or> (192 \<le> n \<and> n \<le> 222 \<and> n \<noteq> 215) then char_of (n + 32) else c)"

definition upper_char :: "char \<Rightarrow> string" where
  \<comment> \<open>the micro sign and y-diaeresis, whose capitals lie outside the range, stay as they are\<close>
  "upper_char c = (let n = ccode c in
     if n = 223 then ''SS''
     else if is_lower_ascii c \<or> (224 \<le> n \<and> n \<le> 254 \<and> n \<noteq> 247) then [char_of (n - 32)]
     else [c])"

definition py_lower :: "string \<Rightarrow> string" where
  "py_lower s = map lower_char s"

definition py_upper :: "string \<Rightarrow> string" where
  "py_upper s = concat (map upper_char s)"

section \<open>Searching, splitting, stripping\<close>

definition starts_with :: "string \<Rightarrow> string \<Rightarrow> bool" where
  "starts_with s p = (take (length p) s = p)"

definition ends_with :: "string \<Rightarrow> string \<Rightarrow> bool" where
  "ends_with s p = (length p \<le> length s \<and> drop (length s - length p) s = p)"

text \<open>\<open>p in s\<close>\<close>

fun contains :: "string \<Rightarrow> string \<Rightarrow> bool" where
  "contains p [] = (p = [])"
| "contains p (c # s) = (starts_with (c # s) p \<or> contains p s)"

text \<open>\<open>s.split(c)\<close> for a one-character separator: never empty.\<close>

fun split_on :: "char \<Rightarrow> string \<Rightarrow> string list" where
  "split_on c [] = [[]]"
| "split_on c (x # xs) =
     (if x = c then [] # split_on c xs
      else (case split_on c xs of [] \<Rightarrow> [[x]] | y # ys \<Rightarrow> (x # y) # ys))"

text \<open>\<open>s.split(c, 1)\<close> when the separator occurs; \<open>None\<close> when it does not.\<close>

fun split_first :: "char \<Rightarrow> string \<Rightarrow> (string \<times> string) option" where
  "split_first c [] = None"
| "split_first c (x # xs) =
     (if x = c then Some ([], xs)
      else map_option (\<lambda>(a, b). (x # a, b)) (split_first c xs))"

fun join_on :: "char \<Rightarrow> string list \<Rightarrow> string" where
  "join_on c [] = []"
| "join_on c [x] = x"
| "join_on c (x # xs) = x @ [c] @ join_on c xs"

definition lstrip :: "string \<Rightarrow> string" where
  "lstrip s = dropWhile is_space s"

definition rstrip :: "string \<Rightarrow> string" where
  "rstrip s = rev (dropWhile is_space (rev s))"

definition strip :: "string \<Rightarrow> string" where
  "strip s = rstrip (lstrip s)"

text \<open>\<open>s.rstrip(c)\<close> for one character.\<close>

definition rstrip_char :: "char \<Rightarrow> string \<Rightarrow> string" where
  "rstrip_char c s = rev (dropWhile (\<lambda>x. x = c) (rev s))"

text \<open>\<open>s.replace(p, '')\<close>: left to right, not overlapping.\<close>

function remove_all :: "string \<Rightarrow> string \<Rightarrow> string" where
  "remove_all p s =
     (case s of [] \<Rightarrow> []
      | c # t \<Rightarrow> if p \<noteq> [] \<and> starts_with s p then remove_all p (drop (length p) s)
               else c # remove_all p t)"
  by pat_completeness auto
termination
  by (relation "measure (\<lambda>(p, s). length s)") auto

declare remove_all.simps [simp del]

section \<open>Numbers\<close>

definition digit_val :: "char \<Rightarrow> int" where
  "digit_val c = int (ccode c) - 48"

definition dec_val :: "string \<Rightarrow> int" where
  \<comment> \<open>the value of a string of decimal digits\<close>
  "dec_val s = foldl (\<lambda>n c. n * 10 + digit_val c) 0 s"

text \<open>
  The digits of an \<open>int()\<close> literal: decimal digits, single underscores between two digits.
\<close>

fun int_digits :: "string \<Rightarrow> string option" where
  "int_digits [] = None"
| "int_digits [c] = (if is_dec c then Some [c] else None)"
| "int_digits (c # d # s) =
     (if \<not> is_dec c then None
      else if d = CHR ''_'' then map_option (\<lambda>t. c # t) (int_digits s)
      else map_option (\<lambda>t. c # t) (int_digits (d # s)))"

text \<open>\<open>int(s)\<close>: surrounding white space, an optional sign, digits; \<open>None\<close> is \<open>ValueError\<close>.\<close>

definition py_int :: "string \<Rightarrow> int option" where
  "py_int s = (case strip s of
      [] \<Rightarrow> None
    | c # t \<Rightarrow>
        if c = CHR ''-'' then map_option (\<lambda>u. - dec_val u) (int_digits t)
        else if c = CHR ''+'' then map_option dec_val (int_digits t)
        else map_option dec_val (int_digits (c # t)))"

text \<open>\<open>str(n)\<close> for an \<open>int\<close>.\<close>

fun nat_str :: "nat \<Rightarrow> string" where
  "nat_str n = (if n < 10 then [char_of (48 + n)] else nat_str (n div 10) @ [char_of (48 + n mod 10)])"

declare nat_str.simps [simp del]

definition int_str :: "int \<Rightarrow> string" where
  "int_str n = (if n < 0 then CHR ''-'' # nat_str (nat (- n)) else nat_str (nat n))"

section \<open>Lemmas\<close>

lemma starts_with_append [simp]: "starts_with (p @ s) p"
  by (simp add: starts_with_def)

lemma starts_with_iff: "starts_with s p \<longleftrightarrow> (\<exists>t. s = p @ t)"
  unfolding starts_with_def by (metis append_eq_conv_conj append_take_drop_id)

lemma starts_with_Nil [simp]: "starts_with s []"
  by (simp add: starts_with_def)

lemma ends_with_append [simp]: "ends_with (s @ p) p"
  by (simp add: ends_with_def)

lemma ends_with_iff: "ends_with s p \<longleftrightarrow> (\<exists>t. s = t @ p)"
proof
  assume a: "ends_with s p"
  then have "take (length s - length p) s @ drop (length s - length p) s = s" by simp
  with a show "\<exists>t. s = t @ p" unfolding ends_with_def by metis
qed (auto simp: ends_with_def)

lemma contains_iff: "contains p s \<longleftrightarrow> (\<exists>u v. s = u @ p @ v)"
proof (induction s)
  case (Cons c s)
  have "contains p (c # s) \<longleftrightarrow> (\<exists>v. c # s = p @ v) \<or> (\<exists>u v. s = u @ p @ v)"
    by (simp add: starts_with_iff Cons.IH)
  also have "\<dots> \<longleftrightarrow> (\<exists>u v. c # s = u @ p @ v)"
    by (metis append_Cons append_Nil list.exhaust list.inject)
  finally show ?case .
qed auto

lemma contains_append: "contains p s \<Longrightarrow> contains p (u @ s @ v)"
  by (metis append.assoc contains_iff)

lemma split_on_not_Nil [simp]: "split_on c s \<noteq> []"
  by (cases s) (auto split: list.split)

lemma split_on_no_sep: "c \<notin> set s \<Longrightarrow> split_on c s = [s]"
  by (induction s) auto

lemma split_on_append: "c \<notin> set a \<Longrightarrow> split_on c (a @ c # b) = a # split_on c b"
  by (induction a) auto

lemma split_on_parts: "x \<in> set (split_on c s) \<Longrightarrow> c \<notin> set x"
proof (induction s arbitrary: x)
  case (Cons y s)
  then show ?case by (cases "split_on c s") (auto split: if_splits)
qed simp

lemma join_on_head: "join_on c ((x # y) # ys) = x # join_on c (y # ys)"
  by (cases ys) auto

lemma join_on_Nil_head: "ys \<noteq> [] \<Longrightarrow> join_on c ([] # ys) = c # join_on c ys"
  by (cases ys) auto

lemma join_split [simp]: "join_on c (split_on c s) = s"
proof (induction s)
  case (Cons y s)
  obtain z zs where "split_on c s = z # zs" by (cases "split_on c s") auto
  with Cons show ?case by (auto simp: join_on_head join_on_Nil_head simp del: join_on.simps)
qed simp

lemma length_split_on: "length (split_on c s) = Suc (count_list s c)"
proof (induction s)
  case (Cons y s)
  then show ?case by (cases "split_on c s") auto
qed simp

lemma split_first_None_iff [simp]: "split_first c s = None \<longleftrightarrow> c \<notin> set s"
  by (induction s) auto

lemma split_first_Some_iff: "split_first c s = Some (a, b) \<longleftrightarrow> s = a @ c # b \<and> c \<notin> set a"
proof (induction s arbitrary: a)
  case (Cons x s)
  show ?case
  proof (cases a)
    case Nil
    then show ?thesis by auto
  next
    case (Cons y a')
    with Cons.IH [of a'] show ?thesis by auto
  qed
qed simp

lemma split_first_append: "c \<notin> set a \<Longrightarrow> split_first c (a @ c # b) = Some (a, b)"
  by (simp add: split_first_Some_iff)

lemma lstrip_id: "s = [] \<or> \<not> is_space (hd s) \<Longrightarrow> lstrip s = s"
  by (cases s) (auto simp: lstrip_def)

lemma rstrip_id: "s = [] \<or> \<not> is_space (last s) \<Longrightarrow> rstrip s = s"
  by (cases s rule: rev_cases) (auto simp: rstrip_def)

lemma lstrip_hd: "lstrip s \<noteq> [] \<Longrightarrow> \<not> is_space (hd (lstrip s))"
  unfolding lstrip_def by (metis hd_dropWhile)

lemma rstrip_last: "rstrip s \<noteq> [] \<Longrightarrow> \<not> is_space (last (rstrip s))"
  unfolding rstrip_def using hd_dropWhile [of is_space "rev s"] by (simp add: last_rev)

lemma rstrip_append_drop: "\<exists>t. s = rstrip s @ t"
proof -
  have "rev s = takeWhile is_space (rev s) @ dropWhile is_space (rev s)" by simp
  then have "s = rev (dropWhile is_space (rev s)) @ rev (takeWhile is_space (rev s))"
    by (metis rev_append rev_rev_ident)
  then show ?thesis unfolding rstrip_def by metis
qed

lemma strip_ends:
  assumes "strip s \<noteq> []"
  shows "\<not> is_space (hd (strip s))" and "\<not> is_space (last (strip s))"
proof -
  obtain t where t: "lstrip s = strip s @ t"
    using rstrip_append_drop [of "lstrip s"] unfolding strip_def by metis
  with assms have "hd (lstrip s) = hd (strip s)" by simp
  moreover have "lstrip s \<noteq> []" using t assms by auto
  ultimately show "\<not> is_space (hd (strip s))" using lstrip_hd by metis
  show "\<not> is_space (last (strip s))"
    using assms rstrip_last unfolding strip_def by blast
qed

lemma strip_idem [simp]: "strip (strip s) = strip s"
proof (cases "strip s = []")
  case True
  then show ?thesis by (simp only: True) (simp add: strip_def lstrip_def rstrip_def)
next
  case False
  then have "lstrip (strip s) = strip s" using strip_ends(1) lstrip_id by blast
  then show ?thesis
    using False strip_ends(2) rstrip_id unfolding strip_def by metis
qed

lemma strip_Nil [simp]: "strip [] = []"
  by (simp add: strip_def lstrip_def rstrip_def)

lemma strip_id: "s \<noteq> [] \<Longrightarrow> \<not> is_space (hd s) \<Longrightarrow> \<not> is_space (last s) \<Longrightarrow> strip s = s"
  by (simp add: strip_def lstrip_id rstrip_id)

lemma rstrip_char_last: "rstrip_char c s = [] \<or> last (rstrip_char c s) \<noteq> c"
  unfolding rstrip_char_def using hd_dropWhile [of "\<lambda>x. x = c" "rev s"]
  by (auto simp: last_rev)

lemma is_dec_not_space: "is_dec c \<Longrightarrow> \<not> is_space c"
  by (auto simp: is_dec_def is_space_def Let_def)

lemma dec_val_nonneg: "(\<forall>c \<in> set s. is_dec c) \<Longrightarrow> 0 \<le> dec_val s"
proof (induction s rule: rev_induct)
  case (snoc c s)
  then show ?case by (simp add: dec_val_def digit_val_def is_dec_def)
qed (simp add: dec_val_def)

lemma int_digits_all: "c \<noteq> [] \<Longrightarrow> \<forall>x \<in> set c. is_dec x \<Longrightarrow> int_digits c = Some c"
proof (induction c rule: int_digits.induct)
  case (3 c d s)
  then have "d \<noteq> CHR ''_''" by (auto simp: is_dec_def ccode_def)
  with 3 show ?case by simp
qed auto

lemma int_digits_dec: "int_digits s = Some t \<Longrightarrow> \<forall>x \<in> set t. is_dec x"
proof (induction s arbitrary: t rule: int_digits.induct)
  case (3 c d s)
  show ?case
  proof (cases "d = CHR ''_''")
    case True
    then obtain u where "int_digits s = Some u" "t = c # u" "is_dec c"
      using "3.prems" by (auto split: if_splits)
    with True "3.IH"(1) show ?thesis by auto
  next
    case False
    then obtain u where "int_digits (d # s) = Some u" "t = c # u" "is_dec c"
      using "3.prems" by (simp split: if_splits) blast
    with False "3.IH"(2) show ?thesis by auto
  qed
qed (auto split: if_splits)

lemma py_int_dec:
  assumes "s \<noteq> []" and dec: "\<forall>x \<in> set s. is_dec x"
  shows "py_int s = Some (dec_val s)"
proof -
  obtain c t where s: "s = c # t" using assms(1) by (cases s) auto
  have "last s \<in> set s" using assms(1) by simp
  then have "strip s = s"
    using assms is_dec_not_space s by (intro strip_id) auto
  moreover have "c \<noteq> CHR ''-''" "c \<noteq> CHR ''+''"
    using dec s by (auto simp: is_dec_def ccode_def)
  moreover have "int_digits (c # t) = Some (c # t)"
    using int_digits_all [OF assms] unfolding s .
  ultimately show ?thesis unfolding py_int_def s by (simp del: int_digits.simps)
qed

text \<open>Numerals: what \<open>nat_str\<close> prints is read back.\<close>

lemma dec_val_snoc: "dec_val (s @ [c]) = dec_val s * 10 + digit_val c"
  by (simp add: dec_val_def)

lemma nat_str_digits: "x \<in> set (nat_str n) \<Longrightarrow> is_dec x"
proof (induction n arbitrary: x rule: nat_str.induct)
  case (1 n)
  have d: "is_dec (char_of (48 + k))" if "k < 10" for k :: nat
    using that by (simp add: is_dec_def ccode_def)
  show ?case
    using 1 d by (subst (asm) nat_str.simps [of n]) (auto split: if_splits)
qed

lemma dec_val_nat_str: "dec_val (nat_str n) = int n"
proof (induction n rule: nat_str.induct)
  case (1 n)
  have d: "digit_val (char_of (48 + k)) = int k" if "k < 10" for k :: nat
    using that by (simp add: digit_val_def ccode_def)
  show ?case
  proof (cases "n < 10")
    case True
    then show ?thesis using d [of n] by (subst nat_str.simps) (simp add: dec_val_def)
  next
    case False
    then show ?thesis using 1 d [of "n mod 10"] by (subst nat_str.simps) (simp add: dec_val_snoc zdiv_int zmod_int)
  qed
qed

lemma nat_str_not_Nil: "nat_str n \<noteq> []"
  by (subst nat_str.simps) simp

lemma py_int_nat_str: "py_int (nat_str n) = Some (int n)"
  using py_int_dec [of "nat_str n"] nat_str_digits dec_val_nat_str nat_str_not_Nil by metis

lemma split_join: "xs \<noteq> [] \<Longrightarrow> (\<forall>x \<in> set xs. c \<notin> set x) \<Longrightarrow> split_on c (join_on c xs) = xs"
  by (induction c xs rule: join_on.induct) (auto simp: split_on_no_sep split_on_append)

end
