(* ===== verification/PyValue.thy ===== *)
theory PyValue
  imports PyText Complex_Main
begin

text \<open>
  Python values as they come out of \<open>json.loads\<close> and \<open>yaml.safe_load\<close>. A float is an exact
  rational, an infinity or not-a-number; a dictionary keeps its entries in insertion order.
\<close>

datatype pyfloat = Fin rat | PosInf | NegInf | NaN

datatype pyval =
    VNone
  | VBool bool
  | VInt int
  | VFloat pyfloat
  | VStr string
  | VList "pyval list"
  | VDict "(pyval \<times> pyval) list"

text \<open>The truth value of \<open>if v:\<close>.\<close>

fun truthy :: "pyval \<Rightarrow> bool" where
  "truthy VNone = False"
| "truthy (VBool b) = b"
| "truthy (VInt n) = (n \<noteq> 0)"
| "truthy (VFloat f) = (f \<noteq> Fin 0)"
| "truthy (VStr s) = (s \<noteq> [])"
| "truthy (VList xs) = (xs \<noteq> [])"
| "truthy (VDict d) = (d \<noteq> [])"

text \<open>\<open>isinstance\<close>; \<open>bool\<close> is a subclass of \<open>int\<close>.\<close>

fun is_str :: "pyval \<Rightarrow> bool" where
  "is_str (VStr s) = True" | "is_str _ = False"

fun is_bool :: "pyval \<Rightarrow> bool" where
  "is_bool (VBool b) = True" | "is_bool _ = False"

fun is_int :: "pyval \<Rightarrow> bool" where
  "is_int (VInt n) = True" | "is_int (VBool b) = True" | "is_int _ = False"

fun is_float :: "pyval \<Rightarrow> bool" where
  "is_float (VFloat f) = True" | "is_float _ = False"

fun is_list :: "pyval \<Rightarrow> bool" where
  "is_list (VList xs) = True" | "is_list _ = False"

fun is_dict :: "pyval \<Rightarrow> bool" where
  "is_dict (VDict d) = True" | "is_dict _ = False"

text \<open>\<open>d.get(key)\<close> and \<open>key in d\<close> for a string key of a dictionary value.\<close>

fun vget :: "pyval \<Rightarrow> string \<Rightarrow> pyval option" where
  "vget (VDict d) k = map_of d (VStr k)"
| "vget _ k = None"

abbreviation vhas :: "pyval \<Rightarrow> string \<Rightarrow> bool" where
  "vhas d k \<equiv> vget d k \<noteq> None"

definition vget_or :: "pyval \<Rightarrow> string \<Rightarrow> pyval \<Rightarrow> pyval" where
  "vget_or d k v = (case vget d k of None \<Rightarrow> v | Some w \<Rightarrow> w)"

text \<open>
  Comparing a value with a string by \<open>==\<close> is structural equality with \<open>VStr\<close>: no other kind of
  value equals a string. The numeric reading of a value: booleans count as 0 and 1. \<open>None\<close> when it is no number.
\<close>

fun num_of :: "pyval \<Rightarrow> pyfloat option" where
  "num_of (VBool b) = Some (Fin (if b then 1 else 0))"
| "num_of (VInt n) = Some (Fin (of_int n))"
| "num_of (VFloat f) = Some f"
| "num_of _ = None"

text \<open>Iterating over a value; \<open>None\<close> is the \<open>TypeError\<close> of a value that is not iterable.\<close>

fun py_iter :: "pyval \<Rightarrow> pyval list option" where
  "py_iter (VList xs) = Some xs"
| "py_iter (VDict d) = Some (map fst d)"
| "py_iter (VStr s) = Some (map (\<lambda>c. VStr [c]) s)"
| "py_iter _ = None"

lemma vget_VDict_dset [simp]:
  "vget (VDict (dset (VStr k) v d)) k' = (if k' = k then Some v else vget (VDict d) k')"
  by simp

lemma vget_or_Some [simp]: "vget d k = Some w \<Longrightarrow> vget_or d k v = w"
  by (simp add: vget_or_def)

lemma vget_or_None [simp]: "vget d k = None \<Longrightarrow> vget_or d k v = v"
  by (simp add: vget_or_def)

end
