(* ===== verification/Keys.thy ===== *)
theory Keys
  imports PyText
begin

text \<open>
  The identifiers of the system: composite container keys (\<open>backend/utils/keys.py\<close>), container
  and image ids (\<open>container_id.py\<close>, \<open>image_id.py\<close>) and image references (\<open>image_ref.py\<close>).
\<close>

section \<open>Composite keys\<close>

datatype key_error =
    EmptyHost
  | EmptyContainer
  | NotShortId nat string
  | EmptyKey
  | NoSeparator string

definition make_composite_key :: "string \<Rightarrow> string \<Rightarrow> (key_error, string) res" where
  "make_composite_key host_id container_id =
     (if host_id = [] then Inl EmptyHost
      else if container_id = [] then Inl EmptyContainer
      else if length container_id \<noteq> 12
           then Inl (NotShortId (length container_id) container_id)
      else Inr (host_id @ '':'' @ container_id))"

definition host_of_composite_key :: "string \<Rightarrow> string" where
  "host_of_composite_key key =
     (case split_first (CHR '':'') key of None \<Rightarrow> key | Some (host, _) \<Rightarrow> host)"

definition parse_composite_key :: "string \<Rightarrow> (key_error, string \<times> string) res" where
  "parse_composite_key composite_key =
     (if composite_key = [] then Inl EmptyKey
      else case split_first (CHR '':'') composite_key of
        None \<Rightarrow> Inl (NoSeparator composite_key)
      | Some (host_id, container_id) \<Rightarrow>
          if host_id = [] then Inl EmptyHost
          else if container_id = [] then Inl EmptyContainer
          else if length container_id \<noteq> 12
               then Inl (NotShortId (length container_id) container_id)
          else Inr (host_id, container_id))"

lemma make_composite_key_Inr:
  "make_composite_key h c = Inr k \<longleftrightarrow> h \<noteq> [] \<and> length c = 12 \<and> k = h @ '':'' @ c"
  by (auto simp: make_composite_key_def)

lemma parse_composite_key_Inr:
  "parse_composite_key k = Inr (h, c) \<longleftrightarrow>
     k = h @ '':'' @ c \<and> CHR '':'' \<notin> set h \<and> h \<noteq> [] \<and> length c = 12"
proof
  assume "parse_composite_key k = Inr (h, c)"
  then have "split_first (CHR '':'') k = Some (h, c) \<and> h \<noteq> [] \<and> length c = 12"
    by (auto simp: parse_composite_key_def split: option.splits prod.splits if_splits)
  then show "k = h @ '':'' @ c \<and> CHR '':'' \<notin> set h \<and> h \<noteq> [] \<and> length c = 12"
    by (simp add: split_first_Some_iff)
next
  assume a: "k = h @ '':'' @ c \<and> CHR '':'' \<notin> set h \<and> h \<noteq> [] \<and> length c = 12"
  then have "split_first (CHR '':'') k = Some (h, c)" by (simp add: split_first_append)
  with a show "parse_composite_key k = Inr (h, c)" by (auto simp: parse_composite_key_def)
qed

lemma host_of_made_key: "host_of_composite_key (h @ '':'' @ c) = h \<longleftrightarrow> CHR '':'' \<notin> set h"
proof
  assume "CHR '':'' \<notin> set h"
  then show "host_of_composite_key (h @ '':'' @ c) = h"
    by (simp add: host_of_composite_key_def split_first_append)
next
  assume h: "host_of_composite_key (h @ '':'' @ c) = h"
  have "split_first (CHR '':'') (h @ '':'' @ c) \<noteq> None" by simp
  then obtain a b where ab: "split_first (CHR '':'') (h @ '':'' @ c) = Some (a, b)"
    by (metis not_None_eq surj_pair)
  with h have "a = h" by (simp add: host_of_composite_key_def)
  with ab show "CHR '':'' \<notin> set h" by (simp add: split_first_Some_iff)
qed

text \<open>
  The interface the per-container indexes use: a partial constructor of keys that never maps two
  containers to one key, so an index keyed by it keeps the containers of different hosts apart.
\<close>

locale container_keys =
  fixes mk :: "'h \<Rightarrow> 'c \<Rightarrow> ('e, 'k) res"
  assumes mk_inj: "mk h c = Inr k \<Longrightarrow> mk h' c' = Inr k \<Longrightarrow> h = h' \<and> c = c'"
begin

lemma mk_apart: "mk h c = Inr k \<Longrightarrow> mk h' c' = Inr k' \<Longrightarrow> (h, c) \<noteq> (h', c') \<Longrightarrow> k \<noteq> k'"
  using mk_inj by blast

lemma index_frame:
  "mk h c = Inr k \<Longrightarrow> mk h' c' = Inr k' \<Longrightarrow> (h, c) \<noteq> (h', c') \<Longrightarrow>
     dget (dset k v d) k' = dget d k'"
  using mk_apart by fastforce

end

interpretation ck: container_keys make_composite_key
  by unfold_locales (auto simp: make_composite_key_Inr append_eq_append_conv)

section \<open>Ids\<close>

definition normalize_container_id :: "string \<Rightarrow> string" where
  "normalize_container_id container_id = take 12 container_id"

definition normalize_image_id :: "string \<Rightarrow> string" where
  "normalize_image_id image_id = take 12 (remove_all ''sha256:'' image_id)"

lemma normalize_container_id_idem [simp]:
  "normalize_container_id (normalize_container_id c) = normalize_container_id c"
  by (simp add: normalize_container_id_def)

lemma normalize_container_id_makes_key:
  "h \<noteq> [] \<Longrightarrow> 12 \<le> length c \<Longrightarrow> is_ok (make_composite_key h (normalize_container_id c))"
  by (auto simp: make_composite_key_def normalize_container_id_def)

section \<open>Image references\<close>

text \<open>\<open>s.rfind(c)\<close>\<close>

fun rfind :: "char \<Rightarrow> string \<Rightarrow> int" where
  "rfind c [] = -1"
| "rfind c (x # xs) =
     (let r = rfind c xs in if 0 \<le> r then r + 1 else if x = c then 0 else -1)"

definition looks_like_registry :: "string \<Rightarrow> bool" where
  "looks_like_registry head =
     (CHR ''.'' \<in> set head \<or> CHR '':'' \<in> set head \<or> head = ''localhost'')"

definition drop_registry :: "string \<Rightarrow> string" where
  "drop_registry ref = (case split_first (CHR ''/'') ref of
      None \<Rightarrow> ref
    | Some (head, rest) \<Rightarrow> if looks_like_registry head then rest else ref)"

definition drop_tag :: "string \<Rightarrow> string" where
  "drop_tag ref =
     (let last_slash = rfind (CHR ''/'') ref; last_colon = rfind (CHR '':'') ref
      in if last_colon > last_slash then take (nat last_colon) ref else ref)"

definition extract_image_repository :: "string option \<Rightarrow> string" where
  "extract_image_repository image_ref = (case image_ref of
      None \<Rightarrow> []
    | Some s \<Rightarrow>
        if s = [] then []
        else (let ref = (case split_first (CHR ''@'') s of None \<Rightarrow> s | Some (a, _) \<Rightarrow> a)
              in if starts_with ref ''sha256:'' then [] else drop_tag (drop_registry ref)))"

lemma rfind_absent: "c \<notin> set s \<Longrightarrow> rfind c s = -1"
  by (induction s) auto

lemma rfind_ge: "-1 \<le> rfind c s"
  by (induction s) (auto simp: Let_def)

lemma rfind_less: "rfind c s < int (length s)"
  by (induction s) (auto simp: Let_def)

lemma rfind_append:
  "rfind c (u @ v) = (if 0 \<le> rfind c v then rfind c v + int (length u) else rfind c u)"
proof (induction u)
  case Nil
  then show ?case using rfind_ge [of c v] by simp
next
  case (Cons x u)
  then show ?case by (auto simp: Let_def)
qed

lemma rfind_last_sep: "c \<notin> set v \<Longrightarrow> rfind c (u @ c # v) = int (length u)"
  by (simp add: rfind_append rfind_absent)

lemma drop_tag_with_tag:
  assumes "CHR '':'' \<notin> set t" and "CHR ''/'' \<notin> set t"
  shows "drop_tag (r @ '':'' @ t) = r"
proof -
  have "rfind (CHR '':'') (r @ '':'' @ t) = int (length r)"
    using assms by (simp add: rfind_last_sep)
  moreover have "rfind (CHR ''/'') (r @ '':'' @ t) < int (length r)"
  proof -
    have "rfind (CHR ''/'') ('':'' @ t) = -1"
      using assms by (intro rfind_absent) auto
    then show ?thesis using rfind_less [of "CHR ''/''" r] by (simp add: rfind_append)
  qed
  ultimately show ?thesis by (simp add: drop_tag_def)
qed

lemma drop_tag_without_tag: "CHR '':'' \<notin> set r \<Longrightarrow> drop_tag r = r"
  using rfind_ge [of "CHR ''/''" r] by (simp add: drop_tag_def rfind_absent)

lemma drop_registry_host:
  "CHR ''/'' \<notin> set h \<Longrightarrow> looks_like_registry h \<Longrightarrow> drop_registry (h @ ''/'' @ r) = r"
  by (simp add: drop_registry_def split_first_append)

section \<open>Properties\<close>

text \<open>Proved as well: the composite key codec is exact. A key parses to a host and a container exactly when
  making the key of that pair gives the key back and the host has no colon of its own; so a
  parsed key is always rebuilt unchanged, and two pairs never share a key.\<close>

theorem composite_key_roundtrip:
  "(parse_composite_key k = Inr (h, c)) =
     (make_composite_key h c = Inr k \<and> host_of_composite_key k = h)"
  by (auto simp: parse_composite_key_Inr make_composite_key_Inr host_of_made_key [simplified])

text \<open>Proved as well: a reference with a registry host, a repository, a tag and a digest yields exactly the
  repository: the host, the tag and the digest never reach the pattern matching of update
  policies, whatever they contain.\<close>

theorem image_repository_exact:
  assumes host: "looks_like_registry h" "CHR ''/'' \<notin> set h" "CHR ''@'' \<notin> set h"
    and repo: "CHR ''@'' \<notin> set r"
    and tag: "CHR '':'' \<notin> set t" "CHR ''/'' \<notin> set t" "CHR ''@'' \<notin> set t"
    and not_digest: "\<not> starts_with (h @ ''/'' @ r @ '':'' @ t) ''sha256:''"
  shows "extract_image_repository (Some (h @ ''/'' @ r @ '':'' @ t @ ''@'' @ d)) = r"
proof -
  let ?ref = "h @ ''/'' @ r @ '':'' @ t"
  have "CHR ''@'' \<notin> set ?ref" using host repo tag by auto
  then have "split_first (CHR ''@'') (?ref @ CHR ''@'' # d) = Some (?ref, d)"
    by (rule split_first_append)
  then show ?thesis
    using not_digest host tag drop_registry_host [of h "r @ '':'' @ t"] drop_tag_with_tag [of t r]
    by (simp add: extract_image_repository_def)
qed

theorem image_repository_exact_witness:
  "extract_image_repository (Some ''ghcr.io/org/app:1.2@sha256:abc'') = ''org/app''"
  using image_repository_exact [of "''ghcr.io''" "''org/app''" "''1.2''" "''sha256:abc''"]
  by (simp add: looks_like_registry_def starts_with_def)

end
