(* ===== verification/RateLimits.thy ===== *)
theory RateLimits
  imports PyText Complex_Main
begin

text \<open>
  The two limiters: the HTTP token bucket with bans (\<open>backend/security/rate_limiting.py\<close>) and
  the WebSocket sliding window (\<open>backend/websocket/rate_limiter.py\<close>). \<open>time.time()\<close> is a rational
  number of seconds, read once per call; tokens are exact rationals.
\<close>

section \<open>Configuration from the environment\<close>

type_synonym env = "string \<Rightarrow> string option"
type_synonym limit = "int \<times> int \<times> int" \<comment> \<open>requests per minute, burst, violation threshold\<close>

definition get_int_env :: "env \<Rightarrow> string \<Rightarrow> int \<Rightarrow> int" where
  "get_int_env env key def = (case env key of
      None \<Rightarrow> def
    | Some value \<Rightarrow> (case py_int value of
          None \<Rightarrow> def
        | Some parsed \<Rightarrow> if parsed < 0 then def else parsed))"

definition env_limit :: "env \<Rightarrow> string \<Rightarrow> int \<Rightarrow> int \<Rightarrow> int \<Rightarrow> limit" where
  "env_limit env suffix rpm burst violations =
     (get_int_env env (''DOCKMON_RATE_LIMIT_'' @ suffix) rpm,
      get_int_env env (''DOCKMON_RATE_BURST_'' @ suffix) burst,
      get_int_env env (''DOCKMON_RATE_VIOLATIONS_'' @ suffix) violations)"

definition limits :: "env \<Rightarrow> (string, limit) pydict" where
  "limits env =
    [(''default'', env_limit env ''DEFAULT'' 120 20 8),
     (''auth'', env_limit env ''AUTH'' 10 5 10),
     (''hosts'', env_limit env ''HOSTS'' 60 15 8),
     (''containers'', env_limit env ''CONTAINERS'' 900 180 25),
     (''notifications'', env_limit env ''NOTIFICATIONS'' 30 10 5),
     (''alerts'', env_limit env ''ALERTS'' 100 20 8),
     (''alerts_write'', env_limit env ''ALERTS_WRITE'' 200 100 5),
     (''rules'', env_limit env ''RULES'' 50 10 8),
     (''rules_write'', env_limit env ''RULES_WRITE'' 10 3 5),
     (''rules_test'', env_limit env ''RULES_TEST'' 5 2 3),
     (''stacks'', env_limit env ''STACKS'' 60 15 8)]"

fun find_limit :: "string \<Rightarrow> (string, limit) pydict \<Rightarrow> limit option" where
  "find_limit endpoint [] = None"
| "find_limit endpoint ((pattern, l) # rest) =
     (if contains pattern (py_lower endpoint) then Some l else find_limit endpoint rest)"

definition get_limit :: "env \<Rightarrow> string \<Rightarrow> limit" where
  "get_limit env endpoint = (case find_limit endpoint (limits env) of
      Some l \<Rightarrow> l
    | None \<Rightarrow> env_limit env ''DEFAULT'' 120 20 8)"

section \<open>The token bucket\<close>

record client =
  tokens :: rat
  last_update :: rat
  violations :: int

record audit_entry =
  a_ip :: string
  a_endpoint :: string
  a_violations :: int
  a_banned :: bool

record limiter =
  clients :: "(string, client) pydict"
  last_cleanup :: rat
  banned_clients :: "(string, rat) pydict"
  audit_log :: "audit_entry list" \<comment> \<open>what \<open>security_audit\<close> was told\<close>

datatype verdict =
    Ok
  | BannedUntil rat
  | BannedRepeated
  | Exceeded int \<comment> \<open>try again in that many seconds\<close>

definition new_client :: "rat \<Rightarrow> client" where
  "new_client now = \<lparr>tokens = 100, last_update = now, violations = 0\<rparr>"

definition init_limiter :: "rat \<Rightarrow> limiter" where
  "init_limiter now = \<lparr>clients = [], last_cleanup = now, banned_clients = [], audit_log = []\<rparr>"

text \<open>\<open>int(x)\<close> of a float truncates towards zero.\<close>

definition trunc :: "rat \<Rightarrow> int" where
  "trunc x = (if 0 \<le> x then \<lfloor>x\<rfloor> else \<lceil>x\<rceil>)"

definition cleanup_old_entries :: "rat \<Rightarrow> limiter \<Rightarrow> limiter" where
  "cleanup_old_entries now st =
     (let cutoff = now - 3600;
          old_clients = map fst (filter (\<lambda>(ip, d). last_update d < cutoff) (clients st));
          expired_bans = map fst (filter (\<lambda>(ip, t). now > t) (banned_clients st))
      in st\<lparr>clients := ddel_all old_clients (clients st),
            banned_clients := ddel_all expired_bans (banned_clients st)\<rparr>)"

definition refill :: "rat \<Rightarrow> int \<Rightarrow> int \<Rightarrow> client \<Rightarrow> client" where
  "refill now rpm burst c =
     (let time_passed = now - last_update c;
          tokens_to_add = (time_passed / 60) * of_int rpm
      in c\<lparr>tokens := min (of_int burst) (tokens c + tokens_to_add), last_update := now\<rparr>)"

text \<open>The bucket itself, after the cleanup and the ban check.\<close>

definition take_token :: "env \<Rightarrow> rat \<Rightarrow> string \<Rightarrow> string \<Rightarrow> limiter \<Rightarrow> (bool \<times> verdict) \<times> limiter" where
  "take_token env now ip endpoint st =
     (case get_limit env endpoint of (rpm, burst, threshold) \<Rightarrow>
        let old = (case dget (clients st) ip of Some c \<Rightarrow> c | None \<Rightarrow> new_client now);
            time_passed = now - last_update old;
            c = refill now rpm burst old
        in if 1 \<le> tokens c
           then ((True, Ok), st\<lparr>clients := dset ip (c\<lparr>tokens := tokens c - 1\<rparr>) (clients st)\<rparr>)
           else
             (let c' = c\<lparr>violations := violations c + 1\<rparr>;
                  st' = st\<lparr>clients := dset ip c' (clients st)\<rparr>;
                  entry = \<lambda>b. \<lparr>a_ip = ip, a_endpoint = endpoint, a_violations = violations c', a_banned = b\<rparr>
              in if threshold \<le> violations c'
                 then ((False, BannedRepeated),
                       st'\<lparr>banned_clients := dset ip (now + 60) (banned_clients st'),
                           audit_log := audit_log st' @ [entry True]\<rparr>)
                 else ((False, Exceeded (trunc (60 - time_passed))),
                       st'\<lparr>audit_log := audit_log st' @ [entry False]\<rparr>)))"

definition is_allowed :: "env \<Rightarrow> rat \<Rightarrow> string \<Rightarrow> string \<Rightarrow> limiter \<Rightarrow> (bool \<times> verdict) \<times> limiter" where
  "is_allowed env now ip endpoint st =
     (let st1 = (if 300 \<le> now - last_cleanup st
                 then (cleanup_old_entries now st)\<lparr>last_cleanup := now\<rparr> else st)
      in case dget (banned_clients st1) ip of
        None \<Rightarrow> take_token env now ip endpoint st1
      | Some until \<Rightarrow>
          if now < until then ((False, BannedUntil until), st1)
          else take_token env now ip endpoint
                 (st1\<lparr>banned_clients := ddel ip (banned_clients st1)\<rparr>))"

definition get_stats :: "limiter \<Rightarrow> nat \<times> nat \<times> int" where
  "get_stats st = (length (clients st), length (banned_clients st),
     sum_list (map (\<lambda>(ip, c). violations c) (clients st)))"

section \<open>The WebSocket window\<close>

record ws_limiter =
  message_history :: "(string, rat list) pydict" \<comment> \<open>oldest first, at most 1000 per connection\<close>
  ws_violations :: "(string, int) pydict"

datatype ws_verdict = WsOk | PerSecond nat | PerMinute nat | PerHour nat

text \<open>\<open>deque(maxlen=1000).append\<close> drops the oldest entry when the deque is full.\<close>

definition deque_append :: "rat list \<Rightarrow> rat \<Rightarrow> rat list" where
  "deque_append h t = (let h' = h @ [t] in drop (length h' - 1000) h')"

definition count_within :: "rat \<Rightarrow> rat \<Rightarrow> rat list \<Rightarrow> nat" where
  "count_within now window h = length (filter (\<lambda>t. now - t \<le> window) h)"

definition bump_violation :: "string \<Rightarrow> ws_limiter \<Rightarrow> ws_limiter" where
  "bump_violation conn st =
     st\<lparr>ws_violations := dset conn
        ((case dget (ws_violations st) conn of None \<Rightarrow> 0 | Some n \<Rightarrow> n) + 1) (ws_violations st)\<rparr>"

definition check_rate_limit :: "rat \<Rightarrow> string \<Rightarrow> ws_limiter \<Rightarrow> (bool \<times> ws_verdict) \<times> ws_limiter" where
  "check_rate_limit now conn st =
     (let history = deque_append
            (case dget (message_history st) conn of None \<Rightarrow> [] | Some h \<Rightarrow> h) now;
          st1 = st\<lparr>message_history := dset conn history (message_history st)\<rparr>;
          per_second = count_within now 1 history;
          per_minute = count_within now 60 history;
          per_hour = count_within now 3600 history
      in if per_second > 100 then ((False, PerSecond per_second), bump_violation conn st1)
         else if per_minute > 1000 then ((False, PerMinute per_minute), bump_violation conn st1)
         else if per_hour > 10000 then ((False, PerHour per_hour), bump_violation conn st1)
         else ((True, WsOk), st1\<lparr>ws_violations := ddel conn (ws_violations st1)\<rparr>))"

definition cleanup_connection :: "string \<Rightarrow> ws_limiter \<Rightarrow> ws_limiter" where
  "cleanup_connection conn st =
     st\<lparr>message_history := ddel conn (message_history st),
        ws_violations := ddel conn (ws_violations st)\<rparr>"

definition get_connection_stats :: "rat \<Rightarrow> string \<Rightarrow> ws_limiter \<Rightarrow> nat \<times> nat \<times> nat \<times> int" where
  "get_connection_stats now conn st =
     (let history = (case dget (message_history st) conn of None \<Rightarrow> [] | Some h \<Rightarrow> h)
      in (count_within now 1 history, count_within now 60 history, count_within now 3600 history,
          (case dget (ws_violations st) conn of None \<Rightarrow> 0 | Some n \<Rightarrow> n)))"

datatype ws_event = Message rat string | Closed string

fun ws_step :: "ws_limiter \<Rightarrow> ws_event \<Rightarrow> ws_limiter" where
  "ws_step st (Message now conn) = snd (check_rate_limit now conn st)"
| "ws_step st (Closed conn) = cleanup_connection conn st"

definition init_ws :: ws_limiter where
  "init_ws = \<lparr>message_history = [], ws_violations = []\<rparr>"

section \<open>The limit classes\<close>

lemma get_int_env_nonneg: "0 \<le> def \<Longrightarrow> 0 \<le> get_int_env env key def"
  by (simp add: get_int_env_def split: option.splits)

lemma limits_nonneg: "(p, rpm, burst, v) \<in> set (limits env) \<Longrightarrow> 0 \<le> rpm \<and> 0 \<le> burst"
  unfolding limits_def env_limit_def by (auto intro!: get_int_env_nonneg)

lemma find_limit_mem: "find_limit e ls = Some l \<Longrightarrow> \<exists>p. (p, l) \<in> set ls"
  by (induction e ls rule: find_limit.induct) (auto split: if_splits)

lemma get_limit_nonneg: "get_limit env e = (rpm, burst, v) \<Longrightarrow> 0 \<le> rpm \<and> 0 \<le> burst"
proof -
  assume a: "get_limit env e = (rpm, burst, v)"
  have "\<exists>p. (p, get_limit env e) \<in> set (limits env)"
    unfolding get_limit_def using find_limit_mem [of e "limits env"]
    by (auto split: option.splits) (auto simp: limits_def)
  with a show ?thesis using limits_nonneg by metis
qed

lemma contains_trans: "contains p q \<Longrightarrow> contains q s \<Longrightarrow> contains p s"
  by (metis contains_append contains_iff)

lemma find_limit_skip:
  "find_limit e (ls @ (p, l) # ms) = find_limit e (ls @ ms)"
  if "list_ex (\<lambda>(q, m). contains q p) ls"
  using that
proof (induction ls)
  case (Cons a ls)
  show ?case
  proof (cases "contains (fst a) p")
    case True
    then have "contains p (py_lower e) \<Longrightarrow> contains (fst a) (py_lower e)"
      using contains_trans by blast
    then show ?thesis
    proof -
      assume imp: "contains p (py_lower e) \<Longrightarrow> contains (fst a) (py_lower e)"
      have "\<not> contains p (py_lower e) \<Longrightarrow> find_limit e (ls @ (p, l) # ms) = find_limit e (ls @ ms)"
        by (induction ls) auto
      with imp show ?thesis by (cases a) auto
    qed
  next
    case False
    with Cons show ?thesis by (cases a) auto
  qed
qed simp

section \<open>The bucket\<close>

definition accounted :: "rat \<Rightarrow> rat \<Rightarrow> string \<Rightarrow> rat \<Rightarrow> limiter \<Rightarrow> rat" where
  \<comment> \<open>an upper bound on the tokens a client can hold at time \<open>t\<close> under rate \<open>R\<close> and burst \<open>B\<close>\<close>
  "accounted R B ip t st = (case dget (clients st) ip of
      None \<Rightarrow> B
    | Some c \<Rightarrow> min B (tokens c + (t - last_update c) / 60 * R))"

definition bucket_ok :: "rat \<Rightarrow> limiter \<Rightarrow> bool" where
  "bucket_ok t st = (\<forall>ip c. dget (clients st) ip = Some c \<longrightarrow> 0 \<le> tokens c \<and> last_update c \<le> t)"

type_synonym request = "rat \<times> string \<times> string" \<comment> \<open>time, client, endpoint\<close>

fun serve :: "env \<Rightarrow> limiter \<Rightarrow> request list \<Rightarrow> limiter" where
  "serve env st [] = st"
| "serve env st ((now, ip, e) # rs) = serve env (snd (is_allowed env now ip e st)) rs"

fun allowed_count :: "env \<Rightarrow> string \<Rightarrow> limiter \<Rightarrow> request list \<Rightarrow> nat" where
  "allowed_count env c st [] = 0"
| "allowed_count env c st ((now, ip, e) # rs) =
     (if ip = c \<and> fst (fst (is_allowed env now ip e st)) then 1 else 0)
     + allowed_count env c (snd (is_allowed env now ip e st)) rs"

text \<open>The clients table after each part of a call.\<close>

lemma cleanup_clients:
  "dget (clients (cleanup_old_entries now st)) ip =
     (case dget (clients st) ip of None \<Rightarrow> None
      | Some c \<Rightarrow> if ip \<in> fst ` {p \<in> set (clients st). last_update (snd p) < now - 3600} then None else Some c)"
  by (auto simp: cleanup_old_entries_def Let_def split_def split: option.splits)

lemma wf_cleanup: "wf_dict (clients st) \<Longrightarrow> wf_dict (clients (cleanup_old_entries now st))"
  by (simp add: cleanup_old_entries_def Let_def)

lemma cleanup_Some:
  assumes "wf_dict (clients st)" and "dget (clients st) ip = Some c"
  shows "dget (clients (cleanup_old_entries now st)) ip =
     (if last_update c < now - 3600 then None else Some c)"
proof -
  have "ip \<in> fst ` {p \<in> set (clients st). last_update (snd p) < now - 3600} \<longleftrightarrow>
      last_update c < now - 3600"
    using wf_dict_dget [OF assms(1), of ip] assms(2) by force
  then show ?thesis using assms by (simp add: cleanup_clients)
qed

lemma cleanup_None: "dget (clients st) ip = None \<Longrightarrow> dget (clients (cleanup_old_entries now st)) ip = None"
  by (simp add: cleanup_clients)

lemma accounted_later:
  assumes "0 \<le> R" and "t \<le> t'"
  shows "accounted R B ip t' st \<le> accounted R B ip t st + (t' - t) / 60 * R"
proof -
  have d: "0 \<le> (t' - t) / 60 * R" using assms by simp
  show ?thesis
  proof (cases "dget (clients st) ip")
    case None
    with d show ?thesis by (simp add: accounted_def)
  next
    case (Some c)
    have "(t' - last_update c) / 60 * R = (t - last_update c) / 60 * R + (t' - t) / 60 * R"
      by (simp add: field_simps)
    with d Some show ?thesis unfolding accounted_def by (simp only: option.case)
  qed
qed

lemma accounted_cong:
  "dget (clients st) ip = dget (clients st') ip \<Longrightarrow> accounted R B ip t st = accounted R B ip t st'"
  by (simp add: accounted_def)

lemma accounted_cleanup:
  assumes wf: "wf_dict (clients st)" and ok: "bucket_ok t st" and R: "0 \<le> R" "B \<le> 60 * R"
  shows "accounted R B ip t (cleanup_old_entries t st) = accounted R B ip t st"
proof (cases "dget (clients st) ip")
  case None
  then show ?thesis by (simp add: accounted_def cleanup_None)
next
  case (Some c)
  show ?thesis
  proof (cases "last_update c < t - 3600")
    case True
    then have "60 \<le> (t - last_update c) / 60" by (simp add: field_simps)
    then have "60 * R \<le> (t - last_update c) / 60 * R" using R(1) by (rule mult_right_mono)
    moreover have "0 \<le> tokens c" using ok Some by (auto simp: bucket_ok_def)
    ultimately have "min B (tokens c + (t - last_update c) / 60 * R) = B" using R by auto
    with True Some show ?thesis by (simp add: accounted_def cleanup_Some [OF wf Some])
  next
    case False
    with Some show ?thesis by (simp add: accounted_def cleanup_Some [OF wf Some])
  qed
qed

lemma bucket_ok_cleanup: "wf_dict (clients st) \<Longrightarrow> bucket_ok t st \<Longrightarrow> bucket_ok t (cleanup_old_entries t st)"
  unfolding bucket_ok_def
  by (metis cleanup_None cleanup_Some not_None_eq option.distinct(1))

definition refilled :: "rat \<Rightarrow> int \<Rightarrow> int \<Rightarrow> string \<Rightarrow> limiter \<Rightarrow> rat" where
  "refilled t rpm burst ip st = min (of_int burst) (case dget (clients st) ip of
          None \<Rightarrow> 100
        | Some d \<Rightarrow> tokens d + (t - last_update d) / 60 * of_int rpm)"

lemma take_token_clients:
  assumes lim: "get_limit env e = (rpm, burst, v)"
  shows "\<exists>c. clients (snd (take_token env t ip e st)) = dset ip c (clients st)
    \<and> last_update c = t
    \<and> tokens c + (if fst (fst (take_token env t ip e st)) then 1 else 0) = refilled t rpm burst ip st
    \<and> (fst (fst (take_token env t ip e st)) \<longrightarrow> 0 \<le> tokens c)"
proof -
  define old where "old = (case dget (clients st) ip of Some c \<Rightarrow> c | None \<Rightarrow> new_client t)"
  define c where "c = refill t rpm burst old"
  have last_c: "last_update c = t" by (simp add: c_def refill_def Let_def)
  have tok_c: "tokens c = refilled t rpm burst ip st"
    by (simp add: c_def refill_def Let_def old_def new_client_def refilled_def split: option.split)
  note defs = take_token_def lim Let_def old_def [symmetric] c_def [symmetric] last_c
  show ?thesis
  proof (cases "1 \<le> tokens c")
    case True
    then show ?thesis
      by (intro exI [of _ "c\<lparr>tokens := tokens c - 1\<rparr>"]) (simp add: defs tok_c [symmetric])
  next
    case False
    then show ?thesis
      by (intro exI [of _ "c\<lparr>violations := violations c + 1\<rparr>"])
        (simp add: defs tok_c [symmetric] split: if_split)
  qed
qed

lemma bucket_ok_take_token:
  assumes "bucket_ok t st"
  shows "bucket_ok t (snd (take_token env t ip e st))"
proof -
  obtain rpm burst v where lim: "get_limit env e = (rpm, burst, v)" by (metis surj_pair)
  have nn: "0 \<le> rpm" "0 \<le> burst" using get_limit_nonneg [OF lim] by auto
  obtain c where c: "clients (snd (take_token env t ip e st)) = dset ip c (clients st)"
    "last_update c = t"
    "tokens c + (if fst (fst (take_token env t ip e st)) then 1 else 0) = refilled t rpm burst ip st"
    "fst (fst (take_token env t ip e st)) \<longrightarrow> 0 \<le> tokens c"
    using take_token_clients [OF lim, of t ip st] by blast
  have "0 \<le> refilled t rpm burst ip st"
    using assms nn by (auto simp: refilled_def bucket_ok_def split: option.split)
  then have "0 \<le> tokens c" using c(3,4) by (cases "fst (fst (take_token env t ip e st))") auto
  with assms c(1,2) show ?thesis by (auto simp: bucket_ok_def)
qed

lemma accounted_take_token:
  assumes ok: "bucket_ok t st" and lim: "get_limit env e = (rpm, burst, v)"
    and R: "of_int rpm \<le> R" and B: "of_int burst \<le> B"
  shows "accounted R B ip t (snd (take_token env t ip e st))
     + (if fst (fst (take_token env t ip e st)) then 1 else 0) \<le> accounted R B ip t st"
proof -
  let ?a = "if fst (fst (take_token env t ip e st)) then 1 else 0 :: rat"
  obtain c where c: "clients (snd (take_token env t ip e st)) = dset ip c (clients st)"
    "last_update c = t" "tokens c + ?a = refilled t rpm burst ip st"
    using take_token_clients [OF lim, of t ip st] by blast
  have "refilled t rpm burst ip st \<le> accounted R B ip t st"
  proof (cases "dget (clients st) ip")
    case None
    with B show ?thesis by (simp add: accounted_def refilled_def)
  next
    case (Some d)
    have "0 \<le> (t - last_update d) / 60" using ok Some by (auto simp: bucket_ok_def)
    then have "(t - last_update d) / 60 * of_int rpm \<le> (t - last_update d) / 60 * R"
      using R by (intro mult_left_mono)
    with B Some show ?thesis unfolding accounted_def refilled_def by (simp only: option.case)
  qed
  moreover have "accounted R B ip t (snd (take_token env t ip e st)) = min B (tokens c)"
    using c(1,2) by (simp add: accounted_def)
  ultimately show ?thesis using c(3) by linarith
qed

lemma take_token_frame:
  "ip' \<noteq> ip \<Longrightarrow> dget (clients (snd (take_token env t ip e st))) ip' = dget (clients st) ip'"
  using take_token_clients [of env e _ _ _ t ip st] by (cases "get_limit env e") force

lemma wf_take_token:
  "wf_dict (clients st) \<Longrightarrow> wf_dict (clients (snd (take_token env t ip e st)))"
  using take_token_clients [of env e _ _ _ t ip st] by (cases "get_limit env e") force

text \<open>One call is the optional cleanup, then either the refusal of a ban or the bucket.\<close>

lemma is_allowed_cases:
  obtains (banned) u st1 where "is_allowed env t ip e st = ((False, BannedUntil u), st1)"
      "clients st1 = clients st \<or> clients st1 = clients (cleanup_old_entries t st)"
    | (bucket) st1 where "is_allowed env t ip e st = take_token env t ip e st1"
      "clients st1 = clients st \<or> clients st1 = clients (cleanup_old_entries t st)"
proof -
  define st1 where "st1 = (if 300 \<le> t - last_cleanup st
      then (cleanup_old_entries t st)\<lparr>last_cleanup := t\<rparr> else st)"
  have cl: "clients st1 = clients st \<or> clients st1 = clients (cleanup_old_entries t st)"
    by (simp add: st1_def)
  have eq: "is_allowed env t ip e st = (case dget (banned_clients st1) ip of
        None \<Rightarrow> take_token env t ip e st1
      | Some until \<Rightarrow>
          if t < until then ((False, BannedUntil until), st1)
          else take_token env t ip e (st1\<lparr>banned_clients := ddel ip (banned_clients st1)\<rparr>))"
    unfolding is_allowed_def st1_def Let_def by (rule refl)
  show ?thesis
  proof (cases "dget (banned_clients st1) ip")
    case None
    then show ?thesis using eq cl bucket by simp
  next
    case (Some u)
    show ?thesis
    proof (cases "t < u")
      case True
      then show ?thesis using eq cl Some banned by simp
    next
      case False
      have "clients (st1\<lparr>banned_clients := ddel ip (banned_clients st1)\<rparr>) = clients st1" by simp
      then show ?thesis using eq cl Some False bucket by simp
    qed
  qed
qed

lemma bucket_ok_cong: "clients st = clients st' \<Longrightarrow> bucket_ok t st = bucket_ok t st'"
  by (simp add: bucket_ok_def)

lemma bucket_ok_later: "bucket_ok t st \<Longrightarrow> t \<le> t' \<Longrightarrow> bucket_ok t' st"
  by (force simp: bucket_ok_def)

lemma is_allowed_keeps:
  assumes "wf_dict (clients st)" and "bucket_ok t st"
  shows "wf_dict (clients (snd (is_allowed env t ip e st)))"
    and "bucket_ok t (snd (is_allowed env t ip e st))"
proof -
  have *: "wf_dict (clients st1) \<and> bucket_ok t st1"
    if "clients st1 = clients st \<or> clients st1 = clients (cleanup_old_entries t st)" for st1
    using that assms wf_cleanup bucket_ok_cleanup bucket_ok_cong by metis
  show "wf_dict (clients (snd (is_allowed env t ip e st)))"
    by (cases rule: is_allowed_cases [of env t ip e st]) (use * wf_take_token in auto)
  show "bucket_ok t (snd (is_allowed env t ip e st))"
    by (cases rule: is_allowed_cases [of env t ip e st]) (use * bucket_ok_take_token in auto)
qed

lemma is_allowed_accounted:
  assumes wf: "wf_dict (clients st)" and ok: "bucket_ok t st"
    and R: "0 \<le> R" "B \<le> 60 * R"
    and lim: "ip = c \<Longrightarrow> of_int (fst (get_limit env e)) \<le> R \<and> of_int (fst (snd (get_limit env e))) \<le> B"
  shows "accounted R B c t (snd (is_allowed env t ip e st))
     + (if ip = c \<and> fst (fst (is_allowed env t ip e st)) then 1 else 0) \<le> accounted R B c t st"
proof -
  have *: "accounted R B c t st1 = accounted R B c t st \<and> bucket_ok t st1"
    if "clients st1 = clients st \<or> clients st1 = clients (cleanup_old_entries t st)" for st1
    using that ok bucket_ok_cleanup [OF wf ok] accounted_cleanup [OF wf ok R]
      accounted_cong [of st1 c "cleanup_old_entries t st"] accounted_cong [of st1 c st]
      bucket_ok_cong by metis
  show ?thesis
  proof (cases rule: is_allowed_cases [of env t ip e st])
    case (banned u st1)
    with * [of st1] show ?thesis by simp
  next
    case (bucket st1)
    note st1 = * [OF bucket(2)]
    show ?thesis
    proof (cases "ip = c")
      case True
      obtain rpm burst v where l: "get_limit env e = (rpm, burst, v)" by (metis surj_pair)
      from accounted_take_token [OF conjunct2 [OF st1] l, of R B ip] lim [OF True] True st1 l bucket
      show ?thesis by simp
    next
      case False
      then have "accounted R B c t (snd (take_token env t ip e st1)) = accounted R B c t st1"
        by (intro accounted_cong take_token_frame) simp
      with False st1 bucket show ?thesis by simp
    qed
  qed
qed

text \<open>Requests arrive in the order of their times, none before \<open>t\<close>.\<close>

fun in_order :: "rat \<Rightarrow> request list \<Rightarrow> bool" where
  "in_order t [] = True"
| "in_order t ((now, ip, e) # rs) = (t \<le> now \<and> in_order now rs)"

definition last_time :: "rat \<Rightarrow> request list \<Rightarrow> rat" where
  "last_time t rs = foldl (\<lambda>_ r. fst r) t rs"

lemma last_time_simps [simp]:
  "last_time t [] = t" "last_time t ((now, ip, e) # rs) = last_time now rs"
  by (simp_all add: last_time_def)

lemma allowed_within_account:
  assumes "wf_dict (clients st)" and "bucket_ok t st" and "in_order t rs"
    and "0 \<le> R" and "B \<le> 60 * R"
    and "\<forall>(now, ip, e) \<in> set rs. ip = c \<longrightarrow>
       of_int (fst (get_limit env e)) \<le> R \<and> of_int (fst (snd (get_limit env e))) \<le> B"
  shows "of_nat (allowed_count env c st rs) + accounted R B c (last_time t rs) (serve env st rs)
     \<le> accounted R B c t st + (last_time t rs - t) / 60 * R"
  using assms
proof (induction env st rs arbitrary: t rule: serve.induct)
  case (2 env st now ip e rs)
  let ?st' = "snd (is_allowed env now ip e st)"
  have t: "t \<le> now" "in_order now rs" using "2.prems"(3) by auto
  have ok: "bucket_ok now st" using "2.prems"(2) t(1) by (rule bucket_ok_later)
  have "of_nat (allowed_count env c ?st' rs) + accounted R B c (last_time now rs) (serve env ?st' rs)
     \<le> accounted R B c now ?st' + (last_time now rs - now) / 60 * R"
    using "2.IH" [of now] "2.prems" is_allowed_keeps [OF "2.prems"(1) ok, of env ip e] t(2) by auto
  moreover have "accounted R B c now ?st'
     + (if ip = c \<and> fst (fst (is_allowed env now ip e st)) then 1 else 0) \<le> accounted R B c now st"
    using "2.prems" ok by (intro is_allowed_accounted) auto
  moreover have "accounted R B c now st \<le> accounted R B c t st + (now - t) / 60 * R"
    using "2.prems"(4) t(1) by (rule accounted_later)
  moreover have "(last_time now rs - t) / 60 * R
     = (last_time now rs - now) / 60 * R + (now - t) / 60 * R"
    by (simp add: field_simps)
  moreover have step: "rat_of_nat (allowed_count env c st ((now, ip, e) # rs)) =
      (if ip = c \<and> fst (fst (is_allowed env now ip e st)) then 1 else 0)
      + rat_of_nat (allowed_count env c ?st' rs)" by auto
  ultimately show ?case unfolding step serve.simps last_time_simps by linarith
qed simp

lemma accounted_nonneg: "0 \<le> R \<Longrightarrow> 0 \<le> B \<Longrightarrow> bucket_ok t st \<Longrightarrow> 0 \<le> accounted R B ip t st"
  by (auto simp: accounted_def bucket_ok_def split: option.split)

lemma serve_keeps:
  "wf_dict (clients st) \<Longrightarrow> bucket_ok t st \<Longrightarrow> in_order t rs \<Longrightarrow>
     bucket_ok (last_time t rs) (serve env st rs)"
proof (induction env st rs arbitrary: t rule: serve.induct)
  case (2 env st now ip e rs)
  then show ?case using is_allowed_keeps [of st now env ip e] bucket_ok_later by fastforce
qed simp

section \<open>The window\<close>

definition ws_bounded :: "ws_limiter \<Rightarrow> bool" where
  "ws_bounded st = (\<forall>conn h. dget (message_history st) conn = Some h \<longrightarrow> length h \<le> 1000)"

lemma deque_append_length [simp]: "length (deque_append h t) \<le> 1000"
  by (simp add: deque_append_def Let_def)

lemma count_within_le: "count_within now w h \<le> length h"
  by (simp add: count_within_def)

lemma count_within_append_le: "count_within now w (deque_append h t) \<le> 1000"
  using count_within_le deque_append_length order_trans by blast

lemma ws_step_bounded: "ws_bounded st \<Longrightarrow> ws_bounded (ws_step st e)"
  by (cases e)
    (auto simp: ws_bounded_def check_rate_limit_def cleanup_connection_def bump_violation_def Let_def
      split: if_splits)

interpretation ws: machine ws_step ws_bounded
  by unfold_locales (rule ws_step_bounded)

section \<open>Properties\<close>

text \<open>Proved as well: the token bucket bounds every client. Over any run of requests from any clients, in time
  order from a fresh limiter, a client whose endpoints have rate at most \<open>R\<close> per minute and burst
  at most \<open>B\<close> gets at most \<open>B + R * elapsed / 60\<close> requests through, whatever the interleaving,
  the periodic cleanups and the bans in between, provided \<open>B\<close> is at most an hour of refill.\<close>

theorem token_bucket_bound:
  assumes "in_order t0 rs"
    and "0 \<le> R" and "0 \<le> B" and "B \<le> 60 * R"
    and "\<forall>(now, ip, e) \<in> set rs. ip = c \<longrightarrow>
       of_int (fst (get_limit env e)) \<le> R \<and> of_int (fst (snd (get_limit env e))) \<le> B"
  shows "of_nat (allowed_count env c (init_limiter t0) rs) \<le> B + (last_time t0 rs - t0) / 60 * R"
proof -
  have ok: "wf_dict (clients (init_limiter t0))" "bucket_ok t0 (init_limiter t0)"
    by (simp_all add: init_limiter_def bucket_ok_def)
  have "0 \<le> accounted R B c (last_time t0 rs) (serve env (init_limiter t0) rs)"
    using assms(2,3) serve_keeps [OF ok assms(1)] by (intro accounted_nonneg)
  moreover have "accounted R B c t0 (init_limiter t0) = B"
    by (simp add: accounted_def init_limiter_def)
  ultimately show ?thesis
    using allowed_within_account [OF ok assms(1,2,4,5)] by linarith
qed

theorem token_bucket_bound_witness:
  "of_nat (allowed_count (\<lambda>_. None) ''10.0.0.1'' (init_limiter 0)
      [(0, ''10.0.0.1'', ''auth_/login''), (3, ''10.0.0.1'', ''auth_/login'')])
     \<le> (5 + (3 - 0) / 60 * 10 :: rat)"
  using token_bucket_bound [of 0 "[(0, ''10.0.0.1'', ''auth_/login''), (3, ''10.0.0.1'', ''auth_/login'')]"
      10 5 "''10.0.0.1''" "\<lambda>_. None"]
  by (simp add: get_limit_def limits_def env_limit_def get_int_env_def starts_with_def py_lower_def
      lower_char_def ccode_def is_upper_ascii_def Let_def)

text \<open>Proved as well: the three write classes are dead configuration. The classes are tried in order and
  matched by substring, so an endpoint that names \<open>alerts_write\<close>, \<open>rules_write\<close> or \<open>rules_test\<close>
  already matched \<open>alerts\<close> or \<open>rules\<close>: with the three entries deleted every endpoint gets the
  same limits, whatever the environment sets.\<close>

theorem write_limits_unreachable:
  "find_limit endpoint (limits env) =
     find_limit endpoint (ddel_all [''alerts_write'', ''rules_write'', ''rules_test''] (limits env))"
proof -
  let ?d = "env_limit env"
  let ?a = "[(''default'', ?d ''DEFAULT'' 120 20 8), (''auth'', ?d ''AUTH'' 10 5 10),
     (''hosts'', ?d ''HOSTS'' 60 15 8), (''containers'', ?d ''CONTAINERS'' 900 180 25),
     (''notifications'', ?d ''NOTIFICATIONS'' 30 10 5), (''alerts'', ?d ''ALERTS'' 100 20 8)]"
  let ?b = "[(''rules'', ?d ''RULES'' 50 10 8)]" and ?c = "[(''stacks'', ?d ''STACKS'' 60 15 8)]"
  have "find_limit endpoint (limits env) = find_limit endpoint (?a @ (''alerts_write'', ?d ''ALERTS_WRITE'' 200 100 5) # ?b
      @ [(''rules_write'', ?d ''RULES_WRITE'' 10 3 5), (''rules_test'', ?d ''RULES_TEST'' 5 2 3)] @ ?c)"
    by (simp add: limits_def)
  also have "\<dots> = find_limit endpoint ((?a @ ?b) @ (''rules_write'', ?d ''RULES_WRITE'' 10 3 5)
      # [(''rules_test'', ?d ''RULES_TEST'' 5 2 3)] @ ?c)"
    by (subst find_limit_skip) (simp_all add: starts_with_def)
  also have "\<dots> = find_limit endpoint ((?a @ ?b) @ (''rules_test'', ?d ''RULES_TEST'' 5 2 3) # ?c)"
    by (subst find_limit_skip) (simp_all add: starts_with_def)
  also have "\<dots> = find_limit endpoint ((?a @ ?b) @ ?c)"
    by (subst find_limit_skip) (simp_all add: starts_with_def)
  finally show ?thesis by (simp add: limits_def ddel_all_def)
qed

text \<open>Proved as well: the container routes never get the container limits. Their paths lie under
  \<open>/api/hosts/\<close> and \<open>hosts\<close> is tried before \<open>containers\<close>, so an endpoint text with \<open>hosts\<close> in it
  gets the \<open>default\<close>, the \<open>auth\<close> or the \<open>hosts\<close> class and none after them.\<close>

theorem host_paths_get_host_limits:
  assumes "contains ''hosts'' (py_lower endpoint)"
  shows "get_limit env endpoint =
     (if contains ''default'' (py_lower endpoint) then env_limit env ''DEFAULT'' 120 20 8
      else if contains ''auth'' (py_lower endpoint) then env_limit env ''AUTH'' 10 5 10
      else env_limit env ''HOSTS'' 60 15 8)"
  using assms by (simp add: get_limit_def limits_def)

theorem host_paths_get_host_limits_witness:
  "get_limit (\<lambda>_. None) ''containers_/api/hosts/1/containers/2/restart'' = (60, 15, 8)"
  using host_paths_get_host_limits [of "''containers_/api/hosts/1/containers/2/restart''" "\<lambda>_. None"]
  by (simp add: env_limit_def get_int_env_def starts_with_def py_lower_def
      lower_char_def ccode_def is_upper_ascii_def Let_def)

text \<open>Proved as well: the WebSocket limiter is a pure per-second limit. The history of a connection keeps at most
  1000 messages, so the per-minute limit of 1000 and the per-hour limit of 10000 can never be
  exceeded: in every reachable state a message is refused exactly when it is at least the 101st
  within one second, and the reason is always the per-second one.\<close>

theorem ws_only_per_second:
  "let st = run ws_step init_ws es;
       h = deque_append (case dget (message_history st) conn of None \<Rightarrow> [] | Some h \<Rightarrow> h) now
   in fst (check_rate_limit now conn st) =
        (if count_within now 1 h > 100 then (False, PerSecond (count_within now 1 h)) else (True, WsOk))
      \<and> dget (message_history (snd (check_rate_limit now conn st))) conn = Some h \<and> length h \<le> 1000"
proof -
  define st where "st = run ws_step init_ws es"
  define h where "h = deque_append (case dget (message_history st) conn of None \<Rightarrow> [] | Some h \<Rightarrow> h) now"
  have "count_within now w h \<le> 1000" for w
    unfolding h_def by (rule count_within_append_le)
  from this [of 60] this [of 3600]
  have "\<not> count_within now 60 h > 1000" "\<not> count_within now 3600 h > 10000" by simp_all
  moreover have "length h \<le> 1000" by (simp add: h_def)
  ultimately show ?thesis
    unfolding st_def [symmetric] Let_def h_def [symmetric]
    by (auto simp: check_rate_limit_def h_def [symmetric] bump_violation_def Let_def)
qed

end
