(* ===== verification/SafeRegex.thy ===== *)
theory SafeRegex
  imports PyValue
begin

text \<open>
  Bounded evaluation of user-supplied selector patterns (\<open>backend/alerts/safe_regex.py\<close>): the
  expansion screen before compiling, the quarantine of patterns that time out, and the validation
  of a selector field on write. The \<open>regex\<close> library is a parameter: whether a pattern compiles and
  how matching it against a subject ends. \<open>time.monotonic()\<close> is a rational number of seconds.
\<close>

section \<open>The expansion screen\<close>

definition MAX_REPEAT_EXPANSION :: int where "MAX_REPEAT_EXPANSION = 200000"
definition OVER_LIMIT :: int where "OVER_LIMIT = MAX_REPEAT_EXPANSION + 1"
definition MAX_PATTERN_LENGTH :: nat where "MAX_PATTERN_LENGTH = 500"
definition QUARANTINE_TTL_SECONDS :: rat where "QUARANTINE_TTL_SECONDS = 900"
definition MAX_QUARANTINED_PATTERNS :: nat where "MAX_QUARANTINED_PATTERNS = 256"
definition MAX_SELECTOR_SIZE_BYTES :: nat where "MAX_SELECTOR_SIZE_BYTES = 10000"

definition is_flag :: "char \<Rightarrow> bool" where
  "is_flag c = (c \<in> set ''aiLmsux'')"

text \<open>\<open>_VERBOSE_FLAG.search\<close>: \<open>(?\<close>, flags with an \<open>x\<close> among them, then \<open>)\<close> or \<open>:\<close>.\<close>

definition verbose_at :: "string \<Rightarrow> bool" where
  "verbose_at s = (starts_with s ''(?'' \<and>
     (let t = drop 2 s; flags = takeWhile is_flag t; rest = dropWhile is_flag t
      in CHR ''x'' \<in> set flags \<and> rest \<noteq> [] \<and> hd rest \<in> {CHR '')'', CHR '':''}))"

fun has_verbose_flag :: "string \<Rightarrow> bool" where
  "has_verbose_flag [] = False"
| "has_verbose_flag (c # s) = (verbose_at (c # s) \<or> has_verbose_flag s)"

text \<open>
  \<open>_BOUNDED_REPEAT.match\<close> at an opening brace: the count the repeat expands to and what follows
  it. An open tail \<open>{n,}\<close> counts as \<open>n\<close>.
\<close>

definition bounded_repeat :: "string \<Rightarrow> (int \<times> string) option" where
  "bounded_repeat s =
     (case s of [] \<Rightarrow> None
      | c # t \<Rightarrow>
        (let low = takeWhile is_dec t; r1 = dropWhile is_dec t in
         if c \<noteq> CHR ''{'' \<or> low = [] \<or> r1 = [] then None
         else if hd r1 = CHR ''}'' then Some (dec_val low, tl r1)
         else if hd r1 = CHR '','' then
           (let high = takeWhile is_dec (tl r1); r2 = dropWhile is_dec (tl r1) in
            if r2 \<noteq> [] \<and> hd r2 = CHR ''}''
            then Some (if high = [] then dec_val low else dec_val high, tl r2) else None)
         else None))"

text \<open>\<open>pattern.find(')', i)\<close>: what follows the next closing parenthesis.\<close>

definition after_paren :: "string \<Rightarrow> string option" where
  "after_paren s = map_option snd (split_first (CHR '')'') s)"

lemma bounded_repeat_shorter: "bounded_repeat s = Some (n, r) \<Longrightarrow> length r < length s"
proof -
  assume a: "bounded_repeat s = Some (n, r)"
  then obtain c t where s: "s = c # t" by (cases s) (auto simp: bounded_repeat_def)
  have l1: "length (dropWhile is_dec t) \<le> length t" by (rule length_dropWhile_le)
  have l2: "length (dropWhile is_dec (tl (dropWhile is_dec t))) \<le> length (tl (dropWhile is_dec t))"
    by (rule length_dropWhile_le)
  from a s l1 l2 show ?thesis
    by (auto simp: bounded_repeat_def Let_def split: if_splits)
qed

lemma after_paren_shorter: "after_paren s = Some r \<Longrightarrow> length r < length s"
  by (auto simp: after_paren_def split_first_Some_iff)

text \<open>The scan of the pattern; \<open>n\<close> is the length of the whole pattern.\<close>

function scan :: "int \<Rightarrow> string \<Rightarrow> bool \<Rightarrow> int \<Rightarrow> int" where
  "scan n s in_class product =
     (case s of
        [] \<Rightarrow> if in_class then OVER_LIMIT else product * max n 1
      | c # t \<Rightarrow>
          if c = CHR 0x5C then scan n (drop 1 t) in_class product
          else if in_class then scan n t (c \<noteq> CHR '']'') product
          else if c = CHR ''['' then scan n t True product
          else if starts_with s ''(?#'' then
            (case after_paren s of None \<Rightarrow> OVER_LIMIT | Some r \<Rightarrow> scan n r False product)
          else case (if c = CHR ''{'' then bounded_repeat s else None) of
            None \<Rightarrow> scan n t False product
          | Some (count, r) \<Rightarrow>
              if product * max count 1 * n > MAX_REPEAT_EXPANSION then OVER_LIMIT
              else scan n r False (product * max count 1))"
  by pat_completeness auto
termination
  by (relation "measure (\<lambda>(n, s, in_class, product). length s)")
    (auto dest: bounded_repeat_shorter after_paren_shorter split: if_splits)

declare scan.simps [simp del]

definition expansion_bound :: "string \<Rightarrow> int" where
  "expansion_bound pattern =
     (if has_verbose_flag pattern then OVER_LIMIT
      else scan (int (length pattern)) pattern False 1)"

section \<open>Compiling and matching\<close>

datatype rx_outcome = RxMatch | RxNoMatch | RxTimeout

record rx_lib =
  rx_compiles :: "string \<Rightarrow> bool" \<comment> \<open>\<open>regex.compile\<close> succeeds\<close>
  rx_run :: "string \<Rightarrow> string \<Rightarrow> rx_outcome" \<comment> \<open>\<open>compiled.match(subject, timeout)\<close>\<close>

datatype rx_error = TooExpanded int | Uncompilable | PatternTooLong nat

definition compiled :: "rx_lib \<Rightarrow> string \<Rightarrow> (rx_error, unit) res" where
  "compiled lib pattern =
     (let bound = expansion_bound pattern in
      if bound > MAX_REPEAT_EXPANSION then Inl (TooExpanded bound)
      else if rx_compiles lib pattern then Inr () else Inl Uncompilable)"

definition compile_selector_pattern :: "rx_lib \<Rightarrow> string \<Rightarrow> (rx_error, unit) res" where
  "compile_selector_pattern lib pattern =
     (if length pattern > MAX_PATTERN_LENGTH then Inl (PatternTooLong (length pattern))
      else compiled lib pattern)"

section \<open>The quarantine\<close>

type_synonym quarantine = "(string, rat) pydict" \<comment> \<open>pattern to the time it was quarantined\<close>

definition expired :: "rat \<Rightarrow> rat \<Rightarrow> bool" where
  "expired now since = (now - since > QUARANTINE_TTL_SECONDS)"

definition is_quarantined :: "rat \<Rightarrow> string \<Rightarrow> quarantine \<Rightarrow> bool \<times> quarantine" where
  "is_quarantined now pattern q = (case dget q pattern of
      None \<Rightarrow> (False, q)
    | Some since \<Rightarrow> if expired now since then (False, ddel pattern q) else (True, q))"

definition purge_expired :: "rat \<Rightarrow> quarantine \<Rightarrow> quarantine" where
  "purge_expired now q = ddel_all (map fst (filter (\<lambda>(p, since). expired now since) q)) q"

definition is_saturated :: "rat \<Rightarrow> quarantine \<Rightarrow> bool \<times> quarantine" where
  "is_saturated now q = (let q' = purge_expired now q in (MAX_QUARANTINED_PATTERNS \<le> length q', q'))"

definition quarantine_pattern :: "rat \<Rightarrow> string \<Rightarrow> quarantine \<Rightarrow> quarantine" where
  "quarantine_pattern now pattern q =
     (if dhas q pattern then q
      else case is_saturated now q of
        (True, q') \<Rightarrow> q'
      | (False, q') \<Rightarrow> dset pattern now q')"

definition selector_matches :: "rx_lib \<Rightarrow> rat \<Rightarrow> string \<Rightarrow> string \<Rightarrow> quarantine \<Rightarrow> bool \<times> quarantine" where
  "selector_matches lib now pattern subject q =
     (case is_quarantined now pattern q of
        (True, q1) \<Rightarrow> (False, q1)
      | (False, q1) \<Rightarrow>
        (case is_saturated now q1 of
           (True, q2) \<Rightarrow> (False, q2)
         | (False, q2) \<Rightarrow>
           (case compiled lib pattern of
              Inl e \<Rightarrow> (False, quarantine_pattern now pattern q2)
            | Inr _ \<Rightarrow>
              (case rx_run lib pattern subject of
                 RxMatch \<Rightarrow> (True, q2)
               | RxNoMatch \<Rightarrow> (False, q2)
               | RxTimeout \<Rightarrow> (False, quarantine_pattern now pattern q2)))))"

definition REGEX_PREFIX :: string where "REGEX_PREFIX = ''regex:''"

definition selector_value_matches ::
    "rx_lib \<Rightarrow> rat \<Rightarrow> string \<Rightarrow> string option \<Rightarrow> quarantine \<Rightarrow> bool \<times> quarantine" where
  "selector_value_matches lib now selector_value subject q =
     (if starts_with selector_value REGEX_PREFIX
      then selector_matches lib now (drop (length REGEX_PREFIX) selector_value)
             (case subject of None \<Rightarrow> [] | Some s \<Rightarrow> s) q
      else (subject = Some selector_value, q))"

text \<open>\<open>active_quarantines\<close>: checks a copy of the keys in order; each check may drop an expired one.\<close>

fun active_in :: "rat \<Rightarrow> string list \<Rightarrow> quarantine \<Rightarrow> string list \<times> quarantine" where
  "active_in now [] q = ([], q)"
| "active_in now (p # ps) q =
     (case is_quarantined now p q of (b, q1) \<Rightarrow>
        (case active_in now ps q1 of (r, q2) \<Rightarrow> (if b then p # r else r, q2)))"

definition active_quarantines :: "rat \<Rightarrow> quarantine \<Rightarrow> string list \<times> quarantine" where
  "active_quarantines now q = active_in now (map fst q) q"

section \<open>Validation of a selector field\<close>

datatype selector_error =
    TooLarge
  | NotJson
  | NotAnObject
  | IncludeNotStrings
  | BadPattern string rx_error

definition utf8_length :: "string \<Rightarrow> nat" where
  \<comment> \<open>bytes of \<open>raw.encode("utf-8")\<close>: two for a code point above 127\<close>
  "utf8_length s = sum_list (map (\<lambda>c. if ccode c < 128 then 1 else 2) s)"

definition check_regex_key :: "rx_lib \<Rightarrow> pyval \<Rightarrow> string \<Rightarrow> (selector_error, unit) res" where
  "check_regex_key lib selector key = (case vget selector key of
      Some (VStr value) \<Rightarrow>
        if starts_with value REGEX_PREFIX then
          (case compile_selector_pattern lib (drop (length REGEX_PREFIX) value) of
             Inl e \<Rightarrow> Inl (BadPattern key e) | Inr _ \<Rightarrow> Inr ())
        else Inr ()
    | _ \<Rightarrow> Inr ())"

definition validate_selector_field ::
    "(string \<Rightarrow> pyval option) \<Rightarrow> rx_lib \<Rightarrow> string option \<Rightarrow> (selector_error, unit) res" where
  "validate_selector_field loads lib raw = (case raw of
      None \<Rightarrow> Inr ()
    | Some s \<Rightarrow>
       if s = [] then Inr ()
       else if utf8_length s > MAX_SELECTOR_SIZE_BYTES then Inl TooLarge
       else (case loads s of
          None \<Rightarrow> Inl NotJson
        | Some selector \<Rightarrow>
            if \<not> is_dict selector then Inl NotAnObject
            else if (case vget_or selector ''include'' VNone of
                       VNone \<Rightarrow> False | VList xs \<Rightarrow> \<not> list_all is_str xs | _ \<Rightarrow> True)
                 then Inl IncludeNotStrings
            else check_each (check_regex_key lib selector) [''host_name'', ''container_name'']))"

section \<open>Lemmas\<close>

lemma wf_is_quarantined: "wf_dict q \<Longrightarrow> wf_dict (snd (is_quarantined now p q))"
  by (auto simp: is_quarantined_def split: option.splits)

lemma wf_is_saturated: "wf_dict q \<Longrightarrow> wf_dict (snd (is_saturated now q))"
  by (simp add: is_saturated_def purge_expired_def Let_def)

lemma length_ddel_all: "length (ddel_all ks d) \<le> length d"
  unfolding ddel_all_def
proof (induction ks arbitrary: d)
  case (Cons k ks)
  have "length (ddel k d) \<le> length d" by (rule length_delete_le)
  with Cons [of "ddel k d"] show ?case by simp
qed simp

lemma length_is_quarantined: "length (snd (is_quarantined now p q)) \<le> length q"
  using length_delete_le [of p q] by (auto simp: is_quarantined_def split: option.splits)

lemma length_is_saturated: "length (snd (is_saturated now q)) \<le> length q"
  by (simp add: is_saturated_def purge_expired_def length_ddel_all Let_def)

lemma is_saturated_False: "\<not> fst (is_saturated now q) \<Longrightarrow> length (snd (is_saturated now q)) < 256"
  by (auto simp: is_saturated_def MAX_QUARANTINED_PATTERNS_def Let_def)

lemma length_quarantine_pattern:
  "length q \<le> 256 \<Longrightarrow> length (quarantine_pattern now p q) \<le> 256"
  using length_is_saturated [of now q] is_saturated_False [of now q]
  by (auto simp: quarantine_pattern_def length_dset split: prod.splits bool.splits)

lemma length_selector_matches:
  assumes "length q \<le> 256"
  shows "length (snd (selector_matches lib now p s q)) \<le> 256"
proof -
  obtain b1 q1 where 1: "is_quarantined now p q = (b1, q1)" by fastforce
  obtain b2 q2 where 2: "is_saturated now q1 = (b2, q2)" by fastforce
  have "length q1 \<le> 256" using assms length_is_quarantined [of now p q] 1 by simp
  moreover from this have "length q2 \<le> 256" using length_is_saturated [of now q1] 2 by simp
  ultimately show ?thesis
    by (auto simp: selector_matches_def 1 2 length_quarantine_pattern
        split: bool.splits sum.splits rx_outcome.splits)
qed

datatype rx_event = Evaluate rat string "string option"

fun rx_step :: "rx_lib \<Rightarrow> quarantine \<Rightarrow> rx_event \<Rightarrow> quarantine" where
  "rx_step lib q (Evaluate now v s) = snd (selector_value_matches lib now v s q)"

lemma rx_step_bounded: "length q \<le> 256 \<Longrightarrow> length (rx_step lib q e) \<le> 256"
  by (cases e) (auto simp: selector_value_matches_def length_selector_matches)

interpretation rx: machine "rx_step lib" "\<lambda>q. length q \<le> 256" for lib
  by unfold_locales (rule rx_step_bounded)

lemma purge_keeps:
  assumes "dget q p = Some since" and "\<not> expired now since" and "wf_dict q"
  shows "dget (purge_expired now q) p = Some since"
  using assms wf_dict_dget [OF assms(3)] by (auto simp: purge_expired_def)

lemma expired_mono: "\<not> expired t since \<Longrightarrow> t' \<le> t \<Longrightarrow> \<not> expired t' since"
  by (simp add: expired_def)

section \<open>What the screen accepts\<close>

text \<open>
  The declarative reading of the screen: the counts of the bounded repeats that stand outside
  escapes, classes and comments; \<open>None\<close> when a class or a comment is left open.
\<close>

function repeat_counts :: "string \<Rightarrow> bool \<Rightarrow> int list option" where
  "repeat_counts s in_class =
     (case s of
        [] \<Rightarrow> if in_class then None else Some []
      | c # t \<Rightarrow>
          if c = CHR 0x5C then repeat_counts (drop 1 t) in_class
          else if in_class then repeat_counts t (c \<noteq> CHR '']'')
          else if c = CHR ''['' then repeat_counts t True
          else if starts_with s ''(?#'' then
            (case after_paren s of None \<Rightarrow> None | Some r \<Rightarrow> repeat_counts r False)
          else case (if c = CHR ''{'' then bounded_repeat s else None) of
            None \<Rightarrow> repeat_counts t False
          | Some (count, r) \<Rightarrow> map_option (\<lambda>ks. count # ks) (repeat_counts r False))"
  by pat_completeness auto
termination
  by (relation "measure (\<lambda>(s, in_class). length s)")
    (auto dest: bounded_repeat_shorter after_paren_shorter split: if_splits)

declare repeat_counts.simps [simp del]

definition expansion :: "int list \<Rightarrow> int" where
  "expansion ks = prod_list (map (\<lambda>k. max k 1) ks)"

lemma expansion_Cons [simp]: "expansion (k # ks) = max k 1 * expansion ks"
  by (simp add: expansion_def)

lemma expansion_pos: "1 \<le> expansion ks"
proof (induction ks)
  case (Cons k ks)
  have "1 * 1 \<le> max k 1 * expansion ks" using Cons by (intro mult_mono) auto
  then show ?case by simp
qed (simp add: expansion_def)

definition within_limit :: "int \<Rightarrow> int \<Rightarrow> int list option \<Rightarrow> bool" where
  "within_limit n product ks = (case ks of None \<Rightarrow> False
     | Some ks \<Rightarrow> product * expansion ks * max n 1 \<le> MAX_REPEAT_EXPANSION)"

lemma not_over: "\<not> OVER_LIMIT \<le> MAX_REPEAT_EXPANSION"
  by (simp add: OVER_LIMIT_def)

lemma within_limit_Cons:
  assumes "1 \<le> n" and "1 \<le> product"
  shows "within_limit n product (map_option (\<lambda>ks. k # ks) m) \<longleftrightarrow>
     product * max k 1 * n \<le> MAX_REPEAT_EXPANSION \<and> within_limit n (product * max k 1) m"
proof (cases m)
  case (Some ks)
  define a e where "a = product * max k 1" and "e = expansion ks"
  have "1 * 1 \<le> a" unfolding a_def using assms(2) by (intro mult_mono) auto
  moreover have e: "1 \<le> e" unfolding e_def by (rule expansion_pos)
  ultimately have "0 \<le> a * n * (e - 1)" using assms(1) by simp
  then have "a * n \<le> a * e * n" by (simp add: right_diff_distrib mult.commute mult.left_commute)
  moreover have "within_limit n product (map_option (\<lambda>ks. k # ks) m) \<longleftrightarrow>
      a * e * n \<le> MAX_REPEAT_EXPANSION"
    using assms(1) unfolding Some within_limit_def a_def e_def by (simp add: mult.assoc max_def)
  moreover have "within_limit n a m \<longleftrightarrow> a * e * n \<le> MAX_REPEAT_EXPANSION"
    using assms(1) unfolding Some within_limit_def e_def by (simp add: max_def)
  ultimately show ?thesis unfolding a_def [symmetric] by auto
qed (simp add: within_limit_def)

lemmas scan_Cons = scan.simps [of n "c # t"] for n c t
lemmas repeat_counts_Cons = repeat_counts.simps [of "c # t"] for c t
lemmas unf = scan_Cons repeat_counts_Cons

lemma scan_within_limit:
  "1 \<le> n \<Longrightarrow> 1 \<le> product \<Longrightarrow>
     (scan n s in_class product \<le> MAX_REPEAT_EXPANSION) =
       within_limit n product (repeat_counts s in_class)"
proof (induction n s in_class product rule: scan.induct)
  case (1 n s in_class product)
  note IH = "1.IH" and n = "1.prems"
  show ?case
  proof (cases s)
    case Nil
    then show ?thesis
      using not_over by (simp add: scan.simps repeat_counts.simps within_limit_def expansion_def)
  next
    case s: (Cons c t)
    consider (esc) "c = CHR 0x5C" | (cls) "c \<noteq> CHR 0x5C" "in_class"
      | (opens) "c = CHR ''[''" "\<not> in_class"
      | (comment) "c \<noteq> CHR 0x5C" "\<not> in_class" "c \<noteq> CHR ''[''" "starts_with s ''(?#''"
      | (rep) "c \<noteq> CHR 0x5C" "\<not> in_class" "c \<noteq> CHR ''[''" "\<not> starts_with s ''(?#''"
      by fastforce
    then show ?thesis
    proof cases
      case esc
      then show ?thesis using IH(1) [OF s] n by (simp add: unf s)
    next
      case cls
      then show ?thesis using IH(2) [OF s] n by (simp add: unf s)
    next
      case opens
      then show ?thesis using IH(3) [OF s] n by (simp add: unf s)
    next
      case comment
      then show ?thesis using IH(4) [OF s] n s not_over
        by (cases "after_paren s") (simp_all add: unf within_limit_def)
    next
      case rep
      show ?thesis
      proof (cases "if c = CHR ''{'' then bounded_repeat s else None")
        case None
        have "scan n s in_class product = scan n t False product"
          using rep None by (simp add: scan_Cons s split: if_splits)
        moreover have "repeat_counts s in_class = repeat_counts t False"
          using rep None by (simp add: repeat_counts_Cons s split: if_splits)
        ultimately show ?thesis using rep IH(5) [OF s] None n s by simp
      next
        case (Some p)
        obtain k r where p: "p = (k, r)" by fastforce
        have br: "c = CHR ''{''" "bounded_repeat (CHR ''{'' # t) = Some (k, r)"
          using Some s p by (auto split: if_splits)
        have pos: "1 \<le> product * max k 1" using n(2) mult_mono [of 1 product 1 "max k 1"] by simp
        have "scan n s in_class product = (if product * max k 1 * n > MAX_REPEAT_EXPANSION
            then OVER_LIMIT else scan n r False (product * max k 1))"
          using rep br by (simp add: scan_Cons s)
        moreover have "repeat_counts s in_class = map_option (\<lambda>ks. k # ks) (repeat_counts r False)"
          using rep br by (simp add: repeat_counts_Cons s)
        ultimately show ?thesis
          using IH(6) [OF s] rep Some p n pos not_over s by (auto simp: within_limit_Cons)
      qed
    qed
  qed
qed

section \<open>Properties\<close>

text \<open>Proved as well: the early-exit scan of the expansion screen decides exactly the declarative condition. A
  non-empty pattern passes it if and only if it enables no verbose mode, closes every class and
  comment, and the product of its bounded repeat counts times its length is at most 200000.\<close>

theorem screen_exact:
  "(pattern \<noteq> [] \<and> expansion_bound pattern \<le> MAX_REPEAT_EXPANSION) =
     (pattern \<noteq> [] \<and> \<not> has_verbose_flag pattern \<and>
      (\<exists>ks. repeat_counts pattern False = Some ks \<and>
        expansion ks * int (length pattern) \<le> 200000))"
proof (cases pattern)
  case (Cons c t)
  then have n: "1 \<le> int (length pattern)" by simp
  show ?thesis
    using scan_within_limit [OF n, of 1 pattern False] Cons not_over
    by (auto simp: expansion_bound_def within_limit_def MAX_REPEAT_EXPANSION_def
        split: option.splits)
qed simp

text \<open>Proved as well: matching fails closed. A selector match answers true only when the pattern is not in
  quarantine, a quarantine slot is free, the screen accepts it, it compiles and the library
  reports a match; and every run of evaluations keeps the quarantine within its 256 slots.\<close>

theorem selector_match_fails_closed:
  "(fst (selector_matches lib now p s (run (rx_step lib) [] es)) =
     (let q = run (rx_step lib) [] es in
      \<not> fst (is_quarantined now p q)
      \<and> length (purge_expired now (snd (is_quarantined now p q))) < 256
      \<and> expansion_bound p \<le> 200000 \<and> rx_compiles lib p \<and> rx_run lib p s = RxMatch))
   \<and> length (run (rx_step lib) [] es) \<le> 256"
  using rx.run_inv [of "[]" lib es]
  by (auto simp: selector_matches_def is_saturated_def compiled_def Let_def
      MAX_QUARANTINED_PATTERNS_def MAX_REPEAT_EXPANSION_def
      split: prod.splits bool.splits sum.splits rx_outcome.splits if_splits)

text \<open>Proved as well: one timeout per pattern and period. After a match that timed out with a free slot, the
  pattern answers false for the next 900 seconds whatever the library would say: the result
  of a later evaluation is the same for every library, so the pattern is not run again.\<close>

theorem timed_out_pattern_rests:
  assumes "wf_dict q" and "\<not> fst (is_quarantined now p q)"
    and "\<not> fst (is_saturated now (snd (is_quarantined now p q)))"
    and "compiled lib p = Inr ()" and "rx_run lib p s = RxTimeout"
    and "now \<le> later" and "later - now \<le> 900"
  shows "selector_matches lib' later p s' (snd (selector_matches lib now p s q)) =
           (False, snd (selector_matches lib now p s q))"
proof -
  obtain q1 where 1: "is_quarantined now p q = (False, q1)" using assms(2) by (cases "is_quarantined now p q") auto
  obtain q2 where 2: "is_saturated now q1 = (False, q2)" using assms(3) 1 by (cases "is_saturated now q1") auto
  have p1: "dget q1 p = None"
    using 1 by (auto simp: is_quarantined_def split: option.splits if_splits)
  have "dget q2 p = None"
    using 2 p1 by (auto simp: is_saturated_def purge_expired_def Let_def)
  then have "\<not> dhas q2 p" by (simp add: dhas_def)
  moreover have "fst (is_saturated now q2) = False"
  proof -
    have "length q2 < MAX_QUARANTINED_PATTERNS" using 2 by (auto simp: is_saturated_def Let_def)
    moreover have "length (purge_expired now q2) \<le> length q2"
      by (simp add: purge_expired_def length_ddel_all)
    ultimately show ?thesis by (simp add: is_saturated_def Let_def)
  qed
  ultimately have q3: "dget (quarantine_pattern now p q2) p = Some now"
    by (cases "is_saturated now q2") (auto simp: quarantine_pattern_def)
  have "snd (selector_matches lib now p s q) = quarantine_pattern now p q2"
    using assms(4,5) by (simp add: selector_matches_def 1 2)
  moreover have "\<not> expired later now"
    using assms(7) by (simp add: expired_def QUARANTINE_TTL_SECONDS_def)
  ultimately show ?thesis
    using q3 by (simp add: selector_matches_def is_quarantined_def)
qed

theorem timed_out_pattern_rests_witness:
  "selector_matches \<lparr>rx_compiles = \<lambda>_. True, rx_run = \<lambda>_ _. RxMatch\<rparr> 100 ''(a+)+b'' ''aab''
     (snd (selector_matches \<lparr>rx_compiles = \<lambda>_. True, rx_run = \<lambda>_ _. RxTimeout\<rparr> 0 ''(a+)+b'' ''aac'' []))
   = (False, snd (selector_matches \<lparr>rx_compiles = \<lambda>_. True, rx_run = \<lambda>_ _. RxTimeout\<rparr> 0 ''(a+)+b'' ''aac'' []))"
proof (rule timed_out_pattern_rests)
  show "compiled \<lparr>rx_compiles = \<lambda>_. True, rx_run = \<lambda>_ _. RxTimeout\<rparr> ''(a+)+b'' = Inr ()"
    by code_simp
qed (simp_all add: is_quarantined_def is_saturated_def purge_expired_def ddel_all_def
      MAX_QUARANTINED_PATTERNS_def)

end
