(* ===== verification/AlertMetrics.thy ===== *)
theory AlertMetrics
  imports PyValue
begin

text \<open>
  What an alert rule may declare (\<open>backend/alerts/metrics.py\<close>) and the threshold test of the
  engine (\<open>AlertEngine._check_breach\<close>), with the contract that ties the two: a rule the schema
  accepts is one the engine can act on, and its clear threshold never clears a breaching value.
  A finite float is an exact rational.
\<close>

section \<open>The schema tables\<close>

definition PRODUCED_METRICS_BY_SCOPE :: "(string, string list) pydict" where
  "PRODUCED_METRICS_BY_SCOPE =
     [(''host'', [''cpu_percent'', ''memory_percent'', ''disk_percent'']),
      (''container'', [''cpu_percent'', ''memory_percent'', ''memory_usage'', ''memory_limit'']),
      (''group'', [])]"

definition PENDING_METRICS_BY_SCOPE :: "(string, string list) pydict" where
  "PENDING_METRICS_BY_SCOPE = [(''host'', []), (''container'', []), (''group'', [])]"

definition VALID_SCOPES :: "string list" where
  "VALID_SCOPES = map fst PRODUCED_METRICS_BY_SCOPE"

definition STORABLE_SCOPES :: "string list" where
  "STORABLE_SCOPES = VALID_SCOPES @ [''system'']"

definition METRIC_RANGES :: "(string \<times> string, rat \<times> rat option) pydict" where
  "METRIC_RANGES =
     [((''host'', ''cpu_percent''), (0, Some 100)),
      ((''container'', ''cpu_percent''), (0, Some 6400)),
      ((''host'', ''memory_percent''), (0, Some 100)),
      ((''container'', ''memory_percent''), (0, Some 100)),
      ((''host'', ''disk_percent''), (0, Some 100)),
      ((''container'', ''memory_usage''), (0, None)),
      ((''container'', ''memory_limit''), (0, None))]"

definition BREACH_OPERATORS :: "string list" where
  "BREACH_OPERATORS = [''>='', ''<='', ''>'', ''<'', ''=='']"

definition RISING_OPERATORS :: "string list" where "RISING_OPERATORS = [''>='', ''>'']"
definition FALLING_OPERATORS :: "string list" where "FALLING_OPERATORS = [''<='', ''<'']"

definition metrics_for_scope :: "string \<Rightarrow> string list" where
  "metrics_for_scope scope =
     (case dget PRODUCED_METRICS_BY_SCOPE scope of None \<Rightarrow> [] | Some ms \<Rightarrow> ms) @
     (case dget PENDING_METRICS_BY_SCOPE scope of None \<Rightarrow> [] | Some ms \<Rightarrow> ms)"

definition is_produced :: "string option \<Rightarrow> string option \<Rightarrow> bool" where
  "is_produced scope metric = (case (scope, metric) of
      (Some s, Some m) \<Rightarrow> s \<noteq> [] \<and> m \<noteq> [] \<and>
        (case dget PRODUCED_METRICS_BY_SCOPE s of None \<Rightarrow> False | Some ms \<Rightarrow> m \<in> set ms)
    | _ \<Rightarrow> False)"

section \<open>Validation\<close>

datatype metric_error =
    InvalidScope
  | MetricNotAvailable
  | ThresholdRequired
  | OperatorRequired
  | OperatorNotEvaluated
  | NotANumber string
  | NotFinite string
  | OverflowError
  | BelowMinimum string
  | AboveMaximum string
  | ClearMustEqual
  | ClearAboveThreshold
  | ClearBelowThreshold

text \<open>
  \<open>math.isfinite\<close> converts an integer to a double first and raises \<open>OverflowError\<close> from the
  midpoint above the largest double on.
\<close>

definition int_overflows :: "int \<Rightarrow> bool" where
  "int_overflows n = (\<bar>n\<bar> \<ge> 2 ^ 1024 - 2 ^ 970)"

definition in_bounds :: "string \<Rightarrow> rat \<Rightarrow> rat \<times> rat option \<Rightarrow> (metric_error, unit) res" where
  "in_bounds label x bounds =
     (if x < fst bounds then Inl (BelowMinimum label)
      else case snd bounds of
        None \<Rightarrow> Inr ()
      | Some high \<Rightarrow> if x > high then Inl (AboveMaximum label) else Inr ())"

fun check_number :: "string \<Rightarrow> pyval \<Rightarrow> rat \<times> rat option \<Rightarrow> (metric_error, unit) res" where
  "check_number label (VInt n) bounds =
     (if int_overflows n then Inl OverflowError else in_bounds label (of_int n) bounds)"
| "check_number label (VFloat (Fin x)) bounds = in_bounds label x bounds"
| "check_number label (VFloat _) bounds = Inl (NotFinite label)"
| "check_number label _ bounds = Inl (NotANumber label)"

text \<open>The finite number a checked value stands for.\<close>

definition rat_of :: "pyval \<Rightarrow> rat" where
  "rat_of v = (case num_of v of Some (Fin x) \<Rightarrow> x | _ \<Rightarrow> 0)"

definition check_clear :: "string \<Rightarrow> rat \<Rightarrow> rat \<Rightarrow> (metric_error, unit) res" where
  "check_clear operator threshold clear =
     (if operator = ''=='' \<and> clear \<noteq> threshold then Inl ClearMustEqual
      else if operator \<in> set RISING_OPERATORS \<and> clear > threshold then Inl ClearAboveThreshold
      else if operator \<in> set FALLING_OPERATORS \<and> clear < threshold then Inl ClearBelowThreshold
      else Inr ())"

definition validate_metric_fields ::
    "string option \<Rightarrow> string option \<Rightarrow> pyval \<Rightarrow> pyval \<Rightarrow> string option \<Rightarrow> (metric_error, unit) res" where
  "validate_metric_fields scope metric threshold clear_threshold operator =
     (case scope of None \<Rightarrow> Inl InvalidScope
      | Some s \<Rightarrow>
        if s \<notin> set STORABLE_SCOPES then Inl InvalidScope
        else case metric of None \<Rightarrow> Inr ()
        | Some m \<Rightarrow>
          if m \<notin> set (metrics_for_scope s) then Inl MetricNotAvailable
          else if threshold = VNone then Inl ThresholdRequired
          else case operator of None \<Rightarrow> Inl OperatorRequired
          | Some op \<Rightarrow>
            if op \<notin> set BREACH_OPERATORS then Inl OperatorNotEvaluated
            else
              let bounds = the (dget METRIC_RANGES (s, m)) in
              res_bind (check_number ''threshold'' threshold bounds) (\<lambda>_.
                if clear_threshold = VNone then Inr ()
                else res_bind (check_number ''clear_threshold'' clear_threshold bounds) (\<lambda>_.
                  check_clear op (rat_of threshold) (rat_of clear_threshold))))"

section \<open>The threshold test\<close>

datatype breach_error = TypeError \<comment> \<open>comparing a number with \<open>None\<close>\<close>

definition breaches :: "rat \<Rightarrow> rat \<Rightarrow> string \<Rightarrow> bool" where
  "breaches value threshold operator =
     (if operator = ''>='' then value \<ge> threshold
      else if operator = ''<='' then value \<le> threshold
      else if operator = ''=='' then
        (let epsilon = (if threshold \<noteq> 0 then \<bar>threshold\<bar> * (1 / 100000) else 1 / 100000)
         in \<bar>value - threshold\<bar> < epsilon)
      else if operator = ''>'' then value > threshold
      else if operator = ''<'' then value < threshold
      else False)"

definition check_breach :: "rat \<Rightarrow> rat option \<Rightarrow> string option \<Rightarrow> (breach_error, bool) res" where
  "check_breach value threshold operator =
     (case operator of None \<Rightarrow> Inr False
      | Some op \<Rightarrow>
        if op \<notin> set BREACH_OPERATORS then Inr False
        else case threshold of None \<Rightarrow> Inl TypeError
        | Some t \<Rightarrow> Inr (breaches value t op))"

section \<open>Lemmas\<close>

text \<open>\<open>METRIC_RANGES[(scope, metric)]\<close> never raises a \<open>KeyError\<close>.\<close>

lemma metric_ranges_total:
  "m \<in> set (metrics_for_scope s) \<Longrightarrow> dget METRIC_RANGES (s, m) \<noteq> None"
  by (auto simp: metrics_for_scope_def PRODUCED_METRICS_BY_SCOPE_def PENDING_METRICS_BY_SCOPE_def
      METRIC_RANGES_def split: if_splits)

lemma check_number_Inr:
  "check_number l v b = Inr u \<Longrightarrow>
     num_of v = Some (Fin (rat_of v)) \<and> fst b \<le> rat_of v \<and>
     (\<forall>high. snd b = Some high \<longrightarrow> rat_of v \<le> high)"
  by (cases "(l, v, b)" rule: check_number.cases)
    (auto simp: rat_of_def in_bounds_def split: if_splits option.splits)

lemma check_clear_hysteresis:
  assumes "check_clear op t c = Inr u" and "op \<in> set BREACH_OPERATORS" and "breaches v t op"
  shows "breaches v c op"
  using assms
  by (auto simp: check_clear_def BREACH_OPERATORS_def RISING_OPERATORS_def FALLING_OPERATORS_def
      breaches_def split: if_splits)

lemma validate_metric_cases:
  assumes "validate_metric_fields (Some s) (Some m) thr clr op = Inr u"
  shows "\<exists>o'. op = Some o' \<and> o' \<in> set BREACH_OPERATORS \<and> m \<in> set (metrics_for_scope s)
    \<and> check_number ''threshold'' thr (the (dget METRIC_RANGES (s, m))) = Inr ()
    \<and> (clr \<noteq> VNone \<longrightarrow> check_clear o' (rat_of thr) (rat_of clr) = Inr ()
        \<and> check_number ''clear_threshold'' clr (the (dget METRIC_RANGES (s, m))) = Inr ())"
  using assms
  by (auto simp: validate_metric_fields_def Let_def split: if_splits option.splits)

section \<open>Properties\<close>

text \<open>Proved as well: a metric rule the schema accepts is one the engine can act on, and it never clears while
  breaching. Its scope and metric have a producer and a range, its operator is one the engine
  evaluates, the test of any value against its threshold raises nothing, and every value that
  breaches the threshold also breaches the clear threshold, so the clear path is not taken.\<close>

theorem validated_rule_never_clears_breaching:
  assumes "validate_metric_fields (Some s) (Some m) thr clr op = Inr ()"
  shows "is_produced (Some s) (Some m) \<and> op \<noteq> None \<and> num_of thr = Some (Fin (rat_of thr))
    \<and> check_breach v (Some (rat_of thr)) op = Inr (breaches v (rat_of thr) (the op))
    \<and> (clr \<noteq> VNone \<longrightarrow> check_breach v (Some (rat_of thr)) op = Inr True \<longrightarrow>
        check_breach v (Some (rat_of clr)) op = Inr True)"
proof -
  obtain o' where o': "op = Some o'" "o' \<in> set BREACH_OPERATORS" "m \<in> set (metrics_for_scope s)"
    "check_number ''threshold'' thr (the (dget METRIC_RANGES (s, m))) = Inr ()"
    "clr \<noteq> VNone \<Longrightarrow> check_clear o' (rat_of thr) (rat_of clr) = Inr ()"
    using validate_metric_cases [OF assms] by blast
  moreover have "is_produced (Some s) (Some m)"
    using o'(3) by (auto simp: is_produced_def metrics_for_scope_def PRODUCED_METRICS_BY_SCOPE_def
        PENDING_METRICS_BY_SCOPE_def split: if_splits)
  ultimately show ?thesis
    using check_number_Inr [OF o'(4)] check_clear_hysteresis
    by (auto simp: check_breach_def)
qed

theorem validated_rule_never_clears_breaching_witness:
  "is_produced (Some ''host'') (Some ''cpu_percent'')
    \<and> check_breach 95 (Some (rat_of (VInt 90))) (Some ''>='') = Inr True
    \<and> check_breach 95 (Some (rat_of (VInt 80))) (Some ''>='') = Inr True"
proof -
  have "validate_metric_fields (Some ''host'') (Some ''cpu_percent'') (VInt 90) (VInt 80) (Some ''>='') = Inr ()"
    by code_simp
  from validated_rule_never_clears_breaching [OF this, of 95] show ?thesis
    by (simp add: breaches_def rat_of_def)
qed

end
