(* ===== verification/AlertRules.thy ===== *)
theory AlertRules
  imports Keys SafeRegex AlertMetrics
begin

text \<open>
  Alert rules and what they apply to (\<open>AlertRuleV2\<close> of \<open>backend/database.py\<close>, the selector and event
  matching of \<open>backend/alerts/engine.py\<close>). A JSON text column is absent or empty, malformed, or the
  value it parses to. An exception inside a selector block is \<open>None\<close>; the block turns it into
  "does not match".
\<close>

section \<open>Rules and contexts\<close>

datatype jtext = NoText | BadText | Json pyval

record rule =
  r_id :: string
  r_name :: string
  r_description :: "string option"
  r_scope :: string
  r_kind :: string
  r_enabled :: bool
  r_host_selector :: jtext
  r_container_selector :: jtext
  r_labels :: jtext
  r_metric :: "string option"
  r_operator :: "string option"
  r_threshold :: "rat option"
  r_occurrences :: "int option"
  r_clear_threshold :: "rat option"
  r_alert_active_delay :: "int option"
  r_alert_clear_delay :: "int option"
  r_notification_active_delay :: "int option"
  r_notification_cooldown :: "int option"
  r_severity :: string
  r_auto_resolve :: bool
  r_auto_resolve_on_clear :: bool
  r_suppress_during_updates :: bool
  r_notify_channels :: jtext
  r_notify_on_resolve :: bool
  r_version :: int

text \<open>
  The desired state a context carries: nothing, its name, or the pair of name and web address that
  \<open>get_desired_state\<close> returns and the container events pass on as it is.
\<close>

datatype desired = Unset | Desired string | DesiredRow string "string option"

text \<open>\<open>EvaluationContext\<close>: what an event or a sample is about.\<close>

record ctx =
  c_scope_type :: string
  c_scope_id :: string
  c_host_id :: "string option"
  c_host_name :: "string option"
  c_container_id :: "string option"
  c_container_name :: "string option"
  c_desired_state :: desired
  c_labels :: "(string, string) pydict option"
  c_tags :: "string list option"

type_synonym edata = "(string, pyval) pydict" \<comment> \<open>the data of an event\<close>

definition opt_str :: "string option \<Rightarrow> pyval" where
  "opt_str s = (case s of None \<Rightarrow> VNone | Some x \<Rightarrow> VStr x)"

section \<open>Python containers\<close>

text \<open>\<open>x in v\<close>, \<open>v[key]\<close> and iteration over a JSON value; \<open>None\<close> is an exception.\<close>

fun py_in :: "pyval \<Rightarrow> pyval \<Rightarrow> bool option" where
  "py_in x (VList ys) = Some (x \<in> set ys)"
| "py_in x (VDict d) = Some (x \<in> set (map fst d))"
| "py_in (VStr k) (VStr s) = Some (contains k s)"
| "py_in _ _ = None"

definition py_has :: "string \<Rightarrow> pyval \<Rightarrow> bool" where
  "py_has key v = (py_in (VStr key) v = Some True)"

definition is_container :: "pyval \<Rightarrow> bool" where
  "is_container v = (py_in (VStr []) v \<noteq> None)"

section \<open>Selector checks\<close>

text \<open>Checks run in order; the first that fails or raises ends the block.\<close>

type_synonym check = "quarantine \<Rightarrow> bool option \<times> quarantine"

fun checks :: "check list \<Rightarrow> check" where
  "checks [] q = (Some True, q)"
| "checks (f # fs) q = (case f q of (Some True, q') \<Rightarrow> checks fs q' | r \<Rightarrow> r)"

definition host_ids_ok :: "pyval \<Rightarrow> string option \<Rightarrow> bool option" where
  "host_ids_ok sel host_id =
     (if \<not> is_container sel then None
      else
        let all = py_has ''include_all'' sel; inc = py_has ''include'' sel;
            others = list_ex (\<lambda>k. py_has k sel) [''tags'', ''host_name'', ''host_id'']
        in case (if all then map_option truthy (vget sel ''include_all'') else Some False) of
             None \<Rightarrow> None
           | Some True \<Rightarrow> Some True
           | Some False \<Rightarrow>
               if inc then
                 (case vget sel ''include'' of None \<Rightarrow> None
                  | Some allowed_ids \<Rightarrow> py_in (opt_str host_id) allowed_ids)
               else Some (\<not> (all \<and> \<not> others)))"

text \<open>One entry of a container include list: a composite key or a plain name.\<close>

definition entry_matches :: "string option \<Rightarrow> string option \<Rightarrow> pyval \<Rightarrow> bool option" where
  "entry_matches host_id container_name entry = (case py_in (VStr '':'') entry of
      None \<Rightarrow> None
    | Some False \<Rightarrow> Some (opt_str container_name = entry)
    | Some True \<Rightarrow>
       (case entry of
          VStr s \<Rightarrow>
            (case split_first (CHR '':'') s of
               None \<Rightarrow> None
             | Some (entry_host_id, entry_name) \<Rightarrow>
                 if length entry_host_id = 36
                 then Some (host_id = Some entry_host_id \<and> container_name = Some entry_name)
                 else Some (container_name = Some s))
        | _ \<Rightarrow> None))"

fun any_entry :: "string option \<Rightarrow> string option \<Rightarrow> pyval list \<Rightarrow> bool option" where
  "any_entry host_id name [] = Some False"
| "any_entry host_id name (e # es) = (case entry_matches host_id name e of
      Some False \<Rightarrow> any_entry host_id name es
    | r \<Rightarrow> r)"

definition container_names_ok :: "pyval \<Rightarrow> string option \<Rightarrow> string option \<Rightarrow> bool option" where
  "container_names_ok sel host_id container_name =
     (if \<not> is_container sel then None
      else
        let all = py_has ''include_all'' sel; inc = py_has ''include'' sel;
            others = list_ex (\<lambda>k. py_has k sel)
              [''tags'', ''should_run'', ''container_name'', ''container_id'']
        in case (if all then map_option truthy (vget sel ''include_all'') else Some False) of
             None \<Rightarrow> None
           | Some True \<Rightarrow> Some True
           | Some False \<Rightarrow>
               if inc then
                 (case vget sel ''include'' of None \<Rightarrow> None
                  | Some allowed \<Rightarrow> (case py_iter allowed of None \<Rightarrow> None
                     | Some entries \<Rightarrow> any_entry host_id container_name entries))
               else Some (\<not> (all \<and> \<not> others)))"

text \<open>A key of the selector compared by \<open>==\<close>, and one matched exactly or by pattern.\<close>

definition key_equals :: "string \<Rightarrow> pyval \<Rightarrow> string option \<Rightarrow> bool option" where
  "key_equals key sel subject =
     (if py_has key sel then map_option (\<lambda>v. v = opt_str subject) (vget sel key) else Some True)"

definition key_matches ::
    "rx_lib \<Rightarrow> rat \<Rightarrow> string \<Rightarrow> pyval \<Rightarrow> string option \<Rightarrow> check" where
  "key_matches lib mt key sel subject q =
     (if py_has key sel then
        (case vget sel key of
           Some (VStr pattern) \<Rightarrow>
             (case selector_value_matches lib mt pattern subject q of (b, q') \<Rightarrow> (Some b, q'))
         | _ \<Rightarrow> (None, q))
      else (Some True, q))"

definition should_run_ok :: "pyval \<Rightarrow> desired \<Rightarrow> bool option" where
  "should_run_ok sel ds =
     (if py_has ''should_run'' sel then
        (case vget sel ''should_run'' of
           None \<Rightarrow> None
         | Some (VBool True) \<Rightarrow> Some (ds = Desired ''should_run'')
         | Some (VBool False) \<Rightarrow> Some (ds = Desired ''on_demand'')
         | _ \<Rightarrow> Some True)
      else Some True)"

definition tags_ok :: "pyval \<Rightarrow> string list option \<Rightarrow> bool option" where
  "tags_ok sel tags =
     (if \<not> is_container sel then None
      else if \<not> py_has ''tags'' sel then Some True
      else case vget sel ''tags'' of
        None \<Rightarrow> None
      | Some required \<Rightarrow>
          if \<not> truthy required then Some True
          else case tags of
            None \<Rightarrow> Some False
          | Some ts \<Rightarrow>
              if ts = [] then Some False
              else map_option (list_ex (\<lambda>t. t \<in> set (map VStr ts))) (py_iter required))"

definition host_block :: "rx_lib \<Rightarrow> rat \<Rightarrow> ctx \<Rightarrow> pyval \<Rightarrow> check" where
  "host_block lib mt c sel = checks
     [\<lambda>q. (host_ids_ok sel (c_host_id c), q),
      key_matches lib mt ''host_name'' sel (c_host_name c),
      \<lambda>q. (key_equals ''host_id'' sel (c_host_id c), q)]"

definition container_block :: "rx_lib \<Rightarrow> rat \<Rightarrow> ctx \<Rightarrow> pyval \<Rightarrow> check" where
  "container_block lib mt c sel = checks
     [\<lambda>q. (container_names_ok sel (c_host_id c) (c_container_name c), q),
      \<lambda>q. (should_run_ok sel (c_desired_state c), q),
      key_matches lib mt ''container_name'' sel (c_container_name c),
      \<lambda>q. (key_equals ''container_id'' sel (c_container_id c), q),
      \<lambda>q. (tags_ok sel (c_tags c), q)]"

text \<open>The \<open>try ... except Exception\<close> around a block: malformed JSON and exceptions are no match.\<close>

definition guarded :: "(pyval \<Rightarrow> check) \<Rightarrow> jtext \<Rightarrow> check" where
  "guarded block t q = (case t of
      NoText \<Rightarrow> (Some True, q)
    | BadText \<Rightarrow> (Some False, q)
    | Json v \<Rightarrow> (case block v q of (None, q') \<Rightarrow> (Some False, q') | r \<Rightarrow> r))"

section \<open>Matching\<close>

datatype engine_error =
    LabelsNotADict \<comment> \<open>\<open>AttributeError\<close>: only malformed JSON is caught around the labels\<close>
  | BadScopeId key_error \<comment> \<open>\<open>ValueError\<close> of \<open>parse_composite_key\<close>\<close>
  | ThresholdMissing \<comment> \<open>\<open>TypeError\<close>: a rule with an operator and no threshold\<close>

definition labels_match :: "jtext \<Rightarrow> (string, string) pydict option \<Rightarrow> (engine_error, bool) res" where
  "labels_match t labels = (case t of
      NoText \<Rightarrow> Inr True
    | BadText \<Rightarrow> Inr False
    | Json v \<Rightarrow>
       (case labels of
          None \<Rightarrow> Inr False
        | Some ls \<Rightarrow>
            if ls = [] then Inr False
            else (case v of
              VDict d \<Rightarrow> Inr (list_all (\<lambda>(k, val).
                  (case k of VStr s \<Rightarrow> opt_str (dget ls s) = val | _ \<Rightarrow> val = VNone)) d)
            | _ \<Rightarrow> Inl LabelsNotADict)))"

definition matches_selectors ::
    "rx_lib \<Rightarrow> rat \<Rightarrow> rule \<Rightarrow> ctx \<Rightarrow> quarantine \<Rightarrow> (engine_error, bool) res \<times> quarantine" where
  "matches_selectors lib mt r c q =
     (case checks
        [guarded (host_block lib mt c) (r_host_selector r),
         guarded (container_block lib mt c) (r_container_selector r),
         guarded (\<lambda>sel q. (tags_ok sel (c_tags c), q)) (r_host_selector r)] q of
        (Some True, q') \<Rightarrow> (labels_match (r_labels r) (c_labels c), q')
      | (_, q') \<Rightarrow> (Inr False, q'))"

definition ev_get :: "edata \<Rightarrow> string \<Rightarrow> pyval" where
  "ev_get d k = (case dget d k of None \<Rightarrow> VNone | Some v \<Rightarrow> v)"

definition equals_true :: "pyval \<Rightarrow> bool" where
  "equals_true v = (num_of v = Some (Fin 1))" \<comment> \<open>\<open>v == True\<close>; 1 and 1.0 are equal to \<open>True\<close>\<close>

definition rule_matches_event :: "rule \<Rightarrow> string \<Rightarrow> ctx \<Rightarrow> edata option \<Rightarrow> bool" where
  "rule_matches_event r event_type c event_data =
     (let d = (case event_data of None \<Rightarrow> [] | Some d \<Rightarrow> d);
          kind = r_kind r;
          state_change = (event_type = ''state_change'' \<and> d \<noteq> []);
          new_state = ev_get d ''new_state''
      in
      if kind \<in> {''unhealthy'', ''container_unhealthy''} then
        state_change \<and> new_state = VStr ''unhealthy''
      else if kind = ''health_check_failed'' then
        state_change \<and> new_state = VStr ''unhealthy'' \<and> ev_get d ''health_check_type'' = VStr ''http''
      else if kind = ''container_stopped'' then
        state_change \<and> new_state \<in> {VStr ''stopped'', VStr ''exited'', VStr ''dead''}
      else if kind = ''container_started'' then
        state_change \<and> new_state = VStr ''running''
      else if kind \<in> {''container_restart'', ''container_restarted''} then
        state_change \<and> ev_get d ''container_restarted'' = VBool True
      else if kind \<in> {''host_disconnected'', ''host_down''} then
        event_type = ''disconnection'' \<and> c_scope_type c = ''host''
      else if kind = ''update_completed'' then
        event_type = ''action_taken'' \<and> c_scope_type c = ''container'' \<and> d \<noteq> [] \<and>
        equals_true (ev_get d ''update_completed'')
      else if kind = ''update_available'' then
        event_type = ''info'' \<and> c_scope_type c = ''container'' \<and> d \<noteq> [] \<and>
        equals_true (ev_get d ''update_detected'')
      else if kind = ''update_failed'' then
        event_type = ''error'' \<and> c_scope_type c = ''container'' \<and> d \<noteq> [] \<and>
        equals_true (ev_get d ''update_failure'')
      else False)"

section \<open>Fixtures for concrete runs\<close>

definition demo_rule :: rule where
  "demo_rule = \<lparr>r_id = ''r1'', r_name = ''down'', r_description = None, r_scope = ''host'',
     r_kind = ''host_down'', r_enabled = True, r_host_selector = NoText, r_container_selector = NoText,
     r_labels = NoText, r_metric = None, r_operator = None, r_threshold = None, r_occurrences = None,
     r_clear_threshold = None, r_alert_active_delay = Some 30, r_alert_clear_delay = Some 60,
     r_notification_active_delay = Some 0, r_notification_cooldown = Some 300,
     r_severity = ''critical'', r_auto_resolve = False, r_auto_resolve_on_clear = True,
     r_suppress_during_updates = False, r_notify_channels = NoText, r_notify_on_resolve = True,
     r_version = 1\<rparr>"

definition demo_metric_rule :: rule where
  "demo_metric_rule = demo_rule\<lparr>r_id := ''r2'', r_kind := ''cpu_high'', r_metric := Some ''cpu_percent'',
     r_operator := Some ''>='', r_threshold := Some 90, r_alert_active_delay := Some 0\<rparr>"

definition demo_ctx :: ctx where
  "demo_ctx = \<lparr>c_scope_type = ''host'', c_scope_id = ''h1'', c_host_id = Some ''h1'',
     c_host_name = Some ''alpha'', c_container_id = None, c_container_name = None,
     c_desired_state = Unset, c_labels = None, c_tags = None\<rparr>"

section \<open>Lemmas\<close>

lemma checks_True:
  "fst (checks fs q) = Some True \<Longrightarrow> f \<in> set fs \<Longrightarrow> \<exists>q'. fst (f q') = Some True"
proof (induction fs arbitrary: q)
  case (Cons g gs)
  obtain x q1 where 1: "g q = (x, q1)" by fastforce
  have x: "x = Some True" using Cons.prems(1) by (auto simp: 1 split: option.splits bool.splits)
  show ?case
  proof (cases "f = g")
    case True
    then show ?thesis using 1 x by (intro exI [of _ q]) simp
  next
    case False
    then show ?thesis using Cons.IH [of q1] Cons.prems by (simp add: 1 x)
  qed
qed simp

lemma guarded_True:
  "fst (guarded block t q) = Some True \<Longrightarrow>
     t \<noteq> BadText \<and> (\<forall>v. t = Json v \<longrightarrow> (\<exists>q'. fst (block v q') = Some True))"
  by (auto simp: guarded_def split: jtext.splits option.splits prod.splits) (metis fst_conv)

lemma py_has_VDict [simp]: "py_has k (VDict d) \<longleftrightarrow> vget (VDict d) k \<noteq> None"
  by (force simp: py_has_def map_of_eq_None_iff)

lemma is_container_VDict [simp]: "is_container (VDict d)"
  by (simp add: is_container_def)

lemma any_entry_True:
  "any_entry h n es = Some True \<Longrightarrow> \<exists>x \<in> set es. entry_matches h n x = Some True"
  by (induction es) (auto split: option.splits bool.splits)

lemma entry_matches_True:
  "entry_matches h n x = Some True \<Longrightarrow>
     x = opt_str n \<or> (\<exists>h' n'. h = Some h' \<and> n = Some n' \<and> length h' = 36 \<and> x = VStr (h' @ '':'' @ n'))"
  by (auto simp: entry_matches_def opt_str_def split_first_Some_iff
      split: option.splits bool.splits pyval.splits if_splits)

text \<open>The parts of a match, each by the check that enforces it.\<close>

lemma matches_selectors_True:
  assumes "fst (matches_selectors lib mt r c q) = Inr True"
  shows "labels_match (r_labels r) (c_labels c) = Inr True"
    and "\<exists>q. fst (guarded (host_block lib mt c) (r_host_selector r) q) = Some True"
    and "\<exists>q. fst (guarded (container_block lib mt c) (r_container_selector r) q) = Some True"
    and "\<exists>q. fst (guarded (\<lambda>sel q. (tags_ok sel (c_tags c), q)) (r_host_selector r) q) = Some True"
proof -
  define fs where "fs = [guarded (host_block lib mt c) (r_host_selector r),
    guarded (container_block lib mt c) (r_container_selector r),
    guarded (\<lambda>sel q. (tags_ok sel (c_tags c), q)) (r_host_selector r)]"
  have l: "fst (checks fs q) = Some True" "labels_match (r_labels r) (c_labels c) = Inr True"
    using assms unfolding matches_selectors_def fs_def [symmetric]
    by (auto split: prod.splits option.splits bool.splits)
  show "labels_match (r_labels r) (c_labels c) = Inr True" by (rule l)
  show "\<exists>q. fst (guarded (host_block lib mt c) (r_host_selector r) q) = Some True"
    and "\<exists>q. fst (guarded (container_block lib mt c) (r_container_selector r) q) = Some True"
    and "\<exists>q. fst (guarded (\<lambda>sel q. (tags_ok sel (c_tags c), q)) (r_host_selector r) q) = Some True"
    by (rule checks_True [OF l(1)], simp add: fs_def)+
qed

lemma host_ids_listed:
  "host_ids_ok (VDict d) h = Some True \<Longrightarrow> vget (VDict d) ''include_all'' = None \<Longrightarrow>
     vget (VDict d) ''include'' = Some (VList ids) \<Longrightarrow> opt_str h \<in> set ids"
  by (simp add: host_ids_ok_def Let_def)

lemma container_names_listed:
  "container_names_ok (VDict d) h n = Some True \<Longrightarrow> vget (VDict d) ''include_all'' = None \<Longrightarrow>
     vget (VDict d) ''include'' = Some (VList es) \<Longrightarrow> \<exists>x \<in> set es. entry_matches h n x = Some True"
  by (simp add: container_names_ok_def Let_def any_entry_True)

lemma tags_shared:
  "tags_ok (VDict d) tags = Some True \<Longrightarrow> vget (VDict d) ''tags'' = Some (VList ts) \<Longrightarrow> ts \<noteq> [] \<Longrightarrow>
     \<exists>own t. tags = Some own \<and> t \<in> set own \<and> VStr t \<in> set ts"
  by (auto simp: tags_ok_def list_ex_iff split: option.splits if_splits)

section \<open>Properties\<close>

text \<open>Proved as well: selectors fail closed and mean what they list. When a rule matches a context, none of its
  selector texts is malformed; a host include list (without \<open>include_all\<close>) contains the host, a
  container include list contains the name or the host and name as a composite entry, a
  required tag list shares a tag with the context, and every required label is carried.\<close>

theorem selector_match_sound:
  assumes "fst (matches_selectors lib mt r c q) = Inr True"
  shows "BadText \<notin> {r_host_selector r, r_container_selector r, r_labels r}
    \<and> (r_host_selector r = Json (VDict d) \<and> vget (VDict d) ''include_all'' = None
        \<and> vget (VDict d) ''include'' = Some (VList ids) \<longrightarrow> opt_str (c_host_id c) \<in> set ids)
    \<and> (r_container_selector r = Json (VDict d) \<and> vget (VDict d) ''include_all'' = None
        \<and> vget (VDict d) ''include'' = Some (VList ids) \<longrightarrow>
        (\<exists>x \<in> set ids. x = opt_str (c_container_name c) \<or>
          (\<exists>h n. c_host_id c = Some h \<and> c_container_name c = Some n \<and> length h = 36
            \<and> x = VStr (h @ '':'' @ n))))
    \<and> (Json (VDict d) \<in> {r_host_selector r, r_container_selector r}
        \<and> vget (VDict d) ''tags'' = Some (VList ts) \<and> ts \<noteq> [] \<longrightarrow>
        (\<exists>own t. c_tags c = Some own \<and> t \<in> set own \<and> VStr t \<in> set ts))
    \<and> (r_labels r = Json (VDict d) \<and> (VStr k, v) \<in> set d \<longrightarrow>
        (\<exists>ls. c_labels c = Some ls \<and> opt_str (dget ls k) = v))"
proof -
  obtain q1 q2 q3 where g:
    "fst (guarded (host_block lib mt c) (r_host_selector r) q1) = Some True"
    "fst (guarded (container_block lib mt c) (r_container_selector r) q2) = Some True"
    "fst (guarded (\<lambda>sel q. (tags_ok sel (c_tags c), q)) (r_host_selector r) q3) = Some True"
    using matches_selectors_True [OF assms] by blast
  note labels = matches_selectors_True(1) [OF assms]
  have host: "host_ids_ok sel (c_host_id c) = Some True" if j: "r_host_selector r = Json sel" for sel
  proof -
    obtain q' where "fst (host_block lib mt c sel q') = Some True" using guarded_True [OF g(1)] j by blast
    from checks_True [OF this [unfolded host_block_def], of "\<lambda>q. (host_ids_ok sel (c_host_id c), q)"]
    show ?thesis by simp
  qed
  have cont: "container_names_ok sel (c_host_id c) (c_container_name c) = Some True"
    "tags_ok sel (c_tags c) = Some True" if j: "r_container_selector r = Json sel" for sel
  proof -
    obtain q' where b: "fst (container_block lib mt c sel q') = Some True"
      using guarded_True [OF g(2)] j by blast
    note any = checks_True [OF b [unfolded container_block_def]]
    from any [of "\<lambda>q. (container_names_ok sel (c_host_id c) (c_container_name c), q)"]
    show "container_names_ok sel (c_host_id c) (c_container_name c) = Some True" by simp
    from any [of "\<lambda>q. (tags_ok sel (c_tags c), q)"] show "tags_ok sel (c_tags c) = Some True" by simp
  qed
  have tags: "tags_ok sel (c_tags c) = Some True" if "r_host_selector r = Json sel" for sel
    using guarded_True [OF g(3)] that by auto
  have lab: "\<exists>ls. c_labels c = Some ls \<and> opt_str (dget ls k) = v"
    if "r_labels r = Json (VDict d)" "(VStr k, v) \<in> set d"
    using labels that by (auto simp: labels_match_def list_all_iff split: option.splits if_splits)
  have ok: "BadText \<notin> {r_host_selector r, r_container_selector r, r_labels r}"
    using guarded_True [OF g(1)] guarded_True [OF g(2)] labels by (auto simp: labels_match_def)
  have names: "\<exists>x \<in> set ids. x = opt_str (c_container_name c) \<or>
      (\<exists>h n. c_host_id c = Some h \<and> c_container_name c = Some n \<and> length h = 36 \<and> x = VStr (h @ '':'' @ n))"
    if "r_container_selector r = Json (VDict d)" "vget (VDict d) ''include_all'' = None"
      "vget (VDict d) ''include'' = Some (VList ids)"
    using container_names_listed [OF cont(1) [OF that(1)] that(2,3)] entry_matches_True by blast
  have shared: "\<exists>own t. c_tags c = Some own \<and> t \<in> set own \<and> VStr t \<in> set ts"
    if "Json (VDict d) \<in> {r_host_selector r, r_container_selector r}"
      "vget (VDict d) ''tags'' = Some (VList ts)" "ts \<noteq> []"
    using tags_shared [OF _ that(2,3), of "c_tags c"] tags cont(2) that(1) by fastforce
  show ?thesis
    using ok host_ids_listed [OF host] names shared lab by blast
qed

theorem selector_match_sound_witness:
  "opt_str (c_host_id demo_ctx) \<in> set [VStr ''h0'', VStr ''h1'']"
  using selector_match_sound [of \<open>\<lparr>rx_compiles = \<lambda>_. True, rx_run = \<lambda>_ _. RxNoMatch\<rparr>\<close> 0
      "demo_rule\<lparr>r_host_selector := Json (VDict [(VStr ''include'', VList [VStr ''h0'', VStr ''h1''])])\<rparr>"
      demo_ctx "[]" "[(VStr ''include'', VList [VStr ''h0'', VStr ''h1''])]" "[VStr ''h0'', VStr ''h1'']"]
  by (simp add: matches_selectors_def guarded_def host_block_def host_ids_ok_def key_matches_def
      key_equals_def tags_ok_def labels_match_def demo_rule_def demo_ctx_def opt_str_def Let_def)

end
