(* ===== verification/AlertEngine.thy ===== *)
theory AlertEngine
  imports AlertRules
begin

text \<open>
  The alert engine (\<open>backend/alerts/engine.py\<close>, class \<open>AlertEngine\<close>) over the tables it owns: the
  life cycle of alerts, event rules with their activation delay, pending clears, and the metric
  rules with their sliding window. One clock reading stands for all \<open>datetime.now()\<close> calls of an
  operation; inner commits are visible at once because every session shares one SQLite connection,
  so a row read and merged back in one operation is the stored row. A float is an exact rational.
\<close>

section \<open>Alerts\<close>

datatype alert_state = Open | Snoozed | Resolved

text \<open>The title and the message by their parts, in place of the literal Chinese wording.\<close>

datatype alert_title =
    ContainerTitle string string "string option" \<comment> \<open>rule, container, host (\<open>None\<close>: unknown host)\<close>
  | HostTitle string string
  | PlainTitle string

datatype msg_part =
    Description string
  | MetricNow string rat string rat \<comment> \<open>metric, current value, operator, threshold\<close>
  | MetricRule string string rat

record snapshot =
  s_id :: string
  s_name :: string
  s_kind :: string
  s_severity :: string
  s_metric :: "string option"
  s_threshold :: "rat option"
  s_operator :: "string option"
  s_alert_active_delay :: "int option"
  s_alert_clear_delay :: "int option"
  s_notification_active_delay :: "int option"
  s_notification_cooldown :: "int option"
  s_occurrences :: "int option"
  s_version :: int

datatype reason = ClearConditionMet | ClearConditionMetImmediate | OtherReason string

text \<open>\<open>event_context_json\<close>: absent, malformed, or the object it holds (only objects are written).\<close>

datatype ectx = NoContext | BadContext | Context edata

record alert =
  a_id :: string
  a_dedup_key :: string
  a_scope_type :: string
  a_scope_id :: string
  a_kind :: string
  a_severity :: string
  a_state :: alert_state
  a_title :: alert_title
  a_message :: "msg_part list"
  a_first_seen :: time
  a_last_seen :: time
  a_occurrences :: int
  a_snoozed_until :: "time option"
  a_resolved_at :: "time option"
  a_resolved_reason :: "reason option"
  a_rule_id :: "string option"
  a_rule_version :: "int option"
  a_current_value :: "rat option"
  a_threshold :: "rat option"
  a_rule_snapshot :: "snapshot option"
  a_labels :: "(string, string) pydict option"
  a_host_name :: "string option"
  a_host_id :: "string option"
  a_container_name :: "string option"
  a_event_context :: ectx
  a_notified_at :: "time option"
  a_notification_count :: int
  a_last_attempt_at :: "time option"
  a_next_retry_at :: "time option"
  a_suppressed_by_blackout :: bool
  a_resolve_notified_at :: "time option"

section \<open>Metric windows\<close>

record mstate =
  ms_window_start :: time
  ms_samples :: "(time \<times> rat \<times> bool) list"
  ms_breach_count :: nat
  ms_breach_started_at :: "time option"
  ms_clear_started_at :: "time option"
  ms_last_notified_at :: "time option"
  ms_last_occurrence_milestone :: nat

record runtime =
  rt_rule_id :: string
  rt_state :: "mstate option" \<comment> \<open>\<open>None\<close>: the stored JSON is malformed\<close>
  rt_updated_at :: time

record evaluation =
  ev_rule_id :: string
  ev_timestamp :: time
  ev_scope_id :: string
  ev_value :: rat
  ev_breached :: bool

section \<open>The engine's state\<close>

record pending =
  p_rule_id :: string
  p_rule_name :: string
  p_kind :: string
  p_delay_seconds :: int
  p_triggered_at :: time
  p_context :: ctx
  p_event_type :: string
  p_event_data :: "edata option"
  p_dedup_key :: string

record pending_clear =
  pc_alert_id :: string
  pc_alert_title :: alert_title
  pc_rule_id :: string
  pc_delay_seconds :: int
  pc_clear_started_at :: time
  pc_reason :: reason

record engine =
  e_alerts :: "alert list" \<comment> \<open>table \<open>alerts_v2\<close>\<close>
  e_rules :: "rule list" \<comment> \<open>table \<open>alert_rules_v2\<close>\<close>
  e_runtimes :: "(string, runtime) pydict" \<comment> \<open>table \<open>rule_runtime\<close>, by its primary key\<close>
  e_evaluations :: "evaluation list"
  e_pending :: "(string, pending) pydict"
  e_clears :: "(string, pending_clear) pydict"
  e_quarantine :: quarantine
  e_uuids :: nat \<comment> \<open>how many ids were drawn\<close>

text \<open>What an operation reads from outside: the clocks, \<open>uuid4\<close>, the regex library, the updater.\<close>

record world =
  w_now :: time
  w_monotonic :: rat
  w_uuid :: "nat \<Rightarrow> string"
  w_rx :: rx_lib
  w_updating :: "string option \<Rightarrow> string \<Rightarrow> bool"

section \<open>Keys and texts\<close>

definition make_dedup_key :: "string \<Rightarrow> string \<Rightarrow> string \<Rightarrow> string \<Rightarrow> string" where
  "make_dedup_key rule_id kind scope_type scope_id =
     rule_id @ ''|'' @ kind @ ''|'' @ scope_type @ '':'' @ scope_id"

definition make_runtime_key :: "string \<Rightarrow> string \<Rightarrow> string \<Rightarrow> string" where
  "make_runtime_key rule_id scope_type scope_id = rule_id @ ''|'' @ scope_type @ '':'' @ scope_id"

definition str_or :: "string option \<Rightarrow> string \<Rightarrow> string" where
  "str_or s d = (case s of None \<Rightarrow> d | Some x \<Rightarrow> if x = [] then d else x)"

definition generate_alert_title :: "rule \<Rightarrow> ctx \<Rightarrow> alert_title" where
  "generate_alert_title r c =
     (if c_scope_type c = ''container'' then
        ContainerTitle (r_name r) (str_or (c_container_name c) (c_scope_id c))
          (case c_host_name c of None \<Rightarrow> None | Some h \<Rightarrow> if h = [] then None else Some h)
      else if c_scope_type c = ''host'' then
        HostTitle (r_name r) (str_or (c_host_name c) (c_scope_id c))
      else PlainTitle (r_name r))"

definition generate_alert_message :: "rule \<Rightarrow> rat option \<Rightarrow> msg_part list" where
  "generate_alert_message r current_value =
     (case r_description r of None \<Rightarrow> [] | Some d \<Rightarrow> if d = [] then [] else [Description d]) @
     (case (r_metric r, r_threshold r, r_operator r) of
        (Some m, Some t, Some op) \<Rightarrow>
          if m \<noteq> [] \<and> t \<noteq> 0 \<and> op \<noteq> [] then
            (case current_value of
               Some v \<Rightarrow> [MetricNow m v op t]
             | None \<Rightarrow> [MetricRule m op t])
          else []
      | _ \<Rightarrow> [])"

definition snapshot_rule :: "rule \<Rightarrow> snapshot" where
  "snapshot_rule r =
     \<lparr>s_id = r_id r, s_name = r_name r, s_kind = r_kind r, s_severity = r_severity r,
      s_metric = r_metric r, s_threshold = r_threshold r, s_operator = r_operator r,
      s_alert_active_delay = r_alert_active_delay r, s_alert_clear_delay = r_alert_clear_delay r,
      s_notification_active_delay = r_notification_active_delay r,
      s_notification_cooldown = r_notification_cooldown r,
      s_occurrences = r_occurrences r, s_version = r_version r\<rparr>"

section \<open>Alert life cycle\<close>

definition find_by_key :: "alert list \<Rightarrow> string \<Rightarrow> alert option" where
  "find_by_key as k = find (\<lambda>a. a_dedup_key a = k) as"

definition find_by_id :: "alert list \<Rightarrow> string \<Rightarrow> alert option" where
  "find_by_id as i = find (\<lambda>a. a_id a = i) as"

text \<open>\<open>session.merge\<close>: writes the row with the alert's id.\<close>

definition put_alert :: "alert \<Rightarrow> engine \<Rightarrow> engine" where
  "put_alert a e = e\<lparr>e_alerts := map (\<lambda>b. if a_id b = a_id a then a else b) (e_alerts e)\<rparr>"

definition get_or_create_alert ::
    "world \<Rightarrow> string \<Rightarrow> rule \<Rightarrow> ctx \<Rightarrow> rat option \<Rightarrow> edata option \<Rightarrow> engine \<Rightarrow> (alert \<times> bool) \<times> engine" where
  "get_or_create_alert W dedup_key r c current_value event_data e =
     (case find_by_key (e_alerts e) dedup_key of
        Some existing \<Rightarrow> ((existing, False), e)
      | None \<Rightarrow>
          let now = w_now W;
              a = \<lparr>a_id = w_uuid W (e_uuids e), a_dedup_key = dedup_key,
                   a_scope_type = c_scope_type c, a_scope_id = c_scope_id c,
                   a_kind = r_kind r, a_severity = r_severity r, a_state = Open,
                   a_title = generate_alert_title r c,
                   a_message = generate_alert_message r current_value,
                   a_first_seen = now, a_last_seen = now, a_occurrences = 1,
                   a_snoozed_until = None, a_resolved_at = None, a_resolved_reason = None,
                   a_rule_id = Some (r_id r), a_rule_version = Some (r_version r),
                   a_current_value = current_value, a_threshold = r_threshold r,
                   a_rule_snapshot = Some (snapshot_rule r),
                   a_labels = (case c_labels c of Some ls \<Rightarrow> if ls = [] then None else Some ls | None \<Rightarrow> None),
                   a_host_name = c_host_name c, a_host_id = c_host_id c,
                   a_container_name = c_container_name c,
                   a_event_context = (case event_data of
                       Some d \<Rightarrow> if d = [] then NoContext else Context d | None \<Rightarrow> NoContext),
                   a_notified_at = None, a_notification_count = 0, a_last_attempt_at = None,
                   a_next_retry_at = None, a_suppressed_by_blackout = False,
                   a_resolve_notified_at = None\<rparr>
          in ((a, True), e\<lparr>e_alerts := e_alerts e @ [a], e_uuids := Suc (e_uuids e)\<rparr>))"

fun context_of :: "ectx \<Rightarrow> edata" where
  "context_of (Context d) = d"
| "context_of _ = []"

definition reopen :: "alert \<Rightarrow> alert" where
  "reopen a =
     (if a_state a = Resolved
      then a\<lparr>a_state := Open, a_resolved_at := None, a_resolved_reason := None, a_notified_at := None\<rparr>
      else a)"

text \<open>A newer digest of an available update makes the alert eligible for a new notification.\<close>

definition renotify_on_new_digest :: "edata option \<Rightarrow> alert \<Rightarrow> alert" where
  "renotify_on_new_digest event_data a = (case event_data of
      None \<Rightarrow> a
    | Some d \<Rightarrow>
        if a_kind a = ''update_available'' \<and> d \<noteq> [] then
          (let old_digest = ev_get (context_of (a_event_context a)) ''latest_digest'';
               new_digest = ev_get d ''latest_digest''
           in if old_digest \<noteq> VNone \<and> new_digest \<noteq> VNone \<and> old_digest \<noteq> new_digest
              then a\<lparr>a_notified_at := None\<rparr> else a)
        else a)"

definition merge_context :: "edata \<Rightarrow> edata \<Rightarrow> edata" where
  "merge_context existing d =
     (let merged = fold (\<lambda>(k, v) m. dset k v m) d existing in
      if ev_get d ''exit_code'' = VNone \<and> ev_get existing ''exit_code'' \<noteq> VNone
      then dset ''exit_code'' (ev_get existing ''exit_code'') merged else merged)"

definition update_alert_row ::
    "time \<Rightarrow> rat option \<Rightarrow> bool \<Rightarrow> edata option \<Rightarrow> alert \<Rightarrow> alert" where
  "update_alert_row now current_value increment event_data a =
     (let a1 = renotify_on_new_digest event_data (reopen a);
          a2 = a1\<lparr>a_last_seen := now,
                  a_occurrences := a_occurrences a1 + (if increment then 1 else 0)\<rparr>;
          a3 = (case current_value of None \<Rightarrow> a2 | Some v \<Rightarrow> a2\<lparr>a_current_value := Some v\<rparr>)
      in case event_data of
           None \<Rightarrow> a3
         | Some d \<Rightarrow> a3\<lparr>a_event_context := Context (merge_context (context_of (a_event_context a3)) d)\<rparr>)"

definition update_alert ::
    "world \<Rightarrow> alert \<Rightarrow> rat option \<Rightarrow> bool \<Rightarrow> edata option \<Rightarrow> engine \<Rightarrow> alert \<times> engine" where
  "update_alert W a current_value increment event_data e =
     (let a' = update_alert_row (w_now W) current_value increment event_data a
      in (a', put_alert a' e))"

definition resolve_alert :: "world \<Rightarrow> alert \<Rightarrow> reason \<Rightarrow> bool \<Rightarrow> engine \<Rightarrow> alert \<times> engine" where
  "resolve_alert W a why notify e =
     (let a1 = a\<lparr>a_state := Resolved, a_resolved_at := Some (w_now W), a_resolved_reason := Some why\<rparr>;
          a2 = (if notify then a1 else a1\<lparr>a_resolve_notified_at := Some (w_now W)\<rparr>)
      in (a2, put_alert a2 e))"

definition check_cooldown :: "time \<Rightarrow> alert \<Rightarrow> int \<Rightarrow> bool" where
  "check_cooldown now a cooldown_seconds = (case a_notified_at a of
      None \<Rightarrow> False | Some t \<Rightarrow> now - t < secs cooldown_seconds)"

text \<open>\<open>x or d\<close> for an integer column: 0 and NULL both give the default.\<close>

definition int_or :: "int option \<Rightarrow> int \<Rightarrow> int" where
  "int_or x d = (case x of None \<Rightarrow> d | Some n \<Rightarrow> if n = 0 then d else n)"

section \<open>Event rules\<close>

definition update_related_kinds :: "string list" where
  "update_related_kinds = [''update_completed'', ''update_available'', ''update_failed'']"

text \<open>Whether the rule is held back while its container is updated; the id is parsed on demand.\<close>

definition suppressed_by_update :: "world \<Rightarrow> rule \<Rightarrow> ctx \<Rightarrow> (engine_error, bool) res" where
  "suppressed_by_update W r c =
     (if r_suppress_during_updates r \<and> c_scope_type c = ''container''
         \<and> r_kind r \<notin> set update_related_kinds
      then (case parse_composite_key (c_scope_id c) of
              Inl err \<Rightarrow> Inl (BadScopeId err)
            | Inr (_, container_id) \<Rightarrow> Inr (w_updating W (c_host_id c) container_id))
      else Inr False)"

text \<open>The part of the loop body after the rule matched; the result is the alert to notify, if any.\<close>

definition fire_event_rule ::
    "world \<Rightarrow> string \<Rightarrow> ctx \<Rightarrow> edata option \<Rightarrow> rule \<Rightarrow> engine \<Rightarrow> alert option \<times> engine" where
  "fire_event_rule W event_type c event_data r e =
     (let dedup_key = make_dedup_key (r_id r) (r_kind r) (c_scope_type c) (c_scope_id c);
          delay = int_or (r_alert_active_delay r) 0
      in if delay > 0 then
           (if dhas (e_pending e) dedup_key then (None, e)
            else (None, e\<lparr>e_pending := dset dedup_key
                    \<lparr>p_rule_id = r_id r, p_rule_name = r_name r, p_kind = r_kind r,
                     p_delay_seconds = delay, p_triggered_at = w_now W, p_context = c,
                     p_event_type = event_type, p_event_data = event_data,
                     p_dedup_key = dedup_key\<rparr> (e_pending e)\<rparr>))
         else (case get_or_create_alert W dedup_key r c None event_data e of ((a, is_new), e1) \<Rightarrow>
           if is_new then (Some a, e1)
           else if check_cooldown (w_now W) a (int_or (r_notification_cooldown r) 300)
           then (None, snd (update_alert W a None False event_data e1))
           else (case update_alert W a None True event_data e1 of (a', e2) \<Rightarrow> (Some a', e2))))"

definition event_rule ::
    "world \<Rightarrow> string \<Rightarrow> ctx \<Rightarrow> edata option \<Rightarrow> rule \<Rightarrow> engine
     \<Rightarrow> (engine_error, alert option) res \<times> engine" where
  "event_rule W event_type c event_data r e =
     (if \<not> rule_matches_event r event_type c event_data then (Inr None, e)
      else (case matches_selectors (w_rx W) (w_monotonic W) r c (e_quarantine e) of (m, q) \<Rightarrow>
        let e1 = e\<lparr>e_quarantine := q\<rparr> in
        (case m of
           Inl err \<Rightarrow> (Inl err, e1)
         | Inr False \<Rightarrow> (Inr None, e1)
         | Inr True \<Rightarrow>
            (case suppressed_by_update W r c of
               Inl err \<Rightarrow> (Inl err, e1)
             | Inr True \<Rightarrow> (Inr None, e1)
             | Inr False \<Rightarrow>
                (case fire_event_rule W event_type c event_data r e1 of (a, e2) \<Rightarrow> (Inr a, e2))))))"

fun event_rules ::
    "world \<Rightarrow> string \<Rightarrow> ctx \<Rightarrow> edata option \<Rightarrow> rule list \<Rightarrow> engine
     \<Rightarrow> (engine_error, alert list) res \<times> engine" where
  "event_rules W event_type c d [] e = (Inr [], e)"
| "event_rules W event_type c d (r # rs) e = (case event_rule W event_type c d r e of
      (Inl err, e1) \<Rightarrow> (Inl err, e1)
    | (Inr a, e1) \<Rightarrow>
       (case event_rules W event_type c d rs e1 of
          (Inl err, e2) \<Rightarrow> (Inl err, e2)
        | (Inr as, e2) \<Rightarrow> (Inr ((case a of None \<Rightarrow> [] | Some x \<Rightarrow> [x]) @ as), e2)))"

definition evaluate_event ::
    "world \<Rightarrow> string \<Rightarrow> ctx \<Rightarrow> edata option \<Rightarrow> engine \<Rightarrow> (engine_error, alert list) res \<times> engine" where
  "evaluate_event W event_type c event_data e =
     event_rules W event_type c event_data
       (filter (\<lambda>r. r_enabled r \<and> r_metric r = None \<and> r_scope r = c_scope_type c) (e_rules e)) e"

text \<open>The task that fires the delayed alerts whose delay has passed; keys are removed after the loop.\<close>

definition pending_due :: "time \<Rightarrow> pending \<Rightarrow> bool" where
  "pending_due now p = (now - p_triggered_at p \<ge> secs (p_delay_seconds p))"

definition find_rule :: "engine \<Rightarrow> string \<Rightarrow> rule option" where
  "find_rule e i = find (\<lambda>r. r_id r = i) (e_rules e)"

definition fire_pending :: "world \<Rightarrow> string \<Rightarrow> pending \<Rightarrow> engine \<Rightarrow> alert option \<times> engine" where
  "fire_pending W dedup_key p e = (case find_rule e (p_rule_id p) of
      None \<Rightarrow> (None, e)
    | Some r \<Rightarrow>
        if \<not> r_enabled r then (None, e)
        else (case get_or_create_alert W dedup_key r (p_context p) None (p_event_data p) e of
          ((a, is_new), e1) \<Rightarrow>
            if is_new then (Some a, e1)
            else (case update_alert W a None True (p_event_data p) e1 of (a', e2) \<Rightarrow> (Some a', e2))))"

fun pending_loop :: "world \<Rightarrow> (string \<times> pending) list \<Rightarrow> engine \<Rightarrow> alert list \<times> string list \<times> engine" where
  "pending_loop W [] e = ([], [], e)"
| "pending_loop W ((k, p) # ps) e =
     (if pending_due (w_now W) p then
        (case fire_pending W k p e of (a, e1) \<Rightarrow>
          (case pending_loop W ps e1 of (fired, gone, e2) \<Rightarrow>
            ((case a of None \<Rightarrow> [] | Some x \<Rightarrow> [x]) @ fired, k # gone, e2)))
      else pending_loop W ps e)"

definition check_pending_event_alerts :: "world \<Rightarrow> engine \<Rightarrow> alert list \<times> engine" where
  "check_pending_event_alerts W e = (case pending_loop W (e_pending e) e of
      (fired, gone, e1) \<Rightarrow> (fired, e1\<lparr>e_pending := ddel_all gone (e_pending e1)\<rparr>))"

text \<open>\<open>if kinds and pending.kind not in kinds\<close>: no kinds, or an empty list, selects all.\<close>

definition kind_selected :: "string list option \<Rightarrow> string \<Rightarrow> bool" where
  "kind_selected kinds k = (case kinds of None \<Rightarrow> True | Some ks \<Rightarrow> ks = [] \<or> k \<in> set ks)"

definition clear_pending_for_scope ::
    "string \<Rightarrow> string \<Rightarrow> string list option \<Rightarrow> engine \<Rightarrow> nat \<times> engine" where
  "clear_pending_for_scope scope_type scope_id kinds e =
     (let ks = map fst (filter (\<lambda>(k, p). c_scope_type (p_context p) = scope_type
                 \<and> c_scope_id (p_context p) = scope_id \<and> kind_selected kinds (p_kind p)) (e_pending e))
      in (length ks, e\<lparr>e_pending := ddel_all ks (e_pending e)\<rparr>))"

section \<open>Pending clears\<close>

definition add_pending_alert_clear ::
    "world \<Rightarrow> alert \<Rightarrow> rule \<Rightarrow> reason \<Rightarrow> engine \<Rightarrow> bool \<times> engine" where
  "add_pending_alert_clear W a r why e =
     (if dhas (e_clears e) (a_id a) then (False, e)
      else (True, e\<lparr>e_clears := dset (a_id a)
             \<lparr>pc_alert_id = a_id a, pc_alert_title = a_title a, pc_rule_id = r_id r,
              pc_delay_seconds = int_or (r_alert_clear_delay r) 0,
              pc_clear_started_at = w_now W, pc_reason = why\<rparr> (e_clears e)\<rparr>))"

definition clear_due :: "time \<Rightarrow> pending_clear \<Rightarrow> bool" where
  "clear_due now pc = (now - pc_clear_started_at pc \<ge> secs (pc_delay_seconds pc))"

fun clears_loop ::
    "world \<Rightarrow> (string \<times> pending_clear) list \<Rightarrow> engine \<Rightarrow> string list \<times> string list \<times> engine" where
  "clears_loop W [] e = ([], [], e)"
| "clears_loop W ((i, pc) # ps) e =
     (if \<not> clear_due (w_now W) pc then clears_loop W ps e
      else case find_by_id (e_alerts e) i of
        None \<Rightarrow> (case clears_loop W ps e of (res, gone, e1) \<Rightarrow> (res, i # gone, e1))
      | Some a \<Rightarrow>
          if a_state a \<noteq> Open
          then (case clears_loop W ps e of (res, gone, e1) \<Rightarrow> (res, i # gone, e1))
          else (case clears_loop W ps (snd (resolve_alert W a (pc_reason pc) True e)) of
                  (res, gone, e1) \<Rightarrow> (i # res, i # gone, e1)))"

definition check_pending_alert_clears :: "world \<Rightarrow> engine \<Rightarrow> string list \<times> engine" where
  "check_pending_alert_clears W e = (case clears_loop W (e_clears e) e of
      (res, gone, e1) \<Rightarrow> (res, e1\<lparr>e_clears := ddel_all gone (e_clears e1)\<rparr>))"

definition cancel_pending_clear_for_alert :: "string \<Rightarrow> engine \<Rightarrow> bool \<times> engine" where
  "cancel_pending_clear_for_alert i e =
     (if dhas (e_clears e) i then (True, e\<lparr>e_clears := ddel i (e_clears e)\<rparr>) else (False, e))"

definition cancel_pending_clears_for_scope ::
    "string \<Rightarrow> string \<Rightarrow> string list option \<Rightarrow> engine \<Rightarrow> nat \<times> engine" where
  "cancel_pending_clears_for_scope scope_type scope_id kinds e =
     (let ks = map fst (filter (\<lambda>(i, pc). case find_by_id (e_alerts e) i of
                   None \<Rightarrow> True
                 | Some a \<Rightarrow> a_scope_type a = scope_type \<and> a_scope_id a = scope_id
                     \<and> kind_selected kinds (a_kind a)) (e_clears e))
      in (length ks, e\<lparr>e_clears := ddel_all ks (e_clears e)\<rparr>))"

section \<open>Metric rules\<close>

definition initial_mstate :: "time \<Rightarrow> mstate" where
  "initial_mstate now =
     \<lparr>ms_window_start = now, ms_samples = [], ms_breach_count = 0, ms_breach_started_at = None,
      ms_clear_started_at = None, ms_last_notified_at = None, ms_last_occurrence_milestone = 0\<rparr>"

definition parse_metric_state :: "time \<Rightarrow> mstate option \<Rightarrow> mstate" where
  "parse_metric_state now t = (case t of None \<Rightarrow> initial_mstate now | Some st \<Rightarrow> st)"

text \<open>Adds the sample, drops the samples that left the window, counts the breaches in it.\<close>

definition push_sample :: "time \<Rightarrow> int \<Rightarrow> rat \<Rightarrow> bool \<Rightarrow> mstate \<Rightarrow> mstate" where
  "push_sample now active_delay v breached st =
     (let all = ms_samples st @ [(now, v, breached)];
          kept = (if active_delay > 0
                  then filter (\<lambda>(ts, _). ts > now - secs active_delay) all else all)
      in st\<lparr>ms_samples := kept,
            ms_breach_count := length (filter (\<lambda>(_, _, b). b) kept)\<rparr>)"

definition should_fire :: "rule \<Rightarrow> nat \<Rightarrow> bool \<Rightarrow> bool" where
  "should_fire r breach_count breached =
     (let n = int_or (r_occurrences r) 0 in if n \<noteq> 0 then int breach_count \<ge> n else breached)"

definition clear_delay_of :: "rule \<Rightarrow> int" where
  "clear_delay_of r = (case r_alert_clear_delay r of
      Some d \<Rightarrow> d | None \<Rightarrow> int_or (r_alert_active_delay r) 60)"

definition clear_open_metric_alert ::
    "world \<Rightarrow> rule \<Rightarrow> ctx \<Rightarrow> mstate \<Rightarrow> reason \<Rightarrow> engine \<Rightarrow> (alert option \<times> mstate) \<times> engine" where
  "clear_open_metric_alert W r c st why e =
     (let dedup_key = make_dedup_key (r_id r) (r_kind r) (c_scope_type c) (c_scope_id c);
          st' = st\<lparr>ms_breach_started_at := None, ms_clear_started_at := None\<rparr>
      in case find (\<lambda>a. a_dedup_key a = dedup_key \<and> a_state a = Open) (e_alerts e) of
           None \<Rightarrow> ((None, st'), e)
         | Some a \<Rightarrow> (case resolve_alert W a why True e of (a', e') \<Rightarrow> ((Some a', st'), e')))"

definition fire_metric_rule ::
    "world \<Rightarrow> rule \<Rightarrow> ctx \<Rightarrow> rat \<Rightarrow> mstate \<Rightarrow> engine \<Rightarrow> (alert option \<times> mstate) \<times> engine" where
  "fire_metric_rule W r c v st e =
     (let st' = (if ms_breach_started_at st = None
                 then st\<lparr>ms_breach_started_at := Some (w_now W)\<rparr> else st);
          dedup_key = make_dedup_key (r_id r) (r_kind r) (c_scope_type c) (c_scope_id c)
      in case get_or_create_alert W dedup_key r c (Some v) None e of ((a, is_new), e1) \<Rightarrow>
           if is_new then ((Some a, st'), e1)
           else if check_cooldown (w_now W) a (int_or (r_notification_cooldown r) 300)
           then ((None, st'), e1)
           else (case update_alert W a (Some v) True None e1 of (a', e2) \<Rightarrow> ((Some a', st'), e2)))"

text \<open>The branch taken when the rule does not fire.\<close>

definition calm_metric_rule ::
    "world \<Rightarrow> rule \<Rightarrow> ctx \<Rightarrow> bool \<Rightarrow> mstate \<Rightarrow> engine \<Rightarrow> (alert option \<times> mstate) \<times> engine" where
  "calm_metric_rule W r c clear_breached st e =
     (if clear_breached then ((None, st\<lparr>ms_clear_started_at := None\<rparr>), e)
      else if clear_delay_of r = 0
      then clear_open_metric_alert W r c st ClearConditionMetImmediate e
      else (let start = (case ms_clear_started_at st of None \<Rightarrow> w_now W | Some t \<Rightarrow> t);
                st' = st\<lparr>ms_clear_started_at := Some start\<rparr>
            in if w_now W - start \<ge> secs (clear_delay_of r)
               then clear_open_metric_alert W r c st' ClearConditionMet e
               else ((None, st'), e)))"

definition decide_metric_rule ::
    "world \<Rightarrow> rule \<Rightarrow> ctx \<Rightarrow> rat \<Rightarrow> bool \<Rightarrow> bool \<Rightarrow> mstate \<Rightarrow> engine \<Rightarrow> (alert option \<times> mstate) \<times> engine" where
  "decide_metric_rule W r c v breached clear_breached st e =
     (if should_fire r (ms_breach_count st) breached
      then (if \<not> breached then ((None, st), e) else fire_metric_rule W r c v st e)
      else calm_metric_rule W r c clear_breached st e)"

definition effective_clear_threshold :: "rule \<Rightarrow> rat option" where
  "effective_clear_threshold r =
     (case r_clear_threshold r of None \<Rightarrow> r_threshold r | Some t \<Rightarrow> Some t)"

text \<open>
  The loop body for a rule whose selectors match. The clear test only runs in the calm branch; it
  cannot raise once the first test has not, so computing it up front changes nothing.
\<close>

definition sample_metric_rule ::
    "world \<Rightarrow> rat \<Rightarrow> ctx \<Rightarrow> rule \<Rightarrow> engine \<Rightarrow> (engine_error, alert option) res \<times> engine" where
  "sample_metric_rule W v c r e =
     (let key = make_runtime_key (r_id r) (c_scope_type c) (c_scope_id c);
          st0 = (case dget (e_runtimes e) key of
                   None \<Rightarrow> initial_mstate (w_now W)
                 | Some rt \<Rightarrow> parse_metric_state (w_now W) (rt_state rt));
          owner = (case dget (e_runtimes e) key of None \<Rightarrow> r_id r | Some rt \<Rightarrow> rt_rule_id rt)
      in case (check_breach v (r_threshold r) (r_operator r),
               check_breach v (effective_clear_threshold r) (r_operator r)) of
           (Inr breached, Inr clear_breached) \<Rightarrow>
             (let st1 = push_sample (w_now W) (int_or (r_alert_active_delay r) 0) v breached st0;
                  e1 = e\<lparr>e_evaluations := e_evaluations e @
                         [\<lparr>ev_rule_id = r_id r, ev_timestamp = w_now W, ev_scope_id = c_scope_id c,
                           ev_value = v, ev_breached = breached\<rparr>]\<rparr>
              in case decide_metric_rule W r c v breached clear_breached st1 e1 of
                   ((a, st2), e2) \<Rightarrow>
                     (Inr a, e2\<lparr>e_runtimes := dset key
                        \<lparr>rt_rule_id = owner, rt_state = Some st2, rt_updated_at = w_now W\<rparr>
                        (e_runtimes e2)\<rparr>))
         | _ \<Rightarrow> (Inl ThresholdMissing, e))"

definition metric_rule ::
    "world \<Rightarrow> rat \<Rightarrow> ctx \<Rightarrow> rule \<Rightarrow> engine \<Rightarrow> (engine_error, alert option) res \<times> engine" where
  "metric_rule W v c r e =
     (case matches_selectors (w_rx W) (w_monotonic W) r c (e_quarantine e) of (m, q) \<Rightarrow>
        let e1 = e\<lparr>e_quarantine := q\<rparr> in
        (case m of
           Inl err \<Rightarrow> (Inl err, e1)
         | Inr False \<Rightarrow> (Inr None, e1)
         | Inr True \<Rightarrow> sample_metric_rule W v c r e1))"

fun metric_rules ::
    "world \<Rightarrow> rat \<Rightarrow> ctx \<Rightarrow> rule list \<Rightarrow> engine \<Rightarrow> (engine_error, alert list) res \<times> engine" where
  "metric_rules W v c [] e = (Inr [], e)"
| "metric_rules W v c (r # rs) e = (case metric_rule W v c r e of
      (Inl err, e1) \<Rightarrow> (Inl err, e1)
    | (Inr a, e1) \<Rightarrow>
       (case metric_rules W v c rs e1 of
          (Inl err, e2) \<Rightarrow> (Inl err, e2)
        | (Inr as, e2) \<Rightarrow> (Inr ((case a of None \<Rightarrow> [] | Some x \<Rightarrow> [x]) @ as), e2)))"

definition evaluate_metric ::
    "world \<Rightarrow> string \<Rightarrow> rat \<Rightarrow> ctx \<Rightarrow> engine \<Rightarrow> (engine_error, alert list) res \<times> engine" where
  "evaluate_metric W metric_name v c e =
     metric_rules W v c
       (filter (\<lambda>r. r_enabled r \<and> r_metric r = Some metric_name \<and> r_scope r = c_scope_type c)
         (e_rules e)) e"

end
