(* ===== verification/AlertEngineLaws.thy ===== *)
theory AlertEngineLaws
  imports AlertEngine
begin

text \<open>
  What the alert engine guarantees: one alert per deduplication key along every run, the
  exactness of the two pending queues, the cooldown, the merge of event contexts, and the
  behaviour of metric windows.
\<close>

named_theorems engine_defs \<open>the operations that touch the alerts table\<close>

declare get_or_create_alert_def [engine_defs] update_alert_def [engine_defs]
  resolve_alert_def [engine_defs] put_alert_def [engine_defs]

section \<open>The invariant\<close>

definition alerts_ok :: "(nat \<Rightarrow> string) \<Rightarrow> engine \<Rightarrow> bool" where
  "alerts_ok u e = (distinct (map a_dedup_key (e_alerts e)) \<and> distinct (map a_id (e_alerts e))
     \<and> (\<forall>a \<in> set (e_alerts e). \<exists>i < e_uuids e. a_id a = u i))"

definition pending_ok :: "string \<times> pending \<Rightarrow> bool" where
  "pending_ok kp = (case kp of (k, p) \<Rightarrow>
     k = p_dedup_key p
     \<and> k = make_dedup_key (p_rule_id p) (p_kind p) (c_scope_type (p_context p)) (c_scope_id (p_context p))
     \<and> 0 < p_delay_seconds p)"

definition queues_ok :: "engine \<Rightarrow> bool" where
  "queues_ok e = (wf_dict (e_pending e) \<and> wf_dict (e_clears e) \<and> wf_dict (e_runtimes e)
     \<and> (\<forall>kp \<in> set (e_pending e). pending_ok kp)
     \<and> (\<forall>(i, pc) \<in> set (e_clears e). pc_alert_id pc = i))"

definition engine_ok :: "(nat \<Rightarrow> string) \<Rightarrow> engine \<Rightarrow> bool" where
  "engine_ok u e = (alerts_ok u e \<and> queues_ok e)"

lemma alerts_ok_cong:
  "e_alerts e' = e_alerts e \<Longrightarrow> e_uuids e' = e_uuids e \<Longrightarrow> alerts_ok u e' = alerts_ok u e"
  by (simp add: alerts_ok_def)

lemma queues_ok_cong:
  "e_pending e' = e_pending e \<Longrightarrow> e_clears e' = e_clears e \<Longrightarrow> e_runtimes e' = e_runtimes e
     \<Longrightarrow> queues_ok e' = queues_ok e"
  by (simp add: queues_ok_def)

lemma alerts_ok_simps [simp]:
  "alerts_ok u (e\<lparr>e_quarantine := q\<rparr>) = alerts_ok u e"
  "alerts_ok u (e\<lparr>e_pending := p\<rparr>) = alerts_ok u e"
  "alerts_ok u (e\<lparr>e_clears := c\<rparr>) = alerts_ok u e"
  "alerts_ok u (e\<lparr>e_runtimes := r\<rparr>) = alerts_ok u e"
  "alerts_ok u (e\<lparr>e_evaluations := v\<rparr>) = alerts_ok u e"
  by (simp_all add: alerts_ok_def)

lemma queues_ok_simps [simp]:
  "queues_ok (e\<lparr>e_quarantine := q\<rparr>) = queues_ok e"
  "queues_ok (e\<lparr>e_alerts := as\<rparr>) = queues_ok e"
  "queues_ok (e\<lparr>e_uuids := n\<rparr>) = queues_ok e"
  "queues_ok (e\<lparr>e_evaluations := v\<rparr>) = queues_ok e"
  by (simp_all add: queues_ok_def)

lemma find_by_key_Some: "find_by_key as k = Some a \<Longrightarrow> a \<in> set as \<and> a_dedup_key a = k"
  by (auto simp: find_by_key_def find_Some_iff)

lemma find_by_id_Some: "find_by_id as k = Some a \<Longrightarrow> a \<in> set as \<and> a_id a = k"
  by (auto simp: find_by_id_def find_Some_iff)

lemma find_by_key_None: "find_by_key as k = None \<longleftrightarrow> k \<notin> a_dedup_key ` set as"
  by (auto simp: find_by_key_def find_None_iff)

lemma update_alert_row_keys [simp]:
  "a_id (update_alert_row now v inc d a) = a_id a"
  "a_dedup_key (update_alert_row now v inc d a) = a_dedup_key a"
  by (auto simp: update_alert_row_def renotify_on_new_digest_def reopen_def Let_def
      split: option.splits)

section \<open>Every operation keeps the invariant\<close>

lemma put_alert_ok:
  assumes "alerts_ok u e" and "a \<in> set (e_alerts e)"
    and "a_id a' = a_id a" and "a_dedup_key a' = a_dedup_key a"
  shows "alerts_ok u (put_alert a' e)"
proof -
  have same: "b = a" if "b \<in> set (e_alerts e)" "a_id b = a_id a'" for b
    using assms that by (auto simp: alerts_ok_def distinct_map inj_on_def)
  have "map a_id (e_alerts (put_alert a' e)) = map a_id (e_alerts e)"
    and "map a_dedup_key (e_alerts (put_alert a' e)) = map a_dedup_key (e_alerts e)"
    using same assms(4) by (auto simp: put_alert_def)
  moreover have "\<exists>i < e_uuids e. a_id b = u i" if "b \<in> set (e_alerts (put_alert a' e))" for b
    using that assms by (auto simp: put_alert_def alerts_ok_def split: if_splits)
  moreover have "e_uuids (put_alert a' e) = e_uuids e" by (simp add: put_alert_def)
  ultimately show ?thesis using assms(1) by (simp add: alerts_ok_def)
qed

lemma put_alert_queues [simp]: "queues_ok (put_alert a e) = queues_ok e"
  by (simp add: put_alert_def)

lemma update_alert_ok:
  "engine_ok u e \<Longrightarrow> a \<in> set (e_alerts e) \<Longrightarrow> engine_ok u (snd (update_alert W a v inc d e))"
  using put_alert_ok [of u e a] by (simp add: engine_ok_def update_alert_def Let_def)

lemma resolve_alert_ok:
  "engine_ok u e \<Longrightarrow> a \<in> set (e_alerts e) \<Longrightarrow> engine_ok u (snd (resolve_alert W a why n e))"
  using put_alert_ok [of u e a] by (simp add: engine_ok_def resolve_alert_def Let_def)

lemma get_or_create_in:
  "get_or_create_alert W k r c v d e = ((a, n), e1) \<Longrightarrow> a \<in> set (e_alerts e1) \<and> a_dedup_key a = k"
  by (auto simp: get_or_create_alert_def Let_def split: option.splits dest: find_by_key_Some)

lemma get_or_create_new:
  assumes "find_by_key (e_alerts e) k = None"
  shows "\<exists>a. get_or_create_alert W k r c v d e =
      ((a, True), e\<lparr>e_alerts := e_alerts e @ [a], e_uuids := Suc (e_uuids e)\<rparr>)
    \<and> a_id a = w_uuid W (e_uuids e) \<and> a_dedup_key a = k \<and> a_state a = Open
    \<and> a_last_seen a = w_now W"
  using assms by (simp add: get_or_create_alert_def Let_def)

lemma get_or_create_old:
  "find_by_key (e_alerts e) k = Some a \<Longrightarrow> get_or_create_alert W k r c v d e = ((a, False), e)"
  by (simp add: get_or_create_alert_def)

lemma fresh_id:
  assumes "alerts_ok u e" and "inj u"
  shows "u (e_uuids e) \<notin> a_id ` set (e_alerts e)"
proof
  assume "u (e_uuids e) \<in> a_id ` set (e_alerts e)"
  then obtain i where "i < e_uuids e" "u (e_uuids e) = u i"
    using assms(1) by (auto simp: alerts_ok_def)
  with assms(2) show False by (auto dest: injD)
qed

lemma alerts_ok_add:
  assumes "alerts_ok u e" and "inj u" and "a_id a = u (e_uuids e)"
    and "a_dedup_key a \<notin> a_dedup_key ` set (e_alerts e)"
  shows "alerts_ok u (e\<lparr>e_alerts := e_alerts e @ [a], e_uuids := Suc (e_uuids e)\<rparr>)"
proof -
  have "\<exists>i < Suc (e_uuids e). a_id b = u i" if "b \<in> set (e_alerts e @ [a])" for b
    using that assms(1,3) by (cases "b = a") (auto simp: alerts_ok_def intro: less_SucI)
  then show ?thesis
    using assms fresh_id [OF assms(1,2)] by (simp add: alerts_ok_def)
qed

lemma get_or_create_ok:
  assumes "engine_ok (w_uuid W) e" and "inj (w_uuid W)"
  shows "engine_ok (w_uuid W) (snd (get_or_create_alert W k r c v d e))"
proof (cases "find_by_key (e_alerts e) k")
  case None
  with get_or_create_new [OF None, of W r c v d] alerts_ok_add [of "w_uuid W" e] assms
  show ?thesis by (auto simp: engine_ok_def find_by_key_None)
next
  case (Some a)
  then show ?thesis using assms by (simp add: get_or_create_old)
qed

lemma goc_then_update_ok:
  assumes "get_or_create_alert W k r c v d e = ((a, n), e1)"
    and "engine_ok (w_uuid W) e" and "inj (w_uuid W)"
  shows "engine_ok (w_uuid W) e1 \<and> engine_ok (w_uuid W) (snd (update_alert W a v' inc d' e1))"
  using get_or_create_ok [OF assms(2,3), of k r c v d] get_or_create_in [OF assms(1)] assms(1)
  by (simp add: update_alert_ok)

lemma add_pending_ok:
  "engine_ok u e \<Longrightarrow> pending_ok (k, p) \<Longrightarrow> engine_ok u (e\<lparr>e_pending := dset k p (e_pending e)\<rparr>)"
  by (auto simp: engine_ok_def queues_ok_def dest!: set_dset)

lemma fire_event_rule_ok:
  assumes "engine_ok (w_uuid W) e" and "inj (w_uuid W)"
  shows "engine_ok (w_uuid W) (snd (fire_event_rule W t c d r e))"
proof -
  define k where "k = make_dedup_key (r_id r) (r_kind r) (c_scope_type c) (c_scope_id c)"
  obtain a n e1 where g: "get_or_create_alert W k r c None d e = ((a, n), e1)"
    by (metis surj_pair)
  note ok = goc_then_update_ok [OF g assms]
  have "snd (case update_alert W a None True d e1 of (a', e2) \<Rightarrow> (Some a', e2)) =
      snd (update_alert W a None True d e1)" by (simp add: split_beta)
  then show ?thesis
    using assms(1) ok
    by (auto simp: fire_event_rule_def Let_def k_def [symmetric] g intro!: add_pending_ok)
      (simp add: pending_ok_def k_def)
qed

lemma event_rule_ok:
  assumes "engine_ok (w_uuid W) e" and "inj (w_uuid W)"
  shows "engine_ok (w_uuid W) (snd (event_rule W t c d r e))"
proof -
  have q: "engine_ok u (e\<lparr>e_quarantine := q\<rparr>) = engine_ok u e" for u q
    by (simp add: engine_ok_def)
  show ?thesis
    using assms fire_event_rule_ok [of W "e\<lparr>e_quarantine := q\<rparr>" t c d r for q]
    by (auto simp: event_rule_def q Let_def split_beta split: sum.splits bool.splits)
qed

lemma event_rules_ok:
  assumes "inj (w_uuid W)"
  shows "engine_ok (w_uuid W) e \<Longrightarrow> engine_ok (w_uuid W) (snd (event_rules W t c d rs e))"
proof (induction rs arbitrary: e)
  case (Cons r rs)
  obtain x e1 where 1: "event_rule W t c d r e = (x, e1)" by fastforce
  have "engine_ok (w_uuid W) e1" using event_rule_ok [OF Cons.prems assms, of t c d r] 1 by simp
  from Cons.IH [OF this] show ?case
    using \<open>engine_ok (w_uuid W) e1\<close> by (auto simp: 1 split: prod.splits sum.splits)
qed simp

lemma fire_pending_ok:
  assumes "engine_ok (w_uuid W) e" and "inj (w_uuid W)"
  shows "engine_ok (w_uuid W) (snd (fire_pending W k p e))"
proof (cases "find_rule e (p_rule_id p)")
  case (Some r)
  obtain a n e1 where g: "get_or_create_alert W k r (p_context p) None (p_event_data p) e = ((a, n), e1)"
    by (metis surj_pair)
  show ?thesis
    using goc_then_update_ok [OF g assms] assms(1) by (simp add: fire_pending_def Some g split_beta)
qed (simp add: fire_pending_def assms)

lemma pending_loop_ok:
  assumes "inj (w_uuid W)"
  shows "engine_ok (w_uuid W) e \<Longrightarrow> engine_ok (w_uuid W) (snd (snd (pending_loop W ps e)))"
  by (induction ps arbitrary: e)
    (auto simp: split_beta fire_pending_ok assms)

lemma ddel_all_queues:
  "engine_ok u e \<Longrightarrow> engine_ok u (e\<lparr>e_pending := ddel_all ks (e_pending e)\<rparr>)"
  "engine_ok u e \<Longrightarrow> engine_ok u (e\<lparr>e_clears := ddel_all ks (e_clears e)\<rparr>)"
  by (auto simp: engine_ok_def queues_ok_def ddel_all_eq wf_dict_def
      intro: distinct_map_filter)

lemma clears_loop_ok:
  "engine_ok u e \<Longrightarrow> engine_ok u (snd (snd (clears_loop W ps e)))"
proof (induction ps arbitrary: e)
  case (Cons x ps)
  obtain i pc where x: "x = (i, pc)" by fastforce
  show ?case
    using Cons.IH [OF Cons.prems]
      Cons.IH [OF resolve_alert_ok [OF Cons.prems, of _ W "pc_reason pc" True]]
    by (auto simp: x split_beta split: option.splits dest: find_by_id_Some)
qed simp

lemma fire_metric_rule_ok:
  assumes "engine_ok (w_uuid W) e" and "inj (w_uuid W)"
  shows "engine_ok (w_uuid W) (snd (fire_metric_rule W r c v st e))"
proof -
  obtain a n e1 where g: "get_or_create_alert W
      (make_dedup_key (r_id r) (r_kind r) (c_scope_type c) (c_scope_id c)) r c (Some v) None e = ((a, n), e1)"
    by (metis surj_pair)
  show ?thesis
    using goc_then_update_ok [OF g assms] by (simp add: fire_metric_rule_def Let_def g split_beta)
qed

lemma clear_open_metric_alert_ok:
  "engine_ok u e \<Longrightarrow> engine_ok u (snd (clear_open_metric_alert W r c st why e))"
  by (auto simp: clear_open_metric_alert_def Let_def split_beta resolve_alert_ok find_Some_iff
      split: option.splits)

lemma calm_metric_rule_ok:
  "engine_ok u e \<Longrightarrow> engine_ok u (snd (calm_metric_rule W r c b st e))"
  by (simp add: calm_metric_rule_def Let_def clear_open_metric_alert_ok)

lemma runtimes_ok:
  "engine_ok u (e\<lparr>e_runtimes := dset k rt (e_runtimes e)\<rparr>)" if "engine_ok u e"
  using that by (auto simp: engine_ok_def queues_ok_def)

lemma engine_ok_evaluations [simp]:
  "engine_ok u (e\<lparr>e_evaluations := v\<rparr>) = engine_ok u e"
  "engine_ok u (e\<lparr>e_quarantine := q\<rparr>) = engine_ok u e"
  by (simp_all add: engine_ok_def)

lemma decide_metric_rule_ok:
  assumes "engine_ok (w_uuid W) e" and "inj (w_uuid W)"
  shows "engine_ok (w_uuid W) (snd (decide_metric_rule W r c v b cb st e))"
  using assms by (simp add: decide_metric_rule_def fire_metric_rule_ok calm_metric_rule_ok)

lemma sample_metric_rule_ok:
  assumes "engine_ok (w_uuid W) e" and "inj (w_uuid W)"
  shows "engine_ok (w_uuid W) (snd (sample_metric_rule W v c r e))"
  using assms
  by (auto simp: sample_metric_rule_def Let_def split_beta decide_metric_rule_ok runtimes_ok
      split: sum.splits)

lemma metric_rule_ok:
  assumes "engine_ok (w_uuid W) e" and "inj (w_uuid W)"
  shows "engine_ok (w_uuid W) (snd (metric_rule W v c r e))"
  using assms
  by (auto simp: metric_rule_def Let_def split_beta sample_metric_rule_ok split: sum.splits bool.splits)

lemma metric_rules_ok:
  assumes "inj (w_uuid W)"
  shows "engine_ok (w_uuid W) e \<Longrightarrow> engine_ok (w_uuid W) (snd (metric_rules W v c rs e))"
proof (induction rs arbitrary: e)
  case (Cons r rs)
  obtain x e1 where 1: "metric_rule W v c r e = (x, e1)" by fastforce
  have "engine_ok (w_uuid W) e1" using metric_rule_ok [OF Cons.prems assms, of v c r] 1 by simp
  from Cons.IH [OF this] show ?case
    using \<open>engine_ok (w_uuid W) e1\<close> by (auto simp: 1 split: prod.splits sum.splits)
qed simp

section \<open>Runs of the engine\<close>

text \<open>The calls other components make, each with its clock readings.\<close>

datatype engine_op =
    EvalEvent string ctx "edata option"
  | EvalMetric string rat ctx
  | CheckPending
  | ClearPending string string "string list option"
  | AddClear string string reason \<comment> \<open>alert id, rule id: of rows that exist\<close>
  | CheckClears
  | CancelClear string
  | CancelClears string string "string list option"
  | ResolveAlert string reason bool

fun engine_step :: "world \<Rightarrow> engine \<Rightarrow> time \<times> rat \<times> engine_op \<Rightarrow> engine" where
  "engine_step W0 e (now, mt, op) =
     (let W = W0\<lparr>w_now := now, w_monotonic := mt\<rparr> in
      case op of
        EvalEvent t c d \<Rightarrow> snd (evaluate_event W t c d e)
      | EvalMetric n v c \<Rightarrow> snd (evaluate_metric W n v c e)
      | CheckPending \<Rightarrow> snd (check_pending_event_alerts W e)
      | ClearPending t i ks \<Rightarrow> snd (clear_pending_for_scope t i ks e)
      | AddClear ai ri why \<Rightarrow>
          (case (find_by_id (e_alerts e) ai, find_rule e ri) of
             (Some a, Some r) \<Rightarrow> snd (add_pending_alert_clear W a r why e) | _ \<Rightarrow> e)
      | CheckClears \<Rightarrow> snd (check_pending_alert_clears W e)
      | CancelClear i \<Rightarrow> snd (cancel_pending_clear_for_alert i e)
      | CancelClears t i ks \<Rightarrow> snd (cancel_pending_clears_for_scope t i ks e)
      | ResolveAlert i why notify \<Rightarrow>
          (case find_by_id (e_alerts e) i of
             Some a \<Rightarrow> snd (resolve_alert W a why notify e) | None \<Rightarrow> e))"

lemma add_clear_ok:
  "engine_ok u e \<Longrightarrow> engine_ok u (snd (add_pending_alert_clear W a r why e))"
  by (auto simp: add_pending_alert_clear_def engine_ok_def queues_ok_def dest!: set_dset)

lemma cancel_clear_ok: "engine_ok u e \<Longrightarrow> engine_ok u (snd (cancel_pending_clear_for_alert i e))"
  by (auto simp: cancel_pending_clear_for_alert_def engine_ok_def queues_ok_def dest!: set_ddel)

lemma engine_step_ok:
  assumes "engine_ok (w_uuid W0) e" and inj: "inj (w_uuid W0)"
  shows "engine_ok (w_uuid W0) (engine_step W0 e ev)"
proof -
  obtain now mt op where ev: "ev = (now, mt, op)" by (cases ev) auto
  define W where "W = W0\<lparr>w_now := now, w_monotonic := mt\<rparr>"
  have W: "w_uuid W = w_uuid W0" by (simp add: W_def)
  have injW: "inj (w_uuid W)" using inj W by simp
  have ok: "engine_ok (w_uuid W) e" using assms(1) W by simp
  have "engine_ok (w_uuid W) (snd (check_pending_event_alerts W e))"
    using pending_loop_ok [OF injW ok, of "e_pending e"]
    by (simp add: check_pending_event_alerts_def split_beta ddel_all_queues)
  moreover have "engine_ok (w_uuid W) (snd (check_pending_alert_clears W e))"
    using clears_loop_ok [OF ok, of W "e_clears e"]
    by (simp add: check_pending_alert_clears_def split_beta ddel_all_queues)
  ultimately show ?thesis
    using ok injW
    by (cases op)
      (auto simp: ev W_def [symmetric] W [symmetric] Let_def evaluate_event_def evaluate_metric_def
        event_rules_ok metric_rules_ok clear_pending_for_scope_def ddel_all_queues
        cancel_pending_clears_for_scope_def add_clear_ok cancel_clear_ok resolve_alert_ok
        split: option.splits dest: find_by_id_Some)
qed

interpretation eng: machine "engine_step W" "\<lambda>e. inj (w_uuid W) \<longrightarrow> engine_ok (w_uuid W) e" for W
  by unfold_locales (blast intro: engine_step_ok)

section \<open>The queues\<close>

definition new_engine :: "rule list \<Rightarrow> engine" where
  "new_engine rules = \<lparr>e_alerts = [], e_rules = rules, e_runtimes = [], e_evaluations = [],
     e_pending = [], e_clears = [], e_quarantine = [], e_uuids = 0\<rparr>"

lemma new_engine_ok: "engine_ok u (new_engine rules)"
  by (simp add: new_engine_def engine_ok_def alerts_ok_def queues_ok_def)

lemma goc_frame:
  "e_pending (snd (get_or_create_alert W k r c v d e)) = e_pending e"
  "e_rules (snd (get_or_create_alert W k r c v d e)) = e_rules e"
  "e_clears (snd (get_or_create_alert W k r c v d e)) = e_clears e"
  by (auto simp: get_or_create_alert_def Let_def split: option.splits)

lemma update_frame [simp]:
  "e_pending (snd (update_alert W a v inc d e)) = e_pending e"
  "e_rules (snd (update_alert W a v inc d e)) = e_rules e"
  "e_clears (snd (update_alert W a v inc d e)) = e_clears e"
  by (simp_all add: update_alert_def put_alert_def Let_def)

lemma resolve_frame [simp]:
  "e_pending (snd (resolve_alert W a why n e)) = e_pending e"
  "e_rules (snd (resolve_alert W a why n e)) = e_rules e"
  "e_clears (snd (resolve_alert W a why n e)) = e_clears e"
  by (simp_all add: resolve_alert_def put_alert_def Let_def)

definition rule_live :: "engine \<Rightarrow> pending \<Rightarrow> bool" where
  "rule_live e p = (case find_rule e (p_rule_id p) of None \<Rightarrow> False | Some r \<Rightarrow> r_enabled r)"

lemma update_row_not_resolved: "a_state (update_alert_row now v inc d a) \<noteq> Resolved"
  by (auto simp: update_alert_row_def renotify_on_new_digest_def reopen_def Let_def
      split: option.splits)

lemma fire_pending_facts:
  assumes "fire_pending W k p e = (x, e1)"
  shows "e_pending e1 = e_pending e \<and> e_rules e1 = e_rules e \<and>
    (if rule_live e p then \<exists>a. x = Some a \<and> a_dedup_key a = k \<and> a_state a \<noteq> Resolved else x = None)"
proof (cases "rule_live e p")
  case True
  then obtain r where r: "find_rule e (p_rule_id p) = Some r" "r_enabled r"
    by (auto simp: rule_live_def split: option.splits)
  obtain a n e2 where g: "get_or_create_alert W k r (p_context p) None (p_event_data p) e = ((a, n), e2)"
    by (metis surj_pair)
  have fr: "e_pending e2 = e_pending e" "e_rules e2 = e_rules e"
    using goc_frame [of W k r "p_context p" None "p_event_data p" e] g by simp_all
  have "n \<Longrightarrow> a_state a = Open"
    using g get_or_create_new [of e k W r "p_context p" None "p_event_data p"]
      get_or_create_old [of e k _ W r "p_context p" None "p_event_data p"]
    by (cases "find_by_key (e_alerts e) k") auto
  then show ?thesis
    using assms True r fr get_or_create_in [OF g] update_row_not_resolved
      update_frame [of W a None True "p_event_data p" e2]
    by (auto simp: fire_pending_def g update_alert_def Let_def split: if_splits)
next
  case False
  then show ?thesis using assms by (auto simp: fire_pending_def rule_live_def split: option.splits)
qed

lemma rule_live_cong: "e_rules e1 = e_rules e \<Longrightarrow> rule_live e1 p = rule_live e p"
  by (simp add: rule_live_def find_rule_def)

lemma pending_loop_facts:
  "pending_loop W ps e = (fired, gone, e1) \<Longrightarrow>
     gone = map fst (filter (\<lambda>(k, p). pending_due (w_now W) p) ps)
   \<and> map a_dedup_key fired = map fst (filter (\<lambda>(k, p). pending_due (w_now W) p \<and> rule_live e p) ps)
   \<and> (\<forall>a \<in> set fired. a_state a \<noteq> Resolved)
   \<and> e_pending e1 = e_pending e \<and> e_rules e1 = e_rules e"
proof (induction ps arbitrary: e fired gone e1)
  case (Cons kp ps)
  obtain k p where kp: "kp = (k, p)" by fastforce
  show ?case
  proof (cases "pending_due (w_now W) p")
    case True
    obtain x e2 where 2: "fire_pending W k p e = (x, e2)" by fastforce
    obtain f g e3 where 3: "pending_loop W ps e2 = (f, g, e3)" by (metis surj_pair)
    have fr: "e_pending e2 = e_pending e" "e_rules e2 = e_rules e"
      using fire_pending_facts [OF 2] by simp_all
    have lv: "rule_live e2 = rule_live e" using fr(2) by (intro ext) (rule rule_live_cong)
    have out: "fired = (case x of None \<Rightarrow> [] | Some a \<Rightarrow> [a]) @ f" "gone = k # g" "e1 = e3"
      using Cons.prems True by (simp_all add: kp 2 3)
    have ih: "g = map fst (filter (\<lambda>(k, p). pending_due (w_now W) p) ps)"
      "map a_dedup_key f = map fst (filter (\<lambda>(k, p). pending_due (w_now W) p \<and> rule_live e p) ps)"
      "\<forall>a \<in> set f. a_state a \<noteq> Resolved" "e_pending e3 = e_pending e" "e_rules e3 = e_rules e"
      using Cons.IH [OF 3] fr unfolding lv by simp_all
    show ?thesis
    proof (cases "rule_live e p")
      case l: True
      then obtain a where "x = Some a" "a_dedup_key a = k" "a_state a \<noteq> Resolved"
        using fire_pending_facts [OF 2] by auto
      then show ?thesis unfolding out using ih True l by (simp add: kp)
    next
      case l: False
      then have "x = None" using fire_pending_facts [OF 2] by simp
      then show ?thesis unfolding out using ih True l by (simp add: kp)
    qed
  next
    case False
    then show ?thesis using Cons.prems Cons.IH by (simp add: kp)
  qed
qed simp

lemma ddel_all_filter:
  assumes "wf_dict d"
  shows "ddel_all (map fst (filter (\<lambda>(k, v). P k v) d)) d = filter (\<lambda>(k, v). \<not> P k v) d"
proof -
  have "(k \<in> set (map fst (filter (\<lambda>(k, v). P k v) d))) = P k v" if "(k, v) \<in> set d" for k v
    using that assms wf_dict_dget [OF assms] by force
  then show ?thesis by (auto simp: ddel_all_eq intro!: filter_cong)
qed

text \<open>What the queue does to one row of the alerts table.\<close>

definition clear_row :: "world \<Rightarrow> (string \<times> pending_clear) list \<Rightarrow> alert \<Rightarrow> alert" where
  "clear_row W ps a = (case map_of (filter (\<lambda>(i, pc). clear_due (w_now W) pc) ps) (a_id a) of
      None \<Rightarrow> a
    | Some pc \<Rightarrow> if a_state a = Open
        then a\<lparr>a_state := Resolved, a_resolved_at := Some (w_now W),
               a_resolved_reason := Some (pc_reason pc)\<rparr> else a)"

lemma clear_row_simps:
  "clear_row W [] a = a"
  "\<not> clear_due (w_now W) pc \<Longrightarrow> clear_row W ((i, pc) # ps) a = clear_row W ps a"
  "a_id a \<noteq> i \<Longrightarrow> clear_row W ((i, pc) # ps) a = clear_row W ps a"
  "a_state a \<noteq> Open \<Longrightarrow> clear_row W ps a = a"
  by (auto simp: clear_row_def split: option.splits)

lemma clears_loop_facts:
  assumes "distinct (map a_id (e_alerts e))" and "distinct (map fst ps)"
    and "clears_loop W ps e = (res, gone, e1)"
  shows "gone = map fst (filter (\<lambda>(i, pc). clear_due (w_now W) pc) ps)
   \<and> res = map fst (filter (\<lambda>(i, pc). clear_due (w_now W) pc \<and>
        (\<exists>a \<in> set (e_alerts e). a_id a = i \<and> a_state a = Open)) ps)
   \<and> e_clears e1 = e_clears e
   \<and> e_alerts e1 = map (clear_row W ps) (e_alerts e)"
  using assms
proof (induction ps arbitrary: e res gone e1)
  case (Cons ipc ps)
  obtain i pc where ipc: "ipc = (i, pc)" by fastforce
  note prems = Cons.prems
  consider (wait) "\<not> clear_due (w_now W) pc"
    | (none) "clear_due (w_now W) pc" "find_by_id (e_alerts e) i = None"
    | (closed) a where "clear_due (w_now W) pc" "find_by_id (e_alerts e) i = Some a" "a_state a \<noteq> Open"
    | (opn) a where "clear_due (w_now W) pc" "find_by_id (e_alerts e) i = Some a" "a_state a = Open"
    by (cases "find_by_id (e_alerts e) i") blast+
  then show ?case
  proof cases
    case wait
    then show ?thesis
      using Cons.IH [of e res gone] prems by (simp add: ipc clear_row_simps(2))
  next
    case none
    obtain r g e2 where 2: "clears_loop W ps e = (r, g, e2)" by (metis surj_pair)
    have "\<forall>a \<in> set (e_alerts e). a_id a \<noteq> i"
      using none by (auto simp: find_by_id_def find_None_iff)
    then show ?thesis
      using Cons.IH [OF prems(1) _ 2] prems none 2 by (auto simp: ipc clear_row_simps(3))
  next
    case (closed a)
    obtain r g e2 where 2: "clears_loop W ps e = (r, g, e2)" by (metis surj_pair)
    have un: "\<forall>b \<in> set (e_alerts e). a_id b = i \<longrightarrow> b = a"
      using find_by_id_Some [OF closed(2)] prems(1) by (auto simp: distinct_map inj_on_def)
    have "clear_row W (ipc # ps) b = clear_row W ps b" if "b \<in> set (e_alerts e)" for b
      using un closed(3) that by (cases "a_id b = i") (auto simp: ipc clear_row_simps(3,4))
    moreover have "\<not> (\<exists>b \<in> set (e_alerts e). a_id b = i \<and> a_state b = Open)"
      using un closed(3) by auto
    ultimately show ?thesis
      using Cons.IH [OF prems(1) _ 2] prems closed 2 by (simp add: ipc)
  next
    case (opn a)
    define e2 where "e2 = snd (resolve_alert W a (pc_reason pc) True e)"
    obtain r g e3 where 3: "clears_loop W ps e2 = (r, g, e3)" by (metis surj_pair)
    have a: "a \<in> set (e_alerts e)" "a_id a = i" using find_by_id_Some [OF opn(2)] by auto
    have un: "\<forall>b \<in> set (e_alerts e). a_id b = i \<longrightarrow> b = a"
      using a prems(1) by (auto simp: distinct_map inj_on_def)
    have al: "e_alerts e2 = map (\<lambda>b. if a_id b = i then a\<lparr>a_state := Resolved,
        a_resolved_at := Some (w_now W), a_resolved_reason := Some (pc_reason pc)\<rparr> else b) (e_alerts e)"
      using a by (simp add: e2_def resolve_alert_def put_alert_def Let_def)
    have "map a_id (e_alerts e2) = map a_id (e_alerts e)" using a by (simp add: al)
    then have d2: "distinct (map a_id (e_alerts e2))" using prems(1) by simp
    have ex: "(\<exists>b \<in> set (e_alerts e2). a_id b = j \<and> a_state b = Open) =
        (\<exists>b \<in> set (e_alerts e). a_id b = j \<and> a_state b = Open)" if "j \<noteq> i" for j
      using that a by (auto simp: al)
    have fl: "filter (\<lambda>(j, pc). clear_due (w_now W) pc \<and> (\<exists>b \<in> set (e_alerts e2). a_id b = j \<and> a_state b = Open)) ps
        = filter (\<lambda>(j, pc). clear_due (w_now W) pc \<and> (\<exists>b \<in> set (e_alerts e). a_id b = j \<and> a_state b = Open)) ps"
    proof (rule filter_cong [OF refl])
      fix x assume x_in: "x \<in> set ps"
      obtain j q where x: "x = (j, q)" by fastforce
      with x_in have "j \<noteq> i" using prems(2) by (auto simp: ipc image_def)
      note exj = ex [OF this]
      show "(case x of (j, pc) \<Rightarrow> clear_due (w_now W) pc \<and>
            (\<exists>b \<in> set (e_alerts e2). a_id b = j \<and> a_state b = Open)) =
          (case x of (j, pc) \<Rightarrow> clear_due (w_now W) pc \<and>
            (\<exists>b \<in> set (e_alerts e). a_id b = j \<and> a_state b = Open))"
        by (simp only: x prod.case exj)
    qed
    have cl: "e_clears e2 = e_clears e" by (simp add: e2_def)
    have d: "distinct (map fst ps)" using prems(2) by (simp add: ipc)
    note ih = Cons.IH [OF d2 d 3]
    have out: "res = i # r" "gone = i # g" "e1 = e3"
      using prems(3) opn 3 by (simp_all add: ipc e2_def [symmetric])
    have "e_alerts e3 = map (clear_row W (ipc # ps)) (e_alerts e)"
      unfolding conjunct2 [OF conjunct2 [OF conjunct2 [OF ih]]] al map_map
    proof (rule map_cong [OF refl])
      fix b assume "b \<in> set (e_alerts e)"
      then show "(clear_row W ps \<circ> (\<lambda>b. if a_id b = i then a\<lparr>a_state := Resolved,
            a_resolved_at := Some (w_now W), a_resolved_reason := Some (pc_reason pc)\<rparr> else b)) b =
          clear_row W (ipc # ps) b"
        using un opn(1,3) by (cases "a_id b = i") (simp_all add: ipc clear_row_def split: option.split)
    qed
    moreover have "\<exists>b \<in> set (e_alerts e). a_id b = i \<and> a_state b = Open" using a opn(3) by blast
    ultimately show ?thesis
      unfolding out using ih opn(1) by (simp add: ipc fl cl)
  qed
qed (auto simp: clear_row_simps(1) intro!: map_idI [symmetric])

section \<open>Metric windows\<close>

text \<open>A series of samples pushed one after the other.\<close>

definition feed :: "int \<Rightarrow> (time \<times> rat \<times> bool) list \<Rightarrow> mstate \<Rightarrow> mstate" where
  "feed d h st = foldl (\<lambda>st (t, v, b). push_sample t d v b st) st h"

lemma feed_snoc: "feed d (h @ [(t, v, b)]) st = push_sample t d v b (feed d h st)"
  by (simp add: feed_def)

lemma push_sample_samples:
  "ms_samples (push_sample t d v b st) =
     (if d > 0 then filter (\<lambda>(ts, _). ts > t - secs d) (ms_samples st @ [(t, v, b)])
      else ms_samples st @ [(t, v, b)])"
  "ms_breach_count (push_sample t d v b st) =
     length (filter (\<lambda>(_, _, b). b) (ms_samples (push_sample t d v b st)))"
  "ms_clear_started_at (push_sample t d v b st) = ms_clear_started_at st"
  by (simp_all add: push_sample_def Let_def)

lemma refilter_later:
  "t \<le> t' \<Longrightarrow> filter (\<lambda>(ts, _). ts > t' - w) (filter (\<lambda>(ts, _). ts > t - w) h) =
     filter (\<lambda>(ts, _). ts > (t' :: int) - w) h"
  by (auto intro!: filter_cong)

lemma feed_window:
  assumes "sorted (map fst h)" and "h \<noteq> []"
  shows "ms_samples (feed d h (initial_mstate t0)) =
    (if d > 0 then filter (\<lambda>(ts, _). ts > fst (last h) - secs d) h else h)"
  using assms
proof (induction h rule: rev_induct)
  case (snoc x h)
  obtain t v b where x: "x = (t, v, b)" by (cases x) auto
  show ?case
  proof (cases "h = []")
    case True
    then show ?thesis
      by (simp add: x feed_def push_sample_samples initial_mstate_def)
  next
    case False
    have t: "fst (last h) \<le> t" using snoc.prems(1) False by (auto simp: x sorted_append)
    have "sorted (map fst h)" using snoc.prems(1) by (simp add: sorted_append)
    note ih = snoc.IH [OF this False]
    show ?thesis
    proof (cases "d > 0")
      case True
      have "ms_samples (feed d (h @ [x]) (initial_mstate t0)) =
          filter (\<lambda>(ts, _). ts > t - secs d) (ms_samples (feed d h (initial_mstate t0)))
          @ [(t, v, b)]"
        using True by (simp add: x feed_snoc push_sample_samples)
      also have "\<dots> = filter (\<lambda>(ts, _). ts > t - secs d) h @ [(t, v, b)]"
        using True refilter_later [OF t, of "secs d" h] by (simp only: ih if_True)
      finally show ?thesis using True by (simp add: x)
    next
      case d: False
      then show ?thesis using ih by (simp add: x feed_snoc push_sample_samples)
    qed
  qed
qed simp

section \<open>Contexts and samples\<close>

lemma ev_get_dset [simp]: "ev_get (dset k v d) k' = (if k' = k then v else ev_get d k')"
  by (simp add: ev_get_def)

lemma dget_fold_dset:
  "dget (fold (\<lambda>(k, v) m. dset k v m) d m) k =
     (case map_of (rev d) k of None \<Rightarrow> dget m k | Some v \<Rightarrow> Some v)"
proof (induction d arbitrary: m)
  case (Cons kv d)
  then show ?case by (cases kv) (auto simp: map_add_def split: option.splits)
qed simp

lemma map_of_rev_wf: "wf_dict d \<Longrightarrow> map_of (rev d) = map_of d"
  by (subst map_of_inject_set) (simp_all add: wf_dict_def rev_map [symmetric] del: rev_map)

lemma find_put_same:
  assumes "a \<in> set (e_alerts e)" and "a_id a' = a_id a" and "P a'"
  shows "find P (e_alerts (put_alert a' e)) \<noteq> None"
proof -
  have "a' \<in> set (e_alerts (put_alert a' e))" using assms by (force simp: put_alert_def)
  with assms(3) show ?thesis unfolding find_None_iff by blast
qed

lemma fire_metric_rule_keeps_timer:
  "ms_clear_started_at (snd (fst (fire_metric_rule W r c v st e))) = ms_clear_started_at st"
  by (auto simp: fire_metric_rule_def Let_def split: prod.splits)

text \<open>An open alert stays open when its rule fires again.\<close>

lemma fire_metric_rule_keeps_open:
  assumes "find_by_key (e_alerts e) k = Some a" and "a_state a = Open"
    and k: "k = make_dedup_key (r_id r) (r_kind r) (c_scope_type c) (c_scope_id c)"
  shows "find (\<lambda>a. a_dedup_key a = k \<and> a_state a = Open)
    (e_alerts (snd (fire_metric_rule W r c v st e))) \<noteq> None"
proof -
  have a: "a \<in> set (e_alerts e)" "a_dedup_key a = k" using find_by_key_Some [OF assms(1)] by auto
  have old: "find (\<lambda>a. a_dedup_key a = k \<and> a_state a = Open) (e_alerts e) \<noteq> None"
    using a assms(2) by (auto simp: find_None_iff)
  have "a_state (update_alert_row (w_now W) (Some v) True None a) = Open"
    using assms(2) by (simp add: update_alert_row_def renotify_on_new_digest_def reopen_def)
  then have "find (\<lambda>a. a_dedup_key a = k \<and> a_state a = Open)
      (e_alerts (put_alert (update_alert_row (w_now W) (Some v) True None a) e)) \<noteq> None"
    using a by (intro find_put_same [OF a(1)]) simp_all
  with old show ?thesis
    by (simp add: fire_metric_rule_def k [symmetric] get_or_create_old [OF assms(1)] Let_def
        update_alert_def)
qed

lemma sample_metric_rule_alerts:
  "e_alerts (snd (sample_metric_rule W v c r e)) = e_alerts e \<or>
   (\<exists>b cb st. check_breach v (r_threshold r) (r_operator r) = Inr b \<and>
     check_breach v (effective_clear_threshold r) (r_operator r) = Inr cb \<and>
     (\<exists>evs. e_alerts (snd (sample_metric_rule W v c r e)) =
        e_alerts (snd (decide_metric_rule W r c v b cb st (e\<lparr>e_evaluations := evs\<rparr>)))))"
  by (auto simp: sample_metric_rule_def Let_def split: sum.splits prod.splits)
    (metis snd_conv)

lemma calm_metric_rule_alerts:
  assumes "a \<in> set (e_alerts (snd (calm_metric_rule W r c cb st e)))"
  shows "a \<in> set (e_alerts e) \<or> a_state a = Resolved \<and>
    (\<exists>b \<in> set (e_alerts e). a_id a = a_id b \<and> a_state b = Open)"
  using assms
  by (auto simp: calm_metric_rule_def clear_open_metric_alert_def resolve_alert_def put_alert_def
      Let_def find_Some_iff split: if_splits option.splits)

section \<open>Bursts of events\<close>

lemma fire_event_rule_pending:
  "dget (e_pending e) k = Some p \<Longrightarrow> dget (e_pending (snd (fire_event_rule W t c d r e))) k = Some p"
  by (auto simp: fire_event_rule_def Let_def dhas_def split_beta goc_frame)

lemma event_rule_pending:
  "dget (e_pending e) k = Some p \<Longrightarrow> dget (e_pending (snd (event_rule W t c d r e))) k = Some p"
  by (auto simp: event_rule_def Let_def split_beta fire_event_rule_pending
      split: sum.splits bool.splits)

lemma event_rules_pending:
  "dget (e_pending e) k = Some p \<Longrightarrow> dget (e_pending (snd (event_rules W t c d rs e))) k = Some p"
proof (induction rs arbitrary: e)
  case (Cons r rs)
  obtain x e1 where 1: "event_rule W t c d r e = (x, e1)" by fastforce
  have "dget (e_pending e1) k = Some p" using event_rule_pending [OF Cons.prems, of W t c d r] 1 by simp
  from Cons.IH [OF this] show ?case
    using \<open>dget (e_pending e1) k = Some p\<close> by (auto simp: 1 split: prod.splits sum.splits)
qed simp

lemma fire_metric_rule_pending:
  "e_pending (snd (fire_metric_rule W r c v st e)) = e_pending e"
  by (auto simp: fire_metric_rule_def Let_def split_beta goc_frame)

lemma sample_metric_rule_pending: "e_pending (snd (sample_metric_rule W v c r e)) = e_pending e"
  by (auto simp: sample_metric_rule_def decide_metric_rule_def fire_metric_rule_pending
      calm_metric_rule_def clear_open_metric_alert_def Let_def split_beta
      split: sum.splits option.splits)

lemma metric_rules_pending: "e_pending (snd (metric_rules W v c rs e)) = e_pending e"
proof (induction rs arbitrary: e)
  case (Cons r rs)
  obtain x e1 where 1: "metric_rule W v c r e = (x, e1)" by fastforce
  have "e_pending (snd (metric_rule W v c r e)) = e_pending e"
    by (auto simp: metric_rule_def sample_metric_rule_pending Let_def split_beta
        split: sum.splits bool.splits)
  then show ?case using Cons.IH [of e1] by (auto simp: 1 split: prod.splits sum.splits)
qed simp

text \<open>The calls that do not end a wait: everything but the timer and an explicit clear.\<close>

fun keeps_waiting :: "engine_op \<Rightarrow> bool" where
  "keeps_waiting CheckPending = False"
| "keeps_waiting (ClearPending t i ks) = False"
| "keeps_waiting _ = True"

lemma clears_loop_pending: "e_pending (snd (snd (clears_loop W ps e))) = e_pending e"
  by (induction ps arbitrary: e) (auto simp: split_beta split: option.splits)

lemma keeps_waiting_step:
  assumes "keeps_waiting op" and "dget (e_pending e) k = Some p"
  shows "dget (e_pending (engine_step W e (now, mt, op))) k = Some p"
  using assms
  by (cases op)
    (auto simp: Let_def evaluate_event_def event_rules_pending evaluate_metric_def
      metric_rules_pending add_pending_alert_clear_def check_pending_alert_clears_def
      clears_loop_pending cancel_pending_clear_for_alert_def cancel_pending_clears_for_scope_def
      split_beta split: option.splits)

section \<open>A concrete engine\<close>

definition demo_world :: world where
  "demo_world = \<lparr>w_now = secs 100, w_monotonic = 100, w_uuid = \<lambda>n. replicate n (CHR ''u''),
     w_rx = \<lparr>rx_compiles = \<lambda>_. True, rx_run = \<lambda>_ _. RxNoMatch\<rparr>, w_updating = \<lambda>_ _. False\<rparr>"

definition demo_pending :: pending where
  "demo_pending = \<lparr>p_rule_id = ''r1'', p_rule_name = ''down'', p_kind = ''host_down'',
     p_delay_seconds = 30, p_triggered_at = secs 50, p_context = demo_ctx,
     p_event_type = ''disconnection'', p_event_data = None,
     p_dedup_key = ''r1|host_down|host:h1''\<rparr>"

definition demo_engine :: engine where
  "demo_engine = \<lparr>e_alerts = [], e_rules = [demo_rule], e_runtimes = [], e_evaluations = [],
     e_pending = [(''r1|host_down|host:h1'', demo_pending),
                  (''r9|host_down|host:h1'', demo_pending\<lparr>p_triggered_at := secs 90\<rparr>)],
     e_clears = [], e_quarantine = [], e_uuids = 2\<rparr>"

definition demo_alert :: alert where
  "demo_alert = \<lparr>a_id = ''u'', a_dedup_key = ''r2|cpu_high|host:h1'', a_scope_type = ''host'',
     a_scope_id = ''h1'', a_kind = ''cpu_high'', a_severity = ''critical'', a_state = Open,
     a_title = PlainTitle ''cpu'', a_message = [], a_first_seen = 0, a_last_seen = 0,
     a_occurrences = 1, a_snoozed_until = None, a_resolved_at = None, a_resolved_reason = None,
     a_rule_id = Some ''r2'', a_rule_version = Some 1, a_current_value = Some 95,
     a_threshold = Some 90, a_rule_snapshot = None, a_labels = None, a_host_name = None,
     a_host_id = Some ''h1'', a_container_name = None, a_event_context = NoContext,
     a_notified_at = None, a_notification_count = 0, a_last_attempt_at = None,
     a_next_retry_at = None, a_suppressed_by_blackout = False, a_resolve_notified_at = None\<rparr>"

definition demo_clearing :: engine where
  "demo_clearing = demo_engine\<lparr>e_alerts := [demo_alert],
     e_clears := [(''u'', \<lparr>pc_alert_id = ''u'', pc_alert_title = PlainTitle ''cpu'', pc_rule_id = ''r2'',
        pc_delay_seconds = 60, pc_clear_started_at = secs 30, pc_reason = ClearConditionMet\<rparr>)]\<rparr>"

definition demo_metric_engine :: engine where
  "demo_metric_engine = demo_engine\<lparr>e_alerts := [demo_alert],
     e_runtimes := [(''r2|host:h1'', \<lparr>rt_rule_id = ''r2'',
        rt_state = Some ((initial_mstate 0)\<lparr>ms_clear_started_at := Some (secs 40)\<rparr>),
        rt_updated_at = 0\<rparr>)]\<rparr>"

definition demo_resolved :: engine where
  "demo_resolved = demo_engine\<lparr>e_alerts := [demo_alert\<lparr>a_dedup_key := ''r1|host_down|host:h1'',
     a_state := Resolved, a_notified_at := Some (secs 90)\<rparr>]\<rparr>"

lemma demo_pending_facts:
  "wf_dict (e_pending demo_engine)"
  "map fst (filter (\<lambda>(k, p). pending_due (w_now demo_world) p \<and> rule_live demo_engine p)
     (e_pending demo_engine)) = [''r1|host_down|host:h1'']"
  "filter (\<lambda>(k, p). \<not> pending_due (w_now demo_world) p) (e_pending demo_engine) =
     [(''r9|host_down|host:h1'', demo_pending\<lparr>p_triggered_at := secs 90\<rparr>)]"
  by (simp_all add: demo_engine_def wf_dict_def pending_due_def rule_live_def find_rule_def
      demo_world_def demo_pending_def demo_rule_def secs_def)

lemma demo_clearing_facts:
  "distinct (map a_id (e_alerts demo_clearing))" "wf_dict (e_clears demo_clearing)"
  "map fst (filter (\<lambda>(i, pc). clear_due (w_now demo_world) pc \<and>
     (\<exists>a \<in> set (e_alerts demo_clearing). a_id a = i \<and> a_state a = Open)) (e_clears demo_clearing)) = [''u'']"
  "filter (\<lambda>(i, pc). \<not> clear_due (w_now demo_world) pc) (e_clears demo_clearing) = []"
  by (simp_all add: demo_clearing_def demo_engine_def wf_dict_def clear_due_def demo_world_def
      demo_alert_def secs_def)

lemma demo_metric_calm:
  "check_breach 50 (r_threshold demo_metric_rule) (r_operator demo_metric_rule) = Inr False"
  "e_alerts (snd (sample_metric_rule (demo_world\<lparr>w_now := secs 50\<rparr>) 50 demo_ctx demo_metric_rule
     demo_metric_engine)) = [demo_alert]"
  by (simp_all add: check_breach_def demo_metric_rule_def demo_rule_def breaches_def
      BREACH_OPERATORS_def sample_metric_rule_def demo_metric_engine_def demo_engine_def
      effective_clear_threshold_def decide_metric_rule_def should_fire_def int_or_def
      calm_metric_rule_def clear_delay_of_def parse_metric_state_def make_runtime_key_def
      demo_ctx_def push_sample_samples demo_world_def secs_def)

lemma demo_uuid: "inj (w_uuid demo_world)"
  by (auto simp: demo_world_def inj_def dest: arg_cong [where f = length])

section \<open>Properties\<close>

text \<open>C1: deduplication. However events, samples, timers, clears and manual resolutions interleave,
  no two alerts of the table share a deduplication key or an id, every pending event is filed
  under the key its alert will have, and every pending entry waits a positive delay.\<close>

theorem one_alert_per_key:
  assumes "inj (w_uuid W)"
  shows "let e = run (engine_step W) (new_engine rules) ops in
     distinct (map a_dedup_key (e_alerts e)) \<and> distinct (map a_id (e_alerts e))
     \<and> distinct (map fst (e_pending e)) \<and> (\<forall>kp \<in> set (e_pending e). pending_ok kp)"
proof -
  have "engine_ok (w_uuid W) (run (engine_step W) (new_engine rules) ops)"
    using eng.run_inv [of W "new_engine rules" ops] assms new_engine_ok by blast
  then show ?thesis
    unfolding engine_ok_def alerts_ok_def queues_ok_def wf_dict_def Let_def by blast
qed

theorem one_alert_per_key_witness:
  "distinct (map a_dedup_key (e_alerts (run (engine_step demo_world) (new_engine [demo_rule])
     [(0, 0, EvalEvent ''disconnection'' demo_ctx None), (secs 40, 40, CheckPending),
      (secs 50, 50, EvalEvent ''disconnection'' demo_ctx None), (secs 90, 90, CheckPending)])))"
  using one_alert_per_key [of demo_world "[demo_rule]"
     "[(0, 0, EvalEvent ''disconnection'' demo_ctx None), (secs 40, 40, CheckPending),
      (secs 50, 50, EvalEvent ''disconnection'' demo_ctx None), (secs 90, 90, CheckPending)]"] demo_uuid
  unfolding Let_def by blast

text \<open>C2: the delay queue fires exactly what is due. One check removes from the queue exactly the
  entries whose delay has passed; it fires, in queue order and once each, those among them
  whose rule still exists and is enabled; and no alert it reports is left resolved.\<close>

theorem pending_alerts_fire_exactly:
  assumes "wf_dict (e_pending e)" and "check_pending_event_alerts W e = (fired, e')"
  shows "e_pending e' = filter (\<lambda>(k, p). \<not> pending_due (w_now W) p) (e_pending e)
    \<and> map a_dedup_key fired =
        map fst (filter (\<lambda>(k, p). pending_due (w_now W) p \<and> rule_live e p) (e_pending e))
    \<and> (\<forall>a \<in> set fired. a_state a \<noteq> Resolved)"
proof -
  obtain g e1 where 1: "pending_loop W (e_pending e) e = (fired, g, e1)"
    and e': "e' = e1\<lparr>e_pending := ddel_all g (e_pending e1)\<rparr>"
    using assms(2) by (auto simp: check_pending_event_alerts_def split: prod.splits)
  show ?thesis
    using pending_loop_facts [OF 1] ddel_all_filter [OF assms(1)] by (simp add: e')
qed

theorem pending_alerts_fire_exactly_witness:
  "map a_dedup_key (fst (check_pending_event_alerts demo_world demo_engine)) = [''r1|host_down|host:h1'']
   \<and> e_pending (snd (check_pending_event_alerts demo_world demo_engine)) =
       [(''r9|host_down|host:h1'', demo_pending\<lparr>p_triggered_at := secs 90\<rparr>)]"
  using pending_alerts_fire_exactly [of demo_engine demo_world
      "fst (check_pending_event_alerts demo_world demo_engine)"
      "snd (check_pending_event_alerts demo_world demo_engine)"]
  by (simp only: demo_pending_facts prod.collapse simp_thms)

text \<open>C9: the clear queue resolves exactly what is due and open. One check removes exactly the
  entries whose delay has passed; it resolves, with the reason queued and nothing else changed,
  exactly the alerts among them that are still open, and reports exactly their ids.\<close>

theorem pending_clears_resolve_exactly:
  assumes "distinct (map a_id (e_alerts e))" and "wf_dict (e_clears e)"
    and "check_pending_alert_clears W e = (resolved, e')"
  shows "e_clears e' = filter (\<lambda>(i, pc). \<not> clear_due (w_now W) pc) (e_clears e)
    \<and> resolved = map fst (filter (\<lambda>(i, pc). clear_due (w_now W) pc \<and>
        (\<exists>a \<in> set (e_alerts e). a_id a = i \<and> a_state a = Open)) (e_clears e))
    \<and> e_alerts e' = map (clear_row W (e_clears e)) (e_alerts e)"
proof -
  obtain g e1 where 1: "clears_loop W (e_clears e) e = (resolved, g, e1)"
    and e': "e' = e1\<lparr>e_clears := ddel_all g (e_clears e1)\<rparr>"
    using assms(3) by (auto simp: check_pending_alert_clears_def split: prod.splits)
  have "distinct (map fst (e_clears e))" using assms(2) by (simp add: wf_dict_def)
  then show ?thesis
    using clears_loop_facts [OF assms(1) _ 1] ddel_all_filter [OF assms(2)] by (simp add: e')
qed

theorem pending_clears_resolve_exactly_witness:
  "fst (check_pending_alert_clears demo_world demo_clearing) = [''u'']
   \<and> e_clears (snd (check_pending_alert_clears demo_world demo_clearing)) = []"
  using pending_clears_resolve_exactly [of demo_clearing demo_world
      "fst (check_pending_alert_clears demo_world demo_clearing)"
      "snd (check_pending_alert_clears demo_world demo_clearing)"]
  by (simp only: demo_clearing_facts prod.collapse simp_thms)

text \<open>Proved as well: the window is the recent history. When samples arrive in order of time, the samples kept
  after any number of them are exactly those of the whole history younger than the rule's delay,
  and the breach count is the number of breaches among them; a rule without a delay keeps
  every sample it ever saw.\<close>

theorem window_is_recent_history:
  assumes "sorted (map fst h)" and "h \<noteq> []"
  shows "let st = feed d h (initial_mstate t0);
             recent = (if d > 0 then filter (\<lambda>(ts, _). ts > fst (last h) - secs d) h else h)
         in ms_samples st = recent \<and> ms_breach_count st = length (filter (\<lambda>(_, _, b). b) recent)"
proof -
  obtain h' t v b where h: "h = h' @ [(t, v, b)]" using assms(2) by (metis prod_cases3 rev_exhaust)
  have "ms_breach_count (feed d h (initial_mstate t0)) =
      length (filter (\<lambda>(_, _, b). b) (ms_samples (feed d h (initial_mstate t0))))"
    unfolding h feed_snoc by (rule push_sample_samples(2))
  then show ?thesis using feed_window [OF assms, of d t0] by (simp add: Let_def)
qed

theorem window_is_recent_history_witness:
  "let st = feed 60 [(0, 95 :: rat, True), (secs 30, 50, False), (secs 70, 96, True)] (initial_mstate 0);
       recent = (if (60::int) > 0 then filter (\<lambda>(ts, _). ts > fst (last [(0, 95 :: rat, True), (secs 30, 50, False), (secs 70, 96, True)]) - secs 60)
          [(0, 95 :: rat, True), (secs 30, 50, False), (secs 70, 96, True)]
          else [(0, 95 :: rat, True), (secs 30, 50, False), (secs 70, 96, True)])
   in ms_samples st = recent \<and> ms_breach_count st = length (filter (\<lambda>(_, _, b). b) recent)"
  by (rule window_is_recent_history) simp_all

text \<open>Proved as well: a sample under the threshold never opens, reopens or touches an alert. Whatever the window
  still counts, after such a sample every row of the alerts table is a row from before, or is
  a row that was open and is now resolved.\<close>

theorem calm_sample_only_resolves:
  assumes "check_breach v (r_threshold r) (r_operator r) = Inr False"
    and "a \<in> set (e_alerts (snd (sample_metric_rule W v c r e)))"
  shows "a \<in> set (e_alerts e) \<or> a_state a = Resolved \<and>
    (\<exists>b \<in> set (e_alerts e). a_id a = a_id b \<and> a_state b = Open)"
  using assms sample_metric_rule_alerts [of W v c r e] calm_metric_rule_alerts [of a W r c]
  by (fastforce simp: decide_metric_rule_def split: if_splits)

theorem calm_sample_only_resolves_witness:
  "demo_alert \<in> set (e_alerts demo_metric_engine) \<or> a_state demo_alert = Resolved \<and>
    list_ex (\<lambda>b. a_id demo_alert = a_id b \<and> a_state b = Open) (e_alerts demo_metric_engine)"
  using calm_sample_only_resolves [of 50 demo_metric_rule demo_alert
      "demo_world\<lparr>w_now := secs 50\<rparr>" demo_ctx demo_metric_engine] demo_metric_calm
  by (auto simp: list_ex_iff)

text \<open>Proved as well: an event's context survives later events. Merging the data of a new event takes every new
  value and keeps every old value the new data does not mention, except that a missing or
  null exit code never erases a known one.\<close>

theorem merge_context_lookup:
  assumes "wf_dict d"
  shows "ev_get (merge_context existing d) k =
    (if k = ''exit_code'' \<and> ev_get d k = VNone \<and> ev_get existing k \<noteq> VNone then ev_get existing k
     else if dhas d k then ev_get d k else ev_get existing k)"
  using map_of_rev_wf [OF assms]
  by (auto simp: merge_context_def Let_def ev_get_def dhas_def dget_fold_dset split: option.splits)

theorem merge_context_lookup_witness:
  "ev_get (merge_context [(''exit_code'', VInt 137)] [(''exit_code'', VNone), (''image'', VStr ''a'')]) ''exit_code''
    = VInt 137"
  by (subst merge_context_lookup) (simp_all add: wf_dict_def ev_get_def)

text \<open>Proved as well: the clear timer survives a new breach. Once a clear timer runs, a breaching sample that fires
  does not stop it: the next calm sample resolves the open alert as soon as the clear delay has
  passed since the timer started, although the metric breached in between.\<close>

theorem clear_timer_survives_breach:
  assumes "dget (e_runtimes e) (make_runtime_key (r_id r) (c_scope_type c) (c_scope_id c)) =
          Some \<lparr>rt_rule_id = ri, rt_state = Some st, rt_updated_at = t\<rparr>"
    and "ms_clear_started_at st = Some t0"
    and "find_by_key (e_alerts e) (make_dedup_key (r_id r) (r_kind r) (c_scope_type c) (c_scope_id c)) = Some a"
    and "a_state a = Open" and "int_or (r_occurrences r) 0 = 0"
    and "r_alert_clear_delay r = Some d" and "0 < d" and "w_now W2 - t0 \<ge> secs d"
    and "check_breach v1 (r_threshold r) (r_operator r) = Inr True"
    and "check_breach v1 (effective_clear_threshold r) (r_operator r) = Inr cb"
    and "check_breach v2 (r_threshold r) (r_operator r) = Inr False"
    and "check_breach v2 (effective_clear_threshold r) (r_operator r) = Inr False"
  shows "\<exists>a'. fst (sample_metric_rule W2 v2 c r (snd (sample_metric_rule W1 v1 c r e))) = Inr (Some a')
    \<and> a_state a' = Resolved \<and> a_resolved_reason a' = Some ClearConditionMet"
proof -
  define k where "k = make_dedup_key (r_id r) (r_kind r) (c_scope_type c) (c_scope_id c)"
  define st1 where "st1 = push_sample (w_now W1) (int_or (r_alert_active_delay r) 0) v1 True st"
  define e1 where "e1 = e\<lparr>e_evaluations := e_evaluations e @
      [\<lparr>ev_rule_id = r_id r, ev_timestamp = w_now W1, ev_scope_id = c_scope_id c,
        ev_value = v1, ev_breached = True\<rparr>]\<rparr>"
  obtain x st2 e2 where f: "fire_metric_rule W1 r c v1 st1 e1 = ((x, st2), e2)" by (metis surj_pair)
  have st2: "ms_clear_started_at st2 = Some t0"
    using fire_metric_rule_keeps_timer [of W1 r c v1 st1 e1] assms(2)
    unfolding f by (simp add: st1_def push_sample_samples)
  have "find (\<lambda>a. a_dedup_key a = k \<and> a_state a = Open) (e_alerts e2) \<noteq> None"
    using fire_metric_rule_keeps_open [of e1 k a r c W1 v1 st1, unfolded f] assms(3,4)
    by (simp add: e1_def k_def)
  then obtain b where b: "find (\<lambda>a. a_dedup_key a = k \<and> a_state a = Open) (e_alerts e2) = Some b" by auto
  have fire: "should_fire r n True" "\<not> should_fire r n False" for n
    using assms(5) by (simp_all add: should_fire_def)
  have e3: "snd (sample_metric_rule W1 v1 c r e) = e2\<lparr>e_runtimes := dset
      (make_runtime_key (r_id r) (c_scope_type c) (c_scope_id c))
      \<lparr>rt_rule_id = ri, rt_state = Some st2, rt_updated_at = w_now W1\<rparr> (e_runtimes e2)\<rparr>"
    using assms(1,9,10) f fire
    by (simp add: sample_metric_rule_def parse_metric_state_def decide_metric_rule_def Let_def
        st1_def e1_def)
  show ?thesis
    unfolding e3 using assms(6,7,8,11,12) b st2 fire
    by (simp add: sample_metric_rule_def parse_metric_state_def decide_metric_rule_def Let_def
        calm_metric_rule_def clear_delay_of_def push_sample_samples clear_open_metric_alert_def
        k_def [symmetric] resolve_alert_def split_beta)
qed

theorem clear_timer_survives_breach_witness:
  "\<exists>a'. fst (sample_metric_rule demo_world 50 demo_ctx demo_metric_rule
      (snd (sample_metric_rule (demo_world\<lparr>w_now := secs 99\<rparr>) 95 demo_ctx demo_metric_rule demo_metric_engine)))
      = Inr (Some a')
    \<and> a_state a' = Resolved \<and> a_resolved_reason a' = Some ClearConditionMet"
  by (rule clear_timer_survives_breach [where ?t0.0 = "secs 40" and d = 60 and a = demo_alert
        and ri = "''r2''" and t = 0 and cb = True
        and st = "(initial_mstate 0)\<lparr>ms_clear_started_at := Some (secs 40)\<rparr>"])
    (simp_all add: demo_metric_engine_def demo_engine_def demo_metric_rule_def demo_rule_def demo_ctx_def
      make_runtime_key_def make_dedup_key_def find_by_key_def demo_alert_def int_or_def demo_world_def
      check_breach_def BREACH_OPERATORS_def effective_clear_threshold_def breaches_def secs_def)

text \<open>Proved as well: a burst of events never postpones a delayed alert. Once an event alert is pending, it stays
  pending with its first trigger time through any sequence of further events, samples, clears
  and resolutions, until the timer is checked or its scope is cleared.\<close>

theorem burst_keeps_first_trigger:
  assumes "list_all (\<lambda>(now, mt, op). keeps_waiting op) ops" and "dget (e_pending e) k = Some p"
  shows "dget (e_pending (run (engine_step W) e ops)) k = Some p"
  using assms
proof (induction ops arbitrary: e)
  case (Cons x ops)
  obtain now mt op where x: "x = (now, mt, op)" by (cases x) auto
  have "dget (e_pending (engine_step W e x)) k = Some p"
    using keeps_waiting_step [of op e k p W now mt] Cons.prems by (simp add: x)
  then show ?case using Cons by simp
qed simp

theorem burst_keeps_first_trigger_witness:
  "dget (e_pending (run (engine_step demo_world) demo_engine
     [(secs 60, 60, EvalEvent ''disconnection'' demo_ctx None), (secs 70, 70, CheckClears),
      (secs 75, 75, EvalEvent ''disconnection'' demo_ctx None)])) ''r1|host_down|host:h1'' = Some demo_pending"
  by (rule burst_keeps_first_trigger) (simp_all add: demo_engine_def)

text \<open>Proved as well: an event in the notification cooldown. When a rule without delay matches an event and its
  alert was notified less than the cooldown ago, nothing is reported and no occurrence is
  counted; but a resolved alert is stored reopened and marked as never notified, so the next
  check no longer sees a cooldown.\<close>

theorem cooldown_event_reopens:
  assumes "find_by_key (e_alerts e) (make_dedup_key (r_id r) (r_kind r) (c_scope_type c) (c_scope_id c)) = Some a"
    and "int_or (r_alert_active_delay r) 0 \<le> 0"
    and "check_cooldown (w_now W) a (int_or (r_notification_cooldown r) 300)"
    and "a_state a = Resolved"
  shows "\<exists>a'. fire_event_rule W t c d r e = (None, put_alert a' e) \<and> a_id a' = a_id a
    \<and> a_occurrences a' = a_occurrences a \<and> a_state a' = Open \<and> a_notified_at a' = None
    \<and> \<not> check_cooldown now' a' (int_or (r_notification_cooldown r) 300)"
  using assms
  by (auto simp: fire_event_rule_def get_or_create_old update_alert_def update_alert_row_def
      renotify_on_new_digest_def reopen_def check_cooldown_def Let_def split: option.splits)

theorem cooldown_event_reopens_witness:
  "\<exists>a'. fire_event_rule demo_world ''disconnection'' demo_ctx None (demo_rule\<lparr>r_alert_active_delay := Some 0\<rparr>)
      demo_resolved = (None, put_alert a' demo_resolved) \<and> a_id a' = ''u''
    \<and> a_occurrences a' = 1 \<and> a_state a' = Open \<and> a_notified_at a' = None
    \<and> \<not> check_cooldown (secs 101) a' (int_or (r_notification_cooldown demo_rule) 300)"
proof -
  define a where "a = demo_alert\<lparr>a_dedup_key := ''r1|host_down|host:h1'', a_state := Resolved,
    a_notified_at := Some (secs 90)\<rparr>"
  define r where "r = demo_rule\<lparr>r_alert_active_delay := Some 0\<rparr>"
  have "find_by_key (e_alerts demo_resolved)
      (make_dedup_key (r_id r) (r_kind r) (c_scope_type demo_ctx) (c_scope_id demo_ctx)) = Some a"
    by (simp add: demo_resolved_def find_by_key_def make_dedup_key_def demo_rule_def demo_ctx_def a_def r_def)
  moreover have "int_or (r_alert_active_delay r) 0 \<le> 0" by (simp add: r_def int_or_def)
  moreover have "check_cooldown (w_now demo_world) a (int_or (r_notification_cooldown r) 300)"
    by (simp add: check_cooldown_def a_def r_def demo_world_def demo_rule_def int_or_def secs_def)
  moreover have "a_state a = Resolved" by (simp add: a_def)
  ultimately have "\<exists>a'. fire_event_rule demo_world ''disconnection'' demo_ctx None r demo_resolved =
        (None, put_alert a' demo_resolved) \<and> a_id a' = a_id a
      \<and> a_occurrences a' = a_occurrences a \<and> a_state a' = Open \<and> a_notified_at a' = None
      \<and> \<not> check_cooldown (secs 101) a' (int_or (r_notification_cooldown r) 300)"
    by (rule cooldown_event_reopens)
  then show ?thesis by (simp add: r_def a_def demo_alert_def)
qed

end
