(* ===== verification/Blackout.thy ===== *)
theory Blackout
  imports PyValue
begin

text \<open>
  Blackout windows (\<open>BlackoutManager.is_in_blackout_window\<close> of \<open>backend/blackout_manager.py\<close>): whether an
  instant, shifted by the configured offset, lies in a window of the settings. The windows are
  the JSON the settings hold; an exception anywhere ends the check with "no blackout".
\<close>

section \<open>Parsing a time of day\<close>

text \<open>
  \<open>strptime(s, '%H:%M')\<close> as minutes since midnight: the hour is one digit, \<open>0\<close> or \<open>1\<close> and a
  digit, or \<open>2\<close> and \<open>0\<close> to \<open>3\<close>; the minute one digit, or \<open>0\<close> to \<open>5\<close> and a digit.
\<close>

definition digits_below :: "int \<Rightarrow> string \<Rightarrow> int option" where
  "digits_below n s =
     (if s \<noteq> [] \<and> length s \<le> 2 \<and> list_all is_dec s \<and> dec_val s < n then Some (dec_val s) else None)"

definition parse_hhmm :: "string \<Rightarrow> int option" where
  "parse_hhmm s = (case split_first (CHR '':'') s of
      None \<Rightarrow> None
    | Some (h, m) \<Rightarrow>
        (case (digits_below 24 h, digits_below 60 m) of
           (Some hh, Some mm) \<Rightarrow> Some (hh * 60 + mm)
         | _ \<Rightarrow> None))"

text \<open>A time text of a window; a value that is no string raises \<open>TypeError\<close>, which is caught too.\<close>

definition parse_time :: "pyval \<Rightarrow> int option" where
  "parse_time v = (case v of VStr s \<Rightarrow> parse_hhmm s | _ \<Rightarrow> None)"

section \<open>The check\<close>

definition minute :: time where "minute = 60000000"
definition day :: time where "day = 1440 * minute"

text \<open>Time of day and weekday of an instant (0 is Monday; the epoch was a Thursday).\<close>

definition time_of_day :: "time \<Rightarrow> time" where "time_of_day t = t mod day"
definition weekday :: "time \<Rightarrow> int" where "weekday t = (t div day + 3) mod 7"

definition py_or :: "pyval option \<Rightarrow> pyval \<Rightarrow> pyval" where
  "py_or v d = (case v of Some x \<Rightarrow> if truthy x then x else d | None \<Rightarrow> d)"

text \<open>\<open>n in days\<close>; \<open>None\<close> for a \<open>TypeError\<close>.\<close>

definition day_in :: "int \<Rightarrow> pyval \<Rightarrow> bool option" where
  "day_in n days = (case days of
      VList xs \<Rightarrow> Some (list_ex (\<lambda>x. num_of x = Some (Fin (of_int n))) xs)
    | VDict d \<Rightarrow> Some (list_ex (\<lambda>(x, _). num_of x = Some (Fin (of_int n))) d)
    | _ \<Rightarrow> None)"

definition window_name :: "pyval \<Rightarrow> pyval \<Rightarrow> pyval \<Rightarrow> pyval" where
  "window_name w s e = vget_or w ''name''
     (case (s, e) of (VStr a, VStr b) \<Rightarrow> VStr (a @ ''-'' @ b) | _ \<Rightarrow> VNone)"

text \<open>One window: \<open>None\<close> an exception, \<open>Some None\<close> not in it, \<open>Some (Some name)\<close> in it.\<close>

definition in_window :: "int \<Rightarrow> time \<Rightarrow> pyval \<Rightarrow> pyval option option" where
  "in_window wd tod w =
     (if \<not> is_dict w then None
      else if \<not> truthy (vget_or w ''enabled'' (VBool True)) then Some None
      else
        let days = vget_or w ''days'' (VList []);
            s = py_or (vget w ''start_time'') (vget_or w ''start'' (VStr ''00:00''));
            e = py_or (vget w ''end_time'') (vget_or w ''end'' (VStr ''00:00''));
            name = window_name w s e
        in case (parse_time s, parse_time e) of
             (Some sm, Some em) \<Rightarrow>
               let start = sm * minute; stop = em * minute;
                   on = (\<lambda>d. map_option (\<lambda>b. if b then Some name else None) (day_in d days))
               in if start > stop then
                    (if tod \<ge> start then on wd
                     else if tod < stop then on ((wd - 1) mod 7)
                     else Some None)
                  else (case day_in wd days of None \<Rightarrow> None
                    | Some b \<Rightarrow> Some (if b \<and> start \<le> tod \<and> tod < stop then Some name else None))
           | _ \<Rightarrow> Some None)"

fun check_windows :: "int \<Rightarrow> time \<Rightarrow> pyval list \<Rightarrow> pyval option option" where
  "check_windows wd tod [] = Some None"
| "check_windows wd tod (w # ws) = (case in_window wd tod w of
      Some None \<Rightarrow> check_windows wd tod ws
    | r \<Rightarrow> r)"

record settings =
  blackout_windows :: pyval
  timezone_offset :: int \<comment> \<open>minutes\<close>

definition is_in_blackout_window :: "time \<Rightarrow> settings option \<Rightarrow> bool \<times> pyval option" where
  "is_in_blackout_window now st = (case st of
      None \<Rightarrow> (False, None)
    | Some cfg \<Rightarrow>
        if \<not> truthy (blackout_windows cfg) then (False, None)
        else
          let local = now + timezone_offset cfg * minute in
          (case py_iter (blackout_windows cfg) of
             None \<Rightarrow> (False, None)
           | Some ws \<Rightarrow>
              (case check_windows (weekday local) (time_of_day local) ws of
                 Some (Some name) \<Rightarrow> (True, Some name)
               | _ \<Rightarrow> (False, None))))"

section \<open>The reading of a schedule\<close>

text \<open>
  A schedule entry: the days, the start and the end in minutes of the day. It covers an instant
  when the instant falls less than the window's length after the start on one of its days; a window
  that ends before it starts runs into the next day.
\<close>

record entry =
  en_enabled :: bool
  en_days :: "int list"
  en_start :: string
  en_stop :: string

definition json_of :: "entry \<Rightarrow> pyval" where
  "json_of w = VDict
     [(VStr ''enabled'', VBool (en_enabled w)), (VStr ''days'', VList (map VInt (en_days w))),
      (VStr ''start_time'', VStr (en_start w)), (VStr ''end_time'', VStr (en_stop w))]"

definition entry_ok :: "entry \<Rightarrow> bool" where
  "entry_ok w = (parse_hhmm (en_start w) \<noteq> None \<and> parse_hhmm (en_stop w) \<noteq> None
     \<and> list_all (\<lambda>d. 0 \<le> d \<and> d < 7) (en_days w))"

definition window_length :: "entry \<Rightarrow> time" where
  "window_length w = (let a = the (parse_hhmm (en_start w)); b = the (parse_hhmm (en_stop w))
     in (if a > b then b - a + 1440 else b - a) * minute)"

text \<open>Time since the start of the window on day \<open>d\<close>, within the cycle of the week.\<close>

definition since_start :: "time \<Rightarrow> int \<Rightarrow> entry \<Rightarrow> time" where
  "since_start t d w = (t - (d * day + the (parse_hhmm (en_start w)) * minute)) mod (7 * day)"

definition covers :: "time \<Rightarrow> entry \<Rightarrow> bool" where
  "covers t w = (en_enabled w \<and> (\<exists>d \<in> set (en_days w). since_start (t + 3 * day) d w < window_length w))"

section \<open>Lemmas\<close>

lemma digits_below_range: "digits_below n s = Some x \<Longrightarrow> 0 \<le> x \<and> x < n"
  by (auto simp: digits_below_def list_all_iff dec_val_nonneg split: if_splits)

lemma parse_hhmm_range: "parse_hhmm s = Some m \<Longrightarrow> 0 \<le> m \<and> m < 1440"
  by (auto simp: parse_hhmm_def split: option.splits prod.splits dest!: digits_below_range)

lemma week_split:
  assumes "0 \<le> d" "d < 7" "0 \<le> a" "a < day"
  shows "(t - (d * day + a)) mod (7 * day) =
    (if a \<le> t mod day then ((t div day - d) mod 7) * day + (t mod day - a)
     else ((t div day - d - 1) mod 7) * day + (t mod day - a + day))"
proof -
  define q r where "q = t div day" and "r = t mod day"
  have d0: "0 < day" by (simp add: day_def minute_def)
  have r: "0 \<le> r" "r < day" using d0 by (simp_all add: r_def)
  have t: "t = q * day + r" by (simp add: q_def r_def)
  have m: "(x * day + y) mod (7 * day) = (x mod 7) * day + y" if "0 \<le> y" "y < day" for x y
  proof -
    have "(x * day + y) mod (day * 7) = day * ((x * day + y) div day mod 7) + (x * day + y) mod day"
      by (rule zmod_zmult2_eq) simp
    then show ?thesis using that d0 by (simp add: mult.commute)
  qed
  show ?thesis
  proof (cases "a \<le> r")
    case True
    have e: "t - (d * day + a) = (q - d) * day + (r - a)" using t by (simp add: algebra_simps)
    have "0 \<le> r - a" "r - a < day" using True r assms by simp_all
    then show ?thesis unfolding e using m [of "r - a" "q - d"] True by (simp add: q_def r_def)
  next
    case False
    have e: "t - (d * day + a) = (q - d - 1) * day + (r - a + day)" using t by (simp add: algebra_simps)
    have "0 \<le> r - a + day" "r - a + day < day" using False r assms by simp_all
    then show ?thesis unfolding e using m [of "r - a + day" "q - d - 1"] False by (simp add: q_def r_def)
  qed
qed

lemma less_day_multiple:
  assumes "0 \<le> k" and "0 \<le> x" and "y \<le> day"
  shows "k * day + x < y \<longleftrightarrow> k = 0 \<and> x < y"
proof (cases "k = 0")
  case False
  then have "1 * day \<le> k * day" using assms(1) by (intro mult_right_mono) (simp_all add: day_def minute_def)
  then show ?thesis using False assms by linarith
qed simp

lemma mod7_eq: "0 \<le> d \<Longrightarrow> d < 7 \<Longrightarrow> (q - d) mod 7 = 0 \<longleftrightarrow> d = q mod (7 :: int)"
  by presburger

lemma in_span_iff:
  assumes "entry_ok w" and "d \<in> set (en_days w)"
    and "parse_hhmm (en_start w) = Some sm" and "parse_hhmm (en_stop w) = Some em"
  shows "since_start t d w < window_length w \<longleftrightarrow>
    (if sm > em then
       (if sm * minute \<le> t mod day then d = (t div day) mod 7
        else t mod day < em * minute \<and> d = (t div day - 1) mod 7)
     else sm * minute \<le> t mod day \<and> t mod day < em * minute \<and> d = (t div day) mod 7)"
proof -
  define a b r q where "a = sm * minute" and "b = em * minute" and "r = t mod day" and "q = t div day"
  have m: "0 < minute" "day = 1440 * minute" by (simp_all add: minute_def day_def)
  have d: "0 \<le> d" "d < 7" using assms(1,2) by (auto simp: entry_ok_def list_all_iff)
  have sm: "0 \<le> sm" "sm < 1440" and em: "0 \<le> em" "em < 1440"
    using parse_hhmm_range [OF assms(3)] parse_hhmm_range [OF assms(4)] by auto
  have a: "0 \<le> a" "a < day" and b: "0 \<le> b" "b < day" and r: "0 \<le> r" "r < day"
    using sm em by (auto simp: a_def b_def r_def day_def minute_def)
  have ab: "sm > em \<longleftrightarrow> a > b" using m(1) by (simp add: a_def b_def)
  have sp: "window_length w = (if a > b then b - a + day else b - a)"
    using ab m by (simp add: window_length_def assms(3,4) a_def b_def algebra_simps)
  have ss: "since_start t d w = (if a \<le> r then ((q - d) mod 7) * day + (r - a)
      else ((q - d - 1) mod 7) * day + (r - a + day))"
    using week_split [OF d a] by (simp add: since_start_def assms(3) a_def q_def r_def)
  have k: "0 \<le> (q - d) mod 7" "0 \<le> (q - d - 1) mod 7" by simp_all
  have z: "(q - d) mod 7 = 0 \<longleftrightarrow> d = q mod 7" "(q - d - 1) mod 7 = 0 \<longleftrightarrow> d = (q - 1) mod 7"
    using mod7_eq [OF d, of q] mod7_eq [OF d, of "q - 1"] by (simp_all add: algebra_simps)
  have "since_start t d w < window_length w \<longleftrightarrow>
    (if a > b then (if a \<le> r then d = q mod 7 else r < b \<and> d = (q - 1) mod 7)
     else a \<le> r \<and> r < b \<and> d = q mod 7)"
    unfolding ss sp
    using less_day_multiple [OF k(1), of "r - a" "b - a + day"] less_day_multiple [OF k(1), of "r - a" "b - a"]
      less_day_multiple [OF k(2), of "r - a + day" "b - a + day"]
      less_day_multiple [OF k(2), of "r - a + day" "b - a"] z a b r by (auto split: if_splits)
  then show ?thesis unfolding ab a_def b_def q_def r_def .
qed

lemma num_of_VInt: "num_of (VInt x) = Some (Fin (of_int n)) \<longleftrightarrow> x = n"
  by simp

lemma day_in_days: "day_in n (VList (map VInt ds)) = Some (n \<in> set ds)"
  by (auto simp: day_in_def list_ex_iff)

lemma json_get:
  "vget_or (json_of w) ''enabled'' v = VBool (en_enabled w)"
  "vget_or (json_of w) ''days'' v = VList (map VInt (en_days w))"
  "vget (json_of w) ''start_time'' = Some (VStr (en_start w))"
  "vget (json_of w) ''end_time'' = Some (VStr (en_stop w))"
  "is_dict (json_of w)"
  by (simp_all add: json_of_def vget_or_def)

lemma in_window_json:
  assumes "entry_ok w"
  shows "in_window (weekday t) (time_of_day t) (json_of w) =
    Some (if covers t w then Some (window_name (json_of w) (VStr (en_start w)) (VStr (en_stop w))) else None)"
proof -
  obtain sm em where p: "parse_hhmm (en_start w) = Some sm" "parse_hhmm (en_stop w) = Some em"
    using assms by (auto simp: entry_ok_def)
  have ne: "en_start w \<noteq> []" "en_stop w \<noteq> []" using p by (auto simp: parse_hhmm_def)
  define u where "u = t + 3 * day"
  have d0: "0 < day" by (simp add: day_def minute_def)
  have u: "u div day = t div day + 3" "u mod day = t mod day" using d0 by (simp_all add: u_def)
  have cov: "covers t w \<longleftrightarrow> en_enabled w \<and> (\<exists>d \<in> set (en_days w).
    (if sm > em then
       (if sm * minute \<le> t mod day then d = (t div day + 3) mod 7
        else t mod day < em * minute \<and> d = (2 + t div day) mod 7)
     else sm * minute \<le> t mod day \<and> t mod day < em * minute \<and> d = (t div day + 3) mod 7))"
    using in_span_iff [OF assms _ p, of _ u] by (simp add: covers_def u_def [symmetric] u)
  have w1: "((t div day + 3) mod 7 - 1) mod 7 = (2 + t div day) mod 7"
    by (simp add: mod_diff_left_eq)
  have lt: "sm * minute > em * minute \<longleftrightarrow> sm > em" by (simp add: minute_def)
  show ?thesis
    unfolding cov in_window_def
    by (auto simp: json_get py_or_def ne parse_time_def p day_in_days weekday_def time_of_day_def w1
        Let_def lt)
qed

lemma check_windows_json:
  assumes "list_all entry_ok ws"
  shows "(\<exists>n. check_windows (weekday t) (time_of_day t) (map json_of ws) = Some (Some n)) \<longleftrightarrow>
    (\<exists>w \<in> set ws. covers t w)"
  using assms by (induction ws) (auto simp: in_window_json)

section \<open>Properties\<close>

text \<open>Proved as well: the blackout check reads a schedule the way it is meant. For any list of well-formed windows
  and any offset, the check answers true exactly when some enabled window has a day on which
  it started less than its own length ago in local time, overnight windows running into the next
  day, across the turn of the week too.\<close>

theorem blackout_means_covered:
  assumes "list_all entry_ok ws"
  shows "fst (is_in_blackout_window now (Some \<lparr>blackout_windows = VList (map json_of ws), timezone_offset = off\<rparr>))
    \<longleftrightarrow> (\<exists>w \<in> set ws. covers (now + off * minute) w)"
  using check_windows_json [OF assms, of "now + off * minute"]
  by (auto simp: is_in_blackout_window_def Let_def split: option.splits)

theorem blackout_means_covered_witness:
  "fst (is_in_blackout_window (3 * day + 30 * minute) (Some \<lparr>blackout_windows =
      VList [json_of \<lparr>en_enabled = True, en_days = [6], en_start = ''23:00'', en_stop = ''2:00''\<rparr>],
      timezone_offset = 1440\<rparr>))
   \<longleftrightarrow> covers (4 * day + 30 * minute) \<lparr>en_enabled = True, en_days = [6], en_start = ''23:00'', en_stop = ''2:00''\<rparr>"
proof -
  have "list_all entry_ok [\<lparr>en_enabled = True, en_days = [6], en_start = ''23:00'', en_stop = ''2:00''\<rparr>]"
    by code_simp
  from blackout_means_covered [OF this, of "3 * day + 30 * minute" 1440] show ?thesis
    by (simp add: day_def)
qed

end
