(* ===== verification/DeployState.thy ===== *)
theory DeployState
  imports Prelude
begin

text \<open>
  Deployments: the state machine (\<open>backend/deployment/state_machine.py\<close>) and the way
  \<open>DeploymentExecutor.execute_deployment\<close> (\<open>executor.py\<close>) and the stack executor
  (\<open>stack_executor.py\<close>) drive it. What the compose service or the agent answers is a parameter;
  progress percentages and broadcast payloads are left out, the kinds of the final events are kept.
\<close>

section \<open>The state machine\<close>

record deployment =
  d_stack_name :: string
  d_status :: string
  d_started_at :: "time option"
  d_completed_at :: "time option"
  d_updated_at :: time
  d_committed :: bool
  d_rollback_on_failure :: bool
  d_error_message :: "string option"
  d_links :: "string list" \<comment> \<open>rows of \<open>DeploymentContainer\<close>\<close>

definition VALID_TRANSITIONS :: "(string, string list) pydict" where
  "VALID_TRANSITIONS =
     [(''planning'', [''validating'']),
      (''validating'', [''pulling_image'', ''failed'', ''partial'']),
      (''pulling_image'', [''creating'', ''failed'', ''partial'']),
      (''creating'', [''starting'', ''failed'', ''partial'']),
      (''starting'', [''running'', ''failed'', ''partial'']),
      (''running'', [''validating'']),
      (''partial'', [''validating'']),
      (''failed'', [''rolled_back'', ''validating'']),
      (''rolled_back'', [''validating''])]"

definition VALID_STATES :: "string list" where
  "VALID_STATES = [''planning'', ''validating'', ''pulling_image'', ''creating'', ''starting'',
     ''running'', ''partial'', ''failed'', ''rolled_back'']"

definition get_valid_next_states :: "string \<Rightarrow> string list" where
  "get_valid_next_states s = (case dget VALID_TRANSITIONS s of None \<Rightarrow> [] | Some ss \<Rightarrow> ss)"

definition validate_state :: "string \<Rightarrow> bool" where
  "validate_state s = (s \<in> set VALID_STATES)"

definition can_transition :: "string \<Rightarrow> string \<Rightarrow> bool" where
  "can_transition from_state to_state =
     (from_state \<in> set VALID_STATES \<and> to_state \<in> set VALID_STATES
      \<and> to_state \<in> set (get_valid_next_states from_state))"

definition terminal_states :: "string list" where
  "terminal_states = [''running'', ''partial'', ''failed'', ''rolled_back'']"

definition transition :: "time \<Rightarrow> string \<Rightarrow> deployment \<Rightarrow> bool \<times> deployment" where
  "transition now to_state d =
     (if \<not> can_transition (d_status d) to_state then (False, d)
      else
        let d1 = d\<lparr>d_status := to_state\<rparr>;
            d2 = (if d_status d = ''running'' \<and> to_state = ''validating''
                  then d1\<lparr>d_started_at := Some now, d_completed_at := None, d_committed := False\<rparr>
                  else if to_state = ''validating'' \<and> d_started_at d = None
                  then d1\<lparr>d_started_at := Some now\<rparr>
                  else d1);
            d3 = (if to_state \<in> set terminal_states \<and> d_completed_at d2 = None
                  then d2\<lparr>d_completed_at := Some now\<rparr> else d2)
        in (True, d3\<lparr>d_updated_at := now\<rparr>))"

definition mark_committed :: "deployment \<Rightarrow> deployment" where
  "mark_committed d = d\<lparr>d_committed := True\<rparr>"

definition should_rollback :: "deployment \<Rightarrow> bool" where
  "should_rollback d =
     (if \<not> d_rollback_on_failure d then False
      else if d_committed d then False
      else d_status d \<in> {''validating'', ''pulling_image'', ''creating'', ''starting'', ''failed''})"

definition create_deployment :: "time \<Rightarrow> string \<Rightarrow> bool \<Rightarrow> deployment" where
  "create_deployment now stack_name rollback_on_failure =
     \<lparr>d_stack_name = stack_name, d_status = ''planning'', d_started_at = None, d_completed_at = None, d_updated_at = now,
      d_committed = False, d_rollback_on_failure = rollback_on_failure, d_error_message = None,
      d_links = []\<rparr>"

section \<open>The executor\<close>

datatype deploy_event = Completed | Failed | RolledBack

text \<open>What happened: the deployment row, the containers a rollback asked the host to stop and
  remove (a host that refuses is only logged), the events sent.\<close>

record report =
  rp_row :: deployment
  rp_removed :: "string list"
  rp_events :: "deploy_event list"

definition rollback_deployment :: "time \<Rightarrow> report \<Rightarrow> report" where
  "rollback_deployment now rp =
     (let d = rp_row rp in
      if d_committed d then rp
      else if d_links d = [] then rp\<lparr>rp_row := snd (transition now ''rolled_back'' d)\<rparr>
      else rp\<lparr>rp_row := snd (transition now ''rolled_back'' d),
              rp_removed := rp_removed rp @ d_links d, rp_events := rp_events rp @ [RolledBack]\<rparr>)"

text \<open>The handlers: mark failed, store the message, announce it, and roll back where they do.\<close>

definition fail_deployment :: "time \<Rightarrow> bool \<Rightarrow> string \<Rightarrow> deployment \<Rightarrow> report" where
  "fail_deployment now may_roll_back message d =
     (let d1 = (snd (transition now ''failed'' d))\<lparr>d_error_message := Some message\<rparr>;
          rp = \<lparr>rp_row = d1, rp_removed = [], rp_events = [Failed]\<rparr>
      in if may_roll_back \<and> should_rollback d1 then rollback_deployment now rp else rp)"

datatype outcome =
    FilesMissing \<comment> \<open>\<open>read_stack\<close> raises \<open>FileNotFoundError\<close>\<close>
  | TimedOut
  | ServiceError string \<comment> \<open>validation, the compose service or its answer raised this message\<close>
  | PartialSuccess
  | FullSuccess
  | AgentInvalid string \<comment> \<open>\<open>validate_compose_for_agent\<close> rejected the content\<close>
  | AgentAnswer bool "deployment \<Rightarrow> deployment" \<comment> \<open>what the agent executor answered and stored\<close>

definition quote :: string where
  "quote = [char_of (39::nat)]"

definition agent_failure :: string where
  "agent_failure = ''Agent deployment failed - check agent logs for details''"

text \<open>The states \<open>_execute_via_go_service\<close> runs through after a result with services.\<close>

definition stack_transitions :: "time \<Rightarrow> string \<Rightarrow> deployment \<Rightarrow> deployment" where
  "stack_transitions now final d =
     (let go = (\<lambda>s d. snd (transition now s d))
      in (go final (go ''starting'' (go ''creating'' (go ''pulling_image'' d))))
           \<lparr>d_links := [], d_committed := True\<rparr>)"

definition finish :: "time \<Rightarrow> deployment \<Rightarrow> report" where
  "finish now d = \<lparr>rp_row = snd (transition now ''running'' d), rp_removed = [], rp_events = [Completed]\<rparr>"

text \<open>
  \<open>execute_deployment\<close>: \<open>Inl\<close> the status it cannot start from, or whether it reports success. The
  branches that fail after pulling began may see either state; both may fail.
\<close>

definition execute_deployment :: "time \<Rightarrow> outcome \<Rightarrow> deployment \<Rightarrow> (string, bool) res \<times> report" where
  "execute_deployment now out d =
     (case transition now ''validating'' d of
        (False, _) \<Rightarrow> (Inl (d_status d), \<lparr>rp_row = d, rp_removed = [], rp_events = []\<rparr>)
      | (True, d1) \<Rightarrow>
         (case out of
            FilesMissing \<Rightarrow> (Inr False, fail_deployment now False
                (''Stack '' @ quote @ d_stack_name d @ quote @ '' not found on filesystem'') d1)
          | TimedOut \<Rightarrow> (Inr False, fail_deployment now True ''Deployment timed out after 30 minutes'' d1)
          | ServiceError message \<Rightarrow> (Inr False, fail_deployment now True message d1)
          | PartialSuccess \<Rightarrow> (Inr True, finish now (stack_transitions now ''partial'' d1))
          | FullSuccess \<Rightarrow> (Inr True, finish now (stack_transitions now ''running'' d1))
          | AgentInvalid message \<Rightarrow>
              (Inr False, fail_deployment now True agent_failure
                 (d1\<lparr>d_status := ''failed'', d_error_message := Some message\<rparr>))
          | AgentAnswer ok stored \<Rightarrow>
              (if ok then (Inr True, \<lparr>rp_row = stored d1, rp_removed = [], rp_events = []\<rparr>)
               else (Inr False, fail_deployment now True agent_failure (stored d1)))))"

section \<open>Steps\<close>

text \<open>Any caller's sequence of transition requests, valid or not, and commitment marks.\<close>

inductive dstep :: "deployment \<Rightarrow> deployment \<Rightarrow> bool" where
  request: "d_updated_at d \<le> now \<Longrightarrow> dstep d (snd (transition now s d))"
| commit: "dstep d (mark_committed d)"

inductive_cases dstepE: "dstep d d'"

inductive reached :: "time \<Rightarrow> bool \<Rightarrow> deployment \<Rightarrow> bool" for t rb where
  created: "reached t rb (create_deployment t name rb)"
| step: "reached t rb d \<Longrightarrow> dstep d d' \<Longrightarrow> reached t rb d'"

section \<open>Lemmas\<close>

lemma next_states_valid: "s' \<in> set (get_valid_next_states s) \<Longrightarrow> s' \<in> set VALID_STATES"
  by (auto simp: get_valid_next_states_def VALID_TRANSITIONS_def VALID_STATES_def split: if_splits)

lemma transition_status:
  "d_status (snd (transition now s d)) = (if can_transition (d_status d) s then s else d_status d)"
  by (simp add: transition_def Let_def)

definition deploy_inv :: "deployment \<Rightarrow> bool" where
  "deploy_inv d = (d_status d \<in> set VALID_STATES
     \<and> (d_status d \<noteq> ''planning'' \<longrightarrow> d_started_at d \<noteq> None)
     \<and> (d_status d \<in> set terminal_states \<longrightarrow> d_completed_at d \<noteq> None)
     \<and> (\<forall>s. d_started_at d = Some s \<longrightarrow> s \<le> d_updated_at d)
     \<and> (\<forall>c. d_completed_at d = Some c \<longrightarrow> (\<exists>s. d_started_at d = Some s \<and> s \<le> c)
          \<and> c \<le> d_updated_at d)
     \<and> (d_status d = ''planning'' \<longrightarrow> d_started_at d = None \<and> d_completed_at d = None))"

lemma enters_validating:
  "can_transition ''planning'' s \<longleftrightarrow> s = ''validating''"
  by (auto simp: can_transition_def get_valid_next_states_def VALID_TRANSITIONS_def VALID_STATES_def)

lemma never_back_to_planning: "\<not> can_transition s ''planning''"
  by (auto simp: can_transition_def get_valid_next_states_def VALID_TRANSITIONS_def split: if_splits)

lemma transition_inv:
  assumes "deploy_inv d" and "d_updated_at d \<le> now"
  shows "deploy_inv (snd (transition now s d))"
proof (cases "can_transition (d_status d) s")
  case True
  have s: "s \<in> set VALID_STATES" "s \<noteq> ''planning''"
    using True never_back_to_planning by (auto simp: can_transition_def)
  have p: "s = ''validating''" if "d_status d = ''planning''" using True enters_validating that by simp
  show ?thesis
  proof (cases "d_started_at d")
    case None
    then have "d_status d = ''planning''" using assms(1) by (auto simp: deploy_inv_def)
    then show ?thesis
      using None True assms s p by (auto simp: deploy_inv_def transition_def Let_def terminal_states_def)
  next
    case (Some t)
    then have "d_status d \<noteq> ''planning''" "t \<le> now" using assms by (auto simp: deploy_inv_def)
    then show ?thesis
      using Some True assms s by (auto simp: deploy_inv_def transition_def Let_def terminal_states_def)
  qed
qed (use assms in \<open>simp add: transition_def\<close>)

lemma reached_inv: "reached t rb d \<Longrightarrow> deploy_inv d"
proof (induction rule: reached.induct)
  case created
  then show ?case by (simp add: deploy_inv_def create_deployment_def VALID_STATES_def terminal_states_def)
next
  case (step d d')
  then show ?case
    using transition_inv by (auto elim!: dstepE simp: deploy_inv_def mark_committed_def)
qed

lemma fail_deployment_status:
  assumes "can_transition (d_status d) ''failed'' \<or> d_status d = ''failed''"
  shows "d_status (rp_row (fail_deployment now b msg d)) \<in> {''failed'', ''rolled_back''}"
  using assms
  by (auto simp: fail_deployment_def rollback_deployment_def transition_status Let_def)

lemma fail_deployment_removed:
  "rp_removed (fail_deployment now b msg d) \<noteq> [] \<Longrightarrow>
     b \<and> \<not> d_committed d \<and> d_rollback_on_failure d \<and> rp_removed (fail_deployment now b msg d) = d_links d"
  by (auto simp: fail_deployment_def rollback_deployment_def should_rollback_def transition_def Let_def
      split: if_splits)

lemma to_validating:
  "transition now ''validating'' d = (True, d1) \<Longrightarrow> d_status d1 = ''validating''
     \<and> d_links d1 = d_links d \<and> d_rollback_on_failure d1 = d_rollback_on_failure d
     \<and> d_committed d1 = (d_committed d \<and> d_status d \<noteq> ''running'')"
  by (auto simp: transition_def Let_def split: if_splits)

lemma state_moves:
  "can_transition ''failed'' ''validating''" "can_transition ''partial'' ''validating''"
  "can_transition ''rolled_back'' ''validating''" "can_transition ''running'' ''validating''"
  "can_transition ''validating'' ''pulling_image''" "can_transition ''validating'' ''failed''"
  "can_transition ''pulling_image'' ''creating''" "can_transition ''creating'' ''starting''"
  "can_transition ''starting'' ''running''" "can_transition ''starting'' ''partial''"
  "can_transition ''failed'' ''rolled_back''" "\<not> can_transition ''failed'' ''failed''"
  "\<not> can_transition ''running'' ''running''" "\<not> can_transition ''partial'' ''running''"
  by (simp_all add: can_transition_def get_valid_next_states_def VALID_TRANSITIONS_def VALID_STATES_def)

lemma retry_start:
  assumes "d_status d \<in> {''failed'', ''partial'', ''rolled_back''}" and "d_started_at d \<noteq> None"
  shows "transition now ''validating'' d = (True, d\<lparr>d_status := ''validating'', d_updated_at := now\<rparr>)"
  using assms state_moves(1-3) by (auto simp: transition_def terminal_states_def Let_def)

lemma move:
  assumes "can_transition (d_status d) s" and "s \<noteq> ''validating''" and "d_completed_at d \<noteq> None"
  shows "snd (transition now s d) = d\<lparr>d_status := s, d_updated_at := now\<rparr>"
  using assms by (auto simp: transition_def Let_def)

lemma stack_moves:
  assumes "d_status d = ''validating''" and "d_completed_at d \<noteq> None" and "final \<in> {''running'', ''partial''}"
  shows "stack_transitions now final d =
    d\<lparr>d_status := final, d_updated_at := now, d_links := [], d_committed := True\<rparr>"
  using assms state_moves by (auto simp: stack_transitions_def move Let_def)

text \<open>
  What a rollback after a failure relies on: the agent executor stores progress and errors, and
  leaves the links, the commitment and the rollback option of a deployment it failed alone.
\<close>

definition keeps_row :: "(deployment \<Rightarrow> deployment) \<Rightarrow> deployment \<Rightarrow> bool" where
  "keeps_row stored d = (d_links (stored d) = d_links d \<and> d_committed (stored d) = d_committed d
     \<and> d_rollback_on_failure (stored d) = d_rollback_on_failure d
     \<and> d_status (stored d) \<in> {''validating'', ''failed''})"

definition agent_keeps_row :: "outcome \<Rightarrow> time \<Rightarrow> deployment \<Rightarrow> bool" where
  "agent_keeps_row out now d = (case out of
      AgentAnswer ok stored \<Rightarrow> keeps_row stored (snd (transition now ''validating'' d))
    | _ \<Rightarrow> True)"

lemma fail_deployment_rolled_back:
  assumes "rp_removed (fail_deployment now b msg d) \<noteq> []" and "d_status d \<in> {''validating'', ''failed''}"
  shows "d_status (rp_row (fail_deployment now b msg d)) = ''rolled_back'' \<and> \<not> d_committed d
    \<and> d_rollback_on_failure d \<and> rp_removed (fail_deployment now b msg d) = d_links d"
  using assms state_moves fail_deployment_removed [OF assms(1)]
  by (auto simp: fail_deployment_def rollback_deployment_def transition_status Let_def split: if_splits)

text \<open>An execution that removed something ended in the failure of a row like the started one.\<close>

lemma removed_means_failed:
  assumes "rp_removed (snd (execute_deployment now out d)) \<noteq> []" and "agent_keeps_row out now d"
  shows "\<exists>b msg d2. execute_deployment now out d = (Inr False, fail_deployment now b msg d2)
    \<and> d_status d2 \<in> {''validating'', ''failed''} \<and> d_links d2 = d_links d
    \<and> d_rollback_on_failure d2 = d_rollback_on_failure d
    \<and> d_committed d2 = (d_committed d \<and> d_status d \<noteq> ''running'')"
proof -
  obtain b d1 where t: "transition now ''validating'' d = (b, d1)" by fastforce
  have b: b using assms(1) t by (cases b) (simp_all add: execute_deployment_def)
  note v = to_validating [OF t [simplified b]]
  have ex: "fst (execute_deployment now out d) = Inr False \<and>
      (\<exists>c msg d2. snd (execute_deployment now out d) = fail_deployment now c msg d2 \<and>
        (d2 = d1 \<or> (\<exists>m. d2 = d1\<lparr>d_status := ''failed'', d_error_message := m\<rparr>)
          \<or> (\<exists>ok f. out = AgentAnswer ok f \<and> d2 = f d1)))"
    using assms(1) b
    by (cases out) (auto simp: execute_deployment_def t finish_def split: if_splits)
  then obtain c msg d2 where e: "execute_deployment now out d = (Inr False, fail_deployment now c msg d2)"
      "d2 = d1 \<or> (\<exists>m. d2 = d1\<lparr>d_status := ''failed'', d_error_message := m\<rparr>)
          \<or> (\<exists>ok f. out = AgentAnswer ok f \<and> d2 = f d1)"
    by (metis prod.collapse)
  then have "d_status d2 \<in> {''validating'', ''failed''} \<and> d_links d2 = d_links d
    \<and> d_rollback_on_failure d2 = d_rollback_on_failure d
    \<and> d_committed d2 = (d_committed d \<and> d_status d \<noteq> ''running'')"
    using assms(2) v t by (auto simp: agent_keeps_row_def keeps_row_def)
  with e show ?thesis by blast
qed

section \<open>Properties\<close>

text \<open>C18: the life of a deployment. Whatever transitions are requested, in whatever order, the status
  is one of the nine; a deployment past planning has a start; a deployment in a terminal state
  has a completion time, which is never before the start nor after the last update.\<close>

theorem deployment_life:
  assumes "reached t rb d"
  shows "validate_state (d_status d)
    \<and> (d_status d = ''planning'' \<longleftrightarrow> d_started_at d = None)
    \<and> (d_status d \<in> set terminal_states \<longrightarrow> d_completed_at d \<noteq> None)
    \<and> (\<forall>c. d_completed_at d = Some c \<longrightarrow> (\<exists>s. d_started_at d = Some s \<and> s \<le> c) \<and> c \<le> d_updated_at d)"
  using reached_inv [OF assms] by (auto simp: deploy_inv_def validate_state_def)

theorem deployment_life_witness:
  "validate_state (d_status (snd (transition 5 ''validating'' (create_deployment 3 ''web'' True))))"
proof -
  have "reached 3 True (snd (transition 5 ''validating'' (create_deployment 3 ''web'' True)))"
    by (rule reached.step [OF reached.created]) (rule dstep.request, simp add: create_deployment_def)
  from deployment_life [OF this] show ?thesis by blast
qed

text \<open>C11: a rollback only removes what was not committed. An execution removes containers only when it
  failed, rollback was enabled, and the row was not committed or was running, and what it
  removes is exactly the containers linked to the row; when it does, the row ends rolled back
  and success is not reported.\<close>

theorem rollback_spares_committed:
  assumes "rp_removed (snd (execute_deployment now out d)) \<noteq> []" and "agent_keeps_row out now d"
  shows "fst (execute_deployment now out d) = Inr False
    \<and> d_rollback_on_failure d \<and> (\<not> d_committed d \<or> d_status d = ''running'')
    \<and> rp_removed (snd (execute_deployment now out d)) = d_links d
    \<and> d_status (rp_row (snd (execute_deployment now out d))) = ''rolled_back''"
proof -
  obtain b msg d2 where e: "execute_deployment now out d = (Inr False, fail_deployment now b msg d2)"
    and d2: "d_status d2 \<in> {''validating'', ''failed''}" "d_links d2 = d_links d"
      "d_rollback_on_failure d2 = d_rollback_on_failure d"
      "d_committed d2 = (d_committed d \<and> d_status d \<noteq> ''running'')"
    using removed_means_failed [OF assms] by blast
  from fail_deployment_rolled_back [of now b msg d2] assms(1) e d2 show ?thesis by auto
qed

theorem rollback_spares_committed_witness:
  "fst (execute_deployment 9 TimedOut ((create_deployment 3 ''web'' True)\<lparr>d_links := [''aaaaaaaaaaaa'']\<rparr>)) = Inr False
    \<and> rp_removed (snd (execute_deployment 9 TimedOut ((create_deployment 3 ''web'' True)\<lparr>d_links := [''aaaaaaaaaaaa'']\<rparr>)))
        = [''aaaaaaaaaaaa'']"
proof -
  have "rp_removed (snd (execute_deployment 9 TimedOut
      ((create_deployment 3 ''web'' True)\<lparr>d_links := [''aaaaaaaaaaaa'']\<rparr>))) \<noteq> []"
    by code_simp
  from rollback_spares_committed [OF this] show ?thesis by (simp add: agent_keeps_row_def)
qed

text \<open>Proved as well: a failed redeploy removes the running stack. Redeploying a running, committed deployment
  clears its commitment; if the redeploy then fails, even before anything was changed, the
  rollback removes every container linked by the earlier successful deployment.\<close>

theorem failed_redeploy_removes_running_stack:
  assumes "d_status d = ''running''" and "d_rollback_on_failure d"
  shows "rp_removed (snd (execute_deployment now (AgentInvalid msg) d)) = d_links d
    \<and> rp_removed (snd (execute_deployment now TimedOut d)) = d_links d
    \<and> d_status (rp_row (snd (execute_deployment now (AgentInvalid msg) d))) = ''rolled_back''"
proof -
  show ?thesis
    using assms state_moves
    by (simp add: execute_deployment_def transition_def fail_deployment_def rollback_deployment_def
        should_rollback_def terminal_states_def Let_def)
qed

theorem failed_redeploy_removes_running_stack_witness:
  "rp_removed (snd (execute_deployment 20 (AgentInvalid ''bad yaml'')
      \<lparr>d_stack_name = ''web'', d_status = ''running'', d_started_at = Some 1, d_completed_at = Some 2, d_updated_at = 2,
       d_committed = True, d_rollback_on_failure = True, d_error_message = None,
       d_links = [''aaaaaaaaaaaa'', ''bbbbbbbbbbbb'']\<rparr>)) = [''aaaaaaaaaaaa'', ''bbbbbbbbbbbb'']"
  using failed_redeploy_removes_running_stack [of \<open>\<lparr>d_stack_name = ''web'', d_status = ''running'', d_started_at = Some 1,
       d_completed_at = Some 2, d_updated_at = 2,
       d_committed = True, d_rollback_on_failure = True, d_error_message = None,
       d_links = [''aaaaaaaaaaaa'', ''bbbbbbbbbbbb'']\<rparr>\<close> 20 "''bad yaml''"] by simp

text \<open>Proved as well: a retry keeps the old completion. When a failed or partial deployment is retried and the
  retry succeeds, its completion time stays that of the failed attempt, before the retry began;
  and a retry that ends partially is still reported as completed.\<close>

theorem retry_keeps_old_completion:
  assumes "d_status d \<in> {''failed'', ''partial'', ''rolled_back''}" and "d_completed_at d = Some c"
    and "d_started_at d \<noteq> None"
  shows "d_status (rp_row (snd (execute_deployment now FullSuccess d))) = ''running''
    \<and> d_completed_at (rp_row (snd (execute_deployment now FullSuccess d))) = Some c
    \<and> fst (execute_deployment now PartialSuccess d) = Inr True
    \<and> d_status (rp_row (snd (execute_deployment now PartialSuccess d))) = ''partial''
    \<and> rp_events (snd (execute_deployment now PartialSuccess d)) = [Completed]"
proof -
  define d1 where "d1 = d\<lparr>d_status := ''validating'', d_updated_at := now\<rparr>"
  have t: "transition now ''validating'' d = (True, d1)"
    using retry_start [OF assms(1,3)] by (simp add: d1_def)
  have d1: "d_status d1 = ''validating''" "d_completed_at d1 = Some c" using assms(2) by (simp_all add: d1_def)
  have full: "finish now (stack_transitions now ''running'' d1) = \<lparr>rp_row = d1\<lparr>d_status := ''running'',
      d_updated_at := now, d_links := [], d_committed := True\<rparr>, rp_removed = [], rp_events = [Completed]\<rparr>"
    using state_moves d1 by (simp add: finish_def stack_moves transition_def)
  have part: "finish now (stack_transitions now ''partial'' d1) = \<lparr>rp_row = d1\<lparr>d_status := ''partial'',
      d_updated_at := now, d_links := [], d_committed := True\<rparr>, rp_removed = [], rp_events = [Completed]\<rparr>"
    using state_moves d1 by (simp add: finish_def stack_moves transition_def)
  show ?thesis using d1(2) by (simp add: execute_deployment_def t full part)
qed

theorem retry_keeps_old_completion_witness:
  "d_completed_at (rp_row (snd (execute_deployment 50 FullSuccess
      \<lparr>d_stack_name = ''web'', d_status = ''failed'', d_started_at = Some 1, d_completed_at = Some 2, d_updated_at = 2,
       d_committed = False, d_rollback_on_failure = False, d_error_message = Some ''x'', d_links = []\<rparr>))) = Some 2"
  using retry_keeps_old_completion [of \<open>\<lparr>d_stack_name = ''web'', d_status = ''failed'', d_started_at = Some 1,
       d_completed_at = Some 2, d_updated_at = 2,
       d_committed = False, d_rollback_on_failure = False, d_error_message = Some ''x'', d_links = []\<rparr>\<close> 2 50]
  by simp

end
