(* ===== verification/ContainerSpec.thy ===== *)
theory ContainerSpec
  imports PyValue
begin

text \<open>
  Container definitions (\<open>backend/deployment/container_validator.py\<close>) and the arguments built from
  them for the Docker library (\<open>backend/deployment/build_args.py\<close>). A definition is the JSON object
  of the form; floats are exact rationals.
\<close>

section \<open>Floats\<close>

text \<open>\<open>float(s)\<close>; \<open>None\<close> is \<open>ValueError\<close>.\<close>

definition digit_part :: "string \<Rightarrow> string option" where
  "digit_part s = (if s = [] then Some [] else int_digits s)"

definition exponent :: "string \<Rightarrow> int option" where
  "exponent s = (case s of [] \<Rightarrow> None
    | c # t \<Rightarrow>
       if c = CHR ''-'' then map_option (\<lambda>d. - dec_val d) (int_digits t)
       else if c = CHR ''+'' then map_option dec_val (int_digits t)
       else map_option dec_val (int_digits s))"

definition decimal :: "string \<Rightarrow> rat option" where
  "decimal s =
     (let mant = takeWhile (\<lambda>c. c \<noteq> CHR ''e'') s; tail = dropWhile (\<lambda>c. c \<noteq> CHR ''e'') s;
          (ip, fp) = (case split_first (CHR ''.'') mant of None \<Rightarrow> (mant, []) | Some p \<Rightarrow> p);
          ex = (if tail = [] then Some 0 else exponent (tl tail))
      in case (digit_part ip, digit_part fp, ex) of
           (Some i, Some f, Some e) \<Rightarrow>
             if i = [] \<and> f = [] then None
             else
               let v = rat_of_int (dec_val i) + rat_of_int (dec_val f) / 10 ^ length f
               in Some (if e \<ge> 0 then v * 10 ^ nat e else v / 10 ^ nat (- e))
         | _ \<Rightarrow> None)"

fun negate :: "pyfloat \<Rightarrow> pyfloat" where
  "negate (Fin x) = Fin (- x)"
| "negate PosInf = NegInf"
| "negate NegInf = PosInf"
| "negate NaN = NaN"

definition unsigned_float :: "string \<Rightarrow> pyfloat option" where
  "unsigned_float s =
     (if s \<in> {''inf'', ''infinity''} then Some PosInf
      else if s = ''nan'' then Some NaN else map_option Fin (decimal s))"

definition py_float :: "string \<Rightarrow> pyfloat option" where
  "py_float s = (case py_lower (strip s) of
      [] \<Rightarrow> None
    | c # t \<Rightarrow>
        if c = CHR ''-'' then map_option negate (unsigned_float t)
        else if c = CHR ''+'' then unsigned_float t
        else unsigned_float (c # t))"

text \<open>Comparisons of a float with an exact bound; every comparison with \<open>NaN\<close> is false.\<close>

fun at_most :: "pyfloat \<Rightarrow> rat \<Rightarrow> bool" where
  "at_most (Fin x) b = (x \<le> b)" | "at_most NegInf b = True" | "at_most _ b = False"

fun above :: "pyfloat \<Rightarrow> rat \<Rightarrow> bool" where
  "above (Fin x) b = (x > b)" | "above PosInf b = True" | "above _ b = False"

section \<open>The validator\<close>

datatype spec_error =
    MissingImage | ImageNotText
  | NotStr string | NotBool string | NotDict string | NotStrKeys string | NotStrValues string
  | NotList string | NotStrItems string
  | PortRange string | PortNotNumber string | PortParts string
  | VolumeParts string | VolumeMode string
  | PolicyNotStr | PolicyUnknown string
  | CpuNotPositive | CpuTooHigh | CpuNotNumber
  | MemNotPositive | MemTooLarge | MemFormat string | MemType
  | FloatOverflow \<comment> \<open>\<open>OverflowError\<close>, which nothing catches\<close>
  | NanoCpus \<comment> \<open>\<open>ValueError\<close> or \<open>OverflowError\<close> of \<open>int(float(v) * 1e9)\<close>\<close>

definition VALID_RESTART_POLICIES :: "string list" where
  "VALID_RESTART_POLICIES = [''no'', ''always'', ''unless-stopped'', ''on-failure'']"

definition validate_required_fields :: "pyval \<Rightarrow> (spec_error, unit) res" where
  "validate_required_fields d = (case vget d ''image'' of
      None \<Rightarrow> Inl MissingImage
    | Some (VStr s) \<Rightarrow> if strip s = [] then Inl ImageNotText else Inr ()
    | Some _ \<Rightarrow> Inl ImageNotText)"

definition check_type :: "pyval \<Rightarrow> (pyval \<Rightarrow> bool) \<Rightarrow> (string \<Rightarrow> spec_error) \<Rightarrow> string \<Rightarrow> (spec_error, unit) res" where
  "check_type d ok err field = (case vget d field of
      None \<Rightarrow> Inr () | Some v \<Rightarrow> if ok v then Inr () else Inl (err field))"

definition check_dict_field :: "pyval \<Rightarrow> string \<Rightarrow> (spec_error, unit) res" where
  "check_dict_field d field = (case vget d field of
      None \<Rightarrow> Inr ()
    | Some (VDict kvs) \<Rightarrow> check_each (\<lambda>(k, v).
        if \<not> is_str k then Inl (NotStrKeys field)
        else if \<not> is_str v then Inl (NotStrValues field) else Inr ()) kvs
    | Some _ \<Rightarrow> Inl (NotDict field))"

definition check_list_field :: "pyval \<Rightarrow> string \<Rightarrow> (spec_error, unit) res" where
  "check_list_field d field = (case vget d field of
      None \<Rightarrow> Inr ()
    | Some (VList xs) \<Rightarrow> if list_all is_str xs then Inr () else Inl (NotStrItems field)
    | Some _ \<Rightarrow> Inl (NotList field))"

definition validate_field_types :: "pyval \<Rightarrow> (spec_error, unit) res" where
  "validate_field_types d =
     res_bind (check_each (check_type d is_str NotStr)
                 [''name'', ''network_mode'', ''cpu_limit'', ''memory_limit'']) (\<lambda>_.
     res_bind (check_each (check_type d is_bool NotBool) [''privileged'']) (\<lambda>_.
     res_bind (check_each (check_dict_field d) [''environment'', ''labels'']) (\<lambda>_.
       check_each (check_list_field d) [''ports'', ''volumes'', ''cap_add''])))"

definition port_number :: "int \<Rightarrow> bool" where
  "port_number n = (0 < n \<and> n \<le> 65535)"

definition check_pair :: "string \<Rightarrow> string \<Rightarrow> string \<Rightarrow> (spec_error, unit) res" where
  "check_pair spec h c = (case (py_int h, py_int c) of
      (Some hp, Some cp) \<Rightarrow> if port_number hp \<and> port_number cp then Inr () else Inl (PortRange spec)
    | _ \<Rightarrow> Inl (PortNotNumber spec))"

definition validate_port :: "string \<Rightarrow> (spec_error, unit) res" where
  "validate_port spec = (case split_on (CHR '':'') spec of
      [c] \<Rightarrow> (case py_int c of
          Some n \<Rightarrow> if port_number n then Inr () else Inl (PortRange spec)
        | None \<Rightarrow> Inl (PortNotNumber spec))
    | [h, c] \<Rightarrow> check_pair spec h c
    | [_, h, c] \<Rightarrow> check_pair spec h c
    | _ \<Rightarrow> Inl (PortParts spec))"

definition validate_volume :: "string \<Rightarrow> (spec_error, unit) res" where
  "validate_volume spec = (case split_on (CHR '':'') spec of
      [_, _] \<Rightarrow> Inr ()
    | [_, _, m] \<Rightarrow> if py_lower m \<in> {''ro'', ''rw''} then Inr () else Inl (VolumeMode (py_lower m))
    | _ \<Rightarrow> Inl (VolumeParts spec))"

fun str_of :: "pyval \<Rightarrow> string" where
  "str_of (VStr s) = s" | "str_of _ = []"

fun strings :: "pyval \<Rightarrow> string list" where
  \<comment> \<open>the items of a list whose type check passed\<close>
  "strings (VList xs) = map str_of xs" | "strings _ = []"

definition validate_ports :: "pyval \<Rightarrow> (spec_error, unit) res" where
  "validate_ports v = check_each validate_port (strings v)"

definition validate_volumes :: "pyval \<Rightarrow> (spec_error, unit) res" where
  "validate_volumes v = check_each validate_volume (strings v)"

definition validate_restart_policy :: "pyval \<Rightarrow> (spec_error, unit) res" where
  "validate_restart_policy v = (case v of
      VStr p \<Rightarrow> if p \<in> set VALID_RESTART_POLICIES then Inr () else Inl (PolicyUnknown p)
    | _ \<Rightarrow> Inl PolicyNotStr)"

text \<open>\<open>float(v)\<close> of a JSON value: \<open>Inl True\<close> an overflow, \<open>Inl False\<close> any other exception.\<close>

definition to_float :: "pyval \<Rightarrow> bool + pyfloat" where
  "to_float v = (case v of
      VInt n \<Rightarrow> if \<bar>n\<bar> \<ge> 2 ^ 1024 - 2 ^ 970 then Inl True else Inr (Fin (of_int n))
    | VBool b \<Rightarrow> Inr (Fin (if b then 1 else 0))
    | VFloat f \<Rightarrow> Inr f
    | VStr s \<Rightarrow> (case py_float s of None \<Rightarrow> Inl False | Some f \<Rightarrow> Inr f)
    | _ \<Rightarrow> Inl False)"

definition validate_cpu_limit :: "pyval \<Rightarrow> (spec_error, unit) res" where
  "validate_cpu_limit v = (case to_float v of
      Inl True \<Rightarrow> Inl FloatOverflow
    | Inl False \<Rightarrow> Inl CpuNotNumber
    | Inr f \<Rightarrow> if at_most f 0 then Inl CpuNotPositive
               else if above f 16 then Inl CpuTooHigh else Inr ())"

text \<open>The pattern of a memory text: digits, optionally a point and digits, optionally a unit.\<close>

definition memory_text :: "string \<Rightarrow> bool" where
  "memory_text s =
     (let ip = takeWhile is_dec s; r1 = dropWhile is_dec s;
          frac = (r1 \<noteq> [] \<and> hd r1 = CHR ''.'');
          fp = (if frac then takeWhile is_dec (tl r1) else []);
          r2 = (if frac then dropWhile is_dec (tl r1) else r1)
      in ip \<noteq> [] \<and> (frac \<longrightarrow> fp \<noteq> []) \<and> r2 \<in> {[], ''b'', ''k'', ''m'', ''g'', ''kb'', ''mb'', ''gb''})"

definition validate_memory_limit :: "pyval \<Rightarrow> (spec_error, unit) res" where
  "validate_memory_limit v = (case num_of v of
      Some f \<Rightarrow> if at_most f 0 then Inl MemNotPositive
               else if above f 1099511627776 then Inl MemTooLarge else Inr ()
    | None \<Rightarrow> (case v of
        VStr s \<Rightarrow> if memory_text (py_lower (strip s)) then Inr () else Inl (MemFormat s)
      | _ \<Rightarrow> Inl MemType))"

definition when_given :: "pyval \<Rightarrow> string \<Rightarrow> (pyval \<Rightarrow> (spec_error, unit) res) \<Rightarrow> (spec_error, unit) res" where
  "when_given d field f = (case vget d field of None \<Rightarrow> Inr () | Some v \<Rightarrow> f v)"

definition validate_field_formats :: "pyval \<Rightarrow> (spec_error, unit) res" where
  "validate_field_formats d =
     res_bind (when_given d ''ports'' validate_ports) (\<lambda>_.
     res_bind (when_given d ''volumes'' validate_volumes) (\<lambda>_.
     res_bind (when_given d ''restart_policy'' validate_restart_policy) (\<lambda>_.
     res_bind (if vhas d ''cpus'' \<or> vhas d ''cpu_limit''
               then validate_cpu_limit (case vget d ''cpus'' of
                      Some v \<Rightarrow> if truthy v then v else vget_or d ''cpu_limit'' VNone
                    | None \<Rightarrow> vget_or d ''cpu_limit'' VNone)
               else Inr ()) (\<lambda>_.
       when_given d ''mem_limit'' validate_memory_limit))))"

definition validate_definition :: "pyval \<Rightarrow> (spec_error, unit) res" where
  "validate_definition d =
     res_bind (validate_required_fields d) (\<lambda>_.
     res_bind (validate_field_types d) (\<lambda>_. validate_field_formats d))"

section \<open>Building the arguments\<close>

definition env_key_ok :: "string \<Rightarrow> bool" where
  "env_key_ok k = (k \<noteq> [] \<and> (is_alpha (hd k) \<or> hd k = CHR ''_'')
     \<and> list_all (\<lambda>c. is_alnum c \<or> c = CHR ''_'') k)"

text \<open>The validated values are strings, which \<open>str\<close> keeps.\<close>

definition parse_environment :: "pyval \<Rightarrow> pyval" where
  "parse_environment v = (case v of
      VDict kvs \<Rightarrow>
        (let kept = filter (\<lambda>(k, x). is_str x \<and> env_key_ok (str_of k)) kvs
         in if kept = [] then VNone else VDict kept)
    | _ \<Rightarrow> VNone)"

text \<open>One port text: the binding it adds, if it adds one.\<close>

definition port_binding :: "string \<Rightarrow> (int \<times> int option) option" where
  "port_binding spec = (case split_on (CHR '':'') spec of
      [c] \<Rightarrow> (case py_int c of
          Some n \<Rightarrow> if port_number n then Some (n, None) else None | None \<Rightarrow> None)
    | [h, c] \<Rightarrow>
        (case (py_int (hd (split_on (CHR ''/'') c)), py_int h) of
           (Some cp, Some hp) \<Rightarrow> if port_number cp \<and> port_number hp then Some (cp, Some hp) else None
         | _ \<Rightarrow> None)
    | _ \<Rightarrow> None)"

definition parse_ports :: "string list \<Rightarrow> (int, int option) pydict" where
  "parse_ports specs = fold (\<lambda>spec b. case port_binding spec of
      None \<Rightarrow> b | Some (c, h) \<Rightarrow> dset c h b) specs []"

definition docker_modes :: "string list" where
  "docker_modes = [''rw'', ''ro'', ''z'', ''Z'', ''rprivate'', ''shared'', ''rslave'']"

definition volume_mount :: "string \<Rightarrow> (string \<times> string \<times> string) option" where
  "volume_mount spec = (case split_on (CHR '':'') (strip spec) of
      [s, d] \<Rightarrow> if s = [] \<or> d = [] then None else Some (s, d, ''rw'')
    | [s, d, m] \<Rightarrow> if s = [] \<or> d = [] \<or> m \<notin> set docker_modes then None else Some (s, d, m)
    | _ \<Rightarrow> None)"

definition parse_volumes :: "string list \<Rightarrow> (string, string \<times> string) pydict" where
  "parse_volumes specs = fold (\<lambda>spec b. case volume_mount spec of
      None \<Rightarrow> b | Some (s, m) \<Rightarrow> dset s m b) specs []"

text \<open>\<open>int(float(v) * 1e9)\<close>: towards zero; \<open>None\<close> when it raises.\<close>

definition nano_cpus :: "pyval \<Rightarrow> int option" where
  "nano_cpus v = (case to_float v of
      Inr (Fin x) \<Rightarrow> Some (if x \<ge> 0 then \<lfloor>x * 1000000000\<rfloor> else \<lceil>x * 1000000000\<rceil>)
    | _ \<Rightarrow> None)"

text \<open>The arguments by name; an empty map of ports or volumes is passed as \<open>None\<close>.\<close>

record create_args =
  ca_copied :: "(string, pyval) pydict"
  ca_environment :: "pyval option"
  ca_ports :: "(int, int option) pydict option option"
  ca_volumes :: "(string, string \<times> string) pydict option option"
  ca_mem_limit :: "pyval option"
  ca_nano_cpus :: "int option"

definition copied_fields :: "(string \<times> string) list" where
  "copied_fields = [(''image'', ''image''), (''name'', ''name''), (''command'', ''command''),
     (''entrypoint'', ''entrypoint''), (''hostname'', ''hostname''), (''user'', ''user''),
     (''working_dir'', ''working_dir''), (''network_mode'', ''network_mode''),
     (''networks'', ''network''), (''privileged'', ''privileged''), (''cap_add'', ''cap_add''),
     (''cap_drop'', ''cap_drop''), (''memswap_limit'', ''memswap_limit''),
     (''cpu_shares'', ''cpu_shares''), (''cpuset_cpus'', ''cpuset_cpus''),
     (''restart_policy'', ''restart_policy''), (''labels'', ''labels'')]"

definition or_none :: "'a list \<Rightarrow> 'a list option" where
  "or_none xs = (if xs = [] then None else Some xs)"

definition build_container_create_args :: "pyval \<Rightarrow> (spec_error, create_args) res" where
  "build_container_create_args d =
     res_bind (validate_definition d) (\<lambda>_.
       let cpu = (case vget d ''cpu_limit'' of Some v \<Rightarrow> Some v | None \<Rightarrow> vget d ''cpus'');
           args = \<lparr>ca_copied = List.map_filter (\<lambda>(f, a). map_option (\<lambda>v. (a, v)) (vget d f)) copied_fields
                     @ [(''detach'', VBool True)],
                   ca_environment = map_option parse_environment (vget d ''environment''),
                   ca_ports = map_option (\<lambda>v. or_none (parse_ports (strings v))) (vget d ''ports''),
                   ca_volumes = map_option (\<lambda>v. or_none (parse_volumes (strings v))) (vget d ''volumes''),
                   ca_mem_limit = (case vget d ''memory_limit'' of
                       Some v \<Rightarrow> Some v | None \<Rightarrow> vget d ''mem_limit''),
                   ca_nano_cpus = None\<rparr>
       in case cpu of
            None \<Rightarrow> Inr args
          | Some v \<Rightarrow> (case nano_cpus v of None \<Rightarrow> Inl NanoCpus
              | Some n \<Rightarrow> Inr (args\<lparr>ca_nano_cpus := Some n\<rparr>)))"

section \<open>Lemmas\<close>

text \<open>A text that \<open>int()\<close> reads contains no slash.\<close>

lemma in_lstrip: "x \<in> set s \<Longrightarrow> \<not> is_space x \<Longrightarrow> x \<in> set (lstrip s)"
  by (induction s) (auto simp: lstrip_def)

lemma in_strip: "x \<in> set s \<Longrightarrow> \<not> is_space x \<Longrightarrow> x \<in> set (strip s)"
  using in_lstrip [of x "rev (lstrip s)"] in_lstrip [of x s]
  by (simp add: strip_def rstrip_def lstrip_def)

lemma int_digits_chars: "int_digits s = Some t \<Longrightarrow> x \<in> set s \<Longrightarrow> is_dec x \<or> x = CHR ''_''"
  by (induction s arbitrary: t rule: int_digits.induct) (auto split: if_splits)

lemma slash_facts: "\<not> is_space (CHR ''/'')" "\<not> is_dec (CHR ''/'')"
  by code_simp+

lemma py_int_no_slash:
  assumes "py_int s = Some n"
  shows "CHR ''/'' \<notin> set s"
proof
  assume "CHR ''/'' \<in> set s"
  then have "CHR ''/'' \<in> set (strip s)" using slash_facts(1) by (rule in_strip)
  moreover obtain c t where c: "strip s = c # t" using assms by (cases "strip s") (auto simp: py_int_def)
  ultimately show False
    using assms slash_facts(2) int_digits_chars [of t _ "CHR ''/''"] int_digits_chars [of "c # t" _ "CHR ''/''"]
    by (auto simp: py_int_def split: if_splits)
qed

lemma valid_port_binding:
  assumes "validate_port s = Inr ()"
  shows "port_binding s = None \<longleftrightarrow> length (split_on (CHR '':'') s) = 3"
proof -
  have slash: "split_on (CHR ''/'') c = [c]" if "py_int c = Some n" for c n
    using py_int_no_slash [OF that] by (rule split_on_no_sep)
  show ?thesis
    using assms slash
    by (auto simp: validate_port_def port_binding_def check_pair_def split: list.splits option.splits
        if_splits)
qed

lemma dhas_parse_ports: "dhas (parse_ports ps) k \<longleftrightarrow> (\<exists>s \<in> set ps. \<exists>h. port_binding s = Some (k, h))"
proof -
  have "dhas (fold (\<lambda>spec b. case port_binding spec of None \<Rightarrow> b | Some (c, h) \<Rightarrow> dset c h b) ps b) k \<longleftrightarrow>
      dhas b k \<or> (\<exists>s \<in> set ps. \<exists>h. port_binding s = Some (k, h))" for b
    by (induction ps arbitrary: b) (auto split: option.splits)
  then show ?thesis by (simp add: parse_ports_def)
qed

lemma build_facts:
  assumes "build_container_create_args d = Inr args"
  shows "validate_field_formats d = Inr ()"
    and "ca_ports args = map_option (\<lambda>v. or_none (parse_ports (strings v))) (vget d ''ports'')"
    and "ca_volumes args = map_option (\<lambda>v. or_none (parse_volumes (strings v))) (vget d ''volumes'')"
  using assms
  by (auto simp: build_container_create_args_def validate_definition_def Let_def split: option.splits)

section \<open>Properties\<close>

text \<open>Proved as well: which accepted ports are published. When a definition is accepted and its arguments are
  built, a port text is left out exactly when it is the \<open>ip:host:container\<close> form the validator
  documents, every other text adds its binding, and the container ports bound are exactly
  those of the texts kept.\<close>

theorem accepted_ports_published:
  assumes "build_container_create_args d = Inr args" and "vget d ''ports'' = Some (VList (map VStr ps))"
  shows "ca_ports args = Some (or_none (parse_ports ps))
    \<and> list_all (\<lambda>s. (port_binding s = None) = (length (split_on (CHR '':'') s) = 3)) ps
    \<and> dhas (parse_ports ps) k = list_ex (\<lambda>s. \<exists>h. port_binding s = Some (k, h)) ps"
proof -
  have st: "strings (VList (map VStr ps)) = ps" by (induction ps) simp_all
  have "list_all (\<lambda>s. validate_port s = Inr ()) ps"
    using build_facts(1) [OF assms(1)] assms(2) st
    by (simp add: validate_field_formats_def when_given_def validate_ports_def list_all_iff)
  then show ?thesis
    using build_facts(2) [OF assms(1)] assms(2) st
    by (simp add: valid_port_binding dhas_parse_ports list_all_iff list_ex_iff del: strings.simps)
qed

theorem accepted_ports_published_witness:
  "ca_ports (projr (build_container_create_args (VDict [(VStr ''image'', VStr ''nginx''),
      (VStr ''ports'', VList (map VStr [''127.0.0.1:8080:80'']))]))) = Some (or_none (parse_ports [''127.0.0.1:8080:80'']))
   \<and> \<not> dhas (parse_ports [''127.0.0.1:8080:80'']) 80"
proof -
  have "is_ok (build_container_create_args (VDict [(VStr ''image'', VStr ''nginx''),
      (VStr ''ports'', VList (map VStr [''127.0.0.1:8080:80'']))]))" by code_simp
  then obtain args where a: "build_container_create_args (VDict [(VStr ''image'', VStr ''nginx''),
      (VStr ''ports'', VList (map VStr [''127.0.0.1:8080:80'']))]) = Inr args" by (auto simp: is_ok_iff)
  have p: "vget (VDict [(VStr ''image'', VStr ''nginx''),
      (VStr ''ports'', VList (map VStr [''127.0.0.1:8080:80'']))]) ''ports'' =
      Some (VList (map VStr [''127.0.0.1:8080:80'']))" by simp
  have n: "port_binding ''127.0.0.1:8080:80'' = None" by code_simp
  from accepted_ports_published [OF a p, of 80] show ?thesis unfolding a using n by simp
qed

text \<open>Proved as well: which accepted volumes are mounted. A volume text without surrounding space that the
  validator accepts is left out exactly when its source or its destination is empty, or its mode is
  written with a capital letter.\<close>

theorem accepted_volume_dropped:
  assumes "validate_volume s = Inr ()" and "strip s = s"
  shows "volume_mount s = None \<longleftrightarrow>
    (let ps = split_on (CHR '':'') s in ps ! 0 = [] \<or> ps ! 1 = [] \<or>
      (length ps = 3 \<and> ps ! 2 \<notin> {''ro'', ''rw''}))"
proof -
  have low: "m \<in> set docker_modes \<longleftrightarrow> m \<in> {''ro'', ''rw''}" if "py_lower m \<in> {''ro'', ''rw''}" for m
  proof -
    have "py_lower ''z'' \<notin> {''ro'', ''rw''}" "py_lower ''Z'' \<notin> {''ro'', ''rw''}"
      "py_lower ''rprivate'' \<notin> {''ro'', ''rw''}" "py_lower ''shared'' \<notin> {''ro'', ''rw''}"
      "py_lower ''rslave'' \<notin> {''ro'', ''rw''}" by code_simp+
    then show ?thesis using that by (auto simp: docker_modes_def)
  qed
  show ?thesis
    using assms low
    by (auto simp: validate_volume_def volume_mount_def Let_def split: list.splits if_splits)
qed

theorem accepted_volume_dropped_witness:
  "validate_volume ''/data:/data:RO'' = Inr () \<and> volume_mount ''/data:/data:RO'' = None"
proof -
  have v: "validate_volume ''/data:/data:RO'' = Inr ()" "strip ''/data:/data:RO'' = ''/data:/data:RO''"
    "split_on (CHR '':'') ''/data:/data:RO'' = [''/data'', ''/data'', ''RO'']" by code_simp+
  from accepted_volume_dropped [OF v(1,2)] v show ?thesis by simp
qed

end
