(* ===== verification/AgentCommands.thy ===== *)
theory AgentCommands
  imports PyValue
begin

text \<open>
  Commands to agents (\<open>backend/agent/command_executor.py\<close>): the circuit breaker of an agent, one
  attempt with its pending entry, the retry loop and the classification of errors. Whether an agent
  is connected, whether a send succeeds and what happens while a task waits (other tasks change the
  executor meanwhile) are parameters. Each handler reads the clock once; durations and log lines are
  left out, error texts are constructors where nothing reads them.
\<close>

section \<open>The circuit breaker\<close>

datatype circuit_state = CLOSED | OPEN | HALF_OPEN

record breaker =
  cb_failure_threshold :: nat
  cb_success_threshold :: nat
  cb_failure_window :: time
  cb_timeout :: time
  cb_state :: circuit_state
  cb_failure_count :: nat
  cb_success_count :: nat
  cb_last_failure_time :: "time option"
  cb_opened_at :: "time option"
  cb_failure_timestamps :: "time list"

definition new_breaker :: breaker where
  "new_breaker = \<lparr>cb_failure_threshold = 5, cb_success_threshold = 2, cb_failure_window = secs 60,
     cb_timeout = secs 30, cb_state = CLOSED, cb_failure_count = 0, cb_success_count = 0,
     cb_last_failure_time = None, cb_opened_at = None, cb_failure_timestamps = []\<rparr>"

definition transition_to_open :: "time \<Rightarrow> breaker \<Rightarrow> breaker" where
  "transition_to_open now b = b\<lparr>cb_state := OPEN, cb_opened_at := Some now, cb_success_count := 0\<rparr>"

definition transition_to_half_open :: "breaker \<Rightarrow> breaker" where
  "transition_to_half_open b = b\<lparr>cb_state := HALF_OPEN, cb_success_count := 0, cb_opened_at := None\<rparr>"

definition transition_to_closed :: "breaker \<Rightarrow> breaker" where
  "transition_to_closed b = b\<lparr>cb_state := CLOSED, cb_failure_count := 0, cb_failure_timestamps := [],
     cb_success_count := 0, cb_opened_at := None\<rparr>"

definition record_success :: "breaker \<Rightarrow> breaker" where
  "record_success b = (case cb_state b of
      CLOSED \<Rightarrow> b\<lparr>cb_failure_count := 0, cb_failure_timestamps := []\<rparr>
    | HALF_OPEN \<Rightarrow>
        (let b1 = b\<lparr>cb_success_count := cb_success_count b + 1\<rparr>
         in if cb_success_count b1 \<ge> cb_success_threshold b then transition_to_closed b1 else b1)
    | OPEN \<Rightarrow> b)"

definition record_failure :: "time \<Rightarrow> breaker \<Rightarrow> breaker" where
  "record_failure now b = (case cb_state b of
      CLOSED \<Rightarrow>
        (let ts = filter (\<lambda>t. t > now - cb_failure_window b) (cb_failure_timestamps b @ [now]);
             b1 = b\<lparr>cb_failure_timestamps := ts, cb_last_failure_time := Some now,
                    cb_failure_count := length ts\<rparr>
         in if length ts \<ge> cb_failure_threshold b then transition_to_open now b1 else b1)
    | HALF_OPEN \<Rightarrow> transition_to_open now b
    | OPEN \<Rightarrow> b)"

definition should_allow_request :: "time \<Rightarrow> breaker \<Rightarrow> bool \<times> breaker" where
  "should_allow_request now b = (case cb_state b of
      CLOSED \<Rightarrow> (True, b)
    | HALF_OPEN \<Rightarrow> (True, b)
    | OPEN \<Rightarrow>
        (case cb_opened_at b of
           Some t \<Rightarrow> if now - t \<ge> cb_timeout b then (True, transition_to_half_open b) else (False, b)
         | None \<Rightarrow> (False, b)))"

section \<open>Errors and results\<close>

datatype error_code =
    NETWORK_ERROR | AGENT_DISCONNECTED | AGENT_NOT_CONNECTED | TIMEOUT | PERMISSION_DENIED
  | DOCKER_ERROR | AGENT_ERROR | INVALID_RESPONSE | CIRCUIT_OPEN | UNKNOWN_ERROR

datatype command_status = SUCCESS | ERROR | TIMED_OUT

datatype error_text =
    NotConnected string | SendFailed string | AgentSaid pyval | MissingFields | TimedOutAfter rat
  | LostConnection string | Unexpected string | BreakerIsOpen string | LoopWithoutResult

record command_result =
  cr_status :: command_status
  cr_success :: bool
  cr_response :: "pyval option"
  cr_error :: "error_text option"
  cr_error_code :: "error_code option"
  cr_attempt :: nat
  cr_total_attempts :: nat
  cr_retried :: bool

definition is_error_retryable :: "error_code \<Rightarrow> bool" where
  "is_error_retryable c =
     (c \<in> {NETWORK_ERROR, AGENT_DISCONNECTED, AGENT_NOT_CONNECTED, TIMEOUT, UNKNOWN_ERROR})"

definition classify_error_from_response :: "pyval \<Rightarrow> error_code" where
  "classify_error_from_response r =
     (let t = vget_or r ''error_type'' VNone in
      if t = VStr ''permission_denied'' then PERMISSION_DENIED
      else if t = VStr ''docker_error'' then DOCKER_ERROR
      else if t = VStr ''invalid_response'' then INVALID_RESPONSE
      else if \<not> vhas r ''success'' then INVALID_RESPONSE
      else AGENT_ERROR)"

datatype exception_kind = TimeoutExc | ConnectionExc | OtherExc

definition classify_error_code :: "string \<Rightarrow> exception_kind option \<Rightarrow> pyval option \<Rightarrow> error_code" where
  "classify_error_code message exc response = (case response of
      Some r \<Rightarrow> classify_error_from_response r
    | None \<Rightarrow>
        if exc = Some TimeoutExc then TIMEOUT
        else if exc = Some ConnectionExc then AGENT_DISCONNECTED
        else
          let e = py_lower message in
          if contains ''not connected'' e then AGENT_NOT_CONNECTED
          else if contains ''failed to send'' e \<or> contains ''send failed'' e then NETWORK_ERROR
          else if contains ''disconnected'' e then AGENT_DISCONNECTED
          else if contains ''timeout'' e then TIMEOUT
          else if contains ''permission'' e then PERMISSION_DENIED
          else if contains ''docker'' e then DOCKER_ERROR
          else UNKNOWN_ERROR)"

section \<open>Pending commands\<close>

datatype future = Waiting | Resolved pyval

record pending_command =
  pc_future :: future
  pc_agent :: string
  pc_started_at :: time

record executor =
  x_pending :: "(string, pending_command) pydict"
  x_breakers :: "(string, breaker) pydict"

definition new_executor :: executor where
  "new_executor = \<lparr>x_pending = [], x_breakers = []\<rparr>"

definition drop_pending :: "string \<Rightarrow> executor \<Rightarrow> executor" where
  "drop_pending i x = x\<lparr>x_pending := ddel i (x_pending x)\<rparr>"

text \<open>\<open>Inl\<close>: the \<open>TypeError\<close> of looking up a list or a dictionary. A first answer resolves the
  future, a later one finds it done.\<close>

definition handle_agent_response :: "pyval \<Rightarrow> executor \<Rightarrow> (unit, executor) res" where
  "handle_agent_response r x =
     (let c = vget_or r ''correlation_id'' VNone in
      if \<not> truthy c then Inr x
      else case c of
          VList _ \<Rightarrow> Inl ()
        | VDict _ \<Rightarrow> Inl ()
        | VStr i \<Rightarrow>
            (case dget (x_pending x) i of
               None \<Rightarrow> Inr x
             | Some p \<Rightarrow>
                 (if pc_future p = Waiting
                  then Inr (x\<lparr>x_pending := dset i (p\<lparr>pc_future := Resolved r\<rparr>) (x_pending x)\<rparr>)
                  else Inr x))
        | _ \<Rightarrow> Inr x)"

text \<open>The entries removed, each with its future; one still waiting is cancelled.\<close>

definition cleanup_expired_pending_commands ::
    "time \<Rightarrow> time \<Rightarrow> executor \<Rightarrow> executor \<times> (string \<times> pending_command) list" where
  "cleanup_expired_pending_commands now max_age x =
     (let expired = filter (\<lambda>(i, p). now - pc_started_at p > max_age) (x_pending x)
      in (x\<lparr>x_pending := ddel_all (map fst expired) (x_pending x)\<rparr>, expired))"

definition get_pending_command_count :: "executor \<Rightarrow> nat" where
  "get_pending_command_count x = length (x_pending x)"

definition get_circuit_breaker :: "string \<Rightarrow> executor \<Rightarrow> breaker \<times> executor" where
  "get_circuit_breaker agent x = (case dget (x_breakers x) agent of
      Some b \<Rightarrow> (b, x)
    | None \<Rightarrow> (new_breaker, x\<lparr>x_breakers := dset agent new_breaker (x_breakers x)\<rparr>))"

section \<open>One attempt\<close>

text \<open>How the wait for the future ends; \<open>WaitCancelled\<close> is the \<open>CancelledError\<close> nothing catches.\<close>

datatype wait_outcome =
  Answered pyval | WaitTimedOut | WaitLost string | WaitFailed string | WaitCancelled

record attempt_env =
  e_connected :: bool
  e_id :: string \<comment> \<open>the fresh UUID\<close>
  e_now :: time
  e_send :: "executor \<Rightarrow> bool \<times> executor"
  e_wait :: "executor \<Rightarrow> wait_outcome \<times> executor"
  e_random :: rat \<comment> \<open>\<open>random.random()\<close>\<close>

definition failure :: "command_status \<Rightarrow> pyval option \<Rightarrow> error_text \<Rightarrow> error_code \<Rightarrow> nat \<Rightarrow> nat \<Rightarrow> command_result" where
  "failure st r e c attempt attempts = \<lparr>cr_status = st, cr_success = False, cr_response = r, cr_error = Some e,
     cr_error_code = Some c, cr_attempt = attempt, cr_total_attempts = attempts, cr_retried = False\<rparr>"

definition read_response :: "pyval \<Rightarrow> nat \<Rightarrow> nat \<Rightarrow> command_result" where
  "read_response r attempt attempts =
     (let err = vget_or r ''error'' VNone in
      if truthy err then
        failure ERROR (Some r) (AgentSaid err) (classify_error_code [] None (Some r)) attempt attempts
      else if \<not> vhas r ''success'' \<and> \<not> vhas r ''payload'' then
        failure ERROR (Some r) MissingFields INVALID_RESPONSE attempt attempts
      else \<lparr>cr_status = SUCCESS, cr_success = True,
             cr_response = Some (vget_or r ''payload'' (vget_or r ''data'' r)), cr_error = None,
             cr_error_code = None, cr_attempt = attempt, cr_total_attempts = attempts, cr_retried = False\<rparr>)"

definition conclude :: "rat \<Rightarrow> nat \<Rightarrow> nat \<Rightarrow> wait_outcome \<Rightarrow> (unit, command_result) res" where
  "conclude timeout attempt attempts out = (case out of
      Answered r \<Rightarrow> Inr (read_response r attempt attempts)
    | WaitTimedOut \<Rightarrow> Inr (failure TIMED_OUT None (TimedOutAfter timeout) TIMEOUT attempt attempts)
    | WaitLost m \<Rightarrow> Inr (failure ERROR None (LostConnection m) AGENT_DISCONNECTED attempt attempts)
    | WaitFailed m \<Rightarrow> Inr (failure ERROR None (Unexpected m)
        (classify_error_code (''Unexpected error: '' @ m) (Some OtherExc) None) attempt attempts)
    | WaitCancelled \<Rightarrow> Inl ())"

definition execute_command_once ::
    "attempt_env \<Rightarrow> string \<Rightarrow> rat \<Rightarrow> nat \<Rightarrow> nat \<Rightarrow> executor \<Rightarrow> (unit, command_result) res \<times> executor" where
  "execute_command_once env agent timeout attempt attempts x =
     (if \<not> e_connected env
      then (Inr (failure ERROR None (NotConnected agent) AGENT_NOT_CONNECTED attempt attempts), x)
      else
        let i = e_id env;
            p = \<lparr>pc_future = Waiting, pc_agent = agent, pc_started_at = e_now env\<rparr>;
            (sent, x1) = e_send env (x\<lparr>x_pending := dset i p (x_pending x)\<rparr>)
        in if \<not> sent
           then (Inr (failure ERROR None (SendFailed agent) NETWORK_ERROR attempt attempts), drop_pending i x1)
           else let (out, x2) = e_wait env x1
                in (conclude timeout attempt attempts out, drop_pending i x2))"

section \<open>Retries\<close>

record retry_policy =
  rp_max_attempts :: nat
  rp_initial_delay :: rat
  rp_max_delay :: rat
  rp_backoff_multiplier :: rat
  rp_jitter :: bool
  rp_retryable_error_codes :: "error_code list"

definition default_policy :: retry_policy where
  "default_policy = \<lparr>rp_max_attempts = 3, rp_initial_delay = 1, rp_max_delay = 30,
     rp_backoff_multiplier = 2, rp_jitter = True,
     rp_retryable_error_codes = [NETWORK_ERROR, AGENT_DISCONNECTED, TIMEOUT, UNKNOWN_ERROR]\<rparr>"

definition backoff :: "retry_policy \<Rightarrow> nat \<Rightarrow> rat \<Rightarrow> rat" where
  "backoff pol attempt rnd =
     (let d = min (rp_initial_delay pol * rp_backoff_multiplier pol ^ (attempt - 1)) (rp_max_delay pol)
      in if rp_jitter pol then d * (1 / 2 + rnd) else d)"

definition should_retry :: "retry_policy \<Rightarrow> nat \<Rightarrow> command_result \<Rightarrow> bool" where
  "should_retry pol attempt r = (case cr_error_code r of
      None \<Rightarrow> False
    | Some c \<Rightarrow> c \<in> set (rp_retryable_error_codes pol) \<and> attempt < rp_max_attempts pol)"

definition done_at :: "nat \<Rightarrow> command_result \<Rightarrow> command_result" where
  "done_at attempt r = r\<lparr>cr_total_attempts := attempt, cr_retried := attempt > 1\<rparr>"

text \<open>The loop from attempt \<open>attempt\<close> with \<open>left\<close> attempts left; also the delays slept.\<close>

fun retry_loop :: "retry_policy \<Rightarrow> (nat \<Rightarrow> attempt_env) \<Rightarrow> string \<Rightarrow> rat \<Rightarrow> nat \<Rightarrow> nat \<Rightarrow> command_result option
    \<Rightarrow> executor \<Rightarrow> (unit, command_result) res \<times> executor \<times> rat list" where
  "retry_loop pol envs agent timeout attempt 0 last_result x =
     (case last_result of
        Some r \<Rightarrow> (Inr (r\<lparr>cr_total_attempts := attempt - 1, cr_retried := True\<rparr>), x, [])
      | None \<Rightarrow> (Inr ((failure ERROR None LoopWithoutResult UNKNOWN_ERROR (attempt - 1) (attempt - 1))
                   \<lparr>cr_retried := True\<rparr>), x, []))"
| "retry_loop pol envs agent timeout attempt (Suc left) last_result x =
     (case execute_command_once (envs attempt) agent timeout attempt attempt x of
        (Inl e, x1) \<Rightarrow> (Inl e, x1, [])
      | (Inr r, x1) \<Rightarrow>
          (if cr_success r \<or> \<not> should_retry pol attempt r then (Inr (done_at attempt r), x1, [])
           else
             let d = backoff pol attempt (e_random (envs attempt));
                 (res, x2, ds) = retry_loop pol envs agent timeout (Suc attempt) left (Some r) x1
             in (res, x2, d # ds)))"

definition execute_command_with_retry ::
    "retry_policy \<Rightarrow> (nat \<Rightarrow> attempt_env) \<Rightarrow> string \<Rightarrow> rat \<Rightarrow> executor
     \<Rightarrow> (unit, command_result) res \<times> executor \<times> rat list" where
  "execute_command_with_retry pol envs agent timeout x =
     retry_loop pol envs agent timeout 1 (rp_max_attempts pol) None x"

text \<open>
  \<open>execute_command\<close>: the breaker is asked at \<open>t0\<close> and told the outcome at \<open>t1\<close>. It is one object
  in the dictionary, so what other tasks did to it during the wait counts.
\<close>

definition put_breaker :: "string \<Rightarrow> breaker \<Rightarrow> executor \<Rightarrow> executor" where
  "put_breaker agent b x = x\<lparr>x_breakers := dset agent b (x_breakers x)\<rparr>"

definition execute_command ::
    "retry_policy option \<Rightarrow> (nat \<Rightarrow> attempt_env) \<Rightarrow> string \<Rightarrow> rat \<Rightarrow> time \<Rightarrow> time \<Rightarrow> executor
     \<Rightarrow> (unit, command_result) res \<times> executor" where
  "execute_command pol envs agent timeout t0 t1 x =
     (let (b, x1) = get_circuit_breaker agent x;
          (ok, b1) = should_allow_request t0 b;
          x2 = put_breaker agent b1 x1
      in if \<not> ok then (Inr (failure ERROR None (BreakerIsOpen agent) CIRCUIT_OPEN 1 1), x2)
         else
           let (res, x3) = (case pol of
                  None \<Rightarrow> execute_command_once (envs 1) agent timeout 1 1 x2
                | Some p \<Rightarrow> (case execute_command_with_retry p envs agent timeout x2 of
                    (res, x3, _) \<Rightarrow> (res, x3)))
           in case res of
                Inl e \<Rightarrow> (Inl e, x3)
              | Inr r \<Rightarrow>
                  let (b2, x4) = get_circuit_breaker agent x3
                  in (Inr r, put_breaker agent
                        (if cr_success r then record_success b2 else record_failure t1 b2) x4))"

section \<open>What the Go agent answers\<close>

text \<open>A \<open>types.Message\<close> made by \<open>NewCommandResponse\<close>, its empty fields omitted, after the handler put
  the identifier in \<open>correlation_id\<close>.\<close>

definition go_message :: "string \<Rightarrow> pyval option \<Rightarrow> string \<Rightarrow> string \<Rightarrow> pyval" where
  "go_message i payload err stamp = VDict
     ([(VStr ''type'', VStr ''response''), (VStr ''id'', VStr i)]
      @ (case payload of None \<Rightarrow> [] | Some p \<Rightarrow> [(VStr ''payload'', p)])
      @ (if err = [] then [] else [(VStr ''error'', VStr err)])
      @ [(VStr ''timestamp'', VStr stamp), (VStr ''correlation_id'', VStr i)])"

section \<open>Lemmas\<close>

lemmas breaker_moves = transition_to_open_def transition_to_half_open_def transition_to_closed_def
lemmas breaker_ops = record_success_def record_failure_def should_allow_request_def breaker_moves

text \<open>Events on a breaker, and what holds of it whatever they are.\<close>

datatype breaker_event = Ask time | Succeed | Fail time

fun breaker_step :: "breaker \<Rightarrow> breaker_event \<Rightarrow> breaker" where
  "breaker_step b (Ask now) = snd (should_allow_request now b)"
| "breaker_step b Succeed = record_success b"
| "breaker_step b (Fail now) = record_failure now b"

definition breaker_ok :: "breaker \<Rightarrow> bool" where
  "breaker_ok b = (0 < cb_failure_threshold b \<and> cb_success_threshold b = 2
     \<and> cb_timeout b = secs 30
     \<and> (cb_state b = OPEN \<longleftrightarrow> cb_opened_at b \<noteq> None)
     \<and> (cb_state b = CLOSED \<longrightarrow> cb_failure_count b = length (cb_failure_timestamps b)
          \<and> cb_failure_count b < cb_failure_threshold b)
     \<and> (cb_state b = HALF_OPEN \<longrightarrow> cb_success_count b < 2))"

lemma breaker_step_ok: "breaker_ok b \<Longrightarrow> breaker_ok (breaker_step b e)"
  by (cases e; cases "cb_state b")
    (auto simp: breaker_ok_def breaker_ops Let_def split: option.splits)

interpretation breakers: machine breaker_step breaker_ok
  by unfold_locales (rule breaker_step_ok)

lemma new_breaker_fields:
  "cb_state new_breaker = CLOSED" "cb_failure_timestamps new_breaker = []"
  "cb_failure_threshold new_breaker = 5" "cb_failure_window new_breaker = secs 60"
  by (simp_all add: new_breaker_def)

lemma new_breaker_ok: "breaker_ok new_breaker"
  by (simp add: breaker_ok_def new_breaker_def)

text \<open>In a sorted list the entries after a bound are the last ones.\<close>

lemma count_recent:
  fixes xs :: "time list"
  assumes "sorted xs" and "0 < n" and "n \<le> length xs"
  shows "n \<le> length (filter (\<lambda>x. c < x) xs) \<longleftrightarrow> c < xs ! (length xs - n)"
proof -
  let ?m = "length xs - n"
  have split: "filter (\<lambda>x. c < x) xs = filter (\<lambda>x. c < x) (take k xs) @ filter (\<lambda>x. c < x) (drop k xs)" for k
    by (metis append_take_drop_id filter_append)
  have mono: "i \<le> j \<Longrightarrow> j < length xs \<Longrightarrow> xs ! i \<le> xs ! j" for i j
    using assms(1) by (simp add: sorted_nth_mono)
  show ?thesis
  proof (cases "c < xs ! ?m")
    case True
    have "c < x" if x: "x \<in> set (drop ?m xs)" for x
    proof -
      obtain i where "i < length (drop ?m xs)" "x = drop ?m xs ! i" using x by (auto simp: in_set_conv_nth)
      then have "x = xs ! (?m + i)" "?m + i < length xs" by simp_all
      then show ?thesis using mono [of ?m "?m + i"] True by simp
    qed
    then have "filter (\<lambda>x. c < x) (drop ?m xs) = drop ?m xs" by (simp add: filter_id_conv)
    then show ?thesis using True assms(3) by (subst split [of ?m]) simp
  next
    case False
    then have "\<not> c < x" if x: "x \<in> set (take (Suc ?m) xs)" for x
    proof -
      obtain i where "x = xs ! i" "i \<le> ?m" using x by (auto simp: in_set_conv_nth)
      moreover have "?m < length xs" using assms(2,3) by simp
      ultimately have "x \<le> xs ! ?m" using mono by simp
      then show ?thesis using False by linarith
    qed
    then have "filter (\<lambda>x. c < x) (take (Suc ?m) xs) = []" by (simp add: filter_empty_conv)
    then have "length (filter (\<lambda>x. c < x) xs) \<le> length (drop (Suc ?m) xs)"
      using length_filter_le [of "\<lambda>x. c < x" "drop (Suc ?m) xs"] split [of "Suc ?m"] by simp
    with False assms(2,3) show ?thesis by simp
  qed
qed

text \<open>A burst: as many failures as the threshold, each less than the window before the last.\<close>

definition burst :: "nat \<Rightarrow> time \<Rightarrow> time list \<Rightarrow> bool" where
  "burst n w ts = (\<exists>i. i + n \<le> length ts \<and> ts ! (i + n - 1) - ts ! i < w)"

lemma burst_snoc:
  assumes "0 < n"
  shows "burst n w (ts @ [t]) \<longleftrightarrow>
    burst n w ts \<or> (n \<le> Suc (length ts) \<and> t - (ts @ [t]) ! (Suc (length ts) - n) < w)"
proof -
  have "(i + n \<le> length (ts @ [t]) \<and> (ts @ [t]) ! (i + n - 1) - (ts @ [t]) ! i < w) \<longleftrightarrow>
      (i + n \<le> length ts \<and> ts ! (i + n - 1) - ts ! i < w)
      \<or> (i = Suc (length ts) - n \<and> n \<le> Suc (length ts) \<and> t - (ts @ [t]) ! (Suc (length ts) - n) < w)" for i
  proof (cases "i + n = Suc (length ts)")
    case True
    then have "i = Suc (length ts) - n" "n \<le> Suc (length ts)" "i + n - 1 = length ts" by simp_all
    then show ?thesis using True by simp
  next
    case False
    then show ?thesis using assms by (auto simp: nth_append)
  qed
  then show ?thesis unfolding burst_def by blast
qed

lemma record_failure_OPEN: "cb_state b = OPEN \<Longrightarrow> record_failure t b = b"
  by (simp add: record_failure_def)

lemma record_failure_CLOSED:
  assumes "cb_state b = CLOSED"
  shows "cb_failure_threshold (record_failure t b) = cb_failure_threshold b"
    and "cb_failure_window (record_failure t b) = cb_failure_window b"
    and "cb_state (record_failure t b) =
      (if cb_failure_threshold b \<le> length (filter (\<lambda>s. t - cb_failure_window b < s) (cb_failure_timestamps b @ [t]))
       then OPEN else CLOSED)"
    and "cb_failure_timestamps (record_failure t b) =
      filter (\<lambda>s. t - cb_failure_window b < s) (cb_failure_timestamps b @ [t])"
  using assms by (simp_all add: record_failure_def transition_to_open_def Let_def)

lemma failures_from_closed:
  assumes "cb_state b = CLOSED" and "cb_failure_timestamps b = []" and "0 < cb_failure_threshold b"
    and "0 < cb_failure_window b" and "sorted ts"
  shows "let b' = run (\<lambda>b t. record_failure t b) b ts in
    cb_failure_threshold b' = cb_failure_threshold b \<and> cb_failure_window b' = cb_failure_window b \<and>
    (if burst (cb_failure_threshold b) (cb_failure_window b) ts then cb_state b' = OPEN
     else cb_state b' = CLOSED \<and>
       cb_failure_timestamps b' = filter (\<lambda>s. last ts - cb_failure_window b < s) ts)"
  using assms(5)
proof (induction ts rule: rev_induct)
  case Nil
  then show ?case using assms(1,2,3) by (simp add: burst_def)
next
  case (snoc t ts)
  let ?n = "cb_failure_threshold b" and ?w = "cb_failure_window b"
  let ?b = "run (\<lambda>b t. record_failure t b) b ts"
  have sorted: "sorted ts" "\<forall>s \<in> set ts. s \<le> t" "sorted (ts @ [t])"
    using snoc.prems by (auto simp: sorted_append)
  note IH = snoc.IH [OF sorted(1), unfolded Let_def]
  have run: "run (\<lambda>b t. record_failure t b) b (ts @ [t]) = record_failure t ?b" by (simp add: run_append)
  show ?case
  proof (cases "burst ?n ?w ts")
    case True
    then show ?thesis
      using IH assms(3) burst_snoc [of ?n ?w ts t] by (simp add: run record_failure_OPEN Let_def)
  next
    case False
    have recent: "filter (\<lambda>s. t - ?w < s) (filter (\<lambda>s. last ts - ?w < s) ts) = filter (\<lambda>s. t - ?w < s) ts"
      using sorted(2) by (cases ts rule: rev_cases) (auto intro: filter_cong)
    have count: "?n \<le> length (filter (\<lambda>s. t - ?w < s) (ts @ [t])) \<longleftrightarrow>
        ?n \<le> Suc (length ts) \<and> t - (ts @ [t]) ! (Suc (length ts) - ?n) < ?w"
    proof (cases "?n \<le> Suc (length ts)")
      case True
      then show ?thesis
        using count_recent [OF sorted(3) assms(3), of "t - ?w"] by (simp add: algebra_simps)
    next
      case False
      then show ?thesis
        using length_filter_le [of "\<lambda>s. t - ?w < s" "ts @ [t]"] by simp
    qed
    show ?thesis
      using IH False count recent assms(3,4) burst_snoc [of ?n ?w ts t]
      by (simp add: run record_failure_CLOSED Let_def)
  qed
qed

lemma recovered_closed:
  "breaker_ok b \<Longrightarrow> cb_state b \<noteq> OPEN \<Longrightarrow>
     cb_state (record_success (record_success b)) = CLOSED
     \<and> cb_failure_count (record_success (record_success b)) = 0"
  by (cases "cb_state b"; cases "cb_success_count b")
    (auto simp: breaker_ok_def record_success_def transition_to_closed_def Let_def)

text \<open>Storing what is there changes nothing.\<close>

lemma dset_same: "dget d k = Some v \<Longrightarrow> dset k v d = d"
  by (induction d) (auto split: if_splits)

lemma put_same_breaker: "dget (x_breakers x) agent = Some b \<Longrightarrow> put_breaker agent b x = x"
  by (simp add: put_breaker_def dset_same)

text \<open>The retry loop: how many attempts, and what the delays are.\<close>

lemma backoff_bound:
  assumes "0 \<le> rp_initial_delay pol" and "0 \<le> rp_backoff_multiplier pol" and "0 \<le> rp_max_delay pol"
    and "0 \<le> rnd" and "rnd < 1"
  shows "0 \<le> backoff pol attempt rnd \<and> backoff pol attempt rnd \<le> 3 / 2 * rp_max_delay pol"
proof -
  define d where "d = min (rp_initial_delay pol * rp_backoff_multiplier pol ^ (attempt - 1)) (rp_max_delay pol)"
  have d: "0 \<le> d" "d \<le> rp_max_delay pol" using assms(1-3) by (simp_all add: d_def)
  have "d * (1 / 2 + rnd) \<le> rp_max_delay pol * (3 / 2)" using d assms(4,5) by (intro mult_mono) auto
  moreover have "backoff pol attempt rnd = (if rp_jitter pol then d * (1 / 2 + rnd) else d)"
    by (simp add: backoff_def d_def)
  ultimately show ?thesis using d assms(3,4) by simp
qed

lemma execute_once_attempt:
  "fst (execute_command_once env agent timeout attempt attempts x) = Inr r \<Longrightarrow> cr_attempt r = attempt"
  by (auto simp: execute_command_once_def conclude_def read_response_def failure_def Let_def
      split: prod.splits if_splits wait_outcome.splits)

lemma retry_loop_bounds:
  assumes "retry_loop pol envs agent timeout attempt left prev x = (Inr r, x', ds)"
    and "left = Suc (rp_max_attempts pol) - attempt" and "1 \<le> attempt" and "attempt \<le> rp_max_attempts pol"
    and "0 \<le> rp_initial_delay pol" "0 \<le> rp_backoff_multiplier pol" "0 \<le> rp_max_delay pol"
    and "\<And>k. 0 \<le> e_random (envs k) \<and> e_random (envs k) < 1"
  shows "cr_total_attempts r = attempt + length ds \<and> cr_attempt r = cr_total_attempts r
    \<and> cr_total_attempts r \<le> rp_max_attempts pol \<and> cr_retried r = (cr_total_attempts r > 1)
    \<and> (\<not> cr_success r \<longrightarrow> \<not> should_retry pol (cr_total_attempts r) r)
    \<and> list_all (\<lambda>d. 0 \<le> d \<and> d \<le> 3 / 2 * rp_max_delay pol) ds"
  using assms(1-4)
proof (induction left arbitrary: attempt prev x ds)
  case (Suc left)
  obtain q x1 where q: "execute_command_once (envs attempt) agent timeout attempt attempt x = (q, x1)"
    by fastforce
  with Suc.prems(1) obtain r1 where r1: "q = Inr r1" by (cases q) simp_all
  have at: "cr_attempt r1 = attempt" using execute_once_attempt q r1 by (metis fst_conv)
  show ?case
  proof (cases "cr_success r1 \<or> \<not> should_retry pol attempt r1")
    case True
    then have "r = done_at attempt r1" "ds = []" using Suc.prems(1) q r1 by simp_all
    then show ?thesis using True at Suc.prems(4) by (auto simp: done_at_def should_retry_def)
  next
    case False
    obtain es where es: "retry_loop pol envs agent timeout (Suc attempt) left (Some r1) x1 = (Inr r, x', es)"
      and ds: "ds = backoff pol attempt (e_random (envs attempt)) # es"
      using Suc.prems(1) q r1 False by (auto simp: Let_def split: prod.splits)
    have "Suc attempt \<le> rp_max_attempts pol"
      using False by (auto simp: should_retry_def split: option.splits)
    moreover have "left = Suc (rp_max_attempts pol) - Suc attempt" using Suc.prems(2,4) by simp
    ultimately show ?thesis using Suc.IH [OF es]
        backoff_bound [OF assms(5-7), of "e_random (envs attempt)" attempt] assms(8) by (auto simp: ds)
  qed
qed simp

text \<open>Answers: only the command named is touched, and only while it waits.\<close>

definition hear :: "pyval \<Rightarrow> executor \<Rightarrow> executor" where
  "hear r x = (case handle_agent_response r x of Inl _ \<Rightarrow> x | Inr y \<Rightarrow> y)"

definition names_command :: "string \<Rightarrow> pyval \<Rightarrow> bool" where
  "names_command i r = (vget_or r ''correlation_id'' VNone = VStr i)"

lemma dset_keys: "dhas d k \<Longrightarrow> map fst (dset k v d) = map fst d"
  by (induction d) (auto simp: dhas_def)

lemma hear_pending:
  assumes "dget (x_pending x) i = Some p" and "i \<noteq> []"
  shows "dget (x_pending (hear r x)) i =
      Some (if names_command i r \<and> pc_future p = Waiting then p\<lparr>pc_future := Resolved r\<rparr> else p)"
    and "map fst (x_pending (hear r x)) = map fst (x_pending x)"
  using assms
  by (auto simp: hear_def handle_agent_response_def names_command_def Let_def dset_keys dhas_def
      split: pyval.splits option.splits)

lemma hear_many:
  assumes "dget (x_pending x) i = Some p" and "i \<noteq> []"
  shows "dget (x_pending (fold hear rs x)) i =
      Some (case (pc_future p, find (names_command i) rs) of
              (Waiting, Some r) \<Rightarrow> p\<lparr>pc_future := Resolved r\<rparr> | _ \<Rightarrow> p)
    \<and> map fst (x_pending (fold hear rs x)) = map fst (x_pending x)"
  using assms
proof (induction rs arbitrary: x p)
  case (Cons r rs)
  show ?case
    using Cons.IH [OF hear_pending(1) [OF Cons.prems, of r] Cons.prems(2)] hear_pending(2) [OF Cons.prems, of r]
    by (auto split: future.splits option.splits)
qed (auto split: future.splits)

lemma go_message_fields:
  "vget (go_message i payload err stamp) ''error'' = (if err = [] then None else Some (VStr err))"
  "vget (go_message i payload err stamp) ''success'' = None"
  "vget (go_message i payload err stamp) ''error_type'' = None"
  "vget (go_message i payload err stamp) ''payload'' = payload"
  "vget (go_message i payload err stamp) ''correlation_id'' = Some (VStr i)"
  by (cases payload; simp add: go_message_def)+

lemma go_error_read:
  "err \<noteq> [] \<Longrightarrow> read_response (go_message i payload err stamp) attempt attempts =
     failure ERROR (Some (go_message i payload err stamp)) (AgentSaid (VStr err)) INVALID_RESPONSE attempt attempts"
  by (simp add: read_response_def go_message_fields classify_error_code_def
      classify_error_from_response_def vget_or_def Let_def)

section \<open>Properties\<close>

text \<open>C25: the breaker opens exactly on a burst. Fed failures in time order, a new breaker is open
  precisely when some five of them in a row lie within less than a minute, and otherwise closed.\<close>

theorem breaker_opens_on_burst:
  assumes "sorted ts"
  shows "cb_state (run (\<lambda>b t. record_failure t b) new_breaker ts) =
    (if \<exists>i. i + 5 \<le> length ts \<and> ts ! (i + 4) - ts ! i < secs 60 then OPEN else CLOSED)"
proof -
  have "(i::nat) + 5 - 1 = i + 4" for i by simp
  then have burst: "burst 5 w ts \<longleftrightarrow> (\<exists>i. i + 5 \<le> length ts \<and> ts ! (i + 4) - ts ! i < w)" for w
    by (simp only: burst_def)
  show ?thesis
    using failures_from_closed [of new_breaker ts] assms
    by (simp add: new_breaker_fields Let_def flip: burst split: if_splits)
qed

theorem breaker_opens_on_burst_witness:
  "cb_state (run (\<lambda>b t. record_failure t b) new_breaker [0, secs 10, secs 20, secs 30, secs 60, secs 61]) = OPEN
   \<and> cb_state (run (\<lambda>b t. record_failure t b) new_breaker [0, secs 15, secs 30, secs 45, secs 60]) = CLOSED"
proof -
  have sorted: "sorted [0, secs 10, secs 20, secs 30, secs 60, secs 61]" "sorted [0, secs 15, secs 30, secs 45, secs 60]"
    by simp_all
  have burst: "\<exists>i. i + 5 \<le> length [0, secs 10, secs 20, secs 30, secs 60, secs 61]
      \<and> [0, secs 10, secs 20, secs 30, secs 60, secs 61] ! (i + 4)
        - [0, secs 10, secs 20, secs 30, secs 60, secs 61] ! i < secs 60"
    by (rule exI [of _ 1]) (simp add: secs_def)
  have calm: "\<not> (\<exists>i. i + 5 \<le> length [0, secs 15, secs 30, secs 45, secs 60]
      \<and> [0, secs 15, secs 30, secs 45, secs 60] ! (i + 4) - [0, secs 15, secs 30, secs 45, secs 60] ! i < secs 60)"
    by simp
  show ?thesis
    using breaker_opens_on_burst [OF sorted(1)] breaker_opens_on_burst [OF sorted(2)]
    by (simp only: if_P [OF burst] if_not_P [OF calm])
qed

text \<open>C26: a breaker never locks an agent out for good. Whatever was recorded and asked before, once
  half a minute has passed since it opened, a request is allowed, and two successes then leave it
  closed with no failure counted.\<close>

theorem breaker_recovers:
  assumes "\<forall>t. cb_opened_at (run breaker_step new_breaker es) = Some t \<longrightarrow> t + secs 30 \<le> now"
  shows "let (ok, b) = should_allow_request now (run breaker_step new_breaker es) in
    ok \<and> cb_state (record_success (record_success b)) = CLOSED
    \<and> cb_failure_count (record_success (record_success b)) = 0"
proof -
  let ?b = "run breaker_step new_breaker es"
  have ok: "breaker_ok ?b" by (rule breakers.run_inv [OF new_breaker_ok])
  obtain a b where ab: "should_allow_request now ?b = (a, b)" by fastforce
  have "breaker_ok b" using breaker_step_ok [OF ok, of "Ask now"] ab by simp
  moreover have "a \<and> cb_state b \<noteq> OPEN"
    using ok ab assms
    by (auto simp: breaker_ok_def should_allow_request_def transition_to_half_open_def
        split: circuit_state.splits option.splits if_splits)
  ultimately show ?thesis using recovered_closed [of b] ab by simp
qed

theorem breaker_recovers_witness:
  "fst (should_allow_request (secs 40)
     (run breaker_step new_breaker [Fail 0, Fail 1, Fail 2, Fail 3, Fail 4, Ask 5]))"
proof -
  have o: "cb_opened_at (run breaker_step new_breaker [Fail 0, Fail 1, Fail 2, Fail 3, Fail 4, Ask 5]) = Some 4"
    by code_simp
  then have "\<forall>t. cb_opened_at (run breaker_step new_breaker [Fail 0, Fail 1, Fail 2, Fail 3, Fail 4, Ask 5]) = Some t
      \<longrightarrow> t + secs 30 \<le> secs 40" by (simp add: secs_def)
  from breaker_recovers [OF this] show ?thesis by (simp add: case_prod_unfold Let_def del: run_simps)
qed

text \<open>Proved as well: an open breaker sends nothing. Within half a minute of opening, a command is refused with
  \<open>CIRCUIT_OPEN\<close>, whatever the connection would do and whatever the retry policy, and neither the
  pending commands nor any breaker changes.\<close>

theorem open_breaker_fails_fast:
  assumes "dget (x_breakers x) agent = Some b" and "cb_state b = OPEN" and "cb_opened_at b = Some t"
    and "t0 - t < cb_timeout b"
  shows "execute_command pol envs agent timeout t0 t1 x =
    (Inr (failure ERROR None (BreakerIsOpen agent) CIRCUIT_OPEN 1 1), x)"
  using assms by (simp add: execute_command_def get_circuit_breaker_def should_allow_request_def put_same_breaker)

theorem open_breaker_fails_fast_witness:
  "snd (execute_command None (\<lambda>k. undefined) ''a1'' 30 (secs 20) (secs 20)
      \<lparr>x_pending = [], x_breakers = [(''a1'', transition_to_open 0 new_breaker)]\<rparr>)
    = \<lparr>x_pending = [], x_breakers = [(''a1'', transition_to_open 0 new_breaker)]\<rparr>"
  using open_breaker_fails_fast [of "\<lparr>x_pending = [], x_breakers = [(''a1'', transition_to_open 0 new_breaker)]\<rparr>"
      "''a1''" "transition_to_open 0 new_breaker" 0 "secs 20" None "\<lambda>k. undefined" 30 "secs 20"]
  by (simp add: transition_to_open_def new_breaker_def secs_def)

text \<open>C27: retries are bounded. A command run with a retry policy is attempted at most
  \<open>max_attempts\<close> times, reports that number, sleeps once between attempts and never longer than
  one and a half times the maximal delay, and when it fails its last error was not retryable or
  the attempts were used up.\<close>

theorem retries_are_bounded:
  assumes "execute_command_with_retry pol envs agent timeout x = (Inr r, x', ds)"
    and "1 \<le> rp_max_attempts pol"
    and "0 \<le> rp_initial_delay pol" "0 \<le> rp_backoff_multiplier pol" "0 \<le> rp_max_delay pol"
    and "\<And>k. 0 \<le> e_random (envs k) \<and> e_random (envs k) < 1"
  shows "cr_total_attempts r = Suc (length ds) \<and> cr_total_attempts r \<le> rp_max_attempts pol
    \<and> list_all (\<lambda>d. 0 \<le> d \<and> d \<le> 3 / 2 * rp_max_delay pol) ds
    \<and> (cr_success r \<or> cr_total_attempts r = rp_max_attempts pol
         \<or> (case cr_error_code r of None \<Rightarrow> True | Some c \<Rightarrow> c \<notin> set (rp_retryable_error_codes pol)))"
  using retry_loop_bounds [OF assms(1) [unfolded execute_command_with_retry_def] _ _ assms(2) assms(3-6)]
  by (auto simp: should_retry_def split: option.splits)

definition silent_agent :: attempt_env where
  "silent_agent = \<lparr>e_connected = True, e_id = ''c1'', e_now = 0, e_send = (\<lambda>x. (True, x)),
     e_wait = (\<lambda>x. (WaitTimedOut, x)), e_random = 1 / 2\<rparr>"

theorem retries_are_bounded_witness:
  "cr_total_attempts (projr (fst (execute_command_with_retry default_policy (\<lambda>k. silent_agent) ''a1'' 30 new_executor))) = 3
   \<and> snd (snd (execute_command_with_retry default_policy (\<lambda>k. silent_agent) ''a1'' 30 new_executor)) = [1, 2]"
proof -
  have "is_ok (fst (execute_command_with_retry default_policy (\<lambda>k. silent_agent) ''a1'' 30 new_executor))"
    and d: "snd (snd (execute_command_with_retry default_policy (\<lambda>k. silent_agent) ''a1'' 30 new_executor)) = [1, 2]"
    by code_simp+
  then obtain r x' where e: "execute_command_with_retry default_policy (\<lambda>k. silent_agent) ''a1'' 30 new_executor
      = (Inr r, x', [1, 2])" by (metis is_ok_iff prod.collapse)
  have "cr_total_attempts r = Suc (length [1::rat, 2])"
    using retries_are_bounded [OF e] by (simp add: default_policy_def silent_agent_def)
  then show ?thesis using d by (simp add: e)
qed

text \<open>Proved as well: an answer reaches its own command, once. Whatever answers come in, a waiting command is
  resolved by the first one that carries its identifier, and no answer adds or removes a pending
  command.\<close>

theorem first_answer_wins:
  assumes "dget (x_pending x) i = Some p" and "pc_future p = Waiting" and "i \<noteq> []"
  shows "map_option pc_future (dget (x_pending (fold hear rs x)) i) =
      Some (case find (names_command i) rs of None \<Rightarrow> Waiting | Some r \<Rightarrow> Resolved r)
    \<and> map fst (x_pending (fold hear rs x)) = map fst (x_pending x)"
  using hear_many [OF assms(1,3), of rs] assms(2) by (auto split: option.splits)

theorem first_answer_wins_witness:
  "map_option pc_future (dget (x_pending (fold hear
      [go_message ''c2'' None [] ''t'', go_message ''c1'' (Some (VInt 1)) [] ''t'', go_message ''c1'' (Some (VInt 2)) [] ''t'']
      (new_executor\<lparr>x_pending := [(''c1'', \<lparr>pc_future = Waiting, pc_agent = ''a1'', pc_started_at = 0\<rparr>)]\<rparr>))) ''c1'')
   = Some (Resolved (go_message ''c1'' (Some (VInt 1)) [] ''t''))"
proof -
  let ?p = "\<lparr>pc_future = Waiting, pc_agent = ''a1'', pc_started_at = 0\<rparr>"
  have f: "find (names_command ''c1'') [go_message ''c2'' None [] ''t'', go_message ''c1'' (Some (VInt 1)) [] ''t'',
      go_message ''c1'' (Some (VInt 2)) [] ''t''] = Some (go_message ''c1'' (Some (VInt 1)) [] ''t'')"
    by (simp add: names_command_def go_message_fields vget_or_def)
  have p: "dget (x_pending (new_executor\<lparr>x_pending := [(''c1'', ?p)]\<rparr>)) ''c1'' = Some ?p" "pc_future ?p = Waiting"
    by simp_all
  show ?thesis
    using first_answer_wins [OF p, of "[go_message ''c2'' None [] ''t'', go_message ''c1'' (Some (VInt 1)) [] ''t'',
      go_message ''c1'' (Some (VInt 2)) [] ''t'']"] unfolding f option.case by blast
qed


definition refusing_agent :: attempt_env where
  "refusing_agent = silent_agent\<lparr>e_wait :=
     (\<lambda>x. (Answered (go_message ''c1'' None ''image is being used'' ''t''), x))\<rparr>"


end
