(* ===== verification/HealthCheck.thy ===== *)
theory HealthCheck
  imports PyText "HOL-Library.Sublist"
begin

text \<open>
  HTTP health checks (\<open>backend/health_check/http_checker.py\<close>): the scheduling of checks, the
  debounced status of a container and the automatic restarts. What a probe finds is a parameter
  here (theory \<open>HealthProbe\<close> models it). The API edits the table between two iterations; the cache
  of container names only feeds the event text.
\<close>

section \<open>State\<close>

record check_row =
  h_host_id :: string
  h_enabled :: bool
  h_check_from :: string
  h_current_status :: string
  h_consecutive_successes :: int
  h_consecutive_failures :: int
  h_last_success_at :: "time option"
  h_last_failure_at :: "time option"
  h_last_error_message :: "string option"
  h_last_checked_at :: "time option"
  h_last_response_time_ms :: "int option"
  h_auto_restart_on_failure :: bool
  h_failure_threshold :: int
  h_success_threshold :: int
  h_max_restart_attempts :: int
  h_restart_retry_delay_seconds :: int
  h_updated_at :: time

record probe_result =
  pr_is_healthy :: bool
  pr_response_time_ms :: int
  pr_error_message :: "string option"

record health_event =
  he_container_id :: string
  he_old_state :: string
  he_new_state :: string
  he_error_message :: "string option"
  he_consecutive_failures :: int

record restart_request =
  rr_container_id :: string
  rr_host_id :: string
  rr_short_id :: string
  rr_at :: time

record checker =
  k_rows :: "(string, check_row) pydict"
  k_tasks :: "string list"
  k_history :: "(string, time list) pydict"
  k_attempts :: "(string, int) pydict"
  k_last_restart :: "(string, time) pydict"
  k_restarts :: "restart_request list" \<comment> \<open>the calls of \<open>monitor.restart_container\<close>\<close>
  k_events :: "health_event list"

definition new_checker :: checker where
  "new_checker = \<lparr>k_rows = [], k_tasks = [], k_history = [], k_attempts = [], k_last_restart = [],
     k_restarts = [], k_events = []\<rparr>"

section \<open>One outcome\<close>

definition record_outcome :: "time \<Rightarrow> string \<Rightarrow> probe_result \<Rightarrow> check_row \<Rightarrow> check_row" where
  "record_outcome now old_status p c =
     (let c1 = (if pr_is_healthy p
                then c\<lparr>h_consecutive_successes := h_consecutive_successes c + 1,
                       h_consecutive_failures := 0, h_last_success_at := Some now\<rparr>
                else c\<lparr>h_consecutive_failures := h_consecutive_failures c + 1,
                       h_consecutive_successes := 0, h_last_failure_at := Some now,
                       h_last_error_message := pr_error_message p\<rparr>);
          new_status =
            (if pr_is_healthy p \<and> h_consecutive_successes c1 \<ge> h_success_threshold c then ''healthy''
             else if \<not> pr_is_healthy p \<and> h_consecutive_failures c1 \<ge> h_failure_threshold c
             then ''unhealthy'' else old_status)
      in c1\<lparr>h_last_checked_at := Some now, h_last_response_time_ms := Some (pr_response_time_ms p),
            h_current_status := new_status, h_updated_at := now\<rparr>)"

definition reset_episode_attempts :: "string \<Rightarrow> checker \<Rightarrow> checker" where
  "reset_episode_attempts i k =
     (if dhas (k_attempts k) i
      then k\<lparr>k_attempts := ddel i (k_attempts k), k_last_restart := ddel i (k_last_restart k)\<rparr> else k)"

text \<open>\<open>_trigger_auto_restart\<close>: the window of ten minutes, the attempts of the episode, the delay.\<close>

definition recent_restarts :: "time \<Rightarrow> string \<Rightarrow> checker \<Rightarrow> time list" where
  "recent_restarts now i k =
     filter (\<lambda>t. now - t < secs 600) (case dget (k_history k) i of None \<Rightarrow> [] | Some ts \<Rightarrow> ts)"

definition restart_allowed :: "time \<Rightarrow> string \<Rightarrow> int \<Rightarrow> int \<Rightarrow> checker \<Rightarrow> bool" where
  "restart_allowed now i max_attempts retry_delay k =
     (let attempts = (case dget (k_attempts k) i of None \<Rightarrow> 0 | Some n \<Rightarrow> n);
          last = (case dget (k_last_restart k) i of None \<Rightarrow> 0 | Some t \<Rightarrow> t)
      in \<not> length (recent_restarts now i k) \<ge> 12 \<and> \<not> attempts \<ge> max_attempts
         \<and> \<not> (attempts > 0 \<and> now - last < secs retry_delay))"

definition trigger_auto_restart :: "time \<Rightarrow> string \<Rightarrow> string \<Rightarrow> int \<Rightarrow> int \<Rightarrow> checker \<Rightarrow> checker" where
  "trigger_auto_restart now host_id i max_attempts retry_delay k =
     (case split_first (CHR '':'') i of
        None \<Rightarrow> k
      | Some (_, short_id) \<Rightarrow>
          let recent = recent_restarts now i k;
              k1 = k\<lparr>k_history := dset i recent (k_history k)\<rparr>
          in if \<not> restart_allowed now i max_attempts retry_delay k then k1
             else k1\<lparr>k_attempts := dset i ((case dget (k_attempts k) i of None \<Rightarrow> 0 | Some n \<Rightarrow> n) + 1) (k_attempts k),
                     k_last_restart := dset i now (k_last_restart k),
                     k_history := dset i (recent @ [now]) (k_history k1),
                     k_restarts := k_restarts k @ [\<lparr>rr_container_id = i, rr_host_id = host_id,
                                                   rr_short_id = short_id, rr_at = now\<rparr>]\<rparr>)"

definition update_check_state :: "time \<Rightarrow> string \<Rightarrow> string \<Rightarrow> probe_result \<Rightarrow> checker \<Rightarrow> checker" where
  "update_check_state now i old_status p k =
     (case dget (k_rows k) i of
        None \<Rightarrow> k
      | Some c \<Rightarrow>
          let c1 = record_outcome now old_status p c;
              k1 = k\<lparr>k_rows := dset i c1 (k_rows k)\<rparr>;
              new_status = h_current_status c1
          in if old_status = new_status then k1
             else
               let k2 = (if new_status = ''healthy'' then reset_episode_attempts i k1 else k1);
                   k3 = k2\<lparr>k_events := k_events k2 @ [\<lparr>he_container_id = i, he_old_state = old_status,
                          he_new_state = new_status, he_error_message = pr_error_message p,
                          he_consecutive_failures = h_consecutive_failures c1\<rparr>]\<rparr>
               in if new_status = ''unhealthy'' \<and> h_auto_restart_on_failure c1
                  then trigger_auto_restart now (h_host_id c1) i (h_max_restart_attempts c1)
                         (h_restart_retry_delay_seconds c1) k3
                  else k3)"

section \<open>The loops\<close>

text \<open>One iteration of \<open>_check_loop\<close>: the configuration is read once, before the probe.\<close>

definition check_iteration :: "time \<Rightarrow> (check_row \<Rightarrow> probe_result) \<Rightarrow> string \<Rightarrow> checker \<Rightarrow> checker" where
  "check_iteration now probe i k =
     (case dget (k_rows k) i of
        None \<Rightarrow> k\<lparr>k_tasks := removeAll i (k_tasks k)\<rparr>
      | Some config \<Rightarrow>
          if \<not> h_enabled config then k\<lparr>k_tasks := removeAll i (k_tasks k)\<rparr>
          else
            let k1 = update_check_state now i (h_current_status config) (probe config) k
            in if h_current_status config = ''unhealthy'' \<and> h_auto_restart_on_failure config
               then trigger_auto_restart now (h_host_id config) i (h_max_restart_attempts config)
                      (h_restart_retry_delay_seconds config) k1
               else k1)"

definition enabled_check_ids :: "checker \<Rightarrow> string list" where
  "enabled_check_ids k =
     map fst (filter (\<lambda>(i, c). h_enabled c \<and> h_check_from c = ''backend'') (k_rows k))"

definition reload_and_schedule_checks :: "checker \<Rightarrow> checker" where
  "reload_and_schedule_checks k =
     (let enabled = enabled_check_ids k;
          gone = filter (\<lambda>i. i \<notin> set enabled) (k_tasks k);
          new = filter (\<lambda>i. i \<notin> set (k_tasks k)) enabled
      in k\<lparr>k_tasks := filter (\<lambda>i. i \<in> set enabled) (k_tasks k) @ new,
           k_history := ddel_all gone (k_history k),
           k_attempts := ddel_all gone (k_attempts k),
           k_last_restart := ddel_all gone (k_last_restart k)\<rparr>)"

section \<open>Lemmas on restarts\<close>

text \<open>The restarts of one container, in the order they were requested.\<close>

definition restart_times :: "string \<Rightarrow> checker \<Rightarrow> time list" where
  "restart_times i k = map rr_at (filter (\<lambda>r. rr_container_id r = i) (k_restarts k))"

lemma restart_times_simps [simp]:
  "restart_times i (k\<lparr>k_rows := r\<rparr>) = restart_times i k"
  "restart_times i (k\<lparr>k_tasks := t\<rparr>) = restart_times i k"
  "restart_times i (k\<lparr>k_events := e\<rparr>) = restart_times i k"
  "restart_times i (k\<lparr>k_history := h\<rparr>) = restart_times i k"
  "restart_times i (k\<lparr>k_attempts := a\<rparr>) = restart_times i k"
  "restart_times i (k\<lparr>k_last_restart := l\<rparr>) = restart_times i k"
  by (simp_all add: restart_times_def)

lemma reset_keeps [simp]:
  "restart_times i (reset_episode_attempts j k) = restart_times i k"
  "k_history (reset_episode_attempts j k) = k_history k"
  by (simp_all add: reset_episode_attempts_def restart_times_def)

text \<open>The history of a container holds its restarts of the last ten minutes; at most twelve.\<close>

definition history_ok :: "time \<Rightarrow> string \<Rightarrow> checker \<Rightarrow> bool" where
  "history_ok now i k =
     (recent_restarts now i k = filter (\<lambda>t. now - t < secs 600) (restart_times i k)
      \<and> sorted (restart_times i k) \<and> (\<forall>t \<in> set (restart_times i k). t \<le> now)
      \<and> (\<forall>t. length (filter (\<lambda>u. t - secs 600 < u \<and> u \<le> t) (restart_times i k)) \<le> 12))"

lemma history_ok_simps [simp]:
  "history_ok now i (k\<lparr>k_rows := r\<rparr>) = history_ok now i k"
  "history_ok now i (k\<lparr>k_tasks := t\<rparr>) = history_ok now i k"
  "history_ok now i (k\<lparr>k_events := e\<rparr>) = history_ok now i k"
  "history_ok now i (reset_episode_attempts j k) = history_ok now i k"
  by (simp_all add: history_ok_def recent_restarts_def)

lemma history_ok_later: "history_ok now i k \<Longrightarrow> now \<le> now' \<Longrightarrow> history_ok now' i k"
proof -
  assume h: "history_ok now i k" and le: "now \<le> now'"
  have "filter (\<lambda>t. now' - t < secs 600) xs = filter (\<lambda>t. now' - t < secs 600) (filter (\<lambda>t. now - t < secs 600) xs)" for xs
    using le by (auto intro: filter_cong)
  then have "recent_restarts now' i k = filter (\<lambda>t. now' - t < secs 600) (recent_restarts now i k)"
    "filter (\<lambda>t. now' - t < secs 600) (restart_times i k) =
      filter (\<lambda>t. now' - t < secs 600) (filter (\<lambda>t. now - t < secs 600) (restart_times i k))"
    unfolding recent_restarts_def by metis+
  then show ?thesis using h le by (auto simp: history_ok_def)
qed

lemma filter_between_snoc:
  assumes "\<forall>u \<in> set ts. u \<le> now" and "length (filter (\<lambda>u. now - u < secs 600) ts) < 12"
    and "\<forall>t. length (filter (\<lambda>u. t - secs 600 < u \<and> u \<le> t) ts) \<le> 12"
  shows "length (filter (\<lambda>u. t - secs 600 < u \<and> u \<le> t) (ts @ [now])) \<le> 12"
proof (cases "t - secs 600 < now \<and> now \<le> t")
  case True
  then have "length (filter (\<lambda>u. t - secs 600 < u \<and> u \<le> t) ts) \<le> length (filter (\<lambda>u. now - u < secs 600) ts)"
    by (intro length_filter_imp) (auto simp: algebra_simps)
  then show ?thesis using assms(2) by simp
next
  case False
  then have "filter (\<lambda>u. t - secs 600 < u \<and> u \<le> t) [now] = []" by auto
  then show ?thesis using assms(3) by simp
qed

lemma trigger_cases:
  assumes "CHR '':'' \<in> set i"
  shows "restart_times j (trigger_auto_restart now h i m d k) =
      restart_times j k @ (if j = i \<and> restart_allowed now i m d k then [now] else [])"
    and "dget (k_history (trigger_auto_restart now h i m d k)) j =
      (if j = i then Some (recent_restarts now i k @ (if restart_allowed now i m d k then [now] else []))
       else dget (k_history k) j)"
proof -
  obtain a b where "split_first (CHR '':'') i = Some (a, b)"
    using assms by (cases "split_first (CHR '':'') i") auto
  then show "restart_times j (trigger_auto_restart now h i m d k) =
      restart_times j k @ (if j = i \<and> restart_allowed now i m d k then [now] else [])"
    "dget (k_history (trigger_auto_restart now h i m d k)) j =
      (if j = i then Some (recent_restarts now i k @ (if restart_allowed now i m d k then [now] else []))
       else dget (k_history k) j)"
    by (simp_all add: trigger_auto_restart_def restart_times_def Let_def)
qed

lemma trigger_no_colon: "CHR '':'' \<notin> set i \<Longrightarrow> trigger_auto_restart now h i m d k = k"
  by (simp add: trigger_auto_restart_def split_first_None_iff [THEN iffD2])

lemma trigger_history_ok:
  assumes "history_ok now j k"
  shows "history_ok now j (trigger_auto_restart now h i m d k)"
proof (cases "CHR '':'' \<in> set i")
  case True
  note t = trigger_cases [OF True, where j = j and now = now and h = h and m = m and d = d and k = k]
  show ?thesis
  proof (cases "j = i \<and> restart_allowed now i m d k")
    case False
    then show ?thesis using assms t by (auto simp: history_ok_def recent_restarts_def)
  next
    case True
    then have "length (filter (\<lambda>u. now - u < secs 600) (restart_times j k)) < 12"
      using assms by (auto simp: restart_allowed_def history_ok_def Let_def)
    then have "length (filter (\<lambda>u. t - secs 600 < u \<and> u \<le> t) (restart_times j k @ [now])) \<le> 12" for t
      using assms by (intro filter_between_snoc) (auto simp: history_ok_def)
    then show ?thesis
      using assms t True by (auto simp: history_ok_def recent_restarts_def sorted_append)
  qed
qed (use assms in \<open>simp add: trigger_no_colon\<close>)

lemma update_history_ok:
  "history_ok now j k \<Longrightarrow> history_ok now j (update_check_state now i old p k)"
  by (simp add: update_check_state_def Let_def trigger_history_ok split: option.split)

lemma iteration_history_ok:
  "history_ok now j k \<Longrightarrow> history_ok now j (check_iteration now probe i k)"
  by (simp add: check_iteration_def Let_def trigger_history_ok update_history_ok split: option.split)

section \<open>Lemmas on the debounced status\<close>

text \<open>The length of the run of equal outcomes at the end.\<close>

definition trail :: "bool \<Rightarrow> bool list \<Rightarrow> nat" where
  "trail b bs = length (takeWhile (\<lambda>x. x = b) (rev bs))"

lemma trail_simps [simp]:
  "trail b [] = 0" "trail b (bs @ [c]) = (if c = b then Suc (trail b bs) else 0)"
  by (simp_all add: trail_def)

lemma suffix_trail: "suffix (replicate n b) bs \<longleftrightarrow> n \<le> trail b bs"
proof (induction bs arbitrary: n rule: rev_induct)
  case (snoc c bs)
  show ?case
  proof (cases n)
    case (Suc m)
    then have "replicate n b = replicate m b @ [b]" by (simp add: replicate_append_same)
    then show ?thesis using snoc.IH [of m] Suc by (auto simp del: suffix_snoc)
  qed simp
qed simp

text \<open>Some run of \<open>n\<close> outcomes \<open>b\<close> has no run of \<open>m\<close> opposite outcomes after it.\<close>

definition last_verdict :: "bool \<Rightarrow> nat \<Rightarrow> nat \<Rightarrow> bool list \<Rightarrow> bool" where
  "last_verdict b n m bs =
     (\<exists>us vs. bs = us @ replicate n b @ vs \<and> \<not> sublist (replicate m (\<not> b)) vs)"

lemma sublist_run_snoc:
  "sublist (replicate m b) (vs @ [c]) \<longleftrightarrow> sublist (replicate m b) vs \<or> m \<le> trail b (vs @ [c])"
  by (simp add: sublist_snoc suffix_trail [symmetric] disj_commute del: suffix_snoc trail_simps)

lemma split_before_last:
  "(\<exists>us vs. bs @ [c] = us @ F @ vs \<and> P vs) \<longleftrightarrow>
     (suffix F (bs @ [c]) \<and> P []) \<or> (\<exists>us vs. bs = us @ F @ vs \<and> P (vs @ [c]))"
proof
  assume "\<exists>us vs. bs @ [c] = us @ F @ vs \<and> P vs"
  then obtain us vs where e: "bs @ [c] = us @ F @ vs" "P vs" by blast
  show "(suffix F (bs @ [c]) \<and> P []) \<or> (\<exists>us vs. bs = us @ F @ vs \<and> P (vs @ [c]))"
  proof (cases vs rule: rev_cases)
    case Nil
    then have "suffix F (bs @ [c])" using e unfolding suffix_def by (metis append_Nil2)
    then show ?thesis using e Nil by blast
  next
    case (snoc ws x)
    then have "(us @ F @ ws) @ [x] = bs @ [c]" using e by simp
    then show ?thesis using e snoc unfolding append1_eq_conv by metis
  qed
next
  assume "(suffix F (bs @ [c]) \<and> P []) \<or> (\<exists>us vs. bs = us @ F @ vs \<and> P (vs @ [c]))"
  then show "\<exists>us vs. bs @ [c] = us @ F @ vs \<and> P vs"
    by (metis append.assoc append_Nil2 suffix_def)
qed

lemma last_verdict_snoc:
  assumes "0 < n" and "0 < m"
  shows "last_verdict b n m (bs @ [c]) =
    (if c = b then n \<le> trail b (bs @ [b]) \<or> last_verdict b n m bs
     else trail (\<not> b) (bs @ [c]) < m \<and> last_verdict b n m bs)"
proof -
  let ?F = "replicate n b"
  have snoc: "(\<exists>us vs. bs @ [c] = us @ ?F @ vs \<and> P vs) \<longleftrightarrow>
      (n \<le> trail b (bs @ [c]) \<and> P []) \<or> (\<exists>us vs. bs = us @ ?F @ vs \<and> P (vs @ [c]))" for P
    by (simp only: split_before_last suffix_trail)
  have empty: "\<not> sublist (replicate m (\<not> b)) []" using assms(2) by (cases m) simp_all
  have run: "sublist (replicate m (\<not> b)) (vs @ [c]) \<longleftrightarrow>
      sublist (replicate m (\<not> b)) vs \<or> m \<le> trail (\<not> b) (vs @ [c])" for vs
    by (rule sublist_run_snoc)
  show ?thesis
  proof (cases "c = b")
    case True
    then show ?thesis
      using assms empty unfolding last_verdict_def snoc run by auto
  next
    case False
    then have c: "c = (\<not> b)" by auto
    have long: "trail (\<not> b) (us @ ?F @ vs @ [c]) = trail (\<not> b) (vs @ [c])" for us vs
    proof -
      obtain l where "n = Suc l" using assms(1) by (cases n) auto
      then have F: "us @ ?F @ vs @ [c] = (us @ replicate l b) @ b # vs @ [c]"
        by (simp add: replicate_append_same [symmetric])
      show ?thesis unfolding F trail_def by (simp add: c takeWhile_tail)
    qed
    then have "bs = us @ ?F @ vs \<Longrightarrow> trail (\<not> b) (vs @ [c]) = trail (\<not> b) (bs @ [c])" for us vs
      by (metis append.assoc)
    then have "(\<exists>us vs. bs = us @ ?F @ vs \<and> \<not> (sublist (replicate m (\<not> b)) vs \<or> m \<le> trail (\<not> b) (vs @ [c]))) \<longleftrightarrow>
        trail (\<not> b) (bs @ [c]) < m \<and> (\<exists>us vs. bs = us @ ?F @ vs \<and> \<not> sublist (replicate m (\<not> b)) vs)"
      by (metis not_le)
    then show ?thesis
      using False assms(1) c unfolding last_verdict_def snoc run by simp
  qed
qed

text \<open>A row that sees a list of outcomes, one per iteration.\<close>

definition observe :: "(time \<times> probe_result) list \<Rightarrow> check_row \<Rightarrow> check_row" where
  "observe obs c = foldl (\<lambda>c (now, p). record_outcome now (h_current_status c) p c) c obs"

definition outcomes :: "(time \<times> probe_result) list \<Rightarrow> bool list" where
  "outcomes obs = map (\<lambda>(now, p). pr_is_healthy p) obs"

definition fresh_row :: "nat \<Rightarrow> nat \<Rightarrow> check_row \<Rightarrow> bool" where
  "fresh_row f s c = (h_current_status c = ''unknown'' \<and> h_consecutive_successes c = 0
     \<and> h_consecutive_failures c = 0 \<and> h_failure_threshold c = int f \<and> h_success_threshold c = int s)"

lemma observe_state:
  assumes "fresh_row f s c0" and "0 < f" and "0 < s"
  shows "h_consecutive_successes (observe obs c0) = int (trail True (outcomes obs))
    \<and> h_consecutive_failures (observe obs c0) = int (trail False (outcomes obs))
    \<and> h_failure_threshold (observe obs c0) = int f \<and> h_success_threshold (observe obs c0) = int s
    \<and> h_current_status (observe obs c0) =
        (if last_verdict False f s (outcomes obs) then ''unhealthy''
         else if last_verdict True s f (outcomes obs) then ''healthy'' else ''unknown'')
    \<and> \<not> (last_verdict False f s (outcomes obs) \<and> last_verdict True s f (outcomes obs))"
proof (induction obs rule: rev_induct)
  case Nil
  then show ?case
    using assms by (auto simp: fresh_row_def observe_def outcomes_def last_verdict_def)
next
  case (snoc o1 obs)
  obtain now p where o1: "o1 = (now, p)" by (cases o1)
  have step: "observe (obs @ [o1]) c0 = record_outcome now (h_current_status (observe obs c0)) p (observe obs c0)"
    and outs: "outcomes (obs @ [o1]) = outcomes obs @ [pr_is_healthy p]"
    by (simp_all add: observe_def outcomes_def o1)
  note v = last_verdict_snoc [OF assms(2,3), of False "outcomes obs" "pr_is_healthy p"]
    last_verdict_snoc [OF assms(3,2), of True "outcomes obs" "pr_is_healthy p"]
  show ?case
    using snoc.IH assms(2,3) unfolding step outs v
    by (cases "pr_is_healthy p") (auto simp: record_outcome_def Let_def split: if_splits)
qed

text \<open>Steps of the checker while a check stays enabled: iterations, and edits of the table.\<close>

datatype health_move =
    Iterate time "check_row \<Rightarrow> probe_result" string
  | Edit "(string, check_row) pydict \<Rightarrow> (string, check_row) pydict"

fun health_step :: "checker \<Rightarrow> health_move \<Rightarrow> checker" where
  "health_step k (Iterate now probe i) = check_iteration now probe i k"
| "health_step k (Edit f) = k\<lparr>k_rows := f (k_rows k)\<rparr>"

fun iterate_times :: "health_move list \<Rightarrow> time list" where
  "iterate_times [] = []"
| "iterate_times (Iterate now probe i # es) = now # iterate_times es"
| "iterate_times (Edit f # es) = iterate_times es"

lemma run_history_ok:
  "history_ok now j k \<Longrightarrow> sorted (now # iterate_times es) \<Longrightarrow>
     \<exists>now'. history_ok now' j (run health_step k es)"
proof (induction es arbitrary: now k)
  case (Cons e es)
  show ?case
  proof (cases e)
    case (Iterate t probe i)
    then have "history_ok t j (health_step k e)" "sorted (t # iterate_times es)"
      using Cons.prems history_ok_later [OF Cons.prems(1), of t] by (auto intro: iteration_history_ok)
    then show ?thesis using Cons.IH by simp
  next
    case (Edit f)
    then show ?thesis using Cons.IH [of now "health_step k e"] Cons.prems by simp
  qed
qed auto

lemma history_ok_new: "history_ok now i new_checker"
  by (simp add: history_ok_def recent_restarts_def restart_times_def new_checker_def)

section \<open>Properties\<close>

text \<open>Proved as well: the status is the last verdict. After any outcomes, a new check is unhealthy exactly when
  some run of \<open>failure_threshold\<close> failures has no run of \<open>success_threshold\<close> successes after it,
  healthy exactly when some run of \<open>success_threshold\<close> successes has no run of
  \<open>failure_threshold\<close> failures after it, and unknown otherwise.\<close>

theorem status_is_last_verdict:
  assumes "fresh_row f s c" and "0 < f" and "0 < s"
  shows "(h_current_status (observe obs c) = ''unhealthy'') =
      (\<exists>us vs. outcomes obs = us @ replicate f False @ vs \<and> \<not> sublist (replicate s True) vs)
    \<and> (h_current_status (observe obs c) = ''healthy'') =
      (\<exists>us vs. outcomes obs = us @ replicate s True @ vs \<and> \<not> sublist (replicate f False) vs)"
  using observe_state [OF assms, of obs] by (auto simp: last_verdict_def)

definition demo_row :: check_row where
  "demo_row = \<lparr>h_host_id = ''h1'', h_enabled = True, h_check_from = ''backend'',
     h_current_status = ''unknown'', h_consecutive_successes = 0, h_consecutive_failures = 0,
     h_last_success_at = None, h_last_failure_at = None, h_last_error_message = None,
     h_last_checked_at = None, h_last_response_time_ms = None, h_auto_restart_on_failure = True,
     h_failure_threshold = 2, h_success_threshold = 1, h_max_restart_attempts = 3,
     h_restart_retry_delay_seconds = 120, h_updated_at = 0\<rparr>"

definition good_probe :: probe_result where
  "good_probe = \<lparr>pr_is_healthy = True, pr_response_time_ms = 5, pr_error_message = None\<rparr>"

definition bad_probe :: probe_result where
  "bad_probe = \<lparr>pr_is_healthy = False, pr_response_time_ms = 5, pr_error_message = Some ''500''\<rparr>"

theorem status_is_last_verdict_witness:
  "h_current_status (observe [(1, good_probe), (2, bad_probe), (3, bad_probe)] demo_row) = ''unhealthy''"
proof -
  have "fresh_row 2 1 demo_row" by (simp add: fresh_row_def demo_row_def)
  moreover have "outcomes [(1, good_probe), (2, bad_probe), (3, bad_probe)] = [True] @ replicate 2 False @ []"
    by (simp add: outcomes_def good_probe_def bad_probe_def numeral_2_eq_2)
  moreover have "\<not> sublist (replicate 1 True) []" by simp
  ultimately show ?thesis
    using conjunct1 [OF status_is_last_verdict [of 2 1 demo_row "[(1, good_probe), (2, bad_probe), (3, bad_probe)]"]]
    by (metis zero_less_numeral zero_less_one)
qed

text \<open>Proved as well: no restart storm. While a check stays enabled, whatever the probes find and however its row
  is edited, at most twelve restarts of a container are requested within any ten minutes.\<close>

theorem no_restart_storm:
  assumes "sorted (iterate_times es)"
  shows "length (filter (\<lambda>u. t - secs 600 < u \<and> u \<le> t) (restart_times i (run health_step new_checker es))) \<le> 12"
proof -
  obtain t0 where "sorted (t0 # iterate_times es)"
    using assms by (cases "iterate_times es") (auto intro: that [of 0] that [of "hd (iterate_times es)"])
  then obtain now' where "history_ok now' i (run health_step new_checker es)"
    using run_history_ok [OF history_ok_new] by blast
  then show ?thesis by (simp add: history_ok_def)
qed

theorem no_restart_storm_witness:
  "length (filter (\<lambda>u. secs 300 - secs 600 < u \<and> u \<le> secs 300) (restart_times ''h1:c1''
     (run health_step new_checker
       [Edit (\<lambda>r. [(''h1:c1'', demo_row)]), Iterate 0 (\<lambda>c. bad_probe) ''h1:c1'', Iterate 1 (\<lambda>c. bad_probe) ''h1:c1'']))) \<le> 12"
  by (rule no_restart_storm) simp

text \<open>Proved as well: a recovering container is restarted once more. The iteration in which the probe of an
  unhealthy container succeeds again marks it healthy and resets the attempts of the episode, but
  then still acts on the status read before the probe and restarts the container.\<close>

theorem recovery_restarts_container:
  assumes "dget (k_rows k) i = Some c" and "h_enabled c" and "h_current_status c = ''unhealthy''"
    and "h_auto_restart_on_failure c" and "pr_is_healthy (probe c)"
    and "h_success_threshold c \<le> h_consecutive_successes c + 1" and "0 < h_max_restart_attempts c"
    and "CHR '':'' \<in> set i" and "length (recent_restarts now i k) < 12"
  shows "map_option h_current_status (dget (k_rows (check_iteration now probe i k)) i) = Some ''healthy''
    \<and> restart_times i (check_iteration now probe i k) = restart_times i k @ [now]"
proof -
  define k1 where "k1 = update_check_state now i ''unhealthy'' (probe c) k"
  have k1: "map_option h_current_status (dget (k_rows k1) i) = Some ''healthy''"
      "dget (k_attempts k1) i = None" "recent_restarts now i k1 = recent_restarts now i k"
      "restart_times i k1 = restart_times i k"
    using assms by (simp_all add: k1_def update_check_state_def record_outcome_def reset_episode_attempts_def
        recent_restarts_def dhas_def Let_def)
  have "restart_allowed now i (h_max_restart_attempts c) (h_restart_retry_delay_seconds c) k1"
    using k1 assms(7,9) by (simp add: restart_allowed_def)
  moreover have "k_rows (trigger_auto_restart now h i m d k1) = k_rows k1" for h m d
    by (simp add: trigger_auto_restart_def Let_def split: option.splits)
  ultimately show ?thesis
    using assms(1-4) k1 trigger_cases(1) [OF assms(8), of i now]
    by (simp add: check_iteration_def Let_def flip: k1_def)
qed

theorem recovery_restarts_container_witness:
  "restart_times ''h1:c1'' (check_iteration 9 (\<lambda>c. good_probe) ''h1:c1''
     (new_checker\<lparr>k_rows := [(''h1:c1'', demo_row\<lparr>h_current_status := ''unhealthy''\<rparr>)]\<rparr>)) = [9]"
proof -
  have "restart_times ''h1:c1'' (check_iteration 9 (\<lambda>c. good_probe) ''h1:c1''
     (new_checker\<lparr>k_rows := [(''h1:c1'', demo_row\<lparr>h_current_status := ''unhealthy''\<rparr>)]\<rparr>)) =
     restart_times ''h1:c1'' (new_checker\<lparr>k_rows := [(''h1:c1'', demo_row\<lparr>h_current_status := ''unhealthy''\<rparr>)]\<rparr>) @ [9]"
    by (rule conjunct2 [OF recovery_restarts_container [of _ _ "demo_row\<lparr>h_current_status := ''unhealthy''\<rparr>"]])
      (simp_all add: demo_row_def good_probe_def recent_restarts_def new_checker_def)
  then show ?thesis by (simp add: restart_times_def new_checker_def)
qed

end
