(* ===== verification/PyUrl.thy ===== *)
theory PyUrl
  imports PyText
begin

text \<open>
  What the code uses of \<open>urllib.parse\<close>: the scheme and the network location of a URL, and the host and
  port of a location. A bracketed host is taken as written.
\<close>

definition scheme_char :: "char \<Rightarrow> bool" where
  "scheme_char c = (is_lower_ascii c \<or> is_upper_ascii c \<or> is_dec c \<or> c \<in> {CHR ''+'', CHR ''-'', CHR ''.''})"

definition split_scheme :: "string \<Rightarrow> string \<times> string" where
  "split_scheme u = (case split_first (CHR '':'') u of
      None \<Rightarrow> ([], u)
    | Some (a, b) \<Rightarrow>
        if a \<noteq> [] \<and> (is_lower_ascii (hd a) \<or> is_upper_ascii (hd a)) \<and> list_all scheme_char a
        then (py_lower a, b) else ([], u))"

definition after_last :: "char \<Rightarrow> string \<Rightarrow> string" where
  "after_last c s = rev (takeWhile (\<lambda>x. x \<noteq> c) (rev s))"

definition before_first :: "char \<Rightarrow> string \<Rightarrow> string" where
  "before_first c s = takeWhile (\<lambda>x. x \<noteq> c) s"

definition from_first :: "char \<Rightarrow> string \<Rightarrow> string" where
  "from_first c s = tl (dropWhile (\<lambda>x. x \<noteq> c) s)"

definition host_and_port :: "string \<Rightarrow> string \<times> string" where
  "host_and_port hostinfo =
     (if CHR ''['' \<in> set hostinfo
      then let b = from_first (CHR ''['') hostinfo
           in (before_first (CHR '']'') b, from_first (CHR '':'') (from_first (CHR '']'') b))
      else (before_first (CHR '':'') hostinfo, from_first (CHR '':'') hostinfo))"

text \<open>\<open>None\<close> is the \<open>ValueError\<close> of a bracket without its partner.\<close>

definition urlsplit :: "string \<Rightarrow> (string \<times> string) option" where
  "urlsplit url =
     (let u = filter (\<lambda>c. ccode c \<notin> {9, 10, 13}) (dropWhile (\<lambda>c. ccode c \<le> 32) url);
          (scheme, rest) = split_scheme u;
          netloc = (if take 2 rest = ''//'' then takeWhile (\<lambda>c. c \<notin> set ''/?#'') (drop 2 rest) else [])
      in if (CHR ''['' \<in> set netloc) \<noteq> (CHR '']'' \<in> set netloc) then None else Some (scheme, netloc))"

end
