(* ===== verification/HealthProbe.thy ===== *)
theory HealthProbe
  imports HealthCheck PyValue PyUrl
begin

text \<open>
  One HTTP probe (\<open>HttpHealthChecker._perform_check\<close> of \<open>backend/health_check/http_checker.py\<close> and
  \<open>backend/utils/url_validation.py\<close>): the expected status codes, the request with its
  credentials and the redirects followed by hand. What a server answers to a request, and the URL
  the HTTP library joins from its \<open>Location\<close>, are parameters; so are \<open>str\<close> of a JSON value and the
  (Chinese) error texts.
\<close>

section \<open>Blocked targets\<close>

definition SSRF_BLOCKED_PATTERNS :: "string list" where
  "SSRF_BLOCKED_PATTERNS = [''169.254.169.254'', ''169.254.'', ''metadata.google.internal'',
     ''metadata.goog'', ''100.100.100.200'', ''fd00:ec2::254'', ''0.0.0.0'', ''::1'']"

definition is_ssrf_target :: "string \<Rightarrow> bool" where
  "is_ssrf_target url = list_ex (\<lambda>p. contains p (py_lower url)) SSRF_BLOCKED_PATTERNS"

section \<open>Expected status codes\<close>

definition part_codes :: "string \<Rightarrow> int list" where
  "part_codes p =
     (let part = strip p in
      case split_first (CHR ''-'') part of
        Some (a, b) \<Rightarrow> (case (py_int (strip a), py_int (strip b)) of
            (Some s, Some e) \<Rightarrow> [s..e] | _ \<Rightarrow> [])
      | None \<Rightarrow> (case py_int part of Some n \<Rightarrow> [n] | None \<Rightarrow> []))"

definition parse_status_codes :: "string \<Rightarrow> int set" where
  "parse_status_codes s =
     (let codes = concat (map part_codes (split_on (CHR '','') s))
      in if codes = [] then {200} else set codes)"

section \<open>The origin of a URL\<close>

text \<open>Scheme, host name and port by \<open>urllib.parse.urlparse\<close>; \<open>None\<close> is the \<open>ValueError\<close> of a bad
  port or bracket. A bracketed host is taken as written.\<close>

definition lower_host :: "string \<Rightarrow> string option" where
  "lower_host h = (if h = [] then None
     else Some (py_lower (takeWhile (\<lambda>c. c \<noteq> CHR ''%'') h) @ dropWhile (\<lambda>c. c \<noteq> CHR ''%'') h))"

definition url_origin :: "string \<Rightarrow> (string \<times> string option \<times> int option) option" where
  "url_origin url =
     (case urlsplit url of
        None \<Rightarrow> None
      | Some (scheme, netloc) \<Rightarrow>
          let (host, port) = host_and_port (after_last (CHR ''@'') netloc)
          in if port = [] then Some (scheme, lower_host host, None)
             else if list_all is_dec port \<and> dec_val port \<le> 65535
             then Some (scheme, lower_host host, Some (dec_val port)) else None)"

section \<open>The request\<close>

record request =
  rq_method :: string
  rq_url :: string
  rq_headers :: "(string, string) pydict option"
  rq_auth :: "(string \<times> string) option"

text \<open>A JSON column: empty, not valid JSON, or a value.\<close>

datatype json_column = Empty | Malformed | Json pyval

record probe_config =
  pc_url :: string
  pc_method :: string
  pc_expected_status_codes :: string
  pc_follow_redirects :: bool
  pc_headers :: json_column
  pc_auth :: json_column

definition json_headers :: "(pyval \<Rightarrow> string) \<Rightarrow> json_column \<Rightarrow> (string, string) pydict option" where
  "json_headers str j = (case j of
      Json (VDict kvs) \<Rightarrow> Some (fold (\<lambda>(k, v) d. case k of
          VStr s \<Rightarrow> dset s (if v = VNone then [] else str v) d | _ \<Rightarrow> d) kvs [])
    | _ \<Rightarrow> None)"

definition not_null :: "pyval option \<Rightarrow> pyval option" where
  "not_null v = (case v of Some VNone \<Rightarrow> None | _ \<Rightarrow> v)"

definition add_auth :: "(pyval \<Rightarrow> string) \<Rightarrow> json_column \<Rightarrow> request \<Rightarrow> request" where
  "add_auth str j rq = (case j of
      Json (VDict kvs) \<Rightarrow>
        let a = VDict kvs; t = vget_or a ''type'' VNone in
        if t = VStr ''basic'' then
          (case (not_null (vget a ''username''), not_null (vget a ''password'')) of
             (Some u, Some p) \<Rightarrow> rq\<lparr>rq_auth := Some (str u, str p)\<rparr> | _ \<Rightarrow> rq)
        else if t = VStr ''bearer'' then
          (case not_null (vget a ''token'') of
             Some tok \<Rightarrow> rq\<lparr>rq_headers := Some (dset ''Authorization'' (''Bearer '' @ str tok)
                 (case rq_headers rq of None \<Rightarrow> [] | Some h \<Rightarrow> h))\<rparr>
           | None \<Rightarrow> rq)
        else rq
    | _ \<Rightarrow> rq)"

definition build_request :: "(pyval \<Rightarrow> string) \<Rightarrow> probe_config \<Rightarrow> request" where
  "build_request str c = add_auth str (pc_auth c)
     \<lparr>rq_method = pc_method c, rq_url = pc_url c, rq_headers = json_headers str (pc_headers c), rq_auth = None\<rparr>"

section \<open>Redirects\<close>

datatype probe_error = TimeoutError | ConnectError string | OtherError string | PortError | BadStatus int

record response =
  rs_status_code :: int
  rs_next_url :: "string option" \<comment> \<open>\<open>str(response.url.join(location))\<close>, if there is a location\<close>

definition redirect_codes :: "int list" where
  "redirect_codes = [301, 302, 303, 307, 308]"

definition strip_credentials :: "request \<Rightarrow> request" where
  "strip_credentials rq = rq\<lparr>rq_auth := None,
     rq_headers := map_option (ddel ''Authorization'') (rq_headers rq)\<rparr>"

text \<open>The request a redirect leads to; without a location there is none.\<close>

definition next_request :: "string \<Rightarrow> request \<Rightarrow> response \<Rightarrow> (probe_error, request option) res" where
  "next_request url rq rs =
     (case rs_next_url rs of
        None \<Rightarrow> Inr None
      | Some next_url \<Rightarrow>
          if is_ssrf_target next_url
          then Inl (OtherError (''Blocked redirect to disallowed target: '' @ next_url))
          else (case (url_origin next_url, url_origin url) of
              (Some o1, Some o2) \<Rightarrow>
                Inr (Some ((if o1 \<noteq> o2 then strip_credentials rq else rq)\<lparr>rq_url := next_url\<rparr>))
            | _ \<Rightarrow> Inl PortError))"

text \<open>The loop from hop \<open>hop\<close>: the requests sent and how it ends.\<close>

function follow :: "(nat \<Rightarrow> request \<Rightarrow> (probe_error, response) res) \<Rightarrow> string \<Rightarrow> nat \<Rightarrow> nat \<Rightarrow> request
    \<Rightarrow> request list \<times> (probe_error, response) res" where
  "follow server url max_hops hop rq =
     (case server hop rq of
        Inl e \<Rightarrow> ([rq], Inl e)
      | Inr rs \<Rightarrow>
          if \<not> (hop < max_hops \<and> rs_status_code rs \<in> set redirect_codes) then ([rq], Inr rs)
          else (case next_request url rq rs of
              Inl e \<Rightarrow> ([rq], Inl e)
            | Inr None \<Rightarrow> ([rq], Inr rs)
            | Inr (Some rq1) \<Rightarrow>
                (case follow server url max_hops (Suc hop) rq1 of (sent, out) \<Rightarrow> (rq # sent, out))))"
  by pat_completeness auto
termination by (relation "measure (\<lambda>(server, url, max_hops, hop, rq). max_hops - hop)") auto

declare follow.simps [simp del]

definition perform_check :: "(pyval \<Rightarrow> string) \<Rightarrow> (probe_error \<Rightarrow> string)
    \<Rightarrow> (nat \<Rightarrow> request \<Rightarrow> (probe_error, response) res) \<Rightarrow> int \<Rightarrow> probe_config \<Rightarrow> request list \<times> probe_result" where
  "perform_check str text server ms c =
     (let (sent, out) = follow server (pc_url c) (if pc_follow_redirects c then 5 else 0) 0 (build_request str c)
      in (sent, case out of
           Inl e \<Rightarrow> \<lparr>pr_is_healthy = False, pr_response_time_ms = ms, pr_error_message = Some (text e)\<rparr>
         | Inr rs \<Rightarrow>
             let ok = rs_status_code rs \<in> parse_status_codes (pc_expected_status_codes c)
             in \<lparr>pr_is_healthy = ok, pr_response_time_ms = ms,
                 pr_error_message = (if ok then None else Some (text (BadStatus (rs_status_code rs))))\<rparr>))"

section \<open>Lemmas\<close>

definition no_credentials :: "request \<Rightarrow> bool" where
  "no_credentials rq = (rq_auth rq = None
     \<and> (case rq_headers rq of None \<Rightarrow> True | Some h \<Rightarrow> \<not> dhas h ''Authorization''))"

lemma no_credentials_simps [simp]:
  "no_credentials (strip_credentials rq)"
  "no_credentials (rq\<lparr>rq_url := u\<rparr>) = no_credentials rq"
  by (cases "rq_headers rq"; simp add: no_credentials_def strip_credentials_def)+

lemma next_request_facts:
  assumes "next_request url rq rs = Inr (Some rq1)"
  shows "\<not> is_ssrf_target (rq_url rq1)"
    and "url_origin (rq_url rq1) = url_origin url \<or> no_credentials rq1"
    and "no_credentials rq \<Longrightarrow> no_credentials rq1"
  using assms
  by (auto simp: next_request_def no_credentials_simps split: option.splits if_splits)

lemma follow_cases:
  obtains (stop) "fst (follow server url n hop rq) = [rq]"
  | (hop) rs rq1 where "n - hop = Suc (n - Suc hop)" "next_request url rq rs = Inr (Some rq1)"
      "fst (follow server url n hop rq) = rq # fst (follow server url n (Suc hop) rq1)"
proof (cases "server hop rq")
  case (Inl e)
  then show ?thesis using stop by (simp add: follow.simps [of server url n hop rq])
next
  case (Inr rs)
  show ?thesis
  proof (cases "hop < n \<and> rs_status_code rs \<in> set redirect_codes
      \<and> (\<exists>rq1. next_request url rq rs = Inr (Some rq1))")
    case True
    then obtain rq1 where "hop < n" "rs_status_code rs \<in> set redirect_codes"
      "next_request url rq rs = Inr (Some rq1)" by blast
    then show ?thesis
      using hop [of rs rq1] Inr by (simp add: follow.simps [of server url n hop rq] split_beta Suc_diff_Suc)
  next
    case False
    then show ?thesis
      using stop Inr by (auto simp: follow.simps [of server url n hop rq] split: sum.splits option.splits)
  qed
qed

text \<open>Induction over the hops.\<close>

lemma follow_induct [case_names stop hop]:
  assumes "\<And>hop rq. fst (follow server url n hop rq) = [rq] \<Longrightarrow> P hop rq [rq]"
    and "\<And>hop rq rs rq1 rqs. n - hop = Suc (n - Suc hop) \<Longrightarrow> next_request url rq rs = Inr (Some rq1) \<Longrightarrow>
      P (Suc hop) rq1 (rq1 # rqs) \<Longrightarrow> P hop rq (rq # rq1 # rqs)"
  shows "P hop rq (fst (follow server url n hop rq))"
proof -
  have first: "\<exists>rqs. fst (follow server url n hop rq) = rq # rqs" for hop rq
    by (cases rule: follow_cases [of server url n hop rq]) auto
  show ?thesis
  proof (induction "n - hop" arbitrary: hop rq)
    case 0
    then show ?case by (cases rule: follow_cases [of server url n hop rq]) (use assms(1) in auto)
  next
    case (Suc l)
    show ?case
    proof (cases rule: follow_cases [of server url n hop rq])
      case stop
      then show ?thesis using assms(1) by simp
    next
      case (hop rs rq1)
      obtain rqs where rqs: "fst (follow server url n (Suc hop) rq1) = rq1 # rqs" using first by metis
      then have "P (Suc hop) rq1 (rq1 # rqs)" using Suc.hyps(1) [of "Suc hop" rq1] Suc.hyps(2) hop(1) by simp
      then show ?thesis using assms(2) hop rqs by simp
    qed
  qed
qed

lemma follow_length: "length (fst (follow server url n hop rq)) \<le> Suc (n - hop)"
  by (rule follow_induct [where P = "\<lambda>hop rq rqs. length rqs \<le> Suc (n - hop)"]) auto

lemma follow_hd: "hd (fst (follow server url n hop rq)) = rq"
  by (rule follow_induct [where P = "\<lambda>hop rq rqs. hd rqs = rq"]) auto

lemma follow_not_ssrf: "list_all (\<lambda>r. \<not> is_ssrf_target (rq_url r)) (tl (fst (follow server url n hop rq)))"
  by (rule follow_induct [where P = "\<lambda>hop rq rqs. list_all (\<lambda>r. \<not> is_ssrf_target (rq_url r)) (tl rqs)"])
    (auto dest: next_request_facts(1))

text \<open>As long as the origin stays, the request keeps its credentials; then they are gone.\<close>

lemma follow_credentials:
  "url_origin (rq_url rq) = url_origin url \<longrightarrow>
     list_all no_credentials (dropWhile (\<lambda>r. url_origin (rq_url r) = url_origin url)
       (fst (follow server url n hop rq)))"
  (is "?same rq \<longrightarrow> ?kept (fst (follow server url n hop rq))")
proof -
  have "(?same rq \<longrightarrow> ?kept (fst (follow server url n hop rq)))
      \<and> (no_credentials rq \<longrightarrow> list_all no_credentials (fst (follow server url n hop rq)))"
  proof (rule follow_induct [where P = "\<lambda>hop rq rqs.
        (?same rq \<longrightarrow> ?kept rqs) \<and> (no_credentials rq \<longrightarrow> list_all no_credentials rqs)"])
    fix hop rq rs rq1 rqs
    assume nr: "next_request url rq rs = Inr (Some rq1)"
      and IH: "(?same rq1 \<longrightarrow> ?kept (rq1 # rqs)) \<and> (no_credentials rq1 \<longrightarrow> list_all no_credentials (rq1 # rqs))"
    then show "(?same rq \<longrightarrow> ?kept (rq # rq1 # rqs))
        \<and> (no_credentials rq \<longrightarrow> list_all no_credentials (rq # rq1 # rqs))"
      using next_request_facts(2,3) [OF nr] by (cases "?same rq1") auto
  qed simp
  then show ?thesis by blast
qed

text \<open>The texts the form accepts: codes and ranges of codes, separated by commas.\<close>

datatype code_item = Code nat | Range nat nat

fun show_item :: "code_item \<Rightarrow> string" where
  "show_item (Code n) = nat_str n"
| "show_item (Range a b) = nat_str a @ CHR ''-'' # nat_str b"

fun item_codes :: "code_item \<Rightarrow> int set" where
  "item_codes (Code n) = {int n}"
| "item_codes (Range a b) = {int a..int b}"

lemma nat_str_not: "\<not> is_dec c \<Longrightarrow> c \<notin> set (nat_str n)"
  using nat_str_digits by blast

lemma sep_not_dec: "\<not> is_dec (CHR ''-'')" "\<not> is_dec (CHR '','')" "\<not> is_dec (CHR '' '')"
  by code_simp+

lemma nat_str_ends: "is_dec (hd (nat_str n))" "is_dec (last (nat_str n))"
  using nat_str_digits [OF hd_in_set [OF nat_str_not_Nil]] nat_str_digits [OF last_in_set [OF nat_str_not_Nil]]
  by simp_all

lemma strip_nat_str: "strip (nat_str n) = nat_str n"
  by (rule strip_id [OF nat_str_not_Nil is_dec_not_space is_dec_not_space]) (rule nat_str_ends)+

lemma show_item_ends:
  "show_item i \<noteq> []" "is_dec (hd (show_item i))" "is_dec (last (show_item i))"
  by (cases i; simp add: nat_str_not_Nil nat_str_ends hd_append)+

lemma part_codes_item: "set (part_codes (show_item i)) = item_codes i"
proof -
  have "strip (show_item i) = show_item i"
    by (rule strip_id [OF show_item_ends(1) is_dec_not_space is_dec_not_space]) (rule show_item_ends)+
  then show ?thesis
    using nat_str_not [OF sep_not_dec(1)]
    by (cases i) (auto simp: part_codes_def split_first_append split_first_None_iff [THEN iffD2]
        py_int_nat_str strip_nat_str)
qed

section \<open>Properties\<close>

text \<open>Proved as well: redirects keep credentials at home. Whatever the servers answer, a probe sends at most six
  requests (one when redirects are off), the first to the configured URL; none after it goes to a
  blocked target; and from the first request that leaves the configured origin on, no request
  carries basic credentials or an \<open>Authorization\<close> header, not even one that comes back.\<close>

theorem redirects_keep_credentials_home:
  "let sent = fst (perform_check str text server ms c) in
     hd sent = build_request str c
     \<and> length sent \<le> (if pc_follow_redirects c then 6 else 1)
     \<and> list_all (\<lambda>r. \<not> is_ssrf_target (rq_url r)) (tl sent)
     \<and> list_all no_credentials (dropWhile (\<lambda>r. url_origin (rq_url r) = url_origin (pc_url c)) sent)"
proof -
  have url: "rq_url (build_request str c) = pc_url c"
    by (auto simp: build_request_def add_auth_def Let_def split: json_column.splits pyval.splits option.splits)
  have fst: "fst (perform_check str text server ms c) =
      fst (follow server (pc_url c) (if pc_follow_redirects c then 5 else 0) 0 (build_request str c))"
    by (simp add: perform_check_def split_beta)
  show ?thesis
    unfolding fst Let_def
    using follow_hd follow_not_ssrf follow_length [of server "pc_url c" "if pc_follow_redirects c then 5 else 0" 0]
      follow_credentials [of "build_request str c" "pc_url c"] url
    by auto
qed

text \<open>Proved as well: expected codes are read as written. A text of codes and ranges separated by commas stands
  for the union of what is listed; when that is empty, as for a range written backwards, it stands
  for 200 alone.\<close>

theorem expected_codes_as_written:
  assumes "items \<noteq> []"
  shows "parse_status_codes (join_on (CHR '','') (map show_item items)) =
    (let codes = \<Union> (set (map item_codes items)) in if codes = {} then {200} else codes)"
proof -
  have "\<forall>x \<in> set (map show_item items). CHR '','' \<notin> set x"
  proof
    fix x assume "x \<in> set (map show_item items)"
    then obtain i where "x = show_item i" by auto
    then show "CHR '','' \<notin> set x" using nat_str_not [OF sep_not_dec(2)] by (cases i) auto
  qed
  then have "split_on (CHR '','') (join_on (CHR '','') (map show_item items)) = map show_item items"
    using assms by (intro split_join) auto
  moreover have "set (concat (map part_codes (map show_item items))) = \<Union> (set (map item_codes items))"
    using part_codes_item by auto
  ultimately show ?thesis
    unfolding parse_status_codes_def Let_def by (metis set_empty)
qed

theorem expected_codes_as_written_witness:
  "parse_status_codes (join_on (CHR '','') (map show_item [Range 299 200])) = {200}"
  using expected_codes_as_written [of "[Range 299 200]"] by simp

end
