(* ===== verification/Sessions.thy ===== *)
theory Sessions
  imports PyText "HOL-Library.Multiset"
begin

text \<open>
  Cookie sessions (\<open>backend/auth/cookie_sessions.py\<close>): the cached timeout and the session store.
  The signer of \<open>itsdangerous\<close> is a parameter; every operation reads the clock once. The lock makes
  each operation one step. The loading of the signing secret is not modelled.
\<close>

section \<open>The timeout\<close>

record timeout_cache =
  tc_value :: int
  tc_expires_at :: time

definition new_timeout_cache :: timeout_cache where
  "new_timeout_cache = \<lparr>tc_value = 24, tc_expires_at = 0\<rparr>"

definition SESSION_TIMEOUT_CACHE_TTL :: time where
  "SESSION_TIMEOUT_CACHE_TTL = secs 60"

text \<open>\<open>setting\<close>: what the database answers; \<open>None\<close> when it fails or has no value.\<close>

definition get_session_timeout_hours :: "time \<Rightarrow> int option \<Rightarrow> timeout_cache \<Rightarrow> int \<times> timeout_cache" where
  "get_session_timeout_hours now setting c =
     (if now < tc_expires_at c then (tc_value c, c)
      else case setting of
        Some h \<Rightarrow> (h, \<lparr>tc_value = h, tc_expires_at = now + SESSION_TIMEOUT_CACHE_TTL\<rparr>)
      | None \<Rightarrow> (tc_value c, c\<lparr>tc_expires_at := now + SESSION_TIMEOUT_CACHE_TTL\<rparr>))"

definition invalidate_session_timeout_cache :: "timeout_cache \<Rightarrow> timeout_cache" where
  "invalidate_session_timeout_cache c = c\<lparr>tc_expires_at := 0\<rparr>"

definition cookie_max_age :: "int \<Rightarrow> int" where
  "cookie_max_age hours = (if hours = 0 then 86400 * 400 else hours * 3600)"

definition hours :: "int \<Rightarrow> time" where
  "hours h = secs (h * 3600)"

section \<open>The store\<close>

record session =
  s_user_id :: int
  s_username :: string
  s_display_name :: string
  s_client_ip :: string
  s_created_at :: time
  s_last_accessed :: time

type_synonym store = "(string, session) pydict"

definition MAX_SESSIONS_PER_USER :: nat where
  "MAX_SESSIONS_PER_USER = 10"

definition SIGNATURE_MAX_AGE_CEILING :: int where
  "SIGNATURE_MAX_AGE_CEILING = 86400 * 400"

definition expired :: "time \<Rightarrow> time \<Rightarrow> session \<Rightarrow> bool" where
  "expired now timeout s = (now - s_created_at s > timeout)"

definition cleanup_expired_sessions_unsafe :: "time \<Rightarrow> time \<Rightarrow> store \<Rightarrow> nat \<times> store" where
  "cleanup_expired_sessions_unsafe now timeout d =
     (let gone = map fst (filter (\<lambda>(i, s). expired now timeout s) d) in (length gone, ddel_all gone d))"

definition cleanup_expired_sessions :: "time \<Rightarrow> int \<Rightarrow> store \<Rightarrow> nat \<times> store" where
  "cleanup_expired_sessions now timeout_hours d =
     (if timeout_hours = 0 then (0, d) else cleanup_expired_sessions_unsafe now (hours timeout_hours) d)"

definition sessions_of :: "int \<Rightarrow> store \<Rightarrow> store" where
  "sessions_of user_id d = filter (\<lambda>(i, s). s_user_id s = user_id) d"

definition evict_oldest :: "int \<Rightarrow> store \<Rightarrow> store" where
  "evict_oldest user_id d =
     (let us = sessions_of user_id d in
      if length us \<ge> MAX_SESSIONS_PER_USER
      then ddel_all (map fst (take (length us - MAX_SESSIONS_PER_USER + 1)
             (sort_key (\<lambda>(i, s). s_created_at s) us))) d
      else d)"

text \<open>\<open>create_session\<close>: \<open>Inl\<close> when the server is full. The caller signs the new identifier.\<close>

definition create_session ::
    "nat \<Rightarrow> time \<Rightarrow> int \<Rightarrow> string \<Rightarrow> int \<Rightarrow> string \<Rightarrow> string \<Rightarrow> string option \<Rightarrow> store \<Rightarrow> (store, store) res" where
  "create_session max_sessions now timeout_hours session_id user_id username client_ip display_name d =
     (let d1 = evict_oldest user_id d;
          d2 = (if length d1 \<ge> max_sessions \<and> timeout_hours > 0
                then snd (cleanup_expired_sessions_unsafe now (hours timeout_hours) d1) else d1);
          shown = (case display_name of None \<Rightarrow> username | Some n \<Rightarrow> if n = [] then username else n)
      in if length d1 \<ge> max_sessions \<and> length d2 \<ge> max_sessions then Inl d2
         else Inr (dset session_id \<lparr>s_user_id = user_id, s_username = username, s_display_name = shown,
                s_client_ip = client_ip, s_created_at = now, s_last_accessed = now\<rparr> d2))"

datatype signature_error = SignatureExpired | BadSignature

record session_view =
  v_user_id :: int
  v_username :: string
  v_display_name :: string
  v_session_id :: string

type_synonym loads = "string \<Rightarrow> int \<Rightarrow> (signature_error, string) res" \<comment> \<open>token, maximal age in seconds\<close>

definition validate_session ::
    "loads \<Rightarrow> time \<Rightarrow> int \<Rightarrow> string \<Rightarrow> int option \<Rightarrow> store \<Rightarrow> session_view option \<times> store" where
  "validate_session loads now timeout_hours token max_age_seconds d =
     (if token = [] then (None, d)
      else
        let never_expire = (timeout_hours = 0);
            max_age = (if never_expire then SIGNATURE_MAX_AGE_CEILING
                       else case max_age_seconds of
                         Some a \<Rightarrow> if a = 0 then timeout_hours * 3600 else a
                       | None \<Rightarrow> timeout_hours * 3600)
        in case loads token max_age of
             Inl e \<Rightarrow> (None, d)
           | Inr i \<Rightarrow>
               (case dget d i of
                  None \<Rightarrow> (None, d)
                | Some s \<Rightarrow>
                    if \<not> never_expire \<and> expired now (hours timeout_hours) s then (None, ddel i d)
                    else (Some \<lparr>v_user_id = s_user_id s, v_username = s_username s,
                                v_display_name = s_display_name s, v_session_id = i\<rparr>,
                          dset i (s\<lparr>s_last_accessed := now\<rparr>) d)))"

definition delete_session :: "loads \<Rightarrow> string \<Rightarrow> store \<Rightarrow> bool \<times> store" where
  "delete_session loads token d =
     (case loads token SIGNATURE_MAX_AGE_CEILING of
        Inl e \<Rightarrow> (False, d)
      | Inr i \<Rightarrow> if dhas d i then (True, ddel i d) else (False, d))"

definition update_session_username :: "loads \<Rightarrow> string \<Rightarrow> string \<Rightarrow> store \<Rightarrow> bool \<times> store" where
  "update_session_username loads token new_username d =
     (case loads token SIGNATURE_MAX_AGE_CEILING of
        Inl e \<Rightarrow> (False, d)
      | Inr i \<Rightarrow> (case dget d i of
            None \<Rightarrow> (False, d)
          | Some s \<Rightarrow> (True, dset i (s\<lparr>s_username := new_username\<rparr>) d)))"

definition delete_sessions_for_user :: "int \<Rightarrow> string option \<Rightarrow> store \<Rightarrow> nat \<times> store" where
  "delete_sessions_for_user user_id exclude d =
     (let gone = map fst (filter (\<lambda>(i, s). s_user_id s = user_id \<and> Some i \<noteq> exclude) d)
      in (length gone, ddel_all gone d))"

definition get_active_session_count :: "store \<Rightarrow> nat" where
  "get_active_session_count d = length d"

section \<open>Steps\<close>

datatype session_op =
    Create time int string int string string "string option"
  | Validate loads time int string "int option"
  | Delete loads string
  | Rename loads string string
  | DeleteFor int "string option"
  | Cleanup time int

fun session_step :: "nat \<Rightarrow> store \<Rightarrow> session_op \<Rightarrow> store" where
  "session_step n d (Create now th i u name ip shown) =
     (case create_session n now th i u name ip shown d of Inl d' \<Rightarrow> d' | Inr d' \<Rightarrow> d')"
| "session_step n d (Validate loads now th tok a) = snd (validate_session loads now th tok a d)"
| "session_step n d (Delete loads tok) = snd (delete_session loads tok d)"
| "session_step n d (Rename loads tok name) = snd (update_session_username loads tok name d)"
| "session_step n d (DeleteFor u x) = snd (delete_sessions_for_user u x d)"
| "session_step n d (Cleanup now th) = snd (cleanup_expired_sessions now th d)"

section \<open>Lemmas\<close>

lemma ddel_eq: "ddel i d = filter (\<lambda>(k, v). k \<noteq> i) d"
  by (auto simp: AList.delete_eq intro!: filter_cong)

text \<open>What an operation leaves: entries that were there, perhaps touched, and perhaps a new one.\<close>

definition same_owner :: "session \<Rightarrow> session \<Rightarrow> bool" where
  "same_owner s s' = (s_user_id s = s_user_id s' \<and> s_created_at s = s_created_at s')"

lemma evict_subset: "set (evict_oldest u d) \<subseteq> set d"
  by (auto simp: evict_oldest_def ddel_all_eq Let_def)

lemma cleanup_subset: "set (snd (cleanup_expired_sessions_unsafe now t d)) \<subseteq> set d"
  by (auto simp: cleanup_expired_sessions_unsafe_def ddel_all_eq Let_def)

lemma step_entries:
  assumes "(i, s) \<in> set (session_step n d op)"
  shows "(\<exists>s0. (i, s0) \<in> set d \<and> same_owner s0 s)
    \<or> (\<exists>now th name ip shown. op = Create now th i (s_user_id s) name ip shown)"
proof (cases op)
  case (Create now th j u name ip shown)
  have sub: "set (snd (cleanup_expired_sessions_unsafe now t (evict_oldest u d))) \<subseteq> set d" for t
    using cleanup_subset evict_subset by blast
  from assms show ?thesis
    unfolding Create session_step.simps create_session_def Let_def
    using sub [of "hours th"] evict_subset [of u d]
    by (auto simp: same_owner_def split: if_splits dest!: set_dset)
next
  case (Validate loads now th tok a)
  then show ?thesis
    using assms
    by (auto simp: validate_session_def same_owner_def Let_def split: if_splits sum.splits option.splits
        dest!: set_dset set_ddel dest: map_of_SomeD)
next
  case (Delete loads tok)
  then show ?thesis
    using assms
    by (auto simp: delete_session_def same_owner_def split: if_splits sum.splits dest!: set_ddel)
next
  case (Rename loads tok name)
  then show ?thesis
    using assms
    by (auto simp: update_session_username_def same_owner_def split: sum.splits option.splits
        dest!: set_dset dest: map_of_SomeD)
next
  case (DeleteFor u x)
  then show ?thesis
    using assms by (auto simp: delete_sessions_for_user_def ddel_all_eq same_owner_def Let_def)
next
  case (Cleanup now th)
  then show ?thesis
    using assms cleanup_subset [of now "hours th" d]
    by (auto simp: cleanup_expired_sessions_def same_owner_def split: if_splits)
qed

text \<open>Counting the sessions of a user.\<close>

lemma sessions_of_filter: "sessions_of u (filter P d) = filter P (sessions_of u d)"
  by (simp add: sessions_of_def conj_commute)

lemma count_dset:
  "length (sessions_of u (dset i s d)) \<le> length (sessions_of u d) + (if s_user_id s = u then 1 else 0)"
  by (induction d) (auto simp: sessions_of_def)

lemma count_touch:
  "dget d i = Some s \<Longrightarrow> s_user_id s' = s_user_id s \<Longrightarrow>
     length (sessions_of u (dset i s' d)) = length (sessions_of u d)"
  by (induction d) (auto simp: sessions_of_def split: if_splits)

lemma length_touch: "dget d i = Some s \<Longrightarrow> length (dset i s' d) = length d"
  by (simp add: length_dset dhas_def)

text \<open>Deleting the keys of the first entries of a sorted list with distinct keys.\<close>

lemma evicted_count:
  assumes "distinct (map fst us)"
  shows "length (filter (\<lambda>(i, s). i \<notin> set (map fst (take k (sort_key f us)))) us) = length us - k"
proof -
  let ?xs = "sort_key f us" and ?P = "\<lambda>(i, s). i \<notin> set (map fst (take k (sort_key f us)))"
  have "mset (map fst ?xs) = mset (map fst us)" by simp
  then have d: "distinct (map fst ?xs)" using assms by (metis mset_eq_imp_distinct_iff)
  have "length (filter ?P us) = length (filter ?P ?xs)"
    by (metis mset_filter mset_sort size_mset)
  also have "filter ?P ?xs = filter ?P (take k ?xs) @ filter ?P (drop k ?xs)"
    by (metis append_take_drop_id filter_append)
  also have "filter ?P (take k ?xs) = []" by (force simp: filter_empty_conv)
  also have "filter ?P (drop k ?xs) = drop k ?xs"
  proof -
    have "distinct (map fst (take k ?xs) @ map fst (drop k ?xs))" using d by (metis append_take_drop_id map_append)
    then have "fst p \<notin> fst ` set (take k ?xs)" if "p \<in> set (drop k ?xs)" for p using that by auto
    then show ?thesis by (force simp: filter_id_conv)
  qed
  finally show ?thesis by simp
qed

lemma wf_sessions_of: "wf_dict d \<Longrightarrow> distinct (map fst (sessions_of u d))"
  by (simp add: sessions_of_def wf_dict_def distinct_map_filter)

lemma evict_count:
  assumes "wf_dict d"
  shows "length (sessions_of u (evict_oldest u d)) \<le> 9"
  using evicted_count [OF wf_sessions_of [OF assms, of u], of "Suc (length (sessions_of u d) - 10)"
      "\<lambda>(i, s). s_created_at s"]
  by (auto simp: evict_oldest_def ddel_all_eq sessions_of_filter MAX_SESSIONS_PER_USER_def Let_def
      simp del: set_map)

definition sessions_ok :: "nat \<Rightarrow> store \<Rightarrow> bool" where
  "sessions_ok n d = (wf_dict d \<and> length d \<le> n \<and> (\<forall>u. length (sessions_of u d) \<le> 10))"

lemma sessions_ok_filter: "sessions_ok n d \<Longrightarrow> sessions_ok n (filter P d)"
  by (auto simp: sessions_ok_def sessions_of_filter wf_dict_def distinct_map_filter
      intro: order_trans [OF length_filter_le])

lemma sessions_ok_touch:
  "sessions_ok n d \<Longrightarrow> dget d i = Some s \<Longrightarrow> s_user_id s' = s_user_id s \<Longrightarrow> sessions_ok n (dset i s' d)"
  by (simp add: sessions_ok_def count_touch length_touch)

lemma create_ok:
  assumes "sessions_ok n d"
  shows "sessions_ok n (session_step n d (Create now th i u name ip shown))"
proof -
  let ?d1 = "evict_oldest u d"
  have d1: "sessions_ok n ?d1" "length (sessions_of u ?d1) \<le> 9"
    using assms sessions_ok_filter evict_count
    by (auto simp: evict_oldest_def ddel_all_eq sessions_ok_def Let_def)
  have sub: "sessions_ok n (filter P ?d1)" "length (sessions_of u (filter P ?d1)) \<le> 9" for P
    using d1 sessions_ok_filter le_trans [OF length_filter_le [of P "sessions_of u ?d1"]]
    by (auto simp: sessions_of_filter)
  have new: "sessions_ok n (dset i s e)"
    if e: "sessions_ok n e" "length (sessions_of u e) \<le> 9" "length e < n" and s: "s_user_id s = u" for e s
  proof -
    have "length (sessions_of v (dset i s e)) \<le> 10" for v
      using count_dset [of v i s e] e(1,2) s by (cases "v = u") (auto simp: sessions_ok_def intro: le_trans)
    then show ?thesis using e by (auto simp: sessions_ok_def length_dset)
  qed
  have "\<exists>P. snd (cleanup_expired_sessions_unsafe now t ?d1) = filter P ?d1" for t
    by (auto simp: cleanup_expired_sessions_unsafe_def ddel_all_eq Let_def)
  then obtain P where P: "snd (cleanup_expired_sessions_unsafe now (hours th) ?d1) = filter P ?d1" by blast
  show ?thesis
    using d1 sub [of P] new [of ?d1] new [of "filter P ?d1"]
    by (auto simp: create_session_def P Let_def)
qed

lemma step_ok: "sessions_ok n d \<Longrightarrow> sessions_ok n (session_step n d op)"
proof (cases op)
  case (Validate loads now th tok a)
  then show "sessions_ok n d \<Longrightarrow> ?thesis"
    by (auto simp: validate_session_def ddel_eq Let_def sessions_ok_filter sessions_ok_touch
        split: sum.splits option.splits)
next
  case (Rename loads tok name)
  then show "sessions_ok n d \<Longrightarrow> ?thesis"
    by (auto simp: update_session_username_def sessions_ok_touch split: sum.splits option.splits)
qed (auto simp: create_ok delete_session_def delete_sessions_for_user_def cleanup_expired_sessions_def
    cleanup_expired_sessions_unsafe_def ddel_all_eq ddel_eq sessions_ok_filter Let_def split: sum.splits
    simp del: session_step.simps(1))

interpretation session_store: machine "session_step n" "sessions_ok n"
  by unfold_locales (rule step_ok)

section \<open>The store without the expired sessions\<close>

definition live :: "time \<Rightarrow> time \<Rightarrow> store \<Rightarrow> store" where
  "live timeout now d = filter (\<lambda>(i, s). \<not> expired now timeout s) d"

text \<open>The specification works on the live sessions only: eleven sessions of a user are too many, the
  oldest goes; a full store refuses.\<close>

definition spec_evict :: "int \<Rightarrow> store \<Rightarrow> store" where
  "spec_evict user_id d =
     (if length (sessions_of user_id d) < MAX_SESSIONS_PER_USER then d
      else ddel (fst (hd (sort_key (\<lambda>(i, s). s_created_at s) (sessions_of user_id d)))) d)"

definition spec_create :: "nat \<Rightarrow> string \<Rightarrow> session \<Rightarrow> store \<Rightarrow> (store, store) res" where
  "spec_create max_sessions i s d =
     (let d1 = spec_evict (s_user_id s) d
      in if length d1 \<ge> max_sessions then Inl d1 else Inr (d1 @ [(i, s)]))"

definition spec_validate :: "loads \<Rightarrow> time \<Rightarrow> int \<Rightarrow> string \<Rightarrow> store \<Rightarrow> session_view option \<times> store" where
  "spec_validate loads now max_age token d =
     (case loads token max_age of
        Inl e \<Rightarrow> (None, d)
      | Inr i \<Rightarrow> (case dget d i of
            None \<Rightarrow> (None, d)
          | Some s \<Rightarrow> (Some \<lparr>v_user_id = s_user_id s, v_username = s_username s,
                v_display_name = s_display_name s, v_session_id = i\<rparr>,
              dset i (s\<lparr>s_last_accessed := now\<rparr>) d)))"

lemma live_dget:
  "wf_dict d \<Longrightarrow> dget (live t now d) i =
     (case dget d i of None \<Rightarrow> None | Some s \<Rightarrow> if expired now t s then None else Some s)"
proof (induction d)
  case (Cons p d)
  then have "wf_dict d" "fst p \<notin> fst ` set d" by (auto simp: wf_dict_def)
  moreover have "dget d (fst p) = None" using calculation(2) by (simp add: map_of_eq_None_iff)
  ultimately show ?case using Cons.IH by (cases p) (auto simp: live_def split: option.splits)
qed (simp add: live_def)

lemma live_touch:
  "dget d i = Some s \<Longrightarrow> expired now t s' = expired now t s \<Longrightarrow> \<not> expired now t s \<Longrightarrow>
     live t now (dset i s' d) = dset i s' (live t now d)"
  by (induction d) (auto simp: live_def split: if_splits)

lemma live_drop_expired:
  "wf_dict d \<Longrightarrow> dget d i = Some s \<Longrightarrow> expired now t s \<Longrightarrow> live t now (ddel i d) = live t now d"
  by (auto simp: live_def ddel_eq wf_dict_dget [symmetric] wf_dict_def
      intro!: filter_cong) (metis map_of_is_SomeI option.inject)

lemma live_simps [simp]:
  "live t now (ddel k d) = ddel k (live t now d)"
  "live t now (live t now d) = live t now d"
  "live t now (d @ [(i, s)]) = live t now d @ (if expired now t s then [] else [(i, s)])"
  by (simp_all add: live_def ddel_eq conj_commute)

lemma length_live: "length (live t now d) \<le> length d"
  by (simp add: live_def)

lemma cleanup_live:
  assumes "wf_dict d"
  shows "snd (cleanup_expired_sessions_unsafe now t d) = live t now d"
proof -
  have "k \<in> set (map fst (filter (\<lambda>(i, s). expired now t s) d)) \<longleftrightarrow> expired now t v" if "(k, v) \<in> set d" for k v
    using that wf_dict_dget [OF assms] by force
  then show ?thesis
    unfolding cleanup_expired_sessions_unsafe_def live_def Let_def ddel_all_eq snd_conv
    by (intro filter_cong) auto
qed

lemma dset_new: "\<not> dhas d i \<Longrightarrow> dset i s d = d @ [(i, s)]"
  by (induction d) (auto simp: dhas_def split: if_splits)

lemma sort_key_hd:
  assumes "p \<in> set us"
  shows "hd (sort_key f us) \<in> set us \<and> f (hd (sort_key f us)) \<le> f p"
proof -
  obtain x xs where x: "sort_key f us = x # xs" using assms by (cases "sort_key f us") (auto dest: arg_cong [of _ _ set])
  then have "x \<in> set us" "p \<in> set (x # xs)" using assms by (metis list.set_intros(1) set_sort)+
  moreover have "sorted (map f (x # xs))" using sorted_sort_key [of f us] x by simp
  ultimately show ?thesis using x by auto
qed

lemma evict_refines:
  assumes "sessions_ok n d"
  shows "live t now (evict_oldest u d) = spec_evict u (live t now d)"
proof -
  let ?us = "sessions_of u d" and ?f = "\<lambda>(i, s). s_created_at s" and ?P = "\<lambda>(i, s). \<not> expired now t s"
  have wf: "wf_dict d" and L: "length ?us \<le> 10" using assms by (auto simp: sessions_ok_def)
  have us: "sessions_of u (live t now d) = filter ?P ?us" by (simp add: live_def sessions_of_filter)
  show ?thesis
  proof (cases "length ?us < 10")
    case True
    then have "length (filter ?P ?us) < 10" by (rule le_less_trans [OF length_filter_le])
    then show ?thesis
      using True by (simp add: evict_oldest_def spec_evict_def us MAX_SESSIONS_PER_USER_def Let_def)
  next
    case False
    with L have ten: "length ?us = 10" by simp
    let ?k = "fst (hd (sort_key ?f ?us))"
    have "length (sort_key ?f ?us) = 10" using ten by simp
    then have "take 1 (sort_key ?f ?us) = [hd (sort_key ?f ?us)]" by (cases "sort_key ?f ?us") auto
    then have evict: "evict_oldest u d = ddel ?k d"
      using ten by (simp add: evict_oldest_def MAX_SESSIONS_PER_USER_def ddel_all_eq ddel_eq Let_def)
    show ?thesis
    proof (cases "list_all ?P ?us")
      case True
      then have "filter ?P ?us = ?us" by (simp add: filter_id_conv list_all_iff)
      then show ?thesis
        using ten by (simp add: evict spec_evict_def us MAX_SESSIONS_PER_USER_def)
    next
      case False
      then obtain p where p: "p \<in> set ?us" "\<not> ?P p" by (auto simp: list_all_iff)
      have "length (filter ?P ?us) < 10" using length_filter_less [of p ?us ?P] p ten by simp
      moreover obtain k s where ks: "hd (sort_key ?f ?us) = (k, s)" by fastforce
      moreover have "(k, s) \<in> set ?us" "s_created_at s \<le> ?f p"
        using sort_key_hd [OF p(1), of ?f] ks by auto
      then have "(k, s) \<in> set d" "expired now t s" using p by (auto simp: sessions_of_def expired_def split_beta)
      then have "live t now (ddel k d) = live t now d"
        using live_drop_expired [OF wf, of k s] wf_dict_dget [OF wf] by simp
      ultimately show ?thesis by (simp add: evict spec_evict_def us MAX_SESSIONS_PER_USER_def)
    qed
  qed
qed

section \<open>Properties\<close>

text \<open>C14: the session limits hold. Along any run of logins, requests, logouts, renames, revocations and
  cleanups, the store never holds more than its maximum, nor more than ten sessions of a user.\<close>

theorem session_limits:
  "let d = run (session_step n) [] ops in
     length d \<le> n \<and> length (filter (\<lambda>(i, s). s_user_id s = u) d) \<le> 10"
  using session_store.run_inv [of n "[]" ops]
  by (simp add: sessions_ok_def sessions_of_def Let_def)

text \<open>C13: expired sessions are as good as gone. The store removes expired sessions only when it
  stumbles on them. Seen through its live sessions it behaves like a store that never keeps an
  expired one: a login evicts the user's oldest live session when ten are live and refuses exactly
  when the maximum is live, and a request is accepted exactly when its session is live.\<close>

theorem store_refines_live_store:
  assumes "sessions_ok n d" and "0 < th" and "\<not> dhas d i"
  shows "map_sum (live (hours th) now) (live (hours th) now) (create_session n now th i u name ip (Some shown) d) =
      spec_create n i \<lparr>s_user_id = u, s_username = name, s_display_name = (if shown = [] then name else shown),
        s_client_ip = ip, s_created_at = now, s_last_accessed = now\<rparr> (live (hours th) now d)
    \<and> map_prod id (live (hours th) now) (validate_session loads now th (c # tok) None d) =
      spec_validate loads now (th * 3600) (c # tok) (live (hours th) now d)"
proof
  let ?t = "hours th" and ?d1 = "evict_oldest u d"
  let ?s = "\<lparr>s_user_id = u, s_username = name, s_display_name = (if shown = [] then name else shown),
        s_client_ip = ip, s_created_at = now, s_last_accessed = now\<rparr>"
  have wf: "wf_dict d" using assms(1) by (simp add: sessions_ok_def)
  have wf1: "wf_dict ?d1" using wf by (auto simp: evict_oldest_def Let_def)
  have clean: "snd (cleanup_expired_sessions_unsafe now ?t ?d1) = live ?t now ?d1" using cleanup_live [OF wf1] .
  have er: "live ?t now ?d1 = spec_evict u (live ?t now d)" by (rule evict_refines [OF assms(1)])
  then have er2: "live ?t now (spec_evict u (live ?t now d)) = spec_evict u (live ?t now d)"
    by (metis live_simps(2))
  have t0: "\<not> expired now ?t ?s" using assms(2) by (simp add: expired_def hours_def secs_def)
  have new: "\<not> dhas ?d1 i" "\<not> dhas (live ?t now ?d1) i"
    using assms(3) evict_subset [of u d] by (auto simp: dhas_iff_set live_def)
  show "map_sum (live ?t now) (live ?t now) (create_session n now th i u name ip (Some shown) d) =
      spec_create n i ?s (live ?t now d)"
    using assms(2) t0 new length_live [of ?t now ?d1] unfolding er
    by (simp add: create_session_def spec_create_def clean er er2 dset_new Let_def)
  show "map_prod id (live ?t now) (validate_session loads now th (c # tok) None d) =
      spec_validate loads now (th * 3600) (c # tok) (live ?t now d)"
    using assms(2) live_dget [OF wf, of ?t now] live_touch [of d _ _ now ?t] live_drop_expired [OF wf, of _ _ now ?t]
    by (auto simp: validate_session_def spec_validate_def expired_def Let_def split: sum.split option.split)
qed

definition old_session :: session where
  "old_session = \<lparr>s_user_id = 1, s_username = ''ann'', s_display_name = ''Ann'', s_client_ip = ''10.0.0.1'',
     s_created_at = 0, s_last_accessed = 0\<rparr>"

theorem store_refines_live_store_witness:
  "map_sum (live (hours 1) (hours 2)) (live (hours 1) (hours 2))
     (create_session 1 (hours 2) 1 ''s2'' 2 ''bob'' ''10.0.0.2'' (Some ''Bob'') [(''s1'', old_session)]) =
   Inr [(''s2'', \<lparr>s_user_id = 2, s_username = ''bob'', s_display_name = ''Bob'', s_client_ip = ''10.0.0.2'',
     s_created_at = hours 2, s_last_accessed = hours 2\<rparr>)]"
proof -
  have "sessions_ok 1 [(''s1'', old_session)]"
    by (auto simp: sessions_ok_def wf_dict_def sessions_of_def)
  moreover have "\<not> dhas [(''s1'', old_session)] ''s2''" by (simp add: dhas_def)
  ultimately have "sessions_ok 1 [(''s1'', old_session)]" "\<not> dhas [(''s1'', old_session)] ''s2''" by simp_all
  from conjunct1 [OF store_refines_live_store [OF this(1) _ this(2), of 1 "hours 2" 2 "''bob''" "''10.0.0.2''" "''Bob''"]]
  show ?thesis
    by (simp add: spec_create_def spec_evict_def live_def expired_def old_session_def hours_def secs_def
        sessions_of_def MAX_SESSIONS_PER_USER_def)
qed

text \<open>C15: a revoked session stays out. After all sessions of a user but one are deleted, and whatever
  happens then short of a new login of that user, no token is accepted as that user's except one
  that names the spared session.\<close>

theorem revoked_sessions_stay_out:
  assumes "list_all (\<lambda>op. case op of Create now th i u' name ip shown \<Rightarrow> u' \<noteq> u | _ \<Rightarrow> True) ops"
    and "validate_session loads now th tok a
      (run (session_step n) (snd (delete_sessions_for_user u spared d)) ops) = (Some v, d')"
    and "v_user_id v = u"
  shows "Some (v_session_id v) = spared"
proof -
  let ?ok = "\<lambda>d. \<forall>(i, s) \<in> set d. s_user_id s = u \<longrightarrow> Some i = spared"
  have "?ok (run (session_step n) e ops)" if "?ok e" for e
    using assms(1) that
  proof (induction ops arbitrary: e)
    case (Cons op ops)
    have "?ok (session_step n e op)"
      using step_entries [of _ _ n e op] Cons.prems by (fastforce simp: same_owner_def)
    then show ?case using Cons by simp
  qed simp
  moreover have "?ok (snd (delete_sessions_for_user u spared d))"
    by (auto simp: delete_sessions_for_user_def ddel_all_eq Let_def image_iff)
  ultimately have ok: "?ok (run (session_step n) (snd (delete_sessions_for_user u spared d)) ops)" by blast
  show ?thesis
    using assms(2,3) ok
    by (auto simp: validate_session_def Let_def split: if_splits sum.splits option.splits dest!: map_of_SomeD)
qed

theorem revoked_sessions_stay_out_witness:
  "map_option v_session_id (fst (validate_session (\<lambda>tok a. Inr tok) 1 24 ''s1'' None
     (run (session_step 9) (snd (delete_sessions_for_user 1 (Some ''s1'')
       [(''s1'', old_session), (''s2'', old_session)])) [Cleanup 1 24]))) = Some ''s1''"
proof -
  let ?r = "validate_session (\<lambda>tok a. Inr tok) 1 24 ''s1'' None
     (run (session_step 9) (snd (delete_sessions_for_user 1 (Some ''s1'')
       [(''s1'', old_session), (''s2'', old_session)])) [Cleanup 1 24])"
  have "map_option v_user_id (fst ?r) = Some 1" by code_simp
  then obtain v where v: "fst ?r = Some v" "v_user_id v = 1" by auto
  then have "?r = (Some v, snd ?r)" by (metis prod.collapse)
  from revoked_sessions_stay_out [OF _ this v(2)] v(1) show ?thesis by simp
qed

end
