(* ===== verification/ClientIp.thy ===== *)
theory ClientIp
  imports PyUrl
begin

text \<open>
  The client and the public origin of a request behind proxies (\<open>backend/utils/client_ip.py\<close>,
  \<open>base_path.py\<close>). Headers are a dictionary with lower-case names; the configuration is an argument.
\<close>

section \<open>Requests\<close>

record incoming =
  in_headers :: "(string, string) pydict"
  in_client_host :: "string option"
  in_url_scheme :: string
  in_url_netloc :: string

record proxy_config =
  REVERSE_PROXY_MODE :: bool
  TRUSTED_PROXY_COUNT :: nat
  CORS_ORIGINS :: "string option"

datatype proxy_error = IndexError | ValueError

text \<open>A header that is present and not empty.\<close>

definition header :: "incoming \<Rightarrow> string \<Rightarrow> string option" where
  "header rq name = (case dget (in_headers rq) name of None \<Rightarrow> None | Some v \<Rightarrow> if v = [] then None else Some v)"

section \<open>The client\<close>

definition forwarded_parts :: "string \<Rightarrow> string list" where
  "forwarded_parts xff = filter (\<lambda>p. p \<noteq> []) (map strip (split_on (CHR '','') xff))"

definition peer :: "incoming \<Rightarrow> string" where
  "peer rq = (case in_client_host rq of None \<Rightarrow> ''unknown'' | Some h \<Rightarrow> h)"

definition get_client_ip :: "proxy_config \<Rightarrow> incoming \<Rightarrow> (proxy_error, string) res" where
  "get_client_ip cfg rq =
     (if REVERSE_PROXY_MODE cfg then
        (case header rq ''x-forwarded-for'' of
           Some xff \<Rightarrow>
             let parts = forwarded_parts xff; hops = TRUSTED_PROXY_COUNT cfg
             in if length parts > hops then Inr (parts ! (length parts - (hops + 1)))
                else (case parts of [] \<Rightarrow> Inl IndexError | p # _ \<Rightarrow> Inr p)
         | None \<Rightarrow>
             (case header rq ''x-real-ip'' of
                Some real_ip \<Rightarrow> Inr (strip real_ip)
              | None \<Rightarrow> Inr (peer rq)))
      else
        (case header rq ''x-real-ip'' of
           Some real_ip \<Rightarrow> Inr (strip real_ip)
         | None \<Rightarrow> Inr (peer rq)))"

section \<open>Declared origins\<close>

definition DEFAULT_PORTS :: "string \<Rightarrow> string option" where
  "DEFAULT_PORTS = [''http'' \<mapsto> ''80'', ''https'' \<mapsto> ''443'']"

definition parse_origin :: "string \<Rightarrow> (proxy_error, (string \<times> string) option) res" where
  "parse_origin raw =
     (case urlsplit (strip raw) of
        None \<Rightarrow> Inl ValueError
      | Some (scheme, netloc) \<Rightarrow> Inr (if scheme \<noteq> [] \<and> netloc \<noteq> [] then Some (scheme, netloc) else None))"

definition get_cors_origin_parts :: "proxy_config \<Rightarrow> (proxy_error, (string \<times> string) option) res" where
  "get_cors_origin_parts cfg =
     (case CORS_ORIGINS cfg of
        None \<Rightarrow> Inr None
      | Some origins \<Rightarrow> if origins = [] then Inr None else parse_origin (hd (split_on (CHR '','') origins)))"

fun parse_origins :: "string list \<Rightarrow> (proxy_error, (string \<times> string) list) res" where
  "parse_origins [] = Inr []"
| "parse_origins (raw # rest) =
     res_bind (parse_origin raw) (\<lambda>p. res_bind (parse_origins rest) (\<lambda>ps.
       Inr (case p of None \<Rightarrow> ps | Some o' \<Rightarrow> o' # ps)))"

definition iter_cors_origins :: "proxy_config \<Rightarrow> (proxy_error, (string \<times> string) list) res" where
  "iter_cors_origins cfg =
     (case CORS_ORIGINS cfg of
        None \<Rightarrow> Inr []
      | Some origins \<Rightarrow> if origins = [] then Inr [] else parse_origins (split_on (CHR '','') origins))"

section \<open>Hosts and ports\<close>

definition split_host_port :: "string \<Rightarrow> string \<times> string option" where
  "split_host_port netloc =
     (if starts_with netloc ''['' then
        (case split_first (CHR '']'') netloc of
           None \<Rightarrow> (netloc, None)
         | Some (a, rest) \<Rightarrow>
             (a @ '']'', if starts_with rest '':'' \<and> tl rest \<noteq> [] then Some (tl rest) else None))
      else if count_list netloc (CHR '':'') = 1 then
        (case split_first (CHR '':'') netloc of
           None \<Rightarrow> (netloc, None)
         | Some (host, port) \<Rightarrow> (host, if port = [] then None else Some port))
      else (netloc, None))"

definition strip_implicit_port :: "string \<Rightarrow> string \<Rightarrow> string" where
  "strip_implicit_port netloc scheme =
     (let (host, port) = split_host_port netloc
      in if port \<noteq> None \<and> port = DEFAULT_PORTS scheme then host else netloc)"

definition forwarded_port :: "incoming \<Rightarrow> (proxy_error, string option) res" where
  "forwarded_port rq =
     (case header rq ''x-forwarded-port'' of
        None \<Rightarrow> Inr None
      | Some raw \<Rightarrow>
          let port = strip (hd (split_on (CHR '','') raw))
          in if \<not> (port \<noteq> [] \<and> list_all is_digit port) then Inr None
             else (case py_int port of
                     None \<Rightarrow> Inl ValueError
                   | Some n \<Rightarrow> Inr (if \<not> (1 \<le> n \<and> n \<le> 65535) \<or> port \<in> {''80'', ''443''} then None else Some port)))"

definition cors_origin_port :: "(string \<times> string) list \<Rightarrow> string \<Rightarrow> string \<Rightarrow> string option" where
  "cors_origin_port origins host scheme =
     (case find (\<lambda>(s, netloc). let (h, p) = split_host_port netloc in
            p \<noteq> None \<and> s = scheme \<and> py_lower h = py_lower host \<and> p \<noteq> DEFAULT_PORTS scheme) origins of
        None \<Rightarrow> None
      | Some (s, netloc) \<Rightarrow> snd (split_host_port netloc))"

definition declared_origin_netloc :: "(string \<times> string) list \<Rightarrow> string \<Rightarrow> string option" where
  "declared_origin_netloc origins scheme =
     (case find (\<lambda>(s, netloc). s = scheme) origins of
        Some (s, netloc) \<Rightarrow> Some netloc
      | None \<Rightarrow> (case origins of [] \<Rightarrow> None | (s, netloc) # _ \<Rightarrow> Some netloc))"

definition is_declared_host :: "(string \<times> string) list \<Rightarrow> string \<Rightarrow> bool" where
  "is_declared_host origins host =
     (origins = [] \<or> list_ex (\<lambda>(s, netloc). py_lower (fst (split_host_port netloc)) = py_lower host) origins)"

definition restore_public_port :: "proxy_config \<Rightarrow> string \<Rightarrow> incoming \<Rightarrow> string \<Rightarrow> (proxy_error, string) res" where
  "restore_public_port cfg netloc rq scheme =
     (let (host, port) = split_host_port netloc
      in if port \<noteq> None then Inr (strip_implicit_port netloc scheme)
         else if CHR '':'' \<in> set host \<and> \<not> starts_with host ''['' then Inr netloc
         else res_bind (forwarded_port rq) (\<lambda>p.
           res_bind (if p \<noteq> None then Inr p
               else res_bind (iter_cors_origins cfg) (\<lambda>origins. Inr (cors_origin_port origins host scheme)))
             (\<lambda>p. Inr (case p of None \<Rightarrow> netloc | Some port \<Rightarrow> host @ '':'' @ port))))"

section \<open>The public origin\<close>

definition first_value :: "string \<Rightarrow> string" where
  "first_value v = strip (hd (split_on (CHR '','') v))"

definition get_request_scheme :: "proxy_config \<Rightarrow> incoming \<Rightarrow> (proxy_error, string) res" where
  "get_request_scheme cfg rq =
     (if REVERSE_PROXY_MODE cfg then
        res_bind (get_cors_origin_parts cfg) (\<lambda>parts.
          if (case parts of None \<Rightarrow> False | Some (s, _) \<Rightarrow> s = ''https'') then Inr ''https''
          else (case header rq ''x-forwarded-proto'' of
                  Some proto \<Rightarrow> Inr (py_lower (first_value proto))
                | None \<Rightarrow> (case parts of Some (s, _) \<Rightarrow> Inr s | None \<Rightarrow> Inr (in_url_scheme rq))))
      else (case header rq ''x-forwarded-proto'' of
              Some proto \<Rightarrow> Inr (py_lower (first_value proto))
            | None \<Rightarrow> Inr (in_url_scheme rq)))"

definition host_header :: "incoming \<Rightarrow> string" where
  "host_header rq = (case dget (in_headers rq) ''host'' of None \<Rightarrow> in_url_netloc rq | Some h \<Rightarrow> h)"

definition get_request_host :: "proxy_config \<Rightarrow> incoming \<Rightarrow> string option \<Rightarrow> (proxy_error, string) res" where
  "get_request_host cfg rq scheme =
     (if REVERSE_PROXY_MODE cfg then
        res_bind (case scheme of None \<Rightarrow> get_request_scheme cfg rq | Some s \<Rightarrow> Inr s) (\<lambda>scheme.
        res_bind (iter_cors_origins cfg) (\<lambda>origins.
          let from_declared =
            (case declared_origin_netloc origins scheme of
               Some declared \<Rightarrow> Inr (strip_implicit_port declared scheme)
             | None \<Rightarrow> restore_public_port cfg (host_header rq) rq scheme)
          in case header rq ''x-forwarded-host'' of
               None \<Rightarrow> from_declared
             | Some forwarded_host \<Rightarrow>
                 let netloc = first_value forwarded_host
                 in if is_declared_host origins (fst (split_host_port netloc))
                    then restore_public_port cfg netloc rq scheme
                    else from_declared))
      else Inr (host_header rq))"

text \<open>\<open>re.sub\<close> of runs of slashes.\<close>

fun squeeze_slashes :: "string \<Rightarrow> string" where
  "squeeze_slashes (a # b # s) =
     (if a = CHR ''/'' \<and> b = CHR ''/'' then squeeze_slashes (b # s) else a # squeeze_slashes (b # s))"
| "squeeze_slashes s = s"

definition sanitize_base_path :: "string option \<Rightarrow> string" where
  "sanitize_base_path path =
     (case path of
        None \<Rightarrow> ''/''
      | Some p \<Rightarrow>
          if strip p = [] then ''/''
          else
            let q = squeeze_slashes (strip p);
                q = (if starts_with q ''/'' then q else CHR ''/'' # q)
            in if ends_with q ''/'' then q else q @ ''/'')"

definition get_base_path :: "string option \<Rightarrow> string" where
  "get_base_path env = sanitize_base_path (case env of None \<Rightarrow> Some ''/'' | Some v \<Rightarrow> Some v)"

definition build_public_url :: "proxy_config \<Rightarrow> string option \<Rightarrow> incoming \<Rightarrow> string \<Rightarrow> (proxy_error, string) res" where
  "build_public_url cfg base rq path =
     res_bind (get_request_scheme cfg rq) (\<lambda>scheme.
     res_bind (get_request_host cfg rq (Some scheme)) (\<lambda>host.
       Inr (scheme @ ''://'' @ host @ rstrip_char (CHR ''/'') (get_base_path base) @ path)))"

section \<open>Lemmas\<close>

lemma split_on_append_all: "split_on c (a @ c # b) = split_on c a @ split_on c b"
proof (induction a)
  case (Cons x a)
  show ?case
  proof (cases "x = c")
    case False
    obtain y ys where "split_on c a = y # ys" by (cases "split_on c a") auto
    with Cons False show ?thesis by simp
  qed (use Cons in simp)
qed simp

lemma forwarded_parts_append: "forwarded_parts (a @ CHR '','' # b) = forwarded_parts a @ forwarded_parts b"
  by (simp add: forwarded_parts_def split_on_append_all)

lemma forwarded_parts_join:
  "xs \<noteq> [] \<Longrightarrow> \<forall>x \<in> set xs. CHR '','' \<notin> set x \<and> strip x \<noteq> [] \<Longrightarrow>
     forwarded_parts (join_on (CHR '','') xs) = map strip xs"
  by (simp add: forwarded_parts_def split_join filter_id_conv)

lemma lower_char_eq_bracket:
  assumes "ccode b \<in> {91, 93}"
  shows "lower_char c = b \<longleftrightarrow> c = b"
proof
  assume l: "lower_char c = b"
  show "c = b"
  proof (rule ccontr)
    assume "c \<noteq> b"
    with l have u: "is_upper_ascii c \<or> (192 \<le> ccode c \<and> ccode c \<le> 222 \<and> ccode c \<noteq> 215)"
      and "char_of (ccode c + 32) = b"
      by (auto simp: lower_char_def Let_def split: if_splits)
    then have "ccode c + 32 = ccode b + 256 * ((ccode c + 32) div 256)"
      by (metis ccode_def mod_mult_div_eq of_char_of)
    then show False using u assms by (auto simp: ccode_def is_upper_ascii_def)
  qed
qed (use assms in \<open>auto simp: lower_char_def is_upper_ascii_def\<close>)

lemma lower_brackets [simp]:
  "lower_char c = CHR ''['' \<longleftrightarrow> c = CHR ''[''" "lower_char c = CHR '']'' \<longleftrightarrow> c = CHR '']''"
  by (rule lower_char_eq_bracket; simp add: ccode_def)+

lemma lower_has_bracket: "py_lower h = py_lower h' \<Longrightarrow> CHR '']'' \<in> set h \<longleftrightarrow> CHR '']'' \<in> set h'"
proof -
  have "CHR '']'' \<in> set h \<longleftrightarrow> CHR '']'' \<in> set (py_lower h)" for h
    by (induction h) (auto simp: py_lower_def eq_commute [of "CHR '']''"])
  then show "py_lower h = py_lower h' \<Longrightarrow> CHR '']'' \<in> set h \<longleftrightarrow> CHR '']'' \<in> set h'" by metis
qed

lemma lower_starts_bracket: "py_lower h = py_lower h' \<Longrightarrow> starts_with h ''['' \<longleftrightarrow> starts_with h' ''[''"
proof -
  have "starts_with h ''['' \<longleftrightarrow> starts_with (py_lower h) ''[''" for h
    by (cases h) (auto simp: starts_with_def py_lower_def)
  then show "py_lower h = py_lower h' \<Longrightarrow> starts_with h ''['' \<longleftrightarrow> starts_with h' ''[''" by metis
qed

text \<open>A host: bracketed, or not split any further.\<close>

definition plain_host :: "string \<Rightarrow> bool" where
  "plain_host h =
     (if starts_with h ''['' then (\<exists>a. h = a @ '']'' \<and> CHR '']'' \<notin> set a) else count_list h (CHR '':'') \<noteq> 1)"

definition closed_netloc :: "string \<Rightarrow> bool" where
  "closed_netloc n = (starts_with n ''['' \<longrightarrow> CHR '']'' \<in> set n)"

lemma host_is_plain:
  assumes "closed_netloc n"
  shows "plain_host (fst (split_host_port n))" "starts_with (fst (split_host_port n)) ''['' = starts_with n ''[''"
proof -
  have "plain_host (fst (split_host_port n)) \<and> starts_with (fst (split_host_port n)) ''['' = starts_with n ''[''"
  proof (cases "starts_with n ''[''")
    case True
    with assms obtain a r where s: "split_first (CHR '']'') n = Some (a, r)"
      by (cases "split_first (CHR '']'') n") (auto simp: closed_netloc_def)
    then have n: "n = a @ CHR '']'' # r" "CHR '']'' \<notin> set a" by (auto simp: split_first_Some_iff)
    with True have "starts_with (a @ '']'') ''[''" by (cases a) (auto simp: starts_with_def)
    with n s True show ?thesis by (auto simp: split_host_port_def plain_host_def)
  next
    case False
    show ?thesis
    proof (cases "count_list n (CHR '':'') = 1")
      case True
      then have "CHR '':'' \<in> set n" by (metis count_list_0_iff zero_neq_one)
      then obtain a r where s: "split_first (CHR '':'') n = Some (a, r)"
        by (cases "split_first (CHR '':'') n") auto
      then have n: "n = a @ CHR '':'' # r" "CHR '':'' \<notin> set a" by (auto simp: split_first_Some_iff)
      with False have "\<not> starts_with a ''[''" by (cases a) (auto simp: starts_with_def)
      with n s True False show ?thesis by (simp add: split_host_port_def plain_host_def count_list_0_iff)
    qed (use False in \<open>simp add: split_host_port_def plain_host_def\<close>)
  qed
  then show "plain_host (fst (split_host_port n))" "starts_with (fst (split_host_port n)) ''['' = starts_with n ''[''"
    by simp_all
qed

lemma plain_host_fixed: "plain_host h \<Longrightarrow> fst (split_host_port h) = h"
  by (auto simp: plain_host_def split_host_port_def split_first_append split: if_splits)

lemma plain_host_port:
  assumes "plain_host h" and "p \<noteq> []" and "starts_with h ''['' \<or> CHR '':'' \<notin> set h \<and> CHR '':'' \<notin> set p"
  shows "fst (split_host_port (h @ '':'' @ p)) = h"
proof (cases "starts_with h ''[''")
  case True
  with assms(1) obtain a where a: "h = a @ '']''" "CHR '']'' \<notin> set a" by (auto simp: plain_host_def)
  from True have "starts_with (h @ '':'' @ p) ''[''" by (cases h) (auto simp: starts_with_def)
  with a assms(2) show ?thesis by (simp add: split_host_port_def split_first_append)
next
  case False
  with assms(3) have c: "CHR '':'' \<notin> set h" "CHR '':'' \<notin> set p" by auto
  have "\<not> starts_with (h @ '':'' @ p) ''[''" using False by (cases h) (auto simp: starts_with_def)
  moreover have "count_list (h @ '':'' @ p) (CHR '':'') = 1" using c by (simp add: count_list_0_iff)
  ultimately show ?thesis using c by (simp add: split_host_port_def split_first_append)
qed

lemma split_port:
  "snd (split_host_port n) = Some p \<Longrightarrow> p \<noteq> [] \<and> (starts_with n ''['' \<or> CHR '':'' \<notin> set p)"
proof (cases "starts_with n ''[''")
  case False
  assume p: "snd (split_host_port n) = Some p"
  with False have c: "count_list n (CHR '':'') = 1" by (auto simp: split_host_port_def split: if_splits)
  with p False obtain a where "split_first (CHR '':'') n = Some (a, p)" "p \<noteq> []"
    by (auto simp: split_host_port_def split: option.splits if_splits)
  then have n: "n = a @ CHR '':'' # p" "CHR '':'' \<notin> set a" "p \<noteq> []" by (auto simp: split_first_Some_iff)
  with c have "count_list p (CHR '':'') = 0" by (simp add: count_list_0_iff)
  with n show ?thesis by (simp add: count_list_0_iff)
qed (auto simp: split_host_port_def split: option.splits if_splits)

lemma parse_origin_closed: "parse_origin raw = Inr (Some (s, n)) \<Longrightarrow> closed_netloc n"
proof -
  assume "parse_origin raw = Inr (Some (s, n))"
  then have "(CHR ''['' \<in> set n) = (CHR '']'' \<in> set n)"
    by (auto simp: parse_origin_def urlsplit_def Let_def split: option.splits prod.splits if_splits)
  then show ?thesis by (cases n) (auto simp: closed_netloc_def starts_with_def)
qed

lemma parse_origins_closed: "parse_origins raws = Inr os \<Longrightarrow> (s, n) \<in> set os \<Longrightarrow> closed_netloc n"
  by (induction raws arbitrary: os) (auto split: option.splits dest: parse_origin_closed)

lemma iter_origins_closed: "iter_cors_origins cfg = Inr os \<Longrightarrow> (s, n) \<in> set os \<Longrightarrow> closed_netloc n"
  by (auto simp: iter_cors_origins_def split: option.splits if_splits intro: parse_origins_closed)

lemma strip_implicit_host: "closed_netloc n \<Longrightarrow> fst (split_host_port (strip_implicit_port n sch)) = fst (split_host_port n)"
  using host_is_plain(1) [of n] by (auto simp: strip_implicit_port_def plain_host_fixed split: prod.split)

lemma forwarded_port_plain: "forwarded_port rq = Inr (Some p) \<Longrightarrow> p \<noteq> [] \<and> CHR '':'' \<notin> set p"
  by (auto simp: forwarded_port_def Let_def list_all_iff is_digit_def is_dec_def ccode_def
      split: option.splits if_splits)

lemma restore_host:
  assumes "restore_public_port cfg n rq sch = Inr r" and "iter_cors_origins cfg = Inr os" and n: "closed_netloc n"
  shows "fst (split_host_port r) = fst (split_host_port n)"
proof -
  obtain h po where hp: "split_host_port n = (h, po)" by (cases "split_host_port n")
  have h: "plain_host h" using host_is_plain(1) [OF n] hp by simp
  have port: "p \<noteq> [] \<and> (starts_with h ''['' \<or> CHR '':'' \<notin> set p)" if "cors_origin_port os h sch = Some p" for p
  proof -
    from that obtain s m where "find (\<lambda>(s, netloc). let (h', p) = split_host_port netloc in
        p \<noteq> None \<and> s = sch \<and> py_lower h' = py_lower h \<and> p \<noteq> DEFAULT_PORTS sch) os = Some (s, m)"
      and p: "snd (split_host_port m) = Some p"
      by (auto simp: cors_origin_port_def split: option.splits)
    then have m: "(s, m) \<in> set os" "py_lower (fst (split_host_port m)) = py_lower h"
      by (auto simp: split_beta Let_def dest!: find_SomeD)
    have "closed_netloc m" using iter_origins_closed [OF assms(2) m(1)] .
    with host_is_plain(2) [of m] lower_starts_bracket [OF m(2)] split_port [OF p] show ?thesis by simp
  qed
  show ?thesis
  proof (cases "po \<noteq> None \<or> (CHR '':'' \<in> set h \<and> \<not> starts_with h ''['')")
    case True
    then show ?thesis
      using assms(1) strip_implicit_host [OF n] hp by (auto simp: restore_public_port_def split: if_splits)
  next
    case False
    then obtain p where "r = (case p of None \<Rightarrow> n | Some port \<Rightarrow> h @ '':'' @ port)"
      "\<And>x. p = Some x \<Longrightarrow> x \<noteq> [] \<and> (starts_with h ''['' \<or> CHR '':'' \<notin> set x)"
      using assms(1,2) port forwarded_port_plain [of rq]
      by (auto simp: restore_public_port_def hp split: if_splits)
    with False plain_host_port [OF h] hp show ?thesis by (cases p) auto
  qed
qed

section \<open>Properties\<close>

text \<open>C16: a client cannot forge its address. Behind the configured number of trusted proxies the address
  taken from \<open>X-Forwarded-For\<close> is the one the outermost trusted proxy saw, whatever the client put
  in front of it.\<close>

theorem forged_prefix_ignored:
  assumes "REVERSE_PROXY_MODE cfg" and "length trusted = TRUSTED_PROXY_COUNT cfg"
    and "list_all (\<lambda>p. CHR '','' \<notin> set p \<and> strip p \<noteq> []) (client # trusted)"
    and "header rq ''x-forwarded-for'' = Some (forged @ '','' @ join_on (CHR '','') (client # trusted))"
  shows "get_client_ip cfg rq = Inr (strip client)"
proof -
  have "forwarded_parts (forged @ '','' @ join_on (CHR '','') (client # trusted)) =
      forwarded_parts forged @ strip client # map strip trusted"
    using forwarded_parts_join [of "client # trusted"] assms(3)
    by (simp add: forwarded_parts_append list_all_iff)
  with assms(1,2,4) show ?thesis by (simp add: get_client_ip_def Let_def nth_append)
qed

definition behind_one :: proxy_config where
  "behind_one = \<lparr>REVERSE_PROXY_MODE = True, TRUSTED_PROXY_COUNT = 1, CORS_ORIGINS = Some ''https://mon.example.org:8443''\<rparr>"

definition forged_request :: incoming where
  "forged_request = \<lparr>in_headers = [(''x-forwarded-for'', ''10.0.0.1,203.0.113.5,172.18.0.2''),
       (''x-forwarded-host'', ''evil.example.org'')],
     in_client_host = Some ''172.18.0.2'', in_url_scheme = ''http'', in_url_netloc = ''dockmon:8080''\<rparr>"

theorem forged_prefix_ignored_witness: "get_client_ip behind_one forged_request = Inr ''203.0.113.5''"
  using forged_prefix_ignored [of behind_one "[''172.18.0.2'']" "''203.0.113.5''" forged_request "''10.0.0.1''"]
  by (simp add: behind_one_def forged_request_def header_def strip_def lstrip_def rstrip_def is_space_def ccode_def Let_def)



lemma commas_only_raise:
  "get_client_ip behind_one (forged_request\<lparr>in_headers := [(''x-forwarded-for'', '','')]\<rparr>) = Inl IndexError"
  "forwarded_port (forged_request\<lparr>in_headers := [(''x-forwarded-port'', [char_of (178 :: nat)])]\<rparr>) = Inl ValueError"
  by code_simp+

end
