(* ===== verification/Access.thy ===== *)
theory Access
  imports Keys "HOL-Library.List_Lexorder" "HOL-Library.Char_ord"
begin

text \<open>
  Who may do what and see which hosts (\<open>backend/auth/api_key_auth.py\<close>): the tables of users, groups,
  permissions and host scopes, the three in-memory caches over them, and every question the routes
  ask through those caches. A table is the list of its rows in row order; the audit columns
  (who created a row, and when) are left out. Each operation holds its cache's lock, so it is one step.
\<close>

section \<open>Tables\<close>

record user_row =
  u_id :: int
  u_username :: string
  u_password_hash :: string
  u_display_name :: "string option"
  u_email :: "string option"
  u_role :: string
  u_auth_provider :: string
  u_is_first_login :: bool
  u_must_change_password :: bool
  u_approved :: bool

record group_row =
  g_id :: int
  g_name :: string
  g_description :: "string option"
  g_is_system :: bool

record perm_row =
  p_group_id :: int
  p_capability :: string
  p_allowed :: bool

record key_row =
  k_id :: int
  k_group_id :: int
  k_created_by_user_id :: "int option"
  k_name :: string
  k_description :: "string option"
  k_key_hash :: string
  k_key_prefix :: string
  k_allowed_ips :: "string option"
  k_last_used_at :: "time option"
  k_usage_count :: nat
  k_expires_at :: "time option"
  k_revoked_at :: "time option"

text \<open>Memberships are pairs of user and group, scopes pairs of group and tag, assignments triples of
  tag, type of subject and subject.\<close>

record auth_db =
  db_users :: "user_row list"
  db_groups :: "group_row list"
  db_perms :: "perm_row list"
  db_members :: "(int \<times> int) list"
  db_scopes :: "(int \<times> string) list"
  db_tags :: "string list"
  db_assignments :: "(string \<times> string \<times> string) list"
  db_keys :: "key_row list"

section \<open>Caches\<close>

record auth_cache =
  gp_cache :: "(int, (string, bool) pydict) pydict"
  gp_loaded :: bool
  ug_cache :: "(int, int list) pydict"
  ts_cache :: "(int, string set) pydict"
  ts_loaded :: bool

definition empty_auth_cache :: auth_cache where
  "empty_auth_cache = \<lparr>gp_cache = [], gp_loaded = False, ug_cache = [], ts_cache = [], ts_loaded = False\<rparr>"

definition cache_perm :: "perm_row \<Rightarrow> (int, (string, bool) pydict) pydict \<Rightarrow> (int, (string, bool) pydict) pydict" where
  "cache_perm p d =
     (let own = (case dget d (p_group_id p) of None \<Rightarrow> [] | Some own \<Rightarrow> own)
      in dset (p_group_id p) (dset (p_capability p) (p_allowed p) own) d)"

definition load_group_permissions_cache :: "auth_db \<Rightarrow> auth_cache \<Rightarrow> auth_cache" where
  "load_group_permissions_cache db c =
     (if gp_loaded c then c
      else c\<lparr>gp_cache := fold cache_perm (db_perms db) [], gp_loaded := True\<rparr>)"

definition invalidate_group_permissions_cache :: "auth_cache \<Rightarrow> auth_cache" where
  "invalidate_group_permissions_cache c = c\<lparr>gp_cache := [], gp_loaded := False\<rparr>"

definition invalidate_user_groups_cache :: "int option \<Rightarrow> auth_cache \<Rightarrow> auth_cache" where
  "invalidate_user_groups_cache user_id c =
     (case user_id of
        None \<Rightarrow> c\<lparr>ug_cache := []\<rparr>
      | Some u \<Rightarrow> if dhas (ug_cache c) u then c\<lparr>ug_cache := ddel u (ug_cache c)\<rparr> else c)"

definition cache_scope :: "int \<times> string \<Rightarrow> (int, string set) pydict \<Rightarrow> (int, string set) pydict" where
  "cache_scope r d =
     (let own = (case dget d (fst r) of None \<Rightarrow> {} | Some own \<Rightarrow> own)
      in dset (fst r) (insert (snd r) own) d)"

definition load_group_tag_scopes_cache :: "auth_db \<Rightarrow> auth_cache \<Rightarrow> auth_cache" where
  "load_group_tag_scopes_cache db c = c\<lparr>ts_cache := fold cache_scope (db_scopes db) [], ts_loaded := True\<rparr>"

definition invalidate_group_tag_scopes_cache :: "auth_cache \<Rightarrow> auth_cache" where
  "invalidate_group_tag_scopes_cache c = c\<lparr>ts_cache := [], ts_loaded := False\<rparr>"

section \<open>Questions\<close>

text \<open>A question is answered from a cache that it may fill; a list of questions threads the cache.\<close>

fun ask_each :: "('c \<Rightarrow> 'q \<Rightarrow> 'a \<times> 'c) \<Rightarrow> 'c \<Rightarrow> 'q list \<Rightarrow> 'a list \<times> 'c" where
  "ask_each f c [] = ([], c)"
| "ask_each f c (q # qs) = (let (a, c1) = f c q; (rest, c2) = ask_each f c1 qs in (a # rest, c2))"

fun ask_any :: "('c \<Rightarrow> 'q \<Rightarrow> bool \<times> 'c) \<Rightarrow> 'c \<Rightarrow> 'q list \<Rightarrow> bool \<times> 'c" where
  "ask_any f c [] = (False, c)"
| "ask_any f c (q # qs) = (let (a, c1) = f c q in if a then (True, c1) else ask_any f c1 qs)"

definition has_capability_for_group :: "auth_db \<Rightarrow> string \<Rightarrow> auth_cache \<Rightarrow> int \<Rightarrow> bool \<times> auth_cache" where
  "has_capability_for_group db capability c group_id =
     (let c = load_group_permissions_cache db c;
          group_perms = (case dget (gp_cache c) group_id of None \<Rightarrow> [] | Some own \<Rightarrow> own)
      in (case dget group_perms capability of None \<Rightarrow> False | Some allowed \<Rightarrow> allowed, c))"

definition get_user_group_ids :: "auth_db \<Rightarrow> auth_cache \<Rightarrow> int \<Rightarrow> int list \<times> auth_cache" where
  "get_user_group_ids db c user_id =
     (case dget (ug_cache c) user_id of
        Some ids \<Rightarrow> (ids, c)
      | None \<Rightarrow> let ids = map snd (filter (\<lambda>(u, g). u = user_id) (db_members db))
                in (ids, c\<lparr>ug_cache := dset user_id ids (ug_cache c)\<rparr>))"

definition has_capability_for_user :: "auth_db \<Rightarrow> string \<Rightarrow> auth_cache \<Rightarrow> int \<Rightarrow> bool \<times> auth_cache" where
  "has_capability_for_user db capability c user_id =
     (let (ids, c) = get_user_group_ids db c user_id
      in ask_any (has_capability_for_group db capability) c ids)"

definition get_capabilities_for_group :: "auth_db \<Rightarrow> auth_cache \<Rightarrow> int \<Rightarrow> string list \<times> auth_cache" where
  "get_capabilities_for_group db c group_id =
     (let c = load_group_permissions_cache db c;
          group_perms = (case dget (gp_cache c) group_id of None \<Rightarrow> [] | Some own \<Rightarrow> own)
      in (map fst (filter snd group_perms), c))"

definition get_capabilities_for_user :: "auth_db \<Rightarrow> auth_cache \<Rightarrow> int \<Rightarrow> string list \<times> auth_cache" where
  "get_capabilities_for_user db c user_id =
     (let (ids, c) = get_user_group_ids db c user_id;
          (found, c) = ask_each (get_capabilities_for_group db) c ids
      in (sort (remdups (concat found)), c))"

definition get_user_groups :: "auth_db \<Rightarrow> int \<Rightarrow> (int \<times> string) list" where
  "get_user_groups db user_id =
     concat (map (\<lambda>(u, g). map (\<lambda>r. (g_id r, g_name r)) (filter (\<lambda>r. g_id r = g) (db_groups db)))
       (filter (\<lambda>(u, g). u = user_id) (db_members db)))"

section \<open>Visible hosts\<close>

definition hosts_with_any_tag :: "auth_db \<Rightarrow> string set \<Rightarrow> string set" where
  "hosts_with_any_tag db tag_ids =
     (if tag_ids = {} then {}
      else set (map (\<lambda>(t, k, h). h) (filter (\<lambda>(t, k, h). k = ''host'' \<and> t \<in> tag_ids) (db_assignments db))))"

fun scope_union :: "(int, string set) pydict \<Rightarrow> int list \<Rightarrow> string set \<Rightarrow> string set option" where
  "scope_union cache [] acc = Some acc"
| "scope_union cache (g # gs) acc =
     (case dget cache g of
        None \<Rightarrow> None
      | Some scope \<Rightarrow> if scope = {} then None else scope_union cache gs (acc \<union> scope))"

text \<open>\<open>None\<close> is unrestricted, \<open>Some {}\<close> sees nothing.\<close>

definition get_visible_host_ids_for_groups :: "auth_db \<Rightarrow> auth_cache \<Rightarrow> int list \<Rightarrow> string set option \<times> auth_cache" where
  "get_visible_host_ids_for_groups db c group_ids =
     (if group_ids = [] then (Some {}, c)
      else
        let c = (if ts_loaded c then c else load_group_tag_scopes_cache db c)
        in (map_option (hosts_with_any_tag db) (scope_union (ts_cache c) group_ids {}), c))"

definition get_visible_host_ids_for_user :: "auth_db \<Rightarrow> auth_cache \<Rightarrow> int option \<Rightarrow> string set option \<times> auth_cache" where
  "get_visible_host_ids_for_user db c user_id =
     (case user_id of
        None \<Rightarrow> (Some {}, c)
      | Some u \<Rightarrow> let (ids, c) = get_user_group_ids db c u in get_visible_host_ids_for_groups db c ids)"

definition host_is_visible :: "string option \<Rightarrow> string set option \<Rightarrow> bool" where
  "host_is_visible host_id visible =
     (case visible of None \<Rightarrow> True | Some v \<Rightarrow> (case host_id of None \<Rightarrow> False | Some h \<Rightarrow> h \<in> v))"

definition filter_visible_hosts :: "('a \<Rightarrow> string option) \<Rightarrow> string set option \<Rightarrow> 'a list \<Rightarrow> 'a list" where
  "filter_visible_hosts key visible items =
     (case visible of
        None \<Rightarrow> items
      | Some v \<Rightarrow> filter (\<lambda>x. case key x of None \<Rightarrow> False | Some h \<Rightarrow> h \<in> v) items)"

section \<open>Principals\<close>

text \<open>
  What a request is authenticated as. An HTTP error is its status and the reason the code raises it
  for; the texts of the details are left out.
\<close>

datatype principal =
    SessionUser "int option" string "string option" \<comment> \<open>user, username, display name\<close>
  | KeyUser int string "int option" string "int option" string
      \<comment> \<open>key id and name, group id and name, creator's id and name\<close>

datatype reason =
    NotAuthenticated | PasswordChangeRequired | NoCapability string | HostNotFound
  | EmptyName | NameTooLong | NameCharacters | DescriptionTooLong | NameTaken
  | NoSuchGroup int | SystemGroup | HasKeys nat | LastGroupOf "string list" | CapabilityLost string
  | AlreadyMember | NotMember | LastGroup | LastAdmin | UnknownCapability string
  | BeyondOwn "string list" | UnknownTags "string list" | SameGroup
  | UserExists | EmailTaken | NoGroups | GroupsMissing "int list" | NoSuchUser | OwnAccount | OidcUser
  | NoSuchKey | BadAllowedIp string

datatype http_error = Http (status: nat) (why: reason)

definition check_auth_capability :: "auth_db \<Rightarrow> auth_cache \<Rightarrow> principal \<Rightarrow> string \<Rightarrow> bool \<times> auth_cache" where
  "check_auth_capability db c pr capability =
     (case pr of
        KeyUser _ _ group_id _ _ _ \<Rightarrow>
          (case group_id of
             None \<Rightarrow> (False, c)
           | Some g \<Rightarrow> if g = 0 then (False, c) else has_capability_for_group db capability c g)
      | SessionUser user_id _ _ \<Rightarrow>
          (case user_id of
             None \<Rightarrow> (False, c)
           | Some u \<Rightarrow> if u = 0 then (False, c) else has_capability_for_user db capability c u))"

definition get_effective_capabilities :: "auth_db \<Rightarrow> auth_cache \<Rightarrow> principal \<Rightarrow> string set \<times> auth_cache" where
  "get_effective_capabilities db c pr =
     (case pr of
        KeyUser _ _ group_id _ _ _ \<Rightarrow>
          (case group_id of
             None \<Rightarrow> ({}, c)
           | Some g \<Rightarrow> if g = 0 then ({}, c) else map_prod set id (get_capabilities_for_group db c g))
      | SessionUser user_id _ _ \<Rightarrow>
          (case user_id of
             None \<Rightarrow> ({}, c)
           | Some u \<Rightarrow> if u = 0 then ({}, c) else map_prod set id (get_capabilities_for_user db c u)))"

definition require_capability :: "string \<Rightarrow> auth_db \<Rightarrow> auth_cache \<Rightarrow> principal \<Rightarrow> (http_error, principal) res \<times> auth_cache" where
  "require_capability capability db c pr =
     (let (ok, c) = check_auth_capability db c pr capability
      in (if ok then Inr pr else Inl (Http 403 (NoCapability capability)), c))"

definition get_visible_host_ids_for_auth :: "auth_db \<Rightarrow> auth_cache \<Rightarrow> principal \<Rightarrow> string set option \<times> auth_cache" where
  "get_visible_host_ids_for_auth db c pr =
     (case pr of
        KeyUser _ _ group_id _ _ _ \<Rightarrow>
          (case group_id of
             None \<Rightarrow> (Some {}, c)
           | Some g \<Rightarrow> get_visible_host_ids_for_groups db c [g])
      | SessionUser user_id _ _ \<Rightarrow> get_visible_host_ids_for_user db c user_id)"

definition check_host_ids_visible ::
    "auth_db \<Rightarrow> auth_cache \<Rightarrow> string option list \<Rightarrow> principal \<Rightarrow> (http_error, unit) res \<times> auth_cache" where
  "check_host_ids_visible db c host_ids pr =
     (let (visible, c) = get_visible_host_ids_for_auth db c pr
      in (check_each (\<lambda>h. if host_is_visible h visible then Inr () else Inl (Http 404 HostNotFound)) host_ids, c))"

text \<open>A key that is no string is \<open>None\<close>.\<close>

definition key_host :: "string option \<Rightarrow> string option" where
  "key_host key =
     (case key of
        None \<Rightarrow> None
      | Some k \<Rightarrow> if CHR '':'' \<in> set k then Some (host_of_composite_key k) else None)"

definition check_composite_keys_visible ::
    "auth_db \<Rightarrow> auth_cache \<Rightarrow> string option list \<Rightarrow> principal \<Rightarrow> (http_error, unit) res \<times> auth_cache" where
  "check_composite_keys_visible db c keys pr = check_host_ids_visible db c (map key_host keys) pr"

definition check_host_access ::
    "auth_db \<Rightarrow> auth_cache \<Rightarrow> string option \<Rightarrow> principal \<Rightarrow> (http_error, unit) res \<times> auth_cache" where
  "check_host_access db c host_id pr = check_host_ids_visible db c [host_id] pr"

section \<open>What the tables say\<close>

text \<open>The answers without caches: what every question should return.\<close>

definition grants :: "auth_db \<Rightarrow> int \<Rightarrow> string \<Rightarrow> bool" where
  "grants db g cap = list_ex (\<lambda>p. p_group_id p = g \<and> p_capability p = cap \<and> p_allowed p) (db_perms db)"

definition groups_of :: "auth_db \<Rightarrow> int \<Rightarrow> int list" where
  "groups_of db u = map snd (filter (\<lambda>(v, g). v = u) (db_members db))"

definition user_holds :: "auth_db \<Rightarrow> int \<Rightarrow> string \<Rightarrow> bool" where
  "user_holds db u cap = list_ex (\<lambda>g. grants db g cap) (groups_of db u)"

definition sees_through :: "auth_db \<Rightarrow> int list \<Rightarrow> string \<Rightarrow> bool" where
  "sees_through db gs h =
     list_ex (\<lambda>g. \<not> list_ex (\<lambda>r. fst r = g) (db_scopes db)
        \<or> list_ex (\<lambda>(t, k, s). k = ''host'' \<and> s = h \<and> (g, t) \<in> set (db_scopes db)) (db_assignments db)) gs"

definition perms_wf :: "auth_db \<Rightarrow> bool" where
  "perms_wf db = distinct (map (\<lambda>p. (p_group_id p, p_capability p)) (db_perms db))"

text \<open>A cache agrees with the tables when each part that is loaded holds what loading would give.\<close>

definition agrees :: "auth_db \<Rightarrow> auth_cache \<Rightarrow> bool" where
  "agrees db c =
     ((gp_loaded c \<longrightarrow> gp_cache c = fold cache_perm (db_perms db) [])
    \<and> (\<forall>u gs. dget (ug_cache c) u = Some gs \<longrightarrow> gs = groups_of db u)
    \<and> (ts_loaded c \<longrightarrow> ts_cache c = fold cache_scope (db_scopes db) []))"

text \<open>
  The interface between the routes and the caches: asking keeps the agreement and returns the answer
  of the tables. Lists of questions then do too, whether all are asked or only up to the first yes.
\<close>

locale read_through =
  fixes good :: "'c \<Rightarrow> bool" and ask :: "'c \<Rightarrow> 'q \<Rightarrow> 'a \<times> 'c" and answer :: "'q \<Rightarrow> 'a"
  assumes ask_good: "good c \<Longrightarrow> good (snd (ask c q))"
    and ask_answer: "good c \<Longrightarrow> fst (ask c q) = answer q"
begin

lemma ask_eq: "good c \<Longrightarrow> \<exists>c'. ask c q = (answer q, c') \<and> good c'"
  by (metis ask_answer ask_good prod.collapse)

lemma each_eq: "good c \<Longrightarrow> \<exists>c'. ask_each ask c qs = (map answer qs, c') \<and> good c'"
proof (induction qs arbitrary: c)
  case (Cons q qs)
  from ask_eq [OF Cons.prems, of q] obtain c1 where c1: "ask c q = (answer q, c1)" "good c1" by blast
  from Cons.IH [OF c1(2)] obtain c2 where "ask_each ask c1 qs = (map answer qs, c2)" "good c2" by blast
  with c1 show ?case by simp
qed simp

end

locale yes_no = read_through good ask answer
  for good :: "'c \<Rightarrow> bool" and ask :: "'c \<Rightarrow> 'q \<Rightarrow> bool \<times> 'c" and answer :: "'q \<Rightarrow> bool"
begin

lemma any_eq: "good c \<Longrightarrow> \<exists>c'. ask_any ask c qs = (list_ex answer qs, c') \<and> good c'"
proof (induction qs arbitrary: c)
  case (Cons q qs)
  from ask_eq [OF Cons.prems, of q] obtain c1 where c1: "ask c q = (answer q, c1)" "good c1" by blast
  from Cons.IH [OF c1(2)] c1 show ?case by auto
qed simp

end

section \<open>Loading\<close>

abbreviation own :: "('k, 'a list) pydict \<Rightarrow> 'k \<Rightarrow> 'a list" where
  "own d k \<equiv> (case dget d k of None \<Rightarrow> [] | Some x \<Rightarrow> x)"

lemma dset_new_key: "\<not> dhas d k \<Longrightarrow> dset k v d = d @ [(k, v)]"
  by (induction d) (auto simp: dhas_def split: if_splits)

lemma own_cache_perm:
  "own (cache_perm p d) g = (if g = p_group_id p then dset (p_capability p) (p_allowed p) (own d g) else own d g)"
  by (simp add: cache_perm_def Let_def)

lemma own_load:
  assumes "distinct (map (\<lambda>p. (p_group_id p, p_capability p)) ps)"
    and "\<forall>p \<in> set ps. \<not> dhas (own d (p_group_id p)) (p_capability p)"
  shows "own (fold cache_perm ps d) g =
    own d g @ map (\<lambda>p. (p_capability p, p_allowed p)) (filter (\<lambda>p. p_group_id p = g) ps)"
  using assms
proof (induction ps arbitrary: d)
  case (Cons p ps)
  have "\<forall>q \<in> set ps. \<not> dhas (own (cache_perm p d) (p_group_id q)) (p_capability q)"
    using Cons.prems by (auto simp: own_cache_perm image_iff)
  then have "own (fold cache_perm ps (cache_perm p d)) g =
    own (cache_perm p d) g @ map (\<lambda>p. (p_capability p, p_allowed p)) (filter (\<lambda>p. p_group_id p = g) ps)"
    using Cons.IH [of "cache_perm p d"] Cons.prems(1) by simp
  then show ?case using Cons.prems(2) by (auto simp: own_cache_perm dset_new_key)
qed simp

lemma own_loaded:
  "perms_wf db \<Longrightarrow> own (fold cache_perm (db_perms db) []) g =
     map (\<lambda>p. (p_capability p, p_allowed p)) (filter (\<lambda>p. p_group_id p = g) (db_perms db))"
  by (subst own_load) (auto simp: perms_wf_def)

lemma wf_own:
  "perms_wf db \<Longrightarrow> wf_dict (map (\<lambda>p. (p_capability p, p_allowed p)) (filter (\<lambda>p. p_group_id p = g) (db_perms db)))"
  by (auto simp: perms_wf_def wf_dict_def distinct_map inj_on_def comp_def)

lemma dget_cache_scope:
  "dget (cache_scope r d) g =
     (if g = fst r then Some (insert (snd r) (case dget d g of None \<Rightarrow> {} | Some x \<Rightarrow> x)) else dget d g)"
  by (simp add: cache_scope_def Let_def)

lemma dget_load_scopes:
  "dget (fold cache_scope rs d) g =
     (if (\<exists>t. (g, t) \<in> set rs) \<or> dhas d g
      then Some ({t. (g, t) \<in> set rs} \<union> (case dget d g of None \<Rightarrow> {} | Some x \<Rightarrow> x)) else None)"
proof (induction rs arbitrary: d)
  case (Cons r rs)
  have "dhas (cache_scope r d) g \<longleftrightarrow> g = fst r \<or> dhas d g" by (simp add: dhas_def dget_cache_scope)
  then show ?case
    by (cases r) (auto simp: Cons.IH dget_cache_scope)
qed (auto simp: dhas_def)

lemma scope_union_eq:
  "scope_union d gs acc =
     (if \<forall>g \<in> set gs. \<exists>s. dget d g = Some s \<and> s \<noteq> {}
      then Some (acc \<union> (\<Union>g \<in> set gs. the (dget d g))) else None)"
  by (induction gs arbitrary: acc) (auto split: option.splits)

section \<open>The caches give the answers of the tables\<close>

lemma agrees_load [simp, intro]:
  "agrees db c \<Longrightarrow> agrees db (load_group_permissions_cache db c)"
  "agrees db c \<Longrightarrow> agrees db (load_group_tag_scopes_cache db c)"
  by (auto simp: agrees_def load_group_permissions_cache_def load_group_tag_scopes_cache_def)

lemma loaded_perms: "agrees db c \<Longrightarrow> gp_cache (load_group_permissions_cache db c) = fold cache_perm (db_perms db) []"
  by (auto simp: agrees_def load_group_permissions_cache_def)

interpretation group_caps: yes_no "\<lambda>c. perms_wf db \<and> agrees db c" "has_capability_for_group db cap" "\<lambda>g. grants db g cap"
  for db cap
proof unfold_locales
  fix c g assume a: "perms_wf db \<and> agrees db c"
  show "perms_wf db \<and> agrees db (snd (has_capability_for_group db cap c g))"
    using a by (simp add: has_capability_for_group_def Let_def agrees_load)
  let ?own = "map (\<lambda>p. (p_capability p, p_allowed p)) (filter (\<lambda>p. p_group_id p = g) (db_perms db))"
  have "(case dget ?own cap of None \<Rightarrow> False | Some b \<Rightarrow> b) \<longleftrightarrow> (cap, True) \<in> set ?own"
    using wf_dict_dget [OF wf_own, of db cap True g] a by (auto split: option.split)
  also have "\<dots> \<longleftrightarrow> grants db g cap" by (auto simp: grants_def list_ex_iff)
  finally show "fst (has_capability_for_group db cap c g) = grants db g cap"
    using a by (simp add: has_capability_for_group_def Let_def loaded_perms own_loaded)
qed

interpretation member_ids: read_through "\<lambda>c. perms_wf db \<and> agrees db c" "get_user_group_ids db" "groups_of db" for db
  by unfold_locales (auto simp: agrees_def get_user_group_ids_def groups_of_def Let_def split: option.splits)

interpretation user_caps: yes_no "\<lambda>c. perms_wf db \<and> agrees db c" "has_capability_for_user db cap" "\<lambda>u. user_holds db u cap"
  for db cap
proof unfold_locales
  fix c u assume a: "perms_wf db \<and> agrees db c"
  from member_ids.ask_eq [OF this, of u] obtain c1
    where c1: "get_user_group_ids db c u = (groups_of db u, c1)" "perms_wf db \<and> agrees db c1" by blast
  from group_caps.any_eq [OF c1(2), of cap "groups_of db u"] c1(1)
  show "perms_wf db \<and> agrees db (snd (has_capability_for_user db cap c u))"
    and "fst (has_capability_for_user db cap c u) = user_holds db u cap"
    by (auto simp: has_capability_for_user_def user_holds_def)
qed

definition caps_of_group :: "auth_db \<Rightarrow> int \<Rightarrow> string list" where
  "caps_of_group db g = map p_capability (filter (\<lambda>p. p_group_id p = g \<and> p_allowed p) (db_perms db))"

definition caps_of_user :: "auth_db \<Rightarrow> int \<Rightarrow> string list" where
  "caps_of_user db u = sort (remdups (concat (map (caps_of_group db) (groups_of db u))))"

lemma set_caps_of_group: "cap \<in> set (caps_of_group db g) \<longleftrightarrow> grants db g cap"
  by (auto simp: caps_of_group_def grants_def list_ex_iff)

lemma set_caps_of_user: "cap \<in> set (caps_of_user db u) \<longleftrightarrow> user_holds db u cap"
  by (auto simp: caps_of_user_def user_holds_def list_ex_iff set_caps_of_group)

interpretation group_cap_list: read_through "\<lambda>c. perms_wf db \<and> agrees db c" "get_capabilities_for_group db" "caps_of_group db"
  for db
proof unfold_locales
  fix c g assume a: "perms_wf db \<and> agrees db c"
  then show "perms_wf db \<and> agrees db (snd (get_capabilities_for_group db c g))"
    by (simp add: get_capabilities_for_group_def Let_def agrees_load)
  have "map fst (filter snd (map (\<lambda>p. (p_capability p, p_allowed p)) (filter (\<lambda>p. p_group_id p = g) ps))) =
    map p_capability (filter (\<lambda>p. p_group_id p = g \<and> p_allowed p) ps)" for ps :: "perm_row list"
    by (induction ps) auto
  then show "fst (get_capabilities_for_group db c g) = caps_of_group db g"
    using a by (simp add: get_capabilities_for_group_def Let_def loaded_perms own_loaded caps_of_group_def)
qed

interpretation user_cap_list: read_through "\<lambda>c. perms_wf db \<and> agrees db c" "get_capabilities_for_user db" "caps_of_user db"
  for db
proof unfold_locales
  fix c u assume a: "perms_wf db \<and> agrees db c"
  from member_ids.ask_eq [OF this, of u] obtain c1
    where c1: "get_user_group_ids db c u = (groups_of db u, c1)" "perms_wf db \<and> agrees db c1" by blast
  from group_cap_list.each_eq [OF c1(2), of "groups_of db u"] c1(1)
  show "perms_wf db \<and> agrees db (snd (get_capabilities_for_user db c u))"
    and "fst (get_capabilities_for_user db c u) = caps_of_user db u"
    by (auto simp: get_capabilities_for_user_def caps_of_user_def)
qed

definition unscoped :: "auth_db \<Rightarrow> int \<Rightarrow> bool" where
  "unscoped db g = (\<not> list_ex (\<lambda>r. fst r = g) (db_scopes db))"

definition visible_of :: "auth_db \<Rightarrow> int list \<Rightarrow> string set option" where
  "visible_of db gs = (if list_ex (unscoped db) gs then None else Some {h. sees_through db gs h})"

lemma unscoped_iff: "unscoped db g \<longleftrightarrow> (\<forall>t. (g, t) \<notin> set (db_scopes db))"
  by (auto simp: unscoped_def list_ex_iff)

lemma sees_through_iff:
  "sees_through db gs h \<longleftrightarrow> (\<exists>g \<in> set gs. unscoped db g
     \<or> (\<exists>t. (g, t) \<in> set (db_scopes db) \<and> (t, ''host'', h) \<in> set (db_assignments db)))"
  by (fastforce simp: sees_through_def unscoped_def list_ex_iff)

lemma hosts_with_any_tag_eq:
  "hosts_with_any_tag db ts = {h. \<exists>t \<in> ts. (t, ''host'', h) \<in> set (db_assignments db)}"
  by (force simp: hosts_with_any_tag_def)

lemma scope_union_loaded:
  "map_option (hosts_with_any_tag db) (scope_union (fold cache_scope (db_scopes db) []) gs {}) = visible_of db gs"
proof (cases "list_ex (unscoped db) gs")
  case True
  then show ?thesis
    by (auto simp: scope_union_eq visible_of_def list_ex_iff unscoped_iff dget_load_scopes)
next
  case False
  then have all: "\<forall>g \<in> set gs. dget (fold cache_scope (db_scopes db) []) g = Some {t. (g, t) \<in> set (db_scopes db)}
      \<and> {t. (g, t) \<in> set (db_scopes db)} \<noteq> {}"
    by (auto simp: list_ex_iff unscoped_iff dget_load_scopes)
  then have "scope_union (fold cache_scope (db_scopes db) []) gs {} =
      Some (\<Union>g \<in> set gs. {t. (g, t) \<in> set (db_scopes db)})"
    by (auto simp: scope_union_eq)
  with False show ?thesis
    by (auto simp: visible_of_def hosts_with_any_tag_eq sees_through_iff list_ex_iff) blast
qed

interpretation group_hosts: read_through "\<lambda>c. perms_wf db \<and> agrees db c" "get_visible_host_ids_for_groups db" "visible_of db"
  for db
proof unfold_locales
  fix c gs assume a: "perms_wf db \<and> agrees db c"
  let ?c = "if ts_loaded c then c else load_group_tag_scopes_cache db c"
  have "ts_cache ?c = fold cache_scope (db_scopes db) []" "perms_wf db \<and> agrees db ?c"
    using a by (auto simp: agrees_def load_group_tag_scopes_cache_def)
  then show "perms_wf db \<and> agrees db (snd (get_visible_host_ids_for_groups db c gs))"
    and "fst (get_visible_host_ids_for_groups db c gs) = visible_of db gs"
    using a scope_union_loaded [of db gs]
    by (auto simp: get_visible_host_ids_for_groups_def Let_def visible_of_def sees_through_def)
qed

definition groups_of_principal :: "auth_db \<Rightarrow> principal \<Rightarrow> int list" where
  "groups_of_principal db pr =
     (case pr of
        SessionUser u _ _ \<Rightarrow> (case u of None \<Rightarrow> [] | Some u \<Rightarrow> groups_of db u)
      | KeyUser _ _ g _ _ _ \<Rightarrow> (case g of None \<Rightarrow> [] | Some g \<Rightarrow> [g]))"

lemma visible_of_Nil [simp]: "visible_of db [] = Some {}"
  by (simp add: visible_of_def sees_through_def)

interpretation principal_hosts: read_through "\<lambda>c. perms_wf db \<and> agrees db c" "get_visible_host_ids_for_auth db"
    "\<lambda>pr. visible_of db (groups_of_principal db pr)"
  for db
proof unfold_locales
  fix c pr assume a: "perms_wf db \<and> agrees db c"
  have "\<exists>c'. get_visible_host_ids_for_auth db c pr = (visible_of db (groups_of_principal db pr), c')
      \<and> (perms_wf db \<and> agrees db c')"
  proof (cases pr)
    case (SessionUser u n d)
    show ?thesis
    proof (cases u)
      case (Some i)
      from member_ids.ask_eq [OF a, of i] obtain c1
        where c1: "get_user_group_ids db c i = (groups_of db i, c1)" "perms_wf db \<and> agrees db c1" by blast
      from group_hosts.ask_eq [OF c1(2), of "groups_of db i"] c1(1) SessionUser Some show ?thesis
        by (auto simp: get_visible_host_ids_for_auth_def get_visible_host_ids_for_user_def groups_of_principal_def)
    qed (use SessionUser a in \<open>simp add: get_visible_host_ids_for_auth_def
          get_visible_host_ids_for_user_def groups_of_principal_def\<close>)
  next
    case (KeyUser i n g gn cr cn)
    then show ?thesis
    proof (cases g)
      case (Some j)
      from group_hosts.ask_eq [OF a, of "[j]"] KeyUser Some show ?thesis
        by (auto simp: get_visible_host_ids_for_auth_def groups_of_principal_def)
    qed (use a in \<open>simp add: get_visible_host_ids_for_auth_def groups_of_principal_def\<close>)
  qed
  then show "perms_wf db \<and> agrees db (snd (get_visible_host_ids_for_auth db c pr))"
    and "fst (get_visible_host_ids_for_auth db c pr) = visible_of db (groups_of_principal db pr)" by auto
qed

text \<open>No row has the id 0, which the code takes for none.\<close>

definition holds :: "auth_db \<Rightarrow> principal \<Rightarrow> string \<Rightarrow> bool" where
  "holds db pr cap = list_ex (\<lambda>g. grants db g cap) (groups_of_principal db pr)"

definition no_zero :: "principal \<Rightarrow> bool" where
  "no_zero pr = (case pr of SessionUser u _ _ \<Rightarrow> u \<noteq> Some 0 | KeyUser _ _ g _ _ _ \<Rightarrow> g \<noteq> Some 0)"

lemma principal_caps:
  assumes "perms_wf db \<and> agrees db c" and "no_zero pr"
  shows "\<exists>c'. check_auth_capability db c pr cap = (holds db pr cap, c') \<and> perms_wf db \<and> agrees db c'"
proof (cases pr)
  case (SessionUser u n d)
  then show ?thesis
    using assms user_caps.ask_eq [OF assms(1), of cap]
    by (cases u) (auto simp: check_auth_capability_def holds_def groups_of_principal_def no_zero_def user_holds_def)
next
  case (KeyUser i n g gn cr cn)
  then show ?thesis
    using assms group_caps.ask_eq [OF assms(1), of cap]
    by (cases g) (auto simp: check_auth_capability_def holds_def groups_of_principal_def no_zero_def)
qed

lemma principal_cap_set:
  assumes "perms_wf db \<and> agrees db c" and "no_zero pr"
  shows "\<exists>c'. get_effective_capabilities db c pr = ({cap. holds db pr cap}, c') \<and> perms_wf db \<and> agrees db c'"
proof (cases pr)
  case (SessionUser u n d)
  show ?thesis
  proof (cases u)
    case (Some i)
    from user_cap_list.ask_eq [OF assms(1), of i] obtain c1
      where "get_capabilities_for_user db c i = (caps_of_user db i, c1)" "perms_wf db \<and> agrees db c1" by blast
    with SessionUser Some assms(2) show ?thesis
      by (auto simp: get_effective_capabilities_def holds_def groups_of_principal_def no_zero_def
          set_caps_of_user user_holds_def)
  qed (use SessionUser assms in \<open>simp add: get_effective_capabilities_def holds_def groups_of_principal_def\<close>)
next
  case (KeyUser i n g gn cr cn)
  show ?thesis
  proof (cases g)
    case (Some j)
    from group_cap_list.ask_eq [OF assms(1), of j] obtain c1
      where "get_capabilities_for_group db c j = (caps_of_group db j, c1)" "perms_wf db \<and> agrees db c1" by blast
    with KeyUser Some assms(2) show ?thesis
      by (auto simp: get_effective_capabilities_def holds_def groups_of_principal_def no_zero_def set_caps_of_group)
  qed (use KeyUser assms in \<open>simp add: get_effective_capabilities_def holds_def groups_of_principal_def\<close>)
qed

end
