(* ===== verification/GroupAdmin.thy ===== *)
theory GroupAdmin
  imports Access Sessions
begin

text \<open>
  The administration of groups and users (\<open>backend/auth/custom_groups_routes.py\<close>,
  \<open>user_management_routes.py\<close>, \<open>utils.py\<close>, \<open>capabilities.py\<close>). Every handler is a function on the state
  of tables, caches and sessions; an error leaves the tables as they were (the transaction is rolled
  back) but may have filled a cache. Audit rows, response bodies and the refresh of open
  WebSockets are left out; the id of a new row and a password hash are arguments.
\<close>

section \<open>State\<close>

record auth_state =
  as_db :: auth_db
  as_cache :: auth_cache
  as_sessions :: store

type_synonym handler = "auth_state \<Rightarrow> (http_error, unit) res \<times> auth_state"

definition fails :: "nat \<Rightarrow> reason \<Rightarrow> handler" where
  "fails n r s = (Inl (Http n r), s)"

definition commits :: "auth_db \<Rightarrow> (auth_cache \<Rightarrow> auth_cache) \<Rightarrow> handler" where
  "commits db f s = (Inr (), s\<lparr>as_db := db, as_cache := f (as_cache s)\<rparr>)"

lemma fails_simps [simp]: "snd (fails n r s) = s" "fst (fails n r s) = Inl (Http n r)"
  by (simp_all add: fails_def)

lemma commits_simps [simp]:
  "snd (commits db f s) = s\<lparr>as_db := db, as_cache := f (as_cache s)\<rparr>" "fst (commits db f s) = Inr ()"
  by (simp_all add: commits_def)

section \<open>Capabilities\<close>

definition ALL_CAPABILITIES :: "string list" where
  "ALL_CAPABILITIES =
    [''hosts.manage'', ''hosts.view'',
     ''stacks.edit'', ''stacks.deploy'', ''stacks.view'', ''stacks.view_env'',
     ''containers.operate'', ''containers.shell'', ''containers.update'', ''containers.view'',
     ''containers.logs'', ''containers.view_env'',
     ''healthchecks.manage'', ''healthchecks.test'', ''healthchecks.view'',
     ''batch.create'', ''batch.view'', ''policies.manage'', ''policies.view'',
     ''alerts.manage'', ''alerts.view'', ''notifications.manage'', ''notifications.view'',
     ''registry.manage'', ''registry.view'', ''agents.manage'', ''agents.view'',
     ''settings.manage'', ''users.manage'', ''oidc.manage'', ''groups.manage'', ''audit.view'',
     ''apikeys.manage_other'', ''tags.manage'', ''tags.view'', ''events.view'']"

definition CRITICAL_CAPABILITIES :: "string list" where
  "CRITICAL_CAPABILITIES =
    [''groups.manage'', ''users.manage'', ''settings.manage'', ''oidc.manage'', ''apikeys.manage_other'']"

section \<open>Shared checks\<close>

definition find_group :: "auth_db \<Rightarrow> int \<Rightarrow> group_row option" where
  "find_group db i = find (\<lambda>g. g_id g = i) (db_groups db)"

definition find_user :: "auth_db \<Rightarrow> int \<Rightarrow> user_row option" where
  "find_user db i = find (\<lambda>u. u_id u = i) (db_users db)"

definition admin_group :: "auth_db \<Rightarrow> group_row option" where
  "admin_group db = find (\<lambda>g. g_name g = ''Administrators'') (db_groups db)"

definition count_other_admins :: "auth_db \<Rightarrow> int \<Rightarrow> nat" where
  "count_other_admins db user_id =
     (case admin_group db of
        None \<Rightarrow> 0
      | Some a \<Rightarrow> length (filter (\<lambda>(u, g). g = g_id a \<and> u \<noteq> user_id) (db_members db)))"

text \<open>\<open>ensure_not_last_admin\<close>: whether it raises.\<close>

definition is_last_admin :: "auth_db \<Rightarrow> int \<Rightarrow> bool" where
  "is_last_admin db user_id =
     (case admin_group db of
        None \<Rightarrow> False
      | Some a \<Rightarrow> (user_id, g_id a) \<in> set (db_members db) \<and> count_other_admins db user_id = 0)"

definition granted_with_members :: "auth_db \<Rightarrow> string \<Rightarrow> int option \<Rightarrow> bool" where
  "granted_with_members db capability exclude =
     list_ex (\<lambda>p. p_capability p = capability \<and> p_allowed p \<and> Some (p_group_id p) \<noteq> exclude
        \<and> list_ex (\<lambda>(u, g). g = p_group_id p) (db_members db)) (db_perms db)"

text \<open>\<open>verify_critical_capabilities\<close>: a capability nobody would hold any more (the code's set has no
  order, so which one it names is not fixed).\<close>

definition lost_capability :: "auth_db \<Rightarrow> string option" where
  "lost_capability db = find (\<lambda>cap. \<not> granted_with_members db cap None) CRITICAL_CAPABILITIES"

definition revoke_api_keys_for_user :: "auth_db \<Rightarrow> int \<Rightarrow> time \<Rightarrow> auth_db" where
  "revoke_api_keys_for_user db user_id now =
     db\<lparr>db_keys := map (\<lambda>k. if k_created_by_user_id k = Some user_id \<and> k_revoked_at k = None
          then k\<lparr>k_revoked_at := Some now\<rparr> else k) (db_keys db)\<rparr>"

text \<open>\<open>ensure_no_privilege_escalation\<close>: the capabilities beyond the actor's, sorted.\<close>

definition beyond :: "string set \<Rightarrow> string list \<Rightarrow> string list" where
  "beyond actor_caps target_caps = sort (remdups (filter (\<lambda>c. c \<notin> actor_caps) target_caps))"

definition validate_group_ids :: "auth_db \<Rightarrow> int list \<Rightarrow> (http_error, group_row list) res" where
  "validate_group_ids db ids =
     (if ids = [] then Inl (Http 400 NoGroups)
      else
        let groups = filter (\<lambda>g. g_id g \<in> set ids) (db_groups db)
        in if length groups \<noteq> length ids
           then Inl (Http 400 (GroupsMissing (sort (remdups (filter (\<lambda>i. i \<notin> g_id ` set groups) ids)))))
           else Inr groups)"

section \<open>Group names\<close>

definition MAX_GROUP_NAME_LENGTH :: nat where
  "MAX_GROUP_NAME_LENGTH = 100"

definition MAX_GROUP_DESCRIPTION_LENGTH :: nat where
  "MAX_GROUP_DESCRIPTION_LENGTH = 500"

text \<open>The character classes of the pattern beyond the ASCII letters start at U+1100, above every
  \<open>char\<close>.\<close>

definition validate_group_name :: "string \<Rightarrow> (http_error, string) res" where
  "validate_group_name name =
     (let sanitized = strip name
      in if sanitized = [] then Inl (Http 400 EmptyName)
         else if length sanitized > MAX_GROUP_NAME_LENGTH then Inl (Http 400 NameTooLong)
         else if \<not> list_all (\<lambda>c. is_lower_ascii c \<or> is_upper_ascii c) sanitized
              then Inl (Http 400 NameCharacters)
         else Inr sanitized)"

definition validate_group_description :: "string option \<Rightarrow> (http_error, string option) res" where
  "validate_group_description description =
     (case description of
        None \<Rightarrow> Inr None
      | Some d \<Rightarrow>
          let sanitized = strip d
          in if sanitized = [] then Inr None
             else if length sanitized > MAX_GROUP_DESCRIPTION_LENGTH then Inl (Http 400 DescriptionTooLong)
             else Inr (Some sanitized))"

text \<open>The \<open>lower\<close> of SQLite folds the ASCII letters only.\<close>

definition sql_lower :: "string \<Rightarrow> string" where
  "sql_lower = map (\<lambda>c. if is_upper_ascii c then lower_char c else c)"

section \<open>Groups\<close>

definition create_group :: "int \<Rightarrow> string \<Rightarrow> string option \<Rightarrow> handler" where
  "create_group new_id name description s =
     (case validate_group_name name of
        Inl e \<Rightarrow> (Inl e, s)
      | Inr n \<Rightarrow>
          (case validate_group_description description of
             Inl e \<Rightarrow> (Inl e, s)
           | Inr d \<Rightarrow>
               let db = as_db s
               in if list_ex (\<lambda>g. sql_lower (g_name g) = sql_lower n) (db_groups db) then fails 400 NameTaken s
                  else commits (db\<lparr>db_groups := db_groups db @
                    [\<lparr>g_id = new_id, g_name = n, g_description = d, g_is_system = False\<rparr>]\<rparr>) id s))"

definition set_group :: "int \<Rightarrow> (group_row \<Rightarrow> group_row) \<Rightarrow> auth_db \<Rightarrow> auth_db" where
  "set_group i f db = db\<lparr>db_groups := map (\<lambda>g. if g_id g = i then f g else g) (db_groups db)\<rparr>"

definition update_group :: "int \<Rightarrow> string option \<Rightarrow> string option \<Rightarrow> handler" where
  "update_group group_id name description s =
     (case (case name of None \<Rightarrow> Inr None | Some n \<Rightarrow> map_sum id Some (validate_group_name n)) of
        Inl e \<Rightarrow> (Inl e, s)
      | Inr new_name \<Rightarrow>
          (case (case description of None \<Rightarrow> Inr None | Some d \<Rightarrow> validate_group_description (Some d)) of
             Inl e \<Rightarrow> (Inl e, s)
           | Inr new_description \<Rightarrow>
               let db = as_db s
               in (case find_group db group_id of
                     None \<Rightarrow> fails 404 (NoSuchGroup group_id) s
                   | Some g \<Rightarrow>
                       if g_is_system g \<and> new_name \<noteq> None \<and> new_name \<noteq> Some (g_name g)
                       then fails 400 SystemGroup s
                       else if new_name \<noteq> None \<and> py_lower (the new_name) \<noteq> py_lower (g_name g)
                            \<and> list_ex (\<lambda>h. sql_lower (g_name h) = sql_lower (the new_name) \<and> g_id h \<noteq> group_id) (db_groups db)
                       then fails 400 NameTaken s
                       else commits (set_group group_id (\<lambda>g. g\<lparr>
                           g_name := (case new_name of None \<Rightarrow> g_name g | Some n \<Rightarrow> n),
                           g_description := (if description = None then g_description g else new_description)\<rparr>) db) id s)))"

definition only_this_group :: "auth_db \<Rightarrow> int \<Rightarrow> string list" where
  "only_this_group db group_id =
     concat (map (\<lambda>(u, g). case find_user db u of None \<Rightarrow> [] | Some r \<Rightarrow> [u_username r])
       (filter (\<lambda>(u, g). \<not> list_ex (\<lambda>(v, h). v = u \<and> h \<noteq> group_id) (db_members db))
         (filter (\<lambda>(u, g). g = group_id) (db_members db))))"

definition drop_group :: "int \<Rightarrow> auth_db \<Rightarrow> auth_db" where
  "drop_group i db = db\<lparr>
     db_groups := filter (\<lambda>g. g_id g \<noteq> i) (db_groups db),
     db_members := filter (\<lambda>(u, g). g \<noteq> i) (db_members db),
     db_perms := filter (\<lambda>p. p_group_id p \<noteq> i) (db_perms db),
     db_scopes := filter (\<lambda>(g, t). g \<noteq> i) (db_scopes db)\<rparr>"

definition delete_group :: "int \<Rightarrow> handler" where
  "delete_group group_id s =
     (let db = as_db s
      in case find_group db group_id of
           None \<Rightarrow> fails 404 (NoSuchGroup group_id) s
         | Some g \<Rightarrow>
             let keys = length (filter (\<lambda>k. k_group_id k = group_id) (db_keys db));
                 stranded = only_this_group db group_id
             in if g_is_system g then fails 400 SystemGroup s
                else if keys > 0 then fails 400 (HasKeys keys) s
                else if stranded \<noteq> [] then fails 400 (LastGroupOf stranded) s
                else
                  (case find (\<lambda>p. p_group_id p = group_id \<and> p_allowed p \<and> p_capability p \<in> set CRITICAL_CAPABILITIES
                          \<and> \<not> granted_with_members db (p_capability p) (Some group_id)) (db_perms db) of
                     Some p \<Rightarrow> fails 400 (CapabilityLost (p_capability p)) s
                   | None \<Rightarrow> commits (drop_group group_id db)
                       (invalidate_group_tag_scopes_cache \<circ> invalidate_user_groups_cache None
                          \<circ> invalidate_group_permissions_cache) s))"

definition add_member :: "int \<Rightarrow> int \<Rightarrow> handler" where
  "add_member group_id user_id s =
     (let db = as_db s
      in if find_group db group_id = None then fails 404 (NoSuchGroup group_id) s
         else if find_user db user_id = None then fails 404 NoSuchUser s
         else if (user_id, group_id) \<in> set (db_members db) then fails 400 AlreadyMember s
         else commits (db\<lparr>db_members := db_members db @ [(user_id, group_id)]\<rparr>)
           (invalidate_user_groups_cache (Some user_id)) s)"

definition remove_member :: "int \<Rightarrow> int \<Rightarrow> handler" where
  "remove_member group_id user_id s =
     (let db = as_db s
      in case find_group db group_id of
           None \<Rightarrow> fails 404 (NoSuchGroup group_id) s
         | Some g \<Rightarrow>
             if (user_id, group_id) \<notin> set (db_members db) then fails 404 NotMember s
             else if length (filter (\<lambda>(u, g). u = user_id) (db_members db)) \<le> 1 then fails 400 LastGroup s
             else if g_name g = ''Administrators'' \<and> is_last_admin db user_id then fails 400 LastAdmin s
             else commits (db\<lparr>db_members := remove1 (user_id, group_id) (db_members db)\<rparr>)
               (invalidate_user_groups_cache (Some user_id)) s)"

section \<open>Permissions and scopes\<close>

definition granted_row :: "auth_db \<Rightarrow> int \<Rightarrow> string \<Rightarrow> perm_row option" where
  "granted_row db g cap = find (\<lambda>p. p_group_id p = g \<and> p_capability p = cap) (db_perms db)"

text \<open>One requested permission is set on its row, or gets a new row.\<close>

definition set_perm :: "int \<Rightarrow> string \<times> bool \<Rightarrow> auth_db \<Rightarrow> auth_db" where
  "set_perm g r db =
     (case granted_row db g (fst r) of
        Some _ \<Rightarrow> db\<lparr>db_perms := map (\<lambda>p. if p_group_id p = g \<and> p_capability p = fst r
             then p\<lparr>p_allowed := snd r\<rparr> else p) (db_perms db)\<rparr>
      | None \<Rightarrow> db\<lparr>db_perms := db_perms db @ [\<lparr>p_group_id = g, p_capability = fst r, p_allowed = snd r\<rparr>]\<rparr>)"

definition newly_granted :: "auth_db \<Rightarrow> int \<Rightarrow> string set \<Rightarrow> (string \<times> bool) list \<Rightarrow> string list" where
  "newly_granted db g actor_caps requested =
     sort (remdups (map fst (filter (\<lambda>(cap, allowed). allowed \<and> cap \<notin> actor_caps
        \<and> \<not> (case granted_row db g cap of None \<Rightarrow> False | Some p \<Rightarrow> p_allowed p)) requested)))"

definition update_group_permissions :: "principal \<Rightarrow> int \<Rightarrow> (string \<times> bool) list \<Rightarrow> handler" where
  "update_group_permissions pr group_id requested s =
     (let db = as_db s
      in if find_group db group_id = None then fails 404 (NoSuchGroup group_id) s
         else case find (\<lambda>r. fst r \<notin> set ALL_CAPABILITIES) requested of
           Some r \<Rightarrow> fails 400 (UnknownCapability (fst r)) s
         | None \<Rightarrow>
             let deduped = fold (\<lambda>r d. dset (fst r) (snd r) d) requested [];
                 (actor_caps, c) = get_effective_capabilities db (as_cache s) pr;
                 s1 = s\<lparr>as_cache := c\<rparr>;
                 excess = newly_granted db group_id actor_caps deduped
             in if excess \<noteq> [] then fails 403 (BeyondOwn excess) s1
                else case find (\<lambda>(cap, allowed). cap \<in> set CRITICAL_CAPABILITIES \<and> \<not> allowed
                         \<and> \<not> granted_with_members db cap (Some group_id)) deduped of
                  Some r \<Rightarrow> fails 400 (CapabilityLost (fst r)) s1
                | None \<Rightarrow>
                    let db' = fold (set_perm group_id) deduped db
                    in (case lost_capability db' of
                          Some cap \<Rightarrow> fails 400 (CapabilityLost cap) s1
                        | None \<Rightarrow> commits db' invalidate_group_permissions_cache s1))"

definition update_group_tag_scopes :: "int \<Rightarrow> string list \<Rightarrow> handler" where
  "update_group_tag_scopes group_id tag_ids s =
     (let db = as_db s; requested = rev (remdups (rev tag_ids))
      in if find_group db group_id = None then fails 404 (NoSuchGroup group_id) s
         else
           let known = filter (\<lambda>t. t \<in> set requested) (db_tags db);
               unknown = filter (\<lambda>t. t \<notin> set known) requested;
               existing = map snd (filter (\<lambda>(g, t). g = group_id) (db_scopes db))
           in if unknown \<noteq> [] then fails 400 (UnknownTags unknown) s
              else commits (db\<lparr>db_scopes :=
                     filter (\<lambda>(g, t). g = group_id \<longrightarrow> t \<in> set known) (db_scopes db)
                       @ map (\<lambda>t. (group_id, t)) (filter (\<lambda>t. t \<notin> set existing) requested)\<rparr>)
                   invalidate_group_tag_scopes_cache s)"

definition copy_group_permissions :: "principal \<Rightarrow> int \<Rightarrow> int \<Rightarrow> handler" where
  "copy_group_permissions pr target source s =
     (let db = as_db s
      in if find_group db target = None then fails 404 (NoSuchGroup target) s
         else if find_group db source = None then fails 404 (NoSuchGroup source) s
         else if target = source then fails 400 SameGroup s
         else
           let source_permissions = filter (\<lambda>p. p_group_id p = source) (db_perms db);
               source_granted = map p_capability (filter p_allowed source_permissions);
               (actor_caps, c) = get_effective_capabilities db (as_cache s) pr;
               s1 = s\<lparr>as_cache := c\<rparr>;
               target_granted_now = map p_capability (filter (\<lambda>p. p_group_id p = target \<and> p_allowed p) (db_perms db));
               excess = sort (remdups (filter (\<lambda>cap. cap \<notin> actor_caps \<and> cap \<notin> set target_granted_now) source_granted))
           in if excess \<noteq> [] then fails 403 (BeyondOwn excess) s1
              else case find (\<lambda>cap. cap \<in> set CRITICAL_CAPABILITIES \<and> cap \<notin> set source_granted
                       \<and> \<not> granted_with_members db cap (Some target)) target_granted_now of
                Some cap \<Rightarrow> fails 400 (CapabilityLost cap) s1
              | None \<Rightarrow>
                  let db' = db\<lparr>db_perms := filter (\<lambda>p. p_group_id p \<noteq> target) (db_perms db)
                         @ map (\<lambda>p. p\<lparr>p_group_id := target\<rparr>) source_permissions\<rparr>
                  in (case lost_capability db' of
                        Some cap \<Rightarrow> fails 400 (CapabilityLost cap) s1
                      | None \<Rightarrow> commits db' invalidate_group_permissions_cache s1))"

section \<open>Users\<close>

text \<open>The \<open>$\<close> of the pattern also matches before a final newline.\<close>

definition valid_username :: "string \<Rightarrow> bool" where
  "valid_username v =
     (let letter = (\<lambda>c. is_lower_ascii c \<or> is_upper_ascii c);
          w = (if v \<noteq> [] \<and> last v = CHR 0x0A then butlast v else v)
      in 1 \<le> length v \<and> length v \<le> 50 \<and> w \<noteq> [] \<and> letter (hd w)
         \<and> list_all (\<lambda>c. letter c \<or> is_dec c \<or> c = CHR ''_'' \<or> c = CHR ''-'') (tl w))"

text \<open>\<open>ensure_no_privilege_escalation\<close> on the groups a user would get.\<close>

definition group_caps_of :: "auth_db \<Rightarrow> auth_cache \<Rightarrow> group_row list \<Rightarrow> string list \<times> auth_cache" where
  "group_caps_of db c groups = map_prod concat id (ask_each (get_capabilities_for_group db) c (map g_id groups))"

definition create_user :: "principal \<Rightarrow> int \<Rightarrow> string \<Rightarrow> string \<Rightarrow> string option \<Rightarrow> string option \<Rightarrow> int list \<Rightarrow> bool \<Rightarrow> handler" where
  "create_user pr new_id username password_hash email display_name group_ids must_change s =
     (let db = as_db s
      in if list_ex (\<lambda>u. u_username u = username) (db_users db) then fails 400 UserExists s
         else if email \<noteq> None \<and> email \<noteq> Some [] \<and> list_ex (\<lambda>u. u_email u = email) (db_users db)
              then fails 400 EmailTaken s
         else case validate_group_ids db group_ids of
           Inl e \<Rightarrow> (Inl e, s)
         | Inr groups \<Rightarrow>
             let (requested_caps, c1) = group_caps_of db (as_cache s) groups;
                 (actor_caps, c2) = get_effective_capabilities db c1 pr;
                 s1 = s\<lparr>as_cache := c2\<rparr>;
                 excess = beyond actor_caps requested_caps
             in if excess \<noteq> [] then fails 403 (BeyondOwn excess) s1
                else commits (db\<lparr>db_users := db_users db @
                       [\<lparr>u_id = new_id, u_username = username, u_password_hash = password_hash,
                         u_display_name = display_name, u_email = email, u_role = ''user'',
                         u_auth_provider = ''local'', u_is_first_login = True,
                         u_must_change_password = must_change, u_approved = True\<rparr>],
                     db_members := db_members db @ map (\<lambda>g. (new_id, g)) group_ids\<rparr>) id s1)"

definition set_user :: "int \<Rightarrow> (user_row \<Rightarrow> user_row) \<Rightarrow> auth_db \<Rightarrow> auth_db" where
  "set_user i f db = db\<lparr>db_users := map (\<lambda>u. if u_id u = i then f u else u) (db_users db)\<rparr>"

definition or_none :: "string \<Rightarrow> string option" where
  "or_none x = (if x = [] then None else Some x)"

definition edit_user :: "string option \<Rightarrow> string option \<Rightarrow> user_row \<Rightarrow> user_row" where
  "edit_user email display_name u = u\<lparr>
     u_email := (case email of None \<Rightarrow> u_email u | Some e \<Rightarrow> or_none e),
     u_display_name := (case display_name of None \<Rightarrow> u_display_name u | Some d \<Rightarrow> or_none d)\<rparr>"

text \<open>The new memberships are added in the order of the request (the code goes through a set).\<close>

definition update_user :: "principal \<Rightarrow> int \<Rightarrow> string option \<Rightarrow> string option \<Rightarrow> int list option \<Rightarrow> handler" where
  "update_user pr target email display_name group_ids s =
     (let db = as_db s
      in if find_user db target = None then fails 404 NoSuchUser s
         else if email \<noteq> None \<and> email \<noteq> Some []
              \<and> list_ex (\<lambda>u. u_email u = email \<and> u_id u \<noteq> target) (db_users db) then fails 400 EmailTaken s
         else
           let db1 = set_user target (edit_user email display_name) db
           in case group_ids of
                None \<Rightarrow> commits db1 id s
              | Some ids \<Rightarrow>
                  (case validate_group_ids db ids of
                     Inl e \<Rightarrow> (Inl e, s)
                   | Inr groups \<Rightarrow>
                       let (requested_caps, c1) = group_caps_of db (as_cache s) groups;
                           (actor_caps, c2) = get_effective_capabilities db c1 pr;
                           s1 = s\<lparr>as_cache := c2\<rparr>;
                           excess = beyond actor_caps requested_caps
                       in if excess \<noteq> [] then fails 403 (BeyondOwn excess) s1
                          else if (case admin_group db of None \<Rightarrow> False | Some a \<Rightarrow> g_id a \<notin> set ids) \<and> is_last_admin db target
                               then fails 400 LastAdmin s1
                          else commits (db1\<lparr>db_members := filter (\<lambda>(u, g). u \<noteq> target) (db_members db1)
                                 @ map (\<lambda>g. (target, g)) (remdups ids)\<rparr>)
                               (invalidate_user_groups_cache (Some target)) s1))"

definition approve_user :: "int \<Rightarrow> handler" where
  "approve_user target s =
     (let db = as_db s
      in case find_user db target of
           None \<Rightarrow> fails 404 NoSuchUser s
         | Some u \<Rightarrow> if u_approved u then (Inr (), s)
             else commits (set_user target (\<lambda>u. u\<lparr>u_approved := True\<rparr>) db) id s)"

definition approve_all_users :: handler where
  "approve_all_users s =
     commits ((as_db s)\<lparr>db_users := map (\<lambda>u. if u_approved u then u else u\<lparr>u_approved := True\<rparr>) (db_users (as_db s))\<rparr>) id s"

definition acting_user :: "principal \<Rightarrow> int option" where
  "acting_user pr =
     (case pr of SessionUser u _ _ \<Rightarrow> (if u = Some 0 then None else u) | KeyUser _ _ _ _ cr _ \<Rightarrow> cr)"

definition drop_user :: "int \<Rightarrow> auth_db \<Rightarrow> auth_db" where
  "drop_user i db = db\<lparr>
     db_users := filter (\<lambda>u. u_id u \<noteq> i) (db_users db),
     db_members := filter (\<lambda>(u, g). u \<noteq> i) (db_members db),
     db_keys := map (\<lambda>k. if k_created_by_user_id k = Some i then k\<lparr>k_created_by_user_id := None\<rparr> else k) (db_keys db)\<rparr>"

definition delete_user :: "principal \<Rightarrow> time \<Rightarrow> int \<Rightarrow> handler" where
  "delete_user pr now target s =
     (let db = as_db s
      in if find_user db target = None then fails 404 NoSuchUser s
         else if acting_user pr = Some target then fails 400 OwnAccount s
         else if is_last_admin db target then fails 400 LastAdmin s
         else
           let db' = drop_user target (revoke_api_keys_for_user db target now)
           in (case lost_capability db' of
                 Some cap \<Rightarrow> fails 400 (CapabilityLost cap) s
               | None \<Rightarrow>
                   map_prod id (\<lambda>s. s\<lparr>as_sessions := snd (delete_sessions_for_user target None (as_sessions s))\<rparr>)
                     (commits db' (invalidate_user_groups_cache (Some target)) s)))"

definition reset_user_password :: "principal \<Rightarrow> int \<Rightarrow> string \<Rightarrow> handler" where
  "reset_user_password pr target password_hash s =
     (let db = as_db s
      in case find_user db target of
           None \<Rightarrow> fails 404 NoSuchUser s
         | Some u \<Rightarrow>
             if u_auth_provider u = ''oidc'' then fails 400 OidcUser s
             else
               let (actor_caps, c1) = get_effective_capabilities db (as_cache s) pr;
                   (target_caps, c2) = get_capabilities_for_user db c1 target;
                   s1 = s\<lparr>as_cache := c2\<rparr>;
                   excess = beyond actor_caps target_caps
               in if excess \<noteq> [] then fails 403 (BeyondOwn excess) s1
                  else map_prod id (\<lambda>s. s\<lparr>as_sessions := snd (delete_sessions_for_user target None (as_sessions s))\<rparr>)
                    (commits (set_user target (\<lambda>u. u\<lparr>u_password_hash := password_hash, u_must_change_password := True\<rparr>) db) id s1))"

section \<open>Requests\<close>

datatype request =
    AskCapability string
  | AskHosts
  | CreateGroup string "string option"
  | UpdateGroup int "string option" "string option"
  | DeleteGroup int
  | AddMember int int
  | RemoveMember int int
  | UpdatePermissions int "(string \<times> bool) list"
  | UpdateTagScopes int "string list"
  | CopyPermissions int int
  | CreateUser string string "string option" "string option" "int list" bool
  | UpdateUser int "string option" "string option" "int list option"
  | ApproveUser int
  | ApproveAll
  | DeleteUser time int
  | ResetPassword int string

text \<open>Authentication looks the user, or the group of the key, up in the tables.\<close>

definition authenticated :: "auth_db \<Rightarrow> principal \<Rightarrow> bool" where
  "authenticated db pr =
     (case pr of
        SessionUser u _ _ \<Rightarrow> (case u of None \<Rightarrow> False | Some i \<Rightarrow> find_user db i \<noteq> None)
      | KeyUser _ _ g _ _ _ \<Rightarrow> (case g of None \<Rightarrow> False | Some i \<Rightarrow> find_group db i \<noteq> None))"

definition guarded :: "string \<Rightarrow> principal \<Rightarrow> handler \<Rightarrow> handler" where
  "guarded capability pr h s =
     (let (r, c) = require_capability capability (as_db s) (as_cache s) pr; s1 = s\<lparr>as_cache := c\<rparr>
      in case r of Inl e \<Rightarrow> (Inl e, s1) | Inr _ \<Rightarrow> h s1)"

definition ask_hosts :: "principal \<Rightarrow> handler" where
  "ask_hosts pr s = (Inr (), s\<lparr>as_cache := snd (get_visible_host_ids_for_auth (as_db s) (as_cache s) pr)\<rparr>)"

text \<open>\<open>fresh\<close> gives the id of a new row from the ids in use.\<close>

fun route :: "(int list \<Rightarrow> int) \<Rightarrow> principal \<Rightarrow> request \<Rightarrow> handler" where
  "route fresh pr (AskCapability cap) = guarded cap pr (\<lambda>s. (Inr (), s))"
| "route fresh pr AskHosts = ask_hosts pr"
| "route fresh pr (CreateGroup name desc) =
     guarded ''groups.manage'' pr (\<lambda>s. create_group (fresh (map g_id (db_groups (as_db s)))) name desc s)"
| "route fresh pr (UpdateGroup g name desc) = guarded ''groups.manage'' pr (update_group g name desc)"
| "route fresh pr (DeleteGroup g) = guarded ''groups.manage'' pr (delete_group g)"
| "route fresh pr (AddMember g u) = guarded ''groups.manage'' pr (add_member g u)"
| "route fresh pr (RemoveMember g u) = guarded ''groups.manage'' pr (remove_member g u)"
| "route fresh pr (UpdatePermissions g ps) = guarded ''groups.manage'' pr (update_group_permissions pr g ps)"
| "route fresh pr (UpdateTagScopes g ts) = guarded ''groups.manage'' pr (update_group_tag_scopes g ts)"
| "route fresh pr (CopyPermissions g h) = guarded ''groups.manage'' pr (copy_group_permissions pr g h)"
| "route fresh pr (CreateUser name pw email shown gs must) = guarded ''users.manage'' pr
     (\<lambda>s. create_user pr (fresh (map u_id (db_users (as_db s)))) name pw email shown gs must s)"
| "route fresh pr (UpdateUser u email shown gs) = guarded ''users.manage'' pr (update_user pr u email shown gs)"
| "route fresh pr (ApproveUser u) = guarded ''users.manage'' pr (approve_user u)"
| "route fresh pr ApproveAll = guarded ''users.manage'' pr approve_all_users"
| "route fresh pr (DeleteUser now u) = guarded ''users.manage'' pr (delete_user pr now u)"
| "route fresh pr (ResetPassword u pw) = guarded ''users.manage'' pr (reset_user_password pr u pw)"

definition serve :: "(int list \<Rightarrow> int) \<Rightarrow> principal \<times> request \<Rightarrow> handler" where
  "serve fresh r s =
     (if authenticated (as_db s) (fst r) then route fresh (fst r) (snd r) s else fails 401 NotAuthenticated s)"

definition admin_step :: "(int list \<Rightarrow> int) \<Rightarrow> auth_state \<Rightarrow> principal \<times> request \<Rightarrow> auth_state" where
  "admin_step fresh s r = snd (serve fresh r s)"

definition start :: "auth_db \<Rightarrow> auth_state" where
  "start db = \<lparr>as_db = db, as_cache = empty_auth_cache, as_sessions = []\<rparr>"

end
