(* ===== verification/GroupAdminLaws.thy ===== *)
theory GroupAdminLaws
  imports GroupAdmin
begin

text \<open>
  What the administration guarantees: the caches never disagree with the tables, the critical
  capabilities stay with somebody, nobody hands out what he does not hold, and where the code
  does not keep the last two.
\<close>

section \<open>The caches stay in step\<close>

definition cached_users :: "auth_db \<Rightarrow> auth_cache \<Rightarrow> bool" where
  "cached_users db c = (\<forall>u. dhas (ug_cache c) u \<longrightarrow> find_user db u \<noteq> None)"

definition good_cache :: "auth_db \<Rightarrow> auth_cache \<Rightarrow> bool" where
  "good_cache db c = ((perms_wf db \<and> agrees db c) \<and> cached_users db c)"

lemma ask_each_inv: "(\<And>c q. P c \<Longrightarrow> P (snd (ask c q))) \<Longrightarrow> P c \<Longrightarrow> P (snd (ask_each ask c qs))"
  by (induction qs arbitrary: c) (auto simp: split_beta)

lemma ask_any_inv: "(\<And>c q. P c \<Longrightarrow> P (snd (ask c q))) \<Longrightarrow> P c \<Longrightarrow> P (snd (ask_any ask c qs))"
  by (induction qs arbitrary: c) (auto simp: split_beta)

lemma cached_users_load [simp]:
  "cached_users db (load_group_permissions_cache db' c) = cached_users db c"
  "cached_users db (load_group_tag_scopes_cache db' c) = cached_users db c"
  by (auto simp: cached_users_def load_group_permissions_cache_def load_group_tag_scopes_cache_def)

lemma cached_users_groups [simp]:
  "cached_users db (snd (has_capability_for_group db' cap c g)) = cached_users db c"
  "cached_users db (snd (get_capabilities_for_group db' c g)) = cached_users db c"
  "cached_users db (snd (get_visible_host_ids_for_groups db' c gs)) = cached_users db c"
  by (auto simp: has_capability_for_group_def get_capabilities_for_group_def get_visible_host_ids_for_groups_def Let_def)

lemma cached_users_ids:
  "find_user db u \<noteq> None \<Longrightarrow> cached_users db c \<Longrightarrow> cached_users db (snd (get_user_group_ids db' c u))"
  by (auto simp: get_user_group_ids_def cached_users_def Let_def split: option.split)

lemma cached_users_user:
  assumes "find_user db u \<noteq> None" and "cached_users db c"
  shows "cached_users db (snd (has_capability_for_user db' cap c u))"
    and "cached_users db (snd (get_capabilities_for_user db' c u))"
    and "cached_users db (snd (get_visible_host_ids_for_user db' c (Some u)))"
  using cached_users_ids [OF assms, of db']
    ask_any_inv [of "cached_users db" "has_capability_for_group db' cap"]
    ask_each_inv [of "cached_users db" "get_capabilities_for_group db'"]
  by (auto simp: has_capability_for_user_def get_capabilities_for_user_def get_visible_host_ids_for_user_def split_beta)

lemma cached_users_principal:
  assumes "authenticated db pr" and "cached_users db c"
  shows "cached_users db (snd (check_auth_capability db c pr cap))"
    and "cached_users db (snd (get_effective_capabilities db c pr))"
    and "cached_users db (snd (get_visible_host_ids_for_auth db c pr))"
  using assms cached_users_user [of db _ c]
  by (auto simp: check_auth_capability_def get_effective_capabilities_def get_visible_host_ids_for_auth_def
      authenticated_def get_visible_host_ids_for_user_def split: principal.split option.splits)

definition ids_ok :: "auth_db \<Rightarrow> bool" where
  "ids_ok db = (find_user db 0 = None \<and> find_group db 0 = None)"

lemma authenticated_no_zero: "ids_ok db \<Longrightarrow> authenticated db pr \<Longrightarrow> no_zero pr"
  by (auto simp: ids_ok_def authenticated_def no_zero_def split: principal.splits option.splits)

text \<open>Every question keeps the cache good, and so do the answers of the tables.\<close>

lemma ask_capability:
  assumes "good_cache db c" "ids_ok db" "authenticated db pr"
  shows "\<exists>c'. check_auth_capability db c pr cap = (holds db pr cap, c') \<and> good_cache db c'"
proof -
  from principal_caps [of db c pr cap] assms obtain c' where
    "check_auth_capability db c pr cap = (holds db pr cap, c')" "perms_wf db \<and> agrees db c'"
    by (auto simp: good_cache_def dest: authenticated_no_zero)
  with cached_users_principal(1) [of db pr c cap] assms show ?thesis by (auto simp: good_cache_def)
qed

lemma ask_effective:
  assumes "good_cache db c" "ids_ok db" "authenticated db pr"
  shows "\<exists>c'. get_effective_capabilities db c pr = ({cap. holds db pr cap}, c') \<and> good_cache db c'"
proof -
  from principal_cap_set [of db c pr] assms obtain c' where
    "get_effective_capabilities db c pr = ({cap. holds db pr cap}, c')" "perms_wf db \<and> agrees db c'"
    by (auto simp: good_cache_def dest: authenticated_no_zero)
  with cached_users_principal(2) [of db pr c] assms show ?thesis by (auto simp: good_cache_def)
qed

lemma ask_hosts_good:
  assumes "good_cache db c" "authenticated db pr"
  shows "\<exists>c'. get_visible_host_ids_for_auth db c pr = (visible_of db (groups_of_principal db pr), c') \<and> good_cache db c'"
proof -
  from principal_hosts.ask_eq [of db c pr] assms obtain c' where
    "get_visible_host_ids_for_auth db c pr = (visible_of db (groups_of_principal db pr), c')" "perms_wf db \<and> agrees db c'"
    by (auto simp: good_cache_def)
  with cached_users_principal(3) [of db pr c] assms show ?thesis by (auto simp: good_cache_def)
qed

lemma ask_group_caps:
  assumes "good_cache db c"
  shows "\<exists>c'. group_caps_of db c gs = (concat (map (\<lambda>g. caps_of_group db (g_id g)) gs), c') \<and> good_cache db c'"
proof -
  from group_cap_list.each_eq [of db c "map g_id gs"] assms obtain c' where
    c': "ask_each (get_capabilities_for_group db) c (map g_id gs) = (map (caps_of_group db) (map g_id gs), c')"
      "perms_wf db \<and> agrees db c'"
    by (auto simp: good_cache_def)
  moreover have "cached_users db (snd (ask_each (get_capabilities_for_group db) c (map g_id gs)))"
    using assms by (intro ask_each_inv [of "cached_users db"]) (simp_all add: good_cache_def)
  ultimately show ?thesis by (auto simp: group_caps_of_def good_cache_def comp_def)
qed

lemma ask_user_caps:
  assumes "good_cache db c" "find_user db u \<noteq> None"
  shows "\<exists>c'. get_capabilities_for_user db c u = (caps_of_user db u, c') \<and> good_cache db c'"
proof -
  from user_cap_list.ask_eq [of db c u] assms obtain c' where
    "get_capabilities_for_user db c u = (caps_of_user db u, c')" "perms_wf db \<and> agrees db c'"
    by (auto simp: good_cache_def)
  with cached_users_user(2) [of db u c db] assms show ?thesis by (auto simp: good_cache_def)
qed

section \<open>Every handler is sound\<close>

definition sound :: "auth_state \<Rightarrow> bool" where
  "sound s = (good_cache (as_db s) (as_cache s) \<and> ids_ok (as_db s))"

lemma agrees_same:
  "db_perms db' = db_perms db \<Longrightarrow> db_members db' = db_members db \<Longrightarrow> db_scopes db' = db_scopes db \<Longrightarrow>
     agrees db' c = agrees db c"
  by (simp add: agrees_def groups_of_def)

lemma perms_wf_same: "db_perms db' = db_perms db \<Longrightarrow> perms_wf db' = perms_wf db"
  by (simp add: perms_wf_def)

lemma find_map_id: "(\<And>x. key (f x) = key x) \<Longrightarrow> find (\<lambda>x. key x = i) (map f xs) = map_option f (find (\<lambda>x. key x = i) xs)"
  by (induction xs) auto

lemma find_filter_None: "find P xs = None \<Longrightarrow> find P (filter Q xs) = None"
  by (auto simp: find_None_iff)

lemma sound_iff:
  "sound s \<longleftrightarrow> perms_wf (as_db s) \<and> agrees (as_db s) (as_cache s) \<and> cached_users (as_db s) (as_cache s)
     \<and> find_user (as_db s) 0 = None \<and> find_group (as_db s) 0 = None"
  by (auto simp: sound_def good_cache_def ids_ok_def)

lemma find_set_user [simp]:
  assumes "\<And>u. u_id (f u) = u_id u"
  shows "find_user (set_user i f db) u = None \<longleftrightarrow> find_user db u = None"
    and "find_group (set_user i f db) g = find_group db g"
  using assms find_map_id [of u_id "\<lambda>u. if u_id u = i then f u else u"]
  by (simp_all add: set_user_def find_user_def find_group_def)

lemma some_set_user [simp]:
  assumes "\<And>u. u_id (f u) = u_id u"
  shows "(\<exists>y. find_user (set_user i f db) u = Some y) \<longleftrightarrow> (\<exists>y. find_user db u = Some y)"
  using find_set_user(1) [of f i db u, OF assms] by (metis not_None_eq)

lemma find_set_group [simp]:
  assumes "\<And>g. g_id (f g) = g_id g"
  shows "find_group (set_group i f db) g = None \<longleftrightarrow> find_group db g = None"
    and "find_user (set_group i f db) u = find_user db u"
  using assms find_map_id [of g_id "\<lambda>g. if g_id g = i then f g else g"]
  by (simp_all add: set_group_def find_user_def find_group_def)

lemma set_rows [simp]:
  "db_perms (set_user i f db) = db_perms db" "db_members (set_user i f db) = db_members db"
  "db_scopes (set_user i f db) = db_scopes db" "db_groups (set_user i f db) = db_groups db"
  "db_perms (set_group i h db) = db_perms db" "db_members (set_group i h db) = db_members db"
  "db_scopes (set_group i h db) = db_scopes db" "db_users (set_group i h db) = db_users db"
  by (simp_all add: set_user_def set_group_def)

lemma set_same [simp]:
  "perms_wf (set_user i f db) = perms_wf db" "agrees (set_user i f db) c = agrees db c"
  "perms_wf (set_group i h db) = perms_wf db" "agrees (set_group i h db) c = agrees db c"
  "find_user (set_group i h db) = find_user db" "find_group (set_user i f db) = find_group db"
  "cached_users (set_group i h db) c = cached_users db c"
  by (simp_all add: perms_wf_def agrees_def groups_of_def cached_users_def find_user_def find_group_def
      set_user_def set_group_def fun_eq_iff)

lemma cached_set_user [simp]: "(\<And>u. u_id (f u) = u_id u) \<Longrightarrow> cached_users (set_user i f db) c = cached_users db c"
  by (simp add: cached_users_def)

text \<open>A commit that only touches users or groups keeps the state sound when every cached user is still
  there.\<close>

lemma sound_same_tables:
  assumes "sound s" and "db_perms db = db_perms (as_db s)" "db_members db = db_members (as_db s)"
    "db_scopes db = db_scopes (as_db s)"
    and "\<And>u. find_user (as_db s) u \<noteq> None \<Longrightarrow> find_user db u \<noteq> None"
    and "find_user db 0 = None" "find_group db 0 = None"
  shows "sound (s\<lparr>as_db := db\<rparr>)" "sound (s\<lparr>as_db := db, as_cache := as_cache s\<rparr>)"
  using assms agrees_same [of db "as_db s" "as_cache s"] perms_wf_same [of db "as_db s"]
  by (auto simp: sound_iff cached_users_def)

lemma invalidate_fields [simp]:
  "dget (ug_cache (invalidate_user_groups_cache (Some u) c)) v = (if v = u then None else dget (ug_cache c) v)"
  "gp_cache (invalidate_user_groups_cache w c) = gp_cache c" "gp_loaded (invalidate_user_groups_cache w c) = gp_loaded c"
  "ts_cache (invalidate_user_groups_cache w c) = ts_cache c" "ts_loaded (invalidate_user_groups_cache w c) = ts_loaded c"
  "ug_cache (invalidate_user_groups_cache None c) = []"
  "ug_cache (invalidate_group_permissions_cache c) = ug_cache c" "\<not> gp_loaded (invalidate_group_permissions_cache c)"
  "ts_cache (invalidate_group_permissions_cache c) = ts_cache c" "ts_loaded (invalidate_group_permissions_cache c) = ts_loaded c"
  "ug_cache (invalidate_group_tag_scopes_cache c) = ug_cache c" "\<not> ts_loaded (invalidate_group_tag_scopes_cache c)"
  "gp_cache (invalidate_group_tag_scopes_cache c) = gp_cache c" "gp_loaded (invalidate_group_tag_scopes_cache c) = gp_loaded c"
  by (auto simp: invalidate_user_groups_cache_def invalidate_group_permissions_cache_def
      invalidate_group_tag_scopes_cache_def dhas_def split: option.split)

lemma find_updates [simp]:
  "find_user (db\<lparr>db_members := m\<rparr>) = find_user db" "find_group (db\<lparr>db_members := m\<rparr>) = find_group db"
  "find_user (db\<lparr>db_perms := ps\<rparr>) = find_user db" "find_group (db\<lparr>db_perms := ps\<rparr>) = find_group db"
  "find_user (db\<lparr>db_scopes := ss\<rparr>) = find_user db" "find_group (db\<lparr>db_scopes := ss\<rparr>) = find_group db"
  "find_user (db\<lparr>db_groups := gs\<rparr>) = find_user db" "find_group (db\<lparr>db_users := us\<rparr>) = find_group db"
  "find_user (db\<lparr>db_keys := ks\<rparr>) = find_user db" "find_group (db\<lparr>db_keys := ks\<rparr>) = find_group db"
  by (simp_all add: find_user_def find_group_def fun_eq_iff)

lemma perms_wf_updates [simp]:
  "perms_wf (db\<lparr>db_members := m\<rparr>) = perms_wf db" "perms_wf (db\<lparr>db_scopes := ss\<rparr>) = perms_wf db"
  "perms_wf (db\<lparr>db_groups := gs\<rparr>) = perms_wf db" "perms_wf (db\<lparr>db_users := us\<rparr>) = perms_wf db"
  "perms_wf (db\<lparr>db_keys := ks\<rparr>) = perms_wf db"
  by (simp_all add: perms_wf_def)

lemma groups_of_updates [simp]:
  "groups_of (db\<lparr>db_perms := ps\<rparr>) = groups_of db" "groups_of (db\<lparr>db_scopes := ss\<rparr>) = groups_of db"
  "groups_of (db\<lparr>db_groups := gs\<rparr>) = groups_of db" "groups_of (db\<lparr>db_users := us\<rparr>) = groups_of db"
  "groups_of (db\<lparr>db_keys := ks\<rparr>) = groups_of db"
  by (simp_all add: groups_of_def fun_eq_iff)

lemma create_group_sound:
  assumes "sound s" and "i \<noteq> 0"
  shows "sound (snd (create_group i name desc s))"
  using assms sound_same_tables [of s]
  by (auto simp: create_group_def Let_def find_user_def find_group_def find_append sound_iff
      split: sum.split option.splits)

lemma update_group_sound:
  assumes "sound s"
  shows "sound (snd (update_group g name desc s))"
  using assms by (auto simp: update_group_def Let_def sound_iff split: sum.split option.split)

lemma find_drop_group: "find_group (drop_group i db) j = (if j = i then None else find_group db j)"
proof -
  have "find (\<lambda>g. g_id g = j) (filter (\<lambda>g. g_id g \<noteq> i) xs) =
    (if j = i then None else find (\<lambda>g. g_id g = j) xs)" for xs :: "group_row list"
    by (induction xs) auto
  then show ?thesis by (simp add: find_group_def drop_group_def)
qed

lemma drop_group_fields [simp]:
  "find_user (drop_group i db) = find_user db" "perms_wf db \<Longrightarrow> perms_wf (drop_group i db)"
  by (auto simp: drop_group_def find_user_def perms_wf_def distinct_map inj_on_def)

lemma delete_group_sound:
  assumes "sound s"
  shows "sound (snd (delete_group g s))"
  using assms
  by (auto simp: delete_group_def Let_def sound_iff agrees_def cached_users_def dhas_def
      find_drop_group split: option.split)

lemma groups_of_other:
  "u \<noteq> v \<Longrightarrow> groups_of (db\<lparr>db_members := db_members db @ map (\<lambda>g. (u, g)) gs\<rparr>) v = groups_of db v"
  "u \<noteq> v \<Longrightarrow> groups_of (db\<lparr>db_members := remove1 (u, g) (db_members db)\<rparr>) v = groups_of db v"
  "u \<noteq> v \<Longrightarrow> groups_of (db\<lparr>db_members := filter (\<lambda>(w, g). w \<noteq> u) (db_members db) @ map (\<lambda>g. (u, g)) gs\<rparr>) v = groups_of db v"
  by (induction gs) (auto simp: groups_of_def filter_empty_conv filter_remove1 remove1_idem
      intro!: arg_cong [of _ _ "map snd"] filter_cong)

lemma add_member_sound:
  assumes "sound s"
  shows "sound (snd (add_member g u s))"
  using assms groups_of_other(1) [of u _ "as_db s" "[g]"]
  by (auto simp: add_member_def Let_def sound_iff agrees_def cached_users_def dhas_def)

lemma remove_member_sound:
  assumes "sound s"
  shows "sound (snd (remove_member g u s))"
  using assms groups_of_other(2) [where u = u and db = "as_db s" and g = g]
  by (auto simp: remove_member_def Let_def sound_iff agrees_def cached_users_def dhas_def split: option.split)

lemma granted_row_None: "granted_row db g cap = None \<longleftrightarrow> (g, cap) \<notin> (\<lambda>p. (p_group_id p, p_capability p)) ` set (db_perms db)"
  by (auto simp: granted_row_def find_None_iff)

lemma set_perm_wf:
  assumes "perms_wf db"
  shows "perms_wf (set_perm g r db)"
proof -
  have "(\<lambda>p. (p_group_id p, p_capability p)) \<circ>
      (\<lambda>p :: perm_row. if p_group_id p = g \<and> p_capability p = fst r then p\<lparr>p_allowed := snd r\<rparr> else p) =
    (\<lambda>p. (p_group_id p, p_capability p))"
    by (auto simp: fun_eq_iff)
  then show ?thesis
    using assms granted_row_None [of db g "fst r"] by (auto simp: set_perm_def perms_wf_def split: option.split)
qed

lemma set_perm_fields [simp]:
  "find_user (set_perm g r db) = find_user db" "find_group (set_perm g r db) = find_group db"
  "db_members (set_perm g r db) = db_members db" "db_scopes (set_perm g r db) = db_scopes db"
  "groups_of (set_perm g r db) = groups_of db"
  by (auto simp: set_perm_def split: option.split)

lemma fold_set_perm:
  "find_user (fold (set_perm g) rs db) = find_user db" "find_group (fold (set_perm g) rs db) = find_group db"
  "db_members (fold (set_perm g) rs db) = db_members db" "db_scopes (fold (set_perm g) rs db) = db_scopes db"
  "groups_of (fold (set_perm g) rs db) = groups_of db"
  "perms_wf db \<Longrightarrow> perms_wf (fold (set_perm g) rs db)"
  by (induction rs arbitrary: db) (simp_all add: set_perm_wf)

lemma sound_ask:
  assumes "sound s" and "authenticated (as_db s) pr"
  obtains c where "get_effective_capabilities (as_db s) (as_cache s) pr = ({cap. holds (as_db s) pr cap}, c)"
    "sound (s\<lparr>as_cache := c\<rparr>)"
  using ask_effective [of "as_db s" "as_cache s" pr] assms by (auto simp: sound_def)

lemma update_permissions_sound:
  assumes "sound s" and "authenticated (as_db s) pr"
  shows "sound (snd (update_group_permissions pr g ps s))"
proof -
  from sound_ask [OF assms] obtain c where c:
    "get_effective_capabilities (as_db s) (as_cache s) pr = ({cap. holds (as_db s) pr cap}, c)"
    "sound (s\<lparr>as_cache := c\<rparr>)" .
  then show ?thesis
    using assms(1)
    by (auto simp: update_group_permissions_def Let_def sound_iff agrees_def cached_users_def fold_set_perm split: option.split)
qed

lemma copy_permissions_wf:
  assumes "perms_wf db" and "t \<noteq> src"
  shows "perms_wf (db\<lparr>db_perms := filter (\<lambda>p. p_group_id p \<noteq> t) (db_perms db)
    @ map (\<lambda>p. p\<lparr>p_group_id := t\<rparr>) (filter (\<lambda>p. p_group_id p = src) (db_perms db))\<rparr>)"
  using assms by (auto simp: perms_wf_def distinct_map inj_on_def)

lemma sound_perms:
  assumes "sound (s\<lparr>as_cache := c\<rparr>)" and "perms_wf ((as_db s)\<lparr>db_perms := ps\<rparr>)"
  shows "sound (s\<lparr>as_cache := invalidate_group_permissions_cache c, as_db := (as_db s)\<lparr>db_perms := ps\<rparr>\<rparr>)"
  using assms by (auto simp: sound_iff agrees_def cached_users_def)

lemma as_update_swap [simp]: "s\<lparr>as_cache := c, as_db := d, as_cache := c'\<rparr> = s\<lparr>as_cache := c', as_db := d\<rparr>"
  by simp

lemma copy_permissions_sound:
  assumes "sound s" and "authenticated (as_db s) pr"
  shows "sound (snd (copy_group_permissions pr t src s))"
proof -
  from sound_ask [OF assms] obtain c where c:
    "get_effective_capabilities (as_db s) (as_cache s) pr = ({cap. holds (as_db s) pr cap}, c)"
    "sound (s\<lparr>as_cache := c\<rparr>)" .
  have "perms_wf (as_db s)" using assms(1) by (simp add: sound_iff)
  from sound_perms [OF c(2) copy_permissions_wf [OF this]]
  show ?thesis using assms(1) c(2)
    unfolding copy_group_permissions_def Let_def c(1) prod.case
    by (simp split: option.split)
qed

lemma update_tag_scopes_sound:
  assumes "sound s"
  shows "sound (snd (update_group_tag_scopes g ts s))"
  using assms by (auto simp: update_group_tag_scopes_def Let_def sound_iff agrees_def cached_users_def)

lemma sound_ask_groups:
  assumes "sound s" and "authenticated (as_db s) pr"
  obtains c1 c2 where
    "group_caps_of (as_db s) (as_cache s) gs = (concat (map (\<lambda>g. caps_of_group (as_db s) (g_id g)) gs), c1)"
    "get_effective_capabilities (as_db s) c1 pr = ({cap. holds (as_db s) pr cap}, c2)" "sound (s\<lparr>as_cache := c2\<rparr>)"
proof -
  from ask_group_caps [of "as_db s" "as_cache s" gs] assms obtain c1 where c1:
    "group_caps_of (as_db s) (as_cache s) gs = (concat (map (\<lambda>g. caps_of_group (as_db s) (g_id g)) gs), c1)"
    "good_cache (as_db s) c1"
    by (auto simp: sound_def)
  with ask_effective [of "as_db s" c1 pr] assms that show thesis by (auto simp: sound_def)
qed

lemma agrees_new_member:
  assumes "agrees db c" and "\<not> dhas (ug_cache c) u"
  shows "agrees (db\<lparr>db_users := us, db_members := db_members db @ map (\<lambda>g. (u, g)) gs\<rparr>) c"
proof -
  have "gs' = groups_of (db\<lparr>db_users := us, db_members := db_members db @ map (\<lambda>g. (u, g)) gs\<rparr>) v"
    if "dget (ug_cache c) v = Some gs'" for v gs'
    using that assms groups_of_other(1) [of u v db gs]
    by (cases "v = u") (auto simp: agrees_def dhas_def groups_of_def)
  then show ?thesis using assms by (auto simp: agrees_def)
qed

lemma create_user_sound:
  assumes "sound s" and "authenticated (as_db s) pr" and "find_user (as_db s) i = None" "i \<noteq> 0"
  shows "sound (snd (create_user pr i name pw email shown gs must s))"
proof -
  have "sound (snd (create_user pr i name pw email shown gs must s))"
    if "validate_group_ids (as_db s) gs = Inr grps" for grps
  proof -
    from sound_ask_groups [OF assms(1,2), of grps] obtain c1 c2 where c:
      "group_caps_of (as_db s) (as_cache s) grps = (concat (map (\<lambda>g. caps_of_group (as_db s) (g_id g)) grps), c1)"
      "get_effective_capabilities (as_db s) c1 pr = ({cap. holds (as_db s) pr cap}, c2)"
      "sound (s\<lparr>as_cache := c2\<rparr>)" .
    have "\<not> dhas (ug_cache c2) i" using c(3) assms(3) by (auto simp: sound_iff cached_users_def)
    with c(3) assms(3,4) agrees_new_member [of "as_db s" c2 i] show ?thesis
      using assms(1)
      by (auto simp: create_user_def that c(1,2) Let_def sound_iff cached_users_def find_user_def find_append
          split: option.splits)
  qed
  then show ?thesis
    using assms(1) by (cases "validate_group_ids (as_db s) gs") (auto simp: create_user_def Let_def)
qed

lemma edit_user_id [simp]: "u_id (edit_user email shown u) = u_id u"
  by (simp add: edit_user_def)

lemma agrees_new_groups:
  assumes "agrees db c" and "\<not> dhas (ug_cache c') u"
    and "\<And>v. v \<noteq> u \<Longrightarrow> dget (ug_cache c') v = dget (ug_cache c) v"
    and "gp_cache c' = gp_cache c" "gp_loaded c' = gp_loaded c" "ts_cache c' = ts_cache c" "ts_loaded c' = ts_loaded c"
  shows "agrees (db\<lparr>db_members := filter (\<lambda>(w, g). w \<noteq> u) (db_members db) @ map (\<lambda>g. (u, g)) gs\<rparr>) c'"
  unfolding agrees_def
proof (intro conjI allI impI)
  fix v ids assume v: "dget (ug_cache c') v = Some ids"
  then have "v \<noteq> u" using assms(2) by (auto simp: dhas_def)
  with v assms(1,3) groups_of_other(3) [of u v db gs]
  show "ids = groups_of (db\<lparr>db_members := filter (\<lambda>(w, g). w \<noteq> u) (db_members db) @ map (\<lambda>g. (u, g)) gs\<rparr>) v"
    by (auto simp: agrees_def)
qed (use assms in \<open>auto simp: agrees_def\<close>)

lemma update_user_sound:
  assumes "sound s" and "authenticated (as_db s) pr"
  shows "sound (snd (update_user pr t email shown gs s))"
proof (cases gs)
  case (Some ids)
  have "sound (snd (update_user pr t email shown gs s))"
    if v: "validate_group_ids (as_db s) ids = Inr grps" for grps
  proof -
    from sound_ask_groups [OF assms(1,2), of grps] obtain c1 c2 where c:
      "group_caps_of (as_db s) (as_cache s) grps = (concat (map (\<lambda>g. caps_of_group (as_db s) (g_id g)) grps), c1)"
      "get_effective_capabilities (as_db s) c1 pr = ({cap. holds (as_db s) pr cap}, c2)"
      "sound (s\<lparr>as_cache := c2\<rparr>)" .
    let ?db = "set_user t (edit_user email shown) (as_db s)"
    have "agrees ?db c2" using c(3) by (simp add: sound_iff)
    from agrees_new_groups [OF this, of "invalidate_user_groups_cache (Some t) c2" t]
    have "agrees (?db\<lparr>db_members := filter (\<lambda>(w, g). w \<noteq> t) (db_members ?db) @ map (\<lambda>g. (t, g)) hs\<rparr>)
        (invalidate_user_groups_cache (Some t) c2)" for hs
      by (simp add: dhas_def)
    then show ?thesis
      using assms(1) c(3)
      by (auto simp: update_user_def v c(1,2) Some Let_def sound_iff cached_users_def dhas_def)
  qed
  then show ?thesis
    using assms(1) Some by (cases "validate_group_ids (as_db s) ids") (auto simp: update_user_def Let_def)
qed (use assms(1) in \<open>auto simp: update_user_def Let_def sound_iff\<close>)

lemma approve_sound: "sound s \<Longrightarrow> sound (snd (approve_user u s))"
  by (auto simp: approve_user_def Let_def sound_iff split: option.split)

lemma approve_all_sound:
  assumes "sound s"
  shows "sound (snd (approve_all_users s))"
proof -
  have "find (\<lambda>u. u_id u = i) (map (\<lambda>u. if u_approved u then u else u\<lparr>u_approved := True\<rparr>) us) =
      map_option (\<lambda>u. if u_approved u then u else u\<lparr>u_approved := True\<rparr>) (find (\<lambda>u. u_id u = i) us)"
    for i and us :: "user_row list"
    by (rule find_map_id) simp
  then show ?thesis
    using assms by (auto simp: approve_all_users_def sound_iff agrees_def cached_users_def find_user_def)
qed

lemma find_drop_user: "find_user (drop_user i db) j = (if j = i then None else find_user db j)"
proof -
  have "find (\<lambda>u. u_id u = j) (filter (\<lambda>u. u_id u \<noteq> i) us) =
    (if j = i then None else find (\<lambda>u. u_id u = j) us)" for us :: "user_row list"
    by (induction us) auto
  then show ?thesis by (simp add: find_user_def drop_user_def)
qed

lemma revoke_keys_fields [simp]:
  "find_user (revoke_api_keys_for_user db u now) = find_user db" "find_group (revoke_api_keys_for_user db u now) = find_group db"
  "perms_wf (revoke_api_keys_for_user db u now) = perms_wf db" "groups_of (revoke_api_keys_for_user db u now) = groups_of db"
  "db_perms (revoke_api_keys_for_user db u now) = db_perms db" "db_scopes (revoke_api_keys_for_user db u now) = db_scopes db"
  "db_members (revoke_api_keys_for_user db u now) = db_members db"
  by (simp_all add: revoke_api_keys_for_user_def)

lemma drop_user_fields [simp]:
  "find_group (drop_user i db) = find_group db" "perms_wf (drop_user i db) = perms_wf db"
  "db_perms (drop_user i db) = db_perms db" "db_scopes (drop_user i db) = db_scopes db"
  by (simp_all add: drop_user_def find_group_def perms_wf_def fun_eq_iff)

lemma groups_of_drop_user: "groups_of (drop_user i db) v = (if v = i then [] else groups_of db v)"
proof -
  have "filter (\<lambda>(u, g). u = v) (filter (\<lambda>(u, g). u \<noteq> i) ms) =
    (if v = i then [] else filter (\<lambda>(u, g). u = v) ms)" for ms :: "(int \<times> int) list"
    by (induction ms) auto
  then show ?thesis by (simp add: groups_of_def drop_user_def)
qed

lemma sound_sessions [simp]: "sound (s\<lparr>as_sessions := x\<rparr>) = sound s"
  by (simp add: sound_def)

lemma delete_user_sound:
  assumes "sound s"
  shows "sound (snd (delete_user pr now u s))"
  using assms
  by (auto simp: delete_user_def Let_def sound_iff agrees_def cached_users_def dhas_def
      find_drop_user groups_of_drop_user split: option.split)

lemma reset_password_sound:
  assumes "sound s" and "authenticated (as_db s) pr"
  shows "sound (snd (reset_user_password pr u pw s))"
proof (cases "find_user (as_db s) u")
  case (Some r)
  from sound_ask [OF assms] obtain c1 where c1:
    "get_effective_capabilities (as_db s) (as_cache s) pr = ({cap. holds (as_db s) pr cap}, c1)"
    "sound (s\<lparr>as_cache := c1\<rparr>)" .
  with ask_user_caps [of "as_db s" c1 u] Some obtain c2 where
    "get_capabilities_for_user (as_db s) c1 u = (caps_of_user (as_db s) u, c2)" "good_cache (as_db s) c2"
    by (auto simp: sound_def)
  with c1 Some assms(1) show ?thesis
    by (auto simp: reset_user_password_def Let_def sound_iff good_cache_def)
qed (use assms(1) in \<open>simp add: reset_user_password_def Let_def\<close>)

lemma guarded_sound:
  assumes "sound s" and "authenticated (as_db s) pr" and h: "\<And>c. sound (s\<lparr>as_cache := c\<rparr>) \<Longrightarrow> sound (snd (h (s\<lparr>as_cache := c\<rparr>)))"
  shows "sound (snd (guarded cap pr h s))"
proof -
  from ask_capability [of "as_db s" "as_cache s" pr cap] assms(1,2) obtain c where
    "check_auth_capability (as_db s) (as_cache s) pr cap = (holds (as_db s) pr cap, c)" "sound (s\<lparr>as_cache := c\<rparr>)"
    by (auto simp: sound_def)
  with h show ?thesis by (simp add: guarded_def require_capability_def)
qed

text \<open>Ids of new rows are not in use and not 0.\<close>

definition fresh_ids :: "(int list \<Rightarrow> int) \<Rightarrow> bool" where
  "fresh_ids fresh = (\<forall>ids. fresh ids \<notin> set ids \<and> fresh ids \<noteq> 0)"

lemma fresh_user: "fresh_ids fresh \<Longrightarrow> find_user db (fresh (map u_id (db_users db))) = None"
  by (auto simp: fresh_ids_def find_user_def find_None_iff) (metis image_eqI list.set_map)

theorem route_sound:
  assumes "fresh_ids fresh" and "sound s" and "authenticated (as_db s) pr"
  shows "sound (snd (route fresh pr req s))"
proof (cases req)
  case AskHosts
  with ask_hosts_good [of "as_db s" "as_cache s" pr] assms show ?thesis
    by (auto simp: ask_hosts_def sound_def)
qed (use assms fresh_user [OF assms(1)] in \<open>auto simp: fresh_ids_def intro!: guarded_sound [OF assms(2,3)]
      create_group_sound update_group_sound delete_group_sound add_member_sound remove_member_sound
      update_permissions_sound update_tag_scopes_sound copy_permissions_sound create_user_sound
      update_user_sound approve_sound approve_all_sound delete_user_sound reset_password_sound\<close>)

interpretation administration: machine "admin_step fresh" "\<lambda>s. fresh_ids fresh \<longrightarrow> sound s" for fresh
  by unfold_locales (auto simp: admin_step_def serve_def intro: route_sound)

section \<open>Critical capabilities\<close>

definition secured :: "auth_db \<Rightarrow> bool" where
  "secured db = (lost_capability db = None)"

lemma secured_iff: "secured db \<longleftrightarrow> (\<forall>cap \<in> set CRITICAL_CAPABILITIES. granted_with_members db cap None)"
  by (auto simp: secured_def lost_capability_def find_None_iff)

lemma granted_with_members_iff:
  "granted_with_members db cap x \<longleftrightarrow>
     (\<exists>p \<in> set (db_perms db). p_capability p = cap \<and> p_allowed p \<and> Some (p_group_id p) \<noteq> x
        \<and> (\<exists>u. (u, p_group_id p) \<in> set (db_members db)))"
  by (auto simp: granted_with_members_def list_ex_iff)

lemma secured_mono:
  "secured db \<Longrightarrow> db_perms db' = db_perms db \<Longrightarrow> set (db_members db) \<subseteq> set (db_members db') \<Longrightarrow> secured db'"
  unfolding secured_iff granted_with_members_iff by (metis subsetD)

lemma secured_drop_group:
  assumes "secured db"
    and "find (\<lambda>p. p_group_id p = g \<and> p_allowed p \<and> p_capability p \<in> set CRITICAL_CAPABILITIES
          \<and> \<not> granted_with_members db (p_capability p) (Some g)) (db_perms db) = None"
  shows "secured (drop_group g db)"
proof -
  have "granted_with_members (drop_group g db) cap None" if cap: "cap \<in> set CRITICAL_CAPABILITIES" for cap
  proof -
    have "granted_with_members db cap (Some g)"
    proof (cases "\<exists>p \<in> set (db_perms db). p_capability p = cap \<and> p_allowed p \<and> p_group_id p = g")
      case True
      with assms(2) cap show ?thesis by (auto simp: find_None_iff)
    next
      case False
      with assms(1) cap show ?thesis by (auto simp: secured_iff granted_with_members_iff) blast
    qed
    then show ?thesis by (auto simp: granted_with_members_iff drop_group_def)
  qed
  then show ?thesis by (simp add: secured_iff)
qed

lemma guarded_db:
  assumes "P (as_db s)" and "\<And>s'. as_db s' = as_db s \<Longrightarrow> P (as_db (snd (h s')))"
  shows "P (as_db (snd (guarded cap pr h s)))"
  using assms by (simp add: guarded_def Let_def split: prod.split sum.split)

text \<open>The requests that can take the last holder of a capability out of his group.\<close>

fun unguarded :: "request \<Rightarrow> bool" where
  "unguarded (RemoveMember g u) = True"
| "unguarded (UpdateUser u email shown gs) = (gs \<noteq> None)"
| "unguarded r = False"

lemma secured_route:
  assumes "secured (as_db s)" and "\<not> unguarded req"
  shows "secured (as_db (snd (route fresh pr req s)))"
proof (cases req)
    case (DeleteGroup g)
    show ?thesis unfolding DeleteGroup route.simps
      by (rule guarded_db [where P = secured]) (use assms(1) in \<open>auto simp: delete_group_def Let_def secured_drop_group split: option.split\<close>)
  next
    case (UpdatePermissions g ps)
    show ?thesis unfolding UpdatePermissions route.simps
      by (rule guarded_db [where P = secured]) (use assms(1) in \<open>auto simp: update_group_permissions_def Let_def secured_def [symmetric] split: option.split prod.split\<close>)
  next
    case (CopyPermissions g h)
    show ?thesis unfolding CopyPermissions route.simps
      by (rule guarded_db [where P = secured]) (use assms(1) in \<open>auto simp: copy_group_permissions_def Let_def secured_def [symmetric] split: option.split prod.split\<close>)
  next
    case (DeleteUser now u)
    show ?thesis unfolding DeleteUser route.simps
      by (rule guarded_db [where P = secured]) (use assms(1) in \<open>auto simp: delete_user_def Let_def secured_def [symmetric] split: option.split\<close>)
  next
    case (CreateGroup name desc)
    show ?thesis unfolding CreateGroup route.simps
      by (rule guarded_db [where P = secured]) (use assms(1) in \<open>auto intro!: secured_mono [OF assms(1)] simp: create_group_def Let_def split: sum.split\<close>)
  next
    case (UpdateGroup g name desc)
    show ?thesis unfolding UpdateGroup route.simps
      by (rule guarded_db [where P = secured]) (use assms(1) in \<open>auto intro!: secured_mono [OF assms(1)] simp: update_group_def Let_def split: sum.split option.split\<close>)
  next
    case (AddMember g u)
    show ?thesis unfolding AddMember route.simps
      by (rule guarded_db [where P = secured]) (use assms(1) in \<open>auto intro!: secured_mono [OF assms(1)] simp: add_member_def Let_def\<close>)
  next
    case (UpdateTagScopes g ts)
    show ?thesis unfolding UpdateTagScopes route.simps
      by (rule guarded_db [where P = secured]) (use assms(1) in \<open>auto intro!: secured_mono [OF assms(1)] simp: update_group_tag_scopes_def Let_def\<close>)
  next
    case (CreateUser name pw email shown gs must)
    show ?thesis unfolding CreateUser route.simps
      by (rule guarded_db [where P = secured]) (use assms(1) in \<open>auto intro!: secured_mono [OF assms(1)] simp: create_user_def Let_def split: sum.split prod.split\<close>)
  next
    case (UpdateUser u email shown gs)
    with assms(2) have "gs = None" by simp
    show ?thesis unfolding UpdateUser route.simps
      by (rule guarded_db [where P = secured]) (use assms(1) \<open>gs = None\<close> in \<open>auto intro!: secured_mono [OF assms(1)] simp: update_user_def Let_def\<close>)
  next
    case (ApproveUser u)
    show ?thesis unfolding ApproveUser route.simps
      by (rule guarded_db [where P = secured]) (use assms(1) in \<open>auto intro!: secured_mono [OF assms(1)] simp: approve_user_def Let_def split: option.split\<close>)
  next
    case ApproveAll
    show ?thesis unfolding ApproveAll route.simps
      by (rule guarded_db [where P = secured]) (use assms(1) in \<open>auto intro!: secured_mono [OF assms(1)] simp: approve_all_users_def\<close>)
  next
    case (ResetPassword u pw)
    show ?thesis unfolding ResetPassword route.simps
      by (rule guarded_db [where P = secured]) (use assms(1) in \<open>auto intro!: secured_mono [OF assms(1)] simp: reset_user_password_def Let_def split: option.split prod.split\<close>)
qed (use assms in \<open>auto intro!: guarded_db [where P = secured] simp: ask_hosts_def\<close>)

interpretation guarded_administration: guarded_machine "admin_step fresh" "\<lambda>r. \<not> unguarded (snd r)" "\<lambda>s. secured (as_db s)"
  for fresh
  by unfold_locales (auto simp: admin_step_def serve_def intro: secured_route)

section \<open>Nobody gains beyond the actor\<close>

definition no_gain :: "principal \<Rightarrow> auth_db \<Rightarrow> auth_db \<Rightarrow> bool" where
  "no_gain pr db db' =
     ((\<forall>g cap. grants db' g cap \<longrightarrow> grants db g cap \<or> holds db pr cap)
    \<and> (\<forall>u g. (u, g) \<in> set (db_members db') \<longrightarrow>
         (u, g) \<in> set (db_members db) \<or> (\<forall>cap. grants db g cap \<longrightarrow> holds db pr cap)))"

lemma grants_iff: "grants db g cap \<longleftrightarrow> (\<exists>p \<in> set (db_perms db). p_group_id p = g \<and> p_capability p = cap \<and> p_allowed p)"
  by (simp add: grants_def list_ex_iff)

lemma user_holds_iff: "user_holds db u cap \<longleftrightarrow> (\<exists>g. (u, g) \<in> set (db_members db) \<and> grants db g cap)"
  by (force simp: user_holds_def groups_of_def list_ex_iff)

lemma no_gain_user: "no_gain pr db db' \<Longrightarrow> user_holds db' u cap \<Longrightarrow> user_holds db u cap \<or> holds db pr cap"
  unfolding user_holds_iff no_gain_def by blast

lemma no_gain_sub:
  "set (db_perms db') \<subseteq> set (db_perms db) \<Longrightarrow> set (db_members db') \<subseteq> set (db_members db) \<Longrightarrow> no_gain pr db db'"
  unfolding no_gain_def grants_iff by blast

lemma no_gain_refl [simp]: "no_gain pr db db"
  by (simp add: no_gain_sub)

lemma beyond_Nil: "beyond a cs = [] \<longleftrightarrow> set cs \<subseteq> a"
  by (auto simp: beyond_def filter_empty_conv set_empty [symmetric] simp del: set_empty)

lemma grants_set_perm: "grants (set_perm g r db) h cap \<Longrightarrow> grants db h cap \<or> h = g \<and> r = (cap, True)"
  by (cases r) (force simp: set_perm_def grants_iff split: option.splits if_splits)

lemma grants_fold_set_perm:
  "grants (fold (set_perm g) rs db) h cap \<Longrightarrow> grants db h cap \<or> h = g \<and> (cap, True) \<in> set rs"
  by (induction rs arbitrary: db) (auto dest!: grants_set_perm)

lemma granted_row_grants: "granted_row db g cap = Some p \<Longrightarrow> p_allowed p \<Longrightarrow> grants db g cap"
  by (auto simp: granted_row_def find_Some_iff grants_iff)

lemma sort_remdups_Nil: "sort (remdups xs) = [] \<longleftrightarrow> xs = []"
  by (metis set_empty set_remdups set_sort)

lemma newly_granted_Nil:
  assumes "newly_granted db g a rs = []" and "(cap, True) \<in> set rs"
  shows "cap \<in> a \<or> grants db g cap"
  using assms granted_row_grants [of db g cap]
  by (auto simp: newly_granted_def sort_remdups_Nil filter_empty_conv split: option.splits)

lemma update_permissions_no_gain:
  assumes "sound s" and "authenticated (as_db s) pr"
  shows "no_gain pr (as_db s) (as_db (snd (update_group_permissions pr g ps s)))"
proof -
  from sound_ask [OF assms] obtain c where c:
    "get_effective_capabilities (as_db s) (as_cache s) pr = ({cap. holds (as_db s) pr cap}, c)" .
  let ?ps = "fold (\<lambda>r d. dset (fst r) (snd r) d) ps []"
  have "no_gain pr (as_db s) (fold (set_perm g) ?ps (as_db s))"
    if "newly_granted (as_db s) g {cap. holds (as_db s) pr cap} ?ps = []"
    using grants_fold_set_perm newly_granted_Nil [OF that] by (fastforce simp: no_gain_def fold_set_perm(3))
  then show ?thesis
    by (auto simp: update_group_permissions_def c Let_def split: option.split)
qed

lemma copy_permissions_no_gain:
  assumes "sound s" and "authenticated (as_db s) pr"
  shows "no_gain pr (as_db s) (as_db (snd (copy_group_permissions pr t src s)))"
proof -
  from sound_ask [OF assms] obtain c where c:
    "get_effective_capabilities (as_db s) (as_cache s) pr = ({cap. holds (as_db s) pr cap}, c)" .
  let ?db = "as_db s"
  let ?src = "filter (\<lambda>p. p_group_id p = src) (db_perms ?db)"
  let ?db' = "?db\<lparr>db_perms := filter (\<lambda>p. p_group_id p \<noteq> t) (db_perms ?db) @ map (\<lambda>p. p\<lparr>p_group_id := t\<rparr>) ?src\<rparr>"
  have "no_gain pr ?db ?db'"
    if none: "filter (\<lambda>cap. \<not> holds ?db pr cap \<and> cap \<notin> set (map p_capability (filter (\<lambda>p. p_group_id p = t \<and> p_allowed p) (db_perms ?db))))
         (map p_capability (filter p_allowed ?src)) = []"
  proof -
    have "grants ?db g cap \<or> holds ?db pr cap" if "grants ?db' g cap" for g cap
    proof -
      from that consider "grants ?db g cap" | q where "g = t" "q \<in> set ?src" "p_allowed q" "p_capability q = cap"
        by (auto simp: grants_iff)
      then show ?thesis
      proof cases
        case 2
        then have "cap \<in> set (map p_capability (filter p_allowed ?src))" by auto
        with none have "holds ?db pr cap \<or> cap \<in> set (map p_capability (filter (\<lambda>p. p_group_id p = t \<and> p_allowed p) (db_perms ?db)))"
          unfolding filter_empty_conv by blast
        then show ?thesis using 2(1) by (auto simp: grants_iff)
      qed simp
    qed
    then show ?thesis by (simp add: no_gain_def)
  qed
  then show ?thesis
    by (auto simp: copy_group_permissions_def c Let_def sort_remdups_Nil split: option.split)
qed

lemma validated_groups:
  assumes "validate_group_ids db ids = Inr grps" and "distinct (map g_id (db_groups db))"
  shows "set ids = g_id ` set grps" "ids \<noteq> []"
proof -
  let ?grps = "filter (\<lambda>g. g_id g \<in> set ids) (db_groups db)"
  from assms(1) have g: "grps = ?grps" "length ?grps = length ids" "ids \<noteq> []"
    by (auto simp: validate_group_ids_def Let_def split: if_splits)
  have sub: "g_id ` set ?grps \<subseteq> set ids" by auto
  have "card (g_id ` set ?grps) = length ?grps"
    using distinct_card [of "map g_id ?grps"] assms(2) by (simp add: distinct_map_filter)
  then have "card (set ids) \<le> card (g_id ` set ?grps)" using g(2) card_length [of ids] by simp
  then show "set ids = g_id ` set grps" using card_seteq [OF _ sub] g(1) by simp
  show "ids \<noteq> []" by (rule g(3))
qed

lemma no_gain_members:
  assumes "validate_group_ids db ids = Inr grps" "distinct (map g_id (db_groups db))"
    and "beyond {cap. holds db pr cap} (concat (map (\<lambda>g. caps_of_group db (g_id g)) grps)) = []"
    and "db_perms db' = db_perms db"
    and "\<And>v g. (v, g) \<in> set (db_members db') \<Longrightarrow> (v, g) \<in> set (db_members db) \<or> g \<in> set ids"
  shows "no_gain pr db db'"
proof -
  have "holds db pr cap" if g: "g \<in> set ids" "grants db g cap" for g cap
  proof -
    from g(1) validated_groups(1) [OF assms(1,2)] obtain r where "r \<in> set grps" "g = g_id r" by auto
    with g(2) assms(3) show ?thesis by (auto simp: beyond_Nil set_caps_of_group [symmetric])
  qed
  with assms(4,5) show ?thesis unfolding no_gain_def grants_iff by metis
qed

lemma create_user_no_gain:
  assumes "sound s" and "authenticated (as_db s) pr" and "distinct (map g_id (db_groups (as_db s)))"
  shows "no_gain pr (as_db s) (as_db (snd (create_user pr i name pw email shown gs must s)))"
proof (cases "validate_group_ids (as_db s) gs")
  case (Inr grps)
  from sound_ask_groups [OF assms(1,2), of grps] obtain c1 c2 where c:
    "group_caps_of (as_db s) (as_cache s) grps = (concat (map (\<lambda>g. caps_of_group (as_db s) (g_id g)) grps), c1)"
    "get_effective_capabilities (as_db s) c1 pr = ({cap. holds (as_db s) pr cap}, c2)" .
  show ?thesis
    by (auto intro!: no_gain_members [OF Inr assms(3)] simp: create_user_def Inr c Let_def)
qed (simp add: create_user_def Let_def)

lemma update_user_no_gain:
  assumes "sound s" and "authenticated (as_db s) pr" and "distinct (map g_id (db_groups (as_db s)))"
  shows "no_gain pr (as_db s) (as_db (snd (update_user pr t email shown gs s)))"
proof (cases gs)
  case (Some ids)
  show ?thesis
  proof (cases "validate_group_ids (as_db s) ids")
    case (Inr grps)
    from sound_ask_groups [OF assms(1,2), of grps] obtain c1 c2 where c:
      "group_caps_of (as_db s) (as_cache s) grps = (concat (map (\<lambda>g. caps_of_group (as_db s) (g_id g)) grps), c1)"
      "get_effective_capabilities (as_db s) c1 pr = ({cap. holds (as_db s) pr cap}, c2)" .
    show ?thesis
      by (auto intro!: no_gain_members [OF Inr assms(3)] simp: update_user_def Inr c Some Let_def)
  qed (simp add: update_user_def Some Let_def)
qed (auto simp: update_user_def Let_def intro: no_gain_sub)

end
