(* ===== verification/AdminProps.thy ===== *)
theory AdminProps
  imports GroupAdminLaws
begin

text \<open>The properties of the administration of users and groups, and runs in which the code does not
  keep what it means to.\<close>

section \<open>Lemmas\<close>

lemma guarded_rel:
  assumes "sound s" and "authenticated (as_db s) pr" and "P (as_db s)"
    and h: "\<And>c. sound (s\<lparr>as_cache := c\<rparr>) \<Longrightarrow> P (as_db (snd (h (s\<lparr>as_cache := c\<rparr>))))"
  shows "P (as_db (snd (guarded cap pr h s)))"
proof -
  from ask_capability [of "as_db s" "as_cache s" pr cap] assms(1,2) obtain c where
    "check_auth_capability (as_db s) (as_cache s) pr cap = (holds (as_db s) pr cap, c)" "sound (s\<lparr>as_cache := c\<rparr>)"
    by (auto simp: sound_def)
  with h assms(3) show ?thesis by (simp add: guarded_def require_capability_def)
qed

lemma drop_sub:
  "set (db_perms (drop_group g db)) \<subseteq> set (db_perms db)" "set (db_members (drop_group g db)) \<subseteq> set (db_members db)"
  "set (db_members (drop_user u db)) \<subseteq> set (db_members db)"
  by (auto simp: drop_group_def drop_user_def)

lemma visible_through: "host_is_visible (Some h) (visible_of db gs) \<longleftrightarrow> sees_through db gs h"
  by (auto simp: host_is_visible_def visible_of_def sees_through_iff list_ex_iff)

fun adds_member :: "request \<Rightarrow> bool" where
  "adds_member (AddMember g u) = True"
| "adds_member r = False"

lemma route_no_gain:
  assumes "sound s" and "authenticated (as_db s) pr" and "distinct (map g_id (db_groups (as_db s)))"
    and "\<not> adds_member req"
  shows "no_gain pr (as_db s) (as_db (snd (route fresh pr req s)))"
proof (cases req)
  case (CreateUser name pw email shown gs must)
  show ?thesis unfolding CreateUser route.simps
    by (rule guarded_rel [where P = "no_gain pr (as_db s)", OF assms(1,2)])
      (use assms create_user_no_gain [of "s\<lparr>as_cache := _\<rparr>" pr] in auto)
next
  case (UpdateUser u email shown gs)
  show ?thesis unfolding UpdateUser route.simps
    by (rule guarded_rel [where P = "no_gain pr (as_db s)", OF assms(1,2)])
      (use assms update_user_no_gain [of "s\<lparr>as_cache := _\<rparr>" pr] in auto)
next
  case (UpdatePermissions g ps)
  show ?thesis unfolding UpdatePermissions route.simps
    by (rule guarded_rel [where P = "no_gain pr (as_db s)", OF assms(1,2)])
      (use assms update_permissions_no_gain [of "s\<lparr>as_cache := _\<rparr>" pr] in auto)
next
  case (CopyPermissions g h)
  show ?thesis unfolding CopyPermissions route.simps
    by (rule guarded_rel [where P = "no_gain pr (as_db s)", OF assms(1,2)])
      (use assms copy_permissions_no_gain [of "s\<lparr>as_cache := _\<rparr>" pr] in auto)
next
  case (CreateGroup name desc)
  show ?thesis unfolding CreateGroup route.simps
    by (rule guarded_db [where P = "no_gain pr (as_db s)"])
      (auto simp: create_group_def Let_def intro!: no_gain_sub split: sum.split)
next
  case (UpdateGroup g name desc)
  show ?thesis unfolding UpdateGroup route.simps
    by (rule guarded_db [where P = "no_gain pr (as_db s)"])
      (auto simp: update_group_def Let_def intro!: no_gain_sub split: sum.split option.split)
next
  case (DeleteGroup g)
  show ?thesis unfolding DeleteGroup route.simps
    by (rule guarded_db [where P = "no_gain pr (as_db s)"])
      (auto simp: delete_group_def Let_def intro!: no_gain_sub drop_sub split: option.split)
next
  case (RemoveMember g u)
  show ?thesis unfolding RemoveMember route.simps
    by (rule guarded_db [where P = "no_gain pr (as_db s)"])
      (auto simp: remove_member_def Let_def intro!: no_gain_sub dest: in_set_remove1 [THEN iffD1, rotated] notin_set_remove1
        split: option.split)
next
  case (UpdateTagScopes g ts)
  show ?thesis unfolding UpdateTagScopes route.simps
    by (rule guarded_db [where P = "no_gain pr (as_db s)"])
      (auto simp: update_group_tag_scopes_def Let_def intro!: no_gain_sub)
next
  case (ApproveUser u)
  show ?thesis unfolding ApproveUser route.simps
    by (rule guarded_db [where P = "no_gain pr (as_db s)"])
      (auto simp: approve_user_def Let_def intro!: no_gain_sub split: option.split)
next
  case ApproveAll
  show ?thesis unfolding ApproveAll route.simps
    by (rule guarded_db [where P = "no_gain pr (as_db s)"]) (auto simp: approve_all_users_def intro!: no_gain_sub)
next
  case (DeleteUser now u)
  show ?thesis unfolding DeleteUser route.simps
    by (rule guarded_db [where P = "no_gain pr (as_db s)"])
      (use drop_sub(3) [of u "revoke_api_keys_for_user (as_db s) u now"]
        in \<open>auto simp: delete_user_def Let_def intro!: no_gain_sub split: option.split\<close>)
next
  case (ResetPassword u pw)
  show ?thesis unfolding ResetPassword route.simps
    by (rule guarded_db [where P = "no_gain pr (as_db s)"])
      (auto simp: reset_user_password_def Let_def intro!: no_gain_sub split: option.split prod.split)
next
  case (AskCapability cap)
  show ?thesis unfolding AskCapability route.simps
    by (rule guarded_db [where P = "no_gain pr (as_db s)"]) auto
qed (use assms(4) in \<open>auto simp: ask_hosts_def\<close>)

section \<open>Users keep a group\<close>

definition grouped :: "auth_db \<Rightarrow> bool" where
  "grouped db = (\<forall>u \<in> set (db_users db). groups_of db (u_id u) \<noteq> [])"

lemma grouped_iff: "grouped db \<longleftrightarrow> (\<forall>u. find_user db u \<noteq> None \<longrightarrow> (\<exists>g. (u, g) \<in> set (db_members db)))"
  by (force simp: grouped_def groups_of_def filter_empty_conv find_user_def find_None_iff)

lemma grouped_mono:
  "grouped db \<Longrightarrow> (\<And>u. find_user db' u \<noteq> None \<Longrightarrow> find_user db u \<noteq> None) \<Longrightarrow>
     set (db_members db) \<subseteq> set (db_members db') \<Longrightarrow> grouped db'"
  unfolding grouped_iff by blast

lemma grouped_drop_group:
  assumes "grouped db" and "only_this_group db g = []"
  shows "grouped (drop_group g db)"
  unfolding grouped_iff
proof (intro allI impI)
  fix u assume "find_user (drop_group g db) u \<noteq> None"
  then obtain r where r: "find_user db u = Some r" by auto
  with assms(1) obtain h where h: "(u, h) \<in> set (db_members db)" unfolding grouped_iff by blast
  have "\<exists>h. h \<noteq> g \<and> (u, h) \<in> set (db_members db)"
  proof (cases "h = g")
    case True
    with assms(2) h r show ?thesis
      by (auto simp: only_this_group_def concat_eq_Nil_conv list_ex_iff split: option.splits)
  qed (use h in blast)
  then show "\<exists>h. (u, h) \<in> set (db_members (drop_group g db))" by (auto simp: drop_group_def)
qed

lemma grouped_remove:
  assumes "grouped db" and "\<not> length (filter (\<lambda>(w, h). w = u) (db_members db)) \<le> 1"
  shows "grouped (db\<lparr>db_members := remove1 (u, g) (db_members db)\<rparr>)"
  unfolding grouped_iff
proof (intro allI impI)
  fix v assume "find_user (db\<lparr>db_members := remove1 (u, g) (db_members db)\<rparr>) v \<noteq> None"
  then obtain h where h: "(v, h) \<in> set (db_members db)" using assms(1) unfolding grouped_iff by auto
  show "\<exists>h. (v, h) \<in> set (db_members (db\<lparr>db_members := remove1 (u, g) (db_members db)\<rparr>))"
  proof (cases "v = u")
    case True
    have "length (filter (\<lambda>(w, h). w = u) (remove1 (u, g) (db_members db))) \<ge> 1"
      using assms(2) by (simp add: filter_remove1 length_remove1) arith
    then have "filter (\<lambda>(w, h). w = u) (remove1 (u, g) (db_members db)) \<noteq> []" by auto
    with True show ?thesis by (auto simp: filter_empty_conv)
  next
    case False
    with h have "(v, h) \<in> set (remove1 (u, g) (db_members db))" by (simp add: in_set_remove1)
    then show ?thesis by auto
  qed
qed

lemma grouped_new_groups:
  assumes "grouped db" and "ids \<noteq> []"
  shows "grouped ((set_user u (edit_user email shown) db)\<lparr>db_members := filter (\<lambda>(w, h). w \<noteq> u) (db_members db)
      @ map (\<lambda>g. (u, g)) (remdups ids)\<rparr>)"
  unfolding grouped_iff
proof (intro allI impI)
  let ?db = "(set_user u (edit_user email shown) db)\<lparr>db_members := filter (\<lambda>(w, h). w \<noteq> u) (db_members db)
      @ map (\<lambda>g. (u, g)) (remdups ids)\<rparr>"
  fix v assume "find_user ?db v \<noteq> None"
  then obtain h where h: "(v, h) \<in> set (db_members db)" using assms(1) unfolding grouped_iff by auto
  obtain i where "i \<in> set ids" using assms(2) by (cases ids) auto
  then have "if v = u then (v, i) \<in> set (db_members ?db) else (v, h) \<in> set (db_members ?db)" using h by auto
  then show "\<exists>g. (v, g) \<in> set (db_members ?db)" by (meson)
qed

lemma grouped_route:
  assumes "grouped (as_db s)"
  shows "grouped (as_db (snd (route fresh pr req s)))"
proof (cases req)
  case (DeleteGroup g)
  show ?thesis unfolding DeleteGroup route.simps
    by (rule guarded_db [where P = grouped])
      (use assms in \<open>auto simp: delete_group_def Let_def grouped_drop_group split: option.split\<close>)
next
  case (RemoveMember g u)
  show ?thesis unfolding RemoveMember route.simps
    by (rule guarded_db [where P = grouped])
      (use assms in \<open>auto simp: remove_member_def Let_def intro!: grouped_remove split: option.split\<close>)
next
  case (CreateUser name pw email shown gs must)
  have "grouped (db\<lparr>db_users := db_users db @ [r], db_members := db_members db @ map (\<lambda>g. (u_id r, g)) gs\<rparr>)"
    if "grouped db" "gs \<noteq> []" for db :: auth_db and r :: user_row
    using that unfolding grouped_iff
    by (cases gs) (auto simp: find_user_def find_append split: option.splits if_splits)
  note new = this [of _ "\<lparr>u_id = _, u_username = _, u_password_hash = _, u_display_name = _, u_email = _,
      u_role = _, u_auth_provider = _, u_is_first_login = _, u_must_change_password = _, u_approved = _\<rparr>", simplified]
  have ne: "validate_group_ids db gs = Inr grps \<Longrightarrow> gs \<noteq> []" for db grps by (auto simp: validate_group_ids_def)
  show ?thesis unfolding CreateUser route.simps
    by (rule guarded_db [where P = grouped])
      (use assms ne in \<open>auto simp: create_user_def Let_def intro!: new split: sum.split prod.split\<close>)
next
  case (UpdateUser u email shown gs)
  have "validate_group_ids db ids = Inr grps \<Longrightarrow> ids \<noteq> []" for db ids grps
    by (auto simp: validate_group_ids_def)
  moreover have "grouped (set_user u (edit_user email shown) db)" if "grouped db" for db
    using that unfolding grouped_iff by auto
  ultimately show ?thesis unfolding UpdateUser route.simps
    by (intro guarded_db [where P = grouped])
      (use assms in \<open>auto simp: update_user_def Let_def grouped_new_groups split: sum.split prod.split option.split\<close>)
next
  case (DeleteUser now u)
  have "grouped (drop_user u db)" if "grouped db" for db
    using that unfolding grouped_iff by (auto simp: find_drop_user) (auto simp: drop_user_def)
  moreover have "grouped (revoke_api_keys_for_user db u now)" if "grouped db" for db
    using that unfolding grouped_iff by simp
  ultimately show ?thesis unfolding DeleteUser route.simps
    by (intro guarded_db [where P = grouped])
      (use assms in \<open>auto simp: delete_user_def Let_def split: option.split\<close>)
next
  case (UpdatePermissions g ps)
  show ?thesis unfolding UpdatePermissions route.simps
    by (rule guarded_db [where P = grouped])
      (use assms in \<open>auto simp: update_group_permissions_def Let_def fold_set_perm grouped_iff
        split: option.split prod.split\<close>)
next
  case (CreateGroup name desc)
  show ?thesis unfolding CreateGroup route.simps
    by (rule guarded_db [where P = grouped])
      (use assms in \<open>auto simp: create_group_def Let_def intro!: grouped_mono [OF assms] split: sum.split\<close>)
next
  case (UpdateGroup g name desc)
  show ?thesis unfolding UpdateGroup route.simps
    by (rule guarded_db [where P = grouped])
      (use assms in \<open>auto simp: update_group_def Let_def intro!: grouped_mono [OF assms] split: sum.split option.split\<close>)
next
  case (CopyPermissions g h)
  show ?thesis unfolding CopyPermissions route.simps
    by (rule guarded_db [where P = grouped])
      (use assms in \<open>auto simp: copy_group_permissions_def Let_def intro!: grouped_mono [OF assms] split: option.split prod.split\<close>)
next
  case (AddMember g u)
  show ?thesis unfolding AddMember route.simps
    by (rule guarded_db [where P = grouped])
      (use assms in \<open>auto simp: add_member_def Let_def intro!: grouped_mono [OF assms]\<close>)
next
  case (UpdateTagScopes g ts)
  show ?thesis unfolding UpdateTagScopes route.simps
    by (rule guarded_db [where P = grouped])
      (use assms in \<open>auto simp: update_group_tag_scopes_def Let_def intro!: grouped_mono [OF assms]\<close>)
next
  case (ApproveUser u)
  show ?thesis unfolding ApproveUser route.simps
    by (rule guarded_db [where P = grouped])
      (use assms in \<open>auto simp: approve_user_def Let_def grouped_iff split: option.split\<close>)
next
  case ApproveAll
  have "grouped (db\<lparr>db_users := map (\<lambda>u. if u_approved u then u else u\<lparr>u_approved := True\<rparr>) (db_users db)\<rparr>)"
    if "grouped db" for db :: auth_db
    using that by (auto simp: grouped_def groups_of_def)
  then show ?thesis unfolding ApproveAll route.simps
    by (intro guarded_db [where P = grouped]) (use assms in \<open>auto simp: approve_all_users_def\<close>)
next
  case (ResetPassword u pw)
  show ?thesis unfolding ResetPassword route.simps
    by (rule guarded_db [where P = grouped])
      (use assms in \<open>auto simp: reset_user_password_def Let_def grouped_iff split: option.split prod.split\<close>)
next
  case (AskCapability cap)
  show ?thesis unfolding AskCapability route.simps
    by (rule guarded_db [where P = grouped]) (use assms in auto)
qed (use assms in \<open>auto simp: ask_hosts_def\<close>)

interpretation membership: machine "admin_step fresh" "\<lambda>s. grouped (as_db s)" for fresh
  by unfold_locales (auto simp: admin_step_def serve_def intro: grouped_route)

section \<open>Runs\<close>

definition next_id :: "int list \<Rightarrow> int" where
  "next_id ids = 1 + fold max ids 0"

lemma fold_max_le: "(m :: int) \<le> fold max ids m \<and> (\<forall>i \<in> set ids. i \<le> fold max ids m)"
proof (induction ids arbitrary: m)
  case (Cons i ids)
  from Cons.IH [of "max i m"] show ?case by (auto intro: order_trans)
qed simp

lemma next_id_fresh: "fresh_ids next_id"
  unfolding fresh_ids_def next_id_def
proof (intro allI conjI notI)
  fix ids :: "int list"
  show False if "1 + fold max ids 0 \<in> set ids" using fold_max_le [of 0 ids] that by fastforce
  show False if "1 + fold max ids 0 = 0" using fold_max_le [of 0 ids] that by linarith
qed

definition user_named :: "int \<Rightarrow> string \<Rightarrow> user_row" where
  "user_named i name = \<lparr>u_id = i, u_username = name, u_password_hash = ''h'', u_display_name = None, u_email = None,
     u_role = ''user'', u_auth_provider = ''local'', u_is_first_login = False, u_must_change_password = False, u_approved = True\<rparr>"

definition group_named :: "int \<Rightarrow> string \<Rightarrow> group_row" where
  "group_named i name = \<lparr>g_id = i, g_name = name, g_description = None, g_is_system = (i = 1)\<rparr>"

text \<open>Ann administers; Bob may manage groups and nothing else.\<close>

definition small_db :: auth_db where
  "small_db = \<lparr>db_users = [user_named 1 ''ann'', user_named 2 ''bob''],
     db_groups = [group_named 1 ''Administrators'', group_named 2 ''Staff''],
     db_perms = map (\<lambda>cap. \<lparr>p_group_id = 1, p_capability = cap, p_allowed = True\<rparr>) CRITICAL_CAPABILITIES
       @ [\<lparr>p_group_id = 2, p_capability = ''groups.manage'', p_allowed = True\<rparr>],
     db_members = [(1, 1), (2, 2)], db_scopes = [(2, ''t'')], db_tags = [''t''],
     db_assignments = [(''t'', ''host'', ''h1'')], db_keys = []\<rparr>"

definition ann :: principal where "ann = SessionUser (Some 1) ''ann'' None"
definition bob :: principal where "bob = SessionUser (Some 2) ''bob'' None"

lemma add_member_escalates:
  "\<not> holds small_db bob ''users.manage''
   \<and> fst (serve next_id (bob, AddMember 1 2) (start small_db)) = Inr ()
   \<and> holds (as_db (admin_step next_id (start small_db) (bob, AddMember 1 2))) bob ''users.manage''"
  by code_simp

text \<open>Ann moves \<open>users.manage\<close> to a group of her own and leaves that group.\<close>

definition leaving :: "(principal \<times> request) list" where
  "leaving = [(ann, CreateGroup ''Ops'' None), (ann, AddMember 3 1),
     (ann, UpdatePermissions 3 [(''users.manage'', True)]), (ann, UpdatePermissions 1 [(''users.manage'', False)]),
     (ann, RemoveMember 3 1)]"

lemma removal_locks_out:
  "secured small_db
   \<and> lost_capability (as_db (run (admin_step next_id) (start small_db) leaving)) = Some ''users.manage''
   \<and> fst (serve next_id (ann, UpdatePermissions 1 [(''users.manage'', True)])
         (run (admin_step next_id) (start small_db) leaving)) = Inl (Http 403 (BeyondOwn [''users.manage'']))"
  by code_simp

text \<open>A question about an id that is not in use leaves an entry that the next user of that id inherits.\<close>

lemma reused_id_inherits_entry:
  "let s = (start small_db)\<lparr>as_cache := snd (has_capability_for_user small_db ''groups.manage'' empty_auth_cache 3)\<rparr>;
       s' = snd (serve next_id (ann, CreateUser ''eve'' ''h'' None None [1] True) s)
   in user_holds (as_db s') 3 ''users.manage''
      \<and> \<not> fst (has_capability_for_user (as_db s') ''users.manage'' (as_cache s') 3)"
  by code_simp

section \<open>Properties\<close>

text \<open>C3: the caches never show. After any run of requests, whatever is asked about an authenticated
  principal through the caches is what the tables say at that moment: each capability, the set of
  all of them, and which hosts are visible (those with a tag that scopes one of its groups, or all
  when one of its groups has no scope).\<close>

theorem answers_are_current:
  assumes "fresh_ids fresh" and "perms_wf db" and "ids_ok db"
    and "authenticated (as_db (run (admin_step fresh) (start db) reqs)) pr"
  shows "let s = run (admin_step fresh) (start db) reqs; d = as_db s; c = as_cache s in
      fst (check_auth_capability d c pr cap) = holds d pr cap
    \<and> fst (get_effective_capabilities d c pr) = {cap. holds d pr cap}
    \<and> (host_is_visible (Some h) (fst (get_visible_host_ids_for_auth d c pr)) \<longleftrightarrow> sees_through d (groups_of_principal d pr) h)"
proof -
  let ?s = "run (admin_step fresh) (start db) reqs"
  have "sound (start db)"
    using assms(2,3)
    by (auto simp: start_def sound_def good_cache_def agrees_def cached_users_def empty_auth_cache_def)
  with administration.run_inv [of fresh "start db" reqs] assms(1)
  have s: "good_cache (as_db ?s) (as_cache ?s)" "ids_ok (as_db ?s)" by (auto simp: sound_def)
  from ask_capability [OF s assms(4), of cap] ask_effective [OF s assms(4)] ask_hosts_good [OF s(1) assms(4)]
  show ?thesis by (auto simp: Let_def visible_through)
qed

theorem answers_are_current_witness:
  "let s = run (admin_step next_id) (start small_db) [(ann, AddMember 1 2)] in
     fst (check_auth_capability (as_db s) (as_cache s) bob ''users.manage'') = True"
proof -
  have a: "perms_wf small_db" by code_simp
  have b: "ids_ok small_db" by code_simp
  have c: "authenticated (as_db (run (admin_step next_id) (start small_db) [(ann, AddMember 1 2)])) bob"
    by code_simp
  have d: "holds (as_db (run (admin_step next_id) (start small_db) [(ann, AddMember 1 2)])) bob ''users.manage''"
    by code_simp
  show ?thesis
    using answers_are_current [OF next_id_fresh a b c, of "''users.manage''"] d by (simp add: Let_def)
qed

text \<open>C5: the critical capabilities stay with somebody. While no member is removed from a group and no
  user's groups are replaced, no run of requests leaves a critical capability without a group that
  grants it and has a member.\<close>

theorem critical_capabilities_survive:
  assumes "lost_capability (as_db s) = None" and "list_all (\<lambda>r. \<not> unguarded (snd r)) reqs"
  shows "lost_capability (as_db (run (admin_step fresh) s reqs)) = None"
  using guarded_administration.run_ok [of reqs s fresh] assms by (simp add: secured_def)

theorem critical_capabilities_survive_witness:
  "lost_capability (as_db (run (admin_step next_id) (start small_db)
     [(ann, UpdatePermissions 1 [(''users.manage'', False)]), (bob, AddMember 1 2)])) = None"
  by (rule critical_capabilities_survive) (simp add: start_def, code_simp, simp)

text \<open>C4: nobody hands out what he does not hold. One request other than adding a member never gives a
  user a capability that neither the user nor the acting principal had.\<close>

theorem nobody_gains_beyond_granter:
  assumes "sound s" and "distinct (map g_id (db_groups (as_db s)))" and "\<not> adds_member req"
    and "user_holds (as_db (admin_step fresh s (pr, req))) u cap" and "\<not> user_holds (as_db s) u cap"
  shows "holds (as_db s) pr cap"
proof (cases "authenticated (as_db s) pr")
  case True
  with route_no_gain [OF assms(1) True assms(2,3), of fresh] assms(4) no_gain_user [of pr "as_db s" _ u cap] assms(5)
  show ?thesis by (auto simp: admin_step_def serve_def)
qed (use assms in \<open>simp add: admin_step_def serve_def\<close>)

theorem nobody_gains_beyond_granter_witness:
  "holds (as_db (start small_db)) ann ''users.manage''"
proof (rule nobody_gains_beyond_granter [where u = 2 and fresh = next_id and req = "UpdateUser 2 None None (Some [1])"])
  show "sound (start small_db)"
    by (simp add: start_def sound_def good_cache_def agrees_def cached_users_def empty_auth_cache_def perms_wf_def ids_ok_def)
      code_simp
qed (code_simp+)

text \<open>Proved as well: every user keeps a group. Along any run of requests, from tables where every user has a group,
  every user has one.\<close>

theorem users_keep_a_group:
  assumes "list_all (\<lambda>u. groups_of (as_db s) (u_id u) \<noteq> []) (db_users (as_db s))"
  shows "list_all (\<lambda>u. groups_of (as_db (run (admin_step fresh) s reqs)) (u_id u) \<noteq> [])
    (db_users (as_db (run (admin_step fresh) s reqs)))"
  using membership.run_inv [of s fresh reqs] assms by (simp add: grouped_def list_all_iff)

theorem users_keep_a_group_witness:
  "list_all (\<lambda>u. groups_of (as_db (run (admin_step next_id) (start small_db) [(ann, RemoveMember 2 2)])) (u_id u) \<noteq> [])
    (db_users (as_db (run (admin_step next_id) (start small_db) [(ann, RemoveMember 2 2)])))"
  by (rule users_keep_a_group) code_simp

end
