(* ===== verification/PyIp.thy ===== *)
theory PyIp
  imports PyText
begin

text \<open>
  What the code uses of Python's \<open>ipaddress\<close>: parsing addresses and networks (\<open>strict=False\<close>), equality
  and membership. \<open>None\<close> is the \<open>ValueError\<close>.
\<close>

section \<open>Addresses\<close>

datatype ip = V4 nat | V6 nat "string option" \<comment> \<open>with its scope\<close>

definition octet :: "string \<Rightarrow> nat option" where
  "octet o' =
     (if o' = [] \<or> \<not> list_all is_dec o' \<or> length o' > 3 \<or> (o' \<noteq> ''0'' \<and> hd o' = CHR ''0'') then None
      else let v = nat (dec_val o') in if v > 255 then None else Some v)"

fun all_some :: "'a option list \<Rightarrow> 'a list option" where
  "all_some [] = Some []"
| "all_some (x # xs) = (case x of None \<Rightarrow> None | Some a \<Rightarrow> map_option (Cons a) (all_some xs))"

definition parse_v4 :: "string \<Rightarrow> nat option" where
  "parse_v4 s =
     (let octets = split_on (CHR ''.'') s
      in if length octets \<noteq> 4 then None
         else map_option (foldl (\<lambda>a d. a * 256 + d) 0) (all_some (map octet octets)))"

definition hex_digit :: "char \<Rightarrow> nat option" where
  "hex_digit c =
     (if is_dec c then Some (ccode c - 48)
      else if 97 \<le> ccode c \<and> ccode c \<le> 102 then Some (ccode c - 87)
      else if 65 \<le> ccode c \<and> ccode c \<le> 70 then Some (ccode c - 55) else None)"

definition hextet :: "string \<Rightarrow> nat option" where
  "hextet h =
     (if h = [] \<or> length h > 4 then None
      else map_option (foldl (\<lambda>a d. a * 16 + d) 0) (all_some (map hex_digit h)))"

datatype v6_part = Txt string | Half nat

fun part_value :: "v6_part \<Rightarrow> nat option" where
  "part_value (Txt h) = hextet h"
| "part_value (Half n) = Some n"

text \<open>The parts between colons, a final dotted quad as two halves.\<close>

definition v6_parts :: "string \<Rightarrow> v6_part list option" where
  "v6_parts s =
     (let parts = split_on (CHR '':'') s
      in if length parts < 3 then None
         else if CHR ''.'' \<in> set (last parts)
         then map_option (\<lambda>n. map Txt (butlast parts) @ [Half (n div 65536), Half (n mod 65536)])
                (parse_v4 (last parts))
         else Some (map Txt parts))"

definition v6_value :: "v6_part list \<Rightarrow> nat option" where
  "v6_value ds = map_option (foldl (\<lambda>a d. a * 65536 + d) 0) (all_some (map part_value ds))"

definition parse_v6 :: "string \<Rightarrow> nat option" where
  "parse_v6 s =
     (case v6_parts s of
        None \<Rightarrow> None
      | Some parts \<Rightarrow>
          let skips = filter (\<lambda>i. parts ! i = Txt []) [1..<length parts - 1]
          in if length parts > 9 \<or> length skips > 1 then None
             else (case skips of
                [] \<Rightarrow> if length parts \<noteq> 8 then None else v6_value parts
              | i # _ \<Rightarrow>
                  let hi = (if hd parts = Txt [] then i - 1 else i);
                      lo = length parts - i - 1;
                      lo' = (if last parts = Txt [] then lo - 1 else lo)
                  in if (hd parts = Txt [] \<and> hi \<noteq> 0) \<or> (last parts = Txt [] \<and> lo' \<noteq> 0) \<or> hi + lo' > 7 then None
                     else v6_value (take hi parts @ replicate (8 - (hi + lo')) (Half 0)
                            @ drop (length parts - lo') parts)))"

definition split_scope :: "string \<Rightarrow> (string \<times> string option) option" where
  "split_scope s =
     (case split_first (CHR ''%'') s of
        None \<Rightarrow> Some (s, None)
      | Some (a, scope) \<Rightarrow> if scope = [] \<or> CHR ''%'' \<in> set scope then None else Some (a, Some scope))"

definition ip_address :: "string \<Rightarrow> ip option" where
  "ip_address s =
     (if CHR ''/'' \<in> set s then None
      else case parse_v4 s of
        Some n \<Rightarrow> Some (V4 n)
      | None \<Rightarrow> (case split_scope s of
            None \<Rightarrow> None
          | Some (a, scope) \<Rightarrow> map_option (\<lambda>n. V6 n scope) (parse_v6 a)))"

section \<open>Networks\<close>

datatype net = Net4 nat nat | Net6 nat nat \<comment> \<open>address and length of the prefix\<close>

definition prefix_len :: "nat \<Rightarrow> string \<Rightarrow> nat option" where
  "prefix_len most s =
     (if s = [] \<or> \<not> list_all is_dec s then None
      else let n = nat (dec_val s) in if n \<le> most then Some n else None)"

definition mask_len :: "nat \<Rightarrow> nat option" where
  "mask_len m = find (\<lambda>p. m = 2 ^ 32 - 2 ^ (32 - p)) [0..<33]"

definition v4_mask :: "string \<Rightarrow> nat option" where
  "v4_mask s =
     (case prefix_len 32 s of
        Some p \<Rightarrow> Some p
      | None \<Rightarrow> (case parse_v4 s of
            None \<Rightarrow> None
          | Some m \<Rightarrow> (case mask_len m of Some p \<Rightarrow> Some p | None \<Rightarrow> mask_len (2 ^ 32 - 1 - m))))"

definition ip_network :: "string \<Rightarrow> net option" where
  "ip_network s =
     (let parts = split_on (CHR ''/'') s
      in if length parts > 2 then None
         else case (parse_v4 (hd parts), if length parts = 2 then v4_mask (parts ! 1) else Some 32) of
           (Some n, Some p) \<Rightarrow> Some (Net4 n p)
         | _ \<Rightarrow> (case split_scope (hd parts) of
               None \<Rightarrow> None
             | Some (a, _) \<Rightarrow>
                 (case (parse_v6 a, if length parts = 2 then prefix_len 128 (parts ! 1) else Some 128) of
                    (Some n, Some p) \<Rightarrow> Some (Net6 n p)
                  | _ \<Rightarrow> None)))"

fun in_network :: "ip \<Rightarrow> net \<Rightarrow> bool" where
  "in_network (V4 a) (Net4 n p) = (a div 2 ^ (32 - p) = n div 2 ^ (32 - p))"
| "in_network (V6 a _) (Net6 n p) = (a div 2 ^ (128 - p) = n div 2 ^ (128 - p))"
| "in_network _ _ = False"

section \<open>Printing\<close>

definition v4_str :: "nat \<Rightarrow> string" where
  "v4_str n = join_on (CHR ''.'') (map nat_str [n div 16777216, n div 65536 mod 256, n div 256 mod 256, n mod 256])"

lemma digit_char: "d < 10 \<Longrightarrow> char_of (48 + d) = CHR ''0'' \<longleftrightarrow> d = (0 :: nat)"
proof -
  assume "d < 10"
  then have "of_char (char_of (48 + d) :: char) = 48 + d" by simp
  moreover have "of_char CHR ''0'' = (48 :: nat)" by simp
  ultimately show ?thesis by (metis add_cancel_left_right char_of_char)
qed

lemma octet_nat_str:
  assumes "k < 256"
  shows "octet (nat_str k) = Some k" "CHR ''.'' \<notin> set (nat_str k)" "CHR ''/'' \<notin> set (nat_str k)"
proof -
  note ds = nat_str.simps [of k] nat_str.simps [of "k div 10"] nat_str.simps [of "k div 10 div 10"]
  have len: "length (nat_str k) \<le> 3" using assms by (simp add: ds)
  have lead: "hd (nat_str k) = CHR ''0'' \<Longrightarrow> nat_str k = ''0''"
    using assms digit_char [of k] digit_char [of "k div 10"] digit_char [of "k div 10 div 10"]
    by (auto simp: ds split: if_splits)
  have "list_all is_dec (nat_str k)" using nat_str_digits by (auto simp: list_all_iff)
  with len lead assms show "octet (nat_str k) = Some k"
    by (auto simp: octet_def nat_str_not_Nil dec_val_nat_str)
  show "CHR ''.'' \<notin> set (nat_str k)" "CHR ''/'' \<notin> set (nat_str k)"
    using nat_str_digits [of _ k] by (fastforce simp: is_dec_def ccode_def)+
qed

lemma horner: "x1 = 256 * x0 + r1 \<Longrightarrow> x2 = 256 * x1 + r2 \<Longrightarrow> n = 256 * x2 + r3 \<Longrightarrow>
    ((x0 * 256 + r1) * 256 + r2) * 256 + r3 = (n :: nat)"
  by simp

lemma all_some_map: "all_some (map Some xs) = Some xs"
  by (induction xs) auto

lemma parse_v4_octets:
  assumes "length ks = 4" and "\<forall>k \<in> set ks. k < 256"
  shows "parse_v4 (join_on (CHR ''.'') (map nat_str ks)) = Some (foldl (\<lambda>a d. a * 256 + d) 0 ks)"
proof -
  have s: "split_on (CHR ''.'') (join_on (CHR ''.'') (map nat_str ks)) = map nat_str ks"
    using assms octet_nat_str(2) by (intro split_join) auto
  have o: "map octet (map nat_str ks) = map Some ks" using assms(2) octet_nat_str(1) by simp
  show ?thesis unfolding parse_v4_def Let_def s o all_some_map by (simp add: assms(1))
qed

lemma parse_v4_str:
  assumes "n < 2 ^ 32"
  shows "parse_v4 (v4_str n) = Some n"
proof -
  have small: "n div 16777216 < 256" using assms by simp
  have "((n div 16777216 * 256 + n div 65536 mod 256) * 256 + n div 256 mod 256) * 256 + n mod 256 = n"
  proof (rule horner)
    show "n div 65536 = 256 * (n div 16777216) + n div 65536 mod 256"
      using mult_div_mod_eq [of 256 "n div 65536"] by (simp add: div_mult2_eq [symmetric])
    show "n div 256 = 256 * (n div 65536) + n div 256 mod 256"
      using mult_div_mod_eq [of 256 "n div 256"] by (simp add: div_mult2_eq [symmetric])
    show "n = 256 * (n div 256) + n mod 256" by simp
  qed
  then have f: "foldl (\<lambda>a d. a * 256 + d) 0 [n div 16777216, n div 65536 mod 256, n div 256 mod 256, n mod 256] = n"
    by (simp only: foldl.simps mult_zero_left add_0)
  have "parse_v4 (v4_str n) =
      Some (foldl (\<lambda>a d. a * 256 + d) 0 [n div 16777216, n div 65536 mod 256, n div 256 mod 256, n mod 256])"
    unfolding v4_str_def by (rule parse_v4_octets) (auto simp: small)
  then show ?thesis unfolding f .
qed

lemma v4_str_chars: "n < 2 ^ 32 \<Longrightarrow> x \<in> set (v4_str n) \<Longrightarrow> is_dec x \<or> x = CHR ''.''"
  using nat_str_digits by (auto simp: v4_str_def)

end
