(* ===== verification/ApiKeys.thy ===== *)
theory ApiKeys
  imports GroupAdmin PyIp
begin

text \<open>
  Authentication of a request by session cookie or API key (\<open>backend/auth/api_key_auth.py\<close>) and the
  administration of keys (\<open>api_key_routes.py\<close>). The digest, the random token and the clock are
  arguments; the audit log is left out.
\<close>

section \<open>Keys\<close>

type_synonym digest = "string \<Rightarrow> string"

definition generate_api_key :: "digest \<Rightarrow> string \<Rightarrow> string \<times> string \<times> string" where
  "generate_api_key sha256 random_token =
     (let plaintext_key = ''dockmon_'' @ random_token in (plaintext_key, sha256 plaintext_key, take 20 plaintext_key))"

definition entry_allows :: "ip \<Rightarrow> string \<Rightarrow> bool" where
  "entry_allows client_addr e =
     (let allowed = strip e
      in if CHR ''/'' \<in> set allowed
         then (case ip_network allowed of None \<Rightarrow> False | Some n \<Rightarrow> in_network client_addr n)
         else (case ip_address allowed of None \<Rightarrow> False | Some a \<Rightarrow> client_addr = a))"

definition check_ip_allowed :: "string \<Rightarrow> string \<Rightarrow> bool" where
  "check_ip_allowed client_ip allowed_ips =
     (case ip_address client_ip of
        None \<Rightarrow> False
      | Some client_addr \<Rightarrow> list_ex (entry_allows client_addr) (split_on (CHR '','') allowed_ips))"

definition use_key :: "time \<Rightarrow> int \<Rightarrow> auth_db \<Rightarrow> auth_db" where
  "use_key now i db = db\<lparr>db_keys := map (\<lambda>k. if k_id k = i
       then k\<lparr>k_last_used_at := Some now, k_usage_count := k_usage_count k + 1\<rparr> else k) (db_keys db)\<rparr>"

definition validate_api_key :: "digest \<Rightarrow> time \<Rightarrow> string \<Rightarrow> string \<Rightarrow> auth_db \<Rightarrow> principal option \<times> auth_db" where
  "validate_api_key sha256 now api_key client_ip db =
     (if api_key = [] \<or> \<not> starts_with api_key ''dockmon_'' then (None, db)
      else case find (\<lambda>k. k_key_hash k = sha256 api_key) (db_keys db) of
        None \<Rightarrow> (None, db)
      | Some k \<Rightarrow>
          if k_revoked_at k \<noteq> None then (None, db)
          else if (case k_expires_at k of None \<Rightarrow> False | Some e \<Rightarrow> now > e) then (None, db)
          else if (case k_allowed_ips k of None \<Rightarrow> False | Some ips \<Rightarrow> ips \<noteq> [] \<and> \<not> check_ip_allowed client_ip ips)
               then (None, db)
          else if k_group_id k = 0 then (None, db)
          else case find_group db (k_group_id k) of
            None \<Rightarrow> (None, db)
          | Some g \<Rightarrow>
              (Some (KeyUser (k_id k) (k_name k) (Some (g_id g)) (g_name g) (k_created_by_user_id k)
                 (case k_created_by_user_id k of None \<Rightarrow> ''unknown''
                  | Some c \<Rightarrow> (case find_user db c of None \<Rightarrow> ''unknown'' | Some u \<Rightarrow> u_username u))),
               use_key now (k_id k) db))"

section \<open>Authentication\<close>

definition password_paths :: "string list" where
  "password_paths = [''/api/v2/auth/change-password'', ''/api/v2/auth/me'', ''/api/v2/auth/logout'']"

datatype session_outcome = Accepted principal | Refused http_error | NoSession

definition session_user :: "auth_db \<Rightarrow> string \<Rightarrow> session_view option \<Rightarrow> session_outcome" where
  "session_user db path v =
     (case v of
        None \<Rightarrow> NoSession
      | Some view \<Rightarrow>
          (case find_user db (v_user_id view) of
             None \<Rightarrow> NoSession
           | Some u \<Rightarrow>
               if u_id u = 0 then NoSession
               else if u_must_change_password u \<and> rstrip_char (CHR ''/'') path \<notin> set password_paths
                    then Refused (Http 403 PasswordChangeRequired)
               else Accepted (SessionUser (Some (u_id u)) (u_username u)
                      (Some (case u_display_name u of None \<Rightarrow> u_username u | Some d \<Rightarrow> if d = [] then u_username u else d)))))"

definition get_current_user_or_api_key ::
    "loads \<Rightarrow> digest \<Rightarrow> time \<Rightarrow> int \<Rightarrow> string \<Rightarrow> string \<Rightarrow> string option \<Rightarrow> string option \<Rightarrow> auth_db \<Rightarrow> store
       \<Rightarrow> (http_error, principal) res \<times> auth_db \<times> store" where
  "get_current_user_or_api_key loads sha256 now timeout_hours path client_ip session_id authorization db d =
     (let (view, d') = (case session_id of
            None \<Rightarrow> (None, d)
          | Some tok \<Rightarrow> if tok = [] then (None, d) else validate_session loads now timeout_hours tok None d)
      in case session_user db path view of
           Accepted pr \<Rightarrow> (Inr pr, db, d')
         | Refused e \<Rightarrow> (Inl e, db, d')
         | NoSession \<Rightarrow>
             (case authorization of
                None \<Rightarrow> (Inl (Http 401 NotAuthenticated), db, d')
              | Some a \<Rightarrow>
                  if \<not> starts_with a ''Bearer '' then (Inl (Http 401 NotAuthenticated), db, d')
                  else let (key_data, db') = validate_api_key sha256 now (drop 7 a) client_ip db
                       in (case key_data of None \<Rightarrow> Inl (Http 401 NotAuthenticated) | Some pr \<Rightarrow> Inr pr, db', d')))"

section \<open>Administration\<close>

definition validate_allowed_ips :: "string \<Rightarrow> (http_error, unit) res" where
  "validate_allowed_ips allowed_ips =
     check_each (\<lambda>e. let entry = strip e
        in if entry = [] then Inr ()
           else if (if CHR ''/'' \<in> set entry then ip_network entry = None else ip_address entry = None)
                then Inl (Http 400 (BadAllowedIp entry)) else Inr ()) (split_on (CHR '','') allowed_ips)"

definition auditable_user :: "principal \<Rightarrow> int option" where
  "auditable_user pr = (case pr of SessionUser u _ _ \<Rightarrow> u | KeyUser _ _ _ _ cr _ \<Rightarrow> cr)"

definition create_api_key ::
    "digest \<Rightarrow> string \<Rightarrow> principal \<Rightarrow> time \<Rightarrow> int \<Rightarrow> string \<Rightarrow> string option \<Rightarrow> int \<Rightarrow> string option \<Rightarrow> int option \<Rightarrow> handler" where
  "create_api_key sha256 random_token pr now new_id name description group_id allowed_ips expires_days s =
     (case (case allowed_ips of None \<Rightarrow> Inr () | Some ips \<Rightarrow> if ips = [] then Inr () else validate_allowed_ips ips) of
        Inl e \<Rightarrow> (Inl e, s)
      | Inr _ \<Rightarrow>
          let db = as_db s; (plaintext_key, key_hash, key_prefix) = generate_api_key sha256 random_token
          in if find_group db group_id = None then fails 400 (NoSuchGroup group_id) s
             else commits (db\<lparr>db_keys := db_keys db @ [\<lparr>k_id = new_id, k_group_id = group_id,
                    k_created_by_user_id = auditable_user pr, k_name = name, k_description = description,
                    k_key_hash = key_hash, k_key_prefix = key_prefix, k_allowed_ips = allowed_ips,
                    k_last_used_at = None, k_usage_count = 0,
                    k_expires_at = (case expires_days of None \<Rightarrow> None | Some n \<Rightarrow> if n = 0 then None else Some (now + secs (n * 86400))),
                    k_revoked_at = None\<rparr>]\<rparr>) id s)"

definition set_key :: "int \<Rightarrow> (key_row \<Rightarrow> key_row) \<Rightarrow> auth_db \<Rightarrow> auth_db" where
  "set_key i f db = db\<lparr>db_keys := map (\<lambda>k. if k_id k = i then f k else k) (db_keys db)\<rparr>"

definition find_key :: "auth_db \<Rightarrow> int \<Rightarrow> key_row option" where
  "find_key db i = find (\<lambda>k. k_id k = i) (db_keys db)"

text \<open>\<open>allowed_ips\<close>: not sent, sent as null, or sent.\<close>

definition update_api_key :: "int \<Rightarrow> string option \<Rightarrow> string option \<Rightarrow> string option option \<Rightarrow> handler" where
  "update_api_key key_id name description allowed_ips s =
     (let db = as_db s; clear = (\<lambda>ips. case ips of None \<Rightarrow> True | Some i \<Rightarrow> strip i = [])
      in if find_key db key_id = None then fails 404 NoSuchKey s
         else case (case allowed_ips of Some (Some ips) \<Rightarrow> if clear (Some ips) then Inr () else validate_allowed_ips ips
                    | _ \<Rightarrow> Inr ()) of
           Inl e \<Rightarrow> (Inl e, s)
         | Inr _ \<Rightarrow> commits (set_key key_id (\<lambda>k. k\<lparr>
               k_name := (case name of None \<Rightarrow> k_name k | Some n \<Rightarrow> n),
               k_description := (case description of None \<Rightarrow> k_description k | Some d \<Rightarrow> Some d),
               k_allowed_ips := (case allowed_ips of None \<Rightarrow> k_allowed_ips k
                  | Some ips \<Rightarrow> if clear ips then None else ips)\<rparr>) db) id s)"

definition revoke_api_key :: "time \<Rightarrow> int \<Rightarrow> handler" where
  "revoke_api_key now key_id s =
     (let db = as_db s
      in case find_key db key_id of
           None \<Rightarrow> fails 404 NoSuchKey s
         | Some k \<Rightarrow> if k_revoked_at k \<noteq> None then (Inr (), s)
             else commits (set_key key_id (\<lambda>k. k\<lparr>k_revoked_at := Some now\<rparr>) db) id s)"

section \<open>Lemmas\<close>

lemma validated_key:
  assumes "validate_api_key sha256 now key ip db = (Some pr, db')"
  shows "\<exists>k. k \<in> set (db_keys db) \<and> k_key_hash k = sha256 key \<and> k_revoked_at k = None
    \<and> (\<exists>n g gn c cn. pr = KeyUser (k_id k) n g gn c cn)"
  using assms
  by (auto simp: validate_api_key_def split: if_splits option.splits dest!: find_SomeD)

lemma session_user_accepted:
  "session_user db path v = Accepted pr \<Longrightarrow> \<exists>view n d. v = Some view \<and> pr = SessionUser (Some (v_user_id view)) n d"
  by (auto simp: session_user_def find_user_def split: option.splits if_splits dest!: find_SomeD)

lemma v4_net_str:
  assumes "m < 2 ^ 32" "p \<le> 32"
  shows "ip_network (v4_str m @ ''/'' @ nat_str p) = Some (Net4 m p)"
proof -
  have "CHR ''/'' \<notin> set (v4_str m)" using v4_str_chars [OF assms(1)] by (fastforce simp: is_dec_def ccode_def)
  moreover have "CHR ''/'' \<notin> set (nat_str p)" using octet_nat_str(3) [of p] assms(2) by simp
  ultimately have "split_on (CHR ''/'') (v4_str m @ ''/'' @ nat_str p) = [v4_str m, nat_str p]"
    by (simp add: split_on_append split_on_no_sep)
  moreover have "prefix_len 32 (nat_str p) = Some p"
    using assms(2) nat_str_digits [of _ p] by (auto simp: prefix_len_def nat_str_not_Nil dec_val_nat_str list_all_iff)
  ultimately show ?thesis by (simp add: ip_network_def v4_mask_def parse_v4_str [OF assms(1)])
qed

lemma v4_str_no: "n < 2 ^ 32 \<Longrightarrow> c \<in> {CHR ''/'', CHR '','', CHR '' ''} \<Longrightarrow> c \<notin> set (v4_str n)"
  using v4_str_chars by (fastforce simp: is_dec_def ccode_def)

lemma ip_address_str: "n < 2 ^ 32 \<Longrightarrow> ip_address (v4_str n) = Some (V4 n)"
  by (simp add: ip_address_def parse_v4_str v4_str_no)

lemma net_str_chars:
  assumes "m < 2 ^ 32" "x \<in> set (v4_str m @ ''/'' @ nat_str p)"
  shows "is_dec x \<or> x = CHR ''.'' \<or> x = CHR ''/''"
  using assms v4_str_chars nat_str_digits by auto

lemma net_no_comma: "m < 2 ^ 32 \<Longrightarrow> CHR '','' \<notin> set (v4_str m @ ''/'' @ nat_str p)"
  using net_str_chars [of m "CHR '',''" p] by (auto simp: is_dec_def ccode_def)

lemma net_str_strip:
  assumes "m < 2 ^ 32"
  shows "strip (v4_str m @ ''/'' @ nat_str p) = v4_str m @ ''/'' @ nat_str p"
proof (rule strip_id)
  have "\<not> is_space x" if "x \<in> set (v4_str m @ ''/'' @ nat_str p)" for x
    using net_str_chars [OF assms that] by (auto simp: is_space_def is_dec_def ccode_def Let_def)
  then show "\<not> is_space (hd (v4_str m @ ''/'' @ nat_str p))" "\<not> is_space (last (v4_str m @ ''/'' @ nat_str p))"
    by (metis append_is_Nil_conv hd_in_set list.distinct(1), metis append_is_Nil_conv last_in_set list.distinct(1))
qed simp

lemma entry_allows_net:
  assumes "m < 2 ^ 32" "p \<le> 32"
  shows "entry_allows (V4 n) (v4_str m @ ''/'' @ nat_str p) \<longleftrightarrow> n div 2 ^ (32 - p) = m div 2 ^ (32 - p)"
  by (simp add: entry_allows_def net_str_strip [OF assms(1), simplified] v4_net_str [OF assms, simplified] Let_def)

section \<open>Properties\<close>

text \<open>Proved as well: an API key works only from its networks. For an IPv4 client and a printed list of IPv4 networks,
  the address check admits exactly the clients that share the prefix of one of them.\<close>

theorem allowed_networks_admit_exactly:
  assumes "n < 2 ^ 32" and "nets \<noteq> []" and "list_all (\<lambda>(m, p). m < 2 ^ 32 \<and> p \<le> 32) nets"
  shows "check_ip_allowed (v4_str n) (join_on (CHR '','') (map (\<lambda>(m, p). v4_str m @ ''/'' @ nat_str p) nets)) \<longleftrightarrow>
    list_ex (\<lambda>(m, p). n div 2 ^ (32 - p) = m div 2 ^ (32 - p)) nets"
proof -
  let ?str = "\<lambda>(m, p). v4_str m @ ''/'' @ nat_str p"
  have net: "m < 2 ^ 32" "p \<le> 32" if "(m, p) \<in> set nets" for m p
    using assms(3) that unfolding list_all_iff by blast+
  have "CHR '','' \<notin> set e" if "e \<in> set (map ?str nets)" for e
  proof -
    from that obtain m p where "(m, p) \<in> set nets" "e = v4_str m @ ''/'' @ nat_str p" by auto
    with net_no_comma [OF net(1)] show ?thesis by simp
  qed
  then have split: "split_on (CHR '','') (join_on (CHR '','') (map ?str nets)) = map ?str nets"
    using assms(2) by (intro split_join) auto
  have "entry_allows (V4 n) (?str x) = (\<lambda>(m, p). n div 2 ^ (32 - p) = m div 2 ^ (32 - p)) x" if "x \<in> set nets" for x
  proof -
    obtain m p where x: "x = (m, p)" by fastforce
    with that entry_allows_net [OF net] show ?thesis by simp
  qed
  then have "list_ex (entry_allows (V4 n)) (map ?str nets) =
      list_ex (\<lambda>(m, p). n div 2 ^ (32 - p) = m div 2 ^ (32 - p)) nets"
    unfolding list_ex_iff by auto
  with split show ?thesis by (simp only: check_ip_allowed_def ip_address_str [OF assms(1)] option.case)
qed

theorem allowed_networks_admit_exactly_witness:
  "check_ip_allowed (v4_str 3232235777) (join_on (CHR '','') (map (\<lambda>(m, p). v4_str m @ ''/'' @ nat_str p) [(3232235776, 24)]))"
  using allowed_networks_admit_exactly [of 3232235777 "[(3232235776, 24)]"] by simp


text \<open>Ann and Bob administer; Bob has a session and has made a key.\<close>

definition key_of_bob :: key_row where
  "key_of_bob = \<lparr>k_id = 5, k_group_id = 1, k_created_by_user_id = Some 2, k_name = ''ci'', k_description = None,
     k_key_hash = ''dockmon_x'', k_key_prefix = ''dockmon_x'', k_allowed_ips = None, k_last_used_at = None,
     k_usage_count = 0, k_expires_at = None, k_revoked_at = None\<rparr>"

definition two_admins :: auth_state where
  "two_admins = \<lparr>as_db = \<lparr>
       db_users = map (\<lambda>(i, name). \<lparr>u_id = i, u_username = name, u_password_hash = ''h'', u_display_name = None,
         u_email = None, u_role = ''user'', u_auth_provider = ''local'', u_is_first_login = False,
         u_must_change_password = False, u_approved = True\<rparr>) [(1, ''ann''), (2, ''bob'')],
       db_groups = [\<lparr>g_id = 1, g_name = ''Administrators'', g_description = None, g_is_system = True\<rparr>,
         \<lparr>g_id = 2, g_name = ''Keys'', g_description = None, g_is_system = False\<rparr>],
       db_perms = map (\<lambda>cap. \<lparr>p_group_id = 1, p_capability = cap, p_allowed = True\<rparr>) CRITICAL_CAPABILITIES
         @ [\<lparr>p_group_id = 2, p_capability = ''apikeys.manage_other'', p_allowed = True\<rparr>],
       db_members = [(1, 1), (2, 1), (3, 2)], db_scopes = [], db_tags = [], db_assignments = [], db_keys = [key_of_bob]\<rparr>,
     as_cache = empty_auth_cache, as_sessions = [(''s'', \<lparr>s_user_id = 2, s_username = ''bob'', s_display_name = ''bob'',
       s_client_ip = ''10.0.0.2'', s_created_at = 0, s_last_accessed = 0\<rparr>)]\<rparr>"

definition ann_session :: principal where "ann_session = SessionUser (Some 1) ''ann'' None"


text \<open>A principal that may manage keys makes itself a key of the administrators.\<close>

lemma create_key_escalates:
  "let pr = SessionUser (Some 3) ''eve'' None;
       s' = snd (create_api_key id ''t'' pr 1 6 ''mine'' None 1 None None two_admins);
       got = fst (validate_api_key id 1 ''dockmon_t'' ''10.0.0.9'' (as_db s'))
   in \<not> holds (as_db two_admins) pr ''users.manage''
      \<and> (case got of None \<Rightarrow> False | Some key \<Rightarrow> holds (as_db s') key ''users.manage'')"
  by code_simp

end
