(* ===== verification/AgentRegistry.thy ===== *)
theory AgentRegistry
  imports PyValue Keys Access
begin

text \<open>
  Registration of agents (\<open>backend/agent/manager.py\<close>): registration tokens, new agents and their
  reconnection, and the migration of a remote host to an agent, which moves every setting of the
  host's containers to the new host id. Columns that no decision reads are kept as a list of
  column and value; a column that an insert leaves out has its default, which reads as \<open>None\<close>.
\<close>

section \<open>Tables\<close>

record token_row =
  t_token :: string
  t_created_by_user_id :: "int option"
  t_created_at :: time
  t_expires_at :: time
  t_max_uses :: "nat option"
  t_use_count :: nat
  t_last_used_at :: "time option"

type_synonym columns = "(string, pyval) pydict"

record host_row =
  h_id :: string
  h_name :: string
  h_url :: string
  h_connection_type :: string
  h_engine_id :: "string option"
  h_replaced_by :: "string option"
  h_is_active :: bool
  h_updated_at :: "time option"
  h_columns :: columns

record agent_row =
  ag_id :: string
  ag_host_id :: string
  ag_engine_id :: string
  ag_version :: string
  ag_proto_version :: string
  ag_capabilities :: "(string \<times> bool) list"
  ag_status :: string
  ag_last_seen_at :: time
  ag_registered_at :: time
  ag_os :: "string option"
  ag_arch :: "string option"
  ag_force_unique :: bool

text \<open>A row of a table keyed by a composite key: its key, its host and its other columns.\<close>

record setting_row =
  s_key :: string
  s_host :: string
  s_columns :: columns

record tag_row =
  tg_tag_id :: string
  tg_subject_type :: string
  tg_subject_id :: string
  tg_columns :: columns

record scoped_alert =
  sa_scope_type :: string
  sa_scope_id :: string
  sa_dedup_key :: string

record deployed_container =
  dc_deployment_id :: string
  dc_columns :: columns

record registry =
  r_tokens :: "token_row list"
  r_hosts :: "host_row list"
  r_agents :: "agent_row list"
  r_auto_restart :: "setting_row list"
  r_desired :: "setting_row list"
  r_updates :: "setting_row list"
  r_health :: "setting_row list"
  r_tags :: "tag_row list"
  r_alerts :: "scoped_alert list"
  r_deployments :: "setting_row list"
  r_deployed :: "deployed_container list"
  r_metadata :: "setting_row list"

text \<open>The validated fields of a registration; \<open>rd_info\<close> holds those of the host facts that were sent.\<close>

record registration =
  rd_token :: string
  rd_engine_id :: string
  rd_hostname :: "string option"
  rd_hostname_source :: "string option"
  rd_version :: string
  rd_proto_version :: string
  rd_capabilities :: "(string \<times> bool) list"
  rd_force_unique :: bool
  rd_agent_os :: "string option"
  rd_agent_arch :: "string option"
  rd_info :: columns
  rd_host_ips :: "string list option"
  rd_host_ip :: "string option"

datatype reg_error =
    EngineIdRequired
  | NameTaken
  | DatabaseConflict
  | TokenExhausted
  | TokenExpired
  | InvalidToken
  | EngineMismatch
  | LocalHost
  | AgentNameRequired
  | AlreadyRegistered
  | MigrationFailed
  | AgentNotFound
  | AgentHostNotFound
  | SourceNotFound
  | SourceNotRemote
  | SourceMigrated

record registered =
  rg_agent_id :: string
  rg_host_id :: string
  rg_migrated_from :: "(string \<times> string) option"
  rg_candidates :: "(string \<times> string) list"

section \<open>Registration tokens\<close>

definition is_exhausted :: "token_row \<Rightarrow> bool" where
  "is_exhausted t = (case t_max_uses t of None \<Rightarrow> False | Some n \<Rightarrow> n \<le> t_use_count t)"

definition find_token :: "string \<Rightarrow> registry \<Rightarrow> token_row option" where
  "find_token token r = find (\<lambda>t. t_token t = token) (r_tokens r)"

definition generate_registration_token :: "time \<Rightarrow> string \<Rightarrow> int \<Rightarrow> bool \<Rightarrow> registry \<Rightarrow> registry" where
  "generate_registration_token now token user_id multi_use r =
     r\<lparr>r_tokens := r_tokens r @ [\<lparr>t_token = token, t_created_by_user_id = Some user_id, t_created_at = now,
        t_expires_at = now + secs (15 * 60), t_max_uses = (if multi_use then None else Some 1), t_use_count = 0,
        t_last_used_at = None\<rparr>]\<rparr>"

definition validate_registration_token :: "time \<Rightarrow> string \<Rightarrow> registry \<Rightarrow> bool" where
  "validate_registration_token now token r =
     (case find_token token r of
        None \<Rightarrow> False
      | Some t \<Rightarrow> \<not> is_exhausted t \<and> now < t_expires_at t)"

definition cleanup_expired_registration_tokens :: "time \<Rightarrow> registry \<Rightarrow> nat \<times> registry" where
  "cleanup_expired_registration_tokens now r =
     (let expired = filter (\<lambda>t. t_expires_at t < now) (r_tokens r)
      in (length expired, r\<lparr>r_tokens := filter (\<lambda>t. \<not> t_expires_at t < now) (r_tokens r)\<rparr>))"

definition find_agent :: "string \<Rightarrow> registry \<Rightarrow> agent_row option" where
  "find_agent i r = find (\<lambda>a. ag_id a = i) (r_agents r)"

definition find_host :: "string \<Rightarrow> registry \<Rightarrow> host_row option" where
  "find_host i r = find (\<lambda>h. h_id h = i) (r_hosts r)"

definition validate_permanent_token :: "string \<Rightarrow> registry \<Rightarrow> bool" where
  "validate_permanent_token token r = (find_agent token r \<noteq> None)"

definition get_agent_for_host :: "string \<Rightarrow> registry \<Rightarrow> string option" where
  "get_agent_for_host host_id r = map_option ag_id (find (\<lambda>a. ag_host_id a = host_id) (r_agents r))"

text \<open>\<open>use_count += 1\<close> of the row with the token.\<close>

definition use_token :: "time \<Rightarrow> string \<Rightarrow> registry \<Rightarrow> registry" where
  "use_token now token r =
     r\<lparr>r_tokens := map (\<lambda>t. if t_token t = token
        then t\<lparr>t_use_count := Suc (t_use_count t), t_last_used_at := Some now\<rparr> else t) (r_tokens r)\<rparr>"

section \<open>Columns\<close>

definition col :: "columns \<Rightarrow> string \<Rightarrow> pyval" where
  "col r c = (case dget r c of None \<Rightarrow> VNone | Some v \<Rightarrow> v)"

definition copied :: "string list \<Rightarrow> columns \<Rightarrow> columns" where
  "copied names r = map (\<lambda>c. (c, col r c)) names"

definition SYSTEM_COLUMNS :: "string list" where
  "SYSTEM_COLUMNS = [''os_type'', ''os_version'', ''kernel_version'', ''docker_version'', ''daemon_started_at'',
     ''total_memory'', ''num_cpus'']"

text \<open>\<open>json.dumps\<close> of a list of addresses, which need no escapes.\<close>

definition join_with :: "string \<Rightarrow> string list \<Rightarrow> string" where
  "join_with sep xs = (case xs of [] \<Rightarrow> [] | x # rest \<Rightarrow> x @ concat (map (\<lambda>y. sep @ y) rest))"

definition serialize_host_ips :: "string list \<Rightarrow> pyval" where
  "serialize_host_ips ips =
     (if ips = [] then VNone
      else VStr (''['' @ join_with '', '' (map (\<lambda>ip. [CHR 0x22] @ ip @ [CHR 0x22]) ips) @ '']''))"

definition serialize_registration_host_ip :: "registration \<Rightarrow> pyval" where
  "serialize_registration_host_ip rd =
     (case rd_host_ips rd of
        Some (ip # ips) \<Rightarrow> serialize_host_ips (ip # ips)
      | _ \<Rightarrow> (case rd_host_ip rd of
            Some ip \<Rightarrow> if ip = [] then VNone else serialize_host_ips [ip]
          | None \<Rightarrow> VNone))"


section \<open>Moving the settings of a host\<close>

text \<open>The part of a composite key after the first colon, when it has one.\<close>

definition short_of :: "string \<Rightarrow> string option" where
  "short_of key = map_option snd (split_first (CHR '':'') key)"

text \<open>
  The loop that each table of settings goes through: a row of the old host whose key has a colon is
  copied, column by column, under the new host, and deleted. The result is the number of rows moved.
\<close>

definition moves :: "string \<Rightarrow> setting_row \<Rightarrow> bool" where
  "moves old_host_id row = (s_host row = old_host_id \<and> short_of (s_key row) \<noteq> None)"

definition moved_row :: "string list \<Rightarrow> string \<Rightarrow> setting_row \<Rightarrow> setting_row" where
  "moved_row names new_host_id row =
     \<lparr>s_key = new_host_id @ '':'' @ the (short_of (s_key row)), s_host = new_host_id,
      s_columns = copied names (s_columns row)\<rparr>"

definition transfer_rows :: "string list \<Rightarrow> string \<Rightarrow> string \<Rightarrow> setting_row list \<Rightarrow> nat \<times> setting_row list" where
  "transfer_rows names old_host_id new_host_id rows =
     (let mine = filter (moves old_host_id) rows
      in (length mine, filter (\<lambda>row. \<not> moves old_host_id row) rows @ map (moved_row names new_host_id) mine))"

definition AUTO_RESTART_COLUMNS :: "string list" where
  "AUTO_RESTART_COLUMNS = [''container_name'', ''enabled'', ''max_retries'', ''retry_delay'', ''restart_count'', ''last_restart'']"

definition DESIRED_STATE_COLUMNS :: "string list" where
  "DESIRED_STATE_COLUMNS = [''container_name'', ''desired_state'', ''custom_tags'', ''web_ui_url'']"

definition CONTAINER_UPDATE_COLUMNS :: "string list" where
  "CONTAINER_UPDATE_COLUMNS =
     [''container_name'', ''current_image'', ''current_digest'', ''current_version'', ''latest_image'', ''latest_digest'',
      ''latest_version'', ''update_available'', ''floating_tag_mode'', ''auto_update_enabled'', ''update_policy'',
      ''health_check_strategy'', ''health_check_url'', ''last_checked_at'', ''last_updated_at'', ''registry_url'',
      ''platform'', ''changelog_url'', ''changelog_source'', ''changelog_checked_at'', ''registry_page_url'',
      ''registry_page_source'']"

definition HEALTH_CHECK_COLUMNS :: "string list" where
  "HEALTH_CHECK_COLUMNS =
     [''container_name'', ''enabled'', ''url'', ''method'', ''expected_status_codes'', ''timeout_seconds'',
      ''check_interval_seconds'', ''follow_redirects'', ''verify_ssl'', ''check_from'', ''headers_json'',
      ''auth_config_json'', ''current_status'', ''last_checked_at'', ''last_success_at'', ''last_failure_at'',
      ''consecutive_successes'', ''consecutive_failures'', ''last_response_time_ms'', ''last_error_message'',
      ''auto_restart_on_failure'', ''failure_threshold'', ''success_threshold'', ''max_restart_attempts'',
      ''restart_retry_delay_seconds'']"

definition DEPLOYMENT_COLUMNS :: "string list" where
  "DEPLOYMENT_COLUMNS =
     [''user_id'', ''stack_name'', ''status'', ''error_message'', ''progress_percent'', ''current_stage'', ''created_at'',
      ''updated_at'', ''started_at'', ''completed_at'', ''created_by'', ''committed'', ''rollback_on_failure'']"

definition DEPLOYED_COLUMNS :: "string list" where
  "DEPLOYED_COLUMNS = [''container_id'', ''service_name'', ''created_at'']"

definition METADATA_COLUMNS :: "string list" where
  "METADATA_COLUMNS = [''is_managed'', ''service_name'']"

text \<open>SQLite's \<open>LIKE 'host:%'\<close>: letters match in either case. Host ids hold no wildcard.\<close>

definition ascii_lower :: "string \<Rightarrow> string" where
  "ascii_lower s = map (\<lambda>c. if is_upper_ascii c then lower_char c else c) s"

definition like_host :: "string \<Rightarrow> string \<Rightarrow> bool" where
  "like_host host_id s = starts_with (ascii_lower s) (ascii_lower (host_id @ '':''))"

definition tag_row_of :: "string \<Rightarrow> string \<Rightarrow> string list \<Rightarrow> tag_row \<Rightarrow> columns \<Rightarrow> tag_row" where
  "tag_row_of subject_type subject_id names row extra =
     \<lparr>tg_tag_id = tg_tag_id row, tg_subject_type = subject_type, tg_subject_id = subject_id,
      tg_columns = extra @ copied names (tg_columns row)\<rparr>"

definition transfer_container_tag :: "string \<Rightarrow> string \<Rightarrow> tag_row list \<Rightarrow> tag_row \<Rightarrow> tag_row list" where
  \<comment> \<open>what replaces one row\<close>
  "transfer_container_tag old_host_id new_host_id rows row =
     (let subject = new_host_id @ '':'' @ drop (Suc (length old_host_id)) (tg_subject_id row) in
      if list_ex (\<lambda>q. tg_subject_type q = ''container'' \<and> like_host new_host_id (tg_subject_id q)
            \<and> tg_tag_id q = tg_tag_id row \<and> tg_subject_id q = subject) rows
      then []
      else [tag_row_of ''container'' subject
              [''compose_project'', ''compose_service'', ''container_name_at_attach'', ''order_index'', ''last_seen_at'']
              row [(''host_id_at_attach'', VStr new_host_id)]])"

definition transfer_host_tag :: "string \<Rightarrow> tag_row list \<Rightarrow> tag_row \<Rightarrow> tag_row list" where
  "transfer_host_tag new_host_id rows row =
     (if list_ex (\<lambda>q. tg_subject_type q = ''host'' \<and> tg_subject_id q = new_host_id \<and> tg_tag_id q = tg_tag_id row) rows
      then [] else [tag_row_of ''host'' new_host_id [''order_index'', ''last_seen_at''] row []])"

definition container_tag_of :: "string \<Rightarrow> tag_row \<Rightarrow> bool" where
  "container_tag_of host_id row = (tg_subject_type row = ''container'' \<and> like_host host_id (tg_subject_id row))"

definition host_tag_of :: "string \<Rightarrow> tag_row \<Rightarrow> bool" where
  "host_tag_of host_id row = (tg_subject_type row = ''host'' \<and> tg_subject_id row = host_id)"

definition transfer_tag_assignments :: "string \<Rightarrow> string \<Rightarrow> tag_row list \<Rightarrow> nat \<times> tag_row list" where
  "transfer_tag_assignments old_host_id new_host_id rows =
     (let container = concat (map (transfer_container_tag old_host_id new_host_id rows)
            (filter (container_tag_of old_host_id) rows));
          host = concat (map (transfer_host_tag new_host_id rows) (filter (host_tag_of old_host_id) rows))
      in (length container + length host,
          filter (\<lambda>row. \<not> container_tag_of old_host_id row \<and> \<not> host_tag_of old_host_id row) rows @ container @ host))"

text \<open>\<open>s.replace(a, b)\<close>: the occurrences of a text that is not empty, from the left.\<close>

function replace_all :: "string \<Rightarrow> string \<Rightarrow> string \<Rightarrow> string" where
  "replace_all a b s =
     (if a = [] \<or> s = [] then s
      else if starts_with s a then b @ replace_all a b (drop (length a) s)
      else hd s # replace_all a b (tl s))"
  by pat_completeness auto
termination by (relation "measure (\<lambda>(a, b, s). length s)") auto

declare replace_all.simps [simp del]

definition transfer_alert :: "string \<Rightarrow> string \<Rightarrow> scoped_alert \<Rightarrow> scoped_alert" where
  "transfer_alert old_host_id new_host_id a =
     (if sa_scope_type a = ''container'' \<and> like_host old_host_id (sa_scope_id a)
      then case short_of (sa_scope_id a) of
          None \<Rightarrow> a
        | Some short \<Rightarrow>
            let composite = new_host_id @ '':'' @ short
            in a\<lparr>sa_scope_id := composite, sa_dedup_key := replace_all (sa_scope_id a) composite (sa_dedup_key a)\<rparr>
      else a)"

definition transfer_deployed :: "string \<Rightarrow> string \<Rightarrow> setting_row list \<Rightarrow> deployed_container list \<Rightarrow> deployed_container list" where
  "transfer_deployed old_host_id new_host_id deployments rows =
     (let new_id = (\<lambda>i. map_option (\<lambda>d. new_host_id @ '':'' @ the (short_of (s_key d)))
            (find (\<lambda>d. s_key d = i \<and> moves old_host_id d) deployments))
      in filter (\<lambda>c. new_id (dc_deployment_id c) = None) rows
         @ map (\<lambda>c. \<lparr>dc_deployment_id = the (new_id (dc_deployment_id c)), dc_columns = copied DEPLOYED_COLUMNS (dc_columns c)\<rparr>)
             (filter (\<lambda>c. new_id (dc_deployment_id c) \<noteq> None) rows))"

text \<open>The metadata names its deployment, by the new id when that was moved.\<close>

definition transfer_metadata :: "string \<Rightarrow> string \<Rightarrow> setting_row list \<Rightarrow> setting_row list \<Rightarrow> nat \<times> setting_row list" where
  "transfer_metadata old_host_id new_host_id deployments rows =
     (let rename = (\<lambda>v. case find (\<lambda>d. VStr (s_key d) = v \<and> moves old_host_id d) deployments of
            None \<Rightarrow> v | Some d \<Rightarrow> VStr (new_host_id @ '':'' @ the (short_of (s_key d))));
          mine = filter (moves old_host_id) rows
      in (length mine, filter (\<lambda>row. \<not> moves old_host_id row) rows
            @ map (\<lambda>row. (moved_row METADATA_COLUMNS new_host_id row)\<lparr>s_columns :=
                 (''deployment_id'', rename (col (s_columns row) ''deployment_id''))
                   # copied METADATA_COLUMNS (s_columns row)\<rparr>) mine))"

definition transfer_settings :: "string \<Rightarrow> string \<Rightarrow> registry \<Rightarrow> registry" where
  "transfer_settings old_host_id new_host_id r =
     r\<lparr>r_auto_restart := snd (transfer_rows AUTO_RESTART_COLUMNS old_host_id new_host_id (r_auto_restart r)),
       r_tags := snd (transfer_tag_assignments old_host_id new_host_id (r_tags r)),
       r_desired := snd (transfer_rows DESIRED_STATE_COLUMNS old_host_id new_host_id (r_desired r)),
       r_updates := snd (transfer_rows CONTAINER_UPDATE_COLUMNS old_host_id new_host_id (r_updates r)),
       r_health := snd (transfer_rows HEALTH_CHECK_COLUMNS old_host_id new_host_id (r_health r)),
       r_alerts := map (transfer_alert old_host_id new_host_id) (r_alerts r),
       r_deployments := snd (transfer_rows DEPLOYMENT_COLUMNS old_host_id new_host_id (r_deployments r)),
       r_deployed := transfer_deployed old_host_id new_host_id (r_deployments r) (r_deployed r),
       r_metadata := snd (transfer_metadata old_host_id new_host_id (r_deployments r) (r_metadata r))\<rparr>"


section \<open>Registering an agent\<close>

text \<open>The unique indexes of the tables; a commit that breaks one raises and is rolled back.\<close>

definition constraints_ok :: "registry \<Rightarrow> bool" where
  "constraints_ok r =
     (distinct (map t_token (r_tokens r))
     \<and> distinct (map h_id (r_hosts r)) \<and> distinct (map h_name (r_hosts r))
     \<and> distinct (map ag_id (r_agents r)) \<and> distinct (map ag_host_id (r_agents r))
     \<and> distinct (map ag_engine_id (filter (\<lambda>a. \<not> ag_force_unique a) (r_agents r)))
     \<and> distinct (map s_key (r_updates r)) \<and> distinct (map s_key (r_health r))
     \<and> distinct (map (\<lambda>t. (tg_tag_id t, tg_subject_type t, tg_subject_id t)) (r_tags r))
     \<and> distinct (map sa_dedup_key (r_alerts r))
     \<and> distinct (map s_key (r_deployments r))
     \<and> distinct (map (\<lambda>d. (col (s_columns d) ''stack_name'', s_host d)) (r_deployments r))
     \<and> distinct (map (\<lambda>c. (dc_deployment_id c, col (dc_columns c) ''container_id'')) (r_deployed r))
     \<and> distinct (map s_key (r_metadata r)))"

definition update_host :: "string \<Rightarrow> (host_row \<Rightarrow> host_row) \<Rightarrow> registry \<Rightarrow> registry" where
  "update_host i f r = r\<lparr>r_hosts := map (\<lambda>h. if h_id h = i then f h else h) (r_hosts r)\<rparr>"

definition update_agent :: "string \<Rightarrow> (agent_row \<Rightarrow> agent_row) \<Rightarrow> registry \<Rightarrow> registry" where
  "update_agent i f r = r\<lparr>r_agents := map (\<lambda>a. if ag_id a = i then f a else a) (r_agents r)\<rparr>"

definition new_agent :: "time \<Rightarrow> string \<Rightarrow> string \<Rightarrow> bool \<Rightarrow> registration \<Rightarrow> agent_row" where
  "new_agent now agent_id host_id force_unique rd =
     \<lparr>ag_id = agent_id, ag_host_id = host_id, ag_engine_id = rd_engine_id rd, ag_version = rd_version rd,
      ag_proto_version = rd_proto_version rd, ag_capabilities = rd_capabilities rd, ag_status = ''online'',
      ag_last_seen_at = now, ag_registered_at = now, ag_os = rd_agent_os rd, ag_arch = rd_agent_arch rd,
      ag_force_unique = force_unique\<rparr>"

definition or_else :: "pyval \<Rightarrow> pyval \<Rightarrow> pyval" where
  "or_else v w = (if truthy v then v else w)"

text \<open>\<open>hostname.strip()[:255]\<close> of a hostname that was sent.\<close>

definition clean_hostname :: "registration \<Rightarrow> string option" where
  "clean_hostname rd = map_option (\<lambda>n. if n = [] then n else take 255 (strip n)) (rd_hostname rd)"

definition migrated_host :: "time \<Rightarrow> string \<Rightarrow> registration \<Rightarrow> host_row \<Rightarrow> host_row" where
  "migrated_host now new_host_id rd old =
     \<lparr>h_id = new_host_id, h_name = h_name old, h_url = ''agent://'', h_connection_type = ''agent'',
      h_engine_id = Some (rd_engine_id rd), h_replaced_by = None, h_is_active = True, h_updated_at = Some now,
      h_columns = map (\<lambda>c. (c, or_else (col (rd_info rd) c) (col (h_columns old) c))) SYSTEM_COLUMNS
        @ [(''host_ip'', or_else (serialize_registration_host_ip rd) (col (h_columns old) ''host_ip''))]\<rparr>"

definition retire_host :: "time \<Rightarrow> string \<Rightarrow> host_row \<Rightarrow> host_row" where
  "retire_host now new_host_id h =
     h\<lparr>h_name := h_name h @ '' (migrated)'', h_replaced_by := Some new_host_id, h_is_active := False, h_updated_at := Some now\<rparr>"

definition migrate_host_to_agent ::
    "time \<Rightarrow> string \<Rightarrow> string \<Rightarrow> registration \<Rightarrow> string \<Rightarrow> registry \<Rightarrow> (reg_error, registered \<times> registry) res" where
  "migrate_host_to_agent now agent_id new_host_id rd old_host_id r =
     (case find_host old_host_id r of
        None \<Rightarrow> Inl MigrationFailed
      | Some old \<Rightarrow>
          let agent = (new_agent now agent_id new_host_id False rd)\<lparr>ag_os := None, ag_arch := None\<rparr>;
              r' = update_host old_host_id (retire_host now new_host_id) r;
              r' = r'\<lparr>r_hosts := r_hosts r' @ [migrated_host now new_host_id rd old], r_agents := r_agents r' @ [agent]\<rparr>;
              r' = use_token now (rd_token rd) (transfer_settings old_host_id new_host_id r')
          in if constraints_ok r'
             then Inr (\<lparr>rg_agent_id = agent_id, rg_host_id = new_host_id,
                        rg_migrated_from = Some (old_host_id, h_name old), rg_candidates = []\<rparr>, r')
             else Inl MigrationFailed)"

definition migrate_from_host ::
    "time \<Rightarrow> string \<Rightarrow> string \<Rightarrow> registry \<Rightarrow> (reg_error, registered \<times> registry) res" where
  "migrate_from_host now agent_id source_host_id r =
     (case find_agent agent_id r of
        None \<Rightarrow> Inl AgentNotFound
      | Some agent \<Rightarrow>
          case find_host (ag_host_id agent) r of
            None \<Rightarrow> Inl AgentHostNotFound
          | Some new_host \<Rightarrow>
              case find_host source_host_id r of
                None \<Rightarrow> Inl SourceNotFound
              | Some source_host \<Rightarrow>
                  if h_connection_type source_host \<noteq> ''remote'' then Inl SourceNotRemote
                  else if h_replaced_by source_host \<noteq> None then Inl SourceMigrated
                  else
                    let r' = update_host source_host_id (retire_host now (ag_host_id agent))
                          (transfer_settings source_host_id (ag_host_id agent) r)
                    in if constraints_ok r'
                       then Inr (\<lparr>rg_agent_id = agent_id, rg_host_id = ag_host_id agent,
                                  rg_migrated_from = Some (source_host_id, h_name source_host), rg_candidates = []\<rparr>, r')
                       else Inl MigrationFailed)"

text \<open>A known agent returns with its id as the token.\<close>

definition refresh_agent :: "time \<Rightarrow> registration \<Rightarrow> agent_row \<Rightarrow> agent_row" where
  "refresh_agent now rd a =
     a\<lparr>ag_version := rd_version rd, ag_proto_version := rd_proto_version rd, ag_capabilities := rd_capabilities rd,
       ag_status := ''online'', ag_last_seen_at := now,
       ag_os := (case rd_agent_os rd of None \<Rightarrow> ag_os a | Some s \<Rightarrow> if s = [] then ag_os a else Some s),
       ag_arch := (case rd_agent_arch rd of None \<Rightarrow> ag_arch a | Some s \<Rightarrow> if s = [] then ag_arch a else Some s)\<rparr>"

definition refresh_host :: "time \<Rightarrow> registration \<Rightarrow> registry \<Rightarrow> host_row \<Rightarrow> host_row" where
  "refresh_host now rd r h =
     h\<lparr>h_updated_at := Some now,
       h_name := (case clean_hostname rd of
           None \<Rightarrow> h_name h
         | Some n \<Rightarrow>
             if n = [] \<or> n = h_name h \<or> list_ex (\<lambda>g. h_name g = n \<and> h_id g \<noteq> h_id h) (r_hosts r) then h_name h else n),
       h_columns := fold (\<lambda>c d. if truthy (col (rd_info rd) c) then dset c (col (rd_info rd) c) d else d) SYSTEM_COLUMNS
         (let ip = serialize_registration_host_ip rd
          in if truthy ip then dset ''host_ip'' ip (h_columns h) else h_columns h)\<rparr>"

definition reconnect_agent :: "time \<Rightarrow> registration \<Rightarrow> registry \<Rightarrow> (reg_error, registered \<times> registry) res" where
  "reconnect_agent now rd r =
     (case find_agent (rd_token rd) r of
        None \<Rightarrow> Inl EngineMismatch
      | Some a \<Rightarrow>
          if ag_engine_id a \<noteq> rd_engine_id rd then Inl EngineMismatch
          else Inr (\<lparr>rg_agent_id = ag_id a, rg_host_id = ag_host_id a, rg_migrated_from = None, rg_candidates = []\<rparr>,
                    update_host (ag_host_id a) (refresh_host now rd r) (update_agent (ag_id a) (refresh_agent now rd) r)))"

text \<open>The branches on the text of the exception, which the database layer composes.\<close>

definition integrity_error :: "string \<Rightarrow> reg_error" where
  "integrity_error err_str =
     (let dup = contains ''unique'' err_str \<or> contains ''duplicate'' err_str in
      if contains ''engine_id'' err_str \<and> dup then AlreadyRegistered
      else if contains ''name'' err_str \<and> dup then NameTaken
      else DatabaseConflict)"

definition agent_host :: "time \<Rightarrow> string \<Rightarrow> registration \<Rightarrow> host_row" where
  "agent_host now host_id rd =
     \<lparr>h_id = host_id,
      h_name = (case clean_hostname rd of
           None \<Rightarrow> ''Agent-'' @ take 12 (rd_engine_id rd)
         | Some n \<Rightarrow> if n = [] then ''Agent-'' @ take 12 (rd_engine_id rd) else n),
      h_url = ''agent://'', h_connection_type = ''agent'', h_engine_id = Some (rd_engine_id rd), h_replaced_by = None,
      h_is_active = True, h_updated_at = Some now,
      h_columns = copied SYSTEM_COLUMNS (rd_info rd) @ [(''host_ip'', serialize_registration_host_ip rd)]\<rparr>"

definition add_new_agent ::
    "time \<Rightarrow> string \<Rightarrow> string \<Rightarrow> string \<Rightarrow> registration \<Rightarrow> (string \<times> string) list \<Rightarrow> registry
      \<Rightarrow> (reg_error, registered \<times> registry) res" where
  "add_new_agent now agent_id host_id err_str rd candidates r =
     (let r' = r\<lparr>r_hosts := r_hosts r @ [agent_host now host_id rd],
             r_agents := r_agents r @ [new_agent now agent_id host_id (rd_force_unique rd) rd]\<rparr>
      in if \<not> constraints_ok r' then Inl (integrity_error err_str)
         else if (case find_token (rd_token rd) r of None \<Rightarrow> False | Some t \<Rightarrow> is_exhausted t) then Inl TokenExhausted
         else Inr (\<lparr>rg_agent_id = agent_id, rg_host_id = host_id, rg_migrated_from = None, rg_candidates = candidates\<rparr>,
                   use_token now (rd_token rd) r'))"

definition remote_hosts :: "string \<Rightarrow> registry \<Rightarrow> host_row list" where
  "remote_hosts engine_id r = filter (\<lambda>h. h_engine_id h = Some engine_id \<and> h_connection_type h = ''remote''
     \<and> h_replaced_by h = None) (r_hosts r)"

definition register_agent ::
    "time \<Rightarrow> string \<Rightarrow> string \<Rightarrow> string \<Rightarrow> registration \<Rightarrow> registry \<Rightarrow> (reg_error, registered \<times> registry) res" where
  "register_agent now agent_id host_id err_str rd r =
     (if rd_engine_id rd = [] then Inl EngineIdRequired
      else if validate_permanent_token (rd_token rd) r then reconnect_agent now rd r
      else if \<not> validate_registration_token now (rd_token rd) r then
        (case find_token (rd_token rd) r of
           None \<Rightarrow> Inl InvalidToken
         | Some t \<Rightarrow> if is_exhausted t then Inl TokenExhausted
             else if t_expires_at t \<le> now then Inl TokenExpired else Inl InvalidToken)
      else if list_ex (\<lambda>h. h_engine_id h = Some (rd_engine_id rd) \<and> h_connection_type h = ''local'') (r_hosts r)
        then Inl LocalHost
      else if rd_force_unique rd then
        (if rd_hostname_source rd \<noteq> Some ''agent_name'' then Inl AgentNameRequired
         else add_new_agent now agent_id host_id err_str rd [] r)
      else if list_ex (\<lambda>a. ag_engine_id a = rd_engine_id rd) (r_agents r) then Inl AlreadyRegistered
      else case remote_hosts (rd_engine_id rd) r of
          [] \<Rightarrow> add_new_agent now agent_id host_id err_str rd [] r
        | [h] \<Rightarrow> migrate_host_to_agent now agent_id host_id rd (h_id h) r
        | hs \<Rightarrow> add_new_agent now agent_id host_id err_str rd (map (\<lambda>h. (h_id h, h_name h)) hs) r)"

end
