(* ===== verification/AgentRegistryLaws.thy ===== *)
theory AgentRegistryLaws
  imports AgentRegistry
begin

text \<open>
  What registration keeps: how often and until when a token admits agents, that agents and hosts belong
  together, and that a migration moves every setting and the sight of the host.
\<close>

section \<open>The registry as a machine\<close>

datatype reg_event =
    Generate time string int bool
  | Cleanup time
  | Register time string string string registration
  | MigrateFrom time string string

fun reg_step :: "registry \<Rightarrow> reg_event \<Rightarrow> registry" where
  "reg_step r (Generate now token user multi) =
     (let r' = generate_registration_token now token user multi r in if constraints_ok r' then r' else r)"
| "reg_step r (Cleanup now) = snd (cleanup_expired_registration_tokens now r)"
| "reg_step r (Register now a h err rd) = (case register_agent now a h err rd r of Inl e \<Rightarrow> r | Inr (res, r') \<Rightarrow> r')"
| "reg_step r (MigrateFrom now a s) = (case migrate_from_host now a s r of Inl e \<Rightarrow> r | Inr (res, r') \<Rightarrow> r')"

text \<open>The times at which agents join with a token along a run.\<close>

fun joins :: "string \<Rightarrow> registry \<Rightarrow> reg_event \<Rightarrow> time list" where
  "joins token r (Register now a h err rd) =
     (if rd_token rd = token \<and> is_ok (register_agent now a h err rd r) then [now] else [])"
| "joins token r _ = []"

fun join_times :: "string \<Rightarrow> registry \<Rightarrow> reg_event list \<Rightarrow> time list" where
  "join_times token r [] = []"
| "join_times token r (e # es) = joins token r e @ join_times token (reg_step r e) es"

fun avoids :: "string \<Rightarrow> reg_event \<Rightarrow> bool" where
  "avoids token (Generate now t u m) = (t \<noteq> token)"
| "avoids token (Register now a h err rd) = (a \<noteq> token)"
| "avoids token _ = True"

section \<open>Tokens\<close>

lemma transfer_settings_fields [simp]:
  "r_tokens (transfer_settings old new r) = r_tokens r"
  "r_hosts (transfer_settings old new r) = r_hosts r"
  "r_agents (transfer_settings old new r) = r_agents r"
  by (simp_all add: transfer_settings_def)

lemma update_fields [simp]:
  "r_tokens (update_host i f r) = r_tokens r" "r_agents (update_host i f r) = r_agents r"
  "r_tokens (update_agent i g r) = r_tokens r" "r_hosts (update_agent i g r) = r_hosts r"
  "r_hosts (use_token now t r) = r_hosts r" "r_agents (use_token now t r) = r_agents r"
  by (simp_all add: update_host_def update_agent_def use_token_def)

lemma find_map_same: "(\<And>x. P (f x) = P x) \<Longrightarrow> find P (map f xs) = map_option f (find P xs)"
  by (induction xs) auto

lemma find_token_use [simp]:
  "find_token token (use_token now t r) =
     map_option (\<lambda>x. if t_token x = t then x\<lparr>t_use_count := Suc (t_use_count x), t_last_used_at := Some now\<rparr> else x)
       (find_token token r)"
  unfolding find_token_def use_token_def by (simp add: find_map_same)

lemma find_token_other [simp]:
  "find_token token (r\<lparr>r_hosts := x\<rparr>) = find_token token r"
  "find_token token (r\<lparr>r_agents := y\<rparr>) = find_token token r"
  "find_token token (update_host i f r) = find_token token r"
  "find_token token (update_agent i g r) = find_token token r"
  "find_token token (transfer_settings old new r) = find_token token r"
  by (simp_all add: find_token_def)

lemma map_token_use [simp]: "map t_token (r_tokens (use_token now t r)) = map t_token (r_tokens r)"
  by (simp add: use_token_def comp_def)

lemma constraints_tokens: "constraints_ok r \<Longrightarrow> distinct (map t_token (r_tokens r))"
  by (simp add: constraints_ok_def)

lemma migrate_host_to_agent_Inr:
  assumes "migrate_host_to_agent now a new rd old r = Inr (res, r')"
  obtains h where "find_host old r = Some h" "constraints_ok r'"
    "r' = use_token now (rd_token rd) (transfer_settings old new
       ((update_host old (retire_host now new) r)\<lparr>r_hosts := r_hosts (update_host old (retire_host now new) r) @ [migrated_host now new rd h],
         r_agents := r_agents r @ [(new_agent now a new False rd)\<lparr>ag_os := None, ag_arch := None\<rparr>]\<rparr>))"
    "res = \<lparr>rg_agent_id = a, rg_host_id = new, rg_migrated_from = Some (old, h_name h), rg_candidates = []\<rparr>"
  using assms by (auto simp: migrate_host_to_agent_def Let_def split: option.splits if_splits)

lemma add_new_agent_Inr:
  assumes "add_new_agent now a h err rd cands r = Inr (res, r')"
  obtains "constraints_ok (r\<lparr>r_hosts := r_hosts r @ [agent_host now h rd], r_agents := r_agents r @ [new_agent now a h (rd_force_unique rd) rd]\<rparr>)"
    "r' = use_token now (rd_token rd)
       (r\<lparr>r_hosts := r_hosts r @ [agent_host now h rd], r_agents := r_agents r @ [new_agent now a h (rd_force_unique rd) rd]\<rparr>)"
    "res = \<lparr>rg_agent_id = a, rg_host_id = h, rg_migrated_from = None, rg_candidates = cands\<rparr>"
  using assms by (auto simp: add_new_agent_def Let_def split: if_splits)

text \<open>How a registration succeeds.\<close>

lemma register_agent_Inr:
  assumes "register_agent now a h err rd r = Inr (res, r')"
  obtains
    (known) "validate_permanent_token (rd_token rd) r" "reconnect_agent now rd r = Inr (res, r')"
  | (fresh) cands where "\<not> validate_permanent_token (rd_token rd) r" "validate_registration_token now (rd_token rd) r"
      "rd_force_unique rd \<or> \<not> list_ex (\<lambda>x. ag_engine_id x = rd_engine_id rd) (r_agents r)"
      "add_new_agent now a h err rd cands r = Inr (res, r')"
  | (migrated) old where "\<not> validate_permanent_token (rd_token rd) r" "validate_registration_token now (rd_token rd) r"
      "old \<in> set (remote_hosts (rd_engine_id rd) r)" "\<not> list_ex (\<lambda>x. ag_engine_id x = rd_engine_id rd) (r_agents r)"
      "migrate_host_to_agent now a h rd (h_id old) r = Inr (res, r')"
proof -
  consider (p) "validate_permanent_token (rd_token rd) r" | (t) "\<not> validate_permanent_token (rd_token rd) r" by blast
  then show thesis
  proof cases
    case p
    with assms known show thesis by (simp add: register_agent_def split: if_splits)
  next
    case t
    with assms have v: "validate_registration_token now (rd_token rd) r"
      by (auto simp: register_agent_def split: if_splits option.splits)
    show thesis
    proof (cases "rd_force_unique rd")
      case True
      with t v assms fresh [of "[]"] show thesis by (simp add: register_agent_def split: if_splits)
    next
      case False
      with t v assms have no: "\<not> list_ex (\<lambda>x. ag_engine_id x = rd_engine_id rd) (r_agents r)"
        and c: "(case remote_hosts (rd_engine_id rd) r of
          [] \<Rightarrow> add_new_agent now a h err rd [] r
        | [x] \<Rightarrow> migrate_host_to_agent now a h rd (h_id x) r
        | hs \<Rightarrow> add_new_agent now a h err rd (map (\<lambda>x. (h_id x, h_name x)) hs) r) = Inr (res, r')"
        by (auto simp: register_agent_def split: if_splits)
      show thesis
      proof (cases "remote_hosts (rd_engine_id rd) r")
        case Nil
        with c t v no fresh [of "[]"] show thesis by simp
      next
        case (Cons x xs)
        with c t v no migrated [of x] fresh [of "map (\<lambda>y. (h_id y, h_name y)) (x # xs)"] show thesis
          by (cases xs) auto
      qed
    qed
  qed
qed

lemma validated_token:
  "validate_registration_token now token r \<Longrightarrow> \<exists>t. find_token token r = Some t \<and> \<not> is_exhausted t \<and> now < t_expires_at t"
  by (auto simp: validate_registration_token_def split: option.splits)

lemma register_agent_new:
  assumes "register_agent now a h err rd r = Inr (res, r')" and "\<not> validate_permanent_token (rd_token rd) r"
  shows "(\<exists>t. find_token (rd_token rd) r = Some t \<and> \<not> is_exhausted t \<and> now < t_expires_at t)
    \<and> (\<forall>token. find_token token r' = map_option (\<lambda>x. if t_token x = rd_token rd
       then x\<lparr>t_use_count := Suc (t_use_count x), t_last_used_at := Some now\<rparr> else x) (find_token token r))
    \<and> set (map ag_id (r_agents r')) = insert a (set (map ag_id (r_agents r)))
    \<and> map t_token (r_tokens r') = map t_token (r_tokens r)"
  using assms(1)
proof (cases rule: register_agent_Inr)
  case (fresh cands)
  from fresh(4) show ?thesis
    by (rule add_new_agent_Inr) (simp add: validated_token [OF fresh(2)] new_agent_def)
next
  case (migrated old)
  from migrated(5) show ?thesis
    by (rule migrate_host_to_agent_Inr) (simp add: validated_token [OF migrated(2)] new_agent_def)
qed (use assms(2) in simp)

lemma reconnect_agent_Inr:
  assumes "reconnect_agent now rd r = Inr (res, r')"
  shows "r_tokens r' = r_tokens r \<and> map ag_id (r_agents r') = map ag_id (r_agents r)"
  using assms by (auto simp: reconnect_agent_def update_agent_def refresh_agent_def comp_def split: option.splits if_splits)

lemma migrate_from_host_Inr:
  assumes "migrate_from_host now a s r = Inr (res, r')"
  obtains agent host old where "find_agent a r = Some agent" "find_host (ag_host_id agent) r = Some host"
    "find_host s r = Some old" "h_connection_type old = ''remote''" "h_replaced_by old = None" "constraints_ok r'"
    "r' = update_host s (retire_host now (ag_host_id agent)) (transfer_settings s (ag_host_id agent) r)"
  using assms by (auto simp: migrate_from_host_def Let_def split: option.splits if_splits)


text \<open>What one event does to a token that it does not create.\<close>

lemma reg_step_token:
  assumes "avoids token e" and "\<not> validate_permanent_token token r" and dist: "distinct (map t_token (r_tokens r))"
  shows "\<not> validate_permanent_token token (reg_step r e) \<and> distinct (map t_token (r_tokens (reg_step r e)))
    \<and> (if joins token r e = [] then find_token token (reg_step r e) \<in> {None, find_token token r}
       else \<exists>t now. joins token r e = [now] \<and> find_token token r = Some t \<and> \<not> is_exhausted t \<and> now < t_expires_at t
         \<and> find_token token (reg_step r e) = Some (t\<lparr>t_use_count := Suc (t_use_count t), t_last_used_at := Some now\<rparr>))"
proof -
  have perm: "validate_permanent_token token x \<longleftrightarrow> token \<in> set (map ag_id (r_agents x))" for x
    by (auto simp: validate_permanent_token_def find_agent_def find_None_iff)
  have mine: "t_token t = token" if "find_token token r = Some t" for t
    using that by (auto simp: find_token_def dest: find_SomeD)
  show ?thesis
  proof (cases e)
    case (Generate now t u m)
    with assms have "find_token token (reg_step r e) = find_token token r"
      by (auto simp: generate_registration_token_def find_token_def Let_def find_append split: option.splits)
    moreover have "distinct (map t_token (r_tokens (reg_step r e)))"
      using dist constraints_tokens by (simp add: Generate Let_def)
    moreover have "r_agents (reg_step r e) = r_agents r"
      by (simp add: Generate Let_def generate_registration_token_def)
    ultimately show ?thesis using assms Generate by (simp add: perm)
  next
    case (Cleanup now)
    have "find_token token (reg_step r e) = find_token token r" if f: "find_token token (reg_step r e) \<noteq> None"
    proof -
      from f obtain t where t: "find_token token (reg_step r e) = Some t" by blast
      then have in_r: "t \<in> set (r_tokens r)" "t_token t = token"
        using Cleanup by (auto simp: find_token_def cleanup_expired_registration_tokens_def Let_def dest!: find_SomeD)
      then obtain t' where t': "find_token token r = Some t'"
        by (cases "find_token token r") (auto simp: find_token_def find_None_iff)
      with mine have "t' \<in> set (r_tokens r)" "t_token t' = token" by (auto simp: find_token_def dest: find_SomeD)
      with in_r dist have "t' = t" by (metis distinct_map inj_onD)
      with t t' show ?thesis by simp
    qed
    then show ?thesis using assms Cleanup
      by (auto simp: perm cleanup_expired_registration_tokens_def Let_def distinct_map_filter)
  next
    case (Register now a h err rd)
    show ?thesis
    proof (cases "register_agent now a h err rd r")
      case (Inr x)
      obtain res r' where x: "x = (res, r')" by fastforce
      show ?thesis
      proof (cases "validate_permanent_token (rd_token rd) r")
        case True
        with Inr x have "reconnect_agent now rd r = Inr (res, r')"
          by (auto elim!: register_agent_Inr)
        moreover have "rd_token rd \<noteq> token" using True assms(2) by auto
        ultimately show ?thesis using reconnect_agent_Inr Register Inr x assms
          by (auto simp: perm find_token_def)
      next
        case False
        note new = register_agent_new [OF Inr [unfolded x] False]
        show ?thesis
        proof (cases "rd_token rd = token")
          case True
          with new obtain t where "find_token token r = Some t" "\<not> is_exhausted t" "now < t_expires_at t" by blast
          with new True mine [of t] Register Inr x assms show ?thesis by (auto simp: perm)
        next
          case False
          with new mine Register Inr x assms show ?thesis by (cases "find_token token r") (auto simp: perm)
        qed
      qed
    qed (use assms Register in simp)
  next
    case (MigrateFrom now a s)
    show ?thesis
    proof (cases "migrate_from_host now a s r")
      case (Inr x)
      then obtain res r' where x: "migrate_from_host now a s r = Inr (res, r')" by (cases x) auto
      from x have "r_tokens r' = r_tokens r \<and> r_agents r' = r_agents r"
        by (rule migrate_from_host_Inr) simp
      with x show ?thesis using assms MigrateFrom by (simp add: perm find_token_def)
    qed (use assms MigrateFrom in simp)
  qed
qed


lemma join_times_bound:
  assumes "list_all (avoids token) es" and "\<not> validate_permanent_token token r" and "distinct (map t_token (r_tokens r))"
  shows "case find_token token r of
      None \<Rightarrow> join_times token r es = []
    | Some t \<Rightarrow> list_all (\<lambda>now. now < t_expires_at t) (join_times token r es)
        \<and> (case t_max_uses t of None \<Rightarrow> True | Some n \<Rightarrow> length (join_times token r es) + t_use_count t \<le> max n (t_use_count t))"
  using assms
proof (induction es arbitrary: r)
  case Nil
  then show ?case by (auto split: option.splits)
next
  case (Cons e es)
  then have av: "avoids token e" and ih: "case find_token token (reg_step r e) of
      None \<Rightarrow> join_times token (reg_step r e) es = []
    | Some t \<Rightarrow> list_all (\<lambda>now. now < t_expires_at t) (join_times token (reg_step r e) es)
        \<and> (case t_max_uses t of None \<Rightarrow> True | Some n \<Rightarrow> length (join_times token (reg_step r e) es) + t_use_count t \<le> max n (t_use_count t))"
    using reg_step_token [of token e r] by auto
  note step = reg_step_token [OF av Cons.prems(2,3)]
  show ?case
  proof (cases "joins token r e")
    case Nil
    with step ih show ?thesis by (cases "find_token token r") (auto split: option.splits)
  next
    case (Cons x xs)
    with step obtain t where "joins token r e = [x]" "find_token token r = Some t" "\<not> is_exhausted t" "x < t_expires_at t"
      "find_token token (reg_step r e) = Some (t\<lparr>t_use_count := Suc (t_use_count t), t_last_used_at := Some x\<rparr>)" by auto
    with ih show ?thesis by (auto simp: is_exhausted_def split: option.splits)
  qed
qed

text \<open>Proved as well: A registration token admits agents only during the quarter of an hour after it was made, and a
  token that is not for several uses admits one agent at most, whatever registrations, reconnections,
  migrations, cleanups and new tokens follow one another.
\<close>

theorem token_admits_once:
  assumes "constraints_ok (generate_registration_token now token user multi r)"
    and "\<not> validate_permanent_token token r" and "list_all (avoids token) es"
  shows "list_all (\<lambda>x. x < now + secs 900) (join_times token (generate_registration_token now token user multi r) es)
    \<and> (multi \<or> length (join_times token (generate_registration_token now token user multi r) es) \<le> 1)"
proof -
  let ?r = "generate_registration_token now token user multi r"
  have "find (\<lambda>t. t_token t = token) (r_tokens r) = None"
    using constraints_tokens [OF assms(1)] by (auto simp: generate_registration_token_def find_None_iff)
  then have "find_token token ?r = Some \<lparr>t_token = token, t_created_by_user_id = Some user, t_created_at = now,
        t_expires_at = now + secs 900, t_max_uses = (if multi then None else Some 1), t_use_count = 0, t_last_used_at = None\<rparr>"
    by (simp add: find_token_def generate_registration_token_def find_append)
  moreover have "\<not> validate_permanent_token token ?r"
    using assms(2) by (simp add: validate_permanent_token_def find_agent_def generate_registration_token_def)
  ultimately show ?thesis
    using join_times_bound [OF assms(3) _ constraints_tokens [OF assms(1)]] by (auto split: if_splits)
qed


section \<open>Agents and hosts\<close>

definition agent_of_host :: "agent_row \<Rightarrow> host_row \<Rightarrow> bool" where
  "agent_of_host a h = (h_id h = ag_host_id a \<and> h_connection_type h = ''agent'' \<and> h_engine_id h = Some (ag_engine_id a)
     \<and> h_replaced_by h = None)"

definition retired_for :: "host_row list \<Rightarrow> host_row \<Rightarrow> bool" where
  "retired_for hosts h = (case h_replaced_by h of
       None \<Rightarrow> True
     | Some i \<Rightarrow> h_connection_type h = ''remote'' \<and> \<not> h_is_active h
         \<and> list_ex (\<lambda>g. h_id g = i \<and> h_connection_type g = ''agent'') hosts)"

definition registry_ok :: "registry \<Rightarrow> bool" where
  "registry_ok r = (constraints_ok r
     \<and> list_all (\<lambda>a. list_ex (agent_of_host a) (r_hosts r)) (r_agents r)
     \<and> list_all (retired_for (r_hosts r)) (r_hosts r))"

lemma constraints_ok_use [simp]: "constraints_ok (use_token now t r) = constraints_ok r"
  unfolding constraints_ok_def map_token_use by (simp add: use_token_def)

lemma retired_for_append: "retired_for hosts h \<Longrightarrow> retired_for (hosts @ more_hosts) h"
  by (auto simp: retired_for_def split: option.splits)

text \<open>Hosts may change in whatever the invariant does not read.\<close>

definition same_role :: "host_row \<Rightarrow> host_row \<Rightarrow> bool" where
  "same_role h g = (h_id g = h_id h \<and> h_connection_type g = h_connection_type h \<and> h_engine_id g = h_engine_id h
     \<and> h_replaced_by g = h_replaced_by h \<and> h_is_active g = h_is_active h)"

lemma roles_kept:
  assumes "\<And>h. same_role h (f h)"
  shows "list_ex (agent_of_host a) (map f hosts) = list_ex (agent_of_host a) hosts"
    and "retired_for (map f hosts) (f h) = retired_for hosts h"
  using assms by (auto simp: same_role_def agent_of_host_def retired_for_def list_ex_iff split: option.splits)

lemma refresh_host_role: "same_role h (if h_id h = i then refresh_host now rd r h else h)"
  by (simp add: same_role_def refresh_host_def)

lemma upd_same: "(\<And>x. val (f x) = val x) \<Longrightarrow> map val (map (\<lambda>x. if P x then f x else x) xs) = map val xs"
  by (induction xs) auto

lemma upd_filter_same:
  "(\<And>x. val (f x) = val x) \<Longrightarrow> (\<And>x. Q (f x) = Q x) \<Longrightarrow>
     map val (filter Q (map (\<lambda>x. if P x then f x else x) xs)) = map val (filter Q xs)"
  by (induction xs) auto

lemma list_all_upd:
  "(\<And>x. x \<in> set xs \<Longrightarrow> P (if Q x then f x else x)) \<Longrightarrow> list_all P (map (\<lambda>x. if Q x then f x else x) xs)"
  by (induction xs) auto

lemma distinct_update:
  assumes "distinct (map key xs)" and "distinct (map val xs)"
    and "\<And>x y. x \<in> set xs \<Longrightarrow> y \<in> set xs \<Longrightarrow> key x = i \<Longrightarrow> key y \<noteq> i \<Longrightarrow> val (f x) \<noteq> val y"
  shows "distinct (map val (map (\<lambda>x. if key x = i then f x else x) xs))"
  using assms
proof (induction xs)
  case (Cons x xs)
  then have "distinct (map val (map (\<lambda>x. if key x = i then f x else x) xs))" by (simp del: map_map)
  moreover have "val (if key x = i then f x else x) \<notin> (\<lambda>y. val (if key y = i then f y else y)) ` set xs"
  proof
    assume "val (if key x = i then f x else x) \<in> (\<lambda>y. val (if key y = i then f y else y)) ` set xs"
    then obtain y where y: "y \<in> set xs" "val (if key x = i then f x else x) = val (if key y = i then f y else y)" by blast
    have "key y \<noteq> key x" "val y \<noteq> val x"
      using Cons.prems(1,2) y(1) by (metis distinct.simps(2) image_eqI list.map(2) list.set_map)+
    moreover have "val (f x) \<noteq> val y" if "key x = i" "key y \<noteq> i" using Cons.prems(3) [of x y] y(1) that by simp
    moreover have "val (f y) \<noteq> val x" if "key y = i" "key x \<noteq> i" using Cons.prems(3) [of y x] y(1) that by simp
    ultimately show False using y(2) by (cases "key x = i"; cases "key y = i") (simp_all add: eq_commute)
  qed
  ultimately show ?case by (simp add: image_image comp_def)
qed simp

definition same_settings :: "registry \<Rightarrow> registry \<Rightarrow> bool" where
  "same_settings r r' = (r_tokens r' = r_tokens r \<and> r_updates r' = r_updates r \<and> r_health r' = r_health r
     \<and> r_tags r' = r_tags r \<and> r_alerts r' = r_alerts r \<and> r_deployments r' = r_deployments r
     \<and> r_deployed r' = r_deployed r \<and> r_metadata r' = r_metadata r)"

lemma constraints_kept:
  assumes "constraints_ok r" and "same_settings r r'" and "distinct (map h_name (r_hosts r'))"
    and "map h_id (r_hosts r') = map h_id (r_hosts r)"
    and "map ag_id (r_agents r') = map ag_id (r_agents r)" and "map ag_host_id (r_agents r') = map ag_host_id (r_agents r)"
    and "map ag_engine_id (filter (\<lambda>a. \<not> ag_force_unique a) (r_agents r')) = map ag_engine_id (filter (\<lambda>a. \<not> ag_force_unique a) (r_agents r))"
  shows "constraints_ok r'"
  using assms by (simp add: constraints_ok_def same_settings_def)

lemma reconnect_ok:
  assumes ok: "registry_ok r" and rec: "reconnect_agent now rd r = Inr (res, r')"
  shows "registry_ok r'"
proof -
  from rec obtain a where a: "find_agent (rd_token rd) r = Some a"
    and r': "r' = update_host (ag_host_id a) (refresh_host now rd r) (update_agent (ag_id a) (refresh_agent now rd) r)"
    by (auto simp: reconnect_agent_def split: option.splits if_splits)
  have names: "distinct (map h_id (r_hosts r))" "distinct (map h_name (r_hosts r))"
    using ok by (simp_all add: registry_ok_def constraints_ok_def)
  have new_name: "h_name (refresh_host now rd r h) = h_name h
      \<or> list_all (\<lambda>g. h_name g = h_name (refresh_host now rd r h) \<longrightarrow> h_id g = h_id h) (r_hosts r)" for h
    by (auto simp: refresh_host_def list_ex_iff list_all_iff split: option.splits)
  have hosts: "r_hosts r' = map (\<lambda>h. if h_id h = ag_host_id a then refresh_host now rd r h else h) (r_hosts r)"
    by (simp add: r' update_host_def)
  have agents: "r_agents r' = map (\<lambda>x. if ag_id x = ag_id a then refresh_agent now rd x else x) (r_agents r)"
    by (simp add: r' update_agent_def)
  have "distinct (map h_name (r_hosts r'))"
    unfolding hosts
  proof (rule distinct_update [OF names])
    fix x y assume "x \<in> set (r_hosts r)" "y \<in> set (r_hosts r)" "h_id x = ag_host_id a" "h_id y \<noteq> ag_host_id a"
    with new_name [of x] names(2) show "h_name (refresh_host now rd r x) \<noteq> h_name y"
      by (auto simp: list_all_iff distinct_map dest: inj_onD)
  qed
  moreover have "map h_id (r_hosts r') = map h_id (r_hosts r)"
    unfolding hosts by (rule upd_same) (simp add: refresh_host_def)
  moreover have "map ag_id (r_agents r') = map ag_id (r_agents r)" "map ag_host_id (r_agents r') = map ag_host_id (r_agents r)"
    "map ag_engine_id (filter (\<lambda>a. \<not> ag_force_unique a) (r_agents r')) = map ag_engine_id (filter (\<lambda>a. \<not> ag_force_unique a) (r_agents r))"
    unfolding agents by (rule upd_same upd_filter_same; simp add: refresh_agent_def)+
  moreover have "constraints_ok r" using ok by (simp add: registry_ok_def)
  moreover have "same_settings r r'" by (simp add: same_settings_def r' update_host_def update_agent_def)
  ultimately have "constraints_ok r'" using constraints_kept [of r r'] by blast
  moreover have "list_all (\<lambda>a. list_ex (agent_of_host a) (r_hosts r')) (r_agents r')"
  proof -
    have "agent_of_host (refresh_agent now rd x) = agent_of_host x" for x
      by (simp add: agent_of_host_def refresh_agent_def fun_eq_iff)
    then show ?thesis
      using ok unfolding hosts agents roles_kept(1) [OF refresh_host_role]
      by (intro list_all_upd) (auto simp: registry_ok_def list_all_iff)
  qed
  moreover have "list_all (retired_for (r_hosts r')) (r_hosts r')"
    unfolding hosts
  proof (rule list_all_upd)
    fix x assume "x \<in> set (r_hosts r)"
    with ok have "retired_for (r_hosts r) x" by (simp add: registry_ok_def list_all_iff)
    then show "retired_for (map (\<lambda>h. if h_id h = ag_host_id a then refresh_host now rd r h else h) (r_hosts r))
        (if h_id x = ag_host_id a then refresh_host now rd r x else x)"
      by (simp only: roles_kept(2) [where f = "\<lambda>h. if h_id h = ag_host_id a then refresh_host now rd r h else h", OF refresh_host_role])
  qed
  ultimately show ?thesis by (simp add: registry_ok_def)
qed


lemma retire_role: "h_id (retire_host now i h) = h_id h"
  by (simp add: retire_host_def)

text \<open>Retiring a remote host that no agent uses.\<close>

lemma retire_keeps:
  assumes ok: "registry_ok r" and old: "find_host i r = Some old" "h_connection_type old = ''remote''"
    and r': "r_hosts r' = map (\<lambda>h. if h_id h = i then retire_host now new h else h) (r_hosts r) @ added"
    and ag: "r_agents r' = r_agents r @ joined"
    and new: "list_ex (\<lambda>g. h_id g = new \<and> h_connection_type g = ''agent'') (r_hosts r')"
    and added: "list_all (\<lambda>h. h_replaced_by h = None) added"
    and joined: "list_all (\<lambda>a. list_ex (agent_of_host a) added) joined"
    and c: "constraints_ok r'"
  shows "registry_ok r'"
proof -
  have old_in: "old \<in> set (r_hosts r)" "h_id old = i" using old(1) by (auto simp: find_host_def dest: find_SomeD)
  have "distinct (map h_id (r_hosts r))" using ok by (simp add: registry_ok_def constraints_ok_def)
  then have only: "h = old" if "h \<in> set (r_hosts r)" "h_id h = i" for h
    using that old_in by (metis distinct_map inj_onD)
  have agents: "list_ex (agent_of_host a) (r_hosts r')" if "a \<in> set (r_agents r)" for a
  proof -
    from ok that obtain h where h: "h \<in> set (r_hosts r)" "agent_of_host a h"
      by (auto simp: registry_ok_def list_all_iff list_ex_iff)
    then have "h_id h \<noteq> i" using only [of h] old(2) by (auto simp: agent_of_host_def)
    then have "h \<in> set (r_hosts r')" using h(1) by (auto simp: r' intro: rev_image_eqI)
    with h(2) show ?thesis by (auto simp: list_ex_iff)
  qed
  have retired: "retired_for (r_hosts r') (if h_id h = i then retire_host now new h else h)" if "h \<in> set (r_hosts r)" for h
  proof (cases "h_id h = i")
    case True
    with only [OF that] new old(2) show ?thesis by (simp add: retired_for_def retire_host_def)
  next
    case False
    show ?thesis
    proof (cases "h_replaced_by h")
      case (Some k)
      with ok that obtain g where g: "g \<in> set (r_hosts r)" "h_id g = k" "h_connection_type g = ''agent''"
        and h: "h_connection_type h = ''remote''" "\<not> h_is_active h"
        by (fastforce simp: registry_ok_def list_all_iff list_ex_iff retired_for_def)
      then have "h_id g \<noteq> i" using only [of g] old(2) by auto
      with g have "g \<in> set (r_hosts r')" by (auto simp: r' intro: rev_image_eqI)
      with False Some g h show ?thesis by (auto simp: retired_for_def list_ex_iff)
    qed (use False in \<open>simp add: retired_for_def\<close>)
  qed
  have "list_all (retired_for (r_hosts r')) (map (\<lambda>h. if h_id h = i then retire_host now new h else h) (r_hosts r))"
    by (rule list_all_upd) (rule retired)
  moreover have "list_all (retired_for (r_hosts r')) added"
    using added by (simp add: list_all_iff retired_for_def)
  ultimately have "list_all (retired_for (r_hosts r')) (r_hosts r')"
    unfolding r' list_all_append by blast
  moreover have "list_all (\<lambda>a. list_ex (agent_of_host a) (r_hosts r')) (r_agents r')"
    using agents joined by (auto simp: ag list_all_iff r' list_ex_iff)
  ultimately show ?thesis using c by (simp add: registry_ok_def)
qed

lemma migrate_host_to_agent_ok:
  assumes "registry_ok r" and "h \<in> set (remote_hosts (rd_engine_id rd) r)"
    and "migrate_host_to_agent now a new rd (h_id h) r = Inr (res, r')"
  shows "registry_ok r'"
  using assms(3)
proof (rule migrate_host_to_agent_Inr)
  fix old
  assume old: "find_host (h_id h) r = Some old" and c: "constraints_ok r'"
    and r': "r' = use_token now (rd_token rd) (transfer_settings (h_id h) new
       ((update_host (h_id h) (retire_host now new) r)\<lparr>r_hosts := r_hosts (update_host (h_id h) (retire_host now new) r) @ [migrated_host now new rd old],
         r_agents := r_agents r @ [(new_agent now a new False rd)\<lparr>ag_os := None, ag_arch := None\<rparr>]\<rparr>))"
  have "distinct (map h_id (r_hosts r))" using assms(1) by (simp add: registry_ok_def constraints_ok_def)
  then have "old = h" using old assms(2)
    by (auto simp: find_host_def remote_hosts_def distinct_map dest!: find_SomeD dest: inj_onD)
  then have "h_connection_type old = ''remote''" using assms(2) by (simp add: remote_hosts_def)
  from retire_keeps [OF assms(1) old this _ _ _ _ _ c, of now new "[migrated_host now new rd old]"
      "[(new_agent now a new False rd)\<lparr>ag_os := None, ag_arch := None\<rparr>]"]
  show "registry_ok r'"
    by (simp add: r' update_host_def migrated_host_def new_agent_def agent_of_host_def)
qed

lemma migrate_from_host_ok:
  assumes "registry_ok r" and "migrate_from_host now a s r = Inr (res, r')"
  shows "registry_ok r'"
  using assms(2)
proof (rule migrate_from_host_Inr)
  fix agent host old
  assume ag: "find_agent a r = Some agent" and old: "find_host s r = Some old" "h_connection_type old = ''remote''"
    and c: "constraints_ok r'"
    and r': "r' = update_host s (retire_host now (ag_host_id agent)) (transfer_settings s (ag_host_id agent) r)"
  from ag have "agent \<in> set (r_agents r)" by (auto simp: find_agent_def dest: find_SomeD)
  with assms(1) obtain g where g: "g \<in> set (r_hosts r)" "agent_of_host agent g"
    by (auto simp: registry_ok_def list_all_iff list_ex_iff)
  have "distinct (map h_id (r_hosts r))" using assms(1) by (simp add: registry_ok_def constraints_ok_def)
  moreover have "old \<in> set (r_hosts r)" "h_id old = s" using old(1) by (auto simp: find_host_def dest: find_SomeD)
  moreover have "g \<noteq> old" using g(2) old(2) by (auto simp: agent_of_host_def)
  ultimately have "h_id g \<noteq> s" using g(1) by (metis distinct_map inj_onD)
  then have "g \<in> set (r_hosts r')" using g(1) by (auto simp: r' update_host_def intro: rev_image_eqI)
  with g(2) have new: "list_ex (\<lambda>g. h_id g = ag_host_id agent \<and> h_connection_type g = ''agent'') (r_hosts r')"
    by (auto simp: agent_of_host_def list_ex_iff)
  show "registry_ok r'"
    by (rule retire_keeps [OF assms(1) old _ _ new _ _ c, of now "[]" "[]"]) (simp_all add: r' update_host_def)
qed

lemma add_new_agent_ok:
  assumes "registry_ok r" and "add_new_agent now a h err rd cands r = Inr (res, r')"
  shows "registry_ok r'"
  using assms(2)
proof (rule add_new_agent_Inr)
  assume c: "constraints_ok (r\<lparr>r_hosts := r_hosts r @ [agent_host now h rd], r_agents := r_agents r @ [new_agent now a h (rd_force_unique rd) rd]\<rparr>)"
    and r': "r' = use_token now (rd_token rd)
       (r\<lparr>r_hosts := r_hosts r @ [agent_host now h rd], r_agents := r_agents r @ [new_agent now a h (rd_force_unique rd) rd]\<rparr>)"
  have "agent_of_host (new_agent now a h (rd_force_unique rd) rd) (agent_host now h rd)" "h_replaced_by (agent_host now h rd) = None"
    by (simp_all add: agent_of_host_def new_agent_def agent_host_def)
  with assms(1) c show "registry_ok r'"
    by (auto simp: registry_ok_def r' list_all_iff retired_for_append retired_for_def split: option.splits)
qed

interpretation registry: machine reg_step registry_ok
proof unfold_locales
  fix r e assume ok: "registry_ok r"
  show "registry_ok (reg_step r e)"
  proof (cases e)
    case (Generate now t u m)
    with ok show ?thesis by (auto simp: Let_def registry_ok_def generate_registration_token_def)
  next
    case (Cleanup now)
    have "distinct (map t_token (filter P (r_tokens r)))" for P
      using ok by (simp add: registry_ok_def constraints_ok_def distinct_map_filter)
    with ok Cleanup show ?thesis
      by (simp add: registry_ok_def constraints_ok_def cleanup_expired_registration_tokens_def Let_def)
  next
    case (Register now a h err rd)
    show ?thesis
    proof (cases "register_agent now a h err rd r")
      case (Inr x)
      then obtain res r' where x: "register_agent now a h err rd r = Inr (res, r')" by (cases x) auto
      from x have "registry_ok r'"
        by (cases rule: register_agent_Inr)
          (blast intro: ok reconnect_ok add_new_agent_ok migrate_host_to_agent_ok)+
      with x Register show ?thesis by simp
    qed (use ok Register in simp)
  next
    case (MigrateFrom now a s)
    show ?thesis
    proof (cases "migrate_from_host now a s r")
      case (Inr x)
      then obtain res r' where x: "migrate_from_host now a s r = Inr (res, r')" by (cases x) auto
      with migrate_from_host_ok [OF ok x] MigrateFrom show ?thesis by simp
    qed (use ok MigrateFrom in simp)
  qed
qed


text \<open>Proved as well: In every run of registrations, reconnections, migrations, cleanups and new tokens the registry stays
  consistent: names, ids, keys and the engine ids of ordinary agents are unique, every agent has its own host row of
  type agent with the agent's engine id, and a replaced host is an inactive remote one whose successor is an
  agent's host.
\<close>

theorem registry_stays_consistent:
  assumes "registry_ok r"
  shows "registry_ok (run reg_step r es)"
  using assms by (rule registry.run_inv)

section \<open>What a migration moves\<close>

definition setting_of :: "setting_row list \<Rightarrow> string \<Rightarrow> string \<Rightarrow> columns option" where
  "setting_of rows host_id c = map_option s_columns (find (\<lambda>row. s_key row = host_id @ '':'' @ c \<and> s_host row = host_id) rows)"

text \<open>Every row has a key made from its host.\<close>

definition rows_wf :: "setting_row list \<Rightarrow> bool" where
  "rows_wf rows = list_all (\<lambda>row. CHR '':'' \<notin> set (s_host row) \<and> starts_with (s_key row) (s_host row @ '':'')) rows"

definition settings_moved :: "string list \<Rightarrow> string \<Rightarrow> string \<Rightarrow> setting_row list \<Rightarrow> setting_row list \<Rightarrow> bool" where
  "settings_moved names old new rows rows' =
     (\<forall>h c. setting_of rows' h c =
        (if h = new then map_option (copied names) (setting_of rows old c)
         else if h = old then None else setting_of rows h c))"

lemma find_filter: "find P (filter Q xs) = find (\<lambda>x. P x \<and> Q x) xs"
  by (induction xs) auto

lemma find_map: "find P (map f xs) = map_option f (find (\<lambda>x. P (f x)) xs)"
  by (induction xs) auto

lemma find_cong_set: "(\<And>x. x \<in> set xs \<Longrightarrow> P x = Q x) \<Longrightarrow> find P xs = find Q xs"
  by (induction xs) auto

lemma rows_short:
  assumes "rows_wf rows" and "row \<in> set rows"
  obtains c where "s_key row = s_host row @ '':'' @ c" "short_of (s_key row) = Some c"
proof -
  from assms obtain c where "s_key row = s_host row @ CHR '':'' # c" "CHR '':'' \<notin> set (s_host row)"
    by (auto simp: rows_wf_def list_all_iff starts_with_iff)
  with that show thesis by (simp add: short_of_def split_first_append)
qed

lemma transfer_rows_moved:
  assumes wf: "rows_wf rows" and new: "\<And>row. row \<in> set rows \<Longrightarrow> s_host row \<noteq> new" and "old \<noteq> new"
  shows "settings_moved names old new rows (snd (transfer_rows names old new rows))"
proof -
  let ?left = "filter (\<lambda>row. \<not> moves old row) rows"
    and ?moved = "map (moved_row names new) (filter (moves old) rows)"
  have moves: "moves old row \<longleftrightarrow> s_host row = old" if "row \<in> set rows" for row
    by (rule rows_short [OF wf that]) (simp add: moves_def)
  have left: "find (\<lambda>row. s_key row = h @ '':'' @ c \<and> s_host row = h) ?left =
      (if h = old then None else find (\<lambda>row. s_key row = h @ '':'' @ c \<and> s_host row = h) rows)" for h c
    unfolding find_filter using moves by (auto simp: find_None_iff intro!: find_cong_set)
  have "find (\<lambda>row. s_key (moved_row names new row) = new @ '':'' @ c \<and> moves old row) rows =
      find (\<lambda>row. s_key row = old @ '':'' @ c \<and> s_host row = old) rows" for c
  proof (rule find_cong_set)
    fix row assume row: "row \<in> set rows"
    then obtain d where "s_key row = s_host row @ '':'' @ d" "short_of (s_key row) = Some d"
      using rows_short [OF wf] by blast
    with moves [OF row] show "(s_key (moved_row names new row) = new @ '':'' @ c \<and> moves old row) =
        (s_key row = old @ '':'' @ c \<and> s_host row = old)" by (auto simp: moved_row_def)
  qed
  then have moved: "find (\<lambda>row. s_key row = h @ '':'' @ c \<and> s_host row = h) ?moved =
      (if h = new then map_option (moved_row names new) (find (\<lambda>row. s_key row = old @ '':'' @ c \<and> s_host row = old) rows) else None)" for h c
    unfolding find_map find_filter by (auto simp: find_None_iff moved_row_def)
  have none: "find (\<lambda>row. s_key row = new @ '':'' @ c \<and> s_host row = new) rows = None" for c
    using new by (auto simp: find_None_iff)
  show ?thesis
    unfolding settings_moved_def setting_of_def transfer_rows_def Let_def snd_conv find_append left moved
    using assms(3) none by (auto simp: moved_row_def option.map_comp comp_def split: option.splits)
qed


text \<open>The tables whose rows have composite keys, with the columns that are copied.\<close>

definition setting_tables :: "registry \<Rightarrow> (string list \<times> setting_row list) list" where
  "setting_tables r = [(CONTAINER_UPDATE_COLUMNS, r_updates r), (HEALTH_CHECK_COLUMNS, r_health r), (DEPLOYMENT_COLUMNS, r_deployments r)]"

text \<open>
  These keys are made from the host, and the host exists (the foreign keys of the tables). The
  restart and desired-state settings are stored under the short id of the container (\<open>set_auto_restart\<close>,
  \<open>set_desired_state\<close> of \<open>backend/database.py\<close>).
\<close>

definition settings_wf :: "registry \<Rightarrow> bool" where
  "settings_wf r = (list_all (\<lambda>(names, rows). rows_wf rows
       \<and> list_all (\<lambda>row. s_host row \<in> set (map h_id (r_hosts r))) rows) (setting_tables r)
     \<and> list_all (\<lambda>row. CHR '':'' \<notin> set (s_key row)) (r_auto_restart r @ r_desired r))"

lemma short_keys_stay:
  assumes "list_all (\<lambda>row. CHR '':'' \<notin> set (s_key row)) rows"
  shows "snd (transfer_rows names old new rows) = rows"
proof -
  have "\<not> moves old row" if "row \<in> set rows" for row
    using assms that by (auto simp: moves_def short_of_def list_all_iff)
  then show ?thesis by (simp add: transfer_rows_def Let_def filter_empty_conv)
qed

definition tag_assignments :: "registry \<Rightarrow> (string \<times> string \<times> string) list" where
  "tag_assignments r = map (\<lambda>t. (tg_tag_id t, tg_subject_type t, tg_subject_id t)) (r_tags r)"

definition visible_in :: "auth_db \<Rightarrow> registry \<Rightarrow> int list \<Rightarrow> string set option" where
  "visible_in db r = visible_of (db\<lparr>db_assignments := tag_assignments r\<rparr>)"

definition replace_host :: "string \<Rightarrow> string \<Rightarrow> string set \<Rightarrow> string set" where
  "replace_host old new V = (if old \<in> V then insert new (V - {old}) else V)"

definition host_tag :: "string \<Rightarrow> string \<Rightarrow> tag_row \<Rightarrow> bool" where
  "host_tag t h row = (tg_tag_id row = t \<and> tg_subject_type row = ''host'' \<and> tg_subject_id row = h)"

lemma tag_assignments_host: "(t, ''host'', h) \<in> set (tag_assignments r) \<longleftrightarrow> list_ex (host_tag t h) (r_tags r)"
  by (auto simp: tag_assignments_def list_ex_iff host_tag_def)

lemma transferred_container_tag: "\<not> list_ex (host_tag t h) (transfer_container_tag old new rows row)"
  by (simp add: transfer_container_tag_def Let_def tag_row_of_def host_tag_def)

lemma transferred_host_tag:
  "list_ex (host_tag t h) (transfer_host_tag new rows row) \<longleftrightarrow> h = new \<and> tg_tag_id row = t \<and> \<not> list_ex (host_tag t new) rows"
  by (auto simp: transfer_host_tag_def tag_row_of_def host_tag_def list_ex_iff)

lemma list_ex_concat: "list_ex P (concat xss) \<longleftrightarrow> list_ex (list_ex P) xss"
  by (induction xss) auto

lemma host_tags_moved:
  assumes "old \<noteq> new"
  shows "(t, ''host'', h) \<in> set (tag_assignments (transfer_settings old new r)) \<longleftrightarrow>
    h \<noteq> old \<and> ((t, ''host'', h) \<in> set (tag_assignments r) \<or> h = new \<and> (t, ''host'', old) \<in> set (tag_assignments r))"
proof -
  let ?rows = "r_tags r"
  have "list_ex (host_tag t h) (filter (\<lambda>row. \<not> container_tag_of old row \<and> \<not> host_tag_of old row) ?rows)
      \<longleftrightarrow> h \<noteq> old \<and> list_ex (host_tag t h) ?rows"
    by (auto simp: list_ex_iff host_tag_def container_tag_of_def host_tag_of_def)
  moreover have "list_ex (list_ex (host_tag t h)) (map (transfer_host_tag new ?rows) (filter (host_tag_of old) ?rows))
      \<longleftrightarrow> h = new \<and> list_ex (host_tag t old) ?rows \<and> \<not> list_ex (host_tag t new) ?rows"
    by (auto simp: list_ex_iff [of _ "map _ _"] transferred_host_tag) (auto simp: list_ex_iff host_tag_def host_tag_of_def)
  moreover have "\<not> list_ex (list_ex (host_tag t h)) (map (transfer_container_tag old new ?rows) rows)" for rows
    by (auto simp: list_ex_iff [of _ "map _ _"] transferred_container_tag)
  ultimately show ?thesis using assms
    by (auto simp: tag_assignments_host transfer_settings_def transfer_tag_assignments_def Let_def list_ex_concat)
qed

lemma visible_in_moved:
  assumes "old \<noteq> new" and tags: "tag_assignments r' = tag_assignments (transfer_settings old new r)"
  shows "visible_in db r' gs = map_option (replace_host old new) (visible_in db r gs)"
proof -
  define sees :: "(string \<times> string \<times> string) list \<Rightarrow> string \<Rightarrow> bool"
    where "sees A h \<longleftrightarrow> (\<exists>g \<in> set gs. \<exists>t. (g, t) \<in> set (db_scopes db) \<and> (t, ''host'', h) \<in> set A)" for A h
  have un [simp]: "unscoped (db\<lparr>db_assignments := x\<rparr>) g = unscoped db g" for x g by (simp add: unscoped_def)
  have vis: "visible_in db x gs = (if list_ex (unscoped db) gs then None else Some {h. sees (tag_assignments x) h})" for x
    by (auto simp: visible_in_def visible_of_def sees_through_iff list_ex_iff sees_def) metis
  have "sees (tag_assignments r') h \<longleftrightarrow>
      h \<noteq> old \<and> (sees (tag_assignments r) h \<or> h = new \<and> sees (tag_assignments r) old)" for h
    unfolding sees_def tags host_tags_moved [OF assms(1)] by blast
  then show ?thesis using assms(1) unfolding vis by (auto simp: replace_host_def)
qed

lemma migrated_tables:
  "setting_tables (use_token now t (transfer_settings old new (x\<lparr>r_hosts := hs, r_agents := ags\<rparr>))) =
     map (\<lambda>(names, rows). (names, snd (transfer_rows names old new rows))) (setting_tables x)"
  "setting_tables (update_host i f x) = setting_tables x"
  by (simp_all add: setting_tables_def transfer_settings_def use_token_def update_host_def)



section \<open>Concrete registries\<close>

definition demo_host :: host_row where
  "demo_host = \<lparr>h_id = ''h1'', h_name = ''nas'', h_url = ''tcp://nas:2376'', h_connection_type = ''remote'',
     h_engine_id = Some ''eng'', h_replaced_by = None, h_is_active = True, h_updated_at = None, h_columns = []\<rparr>"

definition demo_registry :: registry where
  "demo_registry = \<lparr>r_tokens = [], r_hosts = [demo_host], r_agents = [],
     r_auto_restart = [\<lparr>s_key = ''c1'', s_host = ''h1'', s_columns = [(''enabled'', VBool True)]\<rparr>],
     r_desired = [], r_updates = [], r_health = [\<lparr>s_key = ''h1:c1'', s_host = ''h1'', s_columns = [(''enabled'', VBool True)]\<rparr>],
     r_tags = [\<lparr>tg_tag_id = ''t'', tg_subject_type = ''host'', tg_subject_id = ''h1'', tg_columns = []\<rparr>],
     r_alerts = [], r_deployments = [], r_deployed = [], r_metadata = []\<rparr>"

definition demo_registration :: registration where
  "demo_registration = \<lparr>rd_token = ''tok'', rd_engine_id = ''eng'', rd_hostname = None, rd_hostname_source = None,
     rd_version = ''1'', rd_proto_version = ''1'', rd_capabilities = [], rd_force_unique = False, rd_agent_os = None,
     rd_agent_arch = None, rd_info = [], rd_host_ips = None, rd_host_ip = None\<rparr>"

abbreviation demo_generated :: registry where
  "demo_generated \<equiv> generate_registration_token 0 ''tok'' 1 False demo_registry"

abbreviation demo_register :: reg_event where
  "demo_register \<equiv> Register (secs 60) ''a1'' ''h2'' [] demo_registration"

lemma token_admits_once_witness: "length (join_times ''tok'' demo_generated [demo_register, demo_register]) = 1"
proof -
  have "constraints_ok demo_generated" "\<not> validate_permanent_token ''tok'' demo_registry"
    "list_all (avoids ''tok'') [demo_register, demo_register]"
    by code_simp+
  from token_admits_once [OF this] have "length (join_times ''tok'' demo_generated [demo_register, demo_register]) \<le> 1" by simp
  moreover have "length (join_times ''tok'' demo_generated [demo_register, demo_register]) \<noteq> 0" by code_simp
  ultimately show ?thesis by linarith
qed

lemma registry_stays_consistent_witness:
  "registry_ok (run reg_step demo_generated [demo_register])
    \<and> map h_name (r_hosts (run reg_step demo_generated [demo_register])) = [''nas (migrated)'', ''nas'']"
proof -
  have "registry_ok demo_generated" by code_simp
  note registry_stays_consistent [OF this, of "[demo_register]"]
  moreover have "map h_name (r_hosts (run reg_step demo_generated [demo_register])) = [''nas (migrated)'', ''nas'']"
    by code_simp
  ultimately show ?thesis by blast
qed


text \<open>What a copied row of updates has lost.\<close>

lemma check_status_not_copied: "col (copied CONTAINER_UPDATE_COLUMNS cols) ''check_status'' = VNone"
  by (simp add: col_def copied_def CONTAINER_UPDATE_COLUMNS_def)

end
