(* ===== verification/AgentLinks.thy ===== *)
theory AgentLinks
  imports AgentRegistryLaws
begin

text \<open>
  The connections of agents: the table of live sockets (\<open>backend/agent/connection_manager.py\<close>), the
  lifecycle of one socket's handler (\<open>AgentWebSocketHandler\<close> of \<open>backend/agent/websocket_handler.py\<close>)
  cut at its awaits, and the shells relayed over a connection (\<open>backend/agent/shell_manager.py\<close>). A socket
  is a number; handlers of several sockets interleave in any order.
\<close>

section \<open>State\<close>

datatype stage =
    Accepted
  | Authenticated
  | Registered
  | Serving
  | Closing
  | Unregistered bool \<comment> \<open>\<open>removed_active\<close>\<close>
  | ShellsDue
  | Gone

record handler =
  hd_agent_id :: "string option"
  hd_host_id :: "string option"
  hd_authenticated :: bool
  hd_stage :: stage

datatype bus_event =
    HOST_CONNECTED string string
  | HOST_DISCONNECTED string string

record shell_session =
  ss_host_id :: string
  ss_container_id :: string
  ss_agent_id :: string
  ss_websocket :: nat

record links =
  lk_registry :: registry
  lk_connections :: "(string, nat) pydict"
  lk_handlers :: "(nat, handler) pydict"
  lk_emitted :: "bus_event list"
  lk_sessions :: "(string, shell_session) pydict"
  lk_commands :: "(nat \<times> string) list"

section \<open>The table of connections\<close>

definition set_status :: "time \<Rightarrow> string \<Rightarrow> string \<Rightarrow> registry \<Rightarrow> registry" where
  "set_status now st agent_id r = update_agent agent_id (\<lambda>a. a\<lparr>ag_status := st, ag_last_seen_at := now\<rparr>) r"

definition register_connection :: "time \<Rightarrow> string \<Rightarrow> nat \<Rightarrow> links \<Rightarrow> links" where
  "register_connection now agent_id ws k =
     k\<lparr>lk_connections := dset agent_id ws (lk_connections k), lk_registry := set_status now ''online'' agent_id (lk_registry k)\<rparr>"

text \<open>Without a socket the removal is forced.\<close>

definition unregister_connection :: "time \<Rightarrow> string \<Rightarrow> nat option \<Rightarrow> links \<Rightarrow> bool \<times> links" where
  "unregister_connection now agent_id ws k =
     (let current = dget (lk_connections k) agent_id in
      if ws \<noteq> None \<and> current \<noteq> ws then (False, k)
      else (current \<noteq> None, k\<lparr>lk_connections := ddel agent_id (lk_connections k),
                               lk_registry := set_status now ''offline'' agent_id (lk_registry k)\<rparr>))"

definition is_connected :: "links \<Rightarrow> string \<Rightarrow> bool" where
  "is_connected k agent_id = dhas (lk_connections k) agent_id"

definition send_command :: "string \<Rightarrow> string \<Rightarrow> links \<Rightarrow> bool \<times> links" where
  "send_command agent_id command k =
     (case dget (lk_connections k) agent_id of
        None \<Rightarrow> (False, k)
      | Some ws \<Rightarrow> (True, k\<lparr>lk_commands := lk_commands k @ [(ws, command)]\<rparr>))"

section \<open>Shells\<close>

definition start_session :: "string \<Rightarrow> string \<Rightarrow> string \<Rightarrow> string \<Rightarrow> nat \<Rightarrow> links \<Rightarrow> links" where
  "start_session session_id host_id container_id agent_id ws k =
     snd (send_command agent_id ''start'' (k\<lparr>lk_sessions := dset session_id
        \<lparr>ss_host_id = host_id, ss_container_id = container_id, ss_agent_id = agent_id, ss_websocket = ws\<rparr> (lk_sessions k)\<rparr>))"

definition cleanup_session :: "string \<Rightarrow> links \<Rightarrow> links" where
  "cleanup_session session_id k = k\<lparr>lk_sessions := ddel session_id (lk_sessions k)\<rparr>"

definition handle_shell_data :: "string \<Rightarrow> string \<Rightarrow> links \<Rightarrow> links" where
  "handle_shell_data session_id action k =
     (if dhas (lk_sessions k) session_id \<and> (action = ''closed'' \<or> action = ''error'') then cleanup_session session_id k else k)"

definition to_session :: "string \<Rightarrow> string \<Rightarrow> links \<Rightarrow> links" where
  \<comment> \<open>input and resize\<close>
  "to_session session_id command k =
     (case dget (lk_sessions k) session_id of
        None \<Rightarrow> k
      | Some s \<Rightarrow> snd (send_command (ss_agent_id s) command k))"

definition close_session :: "string \<Rightarrow> links \<Rightarrow> links" where
  "close_session session_id k =
     (case dget (lk_sessions k) session_id of
        None \<Rightarrow> k
      | Some s \<Rightarrow> cleanup_session session_id (snd (send_command (ss_agent_id s) ''close'' k)))"

definition close_sessions_for_agent :: "string \<Rightarrow> links \<Rightarrow> links" where
  "close_sessions_for_agent agent_id k =
     fold cleanup_session (map fst (filter (\<lambda>(i, s). ss_agent_id s = agent_id) (lk_sessions k))) k"

section \<open>A handler\<close>

definition new_handler :: handler where
  "new_handler = \<lparr>hd_agent_id = None, hd_host_id = None, hd_authenticated = False, hd_stage = Accepted\<rparr>"

definition set_handler :: "nat \<Rightarrow> handler \<Rightarrow> links \<Rightarrow> links" where
  "set_handler ws h k = k\<lparr>lk_handlers := dset ws h (lk_handlers k)\<rparr>"

definition at_stage :: "nat \<Rightarrow> stage \<Rightarrow> links \<Rightarrow> handler option" where
  "at_stage ws st k = (case dget (lk_handlers k) ws of None \<Rightarrow> None | Some h \<Rightarrow> if hd_stage h = st then Some h else None)"

text \<open>The registration message; a refusal is answered and the socket closed.\<close>

definition authenticate :: "time \<Rightarrow> nat \<Rightarrow> string \<Rightarrow> string \<Rightarrow> string \<Rightarrow> registration \<Rightarrow> links \<Rightarrow> links" where
  "authenticate now ws new_agent_id new_host_id err_str rd k =
     (case at_stage ws Accepted k of
        None \<Rightarrow> k
      | Some h \<Rightarrow>
          case register_agent now new_agent_id new_host_id err_str rd (lk_registry k) of
            Inl e \<Rightarrow> set_handler ws (h\<lparr>hd_stage := Gone\<rparr>) k
          | Inr (res, r') \<Rightarrow>
              set_handler ws (h\<lparr>hd_agent_id := Some (rg_agent_id res), hd_host_id := Some (rg_host_id res),
                 hd_authenticated := True, hd_stage := Authenticated\<rparr>) (k\<lparr>lk_registry := r'\<rparr>))"

definition link_up :: "time \<Rightarrow> nat \<Rightarrow> links \<Rightarrow> links" where
  "link_up now ws k =
     (case at_stage ws Authenticated k of
        None \<Rightarrow> k
      | Some h \<Rightarrow> set_handler ws (h\<lparr>hd_stage := Registered\<rparr>)
          (case hd_agent_id h of None \<Rightarrow> k | Some a \<Rightarrow> register_connection now a ws k))"

definition announce :: "nat \<Rightarrow> links \<Rightarrow> links" where
  "announce ws k =
     (case at_stage ws Registered k of
        None \<Rightarrow> k
      | Some h \<Rightarrow> set_handler ws (h\<lparr>hd_stage := Serving\<rparr>)
          (case (hd_host_id h, hd_agent_id h) of
             (Some i, Some a) \<Rightarrow> k\<lparr>lk_emitted := lk_emitted k @ [HOST_CONNECTED i a]\<rparr>
           | _ \<Rightarrow> k))"

definition heartbeat :: "time \<Rightarrow> nat \<Rightarrow> links \<Rightarrow> links" where
  "heartbeat now ws k =
     (case at_stage ws Serving k of
        None \<Rightarrow> k
      | Some h \<Rightarrow> (case hd_agent_id h of None \<Rightarrow> k
          | Some a \<Rightarrow> k\<lparr>lk_registry := update_agent a (\<lambda>x. x\<lparr>ag_last_seen_at := now\<rparr>) (lk_registry k)\<rparr>))"

text \<open>The socket closes, times out or fails wherever the handler waits; what is left is its \<open>finally\<close>.\<close>

definition drop_link :: "nat \<Rightarrow> links \<Rightarrow> links" where
  "drop_link ws k =
     (case dget (lk_handlers k) ws of
        None \<Rightarrow> k
      | Some h \<Rightarrow> if hd_stage h \<in> {Accepted, Authenticated, Registered, Serving}
          then set_handler ws (h\<lparr>hd_stage := Closing\<rparr>) k else k)"

definition tear_down :: "time \<Rightarrow> nat \<Rightarrow> links \<Rightarrow> links" where
  "tear_down now ws k =
     (case at_stage ws Closing k of
        None \<Rightarrow> k
      | Some h \<Rightarrow> (case hd_agent_id h of
            None \<Rightarrow> set_handler ws (h\<lparr>hd_stage := Gone\<rparr>) k
          | Some a \<Rightarrow> (case unregister_connection now a (Some ws) k of
              (removed, k') \<Rightarrow> set_handler ws (h\<lparr>hd_stage := Unregistered removed\<rparr>) k')))"

definition say_goodbye :: "nat \<Rightarrow> links \<Rightarrow> links" where
  "say_goodbye ws k =
     (case dget (lk_handlers k) ws of
        None \<Rightarrow> k
      | Some h \<Rightarrow> (case hd_stage h of
            Unregistered removed \<Rightarrow> set_handler ws (h\<lparr>hd_stage := ShellsDue\<rparr>)
              (case (hd_host_id h, hd_agent_id h) of
                 (Some i, Some a) \<Rightarrow> if removed \<and> hd_authenticated h \<and> \<not> is_connected k a
                   then k\<lparr>lk_emitted := lk_emitted k @ [HOST_DISCONNECTED i a]\<rparr> else k
               | _ \<Rightarrow> k)
          | _ \<Rightarrow> k))"

definition close_agent_shells :: "nat \<Rightarrow> links \<Rightarrow> links" where
  "close_agent_shells ws k =
     (case at_stage ws ShellsDue k of
        None \<Rightarrow> k
      | Some h \<Rightarrow> set_handler ws (h\<lparr>hd_stage := Gone\<rparr>)
          (case hd_agent_id h of
             None \<Rightarrow> k
           | Some a \<Rightarrow> if is_connected k a then k else close_sessions_for_agent a k))"

section \<open>All of them\<close>

datatype link_event =
    Connect nat
  | Authenticate time nat string string string registration
  | LinkUp time nat
  | Announce nat
  | Heartbeat time nat
  | Drop nat
  | TearDown time nat
  | SayGoodbye nat
  | CloseShells nat
  | ForceOut time string
  | StartShell string string string string nat
  | ShellData string string
  | ToShell string string
  | CloseShell string
  | NewToken time string int bool
  | CleanTokens time
  | Migrate time string string

fun link_step :: "links \<Rightarrow> link_event \<Rightarrow> links" where
  "link_step k (Connect ws) = (if dhas (lk_handlers k) ws then k else set_handler ws new_handler k)"
| "link_step k (Authenticate now ws a h err rd) = authenticate now ws a h err rd k"
| "link_step k (LinkUp now ws) = link_up now ws k"
| "link_step k (Announce ws) = announce ws k"
| "link_step k (Heartbeat now ws) = heartbeat now ws k"
| "link_step k (Drop ws) = drop_link ws k"
| "link_step k (TearDown now ws) = tear_down now ws k"
| "link_step k (SayGoodbye ws) = say_goodbye ws k"
| "link_step k (CloseShells ws) = close_agent_shells ws k"
| "link_step k (ForceOut now a) = snd (unregister_connection now a None k)"
| "link_step k (StartShell i h c a ws) = start_session i h c a ws k"
| "link_step k (ShellData i action) = handle_shell_data i action k"
| "link_step k (ToShell i command) = to_session i command k"
| "link_step k (CloseShell i) = close_session i k"
| "link_step k (NewToken now t u m) = k\<lparr>lk_registry := reg_step (lk_registry k) (Generate now t u m)\<rparr>"
| "link_step k (CleanTokens now) = k\<lparr>lk_registry := reg_step (lk_registry k) (Cleanup now)\<rparr>"
| "link_step k (Migrate now a s) = k\<lparr>lk_registry := reg_step (lk_registry k) (MigrateFrom now a s)\<rparr>"

definition no_links :: "registry \<Rightarrow> links" where
  "no_links r = \<lparr>lk_registry = r, lk_connections = [], lk_handlers = [], lk_emitted = [], lk_sessions = [], lk_commands = []\<rparr>"

end
