(* ===== verification/AgentLinksLaws.thy ===== *)
theory AgentLinksLaws
  imports AgentLinks
begin

text \<open>
  What the connections of agents keep: the status column follows the table of connections, and a socket
  that another one superseded cannot take the live one down.
\<close>

section \<open>The status of an agent\<close>

definition agent_status :: "registry \<Rightarrow> string \<Rightarrow> string option" where
  "agent_status r a = map_option ag_status (find_agent a r)"

lemma agent_status_upd:
  assumes "\<And>x. ag_id (f x) = ag_id x"
  shows "agent_status (update_agent i f r) a =
    (if a = i then map_option (\<lambda>x. ag_status (f x)) (find_agent a r) else agent_status r a)"
proof -
  have "find_agent a (update_agent i f r) = map_option (\<lambda>x. if ag_id x = i then f x else x) (find_agent a r)"
    unfolding find_agent_def update_agent_def using assms by (simp add: find_map_same)
  then show ?thesis
    by (cases "find_agent a r") (auto simp: agent_status_def find_agent_def dest: find_SomeD)
qed

lemma agent_status_set [simp]:
  "agent_status (set_status now st i r) a = (if a = i \<and> agent_status r a \<noteq> None then Some st else agent_status r a)"
  unfolding set_status_def by (simp add: agent_status_upd) (auto simp: agent_status_def)

lemma agent_status_seen [simp]:
  "agent_status (update_agent i (\<lambda>x. x\<lparr>ag_last_seen_at := now\<rparr>) r) a = agent_status r a"
  by (simp add: agent_status_upd) (simp add: agent_status_def)

lemma agent_status_agents: "r_agents r' = r_agents r \<Longrightarrow> agent_status r' = agent_status r"
  by (simp add: agent_status_def find_agent_def fun_eq_iff)

lemma agent_status_joined:
  assumes "r_agents r' = r_agents r @ [x]" "ag_status x = ''online''" "distinct (map ag_id (r_agents r'))"
  shows "agent_status r' = (agent_status r)(ag_id x \<mapsto> ''online'')"
proof
  fix a
  show "agent_status r' a = ((agent_status r)(ag_id x \<mapsto> ''online'')) a"
  proof (cases "a = ag_id x")
    case True
    then have "find (\<lambda>y. ag_id y = a) (r_agents r) = None"
      using assms(1,3) by (auto simp: find_None_iff) (metis image_eqI)
    then show ?thesis using assms True by (simp add: agent_status_def find_agent_def find_append)
  qed (use assms in \<open>auto simp: agent_status_def find_agent_def find_append split: option.splits\<close>)
qed

text \<open>Whoever registers or returns is online, and no other status changes.\<close>

lemma register_agent_status:
  assumes "register_agent now a h err rd r = Inr (res, r')"
  shows "agent_status r' = (agent_status r)(rg_agent_id res \<mapsto> ''online'')"
  using assms
proof (cases rule: register_agent_Inr)
  case known
  then obtain x where x: "find_agent (rd_token rd) r = Some x" "res = \<lparr>rg_agent_id = ag_id x, rg_host_id = ag_host_id x, rg_migrated_from = None, rg_candidates = []\<rparr>"
    and r': "r' = update_host (ag_host_id x) (refresh_host now rd r) (update_agent (ag_id x) (refresh_agent now rd) r)"
    by (auto simp: reconnect_agent_def split: option.splits if_splits)
  have i: "ag_id x = rd_token rd" using x(1) by (auto simp: find_agent_def dest: find_SomeD)
  have "agent_status r' = agent_status (update_agent (ag_id x) (refresh_agent now rd) r)"
    unfolding r' by (rule agent_status_agents) simp
  also have "\<dots> = (agent_status r)(ag_id x \<mapsto> ''online'')"
    using x(1) i by (simp add: fun_eq_iff agent_status_upd refresh_agent_def)
  finally show ?thesis by (simp add: x(2))
next
  case (fresh cands)
  from fresh(4) show ?thesis
  proof (rule add_new_agent_Inr)
    assume c: "constraints_ok (r\<lparr>r_hosts := r_hosts r @ [agent_host now h rd], r_agents := r_agents r @ [new_agent now a h (rd_force_unique rd) rd]\<rparr>)"
      and r': "r' = use_token now (rd_token rd)
       (r\<lparr>r_hosts := r_hosts r @ [agent_host now h rd], r_agents := r_agents r @ [new_agent now a h (rd_force_unique rd) rd]\<rparr>)"
      and res: "res = \<lparr>rg_agent_id = a, rg_host_id = h, rg_migrated_from = None, rg_candidates = cands\<rparr>"
    from c have "agent_status r' = (agent_status r)(ag_id (new_agent now a h (rd_force_unique rd) rd) \<mapsto> ''online'')"
      by (intro agent_status_joined) (simp_all add: r' new_agent_def constraints_ok_def)
    then show ?thesis by (simp add: res new_agent_def)
  qed
next
  case (migrated old)
  from migrated(5) show ?thesis
  proof (rule migrate_host_to_agent_Inr)
    fix x
    assume c: "constraints_ok r'"
      and r': "r' = use_token now (rd_token rd) (transfer_settings (h_id old) h
       ((update_host (h_id old) (retire_host now h) r)\<lparr>r_hosts := r_hosts (update_host (h_id old) (retire_host now h) r) @ [migrated_host now h rd x],
         r_agents := r_agents r @ [(new_agent now a h False rd)\<lparr>ag_os := None, ag_arch := None\<rparr>]\<rparr>))"
      and res: "res = \<lparr>rg_agent_id = a, rg_host_id = h, rg_migrated_from = Some (h_id old, h_name x), rg_candidates = []\<rparr>"
    from c have "agent_status r' = (agent_status r)(ag_id ((new_agent now a h False rd)\<lparr>ag_os := None, ag_arch := None\<rparr>) \<mapsto> ''online'')"
      by (intro agent_status_joined) (simp_all add: r' new_agent_def constraints_ok_def)
    then show ?thesis by (simp add: res new_agent_def)
  qed
qed

lemma reg_step_status [simp]:
  "agent_status (reg_step r (Generate now t u m)) = agent_status r"
  "agent_status (reg_step r (Cleanup now)) = agent_status r"
  "agent_status (reg_step r (MigrateFrom now a i)) = agent_status r"
  by (rule agent_status_agents;
      auto simp: generate_registration_token_def cleanup_expired_registration_tokens_def Let_def elim!: migrate_from_host_Inr split: sum.splits)+

section \<open>The table and the column\<close>

text \<open>A socket of the table belongs to a handler that authenticated as the agent and has not torn down.\<close>

definition holds_link :: "string \<Rightarrow> handler \<Rightarrow> bool" where
  "holds_link a h = (hd_agent_id h = Some a \<and> hd_stage h \<in> {Registered, Serving, Closing})"

definition about_to_link :: "string \<Rightarrow> handler \<Rightarrow> bool" where
  "about_to_link a h = (hd_agent_id h = Some a \<and> hd_stage h = Authenticated)"

text \<open>One agent: its status, its socket and the handlers.\<close>

definition link_ok :: "string option \<Rightarrow> nat option \<Rightarrow> (nat \<Rightarrow> handler option) \<Rightarrow> string \<Rightarrow> bool" where
  "link_ok st c H a = (case c of
       Some ws \<Rightarrow> st \<in> {None, Some ''online''} \<and> (\<exists>h. H ws = Some h \<and> holds_link a h)
     | None \<Rightarrow> st \<noteq> Some ''online'' \<or> (\<exists>ws h. H ws = Some h \<and> about_to_link a h))"

definition links_ok :: "links \<Rightarrow> bool" where
  "links_ok k \<longleftrightarrow>
     (\<forall>a. link_ok (agent_status (lk_registry k) a) (dget (lk_connections k) a) (dget (lk_handlers k)) a)"

lemma set_handler_fields [simp]:
  "lk_registry (set_handler ws h k) = lk_registry k" "lk_connections (set_handler ws h k) = lk_connections k"
  "lk_emitted (set_handler ws h k) = lk_emitted k" "lk_sessions (set_handler ws h k) = lk_sessions k"
  "dget (lk_handlers (set_handler ws h k)) = (dget (lk_handlers k))(ws \<mapsto> h)"
  by (simp_all add: set_handler_def fun_eq_iff)

lemma at_stage_Some: "at_stage ws st k = Some h \<longleftrightarrow> dget (lk_handlers k) ws = Some h \<and> hd_stage h = st"
  by (auto simp: at_stage_def split: option.splits)

lemmas at_stageD = at_stage_Some [THEN iffD1]

text \<open>A handler may change when no role of it is lost.\<close>

lemma link_ok_handler:
  assumes "link_ok st c H a"
    and "\<And>h. H ws = Some h \<Longrightarrow> (c = Some ws \<and> holds_link a h \<longrightarrow> holds_link a h') \<and> (about_to_link a h \<longrightarrow> about_to_link a h')"
  shows "link_ok st c (H(ws \<mapsto> h')) a"
proof (cases c)
  case None
  with assms show ?thesis unfolding link_ok_def by simp (metis option.inject)
next
  case (Some w)
  with assms show ?thesis unfolding link_ok_def by auto
qed

text \<open>What the steps do to the three maps.\<close>

lemma links_ok_handler:
  assumes "links_ok k" and "lk_registry k' = lk_registry k" "lk_connections k' = lk_connections k"
    and "dget (lk_handlers k') = (dget (lk_handlers k))(ws \<mapsto> h')"
    and "\<And>h a. dget (lk_handlers k) ws = Some h \<Longrightarrow>
      (dget (lk_connections k) a = Some ws \<and> holds_link a h \<longrightarrow> holds_link a h') \<and> (about_to_link a h \<longrightarrow> about_to_link a h')"
  shows "links_ok k'"
  using assms unfolding links_ok_def by (simp add: link_ok_handler)

lemma links_ok_login:
  assumes "links_ok k" and "agent_status (lk_registry k') = (agent_status (lk_registry k))(a \<mapsto> ''online'')"
    and "lk_connections k' = lk_connections k" and "dget (lk_handlers k') = (dget (lk_handlers k))(ws \<mapsto> h')"
    and "at_stage ws Accepted k = Some h" "about_to_link a h'"
  shows "links_ok k'"
  unfolding links_ok_def
proof
  fix x
  have "link_ok (agent_status (lk_registry k) x) (dget (lk_connections k) x) ((dget (lk_handlers k))(ws \<mapsto> h')) x"
    using assms(1) at_stageD [OF assms(5)] by (auto simp: links_ok_def holds_link_def about_to_link_def intro!: link_ok_handler)
  then show "link_ok (agent_status (lk_registry k') x) (dget (lk_connections k') x) (dget (lk_handlers k')) x"
    unfolding assms(2-4)
  proof (cases "x = a")
    case True
    with assms(6) show "link_ok (((agent_status (lk_registry k))(a \<mapsto> ''online'')) x) (dget (lk_connections k) x)
        ((dget (lk_handlers k))(ws \<mapsto> h')) x"
      using \<open>link_ok _ _ _ x\<close> by (cases "dget (lk_connections k) a") (auto simp: link_ok_def)
  qed (simp only: fun_upd_other not_False_eq_True)
qed

lemma links_ok_relink:
  assumes "links_ok k" and "agent_status (lk_registry k') a = (if agent_status (lk_registry k) a = None then None else Some st)"
    and "\<And>x. x \<noteq> a \<Longrightarrow> agent_status (lk_registry k') x = agent_status (lk_registry k) x"
    and "\<And>x. x \<noteq> a \<Longrightarrow> dget (lk_connections k') x = dget (lk_connections k) x"
    and "dget (lk_handlers k') = (dget (lk_handlers k))(ws \<mapsto> h')"
    and "dget (lk_handlers k) ws = Some h" "hd_agent_id h = Some a"
    and "if dget (lk_connections k') a = Some ws then st = ''online'' \<and> holds_link a h'
         else dget (lk_connections k') a = None \<and> st \<noteq> ''online''"
  shows "links_ok k'"
  unfolding links_ok_def
proof
  fix x
  show "link_ok (agent_status (lk_registry k') x) (dget (lk_connections k') x) (dget (lk_handlers k')) x"
  proof (cases "x = a")
    case True
    with assms(2,5,8) show ?thesis by (auto simp: link_ok_def split: if_splits)
  next
    case False
    have "link_ok (agent_status (lk_registry k) x) (dget (lk_connections k) x) ((dget (lk_handlers k))(ws \<mapsto> h')) x"
      using assms(1,6,7) False by (auto simp: links_ok_def holds_link_def about_to_link_def intro!: link_ok_handler)
    with False show ?thesis unfolding assms(5) by (simp only: assms(3,4) not_False_eq_True)
  qed
qed


lemma links_ok_same:
  assumes "links_ok k" and "agent_status (lk_registry k') = agent_status (lk_registry k)"
    and "lk_connections k' = lk_connections k" "lk_handlers k' = lk_handlers k"
  shows "links_ok k'"
  using assms by (simp add: links_ok_def)

lemma cleanup_session_fields [simp]:
  "lk_registry (cleanup_session i k) = lk_registry k" "lk_connections (cleanup_session i k) = lk_connections k"
  "lk_handlers (cleanup_session i k) = lk_handlers k" "lk_emitted (cleanup_session i k) = lk_emitted k"
  "lk_sessions (cleanup_session i k) = ddel i (lk_sessions k)"
  by (simp_all add: cleanup_session_def)

lemma send_command_fields [simp]:
  "lk_registry (snd (send_command a c k)) = lk_registry k" "lk_connections (snd (send_command a c k)) = lk_connections k"
  "lk_handlers (snd (send_command a c k)) = lk_handlers k" "lk_emitted (snd (send_command a c k)) = lk_emitted k"
  "lk_sessions (snd (send_command a c k)) = lk_sessions k"
  by (simp_all add: send_command_def split: option.splits)

lemma fold_cleanup_fields [simp]:
  "lk_registry (fold cleanup_session is k) = lk_registry k" "lk_connections (fold cleanup_session is k) = lk_connections k"
  "lk_handlers (fold cleanup_session is k) = lk_handlers k" "lk_emitted (fold cleanup_session is k) = lk_emitted k"
  "lk_sessions (fold cleanup_session is k) = fold AList.delete is (lk_sessions k)"
  by (induction "is" arbitrary: k) auto

lemmas link_steps = authenticate_def link_up_def announce_def heartbeat_def drop_link_def tear_down_def say_goodbye_def
  close_agent_shells_def start_session_def handle_shell_data_def to_session_def close_session_def close_sessions_for_agent_def

text \<open>The socket of an agent that has logged in is lost before it is in the table.\<close>

definition early_drop :: "links \<Rightarrow> link_event \<Rightarrow> bool" where
  "early_drop k e = (case e of Drop ws \<Rightarrow> at_stage ws Authenticated k \<noteq> None | _ \<Rightarrow> False)"

lemma link_step_ok:
  assumes ok: "links_ok k" and "\<not> early_drop k e"
  shows "links_ok (link_step k e)"
proof (cases e)
  case (Connect ws)
  with ok show ?thesis
    by (auto simp: dhas_def intro!: links_ok_handler [where k = k and ws = ws])
next
  case (Authenticate now ws a h err rd)
  show ?thesis
  proof (cases "at_stage ws Accepted k")
    case (Some hd)
    show ?thesis
    proof (cases "register_agent now a h err rd (lk_registry k)")
      case (Inl x)
      with at_stageD [OF Some] Some Authenticate ok show ?thesis
        by (auto simp: authenticate_def holds_link_def about_to_link_def intro!: links_ok_handler [where k = k and ws = ws])
    next
      case (Inr x)
      then obtain res r' where r': "register_agent now a h err rd (lk_registry k) = Inr (res, r')" by (cases x) auto
      show ?thesis
        using at_stageD [OF Some] Some Authenticate r' register_agent_status [OF r']
        by (auto simp: authenticate_def about_to_link_def intro!: links_ok_login [OF ok _ _ _ Some])
    qed
  qed (use ok Authenticate in \<open>simp add: authenticate_def\<close>)
next
  case (LinkUp now ws)
  show ?thesis
  proof (cases "at_stage ws Authenticated k")
    case (Some h)
    show ?thesis
    proof (cases "hd_agent_id h")
      case None
      with at_stageD [OF \<open>at_stage ws Authenticated k = Some h\<close>] Some LinkUp ok \<open>at_stage ws Authenticated k = Some h\<close> show ?thesis
        by (auto simp: link_up_def holds_link_def about_to_link_def intro!: links_ok_handler [where k = k and ws = ws])
    next
      case (Some a)
      with at_stageD [OF \<open>at_stage ws Authenticated k = Some h\<close>] \<open>at_stage ws Authenticated k = Some h\<close> LinkUp show ?thesis
        by (auto simp: link_up_def register_connection_def holds_link_def intro!: links_ok_relink [OF ok, where a = a and st = "''online''"])
    qed
  qed (use ok LinkUp in \<open>simp add: link_up_def\<close>)
next
  case (Announce ws)
  show ?thesis
  proof (cases "at_stage ws Registered k")
    case (Some h)
    with at_stageD [OF Some] Announce show ?thesis
      by (auto simp: announce_def holds_link_def about_to_link_def intro!: links_ok_handler [OF ok, where ws = ws]
          split: option.splits)
  qed (use ok Announce in \<open>simp add: announce_def\<close>)
next
  case (Drop ws)
  with assms(2) show ?thesis
    by (auto simp: drop_link_def early_drop_def at_stage_def holds_link_def about_to_link_def intro!: links_ok_handler [OF ok, where ws = ws] ok
        split: option.splits)
next
  case (TearDown now ws)
  show ?thesis
  proof (cases "at_stage ws Closing k")
    case (Some h)
    show ?thesis
    proof (cases "hd_agent_id h")
      case None
      with at_stageD [OF \<open>at_stage ws Closing k = Some h\<close>] Some TearDown ok \<open>at_stage ws Closing k = Some h\<close> show ?thesis
        by (auto simp: tear_down_def holds_link_def about_to_link_def intro!: links_ok_handler [where k = k and ws = ws])
    next
      case (Some a)
      show ?thesis
      proof (cases "dget (lk_connections k) a = Some ws")
        case True
        with at_stageD [OF \<open>at_stage ws Closing k = Some h\<close>] Some \<open>at_stage ws Closing k = Some h\<close> TearDown show ?thesis
          by (auto simp: tear_down_def unregister_connection_def Let_def
              intro!: links_ok_relink [OF ok, where a = a and st = "''offline''"])
      next
        case False
        with at_stageD [OF \<open>at_stage ws Closing k = Some h\<close>] Some \<open>at_stage ws Closing k = Some h\<close> TearDown ok show ?thesis
          by (auto simp: tear_down_def unregister_connection_def Let_def holds_link_def about_to_link_def
              intro!: links_ok_handler [OF ok, where ws = ws])
      qed
    qed
  qed (use ok TearDown in \<open>simp add: tear_down_def\<close>)
next
  case (SayGoodbye ws)
  then show ?thesis using ok
    by (auto simp: say_goodbye_def holds_link_def about_to_link_def intro!: links_ok_handler [OF ok, where ws = ws]
        split: option.splits stage.splits)
next
  case (CloseShells ws)
  show ?thesis
  proof (cases "at_stage ws ShellsDue k")
    case (Some h)
    with at_stageD [OF Some] CloseShells show ?thesis
      by (auto simp: close_agent_shells_def close_sessions_for_agent_def holds_link_def about_to_link_def
          intro!: links_ok_handler [OF ok, where ws = ws] split: option.splits)
  qed (use ok CloseShells in \<open>simp add: close_agent_shells_def\<close>)
next
  case (ForceOut now a)
  with ok show ?thesis
    by (auto simp: unregister_connection_def Let_def links_ok_def link_ok_def split: option.splits)
qed (use ok in \<open>auto simp: link_steps simp del: reg_step.simps intro!: links_ok_same [OF ok] split: option.splits\<close>)


fun no_early_drop :: "links \<Rightarrow> link_event list \<Rightarrow> bool" where
  "no_early_drop k [] = True"
| "no_early_drop k (e # es) = (\<not> early_drop k e \<and> no_early_drop (link_step k e) es)"

lemma run_links_ok: "links_ok k \<Longrightarrow> no_early_drop k es \<Longrightarrow> links_ok (run link_step k es)"
  by (induction es arbitrary: k) (simp_all add: link_step_ok)

lemma no_links_ok: "list_all (\<lambda>a. ag_status a \<noteq> ''online'') (r_agents r) \<Longrightarrow> links_ok (no_links r)"
  by (auto simp: links_ok_def link_ok_def no_links_def agent_status_def find_agent_def list_all_iff dest!: find_SomeD)

text \<open>Proved as well: Whatever the interleaving of handlers, forced removals, registrations and migrations, an agent in the table
  of connections has the status online, its socket being that of a handler which authenticated as that agent and has
  not torn down, and an agent with the status online is in the table or has a handler that has just authenticated -
  as long as no socket is lost between the authentication and its entry in the table.
\<close>

theorem status_follows_the_table:
  assumes "list_all (\<lambda>a. ag_status a \<noteq> ''online'') (r_agents r)" and "no_early_drop (no_links r) es"
  shows "case dget (lk_connections (run link_step (no_links r) es)) a of
      Some ws \<Rightarrow> agent_status (lk_registry (run link_step (no_links r) es)) a \<in> {None, Some ''online''}
        \<and> (\<exists>h. dget (lk_handlers (run link_step (no_links r) es)) ws = Some h \<and> holds_link a h)
    | None \<Rightarrow> agent_status (lk_registry (run link_step (no_links r) es)) a \<noteq> Some ''online''
        \<or> (\<exists>ws h. dget (lk_handlers (run link_step (no_links r) es)) ws = Some h \<and> about_to_link a h)"
  using run_links_ok [OF no_links_ok [OF assms(1)] assms(2)] unfolding links_ok_def link_ok_def by blast

section \<open>A live connection survives the sockets it superseded\<close>

definition spares :: "string \<Rightarrow> nat \<Rightarrow> links \<Rightarrow> link_event \<Rightarrow> bool" where
  \<comment> \<open>neither the live socket's own teardown, nor a removal by force, nor a newer connection\<close>
  "spares a live k e = (case e of
       TearDown now ws \<Rightarrow> ws \<noteq> live
     | ForceOut now b \<Rightarrow> b \<noteq> a
     | LinkUp now ws \<Rightarrow> (case at_stage ws Authenticated k of None \<Rightarrow> True | Some h \<Rightarrow> hd_agent_id h \<noteq> Some a)
     | _ \<Rightarrow> True)"

fun spared :: "string \<Rightarrow> nat \<Rightarrow> links \<Rightarrow> link_event list \<Rightarrow> bool" where
  "spared a live k [] = True"
| "spared a live k (e # es) = (spares a live k e \<and> spared a live (link_step k e) es)"

definition goodbyes :: "string \<Rightarrow> links \<Rightarrow> bus_event list" where
  "goodbyes a k = filter (\<lambda>e. case e of HOST_DISCONNECTED i b \<Rightarrow> b = a | _ \<Rightarrow> False) (lk_emitted k)"

definition live_link :: "string \<Rightarrow> nat \<Rightarrow> bus_event list \<Rightarrow> links \<Rightarrow> bool" where
  "live_link a live said k = (dget (lk_connections k) a = Some live
     \<and> agent_status (lk_registry k) a \<in> {None, Some ''online''} \<and> goodbyes a k = said)"

lemma live_link_step:
  assumes "live_link a live said k" and "spares a live k e"
  shows "live_link a live said (link_step k e)"
proof (cases e)
  case (Authenticate now ws b h err rd)
  show ?thesis
  proof (cases "register_agent now b h err rd (lk_registry k)")
    case (Inr x)
    then obtain res r' where r': "register_agent now b h err rd (lk_registry k) = Inr (res, r')" by (cases x) auto
    from register_agent_status [OF this] r' assms Authenticate show ?thesis
      by (auto simp: live_link_def authenticate_def goodbyes_def split: option.splits)
  qed (use assms Authenticate in \<open>auto simp: live_link_def authenticate_def goodbyes_def split: option.splits\<close>)
next
  case (SayGoodbye ws)
  with assms show ?thesis
    by (auto simp: live_link_def say_goodbye_def goodbyes_def is_connected_def dhas_def split: option.splits stage.splits)
qed (use assms in \<open>auto simp: live_link_def spares_def goodbyes_def link_steps register_connection_def unregister_connection_def
    Let_def simp del: reg_step.simps split: option.splits if_splits\<close>)

lemma live_link_run: "live_link a live said k \<Longrightarrow> spared a live k es \<Longrightarrow> live_link a live said (run link_step k es)"
  by (induction es arbitrary: k) (simp_all add: live_link_step)

text \<open>Proved as well: Once an agent has a live connection, no other socket - in particular none that the agent's reconnection
  superseded, however late its teardown runs - removes it from the table, marks the agent offline or announces that
  its host is gone; only the live socket's own teardown, a removal by force or a newer connection of the agent do.
\<close>

theorem superseded_sockets_are_harmless:
  assumes "dget (lk_connections k) a = Some live" and "agent_status (lk_registry k) a = Some ''online''"
    and "spared a live k es"
  shows "dget (lk_connections (run link_step k es)) a = Some live
    \<and> agent_status (lk_registry (run link_step k es)) a \<in> {None, Some ''online''}
    \<and> goodbyes a (run link_step k es) = goodbyes a k"
  using live_link_run [of a live "goodbyes a k" k es] assms by (simp add: live_link_def)

section \<open>Concrete connections\<close>

definition demo_reconnect :: registration where
  "demo_reconnect = demo_registration\<lparr>rd_token := ''a1''\<rparr>"

definition demo_start :: "link_event list" where
  "demo_start = [Connect 1, Authenticate (secs 60) 1 ''a1'' ''h2'' [] demo_registration, LinkUp (secs 61) 1, Announce 1]"

definition demo_takeover :: "link_event list" where
  "demo_takeover = [Drop 1, Connect 2, Authenticate (secs 90) 2 ''a2'' ''h3'' [] demo_reconnect, LinkUp (secs 91) 2]"

definition demo_stale :: "link_event list" where
  "demo_stale = [TearDown (secs 92) 1, SayGoodbye 1, CloseShells 1]"

lemma status_follows_the_table_witness:
  "agent_status (lk_registry (run link_step (no_links demo_generated) demo_start)) ''a1'' = Some ''online''"
proof -
  have "list_all (\<lambda>a. ag_status a \<noteq> ''online'') (r_agents demo_generated)" by code_simp
  moreover have "no_early_drop (no_links demo_generated) demo_start" by code_simp
  ultimately have "case dget (lk_connections (run link_step (no_links demo_generated) demo_start)) ''a1'' of
      Some ws \<Rightarrow> agent_status (lk_registry (run link_step (no_links demo_generated) demo_start)) ''a1'' \<in> {None, Some ''online''}
        \<and> (\<exists>h. dget (lk_handlers (run link_step (no_links demo_generated) demo_start)) ws = Some h \<and> holds_link ''a1'' h)
    | None \<Rightarrow> agent_status (lk_registry (run link_step (no_links demo_generated) demo_start)) ''a1'' \<noteq> Some ''online''
        \<or> (\<exists>ws h. dget (lk_handlers (run link_step (no_links demo_generated) demo_start)) ws = Some h \<and> about_to_link ''a1'' h)"
    by (rule status_follows_the_table)
  moreover have "dget (lk_connections (run link_step (no_links demo_generated) demo_start)) ''a1'' = Some 1" by code_simp
  moreover have "agent_status (lk_registry (run link_step (no_links demo_generated) demo_start)) ''a1'' \<noteq> None" by code_simp
  ultimately show ?thesis by simp
qed

lemma superseded_sockets_are_harmless_witness:
  "dget (lk_connections (run link_step (run link_step (no_links demo_generated) (demo_start @ demo_takeover)) demo_stale)) ''a1'' = Some 2"
proof -
  let ?k = "run link_step (no_links demo_generated) (demo_start @ demo_takeover)"
  have "dget (lk_connections ?k) ''a1'' = Some 2" by code_simp
  moreover have "agent_status (lk_registry ?k) ''a1'' = Some ''online''" by code_simp
  moreover have "spared ''a1'' 2 ?k demo_stale" by code_simp
  ultimately show ?thesis using superseded_sockets_are_harmless [of ?k "''a1''" 2 demo_stale] by blast
qed

text \<open>An agent whose socket is lost right after its authentication stays online for good.\<close>

lemma phantom_agent_stays_online:
  "case run link_step (no_links demo_generated)
      [Connect 1, Authenticate (secs 60) 1 ''a1'' ''h2'' [] demo_registration, Drop 1, TearDown (secs 61) 1, SayGoodbye 1, CloseShells 1] of
    k \<Rightarrow> agent_status (lk_registry k) ''a1'' = Some ''online'' \<and> lk_connections k = []
      \<and> map (\<lambda>(ws, h). hd_stage h) (lk_handlers k) = [Gone]"
  by code_simp

end
