(* ===== verification/ImageTracking.thy ===== *)
theory ImageTracking
  imports PyUrl Keys
begin

text \<open>
  Image references, versions and digests as the update check reads them (\<open>backend/updates/registry_adapter.py\<close>,
  \<open>update_checker.py\<close>, \<open>types.py\<close> and \<open>changelog_resolver.py\<close>). A regular expression is the function that its
  matches compute.
\<close>

section \<open>References\<close>

text \<open>\<open>s.rsplit(c, 1)\<close> when the separator occurs.\<close>

definition split_last :: "char \<Rightarrow> string \<Rightarrow> (string \<times> string) option" where
  "split_last c s = map_option (\<lambda>(a, b). (rev b, rev a)) (split_first c (rev s))"

lemma split_last_Some_iff: "split_last c s = Some (a, b) \<longleftrightarrow> s = a @ c # b \<and> c \<notin> set b"
proof -
  have "split_last c s = Some (a, b) \<longleftrightarrow> split_first c (rev s) = Some (rev b, rev a)"
    unfolding split_last_def by (auto simp: rev_swap)
  also have "\<dots> \<longleftrightarrow> rev s = rev b @ c # rev a \<and> c \<notin> set b"
    by (simp add: split_first_Some_iff)
  also have "rev s = rev b @ c # rev a \<longleftrightarrow> s = a @ c # b"
    by (metis append.assoc append_Cons append_Nil rev.simps(2) rev_append rev_rev_ident)
  finally show ?thesis .
qed

lemma split_last_append: "c \<notin> set b \<Longrightarrow> split_last c (a @ c # b) = Some (a, b)"
  by (simp add: split_last_Some_iff)

lemma split_last_None_iff: "split_last c s = None \<longleftrightarrow> c \<notin> set s"
  by (simp add: split_last_def)

text \<open>The registry, repository and tag of a reference; a digest reference is a \<open>ValueError\<close>.\<close>

definition parse_image_ref :: "string \<Rightarrow> (unit, string \<times> string \<times> string) res" where
  "parse_image_ref ref =
     (if contains ''@sha256:'' ref \<or> starts_with ref ''sha256:'' then Inl ()
      else
        let (registry, rest) = (case split_first (CHR ''/'') ref of
                None \<Rightarrow> (''docker.io'', ref)
              | Some (a, b) \<Rightarrow> if CHR ''.'' \<in> set a \<or> CHR '':'' \<in> set a then (a, b) else (''docker.io'', ref));
            (repository, tag) = (case split_last (CHR '':'') rest of None \<Rightarrow> (rest, ''latest'') | Some (a, b) \<Rightarrow> (a, b))
        in Inr (registry, if registry = ''docker.io'' \<and> CHR ''/'' \<notin> set repository then ''library/'' @ repository else repository, tag))"

definition normalize_registry_url :: "string \<Rightarrow> string" where
  "normalize_registry_url registry =
     (let r = (if starts_with registry ''http'' then registry else ''https://'' @ registry)
      in if contains ''docker.io'' r then ''https://registry.hub.docker.com'' else r)"

definition get_manifest_url :: "string \<Rightarrow> string \<Rightarrow> string \<Rightarrow> string" where
  "get_manifest_url registry repository tag = normalize_registry_url registry @ ''/v2/'' @ repository @ ''/manifests/'' @ tag"

text \<open>The registry whose credentials are looked up.\<close>

definition credentials_registry :: "string \<Rightarrow> string" where
  "credentials_registry image_name =
     rstrip_char (CHR ''/'') (py_lower (case split_first (CHR ''/'') image_name of
         None \<Rightarrow> ''docker.io''
       | Some (a, b) \<Rightarrow> if CHR ''.'' \<in> set a \<or> CHR '':'' \<in> set a then a else ''docker.io''))"

section \<open>Versions\<close>

text \<open>\<open>\.(\d+)\<close> at the front.\<close>

definition dot_number :: "string \<Rightarrow> (string \<times> string) option" where
  "dot_number s = (case s of
      c # t \<Rightarrow> if c = CHR ''.'' \<and> takeWhile is_dec t \<noteq> [] then Some (takeWhile is_dec t, dropWhile is_dec t) else None
    | [] \<Rightarrow> None)"

definition opt_dot_number :: "string \<Rightarrow> string option \<times> string" where
  "opt_dot_number s = (case dot_number s of None \<Rightarrow> (None, s) | Some (d, rest) \<Rightarrow> (Some d, rest))"

definition drop_v :: "string \<Rightarrow> string" where
  "drop_v s = (if starts_with s ''v'' then tl s else s)"

text \<open>\<open>v?(\d+)(?:\.(\d+))?(?:\.(\d+))?\<close> and what follows the match.\<close>

definition match_version :: "string \<Rightarrow> (string \<times> string option \<times> string option \<times> string) option" where
  "match_version tag =
     (let s = drop_v tag; major = takeWhile is_dec s in
      if major = [] then None
      else let (minor, s2) = opt_dot_number (dropWhile is_dec s); (patch, s3) = opt_dot_number s2
           in Some (major, minor, patch, s3))"

definition parse_version_from_tag :: "string \<Rightarrow> (int \<times> int \<times> int) option" where
  "parse_version_from_tag tag =
     (let t = (case split_last (CHR '':'') tag of None \<Rightarrow> tag | Some (a, b) \<Rightarrow> b) in
      if tag = [] then None
      else map_option (\<lambda>(major, minor, patch, rest). (dec_val major,
          (case minor of None \<Rightarrow> 0 | Some m \<Rightarrow> dec_val m), (case patch of None \<Rightarrow> 0 | Some p \<Rightarrow> dec_val p))) (match_version t))"

lemma dot_number_shorter: "dot_number s = Some (d, rest) \<Longrightarrow> length rest < length s"
  by (cases s) (auto simp: dot_number_def less_Suc_eq_le length_dropWhile_le split: if_splits)

text \<open>\<open>(\.\d+)*\<close> at the front.\<close>

function dot_numbers :: "string \<Rightarrow> string" where
  "dot_numbers s = (case dot_number s of None \<Rightarrow> [] | Some (d, rest) \<Rightarrow> CHR ''.'' # d @ dot_numbers rest)"
  by pat_completeness auto
termination by (relation "measure length") (auto simp: dot_number_shorter)

declare dot_numbers.simps [simp del]

definition extract_version_from_tag :: "string \<Rightarrow> string option" where
  "extract_version_from_tag ref =
     (case split_last (CHR '':'') ref of
        None \<Rightarrow> None
      | Some (img, tag) \<Rightarrow>
          let s = drop_v tag; major = takeWhile is_dec s; tail = dot_numbers (dropWhile is_dec s)
          in if major = [] \<or> tail = [] then None else Some (major @ tail))"

definition is_downgrade :: "int \<times> int \<times> int \<Rightarrow> int \<times> int \<times> int \<Rightarrow> bool" where
  "is_downgrade current_ver latest_ver =
     (case (current_ver, latest_ver) of ((a, b, c), (a', b', c')) \<Rightarrow> a' < a \<or> a' = a \<and> (b' < b \<or> b' = b \<and> c' < c))"

section \<open>The tag to track\<close>

datatype tracking = ExactTag | PatchUpdates | MinorUpdates | LatestTag | OtherMode

definition tracking_of :: "string \<Rightarrow> tracking" where
  "tracking_of mode =
     (if mode = ''exact'' then ExactTag else if mode = ''patch'' then PatchUpdates
      else if mode = ''minor'' then MinorUpdates else if mode = ''latest'' then LatestTag else OtherMode)"

text \<open>\<open>(.*)$\<close>: what is left has no line break but a final one, which is not part of the match.\<close>

definition line_end :: "string \<Rightarrow> string option" where
  "line_end s = (if dropWhile (\<lambda>c. c \<noteq> CHR 0x0A) s \<in> {[], [CHR 0x0A]} then Some (takeWhile (\<lambda>c. c \<noteq> CHR 0x0A) s) else None)"

definition compute_floating_tag :: "string \<Rightarrow> string \<Rightarrow> string" where
  "compute_floating_tag image_tag mode =
     (let image_tag = (if CHR '':'' \<in> set image_tag then image_tag else image_tag @ '':latest'') in
      if tracking_of mode = ExactTag then image_tag
      else
        case split_last (CHR '':'') image_tag of None \<Rightarrow> image_tag | Some (img, tag) \<Rightarrow>
          if tracking_of mode = LatestTag then img @ '':latest''
          else
            case match_version tag of
              None \<Rightarrow> image_tag
            | Some (major, minor, patch, rest) \<Rightarrow>
                case line_end rest of
                  None \<Rightarrow> image_tag
                | Some suffix \<Rightarrow>
                    case tracking_of mode of
                      MinorUpdates \<Rightarrow> img @ '':'' @ major @ suffix
                    | PatchUpdates \<Rightarrow> (case minor of
                          Some m \<Rightarrow> img @ '':'' @ major @ ''.'' @ m @ suffix
                        | None \<Rightarrow> img @ '':'' @ major @ suffix)
                    | _ \<Rightarrow> image_tag)"

section \<open>Local images\<close>

definition looks_unresolvable_local :: "string \<Rightarrow> bool" where
  "looks_unresolvable_local image_ref =
     (image_ref \<noteq> [] \<and> CHR ''@'' \<notin> set image_ref
      \<and> \<not> (CHR ''/'' \<in> set image_ref
            \<and> (let first = takeWhile (\<lambda>c. c \<noteq> CHR ''/'') image_ref
               in CHR ''.'' \<in> set first \<or> CHR '':'' \<in> set first \<or> first = ''localhost'')))"

section \<open>Digests and platforms\<close>

definition extract_digest_from_repo_digests :: "string list \<Rightarrow> string option" where
  "extract_digest_from_repo_digests repo_digests =
     map_option (\<lambda>d. case split_first (CHR ''@'') d of None \<Rightarrow> [] | Some (a, b) \<Rightarrow> b)
       (find (contains ''@sha256:'') repo_digests)"

definition has_digest :: "string list option \<Rightarrow> string \<Rightarrow> bool" where
  "has_digest repo_digests digest =
     (case repo_digests of
        None \<Rightarrow> False
      | Some ds \<Rightarrow> digest \<noteq> [] \<and> list_ex (contains (CHR ''@'' # digest)) ds)"

record descriptor =
  ds_os :: "string option"
  ds_architecture :: "string option"
  ds_variant :: "string option"
  ds_digest :: "string option"

record manifest =
  mf_media_type :: string
  mf_manifests :: "descriptor list"
  mf_labels :: "(string, string) pydict"

definition MANIFEST_LIST_TYPES :: "string list" where
  "MANIFEST_LIST_TYPES = [''application/vnd.docker.distribution.manifest.list.v2+json'', ''application/vnd.oci.image.index.v1+json'']"

definition parse_platform :: "string \<Rightarrow> string \<times> string \<times> string option" where
  "parse_platform platform =
     (let parts = (if CHR ''/'' \<in> set platform then split_on (CHR ''/'') platform else [''linux'', platform])
      in (hd parts, if length parts > 1 then parts ! 1 else platform, if length parts > 2 then Some (parts ! 2) else None))"

definition match_platform_manifest :: "descriptor list \<Rightarrow> string \<Rightarrow> descriptor option" where
  "match_platform_manifest manifests platform =
     (case parse_platform platform of (os_name, arch, variant) \<Rightarrow>
        find (\<lambda>d. ds_os d = Some os_name \<and> ds_architecture d = Some arch
            \<and> (case variant of None \<Rightarrow> True | Some v \<Rightarrow> v = [] \<or> ds_variant d = Some v)) manifests)"

definition extract_platform_digest :: "manifest option \<Rightarrow> string \<Rightarrow> string option" where
  "extract_platform_digest mf platform =
     (case mf of
        None \<Rightarrow> None
      | Some m \<Rightarrow> if mf_media_type m \<in> set MANIFEST_LIST_TYPES
          then Option.bind (match_platform_manifest (mf_manifests m) platform) ds_digest else None)"

section \<open>How long a lookup is cached\<close>

record cache_ttls =
  ttl_latest :: int
  ttl_pinned :: int
  ttl_floating :: int
  ttl_default :: int

definition default_ttls :: cache_ttls where
  "default_ttls = \<lparr>ttl_latest = 30 * 60, ttl_pinned = 24 * 3600, ttl_floating = 6 * 3600, ttl_default = 6 * 3600\<rparr>"

definition compute_cache_ttl_seconds :: "cache_ttls \<Rightarrow> string \<Rightarrow> int" where
  "compute_cache_ttl_seconds ttls image_tag =
     (let tag = (case split_last (CHR '':'') image_tag of None \<Rightarrow> ''latest'' | Some (a, b) \<Rightarrow> b) in
      if contains '':latest'' image_tag then ttl_latest ttls
      else case match_version tag of
          Some (major, Some minor, Some patch, rest) \<Rightarrow> ttl_pinned ttls
        | Some (major, minor, None, rest) \<Rightarrow> if rest \<in> {[], [CHR 0x0A]} then ttl_floating ttls else ttl_default ttls
        | _ \<Rightarrow> ttl_default ttls)"

section \<open>Where the release notes are\<close>

definition hostname_of :: "string \<Rightarrow> string" where
  "hostname_of netloc = py_lower (fst (host_and_port (case split_last (CHR ''@'') netloc of None \<Rightarrow> netloc | Some (a, b) \<Rightarrow> b)))"

text \<open>A source with a stray bracket raises, which the caller counts as a failed check.\<close>

definition check_oci_labels :: "(string, string) pydict \<Rightarrow> (unit, string option) res" where
  "check_oci_labels labels =
     (case dget labels ''org.opencontainers.image.source'' of
        None \<Rightarrow> Inr None
      | Some source \<Rightarrow>
          if source = [] then Inr None
          else case urlsplit (strip source) of
              None \<Rightarrow> Inl ()
            | Some (scheme, netloc) \<Rightarrow>
                let host = hostname_of netloc in
                if scheme \<in> {''http'', ''https''} \<and> (host = ''github.com'' \<or> ends_with host ''.github.com'')
                then Inr (Some (rstrip_char (CHR ''/'') (strip source) @ ''/releases'')) else Inr None)"

definition check_ghcr_heuristic :: "string \<Rightarrow> string option" where
  "check_ghcr_heuristic image_name =
     (if starts_with image_name ''ghcr.io/''
      then Some (''https://github.com/'' @ takeWhile (\<lambda>c. c \<noteq> CHR '':'') (remove_all ''ghcr.io/'' image_name) @ ''/releases'')
      else None)"

definition FUZZY_RECHECK_DAYS :: int where
  "FUZZY_RECHECK_DAYS = 3"

definition should_fuzzy_match :: "time \<Rightarrow> string option \<Rightarrow> time option \<Rightarrow> bool" where
  "should_fuzzy_match now current_source last_checked =
     (case (current_source, last_checked) of
        (Some source, Some t) \<Rightarrow> source \<in> {''failed'', ''fuzzy_match''} \<and> FUZZY_RECHECK_DAYS \<le> (now - t) div secs 86400
      | _ \<Rightarrow> True)"

text \<open>\<open>repo.replace('-', '_')\<close>\<close>

definition fuzzy_candidates :: "string \<Rightarrow> string list" where
  "fuzzy_candidates image_name =
     (let parts = split_on (CHR ''/'') (takeWhile (\<lambda>c. c \<noteq> CHR '':'') image_name);
          parts = (if length parts > 1 \<and> (CHR ''.'' \<in> set (hd parts) \<or> CHR '':'' \<in> set (hd parts)) then tl parts else parts)
      in case parts of
           owner # repo # rest \<Rightarrow> map (\<lambda>p. ''https://github.com/'' @ owner @ ''/'' @ p @ ''/releases'')
             [repo, owner, ''docker-'' @ repo, map (\<lambda>c. if c = CHR ''-'' then CHR ''_'' else c) repo]
         | _ \<Rightarrow> [])"

definition resolve_changelog_url ::
    "(string \<Rightarrow> bool) \<Rightarrow> time \<Rightarrow> string \<Rightarrow> (string, string) pydict \<Rightarrow> string option \<Rightarrow> string option \<Rightarrow> time option
      \<Rightarrow> (unit, string option \<times> string \<times> time) res" where
  "resolve_changelog_url page_exists now image_name labels current_url current_source last_checked =
     res_bind (check_oci_labels labels) (\<lambda>oci.
       Inr (case oci of
          Some u \<Rightarrow> (Some u, ''oci_label'', now)
        | None \<Rightarrow>
            (case check_ghcr_heuristic image_name of
               Some u \<Rightarrow> (Some u, ''ghcr'', now)
             | None \<Rightarrow>
                 if should_fuzzy_match now current_source last_checked
                 then (case find page_exists (fuzzy_candidates image_name) of
                         Some u \<Rightarrow> (Some u, ''fuzzy_match'', now) | None \<Rightarrow> (None, ''failed'', now))
                 else (current_url, case current_source of None \<Rightarrow> ''failed'' | Some s \<Rightarrow> if s = [] then ''failed'' else s,
                       case last_checked of None \<Rightarrow> now | Some t \<Rightarrow> t))))"

end
