(* ===== verification/UpdateChecks.thy ===== *)
theory UpdateChecks
  imports ImageTracking
begin

text \<open>
  The update check (\<open>backend/updates/update_checker.py\<close>) with the digest cache and the update rows of
  \<open>backend/database.py\<close>. The registry, the Docker API and the release pages are functions of the environment.
\<close>

section \<open>State\<close>

record image_container =
  ic_host_id :: string
  ic_id :: string
  ic_name :: string
  ic_image :: string
  ic_platform :: "string option"
  ic_labels :: "(string, string) pydict"
  ic_repo_digests :: "string list option"

record update_row =
  ur_container_id :: string
  ur_host_id :: string
  ur_container_name :: "string option"
  ur_current_image :: string
  ur_current_digest :: string
  ur_latest_image :: "string option"
  ur_latest_digest :: "string option"
  ur_update_available :: bool
  ur_check_status :: "string option"
  ur_current_version :: "string option"
  ur_latest_version :: "string option"
  ur_floating_tag_mode :: string
  ur_auto_update_enabled :: bool
  ur_update_policy :: "string option"
  ur_last_checked_at :: "time option"
  ur_last_updated_at :: "time option"
  ur_registry_url :: "string option"
  ur_platform :: "string option"
  ur_changelog_url :: "string option"
  ur_changelog_source :: "string option"
  ur_changelog_checked_at :: "time option"

record policy_row =
  pr_pattern :: string
  pr_category :: string
  pr_action :: string
  pr_enabled :: bool

record cached_digest =
  cd_digest :: string
  cd_manifest :: manifest
  cd_registry_url :: string
  cd_ttl_seconds :: int
  cd_checked_at :: time

type_synonym digest_cache = "(string, cached_digest) pydict"

text \<open>What the registry answers to a reference; retryable failures are told apart.\<close>

datatype resolution = Found string string manifest | Missing | Transient

record registry_env =
  en_resolve :: "string \<Rightarrow> resolution"
  en_docker_digests :: "image_container \<Rightarrow> string list option"
  en_docker_version :: "image_container \<Rightarrow> string option"
  en_page_exists :: "string \<Rightarrow> bool"
  en_ttls :: cache_ttls

record update_info =
  ui_current_image :: string
  ui_current_digest :: string
  ui_latest_image :: string
  ui_latest_digest :: string
  ui_update_available :: bool
  ui_registry_url :: string
  ui_platform :: string
  ui_floating_tag_mode :: string
  ui_current_version :: "string option"
  ui_latest_version :: "string option"
  ui_changelog_url :: "string option"
  ui_changelog_source :: string
  ui_changelog_checked_at :: "time option"

datatype check_result = NoResult | LocalImage | Checked update_info

record update_available_event =
  ue_scope_id :: string
  ue_latest_digest :: string
  ue_latest_image :: string

record update_checker =
  ck_updates :: "update_row list"
  ck_cache :: digest_cache
  ck_policies :: "policy_row list"
  ck_skip_compose :: bool
  ck_events :: "update_available_event list"

section \<open>The digest cache\<close>

definition get_cached_image_digest :: "time \<Rightarrow> string \<Rightarrow> digest_cache \<Rightarrow> cached_digest option" where
  "get_cached_image_digest now key cache =
     (case dget cache key of
        None \<Rightarrow> None
      | Some e \<Rightarrow> if cd_checked_at e + secs (cd_ttl_seconds e) < now then None else Some e)"

definition cache_image_digest :: "time \<Rightarrow> string \<Rightarrow> string \<Rightarrow> manifest \<Rightarrow> string \<Rightarrow> int \<Rightarrow> digest_cache \<Rightarrow> digest_cache" where
  "cache_image_digest now key digest mf registry ttl cache =
     dset key \<lparr>cd_digest = digest, cd_manifest = mf, cd_registry_url = registry, cd_ttl_seconds = ttl, cd_checked_at = now\<rparr> cache"

definition cleanup_expired_image_cache :: "time \<Rightarrow> digest_cache \<Rightarrow> nat \<times> digest_cache" where
  "cleanup_expired_image_cache now cache =
     (let expired = (\<lambda>e. cd_checked_at e + secs (cd_ttl_seconds e) < now)
      in (length (filter (\<lambda>(k, e). expired e) cache), filter (\<lambda>(k, e). \<not> expired e) cache))"

section \<open>One container\<close>

definition find_update :: "string \<Rightarrow> update_row list \<Rightarrow> update_row option" where
  "find_update key rows = find (\<lambda>r. ur_container_id r = key) rows"

definition get_tracking_mode :: "string \<Rightarrow> update_row list \<Rightarrow> string" where
  "get_tracking_mode key rows = (case find_update key rows of None \<Rightarrow> ''exact'' | Some r \<Rightarrow> ur_floating_tag_mode r)"

definition get_previous_digest :: "string \<Rightarrow> update_row list \<Rightarrow> string option" where
  "get_previous_digest key rows = Option.bind (find_update key rows) ur_latest_digest"

text \<open>The digest the container runs; the digests that Docker reports are kept in the container.\<close>

definition get_container_image_digest :: "registry_env \<Rightarrow> image_container \<Rightarrow> string option \<times> image_container" where
  "get_container_image_digest env c =
     (case Option.bind (ic_repo_digests c) extract_digest_from_repo_digests of
        Some d \<Rightarrow> (Some d, c)
      | None \<Rightarrow>
          (case en_docker_digests env c of
             None \<Rightarrow> (None, c)
           | Some ds \<Rightarrow> if ds = [] then (None, c) else (extract_digest_from_repo_digests ds, c\<lparr>ic_repo_digests := Some ds\<rparr>)))"

definition OCI_VERSION :: string where
  "OCI_VERSION = ''org.opencontainers.image.version''"

definition get_container_image_version :: "registry_env \<Rightarrow> image_container \<Rightarrow> string option" where
  "get_container_image_version env c =
     (case dget (ic_labels c) OCI_VERSION of
        Some v \<Rightarrow> if v \<noteq> [] then Some v else en_docker_version env c
      | None \<Rightarrow> en_docker_version env c)"

definition set_text :: "string option \<Rightarrow> bool" where
  "set_text s = (s \<noteq> None \<and> s \<noteq> Some [])"

text \<open>\<open>s or t\<close> of texts that may be missing.\<close>

definition text_or :: "string option \<Rightarrow> string option \<Rightarrow> string option" where
  "text_or s t = (if set_text s then s else t)"

definition digests_differ :: "image_container \<Rightarrow> string \<Rightarrow> string \<Rightarrow> manifest option \<Rightarrow> string \<Rightarrow> bool" where
  "digests_differ c current_digest latest_digest mf platform =
     (if has_digest (ic_repo_digests c) latest_digest then False
      else case extract_platform_digest mf platform of
          Some d \<Rightarrow> if d \<noteq> [] \<and> has_digest (ic_repo_digests c) d then False else current_digest \<noteq> latest_digest
        | None \<Rightarrow> current_digest \<noteq> latest_digest)"

definition would_downgrade :: "string \<Rightarrow> string option \<Rightarrow> string \<Rightarrow> string option \<Rightarrow> bool" where
  "would_downgrade img current_version floating_tag latest_version =
     (case (parse_version_from_tag (the (text_or current_version (Some img))),
            parse_version_from_tag (the (text_or latest_version (Some floating_tag)))) of
        (Some a, Some b) \<Rightarrow> is_downgrade a b
      | _ \<Rightarrow> False)"

text \<open>The latest digest, its registry and manifest: from the cache or from the registry, which fills it.\<close>

definition latest_of ::
    "registry_env \<Rightarrow> time \<Rightarrow> bool \<Rightarrow> string \<Rightarrow> string \<Rightarrow> digest_cache \<Rightarrow> resolution \<times> digest_cache" where
  "latest_of env now bypass_cache floating_tag platform cache =
     (let key = floating_tag @ '':'' @ platform in
      case (if bypass_cache then None else get_cached_image_digest now key cache) of
        Some e \<Rightarrow> (Found (cd_digest e) (cd_registry_url e) (cd_manifest e), cache)
      | None \<Rightarrow>
          (case en_resolve env floating_tag of
             Found digest registry mf \<Rightarrow>
               (Found digest registry mf,
                cache_image_digest now key digest mf registry (compute_cache_ttl_seconds (en_ttls env) floating_tag) cache)
           | other \<Rightarrow> (other, cache)))"

definition changelog_of ::
    "registry_env \<Rightarrow> time \<Rightarrow> string \<Rightarrow> manifest \<Rightarrow> update_row option \<Rightarrow> (unit, string option \<times> string \<times> time option) res" where
  "changelog_of env now floating_tag mf existing =
     (case existing of
        Some r \<Rightarrow>
          if ur_changelog_source r = Some ''manual''
          then Inr (ur_changelog_url r, ''manual'', ur_changelog_checked_at r)
          else res_bind (resolve_changelog_url (en_page_exists env) now floating_tag (mf_labels mf)
                 (ur_changelog_url r) (ur_changelog_source r) (ur_changelog_checked_at r)) (\<lambda>(u, s, t). Inr (u, s, Some t))
      | None \<Rightarrow> res_bind (resolve_changelog_url (en_page_exists env) now floating_tag (mf_labels mf) None None None)
                 (\<lambda>(u, s, t). Inr (u, s, Some t)))"

definition versions_of ::
    "registry_env \<Rightarrow> image_container \<Rightarrow> string \<Rightarrow> manifest \<Rightarrow> string option \<times> string option" where
  "versions_of env c floating_tag mf =
     (text_or (get_container_image_version env c) (extract_version_from_tag (ic_image c)),
      text_or (dget (mf_labels mf) OCI_VERSION) (extract_version_from_tag floating_tag))"

definition update_offered ::
    "registry_env \<Rightarrow> image_container \<Rightarrow> string \<Rightarrow> string \<Rightarrow> manifest \<Rightarrow> string \<Rightarrow> string \<Rightarrow> bool" where
  "update_offered env c current_digest latest_digest mf floating_tag platform =
     (digests_differ c current_digest latest_digest (Some mf) platform
      \<and> \<not> would_downgrade (ic_image c) (fst (versions_of env c floating_tag mf)) floating_tag (snd (versions_of env c floating_tag mf)))"

definition local_or_none :: "string \<Rightarrow> check_result" where
  "local_or_none img = (if looks_unresolvable_local img then LocalImage else NoResult)"

text \<open>The digest of the running image, asked of the registry when Docker knows none.\<close>

definition current_digest_of :: "registry_env \<Rightarrow> image_container \<Rightarrow> (unit, string option) res \<times> image_container" where
  "current_digest_of env c =
     (case get_container_image_digest env c of
        (Some d, c') \<Rightarrow> (Inr (Some d), c')
      | (None, c') \<Rightarrow>
          if CHR ''@'' \<in> set (ic_image c) then (Inr None, c')
          else case en_resolve env (ic_image c) of
              Found d registry mf \<Rightarrow> (Inr (Some d), c')
            | Missing \<Rightarrow> (Inr None, c')
            | Transient \<Rightarrow> (Inl (), c'))"

definition check_container_update ::
    "registry_env \<Rightarrow> time \<Rightarrow> bool \<Rightarrow> string \<Rightarrow> image_container \<Rightarrow> update_row list \<Rightarrow> digest_cache
      \<Rightarrow> (unit, check_result) res \<times> digest_cache" where
  "check_container_update env now bypass_cache key c rows cache =
     (if ic_image c = [] then (Inr NoResult, cache)
      else
        let mode = get_tracking_mode key rows;
            floating_tag = compute_floating_tag (ic_image c) mode
        in case current_digest_of env c of
             (Inl e, c') \<Rightarrow> (Inr NoResult, cache)
           | (Inr None, c') \<Rightarrow> (Inr (local_or_none (ic_image c)), cache)
           | (Inr (Some current_digest), c') \<Rightarrow>
               let platform = (case ic_platform c of None \<Rightarrow> ''linux/amd64'' | Some p \<Rightarrow> p)
               in case latest_of env now bypass_cache floating_tag platform cache of
                    (Transient, cache') \<Rightarrow> (Inr NoResult, cache')
                  | (Missing, cache') \<Rightarrow> (Inr (local_or_none (ic_image c)), cache')
                  | (Found latest_digest registry mf, cache') \<Rightarrow>
                      (res_bind (changelog_of env now floating_tag mf (find_update key rows)) (\<lambda>(u, s, t).
                         Inr (Checked \<lparr>ui_current_image = ic_image c, ui_current_digest = current_digest,
                           ui_latest_image = floating_tag, ui_latest_digest = latest_digest,
                           ui_update_available = update_offered env c' current_digest latest_digest mf floating_tag platform,
                           ui_registry_url = registry, ui_platform = platform, ui_floating_tag_mode = mode,
                           ui_current_version = fst (versions_of env c' floating_tag mf),
                           ui_latest_version = snd (versions_of env c' floating_tag mf),
                           ui_changelog_url = u, ui_changelog_source = s, ui_changelog_checked_at = t\<rparr>)),
                       cache'))"

section \<open>What a check stores\<close>

definition named :: "image_container \<Rightarrow> string option \<Rightarrow> string option" where
  "named c old = (if ic_name c \<noteq> [] then Some (ic_name c) else old)"

definition apply_update_info :: "time \<Rightarrow> image_container \<Rightarrow> update_info \<Rightarrow> update_row \<Rightarrow> update_row" where
  "apply_update_info now c ui r =
     r\<lparr>ur_current_image := ui_current_image ui, ur_current_digest := ui_current_digest ui,
       ur_latest_image := Some (ui_latest_image ui), ur_latest_digest := Some (ui_latest_digest ui),
       ur_update_available := ui_update_available ui, ur_check_status := None,
       ur_registry_url := Some (ui_registry_url ui), ur_platform := Some (ui_platform ui),
       ur_last_checked_at := Some now, ur_current_version := ui_current_version ui,
       ur_latest_version := ui_latest_version ui, ur_changelog_url := ui_changelog_url ui,
       ur_changelog_source := Some (ui_changelog_source ui), ur_changelog_checked_at := ui_changelog_checked_at ui,
       ur_container_name := named c (ur_container_name r)\<rparr>"

definition blank_row :: "string \<Rightarrow> image_container \<Rightarrow> update_row" where
  "blank_row key c =
     \<lparr>ur_container_id = key, ur_host_id = ic_host_id c, ur_container_name = Some (ic_name c), ur_current_image = [],
      ur_current_digest = [], ur_latest_image = None, ur_latest_digest = None, ur_update_available = False,
      ur_check_status = None, ur_current_version = None, ur_latest_version = None, ur_floating_tag_mode = ''exact'',
      ur_auto_update_enabled = False, ur_update_policy = None, ur_last_checked_at = None, ur_last_updated_at = None,
      ur_registry_url = None, ur_platform = None, ur_changelog_url = None, ur_changelog_source = None,
      ur_changelog_checked_at = None\<rparr>"

definition upsert_update :: "string \<Rightarrow> (update_row \<Rightarrow> update_row) \<Rightarrow> update_row \<Rightarrow> update_row list \<Rightarrow> update_row list" where
  "upsert_update key f fresh rows =
     (if find_update key rows = None then rows @ [fresh]
      else map (\<lambda>r. if ur_container_id r = key then f r else r) rows)"

definition store_update_info :: "time \<Rightarrow> string \<Rightarrow> image_container \<Rightarrow> update_info \<Rightarrow> update_row list \<Rightarrow> update_row list" where
  "store_update_info now key c ui =
     upsert_update key (apply_update_info now c ui)
       ((apply_update_info now c ui (blank_row key c))\<lparr>ur_container_name := Some (ic_name c),
          ur_floating_tag_mode := ui_floating_tag_mode ui\<rparr>)"

definition LOCAL_IMAGE_STATUS :: string where
  "LOCAL_IMAGE_STATUS = ''local_image''"

definition apply_marker :: "time \<Rightarrow> image_container \<Rightarrow> update_row \<Rightarrow> update_row" where
  "apply_marker now c r =
     r\<lparr>ur_check_status := Some LOCAL_IMAGE_STATUS, ur_update_available := False, ur_latest_image := None,
       ur_latest_digest := None, ur_latest_version := None, ur_current_digest := [],
       ur_current_image := (if ic_image c \<noteq> [] then ic_image c else ur_current_image r),
       ur_last_checked_at := Some now, ur_container_name := named c (ur_container_name r)\<rparr>"

definition store_local_image_info :: "time \<Rightarrow> string \<Rightarrow> image_container \<Rightarrow> update_row list \<Rightarrow> update_row list" where
  "store_local_image_info now key c =
     upsert_update key (apply_marker now c)
       ((blank_row key c)\<lparr>ur_current_image := ic_image c, ur_check_status := Some LOCAL_IMAGE_STATUS, ur_last_checked_at := Some now\<rparr>)"

definition create_update_event :: "string \<Rightarrow> update_info \<Rightarrow> string option \<Rightarrow> update_checker \<Rightarrow> update_checker" where
  "create_update_event key ui previous_digest k =
     (if previous_digest = Some (ui_latest_digest ui) then k
      else k\<lparr>ck_events := ck_events k @ [\<lparr>ue_scope_id = key, ue_latest_digest = ui_latest_digest ui,
             ue_latest_image = ui_latest_image ui\<rparr>]\<rparr>)"

section \<open>All containers\<close>

record check_stats =
  st_total :: nat
  st_checked :: nat
  st_updates_found :: nat
  st_errors :: nat

definition is_compose_container :: "image_container \<Rightarrow> bool" where
  "is_compose_container c = list_ex (\<lambda>(k, v). starts_with k ''com.docker.compose'') (ic_labels c)"

definition get_ignore_patterns :: "policy_row list \<Rightarrow> string list" where
  "get_ignore_patterns policies = map (\<lambda>p. py_lower (pr_pattern p)) (filter (\<lambda>p. pr_enabled p \<and> pr_action p = ''ignore'') policies)"

definition matches_ignore_pattern :: "image_container \<Rightarrow> string list \<Rightarrow> bool" where
  "matches_ignore_pattern c patterns =
     list_ex (\<lambda>p. contains p (py_lower (ic_name c)) \<or> contains p (py_lower (extract_image_repository (Some (ic_image c))))) patterns"

text \<open>One check with what it stores; \<open>None\<close> in the first component is an exception.\<close>

definition check_and_store ::
    "registry_env \<Rightarrow> time \<Rightarrow> bool \<Rightarrow> image_container \<Rightarrow> update_checker \<Rightarrow> check_result option \<times> update_checker" where
  "check_and_store env now bypass_cache c k =
     (case make_composite_key (ic_host_id c) (normalize_container_id (ic_id c)) of
        Inl e \<Rightarrow> (if ic_image c = [] then (Some NoResult, k) else (None, k))
      | Inr key \<Rightarrow>
          (case check_container_update env now bypass_cache key c (ck_updates k) (ck_cache k) of
             (Inl e, cache) \<Rightarrow> (None, k\<lparr>ck_cache := cache\<rparr>)
           | (Inr NoResult, cache) \<Rightarrow> (Some NoResult, k\<lparr>ck_cache := cache\<rparr>)
           | (Inr LocalImage, cache) \<Rightarrow>
               (Some LocalImage, k\<lparr>ck_cache := cache, ck_updates := store_local_image_info now key c (ck_updates k)\<rparr>)
           | (Inr (Checked ui), cache) \<Rightarrow>
               let previous = get_previous_digest key (ck_updates k);
                   k' = k\<lparr>ck_cache := cache, ck_updates := store_update_info now key c ui (ck_updates k)\<rparr>
               in (Some (Checked ui), if ui_update_available ui then create_update_event key ui previous k' else k')))"

definition skipped :: "update_checker \<Rightarrow> string list \<Rightarrow> image_container \<Rightarrow> bool" where
  "skipped k patterns c = (ck_skip_compose k \<and> is_compose_container c \<or> matches_ignore_pattern c patterns)"

definition check_next ::
    "registry_env \<Rightarrow> time \<Rightarrow> string list \<Rightarrow> image_container \<Rightarrow> check_stats \<times> update_checker \<Rightarrow> check_stats \<times> update_checker" where
  "check_next env now patterns c sk =
     (case sk of (st, k) \<Rightarrow>
        if skipped k patterns c then (st, k)
        else case check_and_store env now False c k of
            (None, k') \<Rightarrow> (st\<lparr>st_errors := st_errors st + 1\<rparr>, k')
          | (Some NoResult, k') \<Rightarrow> (st, k')
          | (Some LocalImage, k') \<Rightarrow> (st\<lparr>st_checked := st_checked st + 1\<rparr>, k')
          | (Some (Checked ui), k') \<Rightarrow>
              (st\<lparr>st_checked := st_checked st + 1,
                  st_updates_found := st_updates_found st + (if ui_update_available ui then 1 else 0)\<rparr>, k'))"

definition check_all_containers ::
    "registry_env \<Rightarrow> time \<Rightarrow> string set option \<Rightarrow> image_container list \<Rightarrow> update_checker \<Rightarrow> check_stats \<times> update_checker" where
  "check_all_containers env now host_ids containers k =
     (let cs = (case host_ids of None \<Rightarrow> containers | Some hs \<Rightarrow> filter (\<lambda>c. ic_host_id c \<in> hs) containers)
      in fold (check_next env now (get_ignore_patterns (ck_policies k))) cs
           (\<lparr>st_total = length cs, st_checked = 0, st_updates_found = 0, st_errors = 0\<rparr>, k))"

definition check_single_container ::
    "registry_env \<Rightarrow> time \<Rightarrow> bool \<Rightarrow> string \<Rightarrow> string \<Rightarrow> image_container list \<Rightarrow> update_checker \<Rightarrow> check_result option \<times> update_checker" where
  "check_single_container env now bypass_cache host_id container_id containers k =
     (case find (\<lambda>c. ic_host_id c = host_id \<and> (take 12 (ic_id c) = take 12 container_id \<or> ic_id c = container_id)) containers of
        None \<Rightarrow> (Some NoResult, k)
      | Some c \<Rightarrow> check_and_store env now bypass_cache c k)"

definition set_container_auto_update ::
    "string \<Rightarrow> bool \<Rightarrow> string \<Rightarrow> string option \<Rightarrow> update_row list \<Rightarrow> update_row list" where
  "set_container_auto_update key enabled mode name rows =
     upsert_update key
       (\<lambda>r. r\<lparr>ur_auto_update_enabled := enabled, ur_floating_tag_mode := mode,
              ur_container_name := (if set_text name then name else ur_container_name r)\<rparr>)
       \<lparr>ur_container_id = key,
        ur_host_id = (if CHR '':'' \<in> set key then takeWhile (\<lambda>c. c \<noteq> CHR '':'') key else []),
        ur_container_name = name, ur_current_image = [], ur_current_digest = [], ur_latest_image = None,
        ur_latest_digest = None, ur_update_available = False, ur_check_status = None, ur_current_version = None,
        ur_latest_version = None, ur_floating_tag_mode = mode, ur_auto_update_enabled = enabled, ur_update_policy = None,
        ur_last_checked_at = None, ur_last_updated_at = None, ur_registry_url = None, ur_platform = None,
        ur_changelog_url = None, ur_changelog_source = None, ur_changelog_checked_at = None\<rparr>
       rows"

end
