(* ===== verification/UpdateCheckLaws.thy ===== *)
theory UpdateCheckLaws
  imports UpdateChecks
begin

text \<open>
  What the update check guarantees: an offered update has another digest and no lower version, a release is
  announced once, and - against its purpose - the floating modes offer nothing to images without version labels.
\<close>

section \<open>Rows\<close>

lemma find_update_Some: "find_update key rows = Some r \<Longrightarrow> r \<in> set rows \<and> ur_container_id r = key"
  by (auto simp: find_update_def dest: find_SomeD)

lemma find_update_map:
  assumes "\<And>r. ur_container_id (f r) = ur_container_id r"
  shows "find_update key (map (\<lambda>r. if ur_container_id r = k then f r else r) rows) =
    map_option (\<lambda>r. if ur_container_id r = k then f r else r) (find_update key rows)"
  unfolding find_update_def by (induction rows) (auto simp: assms)

lemma find_update_upsert:
  assumes "\<And>r. ur_container_id (f r) = ur_container_id r" and "ur_container_id fresh = key"
  shows "find_update key (upsert_update key f fresh rows) =
    Some (case find_update key rows of None \<Rightarrow> fresh | Some r \<Rightarrow> f r)"
proof (cases "find_update key rows")
  case None
  with assms show ?thesis by (simp add: upsert_update_def find_update_def find_append)
next
  case (Some r)
  with find_update_Some [OF this] show ?thesis
    by (simp add: upsert_update_def find_update_map assms(1))
qed

lemma stored_fields [simp]:
  "ur_container_id (apply_update_info now c ui r) = ur_container_id r"
  "ur_container_id (apply_marker now c r) = ur_container_id r"
  "ur_container_id (blank_row key c) = key"
  "ur_floating_tag_mode (apply_update_info now c ui r) = ur_floating_tag_mode r"
  "ur_latest_digest (apply_update_info now c ui r) = Some (ui_latest_digest ui)"
  by (simp_all add: apply_update_info_def apply_marker_def blank_row_def)

lemma list_all_upsert:
  assumes "list_all P rows" and "P fresh" and "\<And>r. P r \<Longrightarrow> P (f r)"
  shows "list_all P (upsert_update key f fresh rows)"
  using assms by (auto simp: upsert_update_def list_all_iff)

section \<open>Offers\<close>

text \<open>A row that offers an update has been checked against a registry, which knows another digest and no older version.\<close>

definition offer_ok :: "update_row \<Rightarrow> bool" where
  "offer_ok r = (ur_update_available r \<longrightarrow>
     (case (ur_latest_image r, ur_latest_digest r) of
        (Some img, Some digest) \<Rightarrow> ur_check_status r = None \<and> digest \<noteq> ur_current_digest r
          \<and> \<not> would_downgrade (ur_current_image r) (ur_current_version r) img (ur_latest_version r)
      | _ \<Rightarrow> False))"

definition offers_ok :: "update_checker \<Rightarrow> bool" where
  "offers_ok k = list_all offer_ok (ck_updates k)"

text \<open>How a check comes to a comparison.\<close>

lemma check_Checked:
  assumes "check_container_update env now b key c rows cache = (Inr (Checked ui), cache')"
  obtains current c' latest reg mf where
    "current_digest_of env c = (Inr (Some current), c')"
    "fst (latest_of env now b (compute_floating_tag (ic_image c) (get_tracking_mode key rows)) (ui_platform ui) cache) = Found latest reg mf"
    "ui_current_image ui = ic_image c" "ui_current_digest ui = current" "ui_latest_digest ui = latest"
    "ui_latest_image ui = compute_floating_tag (ic_image c) (get_tracking_mode key rows)"
    "ui_floating_tag_mode ui = get_tracking_mode key rows"
    "ui_update_available ui = update_offered env c' current latest mf (ui_latest_image ui) (ui_platform ui)"
    "(ui_current_version ui, ui_latest_version ui) = versions_of env c' (ui_latest_image ui) mf"
  using assms unfolding check_container_update_def local_or_none_def Let_def
  by (auto split: if_splits prod.splits sum.splits option.splits resolution.splits)

lemma current_digest_image: "current_digest_of env c = (r, c') \<Longrightarrow> ic_image c' = ic_image c"
  by (auto simp: current_digest_of_def get_container_image_digest_def split: option.splits prod.splits if_splits resolution.splits)

lemma check_offer:
  assumes "check_container_update env now b key c rows cache = (Inr (Checked ui), cache')" and "ui_update_available ui"
  shows "ui_latest_digest ui \<noteq> ui_current_digest ui
    \<and> \<not> would_downgrade (ui_current_image ui) (ui_current_version ui) (ui_latest_image ui) (ui_latest_version ui)"
proof -
  have differ: "x \<noteq> y" if "digests_differ d x y mf p" for d x y mf p
    using that by (auto simp: digests_differ_def split: if_splits option.splits)
  from assms(1) show ?thesis
  proof (rule check_Checked)
    fix current c' latest reg mf
    assume cur: "current_digest_of env c = (Inr (Some current), c')"
      and f: "ui_current_image ui = ic_image c" "ui_current_digest ui = current" "ui_latest_digest ui = latest"
      and o: "ui_update_available ui = update_offered env c' current latest mf (ui_latest_image ui) (ui_platform ui)"
      and v: "(ui_current_version ui, ui_latest_version ui) = versions_of env c' (ui_latest_image ui) mf"
    from v have "ui_current_version ui = fst (versions_of env c' (ui_latest_image ui) mf)"
      "ui_latest_version ui = snd (versions_of env c' (ui_latest_image ui) mf)" by (metis fst_conv, metis snd_conv)
    with f o assms(2) current_digest_image [OF cur] show ?thesis
      by (auto simp: update_offered_def dest: differ)
  qed
qed

lemma stored_offer:
  assumes "check_container_update env now b key c rows cache = (Inr (Checked ui), cache')"
  shows "offer_ok (apply_update_info now c ui r)"
  using check_offer [OF assms] by (auto simp: offer_ok_def apply_update_info_def)

lemma offer_ok_renamed [simp]:
  "offer_ok (r\<lparr>ur_container_name := n\<rparr>) = offer_ok r"
  "offer_ok (r\<lparr>ur_floating_tag_mode := mode\<rparr>) = offer_ok r"
  "offer_ok (r\<lparr>ur_auto_update_enabled := e\<rparr>) = offer_ok r"
  by (simp_all add: offer_ok_def split: option.splits)

lemma not_offered: "\<not> ur_update_available r \<Longrightarrow> offer_ok r"
  by (simp add: offer_ok_def)

lemma check_and_store_offers:
  assumes "offers_ok k"
  shows "offers_ok (snd (check_and_store env now b c k))"
proof (cases "make_composite_key (ic_host_id c) (normalize_container_id (ic_id c))")
  case (Inr key)
  obtain res cache where res: "check_container_update env now b key c (ck_updates k) (ck_cache k) = (res, cache)" by fastforce
  show ?thesis
  proof (cases res)
    case (Inr cr)
    have "list_all offer_ok (store_local_image_info now key c (ck_updates k))"
      unfolding store_local_image_info_def
      by (rule list_all_upsert) (use assms in \<open>simp_all add: offers_ok_def not_offered apply_marker_def blank_row_def\<close>)
    moreover have "list_all offer_ok (store_update_info now key c ui (ck_updates k))" if "cr = Checked ui" for ui
      unfolding store_update_info_def
      by (rule list_all_upsert) (use assms res Inr that in \<open>simp_all add: offers_ok_def stored_offer\<close>)
    ultimately show ?thesis using \<open>make_composite_key _ _ = Inr key\<close> Inr res assms
      by (auto simp: check_and_store_def offers_ok_def create_update_event_def Let_def split: check_result.splits)
  qed (use \<open>make_composite_key _ _ = Inr key\<close> res assms in \<open>simp add: check_and_store_def offers_ok_def\<close>)
qed (use assms in \<open>auto simp: check_and_store_def\<close>)

lemma check_next_offers: "offers_ok (snd sk) \<Longrightarrow> offers_ok (snd (check_next env now patterns c sk))"
  using check_and_store_offers [of "snd sk" env now False c]
  by (auto simp: check_next_def split: prod.splits option.splits check_result.splits)

lemma check_all_offers: "offers_ok k \<Longrightarrow> offers_ok (snd (check_all_containers env now hs cs k))"
proof -
  have "offers_ok (snd (fold (check_next env now patterns) cs sk))" if "offers_ok (snd sk)" for patterns cs sk
    using that by (induction cs arbitrary: sk) (auto simp: check_next_offers)
  then show "offers_ok k \<Longrightarrow> offers_ok (snd (check_all_containers env now hs cs k))"
    by (simp add: check_all_containers_def Let_def)
qed

datatype check_event =
    CheckAll registry_env time "string set option" "image_container list"
  | CheckOne registry_env time bool string string "image_container list"
  | SetAutoUpdate string bool string "string option"
  | CleanCache time

fun check_step :: "update_checker \<Rightarrow> check_event \<Rightarrow> update_checker" where
  "check_step k (CheckAll env now hs cs) = snd (check_all_containers env now hs cs k)"
| "check_step k (CheckOne env now b h i cs) = snd (check_single_container env now b h i cs k)"
| "check_step k (SetAutoUpdate key enabled mode name) = k\<lparr>ck_updates := set_container_auto_update key enabled mode name (ck_updates k)\<rparr>"
| "check_step k (CleanCache now) = k\<lparr>ck_cache := snd (cleanup_expired_image_cache now (ck_cache k))\<rparr>"

interpretation checks: machine check_step offers_ok
proof unfold_locales
  fix k e assume ok: "offers_ok k"
  show "offers_ok (check_step k e)"
  proof (cases e)
    case (CheckOne env now b h i cs)
    then show ?thesis using ok
      by (auto simp: check_single_container_def check_and_store_offers split: option.splits)
  next
    case (SetAutoUpdate key enabled mode name)
    have "list_all offer_ok (set_container_auto_update key enabled mode name (ck_updates k))"
      unfolding set_container_auto_update_def
      by (rule list_all_upsert) (use ok in \<open>simp_all add: offers_ok_def not_offered\<close>)
    with SetAutoUpdate show ?thesis by (simp add: offers_ok_def)
  qed (use ok in \<open>simp_all add: check_all_offers\<close>, simp add: offers_ok_def)
qed



section \<open>Floating tags\<close>

definition number :: "string \<Rightarrow> bool" where
  "number d = (d \<noteq> [] \<and> list_all is_dec d)"

lemma number_takeWhile:
  assumes "number d" and "s = [] \<or> \<not> is_dec (hd s)"
  shows "takeWhile is_dec (d @ s) = d \<and> dropWhile is_dec (d @ s) = s"
proof -
  have "takeWhile is_dec (d @ s) = d @ takeWhile is_dec s" "dropWhile is_dec (d @ s) = dropWhile is_dec s"
    using assms(1) by (simp_all add: number_def list_all_iff takeWhile_append2 dropWhile_append2)
  with assms(2) show ?thesis by (cases s) auto
qed

lemma number_parts [simp]:
  assumes "number d"
  shows "takeWhile is_dec d = d" "dropWhile is_dec d = []" "d \<noteq> []"
    "takeWhile is_dec (d @ CHR ''.'' # s) = d" "dropWhile is_dec (d @ CHR ''.'' # s) = CHR ''.'' # s"
  using number_takeWhile [OF assms, of "[]"] number_takeWhile [OF assms, of "CHR ''.'' # s"] assms
  by (simp_all add: is_dec_def ccode_def number_def)

lemma number_chars:
  assumes "number d"
  shows "CHR '':'' \<notin> set d" "\<not> starts_with (d @ s) ''v''" "dec_val d \<ge> 0"
  using assms by (auto simp: number_def list_all_iff starts_with_def is_dec_def ccode_def Cons_eq_append_conv neq_Nil_conv
      intro!: dec_val_nonneg)

lemma dot_number_parts [simp]:
  "number d \<Longrightarrow> dot_number (CHR ''.'' # d) = Some (d, [])"
  "number d \<Longrightarrow> dot_number (CHR ''.'' # d @ CHR ''.'' # s) = Some (d, CHR ''.'' # s)"
  "dot_number [] = None"
  by (simp_all add: dot_number_def)

text \<open>The version of a tag of one, two and three numbers.\<close>

lemma version_parts:
  assumes "number a" "number b" "number c"
  shows "match_version a = Some (a, None, None, [])"
    "match_version (a @ CHR ''.'' # b) = Some (a, Some b, None, [])"
    "match_version (a @ CHR ''.'' # b @ CHR ''.'' # c) = Some (a, Some b, Some c, [])"
  using assms number_chars(2) [OF assms(1), of "[]"] number_chars(2) [OF assms(1)]
  by (simp_all add: match_version_def drop_v_def opt_dot_number_def Let_def)

lemma dot_numbers_parts:
  assumes "number b" "number c"
  shows "dot_numbers (CHR ''.'' # b) = CHR ''.'' # b" "dot_numbers (CHR ''.'' # b @ CHR ''.'' # c) = CHR ''.'' # b @ CHR ''.'' # c"
    "dot_numbers [] = []"
  using assms by (simp_all add: dot_numbers.simps)

lemma version_chars:
  assumes "number a" "number b" "number c"
  shows "CHR '':'' \<notin> set (a @ CHR ''.'' # b @ CHR ''.'' # c)" "CHR '':'' \<notin> set (a @ CHR ''.'' # b)" "CHR '':'' \<notin> set a"
  using assms by (auto simp: number_chars(1))

text \<open>
  An image \<open>repo:a.b.c\<close> whose labels name no version: the floating tag of the patch mode reads as the version
  \<open>a.b.0\<close> and that of the minor mode as \<open>a.0.0\<close>.
\<close>

lemma floating_versions:
  fixes repo :: string
  assumes n: "number a" "number b" "number c"
  defines "ref \<equiv> repo @ CHR '':'' # a @ CHR ''.'' # b @ CHR ''.'' # c"
  shows "would_downgrade ref (extract_version_from_tag ref) (compute_floating_tag ref ''patch'')
      (extract_version_from_tag (compute_floating_tag ref ''patch'')) \<longleftrightarrow> 0 < dec_val c"
    "would_downgrade ref (extract_version_from_tag ref) (compute_floating_tag ref ''minor'')
      (extract_version_from_tag (compute_floating_tag ref ''minor'')) \<longleftrightarrow> 0 < dec_val b \<or> 0 < dec_val c"
proof -
  note chars = version_chars [OF n] and val = number_chars(3) [OF n(1)] number_chars(3) [OF n(2)] number_chars(3) [OF n(3)]
  have v: "\<not> starts_with (a @ s) ''v''" for s using number_chars(2) [OF n(1)] .
  have ext: "extract_version_from_tag ref = Some (a @ CHR ''.'' # b @ CHR ''.'' # c)"
    using n chars v by (simp add: ref_def extract_version_from_tag_def split_last_append Let_def drop_v_def dot_numbers_parts)
  have patch: "compute_floating_tag ref ''patch'' = repo @ CHR '':'' # a @ CHR ''.'' # b"
    and minor: "compute_floating_tag ref ''minor'' = repo @ CHR '':'' # a"
    using n chars by (simp_all add: ref_def compute_floating_tag_def Let_def tracking_of_def split_last_append version_parts line_end_def)
  have ext': "extract_version_from_tag (repo @ CHR '':'' # a @ CHR ''.'' # b) = Some (a @ CHR ''.'' # b)"
    "extract_version_from_tag (repo @ CHR '':'' # a) = None"
    using n chars v v [of "[]"] by (simp_all add: extract_version_from_tag_def split_last_append Let_def drop_v_def dot_numbers_parts)
  have "split_last (CHR '':'') s = None" if "CHR '':'' \<notin> set s" for s
    using that by (simp add: split_last_None_iff)
  then have parse: "parse_version_from_tag (a @ CHR ''.'' # b @ CHR ''.'' # c) = Some (dec_val a, dec_val b, dec_val c)"
    "parse_version_from_tag (a @ CHR ''.'' # b) = Some (dec_val a, dec_val b, 0)"
    "parse_version_from_tag (repo @ CHR '':'' # a) = Some (dec_val a, 0, 0)"
    using n chars by (simp_all add: parse_version_from_tag_def Let_def version_parts split_last_append)
  show "would_downgrade ref (extract_version_from_tag ref) (compute_floating_tag ref ''patch'')
      (extract_version_from_tag (compute_floating_tag ref ''patch'')) \<longleftrightarrow> 0 < dec_val c"
    by (simp add: would_downgrade_def ext patch ext' parse text_or_def set_text_def is_downgrade_def)
  show "would_downgrade ref (extract_version_from_tag ref) (compute_floating_tag ref ''minor'')
      (extract_version_from_tag (compute_floating_tag ref ''minor'')) \<longleftrightarrow> 0 < dec_val b \<or> 0 < dec_val c"
    using val by (auto simp: would_downgrade_def ext minor ext' parse text_or_def set_text_def is_downgrade_def)
qed


section \<open>One announcement\<close>

lemma local_result_fixed:
  assumes "check_container_update env now True key c rows cache = (Inr LocalImage, cache')"
  shows "(\<exists>c'. current_digest_of env c = (Inr None, c'))
    \<or> en_resolve env (compute_floating_tag (ic_image c) (get_tracking_mode key rows)) = Missing"
  using assms
  by (auto simp: check_container_update_def latest_of_def local_or_none_def Let_def split: if_splits prod.splits sum.splits
      option.splits resolution.splits)

lemma stored_mode:
  "get_tracking_mode key (store_update_info now key c ui rows) = (if find_update key rows = None then ui_floating_tag_mode ui else get_tracking_mode key rows)"
  "get_tracking_mode key (store_local_image_info now key c rows) = get_tracking_mode key rows"
  "get_previous_digest key (store_update_info now key c ui rows) = Some (ui_latest_digest ui)"
  by (auto simp: get_tracking_mode_def get_previous_digest_def store_update_info_def store_local_image_info_def find_update_upsert
      apply_update_info_def apply_marker_def blank_row_def split: option.splits)


lemma latest_bypassing: "fst (latest_of env now True floating_tag platform cache) = en_resolve env floating_tag"
  by (simp add: latest_of_def split: resolution.splits)

text \<open>Whoever has been announced is stored, and stays what the registry answers.\<close>

definition announced :: "registry_env \<Rightarrow> image_container \<Rightarrow> string \<Rightarrow> string \<Rightarrow> nat \<Rightarrow> update_checker \<Rightarrow> bool" where
  "announced env c key mode n k = (get_tracking_mode key (ck_updates k) = mode \<and> length (ck_events k) \<le> Suc n
     \<and> (length (ck_events k) = Suc n \<longrightarrow>
          (\<exists>d c' digest reg mf. current_digest_of env c = (Inr (Some d), c')
             \<and> en_resolve env (compute_floating_tag (ic_image c) mode) = Found digest reg mf
             \<and> get_previous_digest key (ck_updates k) = Some digest)))"

lemma announced_check:
  assumes key: "make_composite_key (ic_host_id c) (normalize_container_id (ic_id c)) = Inr key"
    and q: "announced env c key mode n k"
  shows "announced env c key mode n (snd (check_and_store env now True c k))"
proof -
  obtain res cache where res: "check_container_update env now True key c (ck_updates k) (ck_cache k) = (res, cache)" by fastforce
  have mode: "get_tracking_mode key (ck_updates k) = mode" using q by (simp add: announced_def)
  show ?thesis
  proof (cases res)
    case (Inr cr)
    show ?thesis
    proof (cases cr)
      case LocalImage
      with local_result_fixed res Inr q mode have "length (ck_events k) \<noteq> Suc n"
        by (fastforce simp: announced_def)
      with q LocalImage Inr res key show ?thesis
        by (simp add: check_and_store_def announced_def stored_mode)
    next
      case (Checked ui)
      from res Inr Checked have "check_container_update env now True key c (ck_updates k) (ck_cache k) = (Inr (Checked ui), cache)"
        by simp
      then show ?thesis
      proof (rule check_Checked)
        fix current c' latest reg mf
        assume cur: "current_digest_of env c = (Inr (Some current), c')"
          and found: "fst (latest_of env now True (compute_floating_tag (ic_image c) (get_tracking_mode key (ck_updates k)))
              (ui_platform ui) (ck_cache k)) = Found latest reg mf"
          and ui: "ui_latest_digest ui = latest" "ui_floating_tag_mode ui = get_tracking_mode key (ck_updates k)"
        from found have found: "en_resolve env (compute_floating_tag (ic_image c) mode) = Found latest reg mf"
          by (simp add: latest_bypassing mode)
        have same: "length (ck_events k) = Suc n \<Longrightarrow> get_previous_digest key (ck_updates k) = Some latest"
          using q found by (auto simp: announced_def)
        have "get_tracking_mode key (store_update_info now key c ui (ck_updates k)) = mode"
          using mode ui by (simp add: stored_mode)
        with Checked Inr res key cur found ui(1) same q show ?thesis
          by (auto simp: check_and_store_def announced_def create_update_event_def stored_mode Let_def le_Suc_eq)
      qed
    qed (use q Inr res key in \<open>simp add: check_and_store_def announced_def\<close>)
  qed (use q res key in \<open>simp add: check_and_store_def announced_def\<close>)
qed


section \<open>Concrete checks\<close>

definition demo_manifest :: manifest where
  "demo_manifest = \<lparr>mf_media_type = ''application/vnd.oci.image.index.v1+json'', mf_manifests = [], mf_labels = []\<rparr>"

definition demo_registry_env :: registry_env where
  "demo_registry_env = \<lparr>en_resolve = (\<lambda>ref. Found ''sha256:new'' ''docker.io'' demo_manifest), en_docker_digests = (\<lambda>c. None),
     en_docker_version = (\<lambda>c. None), en_page_exists = (\<lambda>u. False), en_ttls = default_ttls\<rparr>"

definition demo_container :: "string \<Rightarrow> image_container" where
  "demo_container img = \<lparr>ic_host_id = ''h1'', ic_id = ''0123456789ab'', ic_name = ''web'', ic_image = img, ic_platform = None,
     ic_labels = [], ic_repo_digests = Some [''nginx@sha256:old'']\<rparr>"

definition demo_checker :: update_checker where
  "demo_checker = \<lparr>ck_updates = [], ck_cache = [], ck_policies = [], ck_skip_compose = True, ck_events = []\<rparr>"



text \<open>A fourth number of a tag survives as if it were the next one, and a port is taken for a tag.\<close>

lemma floating_tag_of_four_numbers: "compute_floating_tag ''app:4.0.9.2244'' ''minor'' = ''app:4.2244''"
  by code_simp

lemma floating_tag_of_port: "compute_floating_tag ''reg:5000/app'' ''latest'' = ''reg:latest''"
  by code_simp

lemma floating_tag_drops_v: "compute_floating_tag ''traefik:v2.10.5'' ''patch'' = ''traefik:2.10''"
  by code_simp

end
