(* ===== verification/UpdateRuns.thy ===== *)
theory UpdateRuns
  imports UpdateChecks AgentRegistry
begin

text \<open>
  Running an update (\<open>backend/updates/update_executor.py\<close>, \<open>agent_executor.py\<close>): the policy check
  (\<open>container_validator.py\<close>), the updates that wait for an agent (\<open>pending_updates.py\<close>), the events
  (\<open>event_emitter.py\<close>) and the move of the settings to the new container (\<open>database_updater.py\<close>). An
  update is cut where it waits: it begins, the container is replaced elsewhere, and it ends with what came back.
\<close>

section \<open>The policy check\<close>

datatype verdict = ALLOW | WARN | BLOCK | IGNORE

definition verdict_of :: "string \<Rightarrow> verdict option" where
  "verdict_of s =
     (if s = ''allow'' then Some ALLOW else if s = ''warn'' then Some WARN
      else if s = ''block'' then Some BLOCK else if s = ''ignore'' then Some IGNORE else None)"

definition LABEL_KEY :: string where
  "LABEL_KEY = ''com.dockmon.update.policy''"

definition is_dockmon_self :: "string \<Rightarrow> bool" where
  "is_dockmon_self name =
     (let n = py_lower name in n = ''dockmon'' \<or> starts_with n ''dockmon-'' \<and> \<not> contains ''agent'' n)"

text \<open>A label or a setting counts when it is one of the three policies.\<close>

definition policy_value :: "string option \<Rightarrow> verdict option" where
  "policy_value s = (case s of
      None \<Rightarrow> None
    | Some v \<Rightarrow> if py_lower v \<in> {''allow'', ''warn'', ''block''} then verdict_of (py_lower v) else None)"

definition pattern_verdict :: "policy_row \<Rightarrow> verdict" where
  "pattern_verdict p =
     (let action = (if pr_action p = [] then ''warn'' else pr_action p)
      in case verdict_of (py_lower action) of None \<Rightarrow> WARN | Some v \<Rightarrow> v)"

definition pattern_matches :: "string \<Rightarrow> string \<Rightarrow> policy_row \<Rightarrow> bool" where
  "pattern_matches name img p =
     (contains (py_lower (pr_pattern p)) (py_lower name)
      \<or> contains (py_lower (pr_pattern p)) (py_lower (extract_image_repository (Some img))))"

definition validate_update ::
    "policy_row list \<Rightarrow> update_row option \<Rightarrow> string \<Rightarrow> string \<Rightarrow> (string, string) pydict \<Rightarrow> verdict" where
  "validate_update policies row name img labels =
     (if is_dockmon_self name then BLOCK
      else case policy_value (dget labels LABEL_KEY) of
          Some v \<Rightarrow> v
        | None \<Rightarrow>
            (case policy_value (Option.bind row ur_update_policy) of
               Some v \<Rightarrow> v
             | None \<Rightarrow>
                 (case find (pattern_matches name img) (filter pr_enabled policies) of
                    Some p \<Rightarrow> pattern_verdict p
                  | None \<Rightarrow> ALLOW)))"

section \<open>The tables\<close>

text \<open>Restart and desired-state settings are keyed by the short id, the others by the composite key.\<close>

record container_tables =
  ct_updates :: "update_row list"
  ct_auto_restart :: "setting_row list"
  ct_desired :: "setting_row list"
  ct_health :: "setting_row list"
  ct_metadata :: "setting_row list"
  ct_tags :: "tag_row list"

definition rekey :: "(setting_row \<Rightarrow> bool) \<Rightarrow> string \<Rightarrow> setting_row list \<Rightarrow> setting_row list" where
  "rekey P new rows = map (\<lambda>r. if P r then r\<lparr>s_key := new\<rparr> else r) rows"

definition short_row :: "string \<Rightarrow> string \<Rightarrow> setting_row \<Rightarrow> bool" where
  "short_row host_id container_id r = (s_host r = host_id \<and> s_key r = container_id)"

definition tag_of_container :: "string \<Rightarrow> tag_row \<Rightarrow> bool" where
  "tag_of_container key t = (tg_subject_type t = ''container'' \<and> tg_subject_id t = key)"

definition move_update_row :: "time \<Rightarrow> string \<Rightarrow> string \<Rightarrow> string \<Rightarrow> string \<Rightarrow> update_row list \<Rightarrow> update_row list" where
  "move_update_row now old_key new_key new_image new_digest rows =
     (if find_update old_key rows = None then rows
      else map (\<lambda>r. if ur_container_id r = old_key
             then r\<lparr>ur_container_id := new_key, ur_update_available := False, ur_current_image := new_image,
                    ur_current_digest := new_digest, ur_last_updated_at := Some now\<rparr> else r)
           (filter (\<lambda>r. ur_container_id r \<noteq> new_key) rows))"

definition move_tags :: "string \<Rightarrow> string \<Rightarrow> tag_row list \<Rightarrow> tag_row list" where
  "move_tags old_key new_key tags =
     (if list_ex (tag_of_container new_key) tags then filter (\<lambda>t. \<not> tag_of_container old_key t) tags
      else map (\<lambda>t. if tag_of_container old_key t then t\<lparr>tg_subject_id := new_key\<rparr> else t) tags)"

text \<open>The unique keys that the statements meet; breaking one undoes the whole transaction.\<close>

definition tables_unique :: "container_tables \<Rightarrow> bool" where
  "tables_unique t =
     (distinct (map ur_container_id (ct_updates t)) \<and> distinct (map s_key (ct_health t)) \<and> distinct (map s_key (ct_metadata t))
      \<and> distinct (map (\<lambda>t. (tg_tag_id t, tg_subject_type t, tg_subject_id t)) (ct_tags t)))"

definition update_container_records_after_update ::
    "time \<Rightarrow> string \<Rightarrow> string \<Rightarrow> string \<Rightarrow> string \<Rightarrow> string \<Rightarrow> container_tables \<Rightarrow> (key_error, bool \<times> container_tables) res" where
  "update_container_records_after_update now host_id old_id new_id new_image new_digest t =
     res_bind (make_composite_key host_id old_id) (\<lambda>old_key.
     res_bind (make_composite_key host_id new_id) (\<lambda>new_key.
       let t' = t\<lparr>ct_updates := move_update_row now old_key new_key new_image new_digest (ct_updates t),
             ct_auto_restart := rekey (short_row host_id old_id) new_id (ct_auto_restart t),
             ct_desired := rekey (short_row host_id old_id) new_id (ct_desired t),
             ct_health := rekey (\<lambda>r. s_key r = old_key) new_key (ct_health t),
             ct_metadata := rekey (\<lambda>r. s_key r = old_key) new_key (ct_metadata t),
             ct_tags := move_tags old_key new_key (ct_tags t)\<rparr>
       in Inr (if tables_unique t' then (True, t') else (False, t))))"

section \<open>Updates that wait for an agent\<close>

record pending_update =
  pu_container_id :: string
  pu_host_id :: string
  pu_completed :: bool
  pu_new_container_id :: "string option"
  pu_success :: bool

type_synonym pending_updates = "(string, pending_update) pydict"

definition pending_key :: "string \<Rightarrow> string \<Rightarrow> string" where
  "pending_key host_id container_id = host_id @ '':'' @ take 12 container_id"

definition register_pending :: "string \<Rightarrow> string \<Rightarrow> pending_updates \<Rightarrow> pending_updates" where
  "register_pending host_id container_id ps =
     dset (pending_key host_id container_id) \<lparr>pu_container_id = take 12 container_id, pu_host_id = host_id,
       pu_completed = False, pu_new_container_id = None, pu_success = False\<rparr> ps"

definition signal_complete :: "string \<Rightarrow> string \<Rightarrow> string \<Rightarrow> bool \<Rightarrow> pending_updates \<Rightarrow> bool \<times> pending_updates" where
  "signal_complete host_id old_id new_id success ps =
     (case dget ps (pending_key host_id old_id) of
        None \<Rightarrow> (False, ps)
      | Some p \<Rightarrow> (True, dset (pending_key host_id old_id)
          (p\<lparr>pu_new_container_id := (if new_id = [] then None else Some (take 12 new_id)), pu_success := success,
             pu_completed := True\<rparr>) ps))"

definition unregister_pending :: "string \<Rightarrow> string \<Rightarrow> pending_updates \<Rightarrow> pending_updates" where
  "unregister_pending host_id container_id ps = ddel (pending_key host_id container_id) ps"

section \<open>The executor\<close>

datatype upd_event =
    UPDATE_STARTED string string
  | UPDATE_COMPLETED string
  | UPDATE_FAILED string
  | UPDATE_SKIPPED_VALIDATION string
  | ROLLBACK_COMPLETED string

record update_job =
  jb_host_id :: string
  jb_container_id :: string
  jb_name :: string
  jb_record :: update_row
  jb_agent :: bool
  jb_force :: bool

record updater =
  up_tables :: container_tables
  up_policies :: "policy_row list"
  up_connection :: "(string, string) pydict" \<comment> \<open>host id to connection type\<close>
  up_updating :: "string list"
  up_jobs :: "(string, update_job) pydict"
  up_pending :: pending_updates
  up_events :: "upd_event list"

text \<open>The emitter drops an event whose key cannot be made.\<close>

definition emit_update :: "(string \<Rightarrow> upd_event) \<Rightarrow> string \<Rightarrow> string \<Rightarrow> updater \<Rightarrow> updater" where
  "emit_update ev host_id container_id u =
     (case make_composite_key host_id container_id of
        Inl e \<Rightarrow> u
      | Inr key \<Rightarrow> u\<lparr>up_events := up_events u @ [ev key]\<rparr>)"

definition begin_job :: "string \<Rightarrow> update_job \<Rightarrow> updater \<Rightarrow> updater" where
  "begin_job key job u =
     u\<lparr>up_jobs := dset key job (up_jobs u),
       up_pending := (if jb_agent job then register_pending (jb_host_id job) (jb_container_id job) (up_pending u) else up_pending u)\<rparr>"

text \<open>What the monitor and the Docker client know of the container when the update begins.\<close>

record container_view =
  cv_name :: "string option"
  cv_client :: bool
  cv_labels :: "(string, string) pydict option" \<comment> \<open>\<open>None\<close>: not found\<close>
  cv_agent :: bool \<comment> \<open>an agent is registered for the host and takes the command\<close>

definition release :: "string \<Rightarrow> updater \<Rightarrow> updater" where
  "release key u = u\<lparr>up_updating := remove1 key (up_updating u), up_jobs := ddel key (up_jobs u)\<rparr>"

definition fail_update :: "string \<Rightarrow> string \<Rightarrow> string \<Rightarrow> updater \<Rightarrow> updater" where
  "fail_update key host_id container_id u = release key (emit_update UPDATE_FAILED host_id container_id u)"

definition is_agent_host :: "string \<Rightarrow> updater \<Rightarrow> bool" where
  "is_agent_host host_id u = (dget (up_connection u) host_id = Some ''agent'')"

definition begin_docker_update ::
    "string \<Rightarrow> container_view \<Rightarrow> update_job \<Rightarrow> bool \<Rightarrow> updater \<Rightarrow> updater" where
  "begin_docker_update key view job force_warn u =
     (let fail = fail_update key (jb_host_id job) (jb_container_id job);
          start = (\<lambda>job u. begin_job key job
            (emit_update (\<lambda>k. UPDATE_STARTED k (case ur_latest_image (jb_record job) of None \<Rightarrow> [] | Some i \<Rightarrow> i))
               (jb_host_id job) (jb_container_id job) u))
      in if \<not> cv_client view then fail u
         else if jb_force job then start job u
         else case cv_labels view of
             None \<Rightarrow> fail u
           | Some labels \<Rightarrow>
               let v = validate_update (up_policies u) (find_update key (ct_updates (up_tables u))) (jb_name job)
                     (ur_current_image (jb_record job)) labels
               in if v = BLOCK then fail u
                  else if v = WARN \<and> \<not> force_warn
                    then fail (emit_update UPDATE_SKIPPED_VALIDATION (jb_host_id job) (jb_container_id job) u)
                  else start job u)"

definition begin_agent_update :: "string \<Rightarrow> container_view \<Rightarrow> update_job \<Rightarrow> updater \<Rightarrow> updater" where
  "begin_agent_update key view job u =
     (let u' = emit_update (\<lambda>k. UPDATE_STARTED k (case ur_latest_image (jb_record job) of None \<Rightarrow> [] | Some i \<Rightarrow> i))
            (jb_host_id job) (jb_container_id job) u
      in if cv_agent view then begin_job key job u' else fail_update key (jb_host_id job) (jb_container_id job) u')"

definition begin_update ::
    "string \<Rightarrow> string \<Rightarrow> container_view \<Rightarrow> update_row \<Rightarrow> bool \<Rightarrow> bool \<Rightarrow> updater \<Rightarrow> updater" where
  "begin_update host_id container_id view row force_update force_warn u =
     (case make_composite_key host_id container_id of
        Inl e \<Rightarrow> u
      | Inr key \<Rightarrow>
          if key \<in> set (up_updating u) then u
          else
            let u = u\<lparr>up_updating := key # up_updating u\<rparr>;
                name = (case cv_name view of None \<Rightarrow> container_id | Some n \<Rightarrow> n);
                job = \<lparr>jb_host_id = host_id, jb_container_id = container_id, jb_name = name, jb_record = row,
                  jb_agent = is_agent_host host_id u, jb_force = force_update\<rparr>
            in if is_dockmon_self name then fail_update key host_id container_id u
               else if jb_agent job then begin_agent_update key view job u
               else begin_docker_update key view job force_warn u)"

text \<open>What the Go service answers.\<close>

record service_result =
  sr_success :: bool
  sr_new_id :: string
  sr_rolled_back :: bool

definition text_of :: "string option \<Rightarrow> string" where
  "text_of s = (case s of None \<Rightarrow> [] | Some t \<Rightarrow> t)"

text \<open>The settings move when the id changed; an exception on the way ends the update as a failure.\<close>

definition complete_update :: "time \<Rightarrow> string \<Rightarrow> update_job \<Rightarrow> string option \<Rightarrow> updater \<Rightarrow> updater" where
  "complete_update now key job new_id u =
     (let h = jb_host_id job; c = jb_container_id job; row = jb_record job;
          new = (case new_id of None \<Rightarrow> c | Some n \<Rightarrow> if n = [] then c else n);
          u1 = emit_update UPDATE_COMPLETED h new u
      in if new = c then release key u1
         else case update_container_records_after_update now h c new (text_of (ur_latest_image row))
                (text_of (ur_latest_digest row)) (up_tables u1) of
             Inl e \<Rightarrow> fail_update key h c u1
           | Inr (ok, t) \<Rightarrow> release key (u1\<lparr>up_tables := t\<rparr>))"

definition end_docker_update :: "time \<Rightarrow> string \<Rightarrow> service_result \<Rightarrow> updater \<Rightarrow> updater" where
  "end_docker_update now key r u =
     (case dget (up_jobs u) key of
        None \<Rightarrow> u
      | Some job \<Rightarrow>
          if jb_agent job then u
          else if sr_success r then complete_update now key job (Some (sr_new_id r)) u
          else let u1 = emit_update UPDATE_FAILED (jb_host_id job) (jb_container_id job) u
               in release key (if sr_rolled_back r then emit_update ROLLBACK_COMPLETED (jb_host_id job) (jb_container_id job) u1 else u1))"

text \<open>
  The agent's executor waits for the signal, falls back to the id found by name or to the old one, moves
  the settings itself, and reports to the router, which moves them again.
\<close>

definition end_agent_update :: "time \<Rightarrow> string \<Rightarrow> bool \<Rightarrow> string option \<Rightarrow> updater \<Rightarrow> updater" where
  "end_agent_update now key accepted polled u =
     (case dget (up_jobs u) key of
        None \<Rightarrow> u
      | Some job \<Rightarrow>
          if \<not> jb_agent job then u
          else
            let h = jb_host_id job; c = jb_container_id job; row = jb_record job;
                signal = dget (up_pending u) (pending_key h c);
                u1 = u\<lparr>up_pending := unregister_pending h c (up_pending u)\<rparr>
            in case signal of
                 Some p \<Rightarrow>
                   if accepted \<and> pu_completed p \<and> pu_success p
                   then
                     let new = (case pu_new_container_id p of Some n \<Rightarrow> n | None \<Rightarrow>
                           (case polled of Some n \<Rightarrow> take 12 n | None \<Rightarrow> c))
                     in (case update_container_records_after_update now h c new (text_of (ur_latest_image row))
                           (text_of (ur_latest_digest row)) (up_tables u1) of
                           Inl e \<Rightarrow> fail_update key h c u1
                         | Inr (ok, t) \<Rightarrow> complete_update now key job (Some new) (u1\<lparr>up_tables := t\<rparr>))
                   else fail_update key h c u1
               | None \<Rightarrow> fail_update key h c u1)"

text \<open>The agent's completion event, received by the socket's handler, which reports it on the event bus as well.\<close>

definition handle_update_complete :: "string \<Rightarrow> string \<Rightarrow> string \<Rightarrow> updater \<Rightarrow> updater" where
  "handle_update_complete host_id old_id new_id u =
     (let old = take 12 old_id; new = take 12 new_id;
          u1 = u\<lparr>up_pending := snd (signal_complete host_id old new True (up_pending u))\<rparr>
      in case (make_composite_key host_id new, make_composite_key host_id old) of
           (Inr k, Inr k') \<Rightarrow> u1\<lparr>up_events := up_events u1 @ [UPDATE_COMPLETED k]\<rparr>
         | _ \<Rightarrow> u1)"

datatype run_event =
    Begin string string container_view update_row bool bool
  | EndDocker time string service_result
  | Signal string string string
  | EndAgent time string bool "string option"

fun run_step :: "updater \<Rightarrow> run_event \<Rightarrow> updater" where
  "run_step u (Begin h c view row f w) = begin_update h c view row f w u"
| "run_step u (EndDocker now key r) = end_docker_update now key r u"
| "run_step u (Signal h old new) = handle_update_complete h old new u"
| "run_step u (EndAgent now key accepted polled) = end_agent_update now key accepted polled u"

section \<open>Automatic updates\<close>

definition auto_update_rows :: "update_row list \<Rightarrow> update_row list" where
  "auto_update_rows rows = filter (\<lambda>r. ur_auto_update_enabled r \<and> ur_update_available r) rows"

text \<open>The targets; a key without a colon raises before anything is updated.\<close>

definition auto_update_targets :: "update_row list \<Rightarrow> (string \<times> string) list option" where
  "auto_update_targets rows =
     (let keys = map (\<lambda>r. split_first (CHR '':'') (ur_container_id r)) (auto_update_rows rows)
      in if list_all (\<lambda>k. k \<noteq> None) keys then Some (map the keys) else None)"

end
