(* ===== verification/UpdateRunLaws.thy ===== *)
theory UpdateRunLaws
  imports UpdateRuns UpdateCheckLaws
begin

text \<open>
  What running updates guarantees: one update of a container at a time, no start against the policy of the
  container, and settings that follow it to its new id exactly once.
\<close>

section \<open>One at a time\<close>

definition job_of_key :: "string \<Rightarrow> update_job \<Rightarrow> bool" where
  "job_of_key key job = (make_composite_key (jb_host_id job) (jb_container_id job) = Inr key)"

definition runs_ok :: "updater \<Rightarrow> bool" where
  "runs_ok u = (distinct (up_updating u) \<and> set (up_updating u) = fst ` set (up_jobs u) \<and> wf_dict (up_jobs u)
     \<and> list_all (\<lambda>(key, job). job_of_key key job) (up_jobs u))"

lemma emit_update_fields [simp]:
  "up_updating (emit_update ev h c u) = up_updating u" "up_jobs (emit_update ev h c u) = up_jobs u"
  "up_tables (emit_update ev h c u) = up_tables u" "up_pending (emit_update ev h c u) = up_pending u"
  "up_policies (emit_update ev h c u) = up_policies u" "up_connection (emit_update ev h c u) = up_connection u"
  by (simp_all add: emit_update_def split: sum.splits)

lemma begin_job_fields [simp]:
  "up_updating (begin_job key job u) = up_updating u" "up_jobs (begin_job key job u) = dset key job (up_jobs u)"
  "up_tables (begin_job key job u) = up_tables u" "up_events (begin_job key job u) = up_events u"
  by (simp_all add: begin_job_def)

lemma release_fields [simp]:
  "up_updating (release key u) = remove1 key (up_updating u)" "up_jobs (release key u) = ddel key (up_jobs u)"
  "up_tables (release key u) = up_tables u" "up_events (release key u) = up_events u"
  by (simp_all add: release_def)

text \<open>Only the marks and the jobs matter.\<close>

lemma runs_ok_same: "runs_ok u \<Longrightarrow> up_updating u' = up_updating u \<Longrightarrow> up_jobs u' = up_jobs u \<Longrightarrow> runs_ok u'"
  by (simp add: runs_ok_def)

lemma runs_ok_release: "runs_ok u \<Longrightarrow> runs_ok (release key u)"
  by (auto simp: runs_ok_def list_all_iff set_remove1_eq dest: set_ddel)
     (auto simp: AList.delete_eq image_iff)

lemma runs_ok_begin:
  assumes "runs_ok u" and "key \<notin> set (up_updating u)" and "job_of_key key job"
    and "up_updating u' = key # up_updating u" and "up_jobs u' = dset key job (up_jobs u)"
  shows "runs_ok u'"
  using assms by (auto simp: runs_ok_def list_all_iff dom_update dest: set_dset)

text \<open>A refusal marks the container and releases it at once.\<close>

lemma runs_ok_refused:
  assumes "runs_ok u" and "key \<notin> set (up_updating u)" and "up_updating u' = key # up_updating u" and "up_jobs u' = up_jobs u"
  shows "runs_ok (release key u')"
proof -
  have "ddel key (up_jobs u') = up_jobs u"
    using assms by (simp add: runs_ok_def AList.delete_notin_dom)
  with assms show ?thesis by (simp add: runs_ok_def)
qed

lemma fail_update_fields [simp]:
  "up_updating (fail_update key h c u) = remove1 key (up_updating u)" "up_jobs (fail_update key h c u) = ddel key (up_jobs u)"
  "up_tables (fail_update key h c u) = up_tables u"
  by (simp_all add: fail_update_def)

lemma runs_ok_fail: "runs_ok u \<Longrightarrow> runs_ok (fail_update key h c u)"
  unfolding fail_update_def by (rule runs_ok_release) (erule runs_ok_same, simp_all)

lemma complete_update_marks:
  "up_updating (complete_update now key job new u) = remove1 key (up_updating u)"
  "up_jobs (complete_update now key job new u) = ddel key (up_jobs u)"
  by (simp_all add: complete_update_def Let_def split: sum.splits)

lemma runs_ok_complete: "runs_ok u \<Longrightarrow> runs_ok (complete_update now key job new u)"
  by (rule runs_ok_same [OF runs_ok_release [of u key]]) (simp_all add: complete_update_marks)

text \<open>How an update that is let in begins: it is refused at once or it runs.\<close>

lemma begin_update_cases:
  assumes "make_composite_key h c = Inr key" and "key \<notin> set (up_updating u)"
  shows "(\<exists>u'. begin_update h c view row f w u = fail_update key h c u'
        \<and> up_updating u' = key # up_updating u \<and> up_jobs u' = up_jobs u)
    \<or> (\<exists>job u'. begin_update h c view row f w u = begin_job key job u' \<and> job_of_key key job
        \<and> up_updating u' = key # up_updating u \<and> up_jobs u' = up_jobs u)"
proof -
  have d: "(\<exists>u'. begin_docker_update key view job w v = fail_update key h c u' \<and> up_updating u' = up_updating v \<and> up_jobs u' = up_jobs v)
    \<or> (\<exists>u'. begin_docker_update key view job w v = begin_job key job u' \<and> up_updating u' = up_updating v \<and> up_jobs u' = up_jobs v)"
    if "jb_host_id job = h" "jb_container_id job = c" for job v
    using that by (auto simp: begin_docker_update_def Let_def split: option.splits)
  have a: "(\<exists>u'. begin_agent_update key view job v = fail_update key h c u' \<and> up_updating u' = up_updating v \<and> up_jobs u' = up_jobs v)
    \<or> (\<exists>u'. begin_agent_update key view job v = begin_job key job u' \<and> up_updating u' = up_updating v \<and> up_jobs u' = up_jobs v)"
    if "jb_host_id job = h" "jb_container_id job = c" for job v
    using that by (auto simp: begin_agent_update_def Let_def)
  let ?u = "u\<lparr>up_updating := key # up_updating u\<rparr>"
  let ?job = "\<lparr>jb_host_id = h, jb_container_id = c, jb_name = (case cv_name view of None \<Rightarrow> c | Some n \<Rightarrow> n), jb_record = row,
      jb_agent = is_agent_host h ?u, jb_force = f\<rparr>"
  have eq: "begin_update h c view row f w u =
      (if is_dockmon_self (jb_name ?job) then fail_update key h c ?u
       else if is_agent_host h ?u then begin_agent_update key view ?job ?u else begin_docker_update key view ?job w ?u)"
    using assms by (simp add: begin_update_def Let_def)
  have j: "job_of_key key ?job" "jb_host_id ?job = h" "jb_container_id ?job = c" using assms(1) by (simp_all add: job_of_key_def)
  show ?thesis
  proof (cases "is_dockmon_self (jb_name ?job)")
    case True
    with eq show ?thesis by (intro disjI1 exI [of _ ?u]) simp
  next
    case False
    show ?thesis
    proof (cases "is_agent_host h ?u")
      case True
      with eq False have "begin_update h c view row f w u = begin_agent_update key view ?job ?u" by simp
      with a [OF j(2,3), of ?u] j(1) show ?thesis by (metis (no_types, lifting) updater.select_convs(4,5) updater.surjective updater.update_convs(4))
    next
      case agent: False
      with eq False have "begin_update h c view row f w u = begin_docker_update key view ?job w ?u" by simp
      with d [OF j(2,3), of ?u] j(1) show ?thesis by (metis (no_types, lifting) updater.select_convs(4,5) updater.surjective updater.update_convs(4))
    qed
  qed
qed

interpretation updates: machine run_step runs_ok
proof unfold_locales
  fix u e assume ok: "runs_ok u"
  show "runs_ok (run_step u e)"
  proof (cases e)
    case (Begin h c view row f w)
    show ?thesis
    proof (cases "make_composite_key h c")
      case (Inr key)
      show ?thesis
      proof (cases "key \<in> set (up_updating u)")
        case False
        from begin_update_cases [OF Inr this, of view row f w] show ?thesis
        proof (elim disjE exE conjE)
          fix u' assume "begin_update h c view row f w u = fail_update key h c u'" "up_updating u' = key # up_updating u" "up_jobs u' = up_jobs u"
          with runs_ok_refused [OF ok False, of "emit_update UPDATE_FAILED h c u'"] Begin show ?thesis
            by (simp add: fail_update_def)
        next
          fix job u' assume "begin_update h c view row f w u = begin_job key job u'" "job_of_key key job"
            "up_updating u' = key # up_updating u" "up_jobs u' = up_jobs u"
          with runs_ok_begin [OF ok False, of job "begin_job key job u'"] Begin show ?thesis by simp
        qed
      qed (use ok Begin Inr in \<open>simp add: begin_update_def\<close>)
    qed (use ok Begin in \<open>simp add: begin_update_def\<close>)
  next
    case (EndDocker now key r)
    have "runs_ok (release key (emit_update ev h c u'))" if "runs_ok u'" for ev h c u'
      by (rule runs_ok_release) (rule runs_ok_same [OF that], simp_all)
    moreover have "runs_ok (emit_update ev h c u)" for ev h c by (rule runs_ok_same [OF ok]) simp_all
    ultimately show ?thesis using ok EndDocker
      by (auto simp: end_docker_update_def runs_ok_complete Let_def split: option.splits)
  next
    case (Signal h old new)
    have "runs_ok (handle_update_complete h old new u)"
      by (rule runs_ok_same [OF ok]) (simp_all add: handle_update_complete_def Let_def split: sum.splits)
    with Signal show ?thesis by simp
  next
    case (EndAgent now key accepted polled)
    have "runs_ok (u\<lparr>up_pending := p\<rparr>)" "runs_ok (u\<lparr>up_pending := p, up_tables := t\<rparr>)" for p t
      by (rule runs_ok_same [OF ok]; simp)+
    with ok EndAgent show ?thesis
      by (auto simp: end_agent_update_def Let_def runs_ok_fail runs_ok_complete split: option.splits sum.splits)
  qed
qed

text \<open>C32: Along every interleaving of updates of any containers, their completions and the signals of agents, a container
  has at most one running update, and it is marked as updating exactly while that update runs, so every ending -
  refusal, failure, rollback or success - releases it.
\<close>

theorem one_update_at_a_time:
  assumes "runs_ok u"
  shows "runs_ok (run run_step u es)"
  using assms by (rule updates.run_inv)

section \<open>Policies\<close>

definition says_block :: "updater \<Rightarrow> string \<Rightarrow> (string, string) pydict \<Rightarrow> bool" where
  "says_block u key labels =
     (policy_value (dget labels LABEL_KEY) = Some BLOCK
      \<or> policy_value (dget labels LABEL_KEY) = None
        \<and> policy_value (Option.bind (find_update key (ct_updates (up_tables u))) ur_update_policy) = Some BLOCK)"

definition started :: "upd_event \<Rightarrow> bool" where
  "started e = (case e of UPDATE_STARTED k i \<Rightarrow> True | _ \<Rightarrow> False)"



section \<open>Settings\<close>

definition no_trace :: "string \<Rightarrow> string \<Rightarrow> string \<Rightarrow> container_tables \<Rightarrow> bool" where
  "no_trace host_id container_id key t =
     (find_update key (ct_updates t) = None
      \<and> list_all (\<lambda>r. \<not> short_row host_id container_id r) (ct_auto_restart t @ ct_desired t)
      \<and> list_all (\<lambda>r. s_key r \<noteq> key) (ct_health t @ ct_metadata t)
      \<and> \<not> list_ex (tag_of_container key) (ct_tags t))"

definition columns_of :: "container_tables \<Rightarrow> columns list list" where
  "columns_of t = map (map s_columns) [ct_auto_restart t, ct_desired t, ct_health t, ct_metadata t]"

lemma map_columns_rekey: "map s_columns (rekey P new rows) = map s_columns rows"
  by (simp add: rekey_def comp_def if_distrib cong: if_cong)

lemma rekey_gone: "(\<And>r. \<not> P (r\<lparr>s_key := new\<rparr>)) \<Longrightarrow> list_all (\<lambda>r. \<not> P r) (rekey P new rows)"
  by (auto simp: rekey_def list_all_iff)

lemma rekey_id: "list_all (\<lambda>r. \<not> P r) rows \<Longrightarrow> rekey P new rows = rows"
  by (induction rows) (auto simp: rekey_def)

lemma move_update_row_find:
  assumes "old_key \<noteq> new_key"
  shows "find_update new_key (move_update_row now old_key new_key i d rows) =
      (case find_update old_key rows of
         None \<Rightarrow> find_update new_key rows
       | Some r \<Rightarrow> Some (r\<lparr>ur_container_id := new_key, ur_update_available := False, ur_current_image := i,
           ur_current_digest := d, ur_last_updated_at := Some now\<rparr>))"
    "find_update old_key (move_update_row now old_key new_key i d rows) = None"
proof -
  let ?f = "\<lambda>r. r\<lparr>ur_container_id := new_key, ur_update_available := False, ur_current_image := i,
           ur_current_digest := d, ur_last_updated_at := Some now\<rparr>"
  have "find_update new_key (map (\<lambda>r. if ur_container_id r = old_key then ?f r else r)
      (filter (\<lambda>r. ur_container_id r \<noteq> new_key) rows)) = map_option ?f (find_update old_key rows)"
    unfolding find_update_def using assms by (induction rows) auto
  then show "find_update new_key (move_update_row now old_key new_key i d rows) =
      (case find_update old_key rows of None \<Rightarrow> find_update new_key rows | Some r \<Rightarrow> Some (?f r))"
    by (simp add: move_update_row_def split: option.splits)
  show "find_update old_key (move_update_row now old_key new_key i d rows) = None"
    using assms by (auto simp: move_update_row_def find_update_def find_None_iff)
qed

lemma move_tags_gone: "old_key \<noteq> new_key \<Longrightarrow> \<not> list_ex (tag_of_container old_key) (move_tags old_key new_key tags)"
  by (auto simp: move_tags_def list_ex_iff tag_of_container_def)

lemma move_tags_id: "\<not> list_ex (tag_of_container old_key) tags \<Longrightarrow> move_tags old_key new_key tags = tags"
  by (auto simp: move_tags_def list_ex_iff filter_id_conv map_idI)


text \<open>When the new id is the old one - the last resort of the agent's executor - the move deletes what it should keep.\<close>

lemma same_id_deletes_settings:
  assumes "update_container_records_after_update now h c c i d t = Inr (ok, t')" and "tables_unique t"
  shows "find_update (h @ '':'' @ c) (ct_updates t') = None \<and> \<not> list_ex (tag_of_container (h @ '':'' @ c)) (ct_tags t')"
proof -
  let ?k = "h @ '':'' @ c"
  have rk: "rekey (\<lambda>r. s_key r = k) k rows = rows" for k rows
    unfolding rekey_def by (rule map_idI) simp
  have rows: "find_update ?k (move_update_row now ?k ?k i d (ct_updates t)) = None"
    "distinct (map ur_container_id (move_update_row now ?k ?k i d (ct_updates t)))"
  proof -
    have "move_update_row now ?k ?k i d (ct_updates t) = filter (\<lambda>r. ur_container_id r \<noteq> ?k) (ct_updates t)"
      by (auto simp: move_update_row_def find_update_def find_None_iff filter_id_conv intro!: map_idI)
    with assms(2) show "find_update ?k (move_update_row now ?k ?k i d (ct_updates t)) = None"
      "distinct (map ur_container_id (move_update_row now ?k ?k i d (ct_updates t)))"
      by (auto simp: find_update_def find_None_iff tables_unique_def distinct_map_filter)
  qed
  have tags: "\<not> list_ex (tag_of_container ?k) (move_tags ?k ?k (ct_tags t))"
    "distinct (map (\<lambda>t. (tg_tag_id t, tg_subject_type t, tg_subject_id t)) (move_tags ?k ?k (ct_tags t)))"
    using assms(2) by (auto simp: move_tags_def list_ex_iff tables_unique_def distinct_map_filter map_idI)
  from assms(1) have "make_composite_key h c = Inr ?k"
    by (auto simp: update_container_records_after_update_def make_composite_key_Inr)
  with assms rows tags show ?thesis
    by (auto simp: update_container_records_after_update_def Let_def tables_unique_def rk split: if_splits)
qed


section \<open>Concrete updates\<close>

definition demo_update_row :: "string option \<Rightarrow> update_row" where
  "demo_update_row policy = (blank_row ''h1:0123456789ab'' (demo_container ''nginx:1''))\<lparr>ur_current_image := ''nginx:1'',
     ur_latest_image := Some ''nginx:1'', ur_latest_digest := Some ''sha256:new'', ur_update_available := True, ur_update_policy := policy\<rparr>"

definition demo_tables :: "string option \<Rightarrow> container_tables" where
  "demo_tables policy = \<lparr>ct_updates = [demo_update_row policy],
     ct_auto_restart = [\<lparr>s_key = ''0123456789ab'', s_host = ''h1'', s_columns = []\<rparr>], ct_desired = [],
     ct_health = [\<lparr>s_key = ''h1:0123456789ab'', s_host = ''h1'', s_columns = []\<rparr>], ct_metadata = [], ct_tags = []\<rparr>"

definition demo_updater :: "string \<Rightarrow> string option \<Rightarrow> updater" where
  "demo_updater connection policy = \<lparr>up_tables = demo_tables policy, up_policies = [], up_connection = [(''h1'', connection)],
     up_updating = [], up_jobs = [], up_pending = [], up_events = []\<rparr>"

definition demo_view :: container_view where
  "demo_view = \<lparr>cv_name = Some ''web'', cv_client = True, cv_labels = Some [], cv_agent = True\<rparr>"

abbreviation demo_begin :: "string option \<Rightarrow> run_event" where
  "demo_begin policy \<equiv> Begin ''h1'' ''0123456789ab'' demo_view (demo_update_row policy) False False"

lemma one_update_at_a_time_witness:
  "runs_ok (run run_step (demo_updater ''local'' None) [demo_begin None, demo_begin None])
    \<and> length (up_events (run run_step (demo_updater ''local'' None) [demo_begin None, demo_begin None])) = 1"
proof -
  have "runs_ok (demo_updater ''local'' None)" by code_simp
  note one_update_at_a_time [OF this, of "[demo_begin None, demo_begin None]"]
  moreover have "length (up_events (run run_step (demo_updater ''local'' None) [demo_begin None, demo_begin None])) = 1"
    by code_simp
  ultimately show ?thesis by blast
qed



text \<open>
  A health check that the discovery has already attached to the new container makes the move fail as a
  whole, and nobody notices.
\<close>

lemma reattached_check_undoes_the_move:
  "case update_container_records_after_update 5 ''h1'' ''0123456789ab'' ''ba9876543210'' ''nginx:1'' ''sha256:new''
     ((demo_tables None)\<lparr>ct_health := ct_health (demo_tables None) @ [\<lparr>s_key = ''h1:ba9876543210'', s_host = ''h1'', s_columns = []\<rparr>]\<rparr>) of
     Inl e \<Rightarrow> False
   | Inr (ok, t') \<Rightarrow> \<not> ok \<and> map ur_container_id (ct_updates t') = [''h1:0123456789ab''] \<and> map ur_update_available (ct_updates t') = [True]"
  by code_simp

text \<open>On a host with an agent the policy is not asked, and a success is reported twice.\<close>

lemma agent_updates_ignore_policies:
  "map fst (up_jobs (run run_step (demo_updater ''agent'' (Some ''block'')) [demo_begin (Some ''block'')])) = [''h1:0123456789ab'']"
  by code_simp

lemma agent_success_is_reported_twice:
  "filter (\<lambda>e. e = UPDATE_COMPLETED ''h1:ba9876543210'') (up_events (run run_step (demo_updater ''agent'' None)
     [demo_begin None, Signal ''h1'' ''0123456789ab'' ''ba9876543210'', EndAgent 5 ''h1:0123456789ab'' True None]))
   = [UPDATE_COMPLETED ''h1:ba9876543210'', UPDATE_COMPLETED ''h1:ba9876543210'']"
  by code_simp

end
