(* ===== verification/WsFilter.thy ===== *)
theory WsFilter
  imports PyValue Keys Access
begin

text \<open>
  What a restricted user may see (\<open>backend/utils/response_filtering.py\<close>): the visibility of events
  and alerts with its twin in SQL (\<open>event_visibility_predicate\<close>, \<open>alert_visibility_predicate\<close> of
  \<open>database.py\<close>), the rule per type of WebSocket message, and the pruning of a payload. A message
  is a Python value; \<open>None\<close> as the result of a function is an exception.
\<close>

section \<open>Python on values\<close>

definition or_empty :: "pyval \<Rightarrow> pyval" where
  \<comment> \<open>\<open>v or {}\<close>\<close>
  "or_empty v = (if truthy v then v else VDict [])"

fun attr_get :: "string \<Rightarrow> pyval \<Rightarrow> pyval option" where
  \<comment> \<open>\<open>v.get(k)\<close>: only a dictionary has the method\<close>
  "attr_get k (VDict d) = Some (vget_or (VDict d) k VNone)"
| "attr_get k _ = None"

fun hashable :: "pyval \<Rightarrow> bool" where
  "hashable (VList xs) = False" | "hashable (VDict d) = False" | "hashable _ = True"

fun in_value :: "string \<Rightarrow> pyval \<Rightarrow> bool option" where
  \<comment> \<open>\<open>k in v\<close> for a string \<open>k\<close>\<close>
  "in_value k (VDict d) = Some (VStr k \<in> fst ` set d)"
| "in_value k (VList xs) = Some (VStr k \<in> set xs)"
| "in_value k (VStr s) = Some (contains k s)"
| "in_value k _ = None"

fun each_opt :: "('a \<Rightarrow> 'b option) \<Rightarrow> 'a list \<Rightarrow> 'b list option" where
  "each_opt f [] = Some []"
| "each_opt f (x # xs) = Option.bind (f x) (\<lambda>y. map_option (Cons y) (each_opt f xs))"

definition keep_if :: "('a \<Rightarrow> bool option) \<Rightarrow> 'a list \<Rightarrow> 'a list option" where
  \<comment> \<open>a comprehension whose condition may raise\<close>
  "keep_if f xs = map_option (\<lambda>bs. map fst (filter snd (zip xs bs))) (each_opt f xs)"

definition pair_of :: "pyval \<Rightarrow> (pyval \<times> pyval) option" where
  "pair_of v = (case py_iter v of Some [k, w] \<Rightarrow> if hashable k then Some (k, w) else None | _ \<Rightarrow> None)"

fun to_dict :: "pyval \<Rightarrow> (pyval \<times> pyval) list option" where
  \<comment> \<open>\<open>dict(v)\<close>\<close>
  "to_dict (VDict d) = Some d"
| "to_dict v = Option.bind (py_iter v)
     (\<lambda>xs. map_option (\<lambda>ps. fold (\<lambda>(k, w). dset k w) ps []) (each_opt pair_of xs))"

definition opt_val :: "string option \<Rightarrow> pyval" where
  "opt_val s = (case s of None \<Rightarrow> VNone | Some s \<Rightarrow> VStr s)"

lemma each_opt_Some: "each_opt f xs = Some ys \<longleftrightarrow> list_all2 (\<lambda>x y. f x = Some y) xs ys"
  by (induction xs arbitrary: ys) (auto simp: bind_eq_Some_conv list_all2_Cons1 Bex_def)

lemma keep_if_Some: "keep_if f xs = Some ys \<longleftrightarrow>
    (\<forall>x \<in> set xs. f x \<noteq> None) \<and> ys = filter (\<lambda>x. f x = Some True) xs"
proof (induction xs arbitrary: ys)
  case (Cons x xs)
  then show ?case
    by (cases "f x"; cases "each_opt f xs") (auto simp: keep_if_def)
qed (auto simp: keep_if_def)

section \<open>Events and alerts\<close>

definition GLOBAL_EVENT_CATEGORIES :: "string list" where
  "GLOBAL_EVENT_CATEGORIES = [''system'', ''alert'', ''notification'', ''user'']"

definition ADMIN_ONLY_EVENT_TYPES :: "string list" where
  "ADMIN_ONLY_EVENT_TYPES = [''rule_triggered'']"

definition among :: "pyval \<Rightarrow> string list \<Rightarrow> bool option" where
  "among v names = (if hashable v then Some (list_ex (\<lambda>n. v = VStr n) names) else None)"

text \<open>The outer option is an exception, the inner one the \<open>None\<close> of an event that stays hidden.\<close>

definition bookkeeping_scope :: "pyval \<Rightarrow> pyval \<Rightarrow> pyval list option option" where
  "bookkeeping_scope category event_type =
     Option.bind (among category GLOBAL_EVENT_CATEGORIES) (\<lambda>g.
       if \<not> g then Some None
       else Option.bind (among event_type ADMIN_ONLY_EVENT_TYPES)
         (\<lambda>a. Some (if a then None else Some [])))"

definition event_scope :: "pyval \<Rightarrow> pyval \<Rightarrow> pyval \<Rightarrow> pyval \<Rightarrow> pyval list option option" where
  "event_scope host_id container_id category event_type =
     (if truthy host_id then if hashable host_id then Some (Some [host_id]) else None
      else if truthy container_id then
        Option.bind (in_value '':'' container_id) (\<lambda>colon.
          if \<not> colon then Some None
          else case container_id of
              VStr s \<Rightarrow> Some (Some [VStr (host_of_composite_key s)])
            | _ \<Rightarrow> None)
      else bookkeeping_scope category event_type)"

definition all_in_scope :: "pyval list \<Rightarrow> string set \<Rightarrow> bool" where
  \<comment> \<open>\<open>hosts <= visible\<close>\<close>
  "all_in_scope hosts visible = list_all (\<lambda>v. case v of VStr s \<Rightarrow> s \<in> visible | _ \<Rightarrow> False) hosts"

definition event_is_visible ::
    "string option \<Rightarrow> string option \<Rightarrow> string option \<Rightarrow> string set option \<Rightarrow> string option \<Rightarrow> bool option" where
  "event_is_visible host_id container_id category visible event_type =
     (case visible of
        None \<Rightarrow> Some True
      | Some v \<Rightarrow>
          map_option (\<lambda>hosts. case hosts of None \<Rightarrow> False | Some hosts \<Rightarrow> all_in_scope hosts v)
            (event_scope (opt_val host_id) (opt_val container_id) (opt_val category) (opt_val event_type)))"

definition alert_is_visible ::
    "string option \<Rightarrow> string option \<Rightarrow> string option \<Rightarrow> string set option \<Rightarrow> bool" where
  "alert_is_visible scope_type scope_id host_id visible =
     (case visible of
        None \<Rightarrow> True
      | Some v \<Rightarrow>
          let named = (\<lambda>x. case x of None \<Rightarrow> [] | Some s \<Rightarrow> if s = [] then [] else [s]);
              candidates = named host_id
                @ (if scope_type = Some ''host'' then named scope_id else [])
                @ (if scope_type = Some ''container''
                   then map host_of_composite_key (filter (\<lambda>s. CHR '':'' \<in> set s) (named scope_id)) else [])
          in list_ex (\<lambda>h. h \<in> v) candidates)"

section \<open>The SQL twins\<close>

text \<open>
  SQL conditions have three values; \<open>None\<close> is \<open>NULL\<close>. A row is selected when the condition is true.
  SQLite's \<open>instr\<close> counts from 1 and is 0 when the text is absent; a negative length makes \<open>substr\<close>
  count to the left, which leaves nothing from position 1.
\<close>

fun sql_or :: "bool option \<Rightarrow> bool option \<Rightarrow> bool option" where
  "sql_or (Some True) _ = Some True"
| "sql_or _ (Some True) = Some True"
| "sql_or (Some False) q = q"
| "sql_or None _ = None"

fun sql_and :: "bool option \<Rightarrow> bool option \<Rightarrow> bool option" where
  "sql_and (Some False) _ = Some False"
| "sql_and _ (Some False) = Some False"
| "sql_and (Some True) q = q"
| "sql_and None _ = None"

definition sql_eq :: "string option \<Rightarrow> string \<Rightarrow> bool option" where
  "sql_eq x s = map_option (\<lambda>t. t = s) x"

definition sql_in :: "string option \<Rightarrow> string set \<Rightarrow> bool option" where
  \<comment> \<open>\<open>x IN ()\<close> is false for every \<open>x\<close>, \<open>NULL\<close> too\<close>
  "sql_in x S = (if S = {} then Some False else map_option (\<lambda>s. s \<in> S) x)"

definition sql_not :: "bool option \<Rightarrow> bool option" where
  "sql_not p = map_option Not p"

definition sql_is_null :: "string option \<Rightarrow> bool option" where
  "sql_is_null x = Some (x = None)"

fun sql_instr :: "char \<Rightarrow> string \<Rightarrow> nat" where
  "sql_instr c [] = 0"
| "sql_instr c (x # xs) = (if x = c then 1 else case sql_instr c xs of 0 \<Rightarrow> 0 | Suc n \<Rightarrow> Suc (Suc n))"

definition composite_host :: "string option \<Rightarrow> string option" where
  "composite_host x = map_option (\<lambda>s. take (nat (int (sql_instr (CHR '':'') s) - 1)) s) x"

record event_row =
  ev_host_id :: "string option"
  ev_container_id :: "string option"
  ev_category :: string
  ev_event_type :: string

record alert_row =
  al_scope_type :: string
  al_scope_id :: string
  al_host_id :: "string option"

definition event_visibility_predicate :: "string set \<Rightarrow> event_row \<Rightarrow> bool option" where
  "event_visibility_predicate visible_host_ids r =
     (let no_host = sql_or (sql_is_null (ev_host_id r)) (sql_eq (ev_host_id r) []);
          no_container = sql_or (sql_is_null (ev_container_id r)) (sql_eq (ev_container_id r) [])
      in sql_or (sql_in (ev_host_id r) visible_host_ids)
          (sql_or
            (sql_and no_host (sql_and (sql_not (sql_is_null (ev_container_id r)))
               (sql_in (composite_host (ev_container_id r)) visible_host_ids)))
            (sql_and no_host (sql_and no_container
              (sql_and (sql_in (Some (ev_category r)) (set GLOBAL_EVENT_CATEGORIES))
                 (sql_not (sql_in (Some (ev_event_type r)) (set ADMIN_ONLY_EVENT_TYPES))))))))"

definition alert_visibility_predicate :: "string set \<Rightarrow> alert_row \<Rightarrow> bool option" where
  "alert_visibility_predicate visible_host_ids r =
     sql_or (sql_in (al_host_id r) visible_host_ids)
       (sql_or
         (sql_and (sql_eq (Some (al_scope_type r)) ''host'') (sql_in (Some (al_scope_id r)) visible_host_ids))
         (sql_and (sql_eq (Some (al_scope_type r)) ''container'')
            (sql_in (composite_host (Some (al_scope_id r))) visible_host_ids)))"

definition scoped_alert_query :: "alert_row list \<Rightarrow> string set option \<Rightarrow> alert_row list" where
  "scoped_alert_query rows visible_host_ids =
     (case visible_host_ids of
        None \<Rightarrow> rows
      | Some v \<Rightarrow> filter (\<lambda>r. alert_visibility_predicate v r = Some True) rows)"

lemma sql_or_true: "sql_or p q = Some True \<longleftrightarrow> p = Some True \<or> q = Some True"
  by (cases "(p, q)" rule: sql_or.cases) auto

lemma sql_and_true: "sql_and p q = Some True \<longleftrightarrow> p = Some True \<and> q = Some True"
  by (cases "(p, q)" rule: sql_and.cases) auto

lemma sql_atoms:
  "sql_eq x s = Some True \<longleftrightarrow> x = Some s"
  "sql_in x S = Some True \<longleftrightarrow> (\<exists>s. x = Some s \<and> s \<in> S)"
  "sql_not p = Some True \<longleftrightarrow> p = Some False"
  "sql_is_null x = Some True \<longleftrightarrow> x = None"
  "sql_is_null x = Some False \<longleftrightarrow> x \<noteq> None"
  "sql_in (Some t) T = Some False \<longleftrightarrow> t \<notin> T"
  by (auto simp: sql_eq_def sql_in_def sql_not_def sql_is_null_def)

lemmas sql_simps = sql_or_true sql_and_true sql_atoms

lemma sql_instr_0: "sql_instr c s = 0 \<longleftrightarrow> c \<notin> set s"
  by (induction s) (auto split: nat.splits)

lemma take_instr: "c \<notin> set u \<Longrightarrow> take (nat (int (sql_instr c (u @ c # v)) - 1)) (u @ c # v) = u"
proof -
  assume "c \<notin> set u"
  then have "sql_instr c (u @ c # v) = Suc (length u)"
    by (induction u) (auto split: nat.splits)
  then show ?thesis by simp
qed

text \<open>Splitting in SQL and in Python differ on a text without a separator only, where SQL has the empty text.\<close>

lemma composite_host_eq:
  "composite_host (Some s) = Some (if CHR '':'' \<in> set s then host_of_composite_key s else [])"
proof (cases "CHR '':'' \<in> set s")
  case True
  then obtain u v where s: "s = u @ CHR '':'' # v" "CHR '':'' \<notin> set u"
    using split_list_first by fastforce
  then show ?thesis
    using take_instr [of "CHR '':''" u v]
    by (simp add: composite_host_def host_of_composite_key_def split_first_append)
next
  case False
  then have "sql_instr (CHR '':'') s = 0" by (simp add: sql_instr_0)
  with False show ?thesis by (simp add: composite_host_def)
qed


lemma composite_host_None [simp]: "composite_host None = None"
  by (simp add: composite_host_def)

lemma contains_char: "contains [c] s \<longleftrightarrow> c \<in> set s"
  by (induction s) (auto simp: starts_with_def)

text \<open>Proved as well: The Python and the SQL reading of who may see an event and who may see an alert are the same: for every
  row and every set of host ids without the empty text, the predicate selects the row exactly when the
  Python function says that it is visible.
\<close>

theorem visibility_twins_agree:
  assumes "[] \<notin> V"
  shows "event_is_visible (ev_host_id r) (ev_container_id r) (Some (ev_category r)) (Some V) (Some (ev_event_type r)) =
      Some (event_visibility_predicate V r = Some True)
    \<and> (alert_is_visible (Some (al_scope_type a)) (Some (al_scope_id a)) (al_host_id a) (Some V)
       \<longleftrightarrow> alert_visibility_predicate V a = Some True)"
proof
  show "event_is_visible (ev_host_id r) (ev_container_id r) (Some (ev_category r)) (Some V) (Some (ev_event_type r)) =
      Some (event_visibility_predicate V r = Some True)"
    unfolding event_visibility_predicate_def Let_def sql_simps
    using assms
    by (cases "ev_host_id r"; cases "ev_container_id r")
      (auto simp: event_is_visible_def event_scope_def bookkeeping_scope_def among_def opt_val_def all_in_scope_def
        composite_host_eq composite_host_None list_ex_iff contains_char)
  show "alert_is_visible (Some (al_scope_type a)) (Some (al_scope_id a)) (al_host_id a) (Some V)
       \<longleftrightarrow> alert_visibility_predicate V a = Some True"
    unfolding alert_visibility_predicate_def sql_simps
    using assms
    by (cases "al_host_id a") (auto simp: alert_is_visible_def composite_host_eq split: if_splits)
qed

lemma visibility_twins_agree_witness:
  "([] :: string) \<notin> {''h1''}
    \<and> event_is_visible None (Some ''h1:c'') (Some ''container'') (Some {''h1''}) (Some ''died'') = Some True
    \<and> event_visibility_predicate {''h1''}
        \<lparr>ev_host_id = None, ev_container_id = Some ''h1:c'', ev_category = ''container'', ev_event_type = ''died''\<rparr> = Some True
    \<and> alert_visibility_predicate {''h1''} \<lparr>al_scope_type = ''system'', al_scope_id = ''engine'', al_host_id = None\<rparr> \<noteq> Some True"
  using visibility_twins_agree [of "{''h1''}"
      "\<lparr>ev_host_id = None, ev_container_id = Some ''h1:c'', ev_category = ''container'', ev_event_type = ''died''\<rparr>"
      "\<lparr>al_scope_type = ''system'', al_scope_id = ''engine'', al_host_id = None\<rparr>"]
  by (simp add: event_is_visible_def event_scope_def opt_val_def all_in_scope_def alert_is_visible_def
    starts_with_def host_of_composite_key_def)

section \<open>Which hosts a message concerns\<close>

datatype concern = Hosts "pyval list" | DROP

definition host_value :: "pyval \<Rightarrow> concern option" where
  \<comment> \<open>the set \<open>{host_id}\<close>\<close>
  "host_value v = (if hashable v then Some (Hosts [v]) else None)"

definition global_rule :: "pyval \<Rightarrow> concern option" where
  "global_rule message = Some (Hosts [])"

definition data_of :: "pyval \<Rightarrow> pyval" where
  "data_of message = or_empty (vget_or message ''data'' VNone)"

definition data_rule :: "string \<Rightarrow> pyval \<Rightarrow> concern option" where
  "data_rule key message =
     Option.bind (attr_get key (data_of message)) (\<lambda>host_id.
       if host_id = VNone then Some DROP else host_value host_id)"

definition top_rule :: "pyval \<Rightarrow> concern option" where
  "top_rule message =
     Option.bind (attr_get ''host_id'' message) (\<lambda>host_id.
       if truthy host_id then host_value host_id else Some DROP)"

definition data_host_ids_rule :: "pyval \<Rightarrow> concern option" where
  "data_host_ids_rule message =
     Option.bind (attr_get ''host_ids'' (data_of message)) (\<lambda>host_ids.
       if host_ids = VNone then Some DROP
       else Option.bind (py_iter host_ids) (\<lambda>hs. if list_all hashable hs then Some (Hosts hs) else None))"

definition ws_event_rule :: "pyval \<Rightarrow> concern option" where
  "ws_event_rule message =
     Option.bind (attr_get ''event'' message) (\<lambda>event.
       let event = or_empty event in
       case (attr_get ''host_id'' event, attr_get ''container_id'' event,
             attr_get ''category'' event, attr_get ''event_type'' event) of
         (Some h, Some c, Some cat, Some ty) \<Rightarrow>
           map_option (\<lambda>hosts. case hosts of None \<Rightarrow> DROP | Some hs \<Rightarrow> Hosts hs) (event_scope h c cat ty)
       | _ \<Rightarrow> None)"

text \<open>\<open>any(c.get("host_id") is None for c in candidates)\<close> stops at the first one that is.\<close>

fun any_without_host :: "pyval list \<Rightarrow> bool option" where
  "any_without_host [] = Some False"
| "any_without_host (c # cs) =
     Option.bind (attr_get ''host_id'' c) (\<lambda>h. if h = VNone then Some True else any_without_host cs)"

definition migration_choice_rule :: "pyval \<Rightarrow> concern option" where
  "migration_choice_rule message =
     Option.bind (data_rule ''host_id'' message) (\<lambda>hosts.
       case hosts of
         DROP \<Rightarrow> Some DROP
       | Hosts hs \<Rightarrow>
           Option.bind (attr_get ''candidates'' (data_of message)) (\<lambda>candidates.
           Option.bind (if truthy candidates then py_iter candidates else Some []) (\<lambda>cs.
           Option.bind (any_without_host cs) (\<lambda>unknown.
             if unknown then Some DROP
             else Option.bind (each_opt (attr_get ''host_id'') cs) (\<lambda>more.
               if list_all hashable more then Some (Hosts (hs @ more)) else None)))))"

datatype visibility = PRUNE | Rule "pyval \<Rightarrow> concern option"

definition WS_HOST_VISIBILITY :: "(string \<times> visibility) list" where
  "WS_HOST_VISIBILITY =
     [(''containers_update'', PRUNE),
      (''host_added'', Rule (data_rule ''host_id'')),
      (''host_removed'', Rule (data_rule ''host_id'')),
      (''host_status_changed'', Rule (data_rule ''host_id'')),
      (''host_migrated'', Rule (data_rule ''new_host_id'')),
      (''migration_choice_needed'', Rule migration_choice_rule),
      (''container_recreated'', Rule (data_rule ''host_id'')),
      (''container_update_progress'', Rule (data_rule ''host_id'')),
      (''container_update_layer_progress'', Rule (data_rule ''host_id'')),
      (''container_update_warning'', Rule (data_rule ''host_id'')),
      (''container_update_complete'', Rule (data_rule ''host_id'')),
      (''agent_update_progress'', Rule (data_rule ''host_id'')),
      (''auto_restart_success'', Rule (data_rule ''host_id'')),
      (''auto_restart_failed'', Rule (data_rule ''host_id'')),
      (''container_stats'', Rule top_rule),
      (''new_event'', Rule ws_event_rule),
      (''batch_job_update'', Rule data_host_ids_rule),
      (''batch_item_update'', Rule (data_rule ''host_id'')),
      (''blackout_status_changed'', Rule global_rule),
      (''deployment_created'', Rule top_rule),
      (''deployment_progress'', Rule top_rule),
      (''deployment_completed'', Rule top_rule),
      (''deployment_failed'', Rule top_rule),
      (''deployment_rolled_back'', Rule top_rule),
      (''deployment_service_progress'', Rule top_rule),
      (''deployment_layer_progress'', Rule (data_rule ''host_id''))]"

section \<open>Pruning\<close>

definition names_visible :: "string set \<Rightarrow> pyval \<Rightarrow> bool option" where
  \<comment> \<open>\<open>v in visible\<close>\<close>
  "names_visible visible v =
     (if hashable v then Some (case v of VStr s \<Rightarrow> s \<in> visible | _ \<Rightarrow> False) else None)"

definition prune_list :: "string set \<Rightarrow> string \<Rightarrow> string \<Rightarrow> (pyval \<times> pyval) list \<Rightarrow> (pyval \<times> pyval) list option" where
  "prune_list visible key id_key d =
     (case map_of d (VStr key) of
        None \<Rightarrow> Some d
      | Some v \<Rightarrow>
          Option.bind (py_iter v) (\<lambda>items.
            map_option (\<lambda>kept. dset (VStr key) (VList kept) d)
              (keep_if (\<lambda>c. Option.bind (attr_get id_key c) (names_visible visible)) items)))"

definition prune_keys ::
    "(pyval \<Rightarrow> bool option) \<Rightarrow> string \<Rightarrow> (pyval \<times> pyval) list \<Rightarrow> (pyval \<times> pyval) list option" where
  "prune_keys keep key d =
     (case map_of d (VStr key) of
        None \<Rightarrow> Some d
      | Some (VDict entries) \<Rightarrow>
          map_option (\<lambda>kept. dset (VStr key) (VDict kept) d) (keep_if (\<lambda>(k, v). keep k) entries)
      | Some _ \<Rightarrow> None)"

definition composite_visible :: "string set \<Rightarrow> pyval \<Rightarrow> bool option" where
  "composite_visible visible k =
     (case k of VStr s \<Rightarrow> Some (host_of_composite_key s \<in> visible) | _ \<Rightarrow> None)"

text \<open>
  Data that is no dictionary but that \<open>dict\<close> accepts (a list of pairs) has none of the keys, since a
  pair is no key; nothing is pruned then.
\<close>

definition prune_data :: "string set \<Rightarrow> pyval \<Rightarrow> (pyval \<times> pyval) list option" where
  "prune_data v data =
     (case data of
        VDict d \<Rightarrow>
          Option.bind (prune_list v ''containers'' ''host_id'' d) (\<lambda>d.
          Option.bind (prune_list v ''hosts'' ''id'' d) (\<lambda>d.
          Option.bind (prune_keys (names_visible v) ''host_metrics'' d) (\<lambda>d.
          Option.bind (prune_keys (names_visible v) ''host_sparklines'' d) (\<lambda>d.
            prune_keys (composite_visible v) ''container_sparklines'' d))))
      | _ \<Rightarrow> to_dict data)"

definition filter_ws_host_visibility :: "pyval \<Rightarrow> string set option \<Rightarrow> pyval option" where
  "filter_ws_host_visibility message visible =
     (case visible of
        None \<Rightarrow> Some message
      | Some v \<Rightarrow>
          (case message of
             VDict m \<Rightarrow>
               Option.bind (prune_data v (data_of message)) (\<lambda>d.
                 Some (VDict (dset (VStr ''data'') (VDict d) m)))
           | _ \<Rightarrow> None))"

text \<open>What a restricted user may see of the entry \<open>k\<close> of an update, written down independently.\<close>

definition items_of :: "pyval \<Rightarrow> pyval list" where
  "items_of v = (case py_iter v of None \<Rightarrow> [] | Some xs \<Rightarrow> xs)"

definition entries_of :: "pyval \<Rightarrow> (pyval \<times> pyval) list" where
  "entries_of v = (case v of VDict d \<Rightarrow> d | _ \<Rightarrow> [])"

definition visible_part :: "string set \<Rightarrow> string \<Rightarrow> pyval \<Rightarrow> pyval" where
  "visible_part V k v =
     (if k = ''containers'' then VList (filter (\<lambda>c. vget_or c ''host_id'' VNone \<in> VStr ` V) (items_of v))
      else if k = ''hosts'' then VList (filter (\<lambda>h. vget_or h ''id'' VNone \<in> VStr ` V) (items_of v))
      else if k = ''host_metrics'' \<or> k = ''host_sparklines''
           then VDict (filter (\<lambda>(h, x). h \<in> VStr ` V) (entries_of v))
      else if k = ''container_sparklines''
           then VDict (filter (\<lambda>(key, x). key \<in> VStr ` {s. host_of_composite_key s \<in> V}) (entries_of v))
      else v)"

lemma names_visible_True: "names_visible V v = Some True \<longleftrightarrow> v \<in> VStr ` V"
  by (cases v) (auto simp: names_visible_def)

lemma attr_get_Some: "attr_get k v = Some w \<Longrightarrow> w = vget_or v k VNone"
  by (cases v) auto

lemma host_names_visible:
  "Option.bind (attr_get k c) (names_visible V) \<noteq> None \<Longrightarrow>
    Option.bind (attr_get k c) (names_visible V) = Some True \<longleftrightarrow> vget_or c k VNone \<in> VStr ` V"
  by (cases c) (auto simp: names_visible_True)

lemma prune_list_get:
  assumes "prune_list V key id_key d = Some d'"
  shows "map_of d' (VStr k) = (if k = key
    then map_option (\<lambda>v. VList (filter (\<lambda>c. vget_or c id_key VNone \<in> VStr ` V) (items_of v))) (map_of d (VStr k))
    else map_of d (VStr k))"
proof (cases "map_of d (VStr key)")
  case (Some v)
  with assms obtain xs where xs: "py_iter v = Some xs"
    and all: "\<forall>c \<in> set xs. Option.bind (attr_get id_key c) (names_visible V) \<noteq> None"
    and d': "d' = dset (VStr key) (VList (filter (\<lambda>c. Option.bind (attr_get id_key c) (names_visible V) = Some True) xs)) d"
    by (auto simp: prune_list_def keep_if_Some bind_eq_Some_conv)
  have "filter (\<lambda>c. Option.bind (attr_get id_key c) (names_visible V) = Some True) xs =
      filter (\<lambda>c. vget_or c id_key VNone \<in> VStr ` V) xs"
    using all by (intro filter_cong refl host_names_visible) blast
  with Some d' xs show ?thesis by (simp add: items_of_def)
qed (use assms in \<open>auto simp: prune_list_def\<close>)

lemma prune_keys_get:
  assumes "prune_keys keep key d = Some d'" and "\<And>k. keep k = Some True \<longleftrightarrow> P k"
  shows "map_of d' (VStr k) = (if k = key
    then map_option (\<lambda>v. VDict (filter (\<lambda>(h, x). P h) (entries_of v))) (map_of d (VStr k))
    else map_of d (VStr k))"
  using assms by (auto simp: prune_keys_def keep_if_Some entries_of_def case_prod_unfold
    split: option.splits pyval.splits)

lemma composite_visible_True: "composite_visible V k = Some True \<longleftrightarrow> k \<in> VStr ` {s. host_of_composite_key s \<in> V}"
  by (cases k) (auto simp: composite_visible_def)

lemma prune_data_get:
  assumes "prune_data V (VDict d) = Some d'"
  shows "map_of d' (VStr k) = map_option (visible_part V k) (map_of d (VStr k))"
proof -
  from assms obtain d1 d2 d3 d4 where
    d: "prune_list V ''containers'' ''host_id'' d = Some d1" "prune_list V ''hosts'' ''id'' d1 = Some d2"
      "prune_keys (names_visible V) ''host_metrics'' d2 = Some d3"
      "prune_keys (names_visible V) ''host_sparklines'' d3 = Some d4"
      "prune_keys (composite_visible V) ''container_sparklines'' d4 = Some d'"
    by (auto simp: prune_data_def bind_eq_Some_conv)
  note get = prune_keys_get [OF d(5) composite_visible_True, of k] prune_keys_get [OF d(4) names_visible_True, of k]
    prune_keys_get [OF d(3) names_visible_True, of k] prune_list_get [OF d(2), of k] prune_list_get [OF d(1), of k]
  show ?thesis
  proof (cases "k \<in> {''containers'', ''hosts'', ''host_metrics'', ''host_sparklines'', ''container_sparklines''}")
    case True
    then show ?thesis
      using get by (elim insertE emptyE; simp only:; simp add: visible_part_def [abs_def])
  next
    case False
    then show ?thesis
      using get by (simp add: visible_part_def [abs_def] option.map_ident)
  qed
qed

section \<open>Environment variables\<close>

definition without_env :: "pyval \<Rightarrow> pyval" where
  "without_env c = (case c of VDict d \<Rightarrow> VDict (ddel (VStr ''env'') d) | _ \<Rightarrow> c)"

text \<open>The containers are changed in place: only a list holds objects that iteration can reach.\<close>

definition strip_containers :: "pyval \<Rightarrow> pyval option" where
  "strip_containers v =
     (case v of VList cs \<Rightarrow> Some (VList (map without_env cs))
      | _ \<Rightarrow> map_option (\<lambda>_. v) (py_iter v))"

definition filter_ws_container_message :: "pyval \<Rightarrow> bool \<Rightarrow> pyval option" where
  "filter_ws_container_message message can_view_env =
     (if can_view_env then Some message
      else case message of
        VDict m \<Rightarrow>
          (case map_of m (VStr ''data'') of
             None \<Rightarrow> Some message
           | Some data \<Rightarrow>
               Option.bind (in_value ''containers'' data) (\<lambda>has.
                 if \<not> has then Some message
                 else case data of
                     VDict d \<Rightarrow>
                       Option.bind (strip_containers (vget_or data ''containers'' VNone)) (\<lambda>cs.
                         Some (VDict (dset (VStr ''data'') (VDict (dset (VStr ''containers'') cs d)) m)))
                   | _ \<Rightarrow> None))
      | _ \<Rightarrow> None)"

definition filter_container_env :: "(pyval \<times> pyval) list list \<Rightarrow> bool \<Rightarrow> (pyval \<times> pyval) list list" where
  \<comment> \<open>on the dictionaries that \<open>container_to_dict\<close> gives\<close>
  "filter_container_env containers can_view_env =
     (if can_view_env then containers else map (\<lambda>c. ddel (VStr ''env'') c) containers)"

definition filter_container_inspect_env :: "pyval \<Rightarrow> bool \<Rightarrow> pyval option" where
  "filter_container_inspect_env inspect_result can_view_env =
     (if can_view_env then Some inspect_result
      else case inspect_result of
        VDict r \<Rightarrow>
          (case map_of r (VStr ''Config'') of
             None \<Rightarrow> Some inspect_result
           | Some (VDict cfg) \<Rightarrow> Some (VDict (dset (VStr ''Config'') (VDict (dset (VStr ''Env'') VNone cfg)) r))
           | Some _ \<Rightarrow> None)
      | _ \<Rightarrow> Some inspect_result)"

definition filter_stack_env_files :: "(string, string) pydict option \<Rightarrow> bool \<Rightarrow> (string, string) pydict" where
  "filter_stack_env_files env_files can_view_env =
     (case env_files of None \<Rightarrow> [] | Some fs \<Rightarrow> if can_view_env then fs else [])"

section \<open>The hosts a rule names\<close>

definition include_entries :: "(pyval \<times> pyval) list \<Rightarrow> string list" where
  "include_entries selector =
     (case map_of selector (VStr ''include'') of
        Some (VStr s) \<Rightarrow> [s]
      | Some (VList xs) \<Rightarrow> map (\<lambda>x. case x of VStr s \<Rightarrow> s | _ \<Rightarrow> []) (filter is_str xs)
      | _ \<Rightarrow> [])"

definition load_selector :: "(string \<Rightarrow> pyval option) \<Rightarrow> string option \<Rightarrow> (pyval \<times> pyval) list" where
  \<comment> \<open>\<open>json_loads\<close> is the parser of the standard library, \<open>None\<close> when it raises\<close>
  "load_selector json_loads selector_json =
     (case selector_json of
        None \<Rightarrow> []
      | Some s \<Rightarrow> if s = [] then []
          else case json_loads s of Some (VDict d) \<Rightarrow> d | _ \<Rightarrow> [])"

definition selector_host_ids :: "(string \<Rightarrow> pyval option) \<Rightarrow> string option \<Rightarrow> string option \<Rightarrow> string set" where
  "selector_host_ids json_loads host_selector_json container_selector_json =
     (let hs = load_selector json_loads host_selector_json;
          cs = load_selector json_loads container_selector_json
      in set (include_entries hs)
         \<union> (case map_of hs (VStr ''host_id'') of Some (VStr h) \<Rightarrow> {h} | _ \<Rightarrow> {})
         \<union> set (map host_of_composite_key (filter (\<lambda>x. CHR '':'' \<in> set x) (include_entries cs))))"

end
