(* ===== verification/StatsStreams.thy ===== *)
theory StatsStreams
  imports WsFilter
begin

text \<open>
  Live container statistics (\<open>RealtimeMonitor\<close> of \<open>backend/realtime.py\<close>): the subscribers per
  container, one polling task per container, and a round of that task. A socket is a number; a set of
  sockets is a list without repetition; a task is a number given at its creation.
\<close>

record realtime =
  stats_subscribers :: "(string, nat list) pydict"
  event_subscribers :: "nat list"
  monitoring_tasks :: "(string, nat) pydict"
  live_tasks :: "(nat \<times> string) list" \<comment> \<open>tasks of the event loop still running, with their key\<close>
  next_task :: nat

definition init_realtime :: realtime where
  "init_realtime = \<lparr>stats_subscribers = [], event_subscribers = [], monitoring_tasks = [],
     live_tasks = [], next_task = 0\<rparr>"

definition stats_key :: "string \<Rightarrow> string \<Rightarrow> string" where
  "stats_key host_id container_id = host_id @ '':'' @ container_id"

section \<open>Subscriptions\<close>

definition subscribe_to_stats :: "nat \<Rightarrow> string \<Rightarrow> string \<Rightarrow> realtime \<Rightarrow> realtime" where
  "subscribe_to_stats ws container_id host_id rt =
     (let key = stats_key host_id container_id;
          subs = (case dget (stats_subscribers rt) key of None \<Rightarrow> [] | Some s \<Rightarrow> s)
      in rt\<lparr>stats_subscribers := dset key (List.insert ws subs) (stats_subscribers rt)\<rparr>)"

definition cancel_task :: "nat \<Rightarrow> realtime \<Rightarrow> realtime" where
  "cancel_task t rt = rt\<lparr>live_tasks := filter (\<lambda>(u, k). u \<noteq> t) (live_tasks rt)\<rparr>"

definition drop_subscriber :: "nat \<Rightarrow> string \<Rightarrow> realtime \<Rightarrow> realtime" where
  "drop_subscriber ws key rt =
     (case dget (stats_subscribers rt) key of
        None \<Rightarrow> rt
      | Some subs \<Rightarrow>
          let rest = removeAll ws subs in
          if rest \<noteq> [] then rt\<lparr>stats_subscribers := dset key rest (stats_subscribers rt)\<rparr>
          else
            let rt = rt\<lparr>stats_subscribers := ddel key (stats_subscribers rt)\<rparr> in
            case dget (monitoring_tasks rt) key of
              None \<Rightarrow> rt
            | Some t \<Rightarrow> (cancel_task t rt)\<lparr>monitoring_tasks := ddel key (monitoring_tasks rt)\<rparr>)"

definition drop_where :: "(string \<Rightarrow> bool) \<Rightarrow> nat \<Rightarrow> realtime \<Rightarrow> realtime" where
  \<comment> \<open>the loops over \<open>list(self.stats_subscribers)\<close>\<close>
  "drop_where P ws rt = fold (drop_subscriber ws) (filter P (map fst (stats_subscribers rt))) rt"

definition revoke_hidden_subscriptions :: "nat \<Rightarrow> string set option \<Rightarrow> realtime \<Rightarrow> realtime" where
  "revoke_hidden_subscriptions ws visible rt =
     (case visible of
        None \<Rightarrow> rt
      | Some v \<Rightarrow> drop_where (\<lambda>key. host_of_composite_key key \<notin> v) ws rt)"

definition unsubscribe_from_stats :: "nat \<Rightarrow> string \<Rightarrow> string option \<Rightarrow> realtime \<Rightarrow> realtime" where
  \<comment> \<open>without a host the first test compares with the text of \<open>None\<close>\<close>
  "unsubscribe_from_stats ws container_id host_id rt =
     drop_where (\<lambda>key. key = stats_key (case host_id of None \<Rightarrow> ''None'' | Some h \<Rightarrow> h) container_id
        \<or> (host_id = None \<and> ends_with key ('':'' @ container_id))) ws rt"

definition unsubscribe_all_stats :: "nat \<Rightarrow> realtime \<Rightarrow> realtime" where
  "unsubscribe_all_stats ws rt = drop_where (\<lambda>_. True) ws rt"

definition subscribe_to_events :: "nat \<Rightarrow> realtime \<Rightarrow> realtime" where
  "subscribe_to_events ws rt = rt\<lparr>event_subscribers := List.insert ws (event_subscribers rt)\<rparr>"

definition unsubscribe_from_events :: "nat \<Rightarrow> realtime \<Rightarrow> realtime" where
  "unsubscribe_from_events ws rt = rt\<lparr>event_subscribers := removeAll ws (event_subscribers rt)\<rparr>"

section \<open>Streams\<close>

definition start_container_stats_stream :: "string \<Rightarrow> string \<Rightarrow> realtime \<Rightarrow> realtime" where
  "start_container_stats_stream container_id host_id rt =
     (let key = stats_key host_id container_id in
      if dhas (monitoring_tasks rt) key then rt
      else rt\<lparr>monitoring_tasks := dset key (next_task rt) (monitoring_tasks rt),
             live_tasks := (next_task rt, key) # live_tasks rt, next_task := Suc (next_task rt)\<rparr>)"

text \<open>What the Docker daemon answers in a round of the polling loop.\<close>

datatype poll = NotFound | Failed | NotRunning | Stats

text \<open>
  \<open>caps\<close> and \<open>visible\<close> are the connection manager's answers for a socket, \<open>None\<close> when there is no
  manager; a socket of \<open>failing\<close> raises on \<open>send_text\<close>. The result is who received the statistics and
  who is dead.
\<close>

fun send_stats ::
    "((nat \<Rightarrow> string set) \<times> (nat \<Rightarrow> string set option)) option \<Rightarrow> nat set \<Rightarrow> string \<Rightarrow> nat list \<Rightarrow> nat list \<times> nat list" where
  "send_stats mgr failing host_id [] = ([], [])"
| "send_stats mgr failing host_id (ws # rest) =
     (let (sent, dead) = send_stats mgr failing host_id rest;
          allowed = (case mgr of
             None \<Rightarrow> True
           | Some (caps, visible) \<Rightarrow> ''containers.view'' \<in> caps ws \<and> host_is_visible (Some host_id) (visible ws))
      in if \<not> allowed then (sent, ws # dead)
         else if ws \<in> failing then (sent, ws # dead)
         else (ws # sent, dead))"

definition monitor_round ::
    "((nat \<Rightarrow> string set) \<times> (nat \<Rightarrow> string set option)) option \<Rightarrow> nat set \<Rightarrow> nat \<Rightarrow> string \<Rightarrow> string
      \<Rightarrow> poll \<Rightarrow> realtime \<Rightarrow> nat list \<times> realtime" where
  "monitor_round mgr failing task container_id host_id answer rt =
     (let key = stats_key host_id container_id;
          subs = (case dget (stats_subscribers rt) key of None \<Rightarrow> [] | Some s \<Rightarrow> s) in
      if (task, key) \<notin> set (live_tasks rt) then ([], rt)
      else if subs = [] then ([], cancel_task task rt)
      else case answer of
        NotFound \<Rightarrow> ([], cancel_task task rt)
      | Failed \<Rightarrow> ([], rt)
      | NotRunning \<Rightarrow> ([], rt)
      | Stats \<Rightarrow>
          let (sent, dead) = send_stats mgr failing host_id subs
          in (sent, fold (\<lambda>ws. drop_subscriber ws key) dead rt))"

definition stop_all_monitoring :: "realtime \<Rightarrow> realtime" where
  "stop_all_monitoring rt =
     (fold cancel_task (map snd (monitoring_tasks rt)) rt)\<lparr>monitoring_tasks := []\<rparr>"

section \<open>Laws of subscribing\<close>

definition subscribed :: "nat \<Rightarrow> string \<Rightarrow> realtime \<Rightarrow> bool" where
  "subscribed ws key rt = (case dget (stats_subscribers rt) key of None \<Rightarrow> False | Some s \<Rightarrow> ws \<in> set s)"

lemma subscribed_subscribe [simp]:
  "subscribed w k (subscribe_to_stats ws c h rt) \<longleftrightarrow> subscribed w k rt \<or> (w = ws \<and> k = stats_key h c)"
  by (auto simp: subscribed_def subscribe_to_stats_def Let_def split: option.splits)

lemma subscribed_drop [simp]:
  "subscribed w k (drop_subscriber ws key rt) \<longleftrightarrow> subscribed w k rt \<and> (w, k) \<noteq> (ws, key)"
proof (cases "dget (stats_subscribers rt) key")
  case (Some subs)
  have "removeAll ws subs = [] \<longleftrightarrow> set subs \<subseteq> {ws}" by (induction subs) auto
  with Some show ?thesis
    by (auto simp: subscribed_def drop_subscriber_def Let_def cancel_task_def split: option.splits)
qed (auto simp: subscribed_def drop_subscriber_def)

lemma subscribed_drops: "subscribed w k (fold (drop_subscriber ws) ks rt) \<longleftrightarrow> subscribed w k rt \<and> \<not> (w = ws \<and> k \<in> set ks)"
  by (induction ks arbitrary: rt) auto

lemma subscribed_dead: "subscribed w k (fold (\<lambda>ws. drop_subscriber ws key) dead rt) \<longleftrightarrow>
    subscribed w k rt \<and> \<not> (k = key \<and> w \<in> set dead)"
  by (induction dead arbitrary: rt) auto

lemma subscribed_key: "subscribed w k rt \<Longrightarrow> k \<in> set (map fst (stats_subscribers rt))"
  by (auto simp: subscribed_def split: option.splits dest: map_of_SomeD intro: rev_image_eqI)

lemma subscribed_drop_where [simp]:
  "subscribed w k (drop_where P ws rt) \<longleftrightarrow> subscribed w k rt \<and> \<not> (w = ws \<and> P k)"
  using subscribed_key [of w k rt] by (auto simp: drop_where_def subscribed_drops)

lemma subscribed_cancel [simp]: "subscribed w k (cancel_task t rt) = subscribed w k rt"
  by (simp add: subscribed_def cancel_task_def)

lemma send_stats_sent: "ws \<in> set (fst (send_stats mgr failing h subs)) \<Longrightarrow> ws \<in> set subs \<and> ws \<notin> failing
    \<and> (case mgr of None \<Rightarrow> True | Some (caps, visible) \<Rightarrow> ''containers.view'' \<in> caps ws \<and> host_is_visible (Some h) (visible ws))"
  by (induction subs) (auto simp: Let_def case_prod_unfold split: if_splits option.splits)

lemma monitor_round_subscribed:
  "subscribed w k (snd (monitor_round mgr failing t c h a rt)) \<Longrightarrow> subscribed w k rt"
  by (auto simp: monitor_round_def Let_def case_prod_unfold subscribed_dead split: if_splits poll.splits)

lemma monitor_round_sent:
  "w \<in> set (fst (monitor_round mgr failing t c h a rt)) \<Longrightarrow> subscribed w (stats_key h c) rt
    \<and> (case mgr of None \<Rightarrow> True | Some (caps, visible) \<Rightarrow> ''containers.view'' \<in> caps w \<and> host_is_visible (Some h) (visible w))"
  by (auto simp: monitor_round_def Let_def case_prod_unfold subscribed_def dest: send_stats_sent
    split: if_splits poll.splits option.splits)


section \<open>The monitor as a machine\<close>

datatype rt_event =
    Subscribe nat string string
  | Unsubscribe nat string "string option"
  | UnsubscribeAll nat
  | Revoke nat "string set option"
  | StartStream string string
  | Round "((nat \<Rightarrow> string set) \<times> (nat \<Rightarrow> string set option)) option" "nat set" nat string string poll
  | StopAll

fun rt_step :: "realtime \<Rightarrow> rt_event \<Rightarrow> realtime" where
  "rt_step rt (Subscribe ws c h) = subscribe_to_stats ws c h rt"
| "rt_step rt (Unsubscribe ws c h) = unsubscribe_from_stats ws c h rt"
| "rt_step rt (UnsubscribeAll ws) = unsubscribe_all_stats ws rt"
| "rt_step rt (Revoke ws v) = revoke_hidden_subscriptions ws v rt"
| "rt_step rt (StartStream c h) = start_container_stats_stream c h rt"
| "rt_step rt (Round mgr failing t c h a) = snd (monitor_round mgr failing t c h a rt)"
| "rt_step rt StopAll = stop_all_monitoring rt"

text \<open>The sockets that receive statistics in a step, with the key of the container.\<close>

fun rt_sends :: "realtime \<Rightarrow> rt_event \<Rightarrow> (nat \<times> string) list" where
  "rt_sends rt (Round mgr failing t c h a) =
     map (\<lambda>ws. (ws, stats_key h c)) (fst (monitor_round mgr failing t c h a rt))"
| "rt_sends rt _ = []"

fun stays_in :: "nat \<Rightarrow> string set \<Rightarrow> rt_event \<Rightarrow> bool" where
  "stays_in ws v (Subscribe w c h) = (w \<noteq> ws \<or> host_of_composite_key (stats_key h c) \<in> v)"
| "stays_in ws v _ = True"

definition in_scope :: "nat \<Rightarrow> string set \<Rightarrow> realtime \<Rightarrow> bool" where
  "in_scope ws v rt = (\<forall>k. subscribed ws k rt \<longrightarrow> host_of_composite_key k \<in> v)"

lemma subscribed_other [simp]:
  "subscribed w k (start_container_stats_stream c h rt) = subscribed w k rt"
  "subscribed w k (stop_all_monitoring rt) = subscribed w k rt"
proof -
  have "subscribed w k (fold cancel_task ts rt) = subscribed w k rt" for ts
    by (induction ts arbitrary: rt) auto
  then show "subscribed w k (stop_all_monitoring rt) = subscribed w k rt"
    by (simp add: stop_all_monitoring_def subscribed_def)
qed (simp add: start_container_stats_stream_def subscribed_def Let_def)

lemma subscribed_revoke [simp]:
  "subscribed w k (revoke_hidden_subscriptions ws visible rt) \<longleftrightarrow>
     subscribed w k rt \<and> (case visible of None \<Rightarrow> True | Some v \<Rightarrow> w = ws \<longrightarrow> host_of_composite_key k \<in> v)"
  by (auto simp: revoke_hidden_subscriptions_def split: option.splits)

interpretation scoped: guarded_machine rt_step "stays_in ws v" "in_scope ws v" for ws v
proof unfold_locales
  fix e rt assume "stays_in ws v e" "in_scope ws v rt"
  then show "in_scope ws v (rt_step rt e)"
    by (cases e) (auto simp: in_scope_def unsubscribe_from_stats_def unsubscribe_all_stats_def
      dest: monitor_round_subscribed split: option.splits)
qed

lemma rt_sends_subscribed: "(w, k) \<in> set (rt_sends rt e) \<Longrightarrow> subscribed w k rt"
  by (cases e) (auto dest: monitor_round_sent)

text \<open>Proved as well: Once the subscriptions of a socket outside a set of hosts are revoked, no round of any stream sends
  the socket statistics of a container of a host outside the set, whatever happens until then, as
  long as the socket is not subscribed to such a container again.
\<close>

theorem revoked_stats_stay_revoked:
  assumes "list_all (stays_in ws v) es" and "(ws, key) \<in> set (rt_sends (run rt_step (revoke_hidden_subscriptions ws (Some v) rt) es) e)"
  shows "host_of_composite_key key \<in> v"
proof -
  have "in_scope ws v (revoke_hidden_subscriptions ws (Some v) rt)"
    by (simp add: in_scope_def)
  from scoped.run_ok [OF assms(1) this] rt_sends_subscribed [OF assms(2)]
  show ?thesis by (simp add: in_scope_def)
qed

lemma revoked_stats_stay_revoked_witness:
  "list_all (stays_in 1 {''h''}) [Subscribe 1 ''c'' ''h'', StartStream ''c'' ''h'']
   \<and> (1, ''h:c'') \<in> set (rt_sends
       (run rt_step (revoke_hidden_subscriptions 1 (Some {''h''}) (subscribe_to_stats 1 ''d'' ''g'' init_realtime))
         [Subscribe 1 ''c'' ''h'', StartStream ''c'' ''h'']) (Round None {} 0 ''c'' ''h'' Stats))
   \<and> host_of_composite_key ''h:c'' \<in> {''h''}"
proof -
  have a: "list_all (stays_in 1 {''h''}) [Subscribe 1 ''c'' ''h'', StartStream ''c'' ''h'']"
    by (simp add: host_of_composite_key_def stats_key_def)
  have b: "(1, ''h:c'') \<in> set (rt_sends
       (run rt_step (revoke_hidden_subscriptions 1 (Some {''h''}) (subscribe_to_stats 1 ''d'' ''g'' init_realtime))
         [Subscribe 1 ''c'' ''h'', StartStream ''c'' ''h'']) (Round None {} 0 ''c'' ''h'' Stats))"
    by code_simp
  from revoked_stats_stay_revoked [OF a b] a b show ?thesis by blast
qed

text \<open>A task that still runs is the one registered for its container; so a container has one stream at most.\<close>

definition streams_wf :: "realtime \<Rightarrow> bool" where
  "streams_wf rt =
     (distinct (live_tasks rt)
     \<and> (\<forall>(t, k) \<in> set (live_tasks rt). t < next_task rt \<and> dget (monitoring_tasks rt) k = Some t))"

lemma streams_wf_cancel [simp, intro]: "streams_wf rt \<Longrightarrow> streams_wf (cancel_task t rt)"
  by (auto simp: streams_wf_def cancel_task_def)

lemma streams_wf_subs [simp]: "streams_wf (rt\<lparr>stats_subscribers := x\<rparr>) = streams_wf rt"
  by (simp add: streams_wf_def)

lemma streams_wf_drop [simp, intro]: "streams_wf rt \<Longrightarrow> streams_wf (drop_subscriber ws key rt)"
  by (fastforce simp: streams_wf_def drop_subscriber_def cancel_task_def Let_def split: option.splits)

lemma streams_wf_drops: "streams_wf rt \<Longrightarrow> streams_wf (drop_where P ws rt)"
proof -
  have "streams_wf rt \<Longrightarrow> streams_wf (fold (drop_subscriber ws) ks rt)" for ks
    by (induction ks arbitrary: rt) auto
  then show "streams_wf rt \<Longrightarrow> streams_wf (drop_where P ws rt)" by (simp add: drop_where_def)
qed

lemma streams_wf_round: "streams_wf rt \<Longrightarrow> streams_wf (snd (monitor_round mgr failing t c h a rt))"
proof -
  have "streams_wf rt \<Longrightarrow> streams_wf (fold (\<lambda>ws. drop_subscriber ws key) dead rt)" for key dead
    by (induction dead arbitrary: rt) auto
  then show "streams_wf rt \<Longrightarrow> streams_wf (snd (monitor_round mgr failing t c h a rt))"
    by (auto simp: monitor_round_def Let_def case_prod_unfold split: poll.splits)
qed

lemma live_cancels: "live_tasks (fold cancel_task ts rt) = filter (\<lambda>(u, k). u \<notin> set ts) (live_tasks rt)"
  by (induction ts arbitrary: rt) (auto simp: cancel_task_def case_prod_unfold intro!: filter_cong)

lemma stop_all_live: "streams_wf rt \<Longrightarrow> live_tasks (stop_all_monitoring rt) = []"
  by (force simp: stop_all_monitoring_def live_cancels streams_wf_def filter_empty_conv dest: map_of_SomeD)

lemma streams_wf_empty: "live_tasks rt = [] \<Longrightarrow> streams_wf rt"
  by (simp add: streams_wf_def)

lemma streams_wf_start: "streams_wf rt \<Longrightarrow> streams_wf (start_container_stats_stream c h rt)"
  by (fastforce simp: start_container_stats_stream_def streams_wf_def Let_def dhas_def)

interpretation streams: machine rt_step streams_wf
proof unfold_locales
  fix rt e assume "streams_wf rt"
  then show "streams_wf (rt_step rt e)"
    by (cases e) (auto simp: subscribe_to_stats_def unsubscribe_from_stats_def unsubscribe_all_stats_def
      revoke_hidden_subscriptions_def Let_def intro: streams_wf_drops streams_wf_round streams_wf_start
      stop_all_live [THEN streams_wf_empty] split: option.splits)
qed


lemma streams_wf_one:
  assumes "streams_wf rt"
  shows "distinct (map snd (live_tasks rt))"
proof -
  have "inj_on snd (set (live_tasks rt))"
  proof (rule inj_onI)
    fix x y assume xy: "x \<in> set (live_tasks rt)" "y \<in> set (live_tasks rt)" "snd x = snd y"
    with assms have "dget (monitoring_tasks rt) (snd x) = Some (fst x)" "dget (monitoring_tasks rt) (snd y) = Some (fst y)"
      by (auto simp: streams_wf_def)
    with xy(3) show "x = y" by (simp add: prod_eq_iff)
  qed
  with assms show ?thesis by (simp add: distinct_map streams_wf_def)
qed

lemma streams_wf_registered:
  "streams_wf rt \<Longrightarrow> set (live_tasks rt) \<subseteq> (\<lambda>(k, t). (t, k)) ` set (monitoring_tasks rt)"
  by (force simp: streams_wf_def dest: map_of_SomeD)

text \<open>Proved as well: In every run of the monitor a container has at most one polling task running, and a polling task that
  runs is the one registered for its container, so that the last unsubscription cancels it and
  \<open>stop_all_monitoring\<close> leaves none.
\<close>

theorem one_stream_per_container:
  shows "distinct (map snd (live_tasks (run rt_step init_realtime es)))
    \<and> set (live_tasks (run rt_step init_realtime es))
        \<subseteq> (\<lambda>(k, t). (t, k)) ` set (monitoring_tasks (run rt_step init_realtime es))
    \<and> live_tasks (stop_all_monitoring (run rt_step init_realtime es)) = []"
proof -
  have "streams_wf init_realtime" by (simp add: streams_wf_def init_realtime_def)
  from streams.run_inv [OF this, of es] have wf: "streams_wf (run rt_step init_realtime es)" .
  then show ?thesis
    by (simp add: streams_wf_one streams_wf_registered stop_all_live)
qed

text \<open>
  A container that is not found ends its task but not the entry of the task: a later start finds the
  entry and does nothing, so the new subscriber never gets statistics while anyone stays subscribed.
\<close>

lemma lost_stream_not_restarted:
  "live_tasks (run rt_step init_realtime
     [Subscribe 1 ''c'' ''h'', StartStream ''c'' ''h'', Round None {} 0 ''c'' ''h'' NotFound,
      Subscribe 2 ''c'' ''h'', StartStream ''c'' ''h'']) = []
   \<and> subscribed 2 ''h:c'' (run rt_step init_realtime
     [Subscribe 1 ''c'' ''h'', StartStream ''c'' ''h'', Round None {} 0 ''c'' ''h'' NotFound,
      Subscribe 2 ''c'' ''h'', StartStream ''c'' ''h''])"
  by code_simp

end
