(* ===== verification/Broadcast.thy ===== *)
theory Broadcast
  imports StatsStreams
begin

text \<open>
  The WebSocket connections and what is sent on them (\<open>ConnectionManager\<close> of
  \<open>backend/websocket/connection.py\<close>). A socket is a number; the sections under the manager's lock hold
  no suspension point, so each is one step. Closing a socket is a line of the operation's result.
\<close>

section \<open>State\<close>

record conn_mgr =
  active_connections :: "nat list"
  connection_user_ids :: "(nat, int) pydict"
  connection_capabilities :: "(nat, string set) pydict"
  connection_visible_hosts :: "(nat, string set option) pydict"
  shell_sockets :: "(nat, int \<times> string) pydict"
  visibility_generation :: nat

definition init_mgr :: conn_mgr where
  "init_mgr = \<lparr>active_connections = [], connection_user_ids = [], connection_capabilities = [],
     connection_visible_hosts = [], shell_sockets = [], visibility_generation = 0\<rparr>"

type_synonym closed = "(nat \<times> nat) list" \<comment> \<open>socket and close code\<close>

definition MESSAGE_CAPABILITY_MAP :: "(string \<times> string option) list" where
  "MESSAGE_CAPABILITY_MAP =
     [(''containers_update'', Some ''containers.view''),
      (''container_recreated'', Some ''containers.view''),
      (''container_update_progress'', Some ''containers.view''),
      (''container_update_layer_progress'', Some ''containers.view''),
      (''container_update_warning'', Some ''containers.view''),
      (''container_update_complete'', Some ''containers.view''),
      (''container_stats'', Some ''containers.view''),
      (''auto_restart_success'', Some ''containers.view''),
      (''auto_restart_failed'', Some ''containers.view''),
      (''batch_job_update'', Some ''batch.view''),
      (''batch_item_update'', Some ''batch.view''),
      (''host_added'', Some ''hosts.view''),
      (''host_removed'', Some ''hosts.view''),
      (''host_migrated'', Some ''hosts.view''),
      (''host_status_changed'', Some ''hosts.view''),
      (''migration_choice_needed'', Some ''hosts.view''),
      (''new_event'', Some ''events.view''),
      (''agent_update_progress'', Some ''containers.view''),
      (''blackout_status_changed'', None),
      (''deployment_created'', Some ''stacks.view''),
      (''deployment_progress'', Some ''stacks.view''),
      (''deployment_completed'', Some ''stacks.view''),
      (''deployment_failed'', Some ''stacks.view''),
      (''deployment_rolled_back'', Some ''stacks.view''),
      (''deployment_service_progress'', Some ''stacks.view''),
      (''deployment_layer_progress'', Some ''stacks.view'')]"

section \<open>Connections\<close>

definition connect ::
    "auth_db \<Rightarrow> nat \<Rightarrow> int option \<Rightarrow> string set option \<Rightarrow> string set option \<Rightarrow> auth_cache \<Rightarrow> conn_mgr
      \<Rightarrow> conn_mgr \<times> auth_cache" where
  "connect db ws user_id capabilities visible_host_ids c mgr =
     (let (caps, c) = (case capabilities of
         Some caps \<Rightarrow> (caps, c)
       | None \<Rightarrow> (case user_id of
             None \<Rightarrow> ({}, c)
           | Some u \<Rightarrow> if u = 0 then ({}, c)
               else let (caps, c) = get_capabilities_for_user db c u in (set caps, c)))
      in (mgr\<lparr>active_connections := active_connections mgr @ [ws],
              connection_user_ids := (case user_id of None \<Rightarrow> connection_user_ids mgr
                | Some u \<Rightarrow> dset ws u (connection_user_ids mgr)),
              connection_capabilities := dset ws caps (connection_capabilities mgr),
              connection_visible_hosts := dset ws visible_host_ids (connection_visible_hosts mgr)\<rparr>, c))"

definition forget :: "nat \<Rightarrow> conn_mgr \<Rightarrow> conn_mgr" where
  "forget ws mgr =
     mgr\<lparr>active_connections := remove1 ws (active_connections mgr),
         connection_user_ids := ddel ws (connection_user_ids mgr),
         connection_capabilities := ddel ws (connection_capabilities mgr),
         connection_visible_hosts := ddel ws (connection_visible_hosts mgr)\<rparr>"

definition get_capabilities :: "nat \<Rightarrow> conn_mgr \<Rightarrow> string set" where
  "get_capabilities ws mgr = (case dget (connection_capabilities mgr) ws of None \<Rightarrow> {} | Some caps \<Rightarrow> caps)"

definition get_visible_hosts :: "nat \<Rightarrow> conn_mgr \<Rightarrow> string set option" where
  "get_visible_hosts ws mgr = (case dget (connection_visible_hosts mgr) ws of None \<Rightarrow> Some {} | Some v \<Rightarrow> v)"

definition set_visible_hosts :: "nat \<Rightarrow> string set option \<Rightarrow> conn_mgr \<Rightarrow> conn_mgr" where
  "set_visible_hosts ws visible_host_ids mgr =
     (if dhas (connection_capabilities mgr) ws
      then mgr\<lparr>connection_visible_hosts := dset ws visible_host_ids (connection_visible_hosts mgr)\<rparr> else mgr)"

section \<open>Broadcast\<close>

text \<open>The outer option is an exception, the inner \<open>None\<close> a message that is dropped.\<close>

definition scope_message :: "pyval \<Rightarrow> pyval \<Rightarrow> string set option \<Rightarrow> pyval option option" where
  "scope_message message msg_type visible =
     (case visible of
        None \<Rightarrow> Some (Some message)
      | Some v \<Rightarrow>
          (case msg_type of
             VStr t \<Rightarrow>
               (case map_of WS_HOST_VISIBILITY t of
                  None \<Rightarrow> Some None
                | Some PRUNE \<Rightarrow> map_option Some (filter_ws_host_visibility message (Some v))
                | Some (Rule rule) \<Rightarrow>
                    map_option (\<lambda>hosts. case hosts of
                        DROP \<Rightarrow> None
                      | Hosts hs \<Rightarrow> if all_in_scope hs v then Some message else None) (rule message))
           | _ \<Rightarrow> Some None))"

definition filter_container_message :: "auth_db \<Rightarrow> pyval \<Rightarrow> int option \<Rightarrow> auth_cache \<Rightarrow> pyval option \<times> auth_cache" where
  "filter_container_message db message user_id c =
     (let (can_view_env, c) = (case user_id of
          None \<Rightarrow> (False, c) | Some u \<Rightarrow> has_capability_for_user db ''containers.view_env'' c u)
      in (filter_ws_container_message message can_view_env, c))"

text \<open>What one connection gets; \<open>None\<close> when the message is dropped or its preparation raises.\<close>

definition prepare ::
    "auth_db \<Rightarrow> pyval \<Rightarrow> bool \<Rightarrow> string set option \<Rightarrow> int option \<Rightarrow> auth_cache \<Rightarrow> pyval option \<times> auth_cache" where
  "prepare db message filter_containers visible user_id c =
     (let msg_type = vget_or message ''type'' VNone in
      case scope_message message msg_type visible of
        None \<Rightarrow> (None, c)
      | Some None \<Rightarrow> (None, c)
      | Some (Some outgoing) \<Rightarrow>
          if filter_containers \<and> msg_type = VStr ''containers_update''
          then filter_container_message db outgoing user_id c
          else (Some outgoing, c))"

definition required_capability :: "pyval \<Rightarrow> string option" where
  "required_capability msg_type =
     (case msg_type of VStr t \<Rightarrow> (case map_of MESSAGE_CAPABILITY_MAP t of None \<Rightarrow> None | Some cap \<Rightarrow> cap) | _ \<Rightarrow> None)"

text \<open>
  The loop over the snapshot. A missing entry of the snapshot of scopes reads as \<open>None\<close>, which is
  no restriction. The result is what was delivered, who is dead, and the caches.
\<close>

fun send_loop ::
    "auth_db \<Rightarrow> pyval \<Rightarrow> bool \<Rightarrow> nat set \<Rightarrow> conn_mgr \<Rightarrow> nat list \<Rightarrow> auth_cache
      \<Rightarrow> (nat \<times> pyval) list \<times> nat list \<times> auth_cache" where
  "send_loop db message filter_containers failing snapshot [] c = ([], [], c)"
| "send_loop db message filter_containers failing snapshot (ws # conns) c =
     (let (payload, c) =
        (if (case required_capability (vget_or message ''type'' VNone) of
               None \<Rightarrow> False | Some cap \<Rightarrow> cap \<notin> get_capabilities ws snapshot) then (None, c)
         else prepare db message filter_containers
           (case dget (connection_visible_hosts snapshot) ws of None \<Rightarrow> None | Some v \<Rightarrow> v)
           (if filter_containers then dget (connection_user_ids snapshot) ws else None) c);
        (sent, dead, c) = send_loop db message filter_containers failing snapshot conns c
      in case payload of
           None \<Rightarrow> (sent, dead, c)
         | Some p \<Rightarrow> if ws \<in> failing then (sent, ws # dead, c) else ((ws, p) # sent, dead, c))"

definition broadcast ::
    "auth_db \<Rightarrow> pyval \<Rightarrow> bool \<Rightarrow> nat set \<Rightarrow> conn_mgr \<Rightarrow> auth_cache \<Rightarrow> (nat \<times> pyval) list \<times> conn_mgr \<times> auth_cache" where
  "broadcast db message filter_containers failing mgr c =
     (let (sent, dead, c) = send_loop db message filter_containers failing mgr (active_connections mgr) c
      in (sent, fold forget dead mgr, c))"

section \<open>Refreshing\<close>

definition bump :: "conn_mgr \<Rightarrow> conn_mgr" where
  "bump mgr = mgr\<lparr>visibility_generation := Suc (visibility_generation mgr)\<rparr>"

definition unregister_shell :: "nat \<Rightarrow> conn_mgr \<Rightarrow> conn_mgr" where
  "unregister_shell ws mgr = mgr\<lparr>shell_sockets := ddel ws (shell_sockets mgr)\<rparr>"

definition register_shell :: "nat \<Rightarrow> int \<Rightarrow> string \<Rightarrow> conn_mgr \<Rightarrow> conn_mgr" where
  "register_shell ws user_id host_id mgr = mgr\<lparr>shell_sockets := dset ws (user_id, host_id) (shell_sockets mgr)\<rparr>"

definition close_shells :: "nat \<Rightarrow> (int \<Rightarrow> string \<Rightarrow> bool) \<Rightarrow> conn_mgr \<Rightarrow> closed \<times> conn_mgr" where
  \<comment> \<open>close and unregister the shells that satisfy the test\<close>
  "close_shells code P mgr =
     (let gone = map fst (filter (\<lambda>(ws, uid, host_id). P uid host_id) (shell_sockets mgr))
      in (map (\<lambda>ws. (ws, code)) gone, fold unregister_shell gone mgr))"

definition close_shells_without_capability :: "(int, string set) pydict \<Rightarrow> conn_mgr \<Rightarrow> closed \<times> conn_mgr" where
  "close_shells_without_capability caps_by_user mgr =
     close_shells 4403 (\<lambda>uid _. case dget caps_by_user uid of None \<Rightarrow> False
        | Some caps \<Rightarrow> ''containers.shell'' \<notin> caps) mgr"

definition put_where :: "('k \<Rightarrow> bool) \<Rightarrow> ('k \<times> 'v) list \<Rightarrow> ('k, 'v) pydict \<Rightarrow> ('k, 'v) pydict" where
  "put_where P kvs d = fold (\<lambda>(k, v) d. if P k then dset k v d else d) kvs d"

definition refresh_capabilities_for_user ::
    "auth_db \<Rightarrow> int \<Rightarrow> auth_cache \<Rightarrow> conn_mgr \<Rightarrow> closed \<times> conn_mgr \<times> auth_cache" where
  "refresh_capabilities_for_user db user_id c mgr =
     (let (caps, c) = get_capabilities_for_user db c user_id;
          mine = filter (\<lambda>(ws, uid). uid = user_id) (connection_user_ids mgr);
          mgr = (bump mgr)\<lparr>connection_capabilities :=
            put_where (\<lambda>_. True) (map (\<lambda>(ws, uid). (ws, set caps)) mine) (connection_capabilities mgr)\<rparr>;
          (closed, mgr) = close_shells_without_capability [(user_id, set caps)] mgr
      in (closed, mgr, c))"

definition refresh_all_capabilities ::
    "auth_db \<Rightarrow> auth_cache \<Rightarrow> conn_mgr \<Rightarrow> closed \<times> conn_mgr \<times> auth_cache" where
  "refresh_all_capabilities db c mgr =
     (let ws_user_ids = connection_user_ids mgr;
          (found, c) = ask_each (get_capabilities_for_user db) c (map snd ws_user_ids);
          new_caps = zip (map fst ws_user_ids) (map set found);
          mgr = (bump mgr)\<lparr>connection_capabilities :=
            put_where (dhas (connection_capabilities mgr)) new_caps (connection_capabilities mgr)\<rparr>;
          shell_users = remdups (map (fst \<circ> snd) (shell_sockets mgr));
          (found, c) = ask_each (get_capabilities_for_user db) c shell_users;
          (closed, mgr) = close_shells_without_capability (zip shell_users (map set found)) mgr
      in (closed, mgr, c))"

definition disconnect_user :: "int \<Rightarrow> conn_mgr \<Rightarrow> closed \<times> conn_mgr" where
  "disconnect_user user_id mgr =
     (let mgr = bump mgr;
          sockets = map fst (filter (\<lambda>(ws, uid). uid = user_id) (connection_user_ids mgr));
          mgr' = fold forget sockets mgr;
          (closed, mgr') = close_shells 4401 (\<lambda>uid _. uid = user_id) mgr'
      in (map (\<lambda>ws. (ws, 4401)) sockets @ closed, mgr'))"

text \<open>\<open>refresh_visible_hosts_for_user\<close> and \<open>refresh_all_visible_hosts\<close> differ in whom they apply to.\<close>

definition refresh_visible_hosts ::
    "auth_db \<Rightarrow> (int \<Rightarrow> bool) \<Rightarrow> auth_cache \<Rightarrow> realtime \<Rightarrow> conn_mgr \<Rightarrow> closed \<times> conn_mgr \<times> realtime \<times> auth_cache" where
  "refresh_visible_hosts db applies_to c rt mgr =
     (let mgr = bump mgr;
          ws_user_ids = filter (\<lambda>(ws, uid). applies_to uid) (connection_user_ids mgr);
          shells = filter (\<lambda>(ws, uid, host_id). applies_to uid) (shell_sockets mgr);
          uids = remdups (map snd ws_user_ids @ map (fst \<circ> snd) shells);
          (found, c) = ask_each (\<lambda>c u. get_visible_host_ids_for_user db c (Some u)) c uids;
          per_user = (\<lambda>u. case map_of (zip uids found) u of None \<Rightarrow> Some {} | Some v \<Rightarrow> v);
          refreshed = map (\<lambda>(ws, uid). (ws, per_user uid))
            (filter (\<lambda>(ws, uid). dhas (connection_capabilities mgr) ws) ws_user_ids);
          mgr = mgr\<lparr>connection_visible_hosts :=
            put_where (\<lambda>_. True) refreshed (connection_visible_hosts mgr)\<rparr>;
          rt = fold (\<lambda>(ws, visible). revoke_hidden_subscriptions ws visible) refreshed rt;
          (closed, mgr) = close_shells 4404
            (\<lambda>uid host_id. applies_to uid \<and> \<not> host_is_visible (Some host_id) (per_user uid)) mgr
      in (closed, mgr, rt, c))"

end
