(* ===== verification/LiveUpdates.thy ===== *)
theory LiveUpdates
  imports Broadcast
begin

text \<open>
  Live updates against the tables: sockets join, permissions change, refreshes follow, messages are
  broadcast, in any order. The suspension point of joining (\<open>websocket.accept\<close> in the endpoint of
  \<open>main.py\<close>) makes it two steps, with the generation counter between them.
\<close>

section \<open>What refreshing does to the snapshot\<close>

interpretation user_hosts: read_through "\<lambda>c. perms_wf db \<and> agrees db c"
    "\<lambda>c u. get_visible_host_ids_for_user db c (Some u)" "\<lambda>u. visible_of db (groups_of db u)"
  for db
proof unfold_locales
  fix c u assume a: "perms_wf db \<and> agrees db c"
  from member_ids.ask_eq [OF a, of u] obtain c1
    where c1: "get_user_group_ids db c u = (groups_of db u, c1)" "perms_wf db \<and> agrees db c1" by blast
  from group_hosts.ask_eq [OF c1(2), of "groups_of db u"] c1(1)
  show "perms_wf db \<and> agrees db (snd (get_visible_host_ids_for_user db c (Some u)))"
    and "fst (get_visible_host_ids_for_user db c (Some u)) = visible_of db (groups_of db u)"
    by (auto simp: get_visible_host_ids_for_user_def)
qed

lemma dget_put_where: "dget (put_where P kvs d) k =
    (case map_of (rev kvs) k of None \<Rightarrow> dget d k | Some v \<Rightarrow> if P k then Some v else dget d k)"
proof (induction kvs arbitrary: d)
  case (Cons kv kvs)
  then show ?case
    by (cases kv) (auto simp: put_where_def map_add_def split: option.splits)
qed (simp add: put_where_def)

lemma map_of_rev_keys: "distinct (map fst kvs) \<Longrightarrow> map_of (rev kvs) = map_of kvs"
  by (metis map_of_inject_set distinct_rev rev_map set_rev)

lemma map_of_filter_map:
  "wf_dict d \<Longrightarrow> map_of (map (\<lambda>(k, v). (k, f v)) (filter (\<lambda>(k, v). P k v) d)) k =
     (case dget d k of None \<Rightarrow> None | Some v \<Rightarrow> if P k v then Some (f v) else None)"
  by (induction d) (auto simp: wf_dict_def split: option.splits dest: map_of_SomeD intro: rev_image_eqI)

lemma distinct_filter_map: "wf_dict d \<Longrightarrow> distinct (map fst (map (\<lambda>(k, v). (k, f v)) (filter (\<lambda>(k, v). P k v) d)))"
  using distinct_map_filter [of fst d "\<lambda>(k, v). P k v"] by (simp add: wf_dict_def comp_def case_prod_unfold)

lemma put_where_filter:
  assumes "wf_dict d"
  shows "dget (put_where Q (map (\<lambda>(k, v). (k, f v)) (filter (\<lambda>(k, v). P k v) d)) e) k =
     (case dget d k of None \<Rightarrow> dget e k | Some v \<Rightarrow> if P k v \<and> Q k then Some (f v) else dget e k)"
  unfolding dget_put_where map_of_rev_keys [OF distinct_filter_map [OF assms]] map_of_filter_map [OF assms]
  by (auto split: option.splits)

lemma unregister_shells: "fold unregister_shell gone mgr = mgr\<lparr>shell_sockets := ddel_all gone (shell_sockets mgr)\<rparr>"
  by (induction gone arbitrary: mgr) (simp_all add: unregister_shell_def ddel_all_def)

lemma close_shells_fields [simp]:
  "active_connections (snd (close_shells code P mgr)) = active_connections mgr"
  "connection_user_ids (snd (close_shells code P mgr)) = connection_user_ids mgr"
  "connection_capabilities (snd (close_shells code P mgr)) = connection_capabilities mgr"
  "connection_visible_hosts (snd (close_shells code P mgr)) = connection_visible_hosts mgr"
  "visibility_generation (snd (close_shells code P mgr)) = visibility_generation mgr"
  by (simp_all add: close_shells_def unregister_shells)


definition mgr_wf :: "conn_mgr \<Rightarrow> bool" where
  "mgr_wf mgr =
     (distinct (active_connections mgr) \<and> wf_dict (connection_user_ids mgr)
     \<and> (\<forall>ws. dhas (connection_user_ids mgr) ws \<longleftrightarrow> ws \<in> set (active_connections mgr))
     \<and> (\<forall>ws. dhas (connection_capabilities mgr) ws \<longleftrightarrow> ws \<in> set (active_connections mgr))
     \<and> (\<forall>ws. dhas (connection_visible_hosts mgr) ws \<longleftrightarrow> ws \<in> set (active_connections mgr)))"

abbreviation good_cache :: "auth_db \<Rightarrow> auth_cache \<Rightarrow> bool" where
  "good_cache db c \<equiv> perms_wf db \<and> agrees db c"

definition scope_of :: "auth_db \<Rightarrow> int \<Rightarrow> string set option" where
  "scope_of db u = visible_of db (groups_of db u)"

text \<open>A refresh gives the users of \<open>C\<close> their capabilities and those of \<open>H\<close> their hosts from the tables.\<close>

definition settles :: "auth_db \<Rightarrow> (int \<Rightarrow> bool) \<Rightarrow> (int \<Rightarrow> bool) \<Rightarrow> conn_mgr \<Rightarrow> conn_mgr \<Rightarrow> bool" where
  "settles db C H mgr mgr' =
     (mgr_wf mgr' \<and> visibility_generation mgr' = Suc (visibility_generation mgr)
     \<and> active_connections mgr' = active_connections mgr \<and> connection_user_ids mgr' = connection_user_ids mgr
     \<and> (\<forall>ws u. dget (connection_user_ids mgr) ws = Some u \<longrightarrow>
          dget (connection_capabilities mgr') ws =
            (if C u then Some (set (caps_of_user db u)) else dget (connection_capabilities mgr) ws)
          \<and> dget (connection_visible_hosts mgr') ws =
            (if H u then Some (scope_of db u) else dget (connection_visible_hosts mgr) ws)))"

lemma dhas_put_where:
  assumes "\<And>k. k \<in> fst ` set kvs \<Longrightarrow> dhas d k"
  shows "dhas (put_where P kvs d) k = dhas d k"
proof (cases "map_of (rev kvs) k")
  case (Some v)
  then have "dhas d k" using assms by (force dest: map_of_SomeD)
  with Some show ?thesis by (auto simp: dhas_def dget_put_where split: if_splits)
qed (simp add: dhas_def dget_put_where)

lemma refresh_capabilities_for_user_settles:
  assumes good: "good_cache db c" and wf: "mgr_wf mgr"
  shows "\<exists>closed mgr' c'. refresh_capabilities_for_user db u c mgr = (closed, mgr', c')
    \<and> good_cache db c' \<and> settles db (\<lambda>v. v = u) (\<lambda>_. False) mgr mgr'"
proof -
  from user_cap_list.ask_eq [OF good, of u] obtain c1
    where c1: "get_capabilities_for_user db c u = (caps_of_user db u, c1)" "good_cache db c1" by blast
  let ?mine = "map (\<lambda>(ws, uid). (ws, set (caps_of_user db u))) (filter (\<lambda>(ws, uid). uid = u) (connection_user_ids mgr))"
  let ?caps = "put_where (\<lambda>_. True) ?mine (connection_capabilities mgr)"
  let ?mgr = "(bump mgr)\<lparr>connection_capabilities := ?caps\<rparr>"
  have wfd: "wf_dict (connection_user_ids mgr)" using wf by (simp add: mgr_wf_def)
  have get: "dget ?caps ws = (case dget (connection_user_ids mgr) ws of None \<Rightarrow> dget (connection_capabilities mgr) ws
      | Some v \<Rightarrow> if v = u then Some (set (caps_of_user db u)) else dget (connection_capabilities mgr) ws)" for ws
    by (auto simp: put_where_filter [OF wfd] split: option.splits)
  have dom: "dhas ?caps ws = dhas (connection_capabilities mgr) ws" for ws
    by (rule dhas_put_where) (use wf in \<open>auto simp: mgr_wf_def dhas_iff_set [of "connection_user_ids mgr"] image_iff, fastforce\<close>)
  from c1 dom get wf
  have "settles db (\<lambda>v. v = u) (\<lambda>_. False) mgr (snd (close_shells_without_capability [(u, set (caps_of_user db u))] ?mgr))"
    by (auto simp: settles_def close_shells_without_capability_def mgr_wf_def bump_def)
  with c1 show ?thesis
    by (auto simp: refresh_capabilities_for_user_def Let_def case_prod_unfold)
qed

lemma zip_map_of: "map_of (zip ks (map f ks)) k = (if k \<in> set ks then Some (f k) else None)"
  by (induction ks) auto

lemma zip_items: "zip (map fst d) (map (\<lambda>kv. f (snd kv)) d) = map (\<lambda>(k, v). (k, f v)) d"
  by (induction d) auto

lemma refresh_all_capabilities_settles:
  assumes good: "good_cache db c" and wf: "mgr_wf mgr"
  shows "\<exists>closed mgr' c'. refresh_all_capabilities db c mgr = (closed, mgr', c')
    \<and> good_cache db c' \<and> settles db (\<lambda>_. True) (\<lambda>_. False) mgr mgr'"
proof -
  let ?uids = "connection_user_ids mgr"
  from user_cap_list.each_eq [OF good, of "map snd ?uids"] obtain c1
    where c1: "ask_each (get_capabilities_for_user db) c (map snd ?uids) = (map (caps_of_user db) (map snd ?uids), c1)"
      "good_cache db c1" by blast
  let ?shells = "remdups (map (fst \<circ> snd) (shell_sockets mgr))"
  from user_cap_list.each_eq [OF c1(2), of ?shells] obtain c2
    where c2: "ask_each (get_capabilities_for_user db) c1 ?shells = (map (caps_of_user db) ?shells, c2)" "good_cache db c2"
    by blast
  let ?new = "map (\<lambda>(ws, uid). (ws, set (caps_of_user db uid))) ?uids"
  let ?caps = "put_where (dhas (connection_capabilities mgr)) ?new (connection_capabilities mgr)"
  let ?mgr = "(bump mgr)\<lparr>connection_capabilities := ?caps\<rparr>"
  have zip: "zip (map fst ?uids) (map set (map (caps_of_user db) (map snd ?uids))) = ?new"
    using zip_items [of ?uids "\<lambda>u. set (caps_of_user db u)"] by (simp add: comp_def)
  have wfd: "wf_dict ?uids" using wf by (simp add: mgr_wf_def)
  have get: "dget ?caps ws = (case dget ?uids ws of None \<Rightarrow> dget (connection_capabilities mgr) ws
      | Some v \<Rightarrow> if dhas (connection_capabilities mgr) ws then Some (set (caps_of_user db v))
          else dget (connection_capabilities mgr) ws)" for ws
    using put_where_filter [OF wfd, of "dhas (connection_capabilities mgr)" "\<lambda>uid. set (caps_of_user db uid)" "\<lambda>_ _. True"]
    by (auto split: option.splits)
  have dom: "dhas ?caps ws = dhas (connection_capabilities mgr) ws" for ws
    using wf get [of ws] by (auto simp: mgr_wf_def dhas_def split: option.splits)
  from dom get wf
  have "settles db (\<lambda>_. True) (\<lambda>_. False) mgr (snd (close_shells_without_capability x ?mgr))" for x
    by (auto simp: settles_def close_shells_without_capability_def mgr_wf_def bump_def dhas_def)
  with c1 c2 zip show ?thesis
    by (auto simp: refresh_all_capabilities_def Let_def case_prod_unfold bump_def)
qed


lemma refresh_visible_hosts_settles:
  assumes good: "good_cache db c" and wf: "mgr_wf mgr"
  shows "\<exists>closed mgr' rt' c'. refresh_visible_hosts db applies_to c rt mgr = (closed, mgr', rt', c')
    \<and> good_cache db c' \<and> settles db (\<lambda>_. False) applies_to mgr mgr'"
proof -
  let ?uids = "connection_user_ids mgr"
  let ?mine = "filter (\<lambda>(ws, uid). applies_to uid) ?uids"
  let ?users = "remdups (map snd ?mine @ map (fst \<circ> snd) (filter (\<lambda>(ws, uid, host_id). applies_to uid) (shell_sockets mgr)))"
  from user_hosts.each_eq [OF good, of ?users] obtain c1
    where c1: "ask_each (\<lambda>c u. get_visible_host_ids_for_user db c (Some u)) c ?users = (map (scope_of db) ?users, c1)"
      "good_cache db c1" by (auto simp: scope_of_def)
  let ?per = "\<lambda>u. case map_of (zip ?users (map (scope_of db) ?users)) u of None \<Rightarrow> Some {} | Some v \<Rightarrow> v"
  let ?ref = "map (\<lambda>(ws, uid). (ws, ?per uid)) (filter (\<lambda>(ws, uid). dhas (connection_capabilities mgr) ws) ?mine)"
  let ?vis = "put_where (\<lambda>_. True) ?ref (connection_visible_hosts mgr)"
  let ?mgr = "(bump mgr)\<lparr>connection_visible_hosts := ?vis\<rparr>"
  have wfd: "wf_dict ?uids" using wf by (simp add: mgr_wf_def)
  have per: "?per uid = scope_of db uid" if "(ws, uid) \<in> set ?uids" "applies_to uid" for ws uid
    using that by (subst zip_map_of) (auto intro: rev_image_eqI)
  have ref: "?ref = map (\<lambda>(ws, uid). (ws, scope_of db uid))
      (filter (\<lambda>(ws, uid). applies_to uid \<and> dhas (connection_capabilities mgr) ws) ?uids)"
    using per by (auto simp: case_prod_unfold intro!: map_cong filter_cong)
  have get: "dget ?vis ws = (case dget ?uids ws of None \<Rightarrow> dget (connection_visible_hosts mgr) ws
      | Some u \<Rightarrow> if applies_to u \<and> dhas (connection_capabilities mgr) ws then Some (scope_of db u)
          else dget (connection_visible_hosts mgr) ws)" for ws
    unfolding ref by (auto simp: put_where_filter [OF wfd] split: option.splits)
  have dom: "dhas ?vis ws = dhas (connection_visible_hosts mgr) ws" for ws
    using wf get [of ws] by (auto simp: mgr_wf_def dhas_def split: option.splits if_splits)
  from dom get wf
  have "settles db (\<lambda>_. False) applies_to mgr (snd (close_shells code P ?mgr))" for code P
    by (auto simp: settles_def mgr_wf_def bump_def dhas_def)
  with c1 show ?thesis
    by (auto simp: refresh_visible_hosts_def Let_def case_prod_unfold bump_def)
qed

lemma forgets: "fold forget ss mgr = mgr\<lparr>active_connections := fold remove1 ss (active_connections mgr),
     connection_user_ids := ddel_all ss (connection_user_ids mgr),
     connection_capabilities := ddel_all ss (connection_capabilities mgr),
     connection_visible_hosts := ddel_all ss (connection_visible_hosts mgr)\<rparr>"
  by (induction ss arbitrary: mgr) (simp_all add: forget_def ddel_all_def)

lemma removes: "distinct xs \<Longrightarrow> distinct (fold remove1 ss xs) \<and> set (fold remove1 ss xs) = set xs - set ss"
  by (induction ss arbitrary: xs) auto

lemma forgets_wf: "mgr_wf mgr \<Longrightarrow> mgr_wf (fold forget ss mgr)"
  using removes [of "active_connections mgr" ss] by (auto simp: mgr_wf_def forgets dhas_def)


section \<open>The world of the live connections\<close>

record joining =
  j_ws :: nat
  j_user :: int
  j_caps :: "string set"
  j_generation :: nat
  j_visible :: "string set option"

text \<open>
  The last three fields are not in the program: for which users the tables changed since the refresh of
  their capabilities, of their hosts, and since the disconnection of a deleted user.
\<close>

record world =
  w_db :: auth_db
  w_cache :: auth_cache
  w_mgr :: conn_mgr
  w_rt :: realtime
  w_joining :: "joining list"
  w_owes_caps :: "int \<Rightarrow> bool"
  w_owes_hosts :: "int \<Rightarrow> bool"
  w_owes_gone :: "int \<Rightarrow> bool"

definition exists_user :: "auth_db \<Rightarrow> int \<Rightarrow> bool" where
  "exists_user db u = list_ex (\<lambda>r. u_id r = u) (db_users db)"

definition init_world :: "auth_db \<Rightarrow> world" where
  "init_world db = \<lparr>w_db = db, w_cache = empty_auth_cache, w_mgr = init_mgr, w_rt = init_realtime, w_joining = [],
     w_owes_caps = (\<lambda>_. False), w_owes_hosts = (\<lambda>_. False), w_owes_gone = (\<lambda>_. False)\<rparr>"

definition begin_join :: "nat \<Rightarrow> int \<Rightarrow> world \<Rightarrow> world" where
  \<comment> \<open>the endpoint up to \<open>websocket.accept\<close>\<close>
  "begin_join ws u w =
     (let (caps, c) = get_capabilities_for_user (w_db w) (w_cache w) u;
          (can_view_env, c) = has_capability_for_user (w_db w) ''containers.view_env'' c u;
          generation = visibility_generation (w_mgr w);
          (visible, c) = get_visible_host_ids_for_user (w_db w) c (Some u)
      in w\<lparr>w_cache := c, w_joining := w_joining w @
           [\<lparr>j_ws = ws, j_user = u, j_caps = set caps, j_generation = generation, j_visible = visible\<rparr>]\<rparr>)"

definition leave :: "nat \<Rightarrow> world \<Rightarrow> world" where
  \<comment> \<open>the \<open>finally\<close> of the endpoint\<close>
  "leave ws w = w\<lparr>w_mgr := forget ws (w_mgr w),
     w_rt := unsubscribe_all_stats ws (unsubscribe_from_events ws (w_rt w)),
     w_joining := filter (\<lambda>p. j_ws p \<noteq> ws) (w_joining w)\<rparr>"

definition finish_join :: "joining \<Rightarrow> world \<Rightarrow> world" where
  \<comment> \<open>the endpoint after \<open>websocket.accept\<close>, up to the subscription to the events\<close>
  "finish_join p w =
     (let w = w\<lparr>w_joining := filter (\<lambda>q. j_ws q \<noteq> j_ws p) (w_joining w)\<rparr>;
          (mgr, c) = connect (w_db w) (j_ws p) (Some (j_user p)) (Some (j_caps p)) (j_visible p) (w_cache w) (w_mgr w)
      in if visibility_generation mgr = j_generation p
         then w\<lparr>w_mgr := mgr, w_cache := c, w_rt := subscribe_to_events (j_ws p) (w_rt w)\<rparr>
         else if \<not> exists_user (w_db w) (j_user p) then leave (j_ws p) (w\<lparr>w_mgr := mgr, w_cache := c\<rparr>)
         else
           let (_, mgr, c) = refresh_capabilities_for_user (w_db w) (j_user p) c mgr;
               (_, mgr, rt, c) = refresh_visible_hosts (w_db w) (\<lambda>uid. uid = j_user p) c (w_rt w) mgr
           in w\<lparr>w_mgr := mgr, w_cache := c, w_rt := subscribe_to_events (j_ws p) rt,
                w_owes_caps := (w_owes_caps w)(j_user p := False),
                w_owes_hosts := (w_owes_hosts w)(j_user p := False)\<rparr>)"

definition change :: "auth_db \<Rightarrow> auth_cache \<Rightarrow> world \<Rightarrow> world" where
  \<comment> \<open>a handler commits and invalidates what it must of the caches\<close>
  "change db c w = w\<lparr>w_db := db, w_cache := c,
     w_owes_caps := (\<lambda>u. w_owes_caps w u \<or> caps_of_user db u \<noteq> caps_of_user (w_db w) u),
     w_owes_hosts := (\<lambda>u. w_owes_hosts w u \<or> scope_of db u \<noteq> scope_of (w_db w) u),
     w_owes_gone := (\<lambda>u. w_owes_gone w u \<or> exists_user (w_db w) u \<and> \<not> exists_user db u)\<rparr>"

definition refresh_user_caps :: "int \<Rightarrow> world \<Rightarrow> world" where
  "refresh_user_caps u w =
     (let (_, mgr, c) = refresh_capabilities_for_user (w_db w) u (w_cache w) (w_mgr w)
      in w\<lparr>w_mgr := mgr, w_cache := c, w_owes_caps := (w_owes_caps w)(u := False)\<rparr>)"

definition refresh_caps :: "world \<Rightarrow> world" where
  "refresh_caps w =
     (let (_, mgr, c) = refresh_all_capabilities (w_db w) (w_cache w) (w_mgr w)
      in w\<lparr>w_mgr := mgr, w_cache := c, w_owes_caps := (\<lambda>_. False)\<rparr>)"

definition refresh_hosts :: "(int \<Rightarrow> bool) \<Rightarrow> world \<Rightarrow> world" where
  "refresh_hosts applies_to w =
     (let (_, mgr, rt, c) = refresh_visible_hosts (w_db w) applies_to (w_cache w) (w_rt w) (w_mgr w)
      in w\<lparr>w_mgr := mgr, w_cache := c, w_rt := rt, w_owes_hosts := (\<lambda>u. w_owes_hosts w u \<and> \<not> applies_to u)\<rparr>)"

definition drop_user_sockets :: "int \<Rightarrow> world \<Rightarrow> world" where
  "drop_user_sockets u w = w\<lparr>w_mgr := snd (disconnect_user u (w_mgr w)), w_owes_gone := (w_owes_gone w)(u := False)\<rparr>"

definition send :: "pyval \<Rightarrow> bool \<Rightarrow> nat set \<Rightarrow> world \<Rightarrow> (nat \<times> pyval) list \<times> world" where
  "send message filter_containers failing w =
     (let (sent, mgr, c) = broadcast (w_db w) message filter_containers failing (w_mgr w) (w_cache w)
      in (sent, w\<lparr>w_mgr := mgr, w_cache := c\<rparr>))"

definition fresh_socket :: "nat \<Rightarrow> world \<Rightarrow> bool" where
  "fresh_socket ws w = (ws \<notin> set (active_connections (w_mgr w)) \<and> ws \<notin> j_ws ` set (w_joining w))"

inductive live_step :: "world \<Rightarrow> world \<Rightarrow> bool" where
  joining: "fresh_socket ws w \<Longrightarrow> u \<noteq> 0 \<Longrightarrow> exists_user (w_db w) u \<Longrightarrow> live_step w (begin_join ws u w)"
| joined: "p \<in> set (w_joining w) \<Longrightarrow> live_step w (finish_join p w)"
| left: "live_step w (leave ws w)"
| changed: "good_cache db c \<Longrightarrow> live_step w (change db c w)"
| refreshed_user: "live_step w (refresh_user_caps u w)"
| refreshed_all: "live_step w (refresh_caps w)"
| rescoped: "live_step w (refresh_hosts applies_to w)"
| evicted: "live_step w (drop_user_sockets u w)"
| sent: "live_step w (snd (send message filter_containers failing w))"

inductive live :: "auth_db \<Rightarrow> world \<Rightarrow> bool" for db where
  start: "perms_wf db \<Longrightarrow> live db (init_world db)"
| step: "live db w \<Longrightarrow> live_step w w' \<Longrightarrow> live db w'"

section \<open>The invariant\<close>

definition up_to_date :: "world \<Rightarrow> int \<Rightarrow> string set option \<Rightarrow> string set option option \<Rightarrow> bool" where
  "up_to_date w u caps visible =
     ((w_owes_caps w u \<or> caps = Some (set (caps_of_user (w_db w) u)))
     \<and> (w_owes_hosts w u \<or> visible = Some (scope_of (w_db w) u))
     \<and> (w_owes_gone w u \<or> exists_user (w_db w) u))"

definition live_inv :: "world \<Rightarrow> bool" where
  "live_inv w =
     (good_cache (w_db w) (w_cache w) \<and> mgr_wf (w_mgr w)
     \<and> (\<forall>ws u. dget (connection_user_ids (w_mgr w)) ws = Some u \<longrightarrow>
          up_to_date w u (dget (connection_capabilities (w_mgr w)) ws) (dget (connection_visible_hosts (w_mgr w)) ws))
     \<and> (\<forall>p \<in> set (w_joining w). j_ws p \<notin> set (active_connections (w_mgr w))
          \<and> j_generation p \<le> visibility_generation (w_mgr w)
          \<and> (j_generation p = visibility_generation (w_mgr w) \<longrightarrow>
               up_to_date w (j_user p) (Some (j_caps p)) (Some (j_visible p)))))"


lemma live_inv_settled:
  assumes inv: "live_inv w" and s: "settles (w_db w) C H (w_mgr w) mgr" and c: "good_cache (w_db w) c"
    and owes: "\<And>u. \<not> oc u \<Longrightarrow> C u \<or> \<not> w_owes_caps w u" "\<And>u. \<not> oh u \<Longrightarrow> H u \<or> \<not> w_owes_hosts w u"
  shows "live_inv (w\<lparr>w_mgr := mgr, w_cache := c, w_owes_caps := oc, w_owes_hosts := oh\<rparr>)"
  unfolding live_inv_def
proof (intro conjI ballI allI impI; (simp add: c; fail)?)
  show "mgr_wf (w_mgr (w\<lparr>w_mgr := mgr, w_cache := c, w_owes_caps := oc, w_owes_hosts := oh\<rparr>))"
    using s by (simp add: settles_def)
next
  fix ws u
  assume "dget (connection_user_ids (w_mgr (w\<lparr>w_mgr := mgr, w_cache := c, w_owes_caps := oc, w_owes_hosts := oh\<rparr>))) ws = Some u"
  with s have u: "dget (connection_user_ids (w_mgr w)) ws = Some u" by (simp add: settles_def)
  with inv have "up_to_date w u (dget (connection_capabilities (w_mgr w)) ws) (dget (connection_visible_hosts (w_mgr w)) ws)"
    by (simp add: live_inv_def)
  with s u owes [of u] show "up_to_date (w\<lparr>w_mgr := mgr, w_cache := c, w_owes_caps := oc, w_owes_hosts := oh\<rparr>) u
     (dget (connection_capabilities (w_mgr (w\<lparr>w_mgr := mgr, w_cache := c, w_owes_caps := oc, w_owes_hosts := oh\<rparr>))) ws)
     (dget (connection_visible_hosts (w_mgr (w\<lparr>w_mgr := mgr, w_cache := c, w_owes_caps := oc, w_owes_hosts := oh\<rparr>))) ws)"
    by (auto simp: up_to_date_def settles_def)
next
  fix p assume "p \<in> set (w_joining (w\<lparr>w_mgr := mgr, w_cache := c, w_owes_caps := oc, w_owes_hosts := oh\<rparr>))"
  with inv have "j_ws p \<notin> set (active_connections (w_mgr w))" "j_generation p \<le> visibility_generation (w_mgr w)"
    by (auto simp: live_inv_def)
  with s show "j_ws p \<notin> set (active_connections (w_mgr (w\<lparr>w_mgr := mgr, w_cache := c, w_owes_caps := oc, w_owes_hosts := oh\<rparr>)))"
    and "j_generation p \<le> visibility_generation (w_mgr (w\<lparr>w_mgr := mgr, w_cache := c, w_owes_caps := oc, w_owes_hosts := oh\<rparr>))"
    and "j_generation p = visibility_generation (w_mgr (w\<lparr>w_mgr := mgr, w_cache := c, w_owes_caps := oc, w_owes_hosts := oh\<rparr>)) \<Longrightarrow>
      up_to_date (w\<lparr>w_mgr := mgr, w_cache := c, w_owes_caps := oc, w_owes_hosts := oh\<rparr>) (j_user p) (Some (j_caps p)) (Some (j_visible p))"
    by (auto simp: settles_def)
qed

lemma live_inv_rt [simp]: "live_inv (w\<lparr>w_rt := rt\<rparr>) = live_inv w"
  by (simp add: live_inv_def up_to_date_def)

lemma live_inv_refresh_user: "live_inv w \<Longrightarrow> live_inv (refresh_user_caps u w)"
proof -
  assume inv: "live_inv w"
  then obtain closed mgr c where r: "refresh_capabilities_for_user (w_db w) u (w_cache w) (w_mgr w) = (closed, mgr, c)"
    "good_cache (w_db w) c" "settles (w_db w) (\<lambda>v. v = u) (\<lambda>_. False) (w_mgr w) mgr"
    using refresh_capabilities_for_user_settles [of "w_db w" "w_cache w" "w_mgr w" u] by (auto simp: live_inv_def)
  from live_inv_settled [OF inv r(3,2), of "(w_owes_caps w)(u := False)" "w_owes_hosts w"] r(1)
  show ?thesis by (auto simp: refresh_user_caps_def split: if_splits)
qed

lemma live_inv_refresh: "live_inv w \<Longrightarrow> live_inv (refresh_caps w)"
proof -
  assume inv: "live_inv w"
  then obtain closed mgr c where r: "refresh_all_capabilities (w_db w) (w_cache w) (w_mgr w) = (closed, mgr, c)"
    "good_cache (w_db w) c" "settles (w_db w) (\<lambda>_. True) (\<lambda>_. False) (w_mgr w) mgr"
    using refresh_all_capabilities_settles [of "w_db w" "w_cache w" "w_mgr w"] by (auto simp: live_inv_def)
  from live_inv_settled [OF inv r(3,2), of "\<lambda>_. False" "w_owes_hosts w"] r(1)
  show ?thesis by (simp add: refresh_caps_def)
qed

lemma live_inv_rescope: "live_inv w \<Longrightarrow> live_inv (refresh_hosts applies_to w)"
proof -
  assume inv: "live_inv w"
  then obtain closed mgr rt c where
    r: "refresh_visible_hosts (w_db w) applies_to (w_cache w) (w_rt w) (w_mgr w) = (closed, mgr, rt, c)"
    "good_cache (w_db w) c" "settles (w_db w) (\<lambda>_. False) applies_to (w_mgr w) mgr"
    using refresh_visible_hosts_settles [of "w_db w" "w_cache w" "w_mgr w" applies_to "w_rt w"] by (auto simp: live_inv_def)
  have "live_inv (w\<lparr>w_mgr := mgr, w_cache := c, w_owes_caps := w_owes_caps w,
      w_owes_hosts := \<lambda>u. w_owes_hosts w u \<and> \<not> applies_to u\<rparr>)"
    by (rule live_inv_settled [OF inv r(3,2)]) auto
  with r(1) show ?thesis by (simp add: refresh_hosts_def live_inv_def up_to_date_def)
qed

lemma live_inv_forgets:
  assumes "live_inv w"
  shows "live_inv (w\<lparr>w_mgr := fold forget ss (w_mgr w)\<rparr>)"
  using assms forgets_wf [of "w_mgr w" ss] removes [of "active_connections (w_mgr w)" ss]
  by (auto simp: live_inv_def forgets up_to_date_def mgr_wf_def)

lemma live_inv_leave: "live_inv w \<Longrightarrow> live_inv (leave ws w)"
  using live_inv_forgets [of w "[ws]"] by (auto simp: leave_def live_inv_def up_to_date_def)

lemma live_inv_change: "live_inv w \<Longrightarrow> good_cache db c \<Longrightarrow> live_inv (change db c w)"
  by (auto simp: live_inv_def change_def up_to_date_def)

lemma live_inv_evict:
  assumes "live_inv w"
  shows "live_inv (drop_user_sockets u w)"
proof -
  let ?ss = "map fst (filter (\<lambda>(ws, uid). uid = u) (connection_user_ids (w_mgr w)))"
  have wf: "wf_dict (connection_user_ids (w_mgr w))" using assms by (simp add: live_inv_def mgr_wf_def)
  have gone: "v \<noteq> u" if "dget (connection_user_ids (w_mgr w)) ws = Some v" "ws \<notin> set ?ss" for ws v
    using that by (force dest: map_of_SomeD)
  have s: "connection_user_ids (bump mgr) = connection_user_ids mgr" for mgr by (simp add: bump_def)
  have mgr: "mgr_wf (fold forget ?ss (bump (w_mgr w)))"
    using assms by (intro forgets_wf) (simp add: live_inv_def mgr_wf_def bump_def)
  show ?thesis
    unfolding live_inv_def
  proof (intro conjI)
    show "mgr_wf (w_mgr (drop_user_sockets u w))"
      using mgr by (simp add: drop_user_sockets_def disconnect_user_def Let_def case_prod_unfold s mgr_wf_def)
    show "\<forall>ws v. dget (connection_user_ids (w_mgr (drop_user_sockets u w))) ws = Some v \<longrightarrow>
        up_to_date (drop_user_sockets u w) v (dget (connection_capabilities (w_mgr (drop_user_sockets u w))) ws)
          (dget (connection_visible_hosts (w_mgr (drop_user_sockets u w))) ws)"
      using assms gone
      by (auto simp: drop_user_sockets_def disconnect_user_def Let_def case_prod_unfold s forgets live_inv_def
        up_to_date_def bump_def split: if_splits)
    show "\<forall>p\<in>set (w_joining (drop_user_sockets u w)). j_ws p \<notin> set (active_connections (w_mgr (drop_user_sockets u w)))
        \<and> j_generation p \<le> visibility_generation (w_mgr (drop_user_sockets u w))
        \<and> (j_generation p = visibility_generation (w_mgr (drop_user_sockets u w)) \<longrightarrow>
             up_to_date (drop_user_sockets u w) (j_user p) (Some (j_caps p)) (Some (j_visible p)))"
      using assms removes [of "active_connections (w_mgr w)" ?ss]
      by (fastforce simp: drop_user_sockets_def disconnect_user_def Let_def case_prod_unfold s forgets live_inv_def
        mgr_wf_def bump_def)
  qed (use assms in \<open>simp_all add: drop_user_sockets_def live_inv_def\<close>)
qed


lemma live_inv_begin: "live_inv w \<Longrightarrow> fresh_socket ws w \<Longrightarrow> exists_user (w_db w) u \<Longrightarrow> live_inv (begin_join ws u w)"
proof -
  assume inv: "live_inv w" and fresh: "fresh_socket ws w" and ex: "exists_user (w_db w) u"
  from inv have g: "good_cache (w_db w) (w_cache w)" by (simp add: live_inv_def)
  from user_cap_list.ask_eq [OF g, of u] obtain c1
    where c1: "get_capabilities_for_user (w_db w) (w_cache w) u = (caps_of_user (w_db w) u, c1)" "good_cache (w_db w) c1"
    by blast
  from user_caps.ask_eq [OF c1(2), of "''containers.view_env''" u] obtain b c2
    where c2: "has_capability_for_user (w_db w) ''containers.view_env'' c1 u = (b, c2)" "good_cache (w_db w) c2" by blast
  from user_hosts.ask_eq [OF c2(2), of u] obtain c3
    where c3: "get_visible_host_ids_for_user (w_db w) c2 (Some u) = (scope_of (w_db w) u, c3)" "good_cache (w_db w) c3"
    by (auto simp: scope_of_def)
  from inv fresh ex c1 c2 c3 show ?thesis
    by (auto simp: live_inv_def begin_join_def up_to_date_def fresh_socket_def)
qed

lemma connect_given: "connect db ws (Some u) (Some caps) visible c mgr =
    (mgr\<lparr>active_connections := active_connections mgr @ [ws],
         connection_user_ids := dset ws u (connection_user_ids mgr),
         connection_capabilities := dset ws caps (connection_capabilities mgr),
         connection_visible_hosts := dset ws visible (connection_visible_hosts mgr)\<rparr>, c)"
  by (simp add: connect_def)

text \<open>A joining socket is registered with what was read before; its user counts as owed until the generation is checked.\<close>

lemma live_inv_registered:
  assumes inv: "live_inv w" and p: "p \<in> set (w_joining w)"
    and mgr: "connect (w_db w) (j_ws p) (Some (j_user p)) (Some (j_caps p)) (j_visible p) (w_cache w) (w_mgr w) = (mgr, c)"
    and up: "up_to_date (w\<lparr>w_owes_caps := oc, w_owes_hosts := oh, w_owes_gone := og\<rparr>) (j_user p) (Some (j_caps p)) (Some (j_visible p))"
    and owes: "\<And>u. w_owes_caps w u \<Longrightarrow> oc u" "\<And>u. w_owes_hosts w u \<Longrightarrow> oh u" "\<And>u. w_owes_gone w u \<Longrightarrow> og u"
  shows "live_inv (w\<lparr>w_joining := filter (\<lambda>q. j_ws q \<noteq> j_ws p) (w_joining w), w_mgr := mgr, w_cache := c,
    w_owes_caps := oc, w_owes_hosts := oh, w_owes_gone := og\<rparr>)"
proof -
  have m: "mgr = (w_mgr w)\<lparr>active_connections := active_connections (w_mgr w) @ [j_ws p],
         connection_user_ids := dset (j_ws p) (j_user p) (connection_user_ids (w_mgr w)),
         connection_capabilities := dset (j_ws p) (j_caps p) (connection_capabilities (w_mgr w)),
         connection_visible_hosts := dset (j_ws p) (j_visible p) (connection_visible_hosts (w_mgr w))\<rparr>"
    and c: "c = w_cache w"
    using mgr by (simp_all add: connect_given)
  have "mgr_wf mgr" using inv p by (auto simp: m mgr_wf_def live_inv_def)
  have more: "up_to_date (w\<lparr>w_owes_caps := oc, w_owes_hosts := oh, w_owes_gone := og\<rparr>) u x y"
    if "up_to_date w u x y" for u x y
    using that owes by (auto simp: up_to_date_def)
  have other: "up_to_date (w\<lparr>w_joining := j, w_mgr := k, w_cache := l, w_owes_caps := oc, w_owes_hosts := oh, w_owes_gone := og\<rparr>) =
      up_to_date (w\<lparr>w_owes_caps := oc, w_owes_hosts := oh, w_owes_gone := og\<rparr>)" for j k l
    by (simp add: up_to_date_def fun_eq_iff)
  show ?thesis
    unfolding live_inv_def other
  proof (intro conjI allI impI ballI)
    fix ws u assume "dget (connection_user_ids (w_mgr (w\<lparr>w_joining := filter (\<lambda>q. j_ws q \<noteq> j_ws p) (w_joining w),
        w_mgr := mgr, w_cache := c, w_owes_caps := oc, w_owes_hosts := oh, w_owes_gone := og\<rparr>))) ws = Some u"
    then show "up_to_date (w\<lparr>w_owes_caps := oc, w_owes_hosts := oh, w_owes_gone := og\<rparr>) u
       (dget (connection_capabilities (w_mgr (w\<lparr>w_joining := filter (\<lambda>q. j_ws q \<noteq> j_ws p) (w_joining w),
        w_mgr := mgr, w_cache := c, w_owes_caps := oc, w_owes_hosts := oh, w_owes_gone := og\<rparr>))) ws)
       (dget (connection_visible_hosts (w_mgr (w\<lparr>w_joining := filter (\<lambda>q. j_ws q \<noteq> j_ws p) (w_joining w),
        w_mgr := mgr, w_cache := c, w_owes_caps := oc, w_owes_hosts := oh, w_owes_gone := og\<rparr>))) ws)"
      using inv up by (cases "ws = j_ws p") (auto simp: m live_inv_def intro: more)
  qed (use inv \<open>mgr_wf mgr\<close> more in \<open>auto simp: live_inv_def m c\<close>)
qed

lemma live_inv_finish:
  assumes inv: "live_inv w" and p: "p \<in> set (w_joining w)"
  shows "live_inv (finish_join p w)"
proof -
  obtain mgr c where mgr: "connect (w_db w) (j_ws p) (Some (j_user p)) (Some (j_caps p)) (j_visible p) (w_cache w) (w_mgr w) = (mgr, c)"
    by fastforce
  then have gen: "visibility_generation mgr = visibility_generation (w_mgr w)" by (auto simp: connect_given)
  let ?w = "w\<lparr>w_joining := filter (\<lambda>q. j_ws q \<noteq> j_ws p) (w_joining w)\<rparr>"
  show ?thesis
  proof (cases "visibility_generation mgr = j_generation p")
    case True
    have "live_inv (?w\<lparr>w_mgr := mgr, w_cache := c, w_owes_caps := w_owes_caps w, w_owes_hosts := w_owes_hosts w,
        w_owes_gone := w_owes_gone w\<rparr>)"
      using inv p True gen by (intro live_inv_registered [OF inv p mgr]) (auto simp: live_inv_def)
    with True mgr show ?thesis
      by (simp add: finish_join_def live_inv_def up_to_date_def)
  next
    case False
    let ?oc = "(w_owes_caps w)(j_user p := True)" and ?oh = "(w_owes_hosts w)(j_user p := True)"
    show ?thesis
    proof (cases "exists_user (w_db w) (j_user p)")
      case True
      let ?v = "?w\<lparr>w_mgr := mgr, w_cache := c, w_owes_caps := ?oc, w_owes_hosts := ?oh, w_owes_gone := w_owes_gone w\<rparr>"
      have v: "live_inv ?v"
        using True by (intro live_inv_registered [OF inv p mgr]) (auto simp: up_to_date_def)
      then have good: "good_cache (w_db w) c" and wf: "mgr_wf mgr" by (simp_all add: live_inv_def)
      from refresh_capabilities_for_user_settles [OF good wf, of "j_user p"] obtain cl1 mgr1 c1
        where r1: "refresh_capabilities_for_user (w_db w) (j_user p) c mgr = (cl1, mgr1, c1)"
          "good_cache (w_db w) c1" "settles (w_db w) (\<lambda>v. v = j_user p) (\<lambda>_. False) mgr mgr1" by blast
      then have wf1: "mgr_wf mgr1" by (simp add: settles_def)
      from refresh_visible_hosts_settles [OF r1(2) wf1, of "\<lambda>u. u = j_user p" "w_rt w"] obtain cl2 mgr2 rt2 c2
        where r2: "refresh_visible_hosts (w_db w) (\<lambda>u. u = j_user p) c1 (w_rt w) mgr1 = (cl2, mgr2, rt2, c2)"
          "good_cache (w_db w) c2" "settles (w_db w) (\<lambda>_. False) (\<lambda>u. u = j_user p) mgr1 mgr2" by blast
      have v1: "live_inv (?v\<lparr>w_mgr := mgr1, w_cache := c1, w_owes_caps := ?oc(j_user p := False), w_owes_hosts := ?oh\<rparr>)"
        using r1 by (intro live_inv_settled [OF v]) auto
      have "live_inv (?v\<lparr>w_mgr := mgr1, w_cache := c1, w_owes_caps := ?oc(j_user p := False), w_owes_hosts := ?oh\<rparr>
          \<lparr>w_mgr := mgr2, w_cache := c2, w_owes_caps := ?oc(j_user p := False), w_owes_hosts := ?oh(j_user p := False)\<rparr>)"
        using r2 by (intro live_inv_settled [OF v1]) auto
      with False True mgr r1(1) r2(1) show ?thesis
        by (simp add: finish_join_def live_inv_def up_to_date_def)
    next
      case gone: False
      have "j_ws p \<notin> set (active_connections (w_mgr w))" using inv p by (simp add: live_inv_def)
      then have "forget (j_ws p) mgr = forget (j_ws p) (w_mgr w)" "c = w_cache w"
        using mgr by (auto simp: connect_given forget_def remove1_append delete_update_same remove1_idem)
      with False gone mgr have "finish_join p w = leave (j_ws p) w"
        by (simp add: finish_join_def leave_def)
      with live_inv_leave [OF inv] show ?thesis by simp
    qed
  qed
qed


section \<open>What is delivered\<close>

definition payload :: "auth_db \<Rightarrow> pyval \<Rightarrow> bool \<Rightarrow> string set option \<Rightarrow> int option \<Rightarrow> pyval option" where
  "payload db message filter_containers visible user_id =
     (case scope_message message (vget_or message ''type'' VNone) visible of
        Some (Some outgoing) \<Rightarrow>
          if filter_containers \<and> vget_or message ''type'' VNone = VStr ''containers_update''
          then filter_ws_container_message outgoing
            (case user_id of None \<Rightarrow> False | Some u \<Rightarrow> user_holds db u ''containers.view_env'')
          else Some outgoing
      | _ \<Rightarrow> None)"

lemma prepare_eq:
  assumes "good_cache db c"
  shows "\<exists>c'. prepare db message fc visible uid c = (payload db message fc visible uid, c') \<and> good_cache db c'"
proof (cases uid)
  case (Some u)
  from user_caps.ask_eq [OF assms, of "''containers.view_env''" u] obtain c1
    where "has_capability_for_user db ''containers.view_env'' c u = (user_holds db u ''containers.view_env'', c1)"
      "good_cache db c1" by blast
  with assms Some show ?thesis
    by (auto simp: prepare_def payload_def filter_container_message_def Let_def split: option.splits)
qed (use assms in \<open>auto simp: prepare_def payload_def filter_container_message_def Let_def split: option.splits\<close>)

lemma send_loop_good:
  "good_cache db c \<Longrightarrow> good_cache db (snd (snd (send_loop db message fc failing snap conns c)))"
proof (induction conns arbitrary: c)
  case (Cons ws conns)
  let ?v = "case dget (connection_visible_hosts snap) ws of None \<Rightarrow> None | Some v \<Rightarrow> v"
    and ?u = "if fc then dget (connection_user_ids snap) ws else None"
  from prepare_eq [OF Cons.prems, of message fc ?v ?u] obtain c1
    where c1: "prepare db message fc ?v ?u c = (payload db message fc ?v ?u, c1)" "good_cache db c1" by blast
  from Cons.IH [OF c1(2)] Cons.IH [OF Cons.prems] c1(1) show ?case
    by (auto simp: Let_def case_prod_unfold split: option.splits)
qed simp

lemma send_loop_sent:
  assumes "good_cache db c" and "(ws, m) \<in> set (fst (send_loop db message fc failing snap conns c))"
  shows "ws \<in> set conns
    \<and> (case required_capability (vget_or message ''type'' VNone) of None \<Rightarrow> True | Some cap \<Rightarrow> cap \<in> get_capabilities ws snap)
    \<and> payload db message fc (case dget (connection_visible_hosts snap) ws of None \<Rightarrow> None | Some v \<Rightarrow> v)
        (if fc then dget (connection_user_ids snap) ws else None) = Some m"
  using assms
proof (induction conns arbitrary: c)
  case (Cons w conns)
  let ?v = "case dget (connection_visible_hosts snap) w of None \<Rightarrow> None | Some v \<Rightarrow> v"
    and ?u = "if fc then dget (connection_user_ids snap) w else None"
  from prepare_eq [OF Cons.prems(1), of message fc ?v ?u] obtain c1
    where c1: "prepare db message fc ?v ?u c = (payload db message fc ?v ?u, c1)" "good_cache db c1" by blast
  show ?case
  proof (cases "required_capability (vget_or message ''type'' VNone)")
    case None
    then show ?thesis
      using Cons.prems(2) Cons.IH [OF c1(2)] c1(1)
      by (cases "payload db message fc ?v ?u") (auto simp: Let_def case_prod_unfold split: if_splits)
  next
    case (Some cap)
    then show ?thesis
      using Cons.prems(2) Cons.IH [OF c1(2)] Cons.IH [OF Cons.prems(1)] c1(1)
      by (cases "cap \<in> get_capabilities w snap"; cases "payload db message fc ?v ?u")
        (auto simp: Let_def case_prod_unfold split: if_splits)
  qed
qed simp

lemma live_inv_send: "live_inv w \<Longrightarrow> live_inv (snd (send message fc failing w))"
  using live_inv_forgets [of w] send_loop_good [of "w_db w" "w_cache w" message fc failing "w_mgr w"]
  by (auto simp: send_def broadcast_def Let_def case_prod_unfold live_inv_def up_to_date_def)

lemma live_inv_start: "perms_wf db \<Longrightarrow> live_inv (init_world db)"
  by (simp add: live_inv_def init_world_def init_mgr_def mgr_wf_def agrees_def empty_auth_cache_def)

lemma live_inv: "live db w \<Longrightarrow> live_inv w"
proof (induction rule: live.induct)
  case (step w w')
  from step(2,3) show ?case
    by cases (auto intro: live_inv_begin live_inv_finish live_inv_leave live_inv_change live_inv_refresh_user
      live_inv_refresh live_inv_rescope live_inv_evict live_inv_send)
qed (rule live_inv_start)


text \<open>The hosts that a message of type \<open>t\<close> tells about; everything when the type has no rule.\<close>

definition shown_in_update :: "pyval \<Rightarrow> pyval set" where
  "shown_in_update data =
     (let part = (\<lambda>k. vget_or data k (VDict [])) in
        (\<lambda>c. vget_or c ''host_id'' VNone) ` set (items_of (part ''containers''))
        \<union> (\<lambda>h. vget_or h ''id'' VNone) ` set (items_of (part ''hosts''))
        \<union> fst ` set (entries_of (part ''host_metrics'')) \<union> fst ` set (entries_of (part ''host_sparklines''))
        \<union> {VStr (host_of_composite_key s) | s. VStr s \<in> fst ` set (entries_of (part ''container_sparklines''))})"

definition hosts_shown :: "string \<Rightarrow> pyval \<Rightarrow> pyval set" where
  "hosts_shown t message =
     (case map_of WS_HOST_VISIBILITY t of
        None \<Rightarrow> UNIV
      | Some PRUNE \<Rightarrow> shown_in_update (data_of message)
      | Some (Rule rule) \<Rightarrow> (case rule message of Some (Hosts hs) \<Rightarrow> set hs | _ \<Rightarrow> UNIV))"

lemma shown_pruned:
  assumes "\<And>k. vget data' k = map_option (visible_part V k) (vget data k)"
  shows "shown_in_update data' \<subseteq> VStr ` V"
  by (auto simp: shown_in_update_def vget_or_def assms visible_part_def items_of_def entries_of_def
      split: option.splits if_splits)

lemma shown_without_env:
  assumes "\<And>k. k \<noteq> ''containers'' \<Longrightarrow> vget data' k = vget data k"
    and "vget data' ''containers'' = map_option (\<lambda>v. VList (map without_env (items_of v))) (vget data ''containers'')"
  shows "shown_in_update data' = shown_in_update data"
proof -
  have host: "vget_or (without_env c) ''host_id'' VNone = vget_or c ''host_id'' VNone" for c
    by (cases c) (auto simp: without_env_def vget_or_def)
  have "items_of (vget_or data' ''containers'' (VDict [])) = map without_env (items_of (vget_or data ''containers'' (VDict [])))"
    using assms(2) by (cases "vget data ''containers''") (simp_all add: vget_or_def items_of_def)
  then have "(\<lambda>c. vget_or c ''host_id'' VNone) ` set (items_of (vget_or data' ''containers'' (VDict []))) =
      (\<lambda>c. vget_or c ''host_id'' VNone) ` set (items_of (vget_or data ''containers'' (VDict [])))"
    by (simp add: image_image host)
  moreover have "vget_or data' k x = vget_or data k x" if "k \<noteq> ''containers''" for k x
    using assms(1) [OF that] by (simp add: vget_or_def)
  ultimately show ?thesis by (simp add: shown_in_update_def Let_def)
qed

lemma data_of_put: "data_of (VDict (dset (VStr ''data'') (VDict d) m)) = VDict d"
  by (simp add: data_of_def or_empty_def vget_or_def)

lemma filter_host_get:
  assumes "filter_ws_host_visibility message (Some V) = Some m" and "is_dict (data_of message)"
  shows "\<exists>d m'. m = VDict (dset (VStr ''data'') (VDict d) m')
    \<and> (\<forall>k. vget (VDict d) k = map_option (visible_part V k) (vget (data_of message) k))"
proof -
  obtain d0 where d0: "data_of message = VDict d0" using assms(2) by (cases "data_of message") auto
  with assms(1) obtain m' d where "prune_data V (VDict d0) = Some d" "m = VDict (dset (VStr ''data'') (VDict d) m')"
    by (auto simp: filter_ws_host_visibility_def bind_eq_Some_conv split: pyval.splits)
  with prune_data_get [of V d0 d] d0 show ?thesis by auto
qed

lemma data_of_got: "vget m ''data'' = Some (VDict d) \<Longrightarrow> data_of m = VDict d"
  by (simp add: data_of_def or_empty_def vget_or_def)

lemma filter_env_get:
  assumes "filter_ws_container_message out b = Some m" and d: "vget out ''data'' = Some (VDict d)"
    and "\<And>v. vget (VDict d) ''containers'' = Some v \<Longrightarrow> is_list v"
  shows "shown_in_update (data_of m) = shown_in_update (VDict d)
    \<and> (b \<or> list_all (\<lambda>c. vget c ''env'' = None) (items_of (vget_or (data_of m) ''containers'' (VDict []))))"
proof -
  obtain m0 where out: "out = VDict m0" "map_of m0 (VStr ''data'') = Some (VDict d)" using d by (cases out) auto
  show ?thesis
  proof (cases "b \<or> vget (VDict d) ''containers'' = None")
    case True
    with assms(1) out have "m = out"
      by (auto simp: filter_ws_container_message_def bind_eq_Some_conv map_of_eq_None_iff split: if_splits)
    with True data_of_got [OF d] show ?thesis by (auto simp: vget_or_def items_of_def)
  next
    case False
    then obtain cs where cs: "vget (VDict d) ''containers'' = Some (VList cs)"
      using assms(3) by (metis is_list.elims(2) not_None_eq)
    let ?d = "dset (VStr ''containers'') (VList (map without_env cs)) d"
    have "VStr ''containers'' \<in> fst ` set d" using cs by (force dest: map_of_SomeD)
    with False cs assms(1) out have "m = VDict (dset (VStr ''data'') (VDict ?d) m0)"
      by (auto simp: filter_ws_container_message_def bind_eq_Some_conv strip_containers_def vget_or_def split: if_splits)
    then have m: "data_of m = VDict ?d" by (simp add: data_of_put)
    have "shown_in_update (VDict ?d) = shown_in_update (VDict d)"
      using cs by (intro shown_without_env) (auto simp: items_of_def)
    moreover have "vget (without_env c) ''env'' = None" for c by (cases c) (simp_all add: without_env_def)
    ultimately show ?thesis by (simp add: m vget_or_def items_of_def list_all_iff)
  qed
qed

lemma in_scope_set: "all_in_scope hs V \<Longrightarrow> set hs \<subseteq> VStr ` V"
  unfolding all_in_scope_def by (induction hs) (auto split: pyval.splits)

lemma payload_shows:
  assumes p: "payload db message fc (Some V) uid = Some m" and t: "vget message ''type'' = Some (VStr t)"
    and d: "is_dict (data_of message)"
  shows "hosts_shown t m \<subseteq> VStr ` V"
proof -
  from t have ty: "vget_or message ''type'' VNone = VStr t" by simp
  from p ty obtain out where out: "scope_message message (VStr t) (Some V) = Some (Some out)"
    and m: "m = out \<or> (t = ''containers_update'' \<and> (\<exists>b. filter_ws_container_message out b = Some m))"
    by (auto simp: payload_def split: option.splits if_splits)
  then obtain vis where vis: "map_of WS_HOST_VISIBILITY t = Some vis" by (auto simp: scope_message_def split: option.splits)
  show ?thesis
  proof (cases vis)
    case PRUNE
    with out vis have "filter_ws_host_visibility message (Some V) = Some out" by (simp add: scope_message_def)
    from filter_host_get [OF this d] obtain d1 m1 where
      o: "out = VDict (dset (VStr ''data'') (VDict d1) m1)"
        "\<And>k. vget (VDict d1) k = map_option (visible_part V k) (vget (data_of message) k)" by auto
    have "is_list v" if "vget (VDict d1) ''containers'' = Some v" for v
      using that unfolding o(2) by (auto simp: visible_part_def)
    with m o(1) filter_env_get [of out _ m d1] have "shown_in_update (data_of m) = shown_in_update (VDict d1)"
      by (auto simp: data_of_put)
    with PRUNE vis shown_pruned [OF o(2)] show ?thesis by (simp add: hosts_shown_def)
  next
    case (Rule rule)
    then have "t \<noteq> ''containers_update''" using vis by (auto simp: WS_HOST_VISIBILITY_def)
    moreover obtain ans where ans: "rule message = Some ans"
      using out vis Rule by (cases "rule message") (auto simp: scope_message_def)
    ultimately obtain hs where "rule message = Some (Hosts hs)" "all_in_scope hs V" "m = message"
      using m out vis Rule by (cases ans) (auto simp: scope_message_def split: if_splits)
    moreover from this(2) have "set hs \<subseteq> VStr ` V" by (rule in_scope_set)
    ultimately show ?thesis using vis Rule by (simp add: hosts_shown_def)
  qed
qed

lemma sent_payload:
  assumes "live_inv w" and "(ws, m) \<in> set (fst (send message fc failing w))"
  shows "\<exists>u. dget (connection_user_ids (w_mgr w)) ws = Some u
    \<and> (case required_capability (vget_or message ''type'' VNone) of None \<Rightarrow> True
       | Some cap \<Rightarrow> cap \<in> get_capabilities ws (w_mgr w))
    \<and> payload (w_db w) message fc (get_visible_hosts ws (w_mgr w)) (if fc then Some u else None) = Some m"
proof -
  from assms have s: "(ws, m) \<in> set (fst (send_loop (w_db w) message fc failing (w_mgr w) (active_connections (w_mgr w)) (w_cache w)))"
    by (simp add: send_def broadcast_def Let_def case_prod_unfold)
  from assms(1) have g: "good_cache (w_db w) (w_cache w)" by (simp add: live_inv_def)
  note sent = send_loop_sent [OF g s]
  then have "dhas (connection_user_ids (w_mgr w)) ws" "dhas (connection_visible_hosts (w_mgr w)) ws"
    using assms(1) by (simp_all add: live_inv_def mgr_wf_def)
  then obtain u v where "dget (connection_user_ids (w_mgr w)) ws = Some u"
    "dget (connection_visible_hosts (w_mgr w)) ws = Some v" by (auto simp: dhas_def)
  with sent show ?thesis by (cases fc) (simp_all add: get_visible_hosts_def)
qed


text \<open>Proved as well: An update of the containers sent with the environment filter on never shows the environment variables of a
  container to a user who, by the tables of that moment, lacks the capability to view them, in every
  state that the live connections reach.
\<close>

theorem environment_needs_its_capability:
  assumes "live db w" and "(ws, m) \<in> set (fst (send message True failing w))"
    and "vget message ''type'' = Some (VStr ''containers_update'')"
    and "vget message ''data'' = Some (VDict d)" and "vget (VDict d) ''containers'' = Some (VList cs)"
  shows "\<exists>u. dget (connection_user_ids (w_mgr w)) ws = Some u
    \<and> (user_holds (w_db w) u ''containers.view_env''
       \<or> list_all (\<lambda>c. vget c ''env'' = None) (items_of (vget_or (data_of m) ''containers'' (VDict []))))"
proof -
  from assms(1) have inv: "live_inv w" by (rule live_inv)
  from sent_payload [OF inv assms(2)] obtain u where u: "dget (connection_user_ids (w_mgr w)) ws = Some u"
    and p: "payload (w_db w) message True (get_visible_hosts ws (w_mgr w)) (Some u) = Some m" by auto
  from p assms(3) obtain out where
    out: "scope_message message (VStr ''containers_update'') (get_visible_hosts ws (w_mgr w)) = Some (Some out)"
      "filter_ws_container_message out (user_holds (w_db w) u ''containers.view_env'') = Some m"
    by (auto simp: payload_def split: option.splits)
  have "\<exists>d'. vget out ''data'' = Some (VDict d') \<and> (\<forall>v. vget (VDict d') ''containers'' = Some v \<longrightarrow> is_list v)"
  proof (cases "get_visible_hosts ws (w_mgr w)")
    case None
    with out(1) assms(4,5) show ?thesis by (auto simp: scope_message_def)
  next
    case (Some V)
    with out(1) have "filter_ws_host_visibility message (Some V) = Some out"
      by (simp add: scope_message_def WS_HOST_VISIBILITY_def)
    from filter_host_get [OF this] data_of_got [OF assms(4)] obtain d1 m1 where
      "out = VDict (dset (VStr ''data'') (VDict d1) m1)"
      "\<And>k. vget (VDict d1) k = map_option (visible_part V k) (vget (VDict d) k)" by auto
    with assms(5) show ?thesis by (simp add: visible_part_def)
  qed
  with filter_env_get [OF out(2)] u show ?thesis by auto
qed


definition demo_db :: auth_db where
  "demo_db = \<lparr>db_users = [\<lparr>u_id = 1, u_username = ''ann'', u_password_hash = [], u_display_name = None, u_email = None,
       u_role = ''user'', u_auth_provider = ''local'', u_is_first_login = False, u_must_change_password = False, u_approved = True\<rparr>],
     db_groups = [\<lparr>g_id = 1, g_name = ''ops'', g_description = None, g_is_system = False\<rparr>],
     db_perms = [\<lparr>p_group_id = 1, p_capability = ''containers.view'', p_allowed = True\<rparr>],
     db_members = [(1, 1)], db_scopes = [(1, ''t'')], db_tags = [''t''],
     db_assignments = [(''t'', ''host'', ''h1'')], db_keys = []\<rparr>"

definition demo_world :: world where
  "demo_world = (let w = begin_join 5 1 (init_world demo_db) in finish_join (hd (w_joining w)) w)"

definition demo_update :: pyval where
  "demo_update = VDict [(VStr ''type'', VStr ''containers_update''),
     (VStr ''data'', VDict [(VStr ''containers'', VList
        [VDict [(VStr ''host_id'', VStr ''h1''), (VStr ''env'', VList [])], VDict [(VStr ''host_id'', VStr ''h2'')]])])]"

definition demo_received :: pyval where
  "demo_received = VDict [(VStr ''type'', VStr ''containers_update''),
     (VStr ''data'', VDict [(VStr ''containers'', VList [VDict [(VStr ''host_id'', VStr ''h1'')]])])]"

lemma demo_live: "live demo_db demo_world"
proof -
  let ?w = "begin_join 5 1 (init_world demo_db)"
  have "fresh_socket 5 (init_world demo_db)" "exists_user (w_db (init_world demo_db)) 1"
    by (code_simp+)
  then have w: "live demo_db ?w"
    by (intro live.step [OF live.start] live_step.joining) (simp_all add: perms_wf_def demo_db_def)
  have "w_joining ?w \<noteq> []" by (simp add: begin_join_def Let_def case_prod_unfold)
  then have "hd (w_joining ?w) \<in> set (w_joining ?w)" by simp
  from live.step [OF w live_step.joined [OF this]] show ?thesis by (simp add: demo_world_def Let_def)
qed

lemma demo_sent: "(5, demo_received) \<in> set (fst (send demo_update True {} demo_world))"
  by code_simp



lemma environment_needs_its_capability_witness:
  "live demo_db demo_world \<and> (5, demo_received) \<in> set (fst (send demo_update True {} demo_world))
    \<and> \<not> user_holds (w_db demo_world) 1 ''containers.view_env''
    \<and> list_all (\<lambda>c. vget c ''env'' = None) (items_of (vget_or (data_of demo_received) ''containers'' (VDict [])))"
proof -
  have o: "\<not> user_holds (w_db demo_world) 1 ''containers.view_env''"
    "dget (connection_user_ids (w_mgr demo_world)) 5 = Some 1" by code_simp+
  have t: "vget demo_update ''type'' = Some (VStr ''containers_update'')"
    "vget demo_update ''data'' = Some (VDict [(VStr ''containers'', VList
        [VDict [(VStr ''host_id'', VStr ''h1''), (VStr ''env'', VList [])], VDict [(VStr ''host_id'', VStr ''h2'')]])])"
    by (simp_all add: demo_update_def)
  from environment_needs_its_capability [OF demo_live demo_sent t] o demo_live demo_sent show ?thesis by auto
qed

end
