(* ===== verification/EvalService.thy ===== *)
theory EvalService
  imports AlertEngine Blackout
begin

text \<open>
  The alert evaluation service (\<open>backend/alerts/evaluation_service.py\<close>) and the commitment block of
  \<open>NotificationService.send_alert_v2\<close> (\<open>backend/notifications.py\<close>): the retry state machine of
  notifications, the grace period, snoozes, blackouts, the recovery dispatch, automatic clearing
  and the container and host events. What the service asks other components for (channels, live
  containers and hosts, current stats) is a parameter. A task between two awaits is atomic.
\<close>

section \<open>The service's surroundings\<close>

record live_container =
  lc_short_id :: string
  lc_host_id :: string
  lc_name :: string
  lc_state :: string

datatype answer = Answer "live_container list" | Raises

record env =
  s_world :: world
  s_service :: bool \<comment> \<open>a notification service is wired\<close>
  s_settings :: "settings option" \<comment> \<open>for the blackout windows\<close>
  s_deliver :: "alert \<Rightarrow> pyval \<Rightarrow> bool" \<comment> \<open>one channel: resolved, enabled and accepted\<close>
  s_send_resolve :: "alert \<Rightarrow> rule \<Rightarrow> bool"
  s_monitor :: bool
  s_containers :: answer
  s_host_active :: "string \<Rightarrow> bool option" \<comment> \<open>\<open>is_active\<close> of the host's row, if any\<close>
  s_host_status :: "string \<Rightarrow> string option" \<comment> \<open>status in the monitor, if known\<close>
  s_stats :: "(string, (string, rat) pydict) pydict option" \<comment> \<open>\<open>None\<close>: no stats client\<close>

abbreviation s_now :: "env \<Rightarrow> time" where "s_now E \<equiv> w_now (s_world E)"

definition in_blackout :: "env \<Rightarrow> bool" where
  "in_blackout E = fst (is_in_blackout_window (s_now E) (s_settings E))"

definition rule_of :: "engine \<Rightarrow> alert \<Rightarrow> rule option" where
  "rule_of e a = (case a_rule_id a of None \<Rightarrow> None | Some i \<Rightarrow> if i = [] then None else find_rule e i)"

text \<open>Update of the row with an id, when it exists.\<close>

definition update_row :: "string \<Rightarrow> (alert \<Rightarrow> alert) \<Rightarrow> engine \<Rightarrow> engine" where
  "update_row i f e = e\<lparr>e_alerts := map (\<lambda>a. if a_id a = i then f a else a) (e_alerts e)\<rparr>"

definition suppress_alert :: "string \<Rightarrow> engine \<Rightarrow> engine" where
  "suppress_alert i e = update_row i (\<lambda>a. a\<lparr>a_suppressed_by_blackout := True\<rparr>) e"

section \<open>Sending\<close>

definition calculate_next_retry :: "time \<Rightarrow> int \<Rightarrow> time" where
  "calculate_next_retry now attempt_count = now + secs (min (5 * 2 ^ nat attempt_count) 3600)"

definition should_give_up_retry :: "time \<Rightarrow> time option \<Rightarrow> bool" where
  "should_give_up_retry now first_attempt = (case first_attempt of
      None \<Rightarrow> False | Some t \<Rightarrow> now - t > secs 86400)"

text \<open>The channel list of a rule; \<open>None\<close> when the text is malformed.\<close>

definition channel_ids :: "rule \<Rightarrow> pyval option" where
  "channel_ids r = (case r_notify_channels r of
      NoText \<Rightarrow> Some (VList []) | BadText \<Rightarrow> None | Json v \<Rightarrow> Some v)"

text \<open>
  \<open>send_alert_v2\<close>: its guards in order, the delivery to each channel, and the commitment block.
  A channel list that cannot be iterated raises, which the method turns into a failure.
\<close>

definition send_alert_v2 :: "env \<Rightarrow> alert \<Rightarrow> rule \<Rightarrow> engine \<Rightarrow> bool \<times> engine" where
  "send_alert_v2 E a r e =
     (if (case a_notified_at a of None \<Rightarrow> False | Some t \<Rightarrow> s_now E - t < secs 5) then (False, e)
      else case channel_ids r of
        None \<Rightarrow> (False, e)
      | Some ids \<Rightarrow>
          if \<not> truthy ids then (False, e)
          else if in_blackout E then (False, suppress_alert (a_id a) e)
          else case py_iter ids of
            None \<Rightarrow> (False, e)
          | Some cs \<Rightarrow>
              if list_ex (s_deliver E a) cs then
                (True, update_row (a_id a) (\<lambda>b.
                   let b1 = b\<lparr>a_notified_at := Some (s_now E), a_notification_count := a_notification_count b + 1\<rparr>
                   in if r_auto_resolve r then b1\<lparr>a_state := Resolved, a_resolved_at := Some (s_now E)\<rparr>
                      else b1) e)
              else (False, e))"

datatype attempt = Sent | Permanent | Temporary

text \<open>How \<open>_send_notification\<close> classifies a failed or successful call.\<close>

definition classify :: "rule \<Rightarrow> bool \<Rightarrow> attempt" where
  "classify r ok =
     (if ok then Sent
      else case channel_ids r of
        None \<Rightarrow> Permanent
      | Some ids \<Rightarrow> if truthy ids then Temporary else Permanent)"

definition record_attempt :: "time \<Rightarrow> attempt \<Rightarrow> alert \<Rightarrow> alert" where
  "record_attempt now out a =
     (let first = (case a_last_attempt_at a of None \<Rightarrow> now | Some t \<Rightarrow> t);
          count = a_notification_count a + 1;
          a1 = a\<lparr>a_last_attempt_at := Some first, a_notification_count := count\<rparr>
      in case out of
           Temporary \<Rightarrow>
             if should_give_up_retry now (Some first)
             then a1\<lparr>a_notified_at := Some now, a_next_retry_at := None\<rparr>
             else a1\<lparr>a_next_retry_at := Some (calculate_next_retry now count)\<rparr>
         | _ \<Rightarrow> a1\<lparr>a_notified_at := Some now, a_next_retry_at := None\<rparr>)"

definition send_notification :: "env \<Rightarrow> alert \<Rightarrow> engine \<Rightarrow> engine" where
  "send_notification E a e = (case rule_of e a of
      None \<Rightarrow> e
    | Some r \<Rightarrow>
        if s_service E \<and> in_blackout E then suppress_alert (a_id a) e
        else if \<not> s_service E then update_row (a_id a) (record_attempt (s_now E) Permanent) e
        else (case send_alert_v2 E a r e of (ok, e1) \<Rightarrow>
          update_row (a_id a) (record_attempt (s_now E) (classify r ok)) e1))"

section \<open>Re-verification\<close>

definition recovered :: "live_container \<Rightarrow> bool" where
  "recovered c = (py_lower (lc_state c) \<in> {''running''})"

definition find_original_container :: "alert \<Rightarrow> string \<Rightarrow> live_container list \<Rightarrow> live_container option" where
  "find_original_container a short cs = find (\<lambda>c. lc_short_id c = short \<and> a_host_id a = Some (lc_host_id c)) cs"

definition find_replacement_container :: "alert \<Rightarrow> live_container list \<Rightarrow> live_container option" where
  "find_replacement_container a cs = (case a_container_name a of
      None \<Rightarrow> None
    | Some n \<Rightarrow> if n = [] then None
                else find (\<lambda>c. lc_name c = n \<and> a_host_id a = Some (lc_host_id c)) cs)"

text \<open>The container a stopped or unhealthy alert is about: itself, or what replaced it.\<close>

datatype found = Original live_container | Replacement live_container | Gone | CannotTell

definition look_up :: "env \<Rightarrow> alert \<Rightarrow> found" where
  "look_up E a =
     (if \<not> s_monitor E then CannotTell
      else case s_containers E of
        Raises \<Rightarrow> CannotTell
      | Answer cs \<Rightarrow>
          (case parse_composite_key (a_scope_id a) of
             Inl _ \<Rightarrow> CannotTell
           | Inr (_, short) \<Rightarrow>
               (case find_original_container a short cs of
                  Some c \<Rightarrow> Original c
                | None \<Rightarrow> (case find_replacement_container a cs of
                     Some c \<Rightarrow> Replacement c | None \<Rightarrow> Gone))))"

definition metric_still_breaching :: "env \<Rightarrow> alert \<Rightarrow> engine \<Rightarrow> bool" where
  "metric_still_breaching E a e = (case s_stats E of
      None \<Rightarrow> True
    | Some stats \<Rightarrow>
        (case dget stats (a_scope_id a) of
           None \<Rightarrow> True
         | Some current \<Rightarrow>
             if current = [] then True
             else case rule_of e a of
               None \<Rightarrow> True
             | Some r \<Rightarrow>
                 (case dget current (if a_kind a = ''cpu_high'' then ''cpu_percent'' else ''memory_percent'') of
                    None \<Rightarrow> True
                  | Some v \<Rightarrow> (case check_breach v (r_threshold r) (r_operator r) of
                       Inl _ \<Rightarrow> True | Inr b \<Rightarrow> b))))"

definition host_back_online :: "env \<Rightarrow> string \<Rightarrow> bool" where
  "host_back_online E h = (s_host_active E h = Some True \<and> s_host_status E h = Some ''online'')"

text \<open>Every failure to tell is "still true": the check fails open.\<close>

definition verify_alert_condition :: "env \<Rightarrow> alert \<Rightarrow> engine \<Rightarrow> bool" where
  "verify_alert_condition E a e =
     (if a_kind a = ''container_stopped'' \<and> a_scope_type a = ''container'' then
        (case look_up E a of
           Original c \<Rightarrow> \<not> recovered c | Replacement c \<Rightarrow> \<not> recovered c | _ \<Rightarrow> True)
      else if a_kind a \<in> {''unhealthy'', ''container_unhealthy''} \<and> a_scope_type a = ''container'' then
        (case look_up E a of Replacement c \<Rightarrow> \<not> recovered c | _ \<Rightarrow> True)
      else if a_kind a \<in> {''cpu_high'', ''memory_high''} \<and> a_scope_type a = ''container'' then
        metric_still_breaching E a e
      else if a_kind a \<in> {''host_disconnected'', ''host_down''} \<and> a_scope_type a = ''host'' then
        \<not> (s_monitor E \<and> host_back_online E (a_scope_id a))
      else True)"

section \<open>Background tasks\<close>

definition notification_due :: "time \<Rightarrow> engine \<Rightarrow> alert \<Rightarrow> bool" where
  "notification_due now e a =
     (a_state a = Open \<and> a_notified_at a = None \<and> \<not> a_suppressed_by_blackout a
      \<and> (case a_next_retry_at a of None \<Rightarrow> True | Some t \<Rightarrow> t \<le> now)
      \<and> (case rule_of e a of
           None \<Rightarrow> False
         | Some r \<Rightarrow> now - a_last_seen a \<ge> secs (int_or (r_notification_active_delay r) 0)))"

definition resolve_if_open :: "env \<Rightarrow> string \<Rightarrow> reason \<Rightarrow> engine \<Rightarrow> engine" where
  "resolve_if_open E i why e = (case find_by_id (e_alerts e) i of
      Some a \<Rightarrow> if a_state a = Open then snd (resolve_alert (s_world E) a why True e) else e
    | None \<Rightarrow> e)"

definition verify_and_send :: "env \<Rightarrow> reason \<Rightarrow> alert \<Rightarrow> engine \<Rightarrow> engine" where
  "verify_and_send E why a e =
     (if verify_alert_condition E a e then send_notification E a e
      else resolve_if_open E (a_id a) why e)"

definition check_pending_notifications :: "env \<Rightarrow> engine \<Rightarrow> engine" where
  "check_pending_notifications E e =
     fold (verify_and_send E (OtherReason ''Condition cleared during grace period''))
       (filter (notification_due (s_now E) e) (e_alerts e)) e"

definition unsnooze :: "time \<Rightarrow> alert \<Rightarrow> alert" where
  "unsnooze now a =
     (if a_state a = Snoozed \<and> (case a_snoozed_until a of None \<Rightarrow> False | Some t \<Rightarrow> t \<le> now)
      then a\<lparr>a_state := Open, a_snoozed_until := None\<rparr> else a)"

definition check_expired_snoozes :: "env \<Rightarrow> engine \<Rightarrow> engine" where
  "check_expired_snoozes E e = e\<lparr>e_alerts := map (unsnooze (s_now E)) (e_alerts e)\<rparr>"

definition process_suppressed :: "env \<Rightarrow> alert \<Rightarrow> engine \<Rightarrow> engine" where
  "process_suppressed E a e =
     update_row (a_id a) (\<lambda>b. b\<lparr>a_suppressed_by_blackout := False\<rparr>)
       (if a_state a = Open
        then verify_and_send E (OtherReason ''Auto-resolved: condition cleared during blackout window'') a e
        else e)"

definition check_blackout_transitions :: "env \<Rightarrow> engine \<Rightarrow> engine" where
  "check_blackout_transitions E e =
     (if \<not> s_service E \<or> in_blackout E then e
      else fold (process_suppressed E) (filter a_suppressed_by_blackout (e_alerts e)) e)"

definition stamp_resolve_notified_at :: "env \<Rightarrow> string \<Rightarrow> engine \<Rightarrow> engine" where
  "stamp_resolve_notified_at E i e = update_row i (\<lambda>a. a\<lparr>a_resolve_notified_at := Some (s_now E)\<rparr>) e"

definition send_resolve_notification :: "env \<Rightarrow> string \<Rightarrow> engine \<Rightarrow> engine" where
  "send_resolve_notification E i e = (case find_by_id (e_alerts e) i of
      None \<Rightarrow> e
    | Some a \<Rightarrow>
        if a_resolve_notified_at a \<noteq> None then e
        else if a_notified_at a = None then stamp_resolve_notified_at E i e
        else case rule_of e a of
          None \<Rightarrow> stamp_resolve_notified_at E i e
        | Some r \<Rightarrow>
            if \<not> r_notify_on_resolve r \<or> r_auto_resolve r then stamp_resolve_notified_at E i e
            else if \<not> s_service E then e
            else if s_send_resolve E a r then stamp_resolve_notified_at E i e else e)"

definition resolve_pending :: "engine \<Rightarrow> alert \<Rightarrow> bool" where
  "resolve_pending e a =
     (a_state a = Resolved \<and> a_notified_at a \<noteq> None \<and> a_resolve_notified_at a = None
      \<and> (case a_rule_id a of None \<Rightarrow> False | Some i \<Rightarrow>
          (case find_rule e i of None \<Rightarrow> False
           | Some r \<Rightarrow> r_notify_on_resolve r \<and> \<not> r_auto_resolve r)))"

definition drain_and_dispatch_resolves :: "env \<Rightarrow> engine \<Rightarrow> engine" where
  "drain_and_dispatch_resolves E e =
     fold (send_resolve_notification E)
       (map a_id (take 50 (filter (resolve_pending e) (e_alerts e)))) e"

section \<open>Alerts just raised\<close>

definition handle_alert_notification :: "env \<Rightarrow> alert \<Rightarrow> engine \<Rightarrow> engine" where
  "handle_alert_notification E a e =
     (let rl = rule_of e a;
          delay = (case rl of None \<Rightarrow> 0 | Some r \<Rightarrow> int_or (r_notification_active_delay r) 0)
      in if a_state a = Open \<and> delay > 0 \<and> find_by_id (e_alerts e) (a_id a) \<noteq> None
         then update_row (a_id a) (\<lambda>b. b\<lparr>a_notified_at := None\<rparr>) e
         else if a_state a = Open \<and> s_service E then
           (case rl of None \<Rightarrow> e | Some r \<Rightarrow> snd (send_alert_v2 E a r e))
         else e)"

definition pending_event_tick :: "env \<Rightarrow> engine \<Rightarrow> engine" where
  "pending_event_tick E e = (case check_pending_event_alerts (s_world E) e of
      (alerts, e1) \<Rightarrow>
        snd (check_pending_alert_clears (s_world E) (fold (handle_alert_notification E) alerts e1)))"

end
