(* ===== verification/EvalEvents.thy ===== *)
theory EvalEvents
  imports EvalService
begin

text \<open>
  The entry points of the evaluation service for container and host events
  (\<open>handle_container_event\<close>, \<open>handle_host_event\<close>), automatic clearing of the opposite alerts, and the
  resolution of alerts of deleted containers. The lookups in the database and in the container
  cache are parameters.
\<close>

record lookups =
  l_desired_state :: "string \<Rightarrow> string \<Rightarrow> string \<times> string option" \<comment> \<open>\<open>get_desired_state\<close>: a pair\<close>
  l_cached_tags :: "string \<Rightarrow> string \<Rightarrow> string list option" \<comment> \<open>of the first match in the cache\<close>
  l_tags :: "string \<Rightarrow> string \<Rightarrow> string list"
  l_host_name :: "string \<Rightarrow> string option"
  l_agent_connected :: "string \<Rightarrow> bool"

section \<open>Automatic clearing\<close>

definition auto_clear_candidate ::
    "engine \<Rightarrow> string \<Rightarrow> string \<Rightarrow> string list \<Rightarrow> alert \<Rightarrow> rule option" where
  "auto_clear_candidate e scope_type scope_id kinds a =
     (if a_scope_type a = scope_type \<and> a_scope_id a = scope_id \<and> a_state a = Open \<and> a_kind a \<in> set kinds
      then (case a_rule_id a of None \<Rightarrow> None
        | Some i \<Rightarrow> (case find_rule e i of None \<Rightarrow> None
            | Some r \<Rightarrow> if r_auto_resolve_on_clear r then Some r else None))
      else None)"

definition auto_clear_alerts_by_kind ::
    "env \<Rightarrow> string \<Rightarrow> string \<Rightarrow> string list \<Rightarrow> reason \<Rightarrow> engine \<Rightarrow> engine" where
  "auto_clear_alerts_by_kind E scope_type scope_id kinds why e =
     (let cands = List.map_filter (\<lambda>a. map_option (\<lambda>r. (a, r))
                    (auto_clear_candidate e scope_type scope_id kinds a)) (e_alerts e);
          now_ones = filter (\<lambda>(a, r). int_or (r_alert_clear_delay r) 0 \<le> 0) cands;
          later = filter (\<lambda>(a, r). int_or (r_alert_clear_delay r) 0 > 0) cands
      in fold (\<lambda>(a, r) e. snd (add_pending_alert_clear (s_world E) a r why e)) later
           (fold (\<lambda>(a, r) e. snd (resolve_alert (s_world E) a why True e)) now_ones e))"

section \<open>Container events\<close>

definition container_context ::
    "lookups \<Rightarrow> string \<Rightarrow> string \<Rightarrow> string \<Rightarrow> string \<Rightarrow> string \<Rightarrow> ctx" where
  "container_context L key container_id container_name host_id host_name =
     (let cached = (case l_cached_tags L host_id container_id of None \<Rightarrow> [] | Some ts \<Rightarrow> ts);
          tags = (if cached = [] then l_tags L ''container'' key else cached);
          (state, url) = l_desired_state L host_id container_id
      in \<lparr>c_scope_type = ''container'', c_scope_id = key, c_host_id = Some host_id,
          c_host_name = Some host_name, c_container_id = Some container_id,
          c_container_name = Some container_name, c_desired_state = DesiredRow state url,
          c_labels = Some [], c_tags = Some tags\<rparr>)"

definition unhealthy_kinds :: "string list" where
  "unhealthy_kinds = [''unhealthy'', ''container_unhealthy'']"

text \<open>What a state change does to the alerts of the opposite state.\<close>

definition opposite_state :: "env \<Rightarrow> string \<Rightarrow> pyval \<Rightarrow> engine \<Rightarrow> engine" where
  "opposite_state E key new_state e =
     (let auto = auto_clear_alerts_by_kind E ''container'' key;
          drop_pending = (\<lambda>kinds e. snd (clear_pending_for_scope ''container'' key (Some kinds) e));
          keep_open = (\<lambda>kinds e. snd (cancel_pending_clears_for_scope ''container'' key (Some kinds) e))
      in if new_state \<in> {VStr ''running'', VStr ''restarting''} then
           keep_open [''container_started''] (drop_pending [''container_stopped'']
             (auto [''container_stopped''] (OtherReason ''Container started'') e))
         else if new_state = VStr ''healthy'' then
           drop_pending unhealthy_kinds
             (auto unhealthy_kinds (OtherReason ''Container became healthy'') e)
         else if new_state \<in> {VStr ''stopped'', VStr ''exited'', VStr ''dead''} then
           drop_pending [''container_started'']
             (auto [''container_started''] (OtherReason ''Container stopped'')
               (keep_open [''container_stopped''] e))
         else if new_state = VStr ''unhealthy'' then keep_open unhealthy_kinds e
         else e)"

text \<open>Evaluates the event and hands every changed alert to the notifier; an exception ends it.\<close>

definition evaluate_and_notify :: "env \<Rightarrow> string \<Rightarrow> ctx \<Rightarrow> edata \<Rightarrow> engine \<Rightarrow> engine" where
  "evaluate_and_notify E event_type c d e = (case evaluate_event (s_world E) event_type c (Some d) e of
      (Inl _, e1) \<Rightarrow> e1
    | (Inr as, e1) \<Rightarrow> fold (handle_alert_notification E) as e1)"

definition handle_container_event ::
    "env \<Rightarrow> lookups \<Rightarrow> string \<Rightarrow> string \<Rightarrow> string \<Rightarrow> string \<Rightarrow> string \<Rightarrow> edata \<Rightarrow> engine \<Rightarrow> engine" where
  "handle_container_event E L event_type container_id container_name host_id host_name d e =
     (if \<not> s_monitor E then e
      else case make_composite_key host_id container_id of
        Inl _ \<Rightarrow> e
      | Inr key \<Rightarrow>
          let c = container_context L key container_id container_name host_id host_name;
              e1 = (if event_type = ''state_change'' \<and> d \<noteq> []
                    then opposite_state E key (ev_get d ''new_state'') e else e);
              e2 = (if truthy (ev_get d ''container_deleted'')
                    then snd (clear_pending_for_scope ''container'' key None e1) else e1)
          in evaluate_and_notify E event_type c d e2)"

section \<open>Host events\<close>

definition host_down_kinds :: "string list" where
  "host_down_kinds = [''host_disconnected'', ''host_down'']"

definition host_context :: "lookups \<Rightarrow> string \<Rightarrow> ctx" where
  "host_context L host_id =
     \<lparr>c_scope_type = ''host'', c_scope_id = host_id, c_host_id = Some host_id,
      c_host_name = Some (case l_host_name L host_id of None \<Rightarrow> host_id | Some n \<Rightarrow> n),
      c_container_id = None, c_container_name = None, c_desired_state = Unset, c_labels = None,
      c_tags = Some (l_tags L ''host'' host_id)\<rparr>"

definition stale_disconnect :: "lookups \<Rightarrow> edata \<Rightarrow> bool" where
  "stale_disconnect L d = (case ev_get d ''agent_id'' of
      VStr i \<Rightarrow> i \<noteq> [] \<and> l_agent_connected L i | _ \<Rightarrow> False)"

definition handle_host_event :: "env \<Rightarrow> lookups \<Rightarrow> string \<Rightarrow> string \<Rightarrow> edata \<Rightarrow> engine \<Rightarrow> engine" where
  "handle_host_event E L event_type host_id d e =
     (let c = host_context L host_id in
      if event_type = ''connection'' then
        evaluate_and_notify E event_type c d
          (snd (clear_pending_for_scope ''host'' host_id (Some host_down_kinds)
            (auto_clear_alerts_by_kind E ''host'' host_id host_down_kinds (OtherReason ''Host reconnected'') e)))
      else if event_type = ''disconnection'' then
        (if stale_disconnect L d then e
         else evaluate_and_notify E event_type c d
           (snd (cancel_pending_clears_for_scope ''host'' host_id (Some host_down_kinds) e)))
      else evaluate_and_notify E event_type c d e)"

section \<open>Deleted containers\<close>

text \<open>The keys of the live containers; \<open>None\<close> when one of them makes \<open>make_composite_key\<close> raise.\<close>

fun live_keys :: "live_container list \<Rightarrow> string list option" where
  "live_keys [] = Some []"
| "live_keys (c # cs) = (case (make_composite_key (lc_host_id c) (lc_short_id c), live_keys cs) of
      (Inr k, Some ks) \<Rightarrow> Some (k # ks) | _ \<Rightarrow> None)"

definition orphaned :: "string list \<Rightarrow> alert \<Rightarrow> bool" where
  "orphaned keys a = (a_scope_type a = ''container'' \<and> a_state a \<noteq> Resolved \<and> a_scope_id a \<notin> set keys)"

definition auto_resolve_orphaned_container_alerts :: "env \<Rightarrow> engine \<Rightarrow> nat \<times> engine" where
  "auto_resolve_orphaned_container_alerts E e =
     (if \<not> s_monitor E then (0, e)
      else case s_containers E of
        Raises \<Rightarrow> (0, e)
      | Answer cs \<Rightarrow>
          (case live_keys cs of
             None \<Rightarrow> (0, e)
           | Some keys \<Rightarrow>
               (length (filter (orphaned keys) (e_alerts e)),
                e\<lparr>e_alerts := map (\<lambda>a. if orphaned keys a
                    then a\<lparr>a_state := Resolved, a_resolved_at := Some (s_now E),
                           a_resolved_reason := Some (OtherReason ''Container deleted'')\<rparr>
                    else a) (e_alerts e)\<rparr>)))"

end
