(* ===== verification/EvalServiceLaws.thy ===== *)
theory EvalServiceLaws
  imports EvalEvents AlertEngineLaws
begin

text \<open>
  What the evaluation service guarantees and where it does not: the retry machine ends, blackouts
  defer and are left clean, grace periods and metric samples, recovery notices, and the effect of
  container events on the opposite alerts.
\<close>

section \<open>The retry machine\<close>

text \<open>\<open>n\<close> attempts of an alert that all failed for a reason that may pass, each made when it was due.\<close>

inductive retrying :: "alert \<Rightarrow> nat \<Rightarrow> alert \<Rightarrow> bool" for a0 where
  start: "retrying a0 0 a0"
| fail: "retrying a0 n a \<Longrightarrow> a_notified_at a = None \<Longrightarrow>
    (case a_next_retry_at a of None \<Rightarrow> True | Some t \<Rightarrow> t \<le> now) \<Longrightarrow>
    retrying a0 (Suc n) (record_attempt now Temporary a)"

inductive_cases retrying_0E: "retrying a0 0 a"
inductive_cases retrying_SucE: "retrying a0 (Suc n) a"

text \<open>The time the waits add up to, in seconds.\<close>

fun waited :: "nat \<Rightarrow> int" where
  "waited 0 = 0"
| "waited (Suc n) = waited n + min (5 * 2 ^ Suc n) 3600"

lemma waited_step: "waited n \<le> waited (Suc n)"
  by (simp add: min_def)

lemma waited_mono: "m \<le> n \<Longrightarrow> waited m \<le> waited n"
  using waited_step by (rule lift_Suc_mono_le [where f = waited])

lemma waited_32: "waited 32 = 87910"
  by (simp add: eval_nat_numeral)

definition fresh :: "alert \<Rightarrow> bool" where
  "fresh a = (a_notified_at a = None \<and> a_next_retry_at a = None \<and> a_last_attempt_at a = None
     \<and> a_notification_count a = 0)"

lemma retrying_inv:
  "retrying a0 n a \<Longrightarrow> fresh a0 \<Longrightarrow> a_notification_count a = int n \<and>
     (n = 0 \<longrightarrow> a = a0) \<and>
     (0 < n \<longrightarrow> (\<exists>t1. a_last_attempt_at a = Some t1 \<and>
        (a_notified_at a = None \<longrightarrow> waited (n - 1) \<le> 86400 \<and>
           (\<exists>u. a_next_retry_at a = Some u \<and> secs (waited n) \<le> u - t1))))"
proof (induction rule: retrying.induct)
  case start
  then show ?case by (simp add: fresh_def)
next
  case (fail n a now)
  have count: "a_notification_count a = int n" using fail by blast
  have nat: "nat (int n + 1) = Suc n" by simp
  define t1 where "t1 = (case a_last_attempt_at a of None \<Rightarrow> now | Some t \<Rightarrow> t)"
  have t1: "secs (waited n) \<le> now - t1"
  proof (cases n)
    case 0
    with fail have "a = a0" by blast
    then show ?thesis using 0 fail.prems by (simp add: t1_def fresh_def)
  next
    case (Suc m)
    then obtain t where t: "a_last_attempt_at a = Some t"
        "waited m \<le> 86400 \<and> (\<exists>u. a_next_retry_at a = Some u \<and> secs (waited n) \<le> u - t)"
      using fail by auto
    from t(2) obtain u where "a_next_retry_at a = Some u" "secs (waited n) \<le> u - t" by blast
    then show ?thesis using fail.hyps(3) t(1) by (simp add: t1_def)
  qed
  have step: "waited (Suc n) = waited n + min (5 * 2 ^ Suc n) 3600" by simp
  have sum: "secs (waited (Suc n)) = secs (waited n) + secs (min (5 * 2 ^ Suc n) 3600)"
    unfolding step secs_def by (simp add: algebra_simps)
  have lim: "waited n \<le> 86400" if "now - t1 \<le> secs 86400"
    using t1 that by (simp add: secs_def)
  show ?case
    using t1 lim sum
    by (auto simp: record_attempt_def Let_def count nat t1_def [symmetric] should_give_up_retry_def
        calculate_next_retry_def)
qed

section \<open>Rows through the service\<close>

text \<open>Every row of the new table comes from a row with the same id that was suppressed if it is.\<close>

definition no_new_suppression :: "engine \<Rightarrow> engine \<Rightarrow> bool" where
  "no_new_suppression e e' = (\<forall>b \<in> set (e_alerts e'). \<exists>b0 \<in> set (e_alerts e).
     a_id b = a_id b0 \<and> (a_suppressed_by_blackout b \<longrightarrow> a_suppressed_by_blackout b0))"

lemma no_new_refl: "no_new_suppression e e"
  by (auto simp: no_new_suppression_def)

lemma no_new_trans:
  "no_new_suppression e1 e2 \<Longrightarrow> no_new_suppression e2 e3 \<Longrightarrow> no_new_suppression e1 e3"
  unfolding no_new_suppression_def by metis

lemma no_new_row:
  assumes "\<And>b. a_id (f b) = a_id b" and "\<And>b. a_suppressed_by_blackout (f b) \<Longrightarrow> a_suppressed_by_blackout b"
  shows "no_new_suppression e (update_row i f e)"
  using assms by (auto simp: no_new_suppression_def update_row_def)

lemma record_attempt_keeps [simp]:
  "a_id (record_attempt now out a) = a_id a"
  "a_suppressed_by_blackout (record_attempt now out a) = a_suppressed_by_blackout a"
  by (auto simp: record_attempt_def Let_def split: attempt.splits)

lemma no_new_send_v2:
  "\<not> in_blackout E \<Longrightarrow> no_new_suppression e (snd (send_alert_v2 E a r e))"
  by (auto simp: send_alert_v2_def Let_def no_new_refl intro!: no_new_row split: option.splits if_splits)

lemma no_new_send:
  "\<not> in_blackout E \<Longrightarrow> no_new_suppression e (send_notification E a e)"
  by (auto simp: send_notification_def no_new_refl split: option.splits prod.splits
      intro!: no_new_row no_new_trans [OF no_new_send_v2 no_new_row])
    (metis no_new_row no_new_send_v2 no_new_trans record_attempt_keeps snd_conv)

lemma no_new_resolve:
  "no_new_suppression e (resolve_if_open E i why e)"
  by (auto simp: resolve_if_open_def resolve_alert_def put_alert_def no_new_suppression_def Let_def
      split: option.splits dest!: find_by_id_Some)

lemma no_new_verify:
  "\<not> in_blackout E \<Longrightarrow> no_new_suppression e (verify_and_send E why a e)"
  by (simp add: verify_and_send_def no_new_send no_new_resolve)

lemma process_suppressed_clears:
  assumes "\<not> in_blackout E"
  shows "no_new_suppression e (process_suppressed E a e)
    \<and> (\<forall>b \<in> set (e_alerts (process_suppressed E a e)). a_id b = a_id a \<longrightarrow> \<not> a_suppressed_by_blackout b)"
proof -
  define e1 where "e1 = (if a_state a = Open
      then verify_and_send E (OtherReason ''Auto-resolved: condition cleared during blackout window'') a e else e)"
  have "no_new_suppression e e1" using assms by (simp add: e1_def no_new_verify no_new_refl)
  moreover have "no_new_suppression e1 (process_suppressed E a e)"
    unfolding process_suppressed_def e1_def [symmetric] by (rule no_new_row) auto
  moreover have "\<forall>b \<in> set (e_alerts (process_suppressed E a e)). a_id b = a_id a \<longrightarrow> \<not> a_suppressed_by_blackout b"
    unfolding process_suppressed_def e1_def [symmetric] by (auto simp: update_row_def)
  ultimately show ?thesis using no_new_trans by blast
qed

lemma fold_process_suppressed:
  assumes "\<not> in_blackout E"
  shows "b \<in> set (e_alerts (fold (process_suppressed E) as e)) \<Longrightarrow> a_suppressed_by_blackout b \<Longrightarrow>
    a_id b \<notin> a_id ` set as \<and> (\<exists>b0 \<in> set (e_alerts e). a_id b = a_id b0 \<and> a_suppressed_by_blackout b0)"
proof (induction as arbitrary: e)
  case (Cons a as)
  note step = process_suppressed_clears [OF assms, of e a]
  from Cons.IH [of "process_suppressed E a e"] Cons.prems
  obtain b1 where b1: "a_id b \<notin> a_id ` set as" "b1 \<in> set (e_alerts (process_suppressed E a e))"
      "a_id b = a_id b1" "a_suppressed_by_blackout b1" by auto
  then have "a_id b1 \<noteq> a_id a" using step by blast
  moreover obtain b0 where "b0 \<in> set (e_alerts e)" "a_id b1 = a_id b0" "a_suppressed_by_blackout b0"
    using step b1 unfolding no_new_suppression_def by blast
  ultimately show ?case using b1 by auto
qed auto

section \<open>Events that match no stop rule\<close>

definition no_pending :: "string \<Rightarrow> string \<Rightarrow> string \<Rightarrow> engine \<Rightarrow> bool" where
  "no_pending scope_type key kind e = list_all (\<lambda>(k, p).
     \<not> (c_scope_type (p_context p) = scope_type \<and> c_scope_id (p_context p) = key \<and> p_kind p = kind))
     (e_pending e)"

lemma no_pending_cong: "e_pending e' = e_pending e \<Longrightarrow> no_pending t key kind e' = no_pending t key kind e"
  by (simp add: no_pending_def)

lemma no_pending_fire:
  assumes "no_pending t key kind e" and "r_kind r \<noteq> kind"
  shows "no_pending t key kind (snd (fire_event_rule W et c d r e))"
  using assms
  by (auto simp: fire_event_rule_def no_pending_def list_all_iff Let_def split_beta goc_frame
      dest!: set_dset)

lemma no_pending_event_rules:
  assumes "\<And>r. rule_matches_event r et c d \<Longrightarrow> r_kind r \<noteq> kind"
  shows "no_pending t key kind e \<Longrightarrow> no_pending t key kind (snd (event_rules W et c d rs e))"
proof (induction rs arbitrary: e)
  case (Cons r rs)
  obtain x e1 where 1: "event_rule W et c d r e = (x, e1)" by fastforce
  have q: "no_pending t key kind (e\<lparr>e_quarantine := q\<rparr>) = no_pending t key kind e" for q
    by (simp add: no_pending_def)
  have "no_pending t key kind (snd (event_rule W et c d r e))"
    using Cons.prems assms no_pending_fire [of t key kind "e\<lparr>e_quarantine := q\<rparr>" r W et c d for q]
    by (auto simp: event_rule_def Let_def split_beta q split: sum.splits bool.splits)
  with Cons.IH [of e1] show ?case by (auto simp: 1 split: prod.splits sum.splits)
qed simp

lemma handle_alert_pending:
  "e_pending (fold (handle_alert_notification E) as e) = e_pending e"
proof (induction as arbitrary: e)
  case (Cons a as)
  have "e_pending (handle_alert_notification E a e) = e_pending e"
    by (auto simp: handle_alert_notification_def send_alert_v2_def suppress_alert_def update_row_def
        Let_def split: option.splits)
  with Cons show ?case by simp
qed simp

lemma no_pending_notify:
  assumes "\<And>r. rule_matches_event r et c (Some d) \<Longrightarrow> r_kind r \<noteq> kind"
    and "no_pending t key kind e"
  shows "no_pending t key kind (evaluate_and_notify E et c d e)"
proof -
  obtain x e1 where 1: "evaluate_event (s_world E) et c (Some d) e = (x, e1)" by fastforce
  have "no_pending t key kind e1"
    using no_pending_event_rules [OF assms, where W = "s_world E"] 1
    unfolding evaluate_event_def by (metis snd_conv)
  then have "no_pending t key kind (fold (handle_alert_notification E) as e1)" for as
    by (subst no_pending_cong [OF handle_alert_pending])
  then show ?thesis
    using \<open>no_pending t key kind e1\<close> by (cases x) (simp_all add: evaluate_and_notify_def 1)
qed

lemma clear_pending_no_pending:
  "kind \<in> set ks \<Longrightarrow> no_pending t key kind (snd (clear_pending_for_scope t key (Some ks) e))"
  by (force simp: clear_pending_for_scope_def no_pending_def list_all_iff ddel_all_eq kind_selected_def
      Let_def)

lemma running_matches_no_stop:
  "ev_get d ''new_state'' = VStr ''running'' \<Longrightarrow>
     rule_matches_event r ''state_change'' c (Some d) \<Longrightarrow> r_kind r \<noteq> ''container_stopped''"
  by (auto simp: rule_matches_event_def Let_def)

section \<open>Fixtures for concrete runs\<close>

definition demo_env :: env where
  "demo_env = \<lparr>s_world = demo_world, s_service = True, s_settings = None, s_deliver = \<lambda>_ _. True,
     s_send_resolve = \<lambda>_ _. True, s_monitor = True, s_containers = Answer [],
     s_host_active = \<lambda>_. None, s_host_status = \<lambda>_. None, s_stats = None\<rparr>"

definition demo_lookups :: lookups where
  "demo_lookups = \<lparr>l_desired_state = \<lambda>_ _. (''should_run'', None), l_cached_tags = \<lambda>_ _. None,
     l_tags = \<lambda>_ _. [], l_host_name = \<lambda>_. None, l_agent_connected = \<lambda>_. False\<rparr>"

definition demo_grace_rule :: rule where
  "demo_grace_rule = demo_metric_rule\<lparr>r_notification_active_delay := Some 30\<rparr>"

definition demo_grace :: engine where
  "demo_grace = demo_metric_engine\<lparr>e_rules := [demo_grace_rule]\<rparr>"

definition demo_refreshed :: alert where
  "demo_refreshed = update_alert_row (w_now demo_world) (Some 95) True None demo_alert"

lemma demo_grace_facts:
  "distinct (map a_dedup_key (e_alerts demo_grace))"
  "list_all (\<lambda>a. a_dedup_key a = ''r2|cpu_high|host:h1'' \<longrightarrow> a_notified_at a = None) (e_alerts demo_grace)"
  "make_dedup_key (r_id demo_grace_rule) (r_kind demo_grace_rule) (c_scope_type demo_ctx) (c_scope_id demo_ctx)
     = ''r2|cpu_high|host:h1''"
  "e_alerts (snd (fire_metric_rule demo_world demo_grace_rule demo_ctx 95 (initial_mstate 0) demo_grace)) = [demo_refreshed]"
  "rule_of (snd (fire_metric_rule demo_world demo_grace_rule demo_ctx 95 (initial_mstate 0) demo_grace)) demo_refreshed
     = Some demo_grace_rule"
  "secs 20 < secs (int_or (r_notification_active_delay demo_grace_rule) 0)"
  by (simp_all add: demo_grace_def demo_metric_engine_def demo_engine_def demo_alert_def demo_grace_rule_def
      demo_metric_rule_def demo_rule_def demo_ctx_def make_dedup_key_def fire_metric_rule_def
      get_or_create_alert_def find_by_key_def check_cooldown_def update_alert_def put_alert_def
      demo_refreshed_def initial_mstate_def rule_of_def find_rule_def int_or_def update_alert_row_def
      renotify_on_new_digest_def reopen_def Let_def)

section \<open>Properties\<close>

text \<open>C10: retrying ends. A fresh alert whose deliveries keep failing for a reason that may pass is
  attempted at most 33 times, each retry no sooner than the backoff demands; after the 33rd
  attempt it counts as notified and is not tried again.\<close>

theorem retrying_ends:
  assumes "fresh a0" and "retrying a0 n a"
  shows "n \<le> 33 \<and> (n = 33 \<longrightarrow> a_notified_at a \<noteq> None)"
proof -
  have few: "m \<le> 32" if "retrying a0 m b" "a_notified_at b = None" for m b
  proof (rule ccontr)
    assume "\<not> m \<le> 32"
    then have "waited (m - 1) \<le> 86400" and "32 \<le> m - 1"
      using retrying_inv [OF that(1) assms(1)] that(2) by auto
    with waited_mono [of 32 "m - 1"] show False by (simp add: waited_32)
  qed
  show ?thesis
  proof (cases "a_notified_at a")
    case None
    then show ?thesis using few [OF assms(2)] by simp
  next
    case (Some t)
    show ?thesis
    proof (cases n)
      case (Suc m)
      with assms(2) obtain b where "retrying a0 m b" "a_notified_at b = None"
        by (auto elim: retrying_SucE)
      then show ?thesis using few Suc Some by fastforce
    qed simp
  qed
qed

theorem retrying_ends_witness:
  "(1::nat) \<le> 33 \<and> fresh demo_alert \<and> retrying demo_alert 1 (record_attempt 0 Temporary demo_alert)"
proof -
  have f: "fresh demo_alert" by (simp add: fresh_def demo_alert_def)
  have r: "retrying demo_alert 1 (record_attempt 0 Temporary demo_alert)"
    using retrying.fail [OF retrying.start, of demo_alert 0] by (simp add: demo_alert_def)
  from retrying_ends [OF f r] f r show ?thesis by simp
qed

text \<open>Proved as well: the retry window starts at the first attempt the row ever saw. When an alert that was
  attempted more than a day ago fires again, it is reopened for a new notification, but the first
  delivery that fails for a passing reason marks it as notified and schedules no retry.\<close>

theorem reopened_alert_gets_no_retry:
  assumes "a_state a = Resolved" and "a_last_attempt_at a = Some t" and "now - t > secs 86400"
  shows "let a1 = update_alert_row seen v inc d a; a2 = record_attempt now Temporary a1
     in a_state a1 = Open \<and> a_notified_at a1 = None \<and> a_notified_at a2 = Some now \<and> a_next_retry_at a2 = None"
  using assms
  by (auto simp: update_alert_row_def renotify_on_new_digest_def reopen_def record_attempt_def
      should_give_up_retry_def Let_def split: option.splits)

theorem reopened_alert_gets_no_retry_witness:
  "let a1 = update_alert_row (secs 86401) None True None (demo_alert\<lparr>a_state := Resolved, a_last_attempt_at := Some 0\<rparr>);
       a2 = record_attempt (secs 86402) Temporary a1
   in a_state a1 = Open \<and> a_notified_at a1 = None \<and> a_notified_at a2 = Some (secs 86402) \<and> a_next_retry_at a2 = None"
  by (rule reopened_alert_gets_no_retry [where t = 0]) simp_all

text \<open>Proved as well: a metric alert with a grace period waits for its samples to stop. Each breaching sample of
  a not yet notified alert restarts the grace period: until the rule's notification delay has
  passed since that sample, the alert is not due for notification.\<close>

theorem breaching_sample_restarts_grace:
  assumes "distinct (map a_dedup_key (e_alerts e))"
    and "list_all (\<lambda>a. a_dedup_key a = k \<longrightarrow> a_notified_at a = None) (e_alerts e)"
    and "k = make_dedup_key (r_id r) (r_kind r) (c_scope_type c) (c_scope_id c)"
    and "b \<in> set (e_alerts (snd (fire_metric_rule W r c v st e)))" and "a_dedup_key b = k"
    and "rule_of (snd (fire_metric_rule W r c v st e)) b = Some r"
    and "now - w_now W < secs (int_or (r_notification_active_delay r) 0)"
  shows "\<not> notification_due now (snd (fire_metric_rule W r c v st e)) b"
proof -
  have seen: "a_last_seen (update_alert_row (w_now W) (Some v) True None a) = w_now W" for a
    by (simp add: update_alert_row_def renotify_on_new_digest_def Let_def)
  have "a_last_seen b = w_now W"
  proof (cases "find_by_key (e_alerts e) k")
    case None
    then have "a_dedup_key a \<noteq> k" if "a \<in> set (e_alerts e)" for a
      using that by (auto simp: find_by_key_None)
    moreover obtain x where "get_or_create_alert W k r c (Some v) None e =
        ((x, True), e\<lparr>e_alerts := e_alerts e @ [x], e_uuids := Suc (e_uuids e)\<rparr>)"
      "a_last_seen x = w_now W"
      using get_or_create_new [OF None, of W r c "Some v" None] by blast
    ultimately show ?thesis
      using assms(4,5) by (auto simp: fire_metric_rule_def assms(3) [symmetric] Let_def)
  next
    case (Some a)
    then have a: "a \<in> set (e_alerts e)" "a_dedup_key a = k" using find_by_key_Some by auto
    have one: "x = a" if "x \<in> set (e_alerts e)" "a_dedup_key x = k" for x
      using assms(1) a that by (auto simp: distinct_map inj_on_def)
    have "a_notified_at a = None" using assms(2) a by (auto simp: list_all_iff)
    then have "\<not> check_cooldown (w_now W) a cd" for cd by (simp add: check_cooldown_def)
    then have "b \<in> set (e_alerts (put_alert (update_alert_row (w_now W) (Some v) True None a) e))"
      using assms(4)
      by (simp add: fire_metric_rule_def assms(3) [symmetric] get_or_create_old [OF Some] Let_def
          update_alert_def)
    then show ?thesis using one assms(5) seen by (auto simp: put_alert_def split: if_splits)
  qed
  then show ?thesis using assms(6,7) by (simp add: notification_due_def)
qed

theorem breaching_sample_restarts_grace_witness:
  "\<not> notification_due (w_now demo_world + secs 20)
     (snd (fire_metric_rule demo_world demo_grace_rule demo_ctx 95 (initial_mstate 0) demo_grace)) demo_refreshed"
  by (rule breaching_sample_restarts_grace [where k = "''r2|cpu_high|host:h1''"])
    (use demo_grace_facts in \<open>simp_all add: demo_refreshed_def demo_alert_def\<close>)

text \<open>Proved as well: blackouts defer and are left clean. While a blackout lasts, sending an alert only flags it
  and a transition check changes nothing; the first transition check after it leaves no alert
  flagged, so none stays behind when the flag hides it from the notification task.\<close>

theorem blackout_defers_then_releases:
  assumes "s_service E"
  shows "(in_blackout E \<longrightarrow> check_blackout_transitions E e = e \<and>
      (rule_of e a \<noteq> None \<longrightarrow> send_notification E a e = suppress_alert (a_id a) e))
    \<and> (\<not> in_blackout E \<longrightarrow> (\<forall>b \<in> set (e_alerts (check_blackout_transitions E e)). \<not> a_suppressed_by_blackout b))"
proof -
  have "\<not> a_suppressed_by_blackout b"
    if "\<not> in_blackout E" "b \<in> set (e_alerts (check_blackout_transitions E e))" for b
  proof
    assume "a_suppressed_by_blackout b"
    with fold_process_suppressed [OF that(1), of b "filter a_suppressed_by_blackout (e_alerts e)" e] that assms
    obtain b0 where "a_id b \<notin> a_id ` {x \<in> set (e_alerts e). a_suppressed_by_blackout x}"
      "b0 \<in> set (e_alerts e)" "a_id b = a_id b0" "a_suppressed_by_blackout b0"
      by (auto simp: check_blackout_transitions_def)
    then show False by auto
  qed
  then show ?thesis
    using assms by (auto simp: check_blackout_transitions_def send_notification_def split: option.splits)
qed

theorem blackout_defers_then_releases_witness:
  "list_all (\<lambda>b. \<not> a_suppressed_by_blackout b)
     (e_alerts (check_blackout_transitions demo_env (demo_engine\<lparr>e_alerts := [demo_alert\<lparr>a_suppressed_by_blackout := True\<rparr>]\<rparr>)))"
proof -
  have "s_service demo_env" "\<not> in_blackout demo_env"
    by (simp_all add: demo_env_def in_blackout_def is_in_blackout_window_def)
  with blackout_defers_then_releases [of demo_env
      "demo_engine\<lparr>e_alerts := [demo_alert\<lparr>a_suppressed_by_blackout := True\<rparr>]\<rparr>" demo_alert]
  show ?thesis by (simp add: list_all_iff)
qed

text \<open>Proved as well: a recovery is announced once in the life of an alert row. When an alert whose recovery was
  dispatched fires again and is resolved again, its second recovery is not pending, whatever its
  rule asks for, and dispatching it does nothing.\<close>

theorem second_recovery_is_silent:
  assumes "a_resolve_notified_at a = Some t"
  shows "let a1 = update_alert_row seen v inc d a; a2 = fst (resolve_alert W a1 why True e1)
     in \<not> resolve_pending e a2 \<and> (find_by_id (e_alerts e) (a_id a) = Some a2 \<longrightarrow>
          send_resolve_notification E (a_id a) e = e)"
proof -
  have "a_resolve_notified_at (update_alert_row seen v inc d a) = Some t"
    using assms by (auto simp: update_alert_row_def renotify_on_new_digest_def reopen_def Let_def
        split: option.splits)
  then show ?thesis
    by (auto simp: resolve_alert_def resolve_pending_def send_resolve_notification_def Let_def)
qed

theorem second_recovery_is_silent_witness:
  "\<not> resolve_pending demo_engine (fst (resolve_alert demo_world (update_alert_row (secs 5) (Some 95) True None
      (demo_alert\<lparr>a_state := Resolved, a_resolve_notified_at := Some 0\<rparr>)) ClearConditionMet True demo_engine))"
  using second_recovery_is_silent [of "demo_alert\<lparr>a_state := Resolved, a_resolve_notified_at := Some 0\<rparr>" 0
      "secs 5" "Some 95" True None demo_world ClearConditionMet demo_engine demo_engine]
  by (simp add: Let_def)

text \<open>Proved as well: a run-mode filter never matches a container event. The context of a container event carries
  the pair that the database lookup returns, so a rule whose container selector asks for
  \<open>should_run\<close>, true or false, matches no container event at all.\<close>

theorem should_run_never_matches_events:
  assumes "r_container_selector r = Json (VDict d)" and "vget (VDict d) ''should_run'' = Some (VBool b)"
  shows "fst (matches_selectors lib mt r (container_context L key cid cname hid hname) q) \<noteq> Inr True"
proof
  define c where "c = container_context L key cid cname hid hname"
  assume "fst (matches_selectors lib mt r (container_context L key cid cname hid hname) q) = Inr True"
  then obtain q1 where "fst (guarded (container_block lib mt c) (r_container_selector r) q1) = Some True"
    using matches_selectors_True(3) unfolding c_def by blast
  then obtain q2 where "fst (container_block lib mt c (VDict d) q2) = Some True"
    using guarded_True assms(1) by blast
  from checks_True [OF this [unfolded container_block_def],
      of "\<lambda>q. (should_run_ok (VDict d) (c_desired_state c), q)"]
  have "should_run_ok (VDict d) (c_desired_state c) = Some True" by simp
  moreover have "\<exists>s u. c_desired_state c = DesiredRow s u"
    by (auto simp: c_def container_context_def Let_def split: prod.splits)
  ultimately show False using assms(2) by (cases b) (auto simp: should_run_ok_def)
qed

theorem should_run_never_matches_events_witness:
  "fst (matches_selectors (w_rx demo_world) 0
     (demo_rule\<lparr>r_container_selector := Json (VDict [(VStr ''should_run'', VBool True)])\<rparr>)
     (container_context demo_lookups ''h1:aaaaaaaaaaaa'' ''aaaaaaaaaaaa'' ''web'' ''h1'' ''alpha'') []) \<noteq> Inr True"
  by (rule should_run_never_matches_events [where d = "[(VStr ''should_run'', VBool True)]" and b = True])
    simp_all

text \<open>Proved as well: a start withdraws the pending stop. After the event of a container that runs again, no
  alert for its stopping is waiting for its delay any more, whatever rules the event matched.\<close>

theorem running_event_withdraws_stop:
  assumes "ev_get d ''new_state'' = VStr ''running''" and "d \<noteq> []" and "s_monitor E"
    and "make_composite_key hid cid = Inr key"
  shows "no_pending ''container'' key ''container_stopped''
    (handle_container_event E L ''state_change'' cid cname hid hname d e)"
proof -
  define c where "c = container_context L key cid cname hid hname"
  have "no_pending ''container'' key ''container_stopped'' (opposite_state E key (ev_get d ''new_state'') e)"
    using clear_pending_no_pending [of "''container_stopped''" "[''container_stopped'']" "''container''" key]
    by (simp add: opposite_state_def assms(1) Let_def cancel_pending_clears_for_scope_def no_pending_def)
  then have "no_pending ''container'' key ''container_stopped''
      (if truthy (ev_get d ''container_deleted'')
       then snd (clear_pending_for_scope ''container'' key None (opposite_state E key (ev_get d ''new_state'') e))
       else opposite_state E key (ev_get d ''new_state'') e)"
    by (auto simp: clear_pending_for_scope_def no_pending_def list_all_iff ddel_all_eq Let_def)
  then have "no_pending ''container'' key ''container_stopped'' (evaluate_and_notify E ''state_change'' c d
      (if truthy (ev_get d ''container_deleted'')
       then snd (clear_pending_for_scope ''container'' key None (opposite_state E key (ev_get d ''new_state'') e))
       else opposite_state E key (ev_get d ''new_state'') e))"
    by (rule no_pending_notify [rotated]) (rule running_matches_no_stop [OF assms(1)])
  then show ?thesis
    using assms(2-4) by (simp add: handle_container_event_def c_def Let_def)
qed

theorem running_event_withdraws_stop_witness:
  "no_pending ''container'' ''h1:aaaaaaaaaaaa'' ''container_stopped''
    (handle_container_event demo_env demo_lookups ''state_change'' ''aaaaaaaaaaaa'' ''web'' ''h1'' ''alpha''
      [(''new_state'', VStr ''running'')] demo_engine)"
  by (rule running_event_withdraws_stop) (simp_all add: ev_get_def demo_env_def make_composite_key_def)

end
