(* ===== verification/AutoRestart.thy ===== *)
theory AutoRestart
  imports Keys
begin

text \<open>
  The container monitor (\<open>backend/docker_monitor/monitor.py\<close>, \<open>state_manager.py\<close>): the tracked states of
  containers, fed by Docker events and by polling, and automatic restarts. The handler of an event and the
  reconciliation of a poll contain no suspension inside their critical sections, so each is one step; a restart
  task is cut at its awaits (its creation, the delay before a retry, the call that starts the container).
\<close>

section \<open>Rows, settings, tasks\<close>

record auto_restart_row =
  ar_host_id :: string
  ar_container_id :: string
  ar_container_name :: string
  ar_enabled :: bool
  ar_max_retries :: int
  ar_retry_delay :: int
  ar_restart_count :: int
  ar_updated_at :: time

record restart_settings =
  max_retries :: int
  default_auto_restart :: bool

text \<open>A container as a sweep of the discovery reports it; \<open>id\<close> and \<open>short_id\<close> are the same twelve characters.\<close>

record watched =
  wc_host_id :: string
  wc_short_id :: string
  wc_name :: string
  wc_status :: string

datatype restart_phase = Created | Delayed int | Calling int

record restart_task =
  rt_host_id :: string
  rt_short_id :: string
  rt_phase :: restart_phase

datatype state_source = FromEvent | FromPoll

datatype docker_bus_type = BUS_STOPPED | BUS_DIED | BUS_STARTED | BUS_RESTARTED | BUS_HEALTH_CHANGED | BUS_DELETED

record docker_bus_event =
  db_type :: docker_bus_type
  db_scope_id :: string
  db_new_state :: "string option"
  db_old_state :: "string option"
  db_exit_code :: "int option"

record monitor =
  mo_states :: "(string, string) pydict"
  mo_stamps :: "(string, time) pydict"
  mo_sources :: "(string, state_source) pydict"
  mo_status :: "(string, bool) pydict"
  mo_attempts :: "(string, int) pydict"
  mo_restarting :: "(string, bool) pydict"
  mo_last :: "watched list"
  mo_rows :: "auto_restart_row list"
  mo_settings :: restart_settings \<comment> \<open>\<open>DockerMonitor.settings\<close>\<close>
  mo_startup_settings :: restart_settings \<comment> \<open>\<open>StateManager.settings\<close>, the object passed at start-up\<close>
  mo_alerts_on :: bool \<comment> \<open>\<open>alert_evaluation_service\<close> is set\<close>
  mo_tasks :: "restart_task list" \<comment> \<open>running \<open>auto_restart_container\<close> tasks of the event loop\<close>
  mo_calls :: "(string \<times> string) list" \<comment> \<open>calls of \<open>start_container\<close>, latest first\<close>
  mo_bus :: "docker_bus_event list" \<comment> \<open>emitted events, latest first\<close>
  mo_abandoned :: "string list" \<comment> \<open>broadcasts of \<open>auto_restart_failed\<close>, latest first\<close>

section \<open>Configuration\<close>

definition get_auto_restart_config :: "string \<Rightarrow> string \<Rightarrow> auto_restart_row list \<Rightarrow> auto_restart_row option" where
  "get_auto_restart_config host_id container_id rows =
     find (\<lambda>r. ar_host_id r = host_id \<and> ar_container_id r = container_id) rows"

fun update_first :: "('a \<Rightarrow> bool) \<Rightarrow> ('a \<Rightarrow> 'a) \<Rightarrow> 'a list \<Rightarrow> 'a list" where
  "update_first P f [] = []"
| "update_first P f (x # xs) = (if P x then f x # xs else x # update_first P f xs)"

definition set_auto_restart :: "time \<Rightarrow> string \<Rightarrow> string \<Rightarrow> string \<Rightarrow> bool \<Rightarrow> auto_restart_row list \<Rightarrow> auto_restart_row list" where
  "set_auto_restart now host_id container_id container_name enabled rows =
     (case get_auto_restart_config host_id container_id rows of
        Some _ \<Rightarrow> update_first (\<lambda>r. ar_host_id r = host_id \<and> ar_container_id r = container_id)
            (\<lambda>r. r\<lparr>ar_enabled := enabled, ar_updated_at := now,
                   ar_restart_count := (if enabled then ar_restart_count r else 0)\<rparr>) rows
      | None \<Rightarrow> rows @ [\<lparr>ar_host_id = host_id, ar_container_id = container_id, ar_container_name = container_name,
            ar_enabled = enabled, ar_max_retries = 3, ar_retry_delay = 30, ar_restart_count = 0, ar_updated_at = now\<rparr>])"

definition get_auto_restart_status :: "string \<Rightarrow> string \<Rightarrow> monitor \<Rightarrow> (key_error, bool \<times> monitor) res" where
  "get_auto_restart_status host_id container_id m =
     res_bind (make_composite_key host_id container_id) (\<lambda>container_key.
       case dget (mo_status m) container_key of
         Some b \<Rightarrow> Inr (b, m)
       | None \<Rightarrow>
           let b = (case get_auto_restart_config host_id container_id (mo_rows m) of
                      Some config \<Rightarrow> ar_enabled config
                    | None \<Rightarrow> default_auto_restart (mo_startup_settings m))
           in Inr (b, m\<lparr>mo_status := dset container_key b (mo_status m)\<rparr>))"

definition toggle_auto_restart :: "time \<Rightarrow> string \<Rightarrow> string \<Rightarrow> string \<Rightarrow> bool \<Rightarrow> monitor \<Rightarrow> monitor" where
  \<comment> \<open>an id of another length raises \<open>ValueError\<close> before anything is changed\<close>
  "toggle_auto_restart now host_id container_id container_name enabled m =
     (case make_composite_key host_id container_id of
        Inl e \<Rightarrow> m
      | Inr container_key \<Rightarrow>
          let m = m\<lparr>mo_status := dset container_key enabled (mo_status m)\<rparr>;
              m = (if enabled then m
                   else m\<lparr>mo_attempts := dset container_key 0 (mo_attempts m),
                          mo_restarting := dset container_key False (mo_restarting m)\<rparr>)
          in m\<lparr>mo_rows := set_auto_restart now host_id container_id container_name enabled (mo_rows m)\<rparr>)"

section \<open>Docker events\<close>

record docker_event =
  de_action :: string
  de_container_id :: string
  de_container_name :: string
  de_host_id :: string
  de_attributes :: "(string, string) pydict option" \<comment> \<open>\<open>None\<close>: JSON \<open>null\<close>, on which \<open>.get\<close> raises\<close>

text \<open>The bus event, new state and exit code of an action; the outer \<open>None\<close> is the exception of \<open>attributes.get\<close>.\<close>

definition read_action :: "docker_event \<Rightarrow> (docker_bus_type \<times> string option \<times> int option) option" where
  "read_action ev =
     (if de_action ev = ''die'' then
        (case de_attributes ev of None \<Rightarrow> None
         | Some a \<Rightarrow>
             let exit_code = (case dget a ''exitCode'' of None \<Rightarrow> Some 0 | Some s \<Rightarrow> py_int s) in
             Some (if exit_code = Some 0 then (BUS_STOPPED, Some ''stopped'', exit_code)
                   else (BUS_DIED, Some ''exited'', exit_code)))
      else if de_action ev = ''start'' then Some (BUS_STARTED, Some ''running'', None)
      else if de_action ev = ''restart'' then Some (BUS_RESTARTED, Some ''running'', None)
      else if de_action ev = ''health_status'' then
        (case de_attributes ev of None \<Rightarrow> None
         | Some a \<Rightarrow> Some (BUS_HEALTH_CHANGED,
             Some (case dget a ''health_status'' of Some s \<Rightarrow> s
                   | None \<Rightarrow> (case dget a ''health'' of Some s \<Rightarrow> s | None \<Rightarrow> ''unhealthy'')), None))
      else if de_action ev = ''oom'' then Some (BUS_DIED, Some ''oom'', None)
      else Some (BUS_DELETED, None, None))"

definition track_event :: "time \<Rightarrow> docker_event \<Rightarrow> string \<Rightarrow> string option \<Rightarrow> monitor \<Rightarrow> monitor" where
  "track_event now ev container_key new_state m =
     (if de_action ev = ''destroy''
      then m\<lparr>mo_states := ddel container_key (mo_states m), mo_stamps := ddel container_key (mo_stamps m),
             mo_sources := ddel container_key (mo_sources m)\<rparr>
      else (case new_state of
          None \<Rightarrow> m
        | Some s \<Rightarrow> if s = [] then m
            else m\<lparr>mo_states := dset container_key s (mo_states m), mo_stamps := dset container_key now (mo_stamps m),
                   mo_sources := dset container_key FromEvent (mo_sources m)\<rparr>))"

text \<open>The part of the handler that feeds the alerts; \<open>Inl\<close>: it raised, with the state left behind.\<close>

definition alert_part :: "time \<Rightarrow> docker_event \<Rightarrow> monitor \<Rightarrow> monitor + monitor" where
  "alert_part now ev m =
     (if mo_alerts_on m \<and> de_action ev \<in> {''die'', ''oom'', ''health_status'', ''start'', ''restart'', ''destroy''} then
        (case read_action ev of
           None \<Rightarrow> Inl m
         | Some (bus_type, new_state, exit_code) \<Rightarrow>
             (case make_composite_key (de_host_id ev) (de_container_id ev) of
                Inl e \<Rightarrow> Inl m
              | Inr container_key \<Rightarrow>
                  let old_state = dget (mo_states m) container_key;
                      m = track_event now ev container_key new_state m
                  in if de_attributes ev = None then Inl m
                     else Inr (m\<lparr>mo_bus := \<lparr>db_type = bus_type, db_scope_id = container_key,
                            db_new_state = new_state, db_old_state = old_state, db_exit_code = exit_code\<rparr> # mo_bus m\<rparr>)))
      else Inr m)"

section \<open>Restarts\<close>

text \<open>The check under the lock that both the event and the poll make before they create a task.\<close>

definition claim_restart :: "string \<Rightarrow> string \<Rightarrow> string \<Rightarrow> monitor \<Rightarrow> monitor" where
  "claim_restart container_key host_id short_id m =
     (let is_restarting = (dget (mo_restarting m) container_key = Some True);
          attempts = (case dget (mo_attempts m) container_key of None \<Rightarrow> 0 | Some n \<Rightarrow> n)
      in if \<not> is_restarting \<and> attempts < max_retries (mo_settings m)
         then m\<lparr>mo_restarting := dset container_key True (mo_restarting m),
                mo_tasks := mo_tasks m @ [\<lparr>rt_host_id = host_id, rt_short_id = short_id, rt_phase = Created\<rparr>]\<rparr>
         else m)"

definition is_backup :: "string \<Rightarrow> bool" where
  "is_backup name = contains ''-dockmon-backup-'' name"

definition restart_on_die :: "bool \<Rightarrow> docker_event \<Rightarrow> monitor \<Rightarrow> monitor" where
  "restart_on_die is_updating ev m =
     (if is_backup (de_container_name ev) \<or> is_updating then m
      else (case get_auto_restart_status (de_host_id ev) (de_container_id ev) m of
          Inl e \<Rightarrow> m
        | Inr (enabled, m) \<Rightarrow>
            if \<not> enabled then m
            else (case find (\<lambda>c. wc_short_id c = de_container_id ev \<and> wc_host_id c = de_host_id ev) (mo_last m) of
                None \<Rightarrow> m
              | Some c \<Rightarrow>
                  (case make_composite_key (de_host_id ev) (de_container_id ev) of
                     Inl e \<Rightarrow> m
                   | Inr container_key \<Rightarrow> claim_restart container_key (wc_host_id c) (wc_short_id c) m))))"

definition handle_docker_event :: "time \<Rightarrow> bool \<Rightarrow> docker_event \<Rightarrow> monitor \<Rightarrow> monitor" where
  "handle_docker_event now is_updating ev m =
     (if starts_with (de_action ev) ''exec_'' then m
      else (case alert_part now ev m of
          Inl m' \<Rightarrow> m'
        | Inr m' \<Rightarrow> if de_action ev = ''die'' then restart_on_die is_updating ev m' else m'))"

section \<open>Polling\<close>

definition STATE_UPDATE_STALE_THRESHOLD :: time where
  "STATE_UPDATE_STALE_THRESHOLD = secs 2"

definition reconcile_state :: "time \<Rightarrow> watched \<Rightarrow> string \<Rightarrow> monitor \<Rightarrow> monitor" where
  "reconcile_state now c container_key m =
     (if (case dget (mo_stamps m) container_key of
            None \<Rightarrow> False
          | Some t \<Rightarrow> now - t < STATE_UPDATE_STALE_THRESHOLD \<and> dget (mo_sources m) container_key = Some FromEvent)
      then m
      else m\<lparr>mo_states := dset container_key (wc_status c) (mo_states m),
             mo_stamps := dset container_key now (mo_stamps m),
             mo_sources := dset container_key FromPoll (mo_sources m)\<rparr>)"

text \<open>The loops end with the first exception, which the loop of the monitor logs.\<close>

fun reconcile_states :: "time \<Rightarrow> watched list \<Rightarrow> monitor \<Rightarrow> monitor + monitor" where
  "reconcile_states now [] m = Inr m"
| "reconcile_states now (c # cs) m =
     (case make_composite_key (wc_host_id c) (wc_short_id c) of
        Inl e \<Rightarrow> Inl m
      | Inr container_key \<Rightarrow> reconcile_states now cs (reconcile_state now c container_key m))"

definition reconcile_restart :: "watched \<Rightarrow> monitor \<Rightarrow> monitor + monitor" where
  "reconcile_restart c m =
     (if is_backup (wc_name c) \<or> wc_status c \<noteq> ''exited'' then Inr m
      else (case get_auto_restart_status (wc_host_id c) (wc_short_id c) m of
          Inl e \<Rightarrow> Inl m
        | Inr (enabled, m) \<Rightarrow>
            if \<not> enabled then Inr m
            else (case make_composite_key (wc_host_id c) (wc_short_id c) of
                Inl e \<Rightarrow> Inl m
              | Inr container_key \<Rightarrow> Inr (claim_restart container_key (wc_host_id c) (wc_short_id c) m))))"

fun reconcile_restarts :: "watched list \<Rightarrow> monitor \<Rightarrow> monitor + monitor" where
  "reconcile_restarts [] m = Inr m"
| "reconcile_restarts (c # cs) m = (case reconcile_restart c m of Inl m' \<Rightarrow> Inl m' | Inr m' \<Rightarrow> reconcile_restarts cs m')"

text \<open>One round of \<open>monitor_containers\<close> is cut after the sweep, where the synchronization of streams awaits.\<close>

definition end_sweep :: "watched list \<Rightarrow> monitor \<Rightarrow> monitor" where
  "end_sweep containers m = m\<lparr>mo_last := containers\<rparr>"

definition reconcile :: "time \<Rightarrow> watched list \<Rightarrow> monitor \<Rightarrow> monitor" where
  "reconcile now containers m =
     (case reconcile_states now containers m of
        Inl m' \<Rightarrow> m'
      | Inr m' \<Rightarrow> (case reconcile_restarts containers m' of Inl m'' \<Rightarrow> m'' | Inr m'' \<Rightarrow> m''))"

section \<open>The restart task\<close>

definition task_key :: "restart_task \<Rightarrow> string" where
  "task_key t = rt_host_id t @ '':'' @ rt_short_id t"

definition at_phase :: "string \<Rightarrow> restart_phase \<Rightarrow> restart_task \<Rightarrow> bool" where
  "at_phase key ph t = (task_key t = key \<and> rt_phase t = ph)"

fun remove_first :: "('a \<Rightarrow> bool) \<Rightarrow> 'a list \<Rightarrow> 'a list" where
  "remove_first P [] = []"
| "remove_first P (x # xs) = (if P x then xs else x # remove_first P xs)"

text \<open>The task runs up to its first await: a retry sleeps, a first attempt calls at once.\<close>

definition call_container :: "restart_task \<Rightarrow> int \<Rightarrow> restart_phase \<Rightarrow> monitor \<Rightarrow> monitor" where
  "call_container t attempt from_phase m =
     m\<lparr>mo_tasks := update_first (at_phase (task_key t) from_phase) (rt_phase_update (\<lambda>_. Calling attempt)) (mo_tasks m),
       mo_calls := (rt_host_id t, rt_short_id t) # mo_calls m\<rparr>"

definition begin_restart :: "string \<Rightarrow> monitor \<Rightarrow> monitor" where
  "begin_restart key m =
     (case find (at_phase key Created) (mo_tasks m) of
        None \<Rightarrow> m
      | Some t \<Rightarrow>
          let attempt = (case dget (mo_attempts m) key of None \<Rightarrow> 0 | Some n \<Rightarrow> n) + 1;
              m = m\<lparr>mo_attempts := dset key attempt (mo_attempts m)\<rparr>
          in if attempt > 1
             then m\<lparr>mo_tasks := update_first (at_phase key Created) (rt_phase_update (\<lambda>_. Delayed attempt)) (mo_tasks m)\<rparr>
             else call_container t attempt Created m)"

definition wake_restart :: "string \<Rightarrow> int \<Rightarrow> monitor \<Rightarrow> monitor" where
  "wake_restart key attempt m =
     (case find (at_phase key (Delayed attempt)) (mo_tasks m) of
        None \<Rightarrow> m
      | Some t \<Rightarrow> call_container t attempt (Delayed attempt) m)"

datatype start_answer = Running | Falsy | Raised

definition end_restart :: "string \<Rightarrow> int \<Rightarrow> start_answer \<Rightarrow> monitor \<Rightarrow> monitor" where
  "end_restart key attempt r m =
     (case find (at_phase key (Calling attempt)) (mo_tasks m) of
        None \<Rightarrow> m
      | Some t \<Rightarrow>
          let m = (case r of
                 Running \<Rightarrow> m\<lparr>mo_attempts := dset key 0 (mo_attempts m)\<rparr>
               | Falsy \<Rightarrow> m
               | Raised \<Rightarrow> if attempt \<ge> max_retries (mo_settings m)
                   then m\<lparr>mo_status := dset key False (mo_status m), mo_abandoned := key # mo_abandoned m\<rparr> else m)
          in m\<lparr>mo_restarting := dset key False (mo_restarting m),
               mo_tasks := remove_first (at_phase key (Calling attempt)) (mo_tasks m)\<rparr>)"

section \<open>Housekeeping\<close>

definition drop_auto_restart :: "(string \<Rightarrow> bool) \<Rightarrow> monitor \<Rightarrow> monitor" where
  \<comment> \<open>the keys are those of \<open>auto_restart_status\<close>; the other two follow them\<close>
  "drop_auto_restart P m =
     (let ks = filter P (map fst (mo_status m))
      in m\<lparr>mo_status := ddel_all ks (mo_status m), mo_attempts := ddel_all ks (mo_attempts m),
           mo_restarting := ddel_all ks (mo_restarting m)\<rparr>)"

definition cleanup_stale_container_state :: "string list \<Rightarrow> monitor \<Rightarrow> monitor" where
  "cleanup_stale_container_state current m =
     (let ks = filter (\<lambda>k. k \<notin> set current) (map fst (mo_states m));
          m = m\<lparr>mo_states := ddel_all ks (mo_states m), mo_stamps := ddel_all ks (mo_stamps m),
                mo_sources := ddel_all ks (mo_sources m)\<rparr>
      in drop_auto_restart (\<lambda>k. k \<notin> set current) m)"

definition remove_host_state :: "string \<Rightarrow> monitor \<Rightarrow> monitor" where
  \<comment> \<open>timestamps and sources are not dropped\<close>
  "remove_host_state host_id m =
     (let P = (\<lambda>k. starts_with k (host_id @ '':''));
          m = m\<lparr>mo_states := ddel_all (filter P (map fst (mo_states m))) (mo_states m)\<rparr>
      in drop_auto_restart P m)"

definition load_auto_restart :: "auto_restart_row list \<Rightarrow> monitor \<Rightarrow> (key_error, monitor) res" where
  \<comment> \<open>the enabled rows of a host; \<open>Inl\<close>: a bad id ends the loading\<close>
  "load_auto_restart configs m =
     fold (\<lambda>config acc. res_bind acc (\<lambda>m.
         res_bind (make_composite_key (ar_host_id config) (ar_container_id config)) (\<lambda>container_key.
           Inr (m\<lparr>mo_status := dset container_key True (mo_status m),
                  mo_attempts := dset container_key (ar_restart_count config) (mo_attempts m)\<rparr>)))) configs (Inr m)"

definition init_monitor :: "restart_settings \<Rightarrow> auto_restart_row list \<Rightarrow> monitor" where
  "init_monitor s rows = \<lparr>mo_states = [], mo_stamps = [], mo_sources = [], mo_status = [], mo_attempts = [],
     mo_restarting = [], mo_last = [], mo_rows = rows, mo_settings = s, mo_startup_settings = s, mo_alerts_on = True,
     mo_tasks = [], mo_calls = [], mo_bus = [], mo_abandoned = []\<rparr>"

section \<open>Steps\<close>

datatype monitor_step =
    Docker time bool docker_event
  | EndSweep "watched list"
  | Reconcile time "watched list"
  | BeginRestart string
  | WakeRestart string int
  | EndRestart string int start_answer
  | Toggle time string string string bool
  | Cleanup "string list"
  | RemoveHost string
  | SaveSettings restart_settings

fun monitor_does :: "monitor \<Rightarrow> monitor_step \<Rightarrow> monitor" where
  "monitor_does m (Docker now u ev) = handle_docker_event now u ev m"
| "monitor_does m (EndSweep cs) = end_sweep cs m"
| "monitor_does m (Reconcile now cs) = reconcile now cs m"
| "monitor_does m (BeginRestart key) = begin_restart key m"
| "monitor_does m (WakeRestart key a) = wake_restart key a m"
| "monitor_does m (EndRestart key a r) = end_restart key a r m"
| "monitor_does m (Toggle now h c n b) = toggle_auto_restart now h c n b m"
| "monitor_does m (Cleanup ks) = cleanup_stale_container_state ks m"
| "monitor_does m (RemoveHost h) = remove_host_state h m"
| "monitor_does m (SaveSettings s) = m\<lparr>mo_settings := s\<rparr>"

end
