(* ===== verification/AutoRestartLaws.thy ===== *)
theory AutoRestartLaws
  imports AutoRestart
begin

text \<open>
  What automatic restarts guarantee. Seen from one container the monitor is a small machine - a flag, a counter, the
  restarts in flight, the number of calls - and every step of the monitor is a few steps of it; the bounds are proved
  on that machine. Then runs in which the code does not keep what it means to.
\<close>

section \<open>One container\<close>

record slot =
  sl_phases :: "restart_phase list"
  sl_attempts :: int
  sl_flag :: bool
  sl_calls :: nat

definition slot_of :: "string \<Rightarrow> monitor \<Rightarrow> slot" where
  "slot_of K m = \<lparr>sl_phases = map rt_phase (filter (\<lambda>t. task_key t = K) (mo_tasks m)),
     sl_attempts = (case dget (mo_attempts m) K of None \<Rightarrow> 0 | Some n \<Rightarrow> n),
     sl_flag = (dget (mo_restarting m) K = Some True),
     sl_calls = length (filter (\<lambda>(h, s). h @ '':'' @ s = K) (mo_calls m))\<rparr>"

text \<open>The machine; \<open>M\<close> bounds the attempts and \<open>b\<close> says whether a start may succeed.\<close>

inductive slot_step :: "int \<Rightarrow> bool \<Rightarrow> slot \<Rightarrow> slot \<Rightarrow> bool" for M :: int and b :: bool where
  claim: "\<not> sl_flag s \<Longrightarrow> sl_attempts s < M \<Longrightarrow>
    slot_step M b s (s\<lparr>sl_flag := True, sl_phases := sl_phases s @ [Created]\<rparr>)"
| begin_now: "Created \<in> set (sl_phases s) \<Longrightarrow> \<not> 1 < sl_attempts s + 1 \<Longrightarrow>
    slot_step M b s (s\<lparr>sl_attempts := sl_attempts s + 1, sl_calls := Suc (sl_calls s),
      sl_phases := update_first (\<lambda>p. p = Created) (\<lambda>_. Calling (sl_attempts s + 1)) (sl_phases s)\<rparr>)"
| begin_later: "Created \<in> set (sl_phases s) \<Longrightarrow> 1 < sl_attempts s + 1 \<Longrightarrow>
    slot_step M b s (s\<lparr>sl_attempts := sl_attempts s + 1,
      sl_phases := update_first (\<lambda>p. p = Created) (\<lambda>_. Delayed (sl_attempts s + 1)) (sl_phases s)\<rparr>)"
| wake: "Delayed a \<in> set (sl_phases s) \<Longrightarrow>
    slot_step M b s (s\<lparr>sl_calls := Suc (sl_calls s),
      sl_phases := update_first (\<lambda>p. p = Delayed a) (\<lambda>_. Calling a) (sl_phases s)\<rparr>)"
| miss: "Calling a \<in> set (sl_phases s) \<Longrightarrow>
    slot_step M b s (s\<lparr>sl_flag := False, sl_phases := remove_first (\<lambda>p. p = Calling a) (sl_phases s)\<rparr>)"
| hit: "b \<Longrightarrow> Calling a \<in> set (sl_phases s) \<Longrightarrow>
    slot_step M b s (s\<lparr>sl_flag := False, sl_attempts := 0,
      sl_phases := remove_first (\<lambda>p. p = Calling a) (sl_phases s)\<rparr>)"

abbreviation slot_steps :: "int \<Rightarrow> bool \<Rightarrow> slot \<Rightarrow> slot \<Rightarrow> bool" where
  "slot_steps M b \<equiv> (slot_step M b)\<^sup>*\<^sup>*"

text \<open>The steps that leave the bookkeeping of a container to its restarts.\<close>

fun undisturbed :: "string \<Rightarrow> int \<Rightarrow> monitor_step \<Rightarrow> bool" where
  "undisturbed K M (Toggle now h c n e) = (e \<or> make_composite_key h c \<noteq> Inr K)"
| "undisturbed K M (Cleanup ks) = (K \<in> set ks)"
| "undisturbed K M (RemoveHost h) = (\<not> starts_with K (h @ '':''))"
| "undisturbed K M (SaveSettings s) = (max_retries s \<le> M)"
| "undisturbed K M _ = True"

fun starts_fine :: "string \<Rightarrow> monitor_step \<Rightarrow> bool" where
  "starts_fine K (EndRestart k a r) = (k = K \<and> r = Running)"
| "starts_fine K _ = False"

section \<open>The steps of the monitor, seen from one container\<close>

lemma task_key_phase [simp]: "task_key (t\<lparr>rt_phase := p\<rparr>) = task_key t"
  by (simp add: task_key_def)

lemma task_key_phase_update [simp]: "task_key (rt_phase_update f t) = task_key t"
  by (simp add: task_key_def)

lemma fold_task_key [simp]: "rt_host_id t @ CHR '':'' # rt_short_id t = task_key t"
  by (simp add: task_key_def)

lemma phases_update_first:
  "map rt_phase (filter (\<lambda>t. task_key t = K) (update_first (at_phase k ph) (rt_phase_update (\<lambda>_. p)) ts)) =
     (if k = K then update_first (\<lambda>q. q = ph) (\<lambda>_. p) (map rt_phase (filter (\<lambda>t. task_key t = K) ts))
      else map rt_phase (filter (\<lambda>t. task_key t = K) ts))"
  by (induction ts) (auto simp: at_phase_def)

lemma phases_remove_first:
  "map rt_phase (filter (\<lambda>t. task_key t = K) (remove_first (at_phase k ph) ts)) =
     (if k = K then remove_first (\<lambda>q. q = ph) (map rt_phase (filter (\<lambda>t. task_key t = K) ts))
      else map rt_phase (filter (\<lambda>t. task_key t = K) ts))"
  by (induction ts) (auto simp: at_phase_def)

lemma find_at_phase:
  "find (at_phase K ph) ts = Some t \<Longrightarrow> task_key t = K \<and> ph \<in> set (map rt_phase (filter (\<lambda>t. task_key t = K) ts))"
  by (drule find_SomeD) (auto simp: at_phase_def)

lemma slot_same:
  assumes "mo_tasks m' = mo_tasks m" "mo_attempts m' = mo_attempts m" "mo_restarting m' = mo_restarting m" "mo_calls m' = mo_calls m"
  shows "slot_of K m' = slot_of K m"
  using assms by (simp add: slot_of_def)

lemma slot_get_status:
  "get_auto_restart_status h c m = Inr (e, m') \<Longrightarrow> slot_of K m' = slot_of K m \<and> mo_settings m' = mo_settings m"
  by (auto simp: get_auto_restart_status_def Let_def slot_of_def split: option.splits)

lemma slot_claim:
  assumes "max_retries (mo_settings m) \<le> M" and "make_composite_key h c = Inr k"
  shows "slot_steps M b (slot_of K m) (slot_of K (claim_restart k h c m))
    \<and> mo_settings (claim_restart k h c m) = mo_settings m"
proof -
  from assms(2) have k: "h @ CHR '':'' # c = k" by (auto simp: make_composite_key_Inr)
  let ?m = "claim_restart k h c m"
  have "?m = m \<or> k \<noteq> K \<and> slot_of K ?m = slot_of K m \<or> k = K \<and> slot_step M b (slot_of K m) (slot_of K ?m)"
  proof (cases "?m = m")
    case False
    then have c: "dget (mo_restarting m) k \<noteq> Some True" "(case dget (mo_attempts m) k of None \<Rightarrow> 0 | Some n \<Rightarrow> n) < max_retries (mo_settings m)"
      by (auto simp: claim_restart_def Let_def split: if_splits)
    have m: "?m = m\<lparr>mo_restarting := dset k True (mo_restarting m),
                mo_tasks := mo_tasks m @ [\<lparr>rt_host_id = h, rt_short_id = c, rt_phase = Created\<rparr>]\<rparr>"
      using c by (simp add: claim_restart_def Let_def)
    show ?thesis
    proof (cases "k = K")
      case True
      have "slot_of K ?m = (slot_of K m)\<lparr>sl_flag := True, sl_phases := sl_phases (slot_of K m) @ [Created]\<rparr>"
        unfolding m by (simp add: slot_of_def task_key_def k True del: fold_task_key)
      moreover have "\<not> sl_flag (slot_of K m)" "sl_attempts (slot_of K m) < M"
        using c assms(1) True by (auto simp: slot_of_def)
      ultimately show ?thesis using True slot_step.claim by metis
    next
      case False
      then show ?thesis unfolding m by (simp add: slot_of_def task_key_def k del: fold_task_key)
    qed
  qed simp
  moreover have "mo_settings ?m = mo_settings m" by (simp add: claim_restart_def Let_def)
  ultimately show ?thesis by auto
qed

lemma slot_track: "slot_of K (track_event now ev k st m) = slot_of K m \<and> mo_settings (track_event now ev k st m) = mo_settings m"
  by (simp add: track_event_def slot_of_def split: option.split)

lemma slot_bus: "slot_of K (m\<lparr>mo_bus := bus\<rparr>) = slot_of K m"
  by (simp add: slot_of_def)

lemma slot_alert:
  assumes "alert_part now ev m = Inl m' \<or> alert_part now ev m = Inr m'"
  shows "slot_of K m' = slot_of K m \<and> mo_settings m' = mo_settings m"
  using assms unfolding alert_part_def Let_def
  by (cases "read_action ev"; cases "make_composite_key (de_host_id ev) (de_container_id ev)")
    (auto simp: slot_bus slot_track split: if_split_asm simp del: insert_iff)

lemma slot_die:
  assumes "max_retries (mo_settings m) \<le> M"
  shows "slot_steps M b (slot_of K m) (slot_of K (restart_on_die u ev m))"
proof (cases "is_backup (de_container_name ev) \<or> u")
  case False
  show ?thesis
  proof (cases "get_auto_restart_status (de_host_id ev) (de_container_id ev) m")
    case (Inr p)
    obtain e m' where p: "p = (e, m')" by (cases p)
    from slot_get_status Inr p have s: "slot_of K m' = slot_of K m" "mo_settings m' = mo_settings m" by blast+
    show ?thesis
    proof (cases "find (\<lambda>c. wc_short_id c = de_container_id ev \<and> wc_host_id c = de_host_id ev) (mo_last m')")
      case (Some c)
      then have c: "wc_short_id c = de_container_id ev" "wc_host_id c = de_host_id ev" by (auto dest: find_SomeD)
      show ?thesis
      proof (cases "make_composite_key (de_host_id ev) (de_container_id ev)")
        case key: (Inr k)
        have "slot_steps M b (slot_of K m') (slot_of K (claim_restart k (de_host_id ev) (de_container_id ev) m'))"
          using slot_claim [OF _ key] assms s(2) by metis
        with False Inr p s Some c key show ?thesis by (cases e) (simp_all add: restart_on_die_def)
      qed (use False Inr p s Some in \<open>simp add: restart_on_die_def\<close>)
    qed (use False Inr p s in \<open>simp add: restart_on_die_def\<close>)
  qed (use False in \<open>simp add: restart_on_die_def\<close>)
qed (simp add: restart_on_die_def)

lemma slot_docker:
  assumes "max_retries (mo_settings m) \<le> M"
  shows "slot_steps M b (slot_of K m) (slot_of K (handle_docker_event now u ev m))"
proof (cases "starts_with (de_action ev) ''exec_''")
  case False
  show ?thesis
  proof (cases "alert_part now ev m")
    case (Inl m')
    with slot_alert have "slot_of K m' = slot_of K m" by blast
    with Inl False show ?thesis by (simp add: handle_docker_event_def)
  next
    case (Inr m')
    with slot_alert have "slot_of K m' = slot_of K m" "mo_settings m' = mo_settings m" by blast+
    with Inr False slot_die [of m' M b K u ev] assms show ?thesis by (simp add: handle_docker_event_def)
  qed
qed (simp add: handle_docker_event_def)

lemma slot_reconcile_states:
  "reconcile_states now cs m = Inl m' \<or> reconcile_states now cs m = Inr m' \<Longrightarrow>
     slot_of K m' = slot_of K m \<and> mo_settings m' = mo_settings m"
proof (induction cs arbitrary: m)
  case (Cons c cs)
  have "slot_of K (reconcile_state now c k m) = slot_of K m \<and> mo_settings (reconcile_state now c k m) = mo_settings m" for k
    by (simp add: reconcile_state_def slot_of_def)
  with Cons show ?case by (fastforce split: sum.splits)
qed auto

lemma slot_reconcile_restart:
  assumes "reconcile_restart c m = Inl m' \<or> reconcile_restart c m = Inr m'" and "max_retries (mo_settings m) \<le> M"
  shows "slot_steps M b (slot_of K m) (slot_of K m') \<and> mo_settings m' = mo_settings m"
proof (cases "is_backup (wc_name c) \<or> wc_status c \<noteq> ''exited''")
  case False
  show ?thesis
  proof (cases "get_auto_restart_status (wc_host_id c) (wc_short_id c) m")
    case (Inr p)
    obtain e n where p: "p = (e, n)" by (cases p)
    from slot_get_status Inr p have s: "slot_of K n = slot_of K m" "mo_settings n = mo_settings m" by blast+
    show ?thesis
    proof (cases "make_composite_key (wc_host_id c) (wc_short_id c)")
      case key: (Inr k)
      have "slot_steps M b (slot_of K n) (slot_of K (claim_restart k (wc_host_id c) (wc_short_id c) n))
          \<and> mo_settings (claim_restart k (wc_host_id c) (wc_short_id c) n) = mo_settings n"
        using slot_claim [OF _ key] assms(2) s(2) by metis
      with False Inr p s key assms(1) show ?thesis by (cases e) (auto simp: reconcile_restart_def)
    qed (use False Inr p s assms(1) in \<open>auto simp: reconcile_restart_def split: if_splits\<close>)
  qed (use False assms(1) in \<open>auto simp: reconcile_restart_def\<close>)
qed (use assms(1) in \<open>auto simp: reconcile_restart_def\<close>)

lemma slot_reconcile_restarts:
  "reconcile_restarts cs m = Inl m' \<or> reconcile_restarts cs m = Inr m' \<Longrightarrow> max_retries (mo_settings m) \<le> M \<Longrightarrow>
     slot_steps M b (slot_of K m) (slot_of K m')"
proof (induction cs arbitrary: m)
  case (Cons c cs)
  show ?case
  proof (cases "reconcile_restart c m")
    case (Inl n)
    with slot_reconcile_restart [of c m n M b K] Cons.prems show ?thesis by simp
  next
    case (Inr n)
    with slot_reconcile_restart [of c m n M b K] Cons.prems
    have "slot_steps M b (slot_of K m) (slot_of K n)" "mo_settings n = mo_settings m" by auto
    with Cons.IH [of n] Cons.prems Inr show ?thesis by (auto intro: rtranclp_trans)
  qed
qed auto

lemma slot_reconcile:
  assumes "max_retries (mo_settings m) \<le> M"
  shows "slot_steps M b (slot_of K m) (slot_of K (reconcile now cs m))"
proof (cases "reconcile_states now cs m")
  case (Inl n)
  with slot_reconcile_states have "slot_of K n = slot_of K m" by blast
  with Inl show ?thesis by (simp add: reconcile_def)
next
  case (Inr n)
  with slot_reconcile_states have s: "slot_of K n = slot_of K m" "mo_settings n = mo_settings m" by blast+
  have "slot_steps M b (slot_of K n) (slot_of K n')"
    if "reconcile_restarts cs n = Inl n' \<or> reconcile_restarts cs n = Inr n'" for n'
    using slot_reconcile_restarts [OF that] assms s(2) by simp
  with Inr s show ?thesis by (auto simp: reconcile_def split: sum.splits)
qed

lemma slot_begin: "slot_steps M b (slot_of K m) (slot_of K (begin_restart key m))"
proof (cases "find (at_phase key Created) (mo_tasks m)")
  case (Some t)
  from find_at_phase [OF this] have t: "task_key t = key" "Created \<in> set (map rt_phase (filter (\<lambda>t. task_key t = key) (mo_tasks m)))" by auto
  show ?thesis
  proof (cases "key = K")
    case True
    with t have "Created \<in> set (sl_phases (slot_of K m))" by (simp add: slot_of_def)
    note steps = slot_step.begin_now [OF this, of M b] slot_step.begin_later [OF this, of M b]
    show ?thesis
    proof (rule r_into_rtranclp, cases "1 < sl_attempts (slot_of K m) + 1")
      case l: True
      have "slot_of K (begin_restart key m) = (slot_of K m)\<lparr>sl_attempts := sl_attempts (slot_of K m) + 1,
        sl_phases := update_first (\<lambda>p. p = Created) (\<lambda>_. Delayed (sl_attempts (slot_of K m) + 1)) (sl_phases (slot_of K m))\<rparr>"
        using l Some True by (simp add: begin_restart_def slot_of_def phases_update_first Let_def)
      with steps(2) [OF l] show "slot_step M b (slot_of K m) (slot_of K (begin_restart key m))" by simp
    next
      case l: False
      have "slot_of K (begin_restart key m) = (slot_of K m)\<lparr>sl_attempts := sl_attempts (slot_of K m) + 1, sl_calls := Suc (sl_calls (slot_of K m)),
        sl_phases := update_first (\<lambda>p. p = Created) (\<lambda>_. Calling (sl_attempts (slot_of K m) + 1)) (sl_phases (slot_of K m))\<rparr>"
        using l Some True t(1)
        by (simp add: begin_restart_def call_container_def slot_of_def phases_update_first Let_def)
      with steps(1) [OF l] show "slot_step M b (slot_of K m) (slot_of K (begin_restart key m))" by simp
    qed
  next
    case False
    with Some t(1) show ?thesis
      by (simp add: begin_restart_def call_container_def slot_of_def phases_update_first Let_def)
  qed
qed (simp add: begin_restart_def)

lemma slot_wake: "slot_steps M b (slot_of K m) (slot_of K (wake_restart key a m))"
proof (cases "find (at_phase key (Delayed a)) (mo_tasks m)")
  case (Some t)
  from find_at_phase [OF this] have t: "task_key t = key" "Delayed a \<in> set (map rt_phase (filter (\<lambda>t. task_key t = key) (mo_tasks m)))" by auto
  show ?thesis
  proof (cases "key = K")
    case True
    with t have "Delayed a \<in> set (sl_phases (slot_of K m))" by (simp add: slot_of_def)
    from slot_step.wake [OF this, of M b] Some True t(1) show ?thesis
      by (auto simp: wake_restart_def call_container_def slot_of_def phases_update_first)
  next
    case False
    with Some t(1) show ?thesis
      by (simp add: wake_restart_def call_container_def slot_of_def phases_update_first)
  qed
qed (simp add: wake_restart_def)

lemma slot_end:
  assumes "b \<or> \<not> (key = K \<and> r = Running)"
  shows "slot_steps M b (slot_of K m) (slot_of K (end_restart key a r m))"
proof (cases "find (at_phase key (Calling a)) (mo_tasks m)")
  case (Some t)
  from find_at_phase [OF this] have t: "task_key t = key" "Calling a \<in> set (map rt_phase (filter (\<lambda>t. task_key t = key) (mo_tasks m)))" by auto
  show ?thesis
  proof (cases "key = K")
    case True
    with t have c: "Calling a \<in> set (sl_phases (slot_of K m))" by (simp add: slot_of_def)
    show ?thesis
    proof (cases r)
      case Running
      with assms True have b by simp
      from slot_step.hit [OF this c, of M] Some True Running show ?thesis
        by (simp add: end_restart_def slot_of_def phases_remove_first Let_def)
    qed (use slot_step.miss [OF c, of M b] Some True in \<open>simp_all add: end_restart_def slot_of_def phases_remove_first Let_def\<close>)
  next
    case False
    with Some show ?thesis
      by (cases r) (simp_all add: end_restart_def slot_of_def phases_remove_first Let_def)
  qed
qed (simp add: end_restart_def)

lemma slot_drop: "\<not> P K \<Longrightarrow> slot_of K (drop_auto_restart P m) = slot_of K m"
  by (simp add: drop_auto_restart_def slot_of_def Let_def)

lemma slot_monitor_does:
  assumes "max_retries (mo_settings m) \<le> M" and "undisturbed K M e" and "b \<or> \<not> starts_fine K e"
  shows "slot_steps M b (slot_of K m) (slot_of K (monitor_does m e))"
proof (cases e)
  case (Toggle now h c n on)
  have "slot_of K (toggle_auto_restart now h c n on m) = slot_of K m"
    using assms(2) Toggle by (auto simp: toggle_auto_restart_def slot_of_def Let_def split: sum.splits)
  with Toggle show ?thesis by simp
next
  case (Cleanup ks)
  with assms(2) slot_drop [of "\<lambda>k. k \<notin> set ks" K] show ?thesis
    by (simp add: cleanup_stale_container_state_def Let_def) (simp add: slot_of_def)
next
  case (RemoveHost h)
  with assms(2) slot_drop [of "\<lambda>k. starts_with k (h @ '':'')" K] show ?thesis
    by (simp add: remove_host_state_def Let_def) (simp add: slot_of_def)
qed (use assms slot_docker slot_reconcile slot_begin slot_wake slot_end in \<open>auto simp: end_sweep_def slot_of_def\<close>)

section \<open>Bounds\<close>

definition slot_ok :: "int \<Rightarrow> slot \<Rightarrow> bool" where
  "slot_ok M s = (case sl_phases s of
      [] \<Rightarrow> 0 \<le> sl_attempts s \<and> sl_attempts s \<le> M
    | [p] \<Rightarrow> sl_flag s \<and> 0 \<le> sl_attempts s \<and> (if p = Created then sl_attempts s < M else sl_attempts s \<le> M)
    | _ \<Rightarrow> False)"

definition slot_budget :: "nat \<Rightarrow> slot \<Rightarrow> bool" where
  "slot_budget n s = (int (sl_calls s) + (if \<exists>a. sl_phases s = [Delayed a] then 1 else 0) \<le> int n + sl_attempts s)"

text \<open>A step starts from no restart in flight or from one.\<close>

lemma slot_ok_cases:
  assumes "slot_ok M s"
  obtains (idle) "sl_phases s = []" "0 \<le> sl_attempts s" "sl_attempts s \<le> M"
  | (busy) p where "sl_phases s = [p]" "sl_flag s" "0 \<le> sl_attempts s" "sl_attempts s \<le> M" "p = Created \<longrightarrow> sl_attempts s < M"
  using assms by (auto simp: slot_ok_def split: list.splits if_splits)

lemma slot_ok_step:
  assumes "slot_step M b s s'" and "slot_ok M s"
  shows "slot_ok M s'"
  using assms(2)
proof (cases rule: slot_ok_cases)
  case idle
  with assms(1) show ?thesis by (cases rule: slot_step.cases) (simp_all add: slot_ok_def)
next
  case (busy p)
  with assms(1) show ?thesis by (cases rule: slot_step.cases) (auto simp: slot_ok_def)
qed

lemma slot_budget_step:
  assumes "slot_step M False s s'" and "slot_ok M s" and "slot_budget n s"
  shows "slot_budget n s'"
  using assms(2)
proof (cases rule: slot_ok_cases)
  case idle
  with assms(1,3) show ?thesis by (cases rule: slot_step.cases) (simp_all add: slot_budget_def)
next
  case (busy p)
  with assms(1,3) show ?thesis by (cases rule: slot_step.cases) (auto simp: slot_budget_def)
qed

lemma slot_ok_steps: "slot_steps M b s s' \<Longrightarrow> slot_ok M s \<Longrightarrow> slot_ok M s'"
  by (induction rule: rtranclp_induct) (auto intro: slot_ok_step)

lemma slot_budget_steps:
  assumes "slot_steps M False s s'" "slot_ok M s" "slot_budget n s"
  shows "slot_budget n s'"
proof -
  from assms have "slot_ok M s' \<and> slot_budget n s'"
    by (induction rule: rtranclp_induct) (auto intro: slot_ok_step slot_budget_step)
  then show ?thesis ..
qed

text \<open>The settings keep their bound.\<close>

lemma settings_die: "mo_settings (restart_on_die u ev m) = mo_settings m"
  by (auto simp: restart_on_die_def claim_restart_def Let_def dest!: slot_get_status split: sum.splits option.splits)

lemma settings_docker: "mo_settings (handle_docker_event now u ev m) = mo_settings m"
proof -
  have "alert_part now ev m = Inl m' \<Longrightarrow> mo_settings m' = mo_settings m" "alert_part now ev m = Inr m' \<Longrightarrow> mo_settings m' = mo_settings m" for m'
    using slot_alert [of now ev m m'] by simp_all
  then show ?thesis by (auto simp: handle_docker_event_def settings_die split: sum.splits)
qed

lemma settings_reconcile_restarts:
  "reconcile_restarts cs m = Inl m' \<or> reconcile_restarts cs m = Inr m' \<Longrightarrow> mo_settings m' = mo_settings m"
proof (induction cs arbitrary: m)
  case (Cons c cs)
  show ?case
  proof (cases "reconcile_restart c m")
    case (Inl n)
    with slot_reconcile_restart [of c m n] Cons.prems show ?thesis by auto
  next
    case (Inr n)
    with slot_reconcile_restart [of c m n] have "mo_settings n = mo_settings m" by auto
    with Cons.IH [of n] Cons.prems Inr show ?thesis by simp
  qed
qed auto

lemma settings_reconcile: "mo_settings (reconcile now cs m) = mo_settings m"
proof (cases "reconcile_states now cs m")
  case (Inl n)
  with slot_reconcile_states have "mo_settings n = mo_settings m" by blast
  with Inl show ?thesis by (simp add: reconcile_def)
next
  case (Inr n)
  with slot_reconcile_states have "mo_settings n = mo_settings m" by blast
  with Inr settings_reconcile_restarts [of cs n] show ?thesis by (auto simp: reconcile_def split: sum.splits)
qed

lemma settings_bound:
  assumes "max_retries (mo_settings m) \<le> M" and "undisturbed K M e"
  shows "max_retries (mo_settings (monitor_does m e)) \<le> M"
  using assms by (cases e)
    (auto simp: settings_docker settings_reconcile end_sweep_def begin_restart_def wake_restart_def end_restart_def
      call_container_def toggle_auto_restart_def cleanup_stale_container_state_def remove_host_state_def
      drop_auto_restart_def Let_def split: option.splits sum.splits start_answer.splits)

definition restarts_ok :: "string \<Rightarrow> int \<Rightarrow> monitor \<Rightarrow> bool" where
  "restarts_ok K M m = (max_retries (mo_settings m) \<le> M \<and> slot_ok M (slot_of K m))"

interpretation restarts: guarded_machine monitor_does "undisturbed K M" "restarts_ok K M" for K M
proof unfold_locales
  fix e m assume "undisturbed K M e" "restarts_ok K M m"
  then show "restarts_ok K M (monitor_does m e)"
    using slot_monitor_does [of m M K e True] slot_ok_steps settings_bound by (fastforce simp: restarts_ok_def)
qed

interpretation failing: guarded_machine monitor_does "\<lambda>e. undisturbed K M e \<and> \<not> starts_fine K e"
  "\<lambda>m. restarts_ok K M m \<and> slot_budget n (slot_of K m)" for K M n
proof unfold_locales
  fix e m assume e: "undisturbed K M e \<and> \<not> starts_fine K e" and m: "restarts_ok K M m \<and> slot_budget n (slot_of K m)"
  with slot_monitor_does [of m M K e False] have "slot_steps M False (slot_of K m) (slot_of K (monitor_does m e))"
    by (simp add: restarts_ok_def)
  with m have "slot_budget n (slot_of K (monitor_does m e))" using slot_budget_steps by (auto simp: restarts_ok_def)
  with e m restarts.step_ok show "restarts_ok K M (monitor_does m e) \<and> slot_budget n (slot_of K (monitor_does m e))" by blast
qed

section \<open>Guarantees\<close>

definition restarts_in_flight :: "string \<Rightarrow> monitor \<Rightarrow> nat" where
  "restarts_in_flight K m = length (filter (\<lambda>t. task_key t = K) (mo_tasks m))"

definition calls_of :: "string \<Rightarrow> monitor \<Rightarrow> nat" where
  "calls_of K m = length (filter (\<lambda>(h, s). h @ '':'' @ s = K) (mo_calls m))"

definition attempts_of :: "string \<Rightarrow> monitor \<Rightarrow> int" where
  "attempts_of K m = (case dget (mo_attempts m) K of None \<Rightarrow> 0 | Some n \<Rightarrow> n)"

lemma restarts_okD:
  assumes "restarts_ok K M m"
  shows "restarts_in_flight K m \<le> 1" "0 \<le> attempts_of K m" "attempts_of K m \<le> M"
    "restarts_in_flight K m = 1 \<Longrightarrow> dget (mo_restarting m) K = Some True"
proof -
  from assms have "slot_ok M (slot_of K m)" by (simp add: restarts_ok_def)
  moreover have "length (sl_phases (slot_of K m)) = restarts_in_flight K m" "sl_attempts (slot_of K m) = attempts_of K m"
    "sl_flag (slot_of K m) = (dget (mo_restarting m) K = Some True)"
    by (simp_all add: slot_of_def restarts_in_flight_def attempts_of_def)
  ultimately show "restarts_in_flight K m \<le> 1" "0 \<le> attempts_of K m" "attempts_of K m \<le> M"
    "restarts_in_flight K m = 1 \<Longrightarrow> dget (mo_restarting m) K = Some True"
    by (auto elim!: slot_ok_cases)
qed

lemma init_restarts_ok:
  "0 \<le> max_retries s \<Longrightarrow> max_retries s \<le> M \<Longrightarrow> restarts_ok K M (init_monitor s rows) \<and> slot_budget 0 (slot_of K (init_monitor s rows))"
  by (simp add: restarts_ok_def slot_ok_def slot_budget_def slot_of_def init_monitor_def)

text \<open>C7: As long as nobody disables the automatic restart of a container, drops its state or raises the limit above
  \<open>M\<close>, then over every interleaving of Docker events, polls and restart tasks at most one restart of the container is
  in flight, its flag is set meanwhile, and its counter stays between 0 and \<open>M\<close>.
\<close>

theorem one_restart_per_container:
  assumes "0 \<le> max_retries s" and "max_retries s \<le> M" and "list_all (undisturbed K M) es"
  shows "restarts_in_flight K (run monitor_does (init_monitor s rows) es) \<le> 1
    \<and> (restarts_in_flight K (run monitor_does (init_monitor s rows) es) \<noteq> 0 \<longrightarrow>
          dget (mo_restarting (run monitor_does (init_monitor s rows) es)) K = Some True)
    \<and> 0 \<le> attempts_of K (run monitor_does (init_monitor s rows) es)
    \<and> attempts_of K (run monitor_does (init_monitor s rows) es) \<le> M"
proof -
  have "restarts_ok K M (run monitor_does (init_monitor s rows) es)"
    using restarts.run_ok [OF assms(3)] init_restarts_ok [OF assms(1,2)] by blast
  from restarts_okD [OF this] show ?thesis by (auto simp: le_Suc_eq)
qed

definition dying :: "string \<Rightarrow> docker_event" where
  "dying code = \<lparr>de_action = ''die'', de_container_id = ''0123456789ab'', de_container_name = ''web'', de_host_id = ''h1'',
     de_attributes = Some [(''exitCode'', code)]\<rparr>"

definition demo_key :: string where
  "demo_key = ''h1:0123456789ab''"

definition demo_seen :: "string \<Rightarrow> watched" where
  "demo_seen st = \<lparr>wc_host_id = ''h1'', wc_short_id = ''0123456789ab'', wc_name = ''web'', wc_status = st\<rparr>"

definition demo_restarts :: restart_settings where
  "demo_restarts = \<lparr>max_retries = 3, default_auto_restart = True\<rparr>"

definition failing_round :: "int \<Rightarrow> monitor_step list" where
  "failing_round a = [Reconcile (secs 10) [demo_seen ''exited''], BeginRestart demo_key, WakeRestart demo_key a, EndRestart demo_key a Raised]"

lemma one_restart_per_container_witness:
  "restarts_in_flight demo_key (run monitor_does (init_monitor demo_restarts [])
     [EndSweep [demo_seen ''running''], Docker 0 False (dying ''1''), Docker 1 False (dying ''1'')]) \<le> 1"
  by (rule one_restart_per_container [of demo_restarts 3 demo_key, THEN conjunct1]) (simp_all add: demo_restarts_def)



text \<open>Proved as well: Once a container was given up, switching its automatic restart on again has no effect: the counter is only
  reset by switching it off, so no later event or poll starts the container.
\<close>

theorem enabling_after_giving_up_is_idle:
  assumes "restarts_ok K M m" and "restarts_in_flight K m = 0" and "attempts_of K m = M" and "list_all (undisturbed K M) es"
  shows "calls_of K (run monitor_does (toggle_auto_restart now h c n True m) es) = calls_of K m"
proof -
  have idle: "s' = s" if "slot_steps M True s s'" "sl_phases s = []" "sl_attempts s = M" for s s'
    using that by (induction rule: rtranclp_induct) (auto elim: slot_step.cases)
  have steps: "slot_steps M True (slot_of K m) (slot_of K (run monitor_does m es))" if "restarts_ok K M m" "list_all (undisturbed K M) es" for m es
    using that
  proof (induction es arbitrary: m)
    case (Cons e es)
    then have "slot_steps M True (slot_of K m) (slot_of K (monitor_does m e))" "restarts_ok K M (monitor_does m e)"
      using slot_monitor_does restarts.step_ok by (auto simp: restarts_ok_def)
    with Cons show ?case by (auto intro: rtranclp_trans)
  qed simp
  have "slot_of K (run monitor_does m (Toggle now h c n True # es)) = slot_of K m"
    by (rule idle [OF steps [OF assms(1)]]) (use assms in \<open>simp_all add: slot_of_def restarts_in_flight_def attempts_of_def\<close>)
  then show ?thesis by (simp add: slot_of_def calls_of_def)
qed

lemma enabling_after_giving_up_is_idle_witness:
  "calls_of demo_key (run monitor_does (toggle_auto_restart 0 ''h1'' ''0123456789ab'' ''web'' True
       (run monitor_does (init_monitor demo_restarts []) (failing_round 1 @ failing_round 2 @ failing_round 3)))
       [Docker (secs 99) False (dying ''1'')])
     = calls_of demo_key (run monitor_does (init_monitor demo_restarts []) (failing_round 1 @ failing_round 2 @ failing_round 3))"
proof (rule enabling_after_giving_up_is_idle [of demo_key 3])
  show "restarts_ok demo_key 3 (run monitor_does (init_monitor demo_restarts []) (failing_round 1 @ failing_round 2 @ failing_round 3))"
    by (rule restarts.run_ok) (simp_all add: failing_round_def demo_restarts_def init_restarts_ok)
qed (code_simp, code_simp, simp)

section \<open>Tracked states\<close>

fun leaves_event :: "time \<Rightarrow> string \<Rightarrow> monitor_step \<Rightarrow> bool" where
  "leaves_event t K (Docker now u ev) = (make_composite_key (de_host_id ev) (de_container_id ev) \<noteq> Inr K)"
| "leaves_event t K (Reconcile now cs) = (now - t < STATE_UPDATE_STALE_THRESHOLD)"
| "leaves_event t K (Cleanup ks) = (K \<in> set ks)"
| "leaves_event t K (RemoveHost h) = (\<not> starts_with K (h @ '':''))"
| "leaves_event t K _ = True"

definition tracked :: "string \<Rightarrow> monitor \<Rightarrow> (string \<times> time \<times> state_source) option" where
  "tracked K m = (case (dget (mo_states m) K, dget (mo_stamps m) K, dget (mo_sources m) K) of
      (Some s, Some t, Some src) \<Rightarrow> Some (s, t, src) | _ \<Rightarrow> None)"

lemma tracked_same:
  "mo_states m' = mo_states m \<Longrightarrow> mo_stamps m' = mo_stamps m \<Longrightarrow> mo_sources m' = mo_sources m \<Longrightarrow> tracked K m' = tracked K m"
  by (simp add: tracked_def)

lemma tracked_status: "get_auto_restart_status h c m = Inr (e, m') \<Longrightarrow> tracked K m' = tracked K m"
  by (auto simp: get_auto_restart_status_def Let_def intro: tracked_same split: option.splits)

lemma tracked_claim: "tracked K (claim_restart k h c m) = tracked K m"
  by (rule tracked_same) (simp_all add: claim_restart_def Let_def)

lemma tracked_die: "tracked K (restart_on_die u ev m) = tracked K m"
  by (auto simp: restart_on_die_def tracked_claim dest: tracked_status split: sum.splits option.splits)

lemma tracked_track: "k \<noteq> K \<Longrightarrow> tracked K (track_event now ev k st m) = tracked K m"
  by (simp add: track_event_def tracked_def split: option.split)

lemma tracked_bus: "tracked K (m\<lparr>mo_bus := b\<rparr>) = tracked K m"
  by (rule tracked_same) simp_all

lemma tracked_alert:
  assumes "alert_part now ev m = Inl m' \<or> alert_part now ev m = Inr m'"
    and "make_composite_key (de_host_id ev) (de_container_id ev) \<noteq> Inr K"
  shows "tracked K m' = tracked K m"
  using assms unfolding alert_part_def Let_def
  by (cases "read_action ev"; cases "make_composite_key (de_host_id ev) (de_container_id ev)")
    (auto simp: tracked_bus tracked_track split: if_split_asm simp del: insert_iff)

lemma tracked_docker:
  assumes "make_composite_key (de_host_id ev) (de_container_id ev) \<noteq> Inr K"
  shows "tracked K (handle_docker_event now u ev m) = tracked K m"
  using tracked_alert [OF _ assms, of now m] by (auto simp: handle_docker_event_def tracked_die split: sum.splits)

lemma tracked_reconcile_restarts:
  "reconcile_restarts cs m = Inl m' \<or> reconcile_restarts cs m = Inr m' \<Longrightarrow> tracked K m' = tracked K m"
proof (induction cs arbitrary: m)
  case (Cons c cs)
  have one: "tracked K n = tracked K m" if "reconcile_restart c m = Inl n \<or> reconcile_restart c m = Inr n" for n
    using that by (auto simp: reconcile_restart_def tracked_claim dest!: tracked_status [where K = K] split: sum.splits if_splits)
  with Cons show ?case by (fastforce split: sum.splits)
qed auto

lemma tracked_reconcile_states:
  "reconcile_states now cs m = Inl m' \<or> reconcile_states now cs m = Inr m' \<Longrightarrow> tracked K m = Some (s, t, FromEvent) \<Longrightarrow>
     now - t < STATE_UPDATE_STALE_THRESHOLD \<Longrightarrow> tracked K m' = Some (s, t, FromEvent)"
proof (induction cs arbitrary: m)
  case (Cons c cs)
  have "tracked K (reconcile_state now c k m) = Some (s, t, FromEvent)" for k
    using Cons.prems(2,3) by (auto simp: reconcile_state_def tracked_def split: option.splits)
  with Cons show ?case by (fastforce split: sum.splits)
qed auto

lemma tracked_reconcile:
  assumes "tracked K m = Some (s, t, FromEvent)" and "now - t < STATE_UPDATE_STALE_THRESHOLD"
  shows "tracked K (reconcile now cs m) = Some (s, t, FromEvent)"
proof (cases "reconcile_states now cs m")
  case (Inl n)
  with tracked_reconcile_states [OF _ assms, of cs n] show ?thesis by (simp add: reconcile_def)
next
  case (Inr n)
  with tracked_reconcile_states [OF _ assms, of cs n] have "tracked K n = Some (s, t, FromEvent)" by simp
  moreover have "tracked K n' = tracked K n" if "reconcile_restarts cs n = Inl n' \<or> reconcile_restarts cs n = Inr n'" for n'
    using that by (rule tracked_reconcile_restarts)
  ultimately show ?thesis using Inr by (simp add: reconcile_def split: sum.splits)
qed

lemma tracked_task: "tracked K (begin_restart k m) = tracked K m" "tracked K (wake_restart k a m) = tracked K m"
    "tracked K (end_restart k a r m) = tracked K m" "tracked K (toggle_auto_restart now h c n e m) = tracked K m"
  by (auto simp: begin_restart_def wake_restart_def end_restart_def call_container_def toggle_auto_restart_def Let_def
      intro!: tracked_same split: option.splits sum.splits start_answer.splits)

lemma tracked_drop: "tracked K (drop_auto_restart P m) = tracked K m"
  by (rule tracked_same) (simp_all add: drop_auto_restart_def Let_def)

interpretation tracks: guarded_machine monitor_does "leaves_event t K" "\<lambda>m. tracked K m = Some (s, t, FromEvent)" for K s t
proof unfold_locales
  fix e m assume e: "leaves_event t K e" and m: "tracked K m = Some (s, t, FromEvent)"
  show "tracked K (monitor_does m e) = Some (s, t, FromEvent)"
  proof (cases e)
    case (Cleanup ks)
    with e m show ?thesis by (simp add: cleanup_stale_container_state_def Let_def tracked_drop) (simp add: tracked_def)
  next
    case (RemoveHost h)
    with e m show ?thesis by (simp add: remove_host_state_def Let_def tracked_drop) (simp add: tracked_def)
  next
    case (EndSweep cs)
    with m show ?thesis by (simp add: end_sweep_def tracked_def)
  next
    case (SaveSettings x)
    with m show ?thesis by (simp add: tracked_def)
  qed (use e m in \<open>simp_all add: tracked_docker tracked_reconcile tracked_task\<close>)
qed

text \<open>Proved as well: The state that a Docker event reports is kept against every poll that ends within two seconds of it, whatever
  that poll saw, until another event of the container or the removal of its state.
\<close>

theorem recent_event_beats_poll:
  assumes "tracked K m = Some (s, t, FromEvent)" and "list_all (leaves_event t K) es"
  shows "dget (mo_states (run monitor_does m es)) K = Some s"
  using tracks.run_ok [OF assms(2,1)] by (auto simp: tracked_def split: option.splits)

lemma recent_event_beats_poll_witness:
  "dget (mo_states (run monitor_does (monitor_does (init_monitor demo_restarts []) (Docker 5 True (dying ''1'')))
     [Reconcile (secs 1) [demo_seen ''running'']])) demo_key = Some ''exited''"
  by (rule recent_event_beats_poll [of demo_key _ _ 5]) (code_simp, code_simp)

section \<open>Runs against the purpose\<close>

text \<open>A start that succeeds resets the counter, so a container that dies after each start is started without end, and
  without delay: the limit only counts starts that fail.
\<close>

definition crash_round :: "time \<Rightarrow> monitor_step list" where
  "crash_round now = [Docker now False (dying ''1''), BeginRestart demo_key, EndRestart demo_key 1 Running]"

definition crash_ready :: "monitor \<Rightarrow> bool" where
  "crash_ready m = (dget (mo_status m) demo_key = Some True \<and> attempts_of demo_key m = 0
     \<and> dget (mo_restarting m) demo_key \<noteq> Some True \<and> mo_tasks m = [] \<and> mo_last m = [demo_seen ''running'']
     \<and> 0 < max_retries (mo_settings m) \<and> \<not> mo_alerts_on m)"

lemma demo_make: "make_composite_key ''h1'' ''0123456789ab'' = Inr demo_key"
  by code_simp

lemma crash_round_ready:
  assumes "crash_ready m"
  shows "crash_ready (run monitor_does m (crash_round now)) \<and> calls_of demo_key (run monitor_does m (crash_round now)) = Suc (calls_of demo_key m)"
proof -
  have c: "starts_with ''die'' ''exec_'' = False" "is_backup ''web'' = False" by code_simp+
  let ?t = "\<lparr>rt_host_id = ''h1'', rt_short_id = ''0123456789ab'', rt_phase = Created\<rparr>"
  have k: "task_key (?t\<lparr>rt_phase := p\<rparr>) = demo_key" for p by (simp add: task_key_def demo_key_def del: fold_task_key)
  let ?m = "m\<lparr>mo_restarting := dset demo_key True (mo_restarting m), mo_tasks := [?t]\<rparr>"
  have d: "monitor_does m (Docker now False (dying ''1'')) = ?m"
    using assms c by (simp add: handle_docker_event_def alert_part_def dying_def restart_on_die_def get_auto_restart_status_def
        demo_make crash_ready_def demo_seen_def claim_restart_def attempts_of_def)
  let ?n = "?m\<lparr>mo_attempts := dset demo_key 1 (mo_attempts m), mo_tasks := [?t\<lparr>rt_phase := Calling 1\<rparr>], mo_calls := (''h1'', ''0123456789ab'') # mo_calls m\<rparr>"
  have b: "monitor_does ?m (BeginRestart demo_key) = ?n"
    using assms k [of Created] by (simp add: begin_restart_def call_container_def at_phase_def crash_ready_def attempts_of_def Let_def)
  have e: "monitor_does ?n (EndRestart demo_key 1 Running) =
      ?n\<lparr>mo_attempts := dset demo_key 0 (mo_attempts ?n), mo_restarting := dset demo_key False (mo_restarting ?n), mo_tasks := []\<rparr>"
    using k [of "Calling 1"] by (simp add: end_restart_def at_phase_def Let_def)
  show ?thesis
    unfolding crash_round_def run_simps d b e using assms
    by (simp add: crash_ready_def attempts_of_def calls_of_def) (simp add: demo_key_def)
qed

lemma crash_loop_is_unbounded:
  assumes "crash_ready m"
  shows "calls_of demo_key (run monitor_does m (concat (replicate n (crash_round now)))) = n + calls_of demo_key m"
proof -
  have "crash_ready (run monitor_does m (concat (replicate n (crash_round now))))
      \<and> calls_of demo_key (run monitor_does m (concat (replicate n (crash_round now)))) = n + calls_of demo_key m"
    using assms by (induction n arbitrary: m) (use crash_round_ready in \<open>auto simp: run_append\<close>)
  then show ?thesis ..
qed

text \<open>Disabling clears the flag but does not cancel a restart that waits for its retry: the container is started although
  automatic restarts are off, and when they are switched on again meanwhile two restarts run at once.
\<close>

definition waiting_retry :: monitor where
  "waiting_retry = run monitor_does (init_monitor demo_restarts [])
     (failing_round 1 @ [Reconcile (secs 20) [demo_seen ''exited''], BeginRestart demo_key])"

lemma disabling_does_not_stop_a_waiting_restart:
  "let m = run monitor_does waiting_retry [Toggle 0 ''h1'' ''0123456789ab'' ''web'' False, WakeRestart demo_key 2]
   in dget (mo_status m) demo_key = Some False \<and> calls_of demo_key m = Suc (calls_of demo_key waiting_retry)"
  by code_simp

lemma off_and_on_restarts_twice:
  "restarts_in_flight demo_key (run monitor_does waiting_retry [Toggle 0 ''h1'' ''0123456789ab'' ''web'' False,
     Toggle 1 ''h1'' ''0123456789ab'' ''web'' True, Reconcile (secs 30) [demo_seen ''exited'']]) = 2"
  by code_simp

text \<open>A saved default does not reach the state manager, which keeps the settings of the start-up.\<close>

lemma saved_default_is_ignored:
  "mo_tasks (run monitor_does (init_monitor (demo_restarts\<lparr>default_auto_restart := False\<rparr>) [])
     [SaveSettings demo_restarts, EndSweep [demo_seen ''running''], Docker 0 False (dying ''1'')]) = []"
  by code_simp

text \<open>A stop that the user asked for (exit code 0) is followed by a restart like any other death.\<close>

lemma requested_stop_is_undone:
  "map rt_phase (mo_tasks (run monitor_does (init_monitor demo_restarts [])
     [EndSweep [demo_seen ''running''], Docker 0 False (dying ''0'')])) = [Created]"
  by code_simp

text \<open>Docker names the health events \<open>health_status: healthy\<close>; the handler compares with \<open>health_status\<close>.\<close>

lemma docker_health_events_are_ignored:
  assumes "de_action ev = ''health_status: '' @ s"
  shows "handle_docker_event now u ev m = m"
proof -
  have "de_action ev \<noteq> ''die''" "\<not> starts_with (de_action ev) ''exec_''"
    "de_action ev \<notin> {''die'', ''oom'', ''health_status'', ''start'', ''restart'', ''destroy''}"
    using assms by (simp_all add: starts_with_def)
  then show ?thesis by (simp add: handle_docker_event_def alert_part_def)
qed

text \<open>Removing a host keeps the time stamps and sources of its containers, which no clean-up visits any more.\<close>

lemma removed_host_leaves_stamps:
  "let m = run monitor_does (init_monitor demo_restarts []) [Reconcile 0 [demo_seen ''running''], RemoveHost ''h1'', Cleanup []]
   in mo_states m = [] \<and> map fst (mo_stamps m) = [demo_key] \<and> map fst (mo_sources m) = [demo_key]"
  by code_simp

end
