(* ===== verification/StickySettings.thy ===== *)
theory StickySettings
  imports AutoRestart PyValue
begin

text \<open>
  Settings that follow a rebuilt container (\<open>reattach_*\<close> and \<open>get_tags_for_host\<close> of \<open>backend/database.py\<close>) and
  the sweep of the discovery that calls them (\<open>backend/docker_monitor/container_discovery.py\<close>): when a container is
  seen for the first time, the rows of its predecessor - found by compose labels or by name - are copied to its id.
  The columns that are only copied are one dictionary.
\<close>

section \<open>Tables\<close>

record desired_row =
  dr_host_id :: string
  dr_container_id :: string
  dr_container_name :: string
  dr_desired_state :: string
  dr_web_ui_url :: "string option"
  dr_updated_at :: time

text \<open>A row of \<open>container_http_health_checks\<close> or \<open>container_updates\<close>; its id is a composite key.\<close>

record kept_row =
  kr_container_id :: string
  kr_host_id :: string
  kr_container_name :: "string option"
  kr_columns :: "(string, pyval) pydict"
  kr_updated_at :: time

record deploy_row =
  dm_container_id :: string
  dm_host_id :: string
  dm_deployment_id :: "string option"
  dm_is_managed :: bool
  dm_service_name :: "string option"

record tag_assignment =
  ta_tag_id :: string
  ta_subject_type :: string
  ta_subject_id :: string
  ta_compose_project :: "string option"
  ta_compose_service :: "string option"
  ta_host_id :: "string option"
  ta_container_name :: "string option"
  ta_order_index :: int

record sticky =
  st_auto :: "auto_restart_row list"
  st_desired :: "desired_row list"
  st_health :: "kept_row list"
  st_updates :: "kept_row list"
  st_deploy :: "deploy_row list"
  st_tags :: "tag_assignment list"
  st_tag_names :: "(string \<times> string) list" \<comment> \<open>the table of tags: id and name\<close>
  st_deployments :: "string list" \<comment> \<open>the ids of the deployments\<close>

text \<open>What the discovery knows of a container: its new id, name, image and compose labels.\<close>

record identity =
  id_host :: string
  id_container :: string
  id_name :: string
  id_image :: string
  id_project :: "string option"
  id_service :: "string option"

definition compose_of :: "identity \<Rightarrow> (string \<times> string) option" where
  "compose_of i = (case (id_project i, id_service i) of
      (Some p, Some s) \<Rightarrow> if p \<noteq> [] \<and> s \<noteq> [] then Some (p, s) else None | _ \<Rightarrow> None)"

section \<open>SQL\<close>

text \<open>\<open>LIKE\<close> of SQLite: a percent sign is any text, an underscore any character, ASCII letters match either case.\<close>

definition ascii_fold :: "char \<Rightarrow> char" where
  "ascii_fold c = (if is_upper_ascii c then char_of (ccode c + 32) else c)"

fun sql_like :: "string \<Rightarrow> string \<Rightarrow> bool" where
  "sql_like [] s = (s = [])"
| "sql_like (p # ps) [] = (p = CHR ''%'' \<and> sql_like ps [])"
| "sql_like (p # ps) (c # cs) =
     (if p = CHR ''%'' then sql_like ps (c # cs) \<or> sql_like (p # ps) cs
      else (p = CHR ''_'' \<or> ascii_fold p = ascii_fold c) \<and> sql_like ps cs)"

definition compose_pattern :: "string \<Rightarrow> string \<Rightarrow> string" where
  "compose_pattern project service = project @ ''_'' @ service @ ''%''"

text \<open>\<open>ORDER BY updated_at DESC\<close>, first row; the first of equal times.\<close>

fun most_recent :: "('a \<Rightarrow> time) \<Rightarrow> 'a list \<Rightarrow> 'a option" where
  "most_recent t [] = None"
| "most_recent t (x # xs) = (case most_recent t xs of
      None \<Rightarrow> Some x | Some y \<Rightarrow> if t y > t x then Some y else Some x)"

definition or_else :: "'a option \<Rightarrow> 'a option \<Rightarrow> 'a option" where
  "or_else a b = (case a of None \<Rightarrow> b | Some x \<Rightarrow> Some x)"

definition short_part :: "string \<Rightarrow> string" where
  "short_part key = (case split_first (CHR '':'') key of None \<Rightarrow> key | Some (_, c) \<Rightarrow> c)"

definition old_ids :: "identity \<Rightarrow> auto_restart_row list \<Rightarrow> string list" where
  "old_ids i autos = map ar_container_id (filter (\<lambda>r. ar_host_id r = id_host i \<and> ar_container_name r = id_name i) autos)"

section \<open>Automatic restarts and desired states\<close>

definition auto_source :: "identity \<Rightarrow> auto_restart_row list \<Rightarrow> auto_restart_row option" where
  "auto_source i rows = or_else
     (case compose_of i of None \<Rightarrow> None
      | Some (p, s) \<Rightarrow> most_recent ar_updated_at
          (filter (\<lambda>r. ar_host_id r = id_host i \<and> sql_like (compose_pattern p s) (ar_container_name r)) rows))
     (most_recent ar_updated_at (filter (\<lambda>r. ar_host_id r = id_host i \<and> ar_container_name r = id_name i) rows))"

definition reattach_auto_restart :: "time \<Rightarrow> identity \<Rightarrow> auto_restart_row list \<Rightarrow> auto_restart_row list" where
  "reattach_auto_restart now i rows = (case auto_source i rows of
      None \<Rightarrow> rows
    | Some prev \<Rightarrow>
        if get_auto_restart_config (id_host i) (id_container i) rows \<noteq> None then rows
        else rows @ [\<lparr>ar_host_id = id_host i, ar_container_id = id_container i, ar_container_name = id_name i,
               ar_enabled = ar_enabled prev, ar_max_retries = ar_max_retries prev, ar_retry_delay = ar_retry_delay prev,
               ar_restart_count = 0, ar_updated_at = now\<rparr>])"

definition desired_source :: "identity \<Rightarrow> desired_row list \<Rightarrow> desired_row option" where
  "desired_source i rows = or_else
     (case compose_of i of None \<Rightarrow> None
      | Some (p, s) \<Rightarrow> most_recent dr_updated_at
          (filter (\<lambda>r. dr_host_id r = id_host i \<and> sql_like (compose_pattern p s) (dr_container_name r)) rows))
     (most_recent dr_updated_at (filter (\<lambda>r. dr_host_id r = id_host i \<and> dr_container_name r = id_name i) rows))"

definition reattach_desired_state :: "time \<Rightarrow> identity \<Rightarrow> desired_row list \<Rightarrow> desired_row list" where
  "reattach_desired_state now i rows = (case desired_source i rows of
      None \<Rightarrow> rows
    | Some prev \<Rightarrow>
        if find (\<lambda>r. dr_host_id r = id_host i \<and> dr_container_id r = id_container i) rows \<noteq> None then rows
        else rows @ [\<lparr>dr_host_id = id_host i, dr_container_id = id_container i, dr_container_name = id_name i,
               dr_desired_state = dr_desired_state prev, dr_web_ui_url = dr_web_ui_url prev, dr_updated_at = now\<rparr>])"

section \<open>Health checks and update settings\<close>

definition HEALTH_COLUMNS :: "string list" where
  "HEALTH_COLUMNS = [''enabled'', ''url'', ''method'', ''expected_status_codes'', ''timeout_seconds'',
     ''check_interval_seconds'', ''follow_redirects'', ''verify_ssl'', ''check_from'', ''headers_json'', ''auth_config_json'',
     ''auto_restart_on_failure'', ''failure_threshold'', ''success_threshold'', ''max_restart_attempts'',
     ''restart_retry_delay_seconds'']"

definition UPDATE_COLUMNS :: "string list" where
  "UPDATE_COLUMNS = [''current_digest'', ''current_version'', ''floating_tag_mode'', ''auto_update_enabled'', ''update_policy'',
     ''health_check_strategy'', ''health_check_url'', ''changelog_url'', ''changelog_source'', ''changelog_checked_at'',
     ''registry_url'', ''registry_page_url'', ''registry_page_source'', ''platform'']"

definition copy_columns :: "string list \<Rightarrow> (string, pyval) pydict \<Rightarrow> (string, pyval) pydict" where
  "copy_columns names d = map (\<lambda>c. (c, case dget d c of None \<Rightarrow> VNone | Some v \<Rightarrow> v)) names"

text \<open>Both functions look for the same name, then for the compose pattern, then through the restart rows.\<close>

definition kept_source :: "(kept_row \<Rightarrow> bool) \<Rightarrow> string \<Rightarrow> identity \<Rightarrow> auto_restart_row list \<Rightarrow> kept_row list \<Rightarrow> kept_row option" where
  "kept_source legacy_ok key i autos rows = or_else
     (most_recent kr_updated_at (filter (\<lambda>r. kr_host_id r = id_host i \<and> kr_container_name r = Some (id_name i)
         \<and> kr_container_id r \<noteq> key) rows))
     (or_else
       (case compose_of i of None \<Rightarrow> None
        | Some (p, s) \<Rightarrow> most_recent kr_updated_at (filter (\<lambda>r. kr_host_id r = id_host i
            \<and> (case kr_container_name r of None \<Rightarrow> False | Some n \<Rightarrow> sql_like (compose_pattern p s) n)
            \<and> kr_container_id r \<noteq> key) rows))
       (find (\<lambda>r. short_part (kr_container_id r) \<in> set (old_ids i autos))
         (filter (\<lambda>r. kr_host_id r = id_host i \<and> kr_container_name r = None \<and> legacy_ok r) rows)))"

definition has_kept :: "string \<Rightarrow> kept_row list \<Rightarrow> bool" where
  "has_kept key rows = (find (\<lambda>r. kr_container_id r = key) rows \<noteq> None)"

definition reattach_http_health_check :: "time \<Rightarrow> identity \<Rightarrow> auto_restart_row list \<Rightarrow> kept_row list \<Rightarrow> kept_row list" where
  "reattach_http_health_check now i autos rows = (case make_composite_key (id_host i) (id_container i) of
      Inl e \<Rightarrow> rows
    | Inr key \<Rightarrow>
        if has_kept key rows then rows
        else (case kept_source (\<lambda>r. True) key i autos rows of
            None \<Rightarrow> rows
          | Some prev \<Rightarrow> rows @ [\<lparr>kr_container_id = key, kr_host_id = id_host i, kr_container_name = Some (id_name i),
              kr_columns = copy_columns HEALTH_COLUMNS (kr_columns prev), kr_updated_at = now\<rparr>]))"

definition reattach_update_settings :: "time \<Rightarrow> identity \<Rightarrow> auto_restart_row list \<Rightarrow> kept_row list \<Rightarrow> kept_row list" where
  "reattach_update_settings now i autos rows = (case make_composite_key (id_host i) (id_container i) of
      Inl e \<Rightarrow> rows
    | Inr key \<Rightarrow>
        if has_kept key rows then rows
        else (case kept_source (\<lambda>r. dget (kr_columns r) ''current_image'' = Some (VStr (id_image i))) key i autos rows of
            None \<Rightarrow> rows
          | Some prev \<Rightarrow> rows @ [\<lparr>kr_container_id = key, kr_host_id = id_host i, kr_container_name = Some (id_name i),
              kr_columns = copy_columns UPDATE_COLUMNS (kr_columns prev)
                @ [(''current_image'', VStr (id_image i)), (''latest_image'', VNone), (''latest_digest'', VNone),
                   (''update_available'', VBool False), (''last_checked_at'', VNone), (''last_updated_at'', VNone)],
              kr_updated_at = now\<rparr>]))"

section \<open>Deployments\<close>

definition deploy_source :: "identity \<Rightarrow> auto_restart_row list \<Rightarrow> deploy_row list \<Rightarrow> deploy_row option" where
  "deploy_source i autos rows = or_else
     (case compose_of i of None \<Rightarrow> None
      | Some (p, s) \<Rightarrow> find (\<lambda>r. case get_auto_restart_config (id_host i) (short_part (dm_container_id r)) autos of
            None \<Rightarrow> False | Some c \<Rightarrow> starts_with (ar_container_name c) (p @ ''_'' @ s))
          (filter (\<lambda>r. dm_host_id r = id_host i \<and> dm_service_name r \<noteq> None) rows))
     (find (\<lambda>r. short_part (dm_container_id r) \<in> set (old_ids i autos)) (filter (\<lambda>r. dm_host_id r = id_host i) rows))"

definition reattach_deployment_metadata :: "identity \<Rightarrow> auto_restart_row list \<Rightarrow> string list \<Rightarrow> deploy_row list \<Rightarrow> deploy_row list" where
  "reattach_deployment_metadata i autos deployments rows = (case deploy_source i autos rows of
      None \<Rightarrow> rows
    | Some prev \<Rightarrow>
        if (case dm_deployment_id prev of None \<Rightarrow> False | Some d \<Rightarrow> d \<noteq> [] \<and> d \<notin> set deployments) then rows
        else (case make_composite_key (id_host i) (id_container i) of
            Inl e \<Rightarrow> rows
          | Inr key \<Rightarrow>
              if find (\<lambda>r. dm_container_id r = key) rows \<noteq> None then rows
              else rows @ [\<lparr>dm_container_id = key, dm_host_id = id_host i, dm_deployment_id = dm_deployment_id prev,
                     dm_is_managed = dm_is_managed prev, dm_service_name = dm_service_name prev\<rparr>]))"

section \<open>Tags\<close>

definition assigned :: "string \<Rightarrow> string \<Rightarrow> tag_assignment list \<Rightarrow> bool" where
  "assigned tag key tags = list_ex (\<lambda>a. ta_tag_id a = tag \<and> ta_subject_type a = ''container'' \<and> ta_subject_id a = key) tags"

type_synonym attaching = "tag_assignment list \<times> string list \<times> string list" \<comment> \<open>table, names, processed tag ids\<close>

definition attach_tag :: "string \<Rightarrow> identity \<Rightarrow> (string \<times> string) option \<Rightarrow> (string \<times> string) list \<Rightarrow> tag_assignment \<Rightarrow> attaching \<Rightarrow> attaching" where
  "attach_tag key i compose names prev acc = (case acc of (tags, reattached, processed) \<Rightarrow>
     (case map_of names (ta_tag_id prev) of
        None \<Rightarrow> acc
      | Some name \<Rightarrow>
          if ta_tag_id prev \<in> set processed \<or> assigned (ta_tag_id prev) key tags then acc
          else (tags @ [\<lparr>ta_tag_id = ta_tag_id prev, ta_subject_type = ''container'', ta_subject_id = key,
                   ta_compose_project = map_option fst compose, ta_compose_service = map_option snd compose,
                   ta_host_id = Some (id_host i), ta_container_name = Some (id_name i), ta_order_index = 0\<rparr>],
                reattached @ [name], ta_tag_id prev # processed)))"

definition reattach_tags :: "identity \<Rightarrow> (string \<times> string) list \<Rightarrow> tag_assignment list \<Rightarrow> string list \<times> tag_assignment list" where
  "reattach_tags i names tags = (case make_composite_key (id_host i) (id_container i) of
      Inl e \<Rightarrow> ([], tags)
    | Inr key \<Rightarrow>
        let acc = (case compose_of i of
              None \<Rightarrow> (tags, [], [])
            | Some (p, s) \<Rightarrow> fold (attach_tag key i (Some (p, s)) names)
                (filter (\<lambda>a. ta_subject_type a = ''container'' \<and> ta_compose_project a = Some p
                   \<and> ta_compose_service a = Some s \<and> ta_host_id a = Some (id_host i)) tags) (tags, [], []));
            acc = (case acc of (tags', reattached, processed) \<Rightarrow>
              if reattached \<noteq> [] then acc
              else fold (attach_tag key i None names)
                (filter (\<lambda>a. ta_subject_type a = ''container'' \<and> ta_container_name a = Some (id_name i)
                   \<and> ta_host_id a = Some (id_host i)) tags') acc)
        in (fst (snd acc), fst acc))"

text \<open>\<open>get_tags_for_host\<close>: a range of subject ids instead of a prefix test.\<close>

definition in_host_range :: "string \<Rightarrow> string \<Rightarrow> bool" where
  "in_host_range host_id subject_id = (host_id @ '':'' \<le> subject_id \<and> subject_id < host_id @ '';'')"

definition get_tags_for_host :: "string \<Rightarrow> (string \<times> string) list \<Rightarrow> tag_assignment list \<Rightarrow> (string, string list) pydict" where
  "get_tags_for_host host_id names tags =
     (if host_id = [] then []
      else fold (\<lambda>(container_id, name) d. dset container_id ((case dget d container_id of None \<Rightarrow> [] | Some ns \<Rightarrow> ns) @ [name]) d)
        (List.map_filter (\<lambda>a. map_option (\<lambda>name. (drop (length host_id + 1) (ta_subject_id a), name)) (map_of names (ta_tag_id a)))
          (sort_key ta_subject_id (sort_key ta_order_index
            (filter (\<lambda>a. ta_subject_type a = ''container'' \<and> in_host_range host_id (ta_subject_id a)) tags))))
        [])"

section \<open>A sweep\<close>

definition reattach_container :: "bool \<Rightarrow> time \<Rightarrow> string list \<Rightarrow> identity \<Rightarrow> sticky \<Rightarrow> sticky" where
  \<comment> \<open>the calls of a container that was not seen before; on a host with an agent two of them are missing\<close>
  "reattach_container is_agent now custom_tags i t =
     (let t = (if custom_tags = [] then t\<lparr>st_tags := snd (reattach_tags i (st_tag_names t) (st_tags t))\<rparr> else t);
          t = (if is_agent then t
               else t\<lparr>st_auto := reattach_auto_restart now i (st_auto t),
                      st_desired := reattach_desired_state now i (st_desired t)\<rparr>);
          t = t\<lparr>st_health := reattach_http_health_check now i (st_auto t) (st_health t),
                st_updates := reattach_update_settings now i (st_auto t) (st_updates t)\<rparr>
      in t\<lparr>st_deploy := reattach_deployment_metadata i (st_auto t) (st_deployments t) (st_deploy t)\<rparr>)"

definition sweep_host :: "bool \<Rightarrow> time \<Rightarrow> string \<Rightarrow> string list \<Rightarrow> identity list \<Rightarrow> sticky \<Rightarrow> sticky \<times> string list" where
  "sweep_host is_agent now host_id prev_reattached containers t =
     (let host_tags = get_tags_for_host host_id (st_tag_names t) (st_tags t)
      in (fold (\<lambda>i t. if id_container i \<in> set prev_reattached then t
            else reattach_container is_agent now (case dget host_tags (id_container i) of None \<Rightarrow> [] | Some ns \<Rightarrow> ns) i t) containers t,
          map id_container containers))"

end
