(* ===== verification/StickySettingsLaws.thy ===== *)
theory StickySettingsLaws
  imports StickySettings
begin

text \<open>
  What reattaching guarantees: tables only grow, by at most one row per container, each a copy from the same host;
  a second sight changes nothing. And whose settings the compose pattern really finds.
\<close>

section \<open>The range scan\<close>

lemma colon_range: "CHR '':'' \<le> c \<and> c < CHR '';'' \<longleftrightarrow> c = CHR '':''"
proof
  assume "CHR '':'' \<le> c \<and> c < CHR '';''"
  then have "of_char c = (of_char (CHR '':'') :: nat)" by (simp add: less_eq_char_def less_char_def)
  then show "c = CHR '':''" by (simp only: of_char_eq_iff)
qed (simp add: less_char_def less_eq_char_def)

lemma range_scan_is_prefix: "in_host_range h s \<longleftrightarrow> starts_with s (h @ '':'')"
proof (induction h arbitrary: s)
  case Nil
  show ?case
  proof (cases s)
    case (Cons c cs)
    then have "in_host_range [] s \<longleftrightarrow> CHR '':'' \<le> c \<and> c < CHR '';''"
      by (auto simp: in_host_range_def less_le)
    with Cons show ?thesis by (auto simp: colon_range starts_with_def)
  qed (simp add: in_host_range_def starts_with_def)
next
  case (Cons x h)
  show ?case
  proof (cases s)
    case c: (Cons y ys)
    show ?thesis
    proof (cases "x = y")
      case True
      with c Cons.IH [of ys] show ?thesis by (simp add: in_host_range_def starts_with_def)
    next
      case False
      with c show ?thesis by (auto simp: in_host_range_def starts_with_def)
    qed
  qed (simp add: in_host_range_def starts_with_def)
qed

section \<open>Growing tables\<close>

text \<open>A table grows by rows whose key is new to it and that copy a row it already had.\<close>

inductive grows :: "('r \<Rightarrow> 'k) \<Rightarrow> ('r \<Rightarrow> 'r \<Rightarrow> bool) \<Rightarrow> 'r list \<Rightarrow> 'r list \<Rightarrow> bool"
  for key :: "'r \<Rightarrow> 'k" and copies :: "'r \<Rightarrow> 'r \<Rightarrow> bool" where
  same [intro]: "grows key copies rows rows"
| add: "grows key copies rows rows' \<Longrightarrow> prev \<in> set rows' \<Longrightarrow> copies prev r \<Longrightarrow> key r \<notin> key ` set rows' \<Longrightarrow>
    grows key copies rows (rows' @ [r])"

lemma grows_trans [trans]: "grows key c xs ys \<Longrightarrow> grows key c ys zs \<Longrightarrow> grows key c xs zs"
  by (rotate_tac, induction rule: grows.induct) (auto intro: grows.add)

lemma grows_add: "prev \<in> set rows \<Longrightarrow> copies prev r \<Longrightarrow> key r \<notin> key ` set rows \<Longrightarrow> grows key copies rows (rows @ [r])"
  by (rule grows.add [OF grows.same])

lemma grows_prefix: "grows key c xs ys \<Longrightarrow> \<exists>new. ys = xs @ new"
  by (induction rule: grows.induct) auto

lemma grows_distinct: "grows key c xs ys \<Longrightarrow> distinct (map key xs) \<Longrightarrow> distinct (map key ys)"
  by (induction rule: grows.induct) auto

definition copies_auto :: "auto_restart_row \<Rightarrow> auto_restart_row \<Rightarrow> bool" where
  "copies_auto p r = (ar_host_id r = ar_host_id p \<and> ar_enabled r = ar_enabled p
     \<and> ar_max_retries r = ar_max_retries p \<and> ar_retry_delay r = ar_retry_delay p)"

definition copies_desired :: "desired_row \<Rightarrow> desired_row \<Rightarrow> bool" where
  "copies_desired p r = (dr_host_id r = dr_host_id p \<and> dr_desired_state r = dr_desired_state p \<and> dr_web_ui_url r = dr_web_ui_url p)"

definition copies_columns :: "string list \<Rightarrow> kept_row \<Rightarrow> kept_row \<Rightarrow> bool" where
  "copies_columns names p r = (kr_host_id r = kr_host_id p
     \<and> list_all (\<lambda>c. dget (kr_columns r) c = Some (case dget (kr_columns p) c of None \<Rightarrow> VNone | Some v \<Rightarrow> v)) names)"

definition copies_deploy :: "deploy_row \<Rightarrow> deploy_row \<Rightarrow> bool" where
  "copies_deploy p r = (dm_host_id r = dm_host_id p \<and> dm_deployment_id r = dm_deployment_id p
     \<and> dm_is_managed r = dm_is_managed p \<and> dm_service_name r = dm_service_name p)"

definition copies_tag :: "tag_assignment \<Rightarrow> tag_assignment \<Rightarrow> bool" where
  "copies_tag p r = (ta_tag_id r = ta_tag_id p \<and> ta_host_id r = ta_host_id p \<and> ta_subject_type r = ta_subject_type p)"

definition sticky_grows :: "sticky \<Rightarrow> sticky \<Rightarrow> bool" where
  "sticky_grows t t' =
     (grows (\<lambda>r. (ar_host_id r, ar_container_id r)) copies_auto (st_auto t) (st_auto t')
      \<and> grows (\<lambda>r. (dr_host_id r, dr_container_id r)) copies_desired (st_desired t) (st_desired t')
      \<and> grows kr_container_id (copies_columns HEALTH_COLUMNS) (st_health t) (st_health t')
      \<and> grows kr_container_id (copies_columns UPDATE_COLUMNS) (st_updates t) (st_updates t')
      \<and> grows dm_container_id copies_deploy (st_deploy t) (st_deploy t')
      \<and> grows (\<lambda>a. (ta_tag_id a, ta_subject_type a, ta_subject_id a)) copies_tag (st_tags t) (st_tags t')
      \<and> st_tag_names t' = st_tag_names t \<and> st_deployments t' = st_deployments t)"

lemma sticky_grows_refl [intro]: "sticky_grows t t"
  by (auto simp: sticky_grows_def)

lemma sticky_grows_trans: "sticky_grows t t' \<Longrightarrow> sticky_grows t' t'' \<Longrightarrow> sticky_grows t t''"
  unfolding sticky_grows_def by (auto elim: grows_trans)

section \<open>Each table\<close>

lemma most_recent_in: "most_recent f xs = Some x \<Longrightarrow> x \<in> set xs"
  by (induction xs arbitrary: x) (auto split: option.splits if_splits)

lemma most_recent_filter: "most_recent f (filter P xs) = Some x \<Longrightarrow> x \<in> set xs \<and> P x"
  using most_recent_in by fastforce

lemma first_kept: "find P (filter Q xs) = Some x \<Longrightarrow> x \<in> set xs \<and> Q x \<and> P x"
  using find_SomeD by fastforce

lemma or_else_Some: "or_else a b = Some x \<Longrightarrow> a = Some x \<or> b = Some x"
  by (auto simp: or_else_def split: option.splits)

lemma auto_source_host: "auto_source i rows = Some r \<Longrightarrow> r \<in> set rows \<and> ar_host_id r = id_host i"
  unfolding auto_source_def by (drule or_else_Some) (auto dest!: most_recent_filter split: option.splits)

lemma desired_source_host: "desired_source i rows = Some r \<Longrightarrow> r \<in> set rows \<and> dr_host_id r = id_host i"
  unfolding desired_source_def by (drule or_else_Some) (auto dest!: most_recent_filter split: option.splits)

lemma kept_source_host: "kept_source P key i autos rows = Some r \<Longrightarrow> r \<in> set rows \<and> kr_host_id r = id_host i"
  unfolding kept_source_def
  by (auto dest!: or_else_Some most_recent_filter first_kept split: option.splits)

lemma deploy_source_host: "deploy_source i autos rows = Some r \<Longrightarrow> r \<in> set rows \<and> dm_host_id r = id_host i"
  unfolding deploy_source_def
  by (auto dest!: or_else_Some first_kept split: option.splits)

lemma grows_auto: "grows (\<lambda>r. (ar_host_id r, ar_container_id r)) copies_auto rows (reattach_auto_restart now i rows)"
  by (auto simp: reattach_auto_restart_def get_auto_restart_config_def find_None_iff copies_auto_def
      dest!: auto_source_host intro!: grows_add split: option.splits)

lemma grows_desired: "grows (\<lambda>r. (dr_host_id r, dr_container_id r)) copies_desired rows (reattach_desired_state now i rows)"
  by (auto simp: reattach_desired_state_def find_None_iff copies_desired_def
      dest!: desired_source_host intro!: grows_add split: option.splits)

lemma copy_columns_get: "c \<in> set names \<Longrightarrow> dget (copy_columns names d) c = Some (case dget d c of None \<Rightarrow> VNone | Some v \<Rightarrow> v)"
  by (induction names) (auto simp: copy_columns_def)

lemma grows_health: "grows kr_container_id (copies_columns HEALTH_COLUMNS) rows (reattach_http_health_check now i autos rows)"
  by (auto simp: reattach_http_health_check_def has_kept_def find_None_iff copies_columns_def list_all_iff copy_columns_get
      dest!: kept_source_host intro!: grows_add split: option.splits sum.splits)

lemma grows_updates: "grows kr_container_id (copies_columns UPDATE_COLUMNS) rows (reattach_update_settings now i autos rows)"
  by (auto simp: reattach_update_settings_def has_kept_def find_None_iff copies_columns_def list_all_iff map_add_def copy_columns_get
      dest!: kept_source_host intro!: grows_add split: option.splits sum.splits)

lemma grows_deploy: "grows dm_container_id copies_deploy rows (reattach_deployment_metadata i autos ds rows)"
  by (auto simp: reattach_deployment_metadata_def find_None_iff copies_deploy_def
      dest!: deploy_source_host intro!: grows_add split: option.splits sum.splits)

section \<open>Tags\<close>

definition tag_key :: "tag_assignment \<Rightarrow> string \<times> string \<times> string" where
  "tag_key a = (ta_tag_id a, ta_subject_type a, ta_subject_id a)"

definition attached :: "string \<Rightarrow> (string \<times> string) list \<Rightarrow> tag_assignment list \<Rightarrow> bool" where
  "attached key names tags = list_ex (\<lambda>a. ta_subject_type a = ''container'' \<and> ta_subject_id a = key \<and> map_of names (ta_tag_id a) \<noteq> None) tags"

text \<open>What attaching assignments of one host keeps: the table grows, and either nothing happened or the container has tags.\<close>

definition attaching_ok :: "string \<Rightarrow> (string \<times> string) list \<Rightarrow> tag_assignment list \<Rightarrow> attaching \<Rightarrow> bool" where
  "attaching_ok key names tags acc = (grows tag_key copies_tag tags (fst acc)
     \<and> (if fst (snd acc) = [] then fst acc = tags else attached key names (fst acc)))"

lemma attaching_step:
  assumes "attaching_ok key names tags acc" and "prev \<in> set tags" and "ta_subject_type prev = ''container''" and "ta_host_id prev = Some (id_host i)"
  shows "attaching_ok key names tags (attach_tag key i compose names prev acc)"
proof -
  obtain rows reattached processed where acc: "acc = (rows, reattached, processed)" by (cases acc)
  show ?thesis
  proof (cases "attach_tag key i compose names prev acc = acc")
    case False
    then obtain name where name: "map_of names (ta_tag_id prev) = Some name" and new: "\<not> assigned (ta_tag_id prev) key rows"
      by (auto simp: attach_tag_def acc split: option.splits if_splits)
    from assms(1) acc have g: "grows tag_key copies_tag tags rows" by (simp add: attaching_ok_def)
    with assms(2) grows_prefix [OF g] have "prev \<in> set rows" by auto
    moreover obtain r where r: "attach_tag key i compose names prev acc = (rows @ [r], reattached @ [name], ta_tag_id prev # processed)"
      "ta_tag_id r = ta_tag_id prev" "ta_subject_type r = ''container''" "ta_subject_id r = key" "ta_host_id r = Some (id_host i)"
      using False name by (auto simp: attach_tag_def acc split: if_splits)
    ultimately have "grows tag_key copies_tag tags (rows @ [r])"
      using g new assms(3,4) by (intro grows.add [OF g]) (auto simp: copies_tag_def tag_key_def assigned_def list_ex_iff)
    with r name show ?thesis by (simp add: attaching_ok_def attached_def)
  qed (use assms(1) in simp)
qed

lemma attaching_fold:
  assumes "attaching_ok key names tags acc"
    and "\<forall>prev \<in> set prevs. prev \<in> set tags \<and> ta_subject_type prev = ''container'' \<and> ta_host_id prev = Some (id_host i)"
  shows "attaching_ok key names tags (fold (attach_tag key i compose names) prevs acc)"
  using assms
proof (induction prevs arbitrary: acc)
  case (Cons p prevs)
  then have "attaching_ok key names tags (attach_tag key i compose names p acc)" by (intro attaching_step) auto
  with Cons show ?case by simp
qed simp

lemma attaching_reattach:
  assumes "make_composite_key (id_host i) (id_container i) = Inr key"
  shows "\<exists>processed. attaching_ok key names tags (snd (reattach_tags i names tags), fst (reattach_tags i names tags), processed)"
proof -
  define acc where "acc = (case compose_of i of
              None \<Rightarrow> (tags, [], [])
            | Some (p, s) \<Rightarrow> fold (attach_tag key i (Some (p, s)) names)
                (filter (\<lambda>a. ta_subject_type a = ''container'' \<and> ta_compose_project a = Some p
                   \<and> ta_compose_service a = Some s \<and> ta_host_id a = Some (id_host i)) tags) (tags, [], []))"
  have "attaching_ok key names tags (tags, [], [])" by (auto simp: attaching_ok_def)
  then have a: "attaching_ok key names tags acc"
    by (auto simp: acc_def intro!: attaching_fold split: option.split)
  have b: "attaching_ok key names tags (fold (attach_tag key i None names)
      (filter (\<lambda>a. ta_subject_type a = ''container'' \<and> ta_container_name a = Some (id_name i) \<and> ta_host_id a = Some (id_host i)) (fst acc)) acc)"
    if "fst (snd acc) = []"
    by (rule attaching_fold [OF a]) (use that a in \<open>auto simp: attaching_ok_def\<close>)
  show ?thesis
  proof (cases "fst (snd acc) = []")
    case True
    then have "reattach_tags i names tags = (let c = fold (attach_tag key i None names)
      (filter (\<lambda>a. ta_subject_type a = ''container'' \<and> ta_container_name a = Some (id_name i) \<and> ta_host_id a = Some (id_host i)) (fst acc)) acc
      in (fst (snd c), fst c))"
      unfolding reattach_tags_def assms by (cases acc) (simp add: acc_def [symmetric] Let_def)
    with b [OF True] show ?thesis by (auto simp: Let_def attaching_ok_def)
  next
    case False
    then have "reattach_tags i names tags = (fst (snd acc), fst acc)"
      unfolding reattach_tags_def assms by (cases acc) (simp add: acc_def [symmetric] Let_def)
    with a show ?thesis by (auto simp: attaching_ok_def)
  qed
qed

lemma grows_tags: "grows tag_key copies_tag tags (snd (reattach_tags i names tags))"
proof (cases "make_composite_key (id_host i) (id_container i)")
  case (Inr key)
  from attaching_reattach [OF this, of names tags] show ?thesis by (auto simp: attaching_ok_def)
qed (auto simp: reattach_tags_def)

section \<open>Containers and sweeps\<close>

lemma reattach_container_grows: "sticky_grows t (reattach_container ag now custom i t)"
  using grows_tags [of "st_tags t" i "st_tag_names t"] grows_auto grows_desired grows_health grows_updates grows_deploy
  by (auto simp: reattach_container_def sticky_grows_def Let_def tag_key_def [abs_def])

lemma sweep_grows: "sticky_grows t (fst (sweep_host ag now h prev cs t))"
proof -
  have "sticky_grows t (fold (\<lambda>i t. if id_container i \<in> set prev then t else reattach_container ag now (f i) i t) cs t)" for f
    by (induction cs arbitrary: t) (auto intro: sticky_grows_trans reattach_container_grows)
  then show ?thesis by (simp add: sweep_host_def)
qed

record sweep_call =
  sc_agent :: bool
  sc_now :: time
  sc_host :: string
  sc_prev :: "string list"
  sc_containers :: "identity list"

definition do_sweep :: "sticky \<Rightarrow> sweep_call \<Rightarrow> sticky" where
  "do_sweep t c = fst (sweep_host (sc_agent c) (sc_now c) (sc_host c) (sc_prev c) (sc_containers c) t)"

interpretation sweeps: machine do_sweep "sticky_grows t0" for t0
  by unfold_locales (use sweep_grows sticky_grows_trans in \<open>auto simp: do_sweep_def\<close>)

definition sticky_keys_distinct :: "sticky \<Rightarrow> bool" where
  "sticky_keys_distinct t = (distinct (map (\<lambda>r. (ar_host_id r, ar_container_id r)) (st_auto t))
     \<and> distinct (map (\<lambda>r. (dr_host_id r, dr_container_id r)) (st_desired t))
     \<and> distinct (map kr_container_id (st_health t)) \<and> distinct (map kr_container_id (st_updates t))
     \<and> distinct (map dm_container_id (st_deploy t)))"

text \<open>Proved as well: Whatever sweeps of any hosts see, the rows of the settings tables stay as they are and rows are only added, each
  for a container that had none, with the settings of a row of the same host; so a table with one row per container
  keeps one row per container.
\<close>

theorem sweeps_only_add_copies:
  assumes "sticky_keys_distinct t"
  shows "sticky_grows t (run do_sweep t cs) \<and> sticky_keys_distinct (run do_sweep t cs)"
proof -
  have g: "sticky_grows t (run do_sweep t cs)" by (rule sweeps.run_inv) auto
  with assms show ?thesis by (auto simp: sticky_grows_def sticky_keys_distinct_def intro: grows_distinct)
qed

section \<open>The second sight\<close>

lemma reattach_auto_twice: "reattach_auto_restart now' i (reattach_auto_restart now i rows) = reattach_auto_restart now i rows"
  by (auto simp: reattach_auto_restart_def get_auto_restart_config_def find_append split: option.splits)

lemma reattach_desired_twice: "reattach_desired_state now' i (reattach_desired_state now i rows) = reattach_desired_state now i rows"
  by (auto simp: reattach_desired_state_def find_append split: option.splits)

lemma reattach_health_twice:
  "reattach_http_health_check now' i autos (reattach_http_health_check now i autos rows) = reattach_http_health_check now i autos rows"
  by (auto simp: reattach_http_health_check_def has_kept_def find_append split: option.splits sum.splits)

lemma reattach_updates_twice:
  "reattach_update_settings now' i autos (reattach_update_settings now i autos rows) = reattach_update_settings now i autos rows"
  by (auto simp: reattach_update_settings_def has_kept_def find_append split: option.splits sum.splits)

lemma reattach_deploy_twice:
  "reattach_deployment_metadata i autos ds (reattach_deployment_metadata i autos ds rows) = reattach_deployment_metadata i autos ds rows"
  by (auto simp: reattach_deployment_metadata_def find_append split: option.splits sum.splits)

text \<open>The tags a sweep reads for a container; with an assignment to a known tag they are not empty.\<close>

definition custom_tags_of :: "identity \<Rightarrow> sticky \<Rightarrow> string list" where
  "custom_tags_of i t = (case dget (get_tags_for_host (id_host i) (st_tag_names t) (st_tags t)) (id_container i) of
      None \<Rightarrow> [] | Some ns \<Rightarrow> ns)"

lemma collect_names:
  "dget (fold (\<lambda>(c, n) d. dset c ((case dget d c of None \<Rightarrow> [] | Some ns \<Rightarrow> ns) @ [n]) d) xs d) c =
     (if filter (\<lambda>x. fst x = c) xs = [] then dget d c
      else Some ((case dget d c of None \<Rightarrow> [] | Some ns \<Rightarrow> ns) @ map snd (filter (\<lambda>x. fst x = c) xs)))"
  by (induction xs arbitrary: d) auto

lemma attached_is_read:
  assumes "attached (id_host i @ '':'' @ id_container i) (st_tag_names t) (st_tags t)" and "id_host i \<noteq> []"
  shows "custom_tags_of i t \<noteq> []"
proof -
  let ?h = "id_host i" and ?c = "id_container i"
  obtain a name where a: "a \<in> set (st_tags t)" "ta_subject_type a = ''container''" "ta_subject_id a = ?h @ '':'' @ ?c"
    "map_of (st_tag_names t) (ta_tag_id a) = Some name"
    using assms(1) by (auto simp: attached_def list_ex_iff)
  have range: "in_host_range ?h (ta_subject_id a)"
    by (simp add: range_scan_is_prefix a(3) starts_with_def)
  define xs where "xs = List.map_filter (\<lambda>a. map_option (\<lambda>name. (drop (length ?h + 1) (ta_subject_id a), name)) (map_of (st_tag_names t) (ta_tag_id a)))
          (sort_key ta_subject_id (sort_key ta_order_index
            (filter (\<lambda>a. ta_subject_type a = ''container'' \<and> in_host_range ?h (ta_subject_id a)) (st_tags t))))"
  have "(?c, name) \<in> set xs"
    using a range by (auto simp: xs_def List.map_filter_def image_iff intro!: bexI [of _ a])
  then have "(?c, name) \<in> set (filter (\<lambda>x. fst x = ?c) xs)" by simp
  then have ne: "filter (\<lambda>x. fst x = ?c) xs \<noteq> []" by (metis empty_iff empty_set)
  have "dget (get_tags_for_host ?h (st_tag_names t) (st_tags t)) ?c = Some (map snd (filter (\<lambda>x. fst x = ?c) xs))"
    using assms(2) ne unfolding get_tags_for_host_def xs_def [symmetric] by (simp add: collect_names del: filter_empty_conv)
  with ne show ?thesis by (simp add: custom_tags_of_def)
qed

definition sight :: "bool \<Rightarrow> time \<Rightarrow> identity \<Rightarrow> sticky \<Rightarrow> sticky" where
  "sight ag now i t = reattach_container ag now (custom_tags_of i t) i t"

lemma reattach_tags_settled:
  assumes "custom_tags_of i (t\<lparr>st_tags := snd (reattach_tags i (st_tag_names t) (st_tags t))\<rparr>) = []"
  shows "snd (reattach_tags i (st_tag_names t) (st_tags t)) = st_tags t"
proof (cases "make_composite_key (id_host i) (id_container i)")
  case (Inr key)
  then have key: "key = id_host i @ '':'' @ id_container i" "id_host i \<noteq> []" by (auto simp: make_composite_key_Inr)
  from attaching_reattach [OF Inr, of "st_tag_names t" "st_tags t"]
    attached_is_read [of i "t\<lparr>st_tags := snd (reattach_tags i (st_tag_names t) (st_tags t))\<rparr>"] assms key
  show ?thesis by (auto simp: attaching_ok_def split: if_splits)
qed (simp add: reattach_tags_def)

lemma sight_tags:
  "st_tags (sight ag now i t) = (if custom_tags_of i t = [] then snd (reattach_tags i (st_tag_names t) (st_tags t)) else st_tags t)"
  "st_tag_names (sight ag now i t) = st_tag_names t" "st_deployments (sight ag now i t) = st_deployments t"
  by (simp_all add: sight_def reattach_container_def Let_def)

text \<open>Proved as well: Seeing a container a second time changes nothing: what the first sight reattached is found, and what it did not
  find is not found then either, although DockMon forgets which containers it has seen whenever it is restarted.
\<close>

theorem second_sight_changes_nothing: "sight ag now' i (sight ag now i t) = sight ag now i t"
proof -
  define tags where "tags = (if custom_tags_of i t = [] then snd (reattach_tags i (st_tag_names t) (st_tags t)) else st_tags t)"
  let ?t = "sight ag now i t"
  have t: "st_tags ?t = tags" "st_tag_names ?t = st_tag_names t" "st_deployments ?t = st_deployments t"
    by (simp_all add: sight_tags tags_def)
  have c: "custom_tags_of i ?t = custom_tags_of i (t\<lparr>st_tags := tags\<rparr>)" by (simp add: custom_tags_of_def t)
  have settled: "snd (reattach_tags i (st_tag_names t) tags) = tags" if "custom_tags_of i ?t = []"
  proof (cases "custom_tags_of i t = []")
    case True
    with that c have "tags = st_tags t" using reattach_tags_settled [of i t] by (simp add: tags_def)
    with True that show ?thesis by (simp add: tags_def)
  next
    case False
    then have "custom_tags_of i (t\<lparr>st_tags := tags\<rparr>) = custom_tags_of i t" by (simp add: tags_def)
    with that c False show ?thesis by simp
  qed
  show ?thesis
  proof (rule sticky.equality)
    show "st_tags (sight ag now' i ?t) = st_tags ?t"
      using settled by (simp add: sight_tags(1) [of ag now' i ?t] t)
  qed (simp_all add: sight_def reattach_container_def Let_def reattach_auto_twice reattach_desired_twice
      reattach_health_twice reattach_updates_twice reattach_deploy_twice)
qed

section \<open>Whose settings\<close>

definition ident :: "string \<Rightarrow> string \<Rightarrow> (string \<times> string) option \<Rightarrow> identity" where
  "ident c n compose = \<lparr>id_host = ''h1'', id_container = c, id_name = n, id_image = ''img'',
     id_project = map_option fst compose, id_service = map_option snd compose\<rparr>"

definition auto_row :: "string \<Rightarrow> string \<Rightarrow> bool \<Rightarrow> auto_restart_row" where
  "auto_row c n on = \<lparr>ar_host_id = ''h1'', ar_container_id = c, ar_container_name = n, ar_enabled = on,
     ar_max_retries = 3, ar_retry_delay = 30, ar_restart_count = 0, ar_updated_at = 5\<rparr>"

definition kept :: "string \<Rightarrow> string \<Rightarrow> kept_row" where
  "kept k n = \<lparr>kr_container_id = k, kr_host_id = ''h1'', kr_container_name = Some n,
     kr_columns = [(''auto_update_enabled'', VBool True)], kr_updated_at = 5\<rparr>"

text \<open>The pattern has no end of the service name: \<open>web\<close> takes the settings of \<open>webhook\<close>, also when it never had a row.\<close>

lemma service_takes_settings_of_longer_name:
  "map ar_enabled (reattach_auto_restart 9 (ident ''0123456789ab'' ''app-web-1'' (Some (''app'', ''web''))) [auto_row ''ba9876543210'' ''app-webhook-1'' True])
     = [True, True]"
  by code_simp

lemma service_is_updated_like_longer_name:
  "map (\<lambda>r. (kr_container_name r, dget (kr_columns r) ''auto_update_enabled''))
     (reattach_update_settings 9 (ident ''0123456789ab'' ''app-web-1'' (Some (''app'', ''web''))) [] [kept ''h1:ba9876543210'' ''app-webhook-1''])
     = [(Some ''app-webhook-1'', Some (VBool True)), (Some ''app-web-1'', Some (VBool True))]"
  by code_simp

text \<open>For restarts the pattern goes before the name, so the sibling also wins over the row of the same name.\<close>

lemma sibling_wins_over_same_name:
  "map ar_enabled (reattach_auto_restart 9 (ident ''0123456789ab'' ''app-web-1'' (Some (''app'', ''web'')))
     [(auto_row ''aaaaaaaaaaaa'' ''app-web-1'' False)\<lparr>ar_updated_at := 4\<rparr>, auto_row ''ba9876543210'' ''app-webhook-1'' True])
     = [False, True, True]"
  by code_simp

text \<open>Tags taken from a container come back at the next start, as long as a row of a former id of it exists.\<close>

definition tagged :: "string \<Rightarrow> tag_assignment" where
  "tagged key = \<lparr>ta_tag_id = ''t1'', ta_subject_type = ''container'', ta_subject_id = key, ta_compose_project = None,
     ta_compose_service = None, ta_host_id = Some ''h1'', ta_container_name = Some ''web'', ta_order_index = 2\<rparr>"

definition demo_sticky :: "tag_assignment list \<Rightarrow> auto_restart_row list \<Rightarrow> sticky" where
  "demo_sticky tags autos = \<lparr>st_auto = autos, st_desired = [], st_health = [], st_updates = [], st_deploy = [], st_tags = tags,
     st_tag_names = [(''t1'', ''prod'')], st_deployments = []\<rparr>"

lemma removed_tags_return:
  "map ta_subject_id (st_tags (sight False 9 (ident ''0123456789ab'' ''web'' None) (demo_sticky [tagged ''h1:ba9876543210''] [])))
     = [''h1:ba9876543210'', ''h1:0123456789ab'']
   \<and> map ta_order_index (st_tags (sight False 9 (ident ''0123456789ab'' ''web'' None) (demo_sticky [tagged ''h1:ba9876543210''] []))) = [2, 0]"
  by code_simp

text \<open>On a host with an agent the restart row of a rebuilt container is not copied.\<close>

lemma agent_hosts_lose_restart_settings:
  "get_auto_restart_config ''h1'' ''0123456789ab'' (st_auto (sight True 9 (ident ''0123456789ab'' ''web'' None)
      (demo_sticky [] [auto_row ''ba9876543210'' ''web'' True]))) = None
   \<and> map_option ar_enabled (get_auto_restart_config ''h1'' ''0123456789ab'' (st_auto (sight False 9 (ident ''0123456789ab'' ''web'' None)
      (demo_sticky [] [auto_row ''ba9876543210'' ''web'' True])))) = Some True"
  by code_simp

text \<open>
  When the rebuilt container dies before the first sweep has seen it, the handler caches the default for its id; the row
  that the sweep then copies is not read any more.
\<close>

lemma early_death_hides_reattached_setting:
  "let died = handle_docker_event 5 False \<lparr>de_action = ''die'', de_container_id = ''0123456789ab'', de_container_name = ''web'',
         de_host_id = ''h1'', de_attributes = Some []\<rparr>
         (init_monitor \<lparr>max_retries = 3, default_auto_restart = False\<rparr> [auto_row ''ba9876543210'' ''web'' True]);
       swept = died\<lparr>mo_rows := reattach_auto_restart 9 (ident ''0123456789ab'' ''web'' None) (mo_rows died)\<rparr>
   in map_option ar_enabled (get_auto_restart_config ''h1'' ''0123456789ab'' (mo_rows swept)) = Some True
      \<and> map_sum id fst (get_auto_restart_status ''h1'' ''0123456789ab'' swept) = Inr False"
  by code_simp

lemma sweeps_only_add_copies_witness:
  "sticky_keys_distinct (run do_sweep (demo_sticky [] [auto_row ''ba9876543210'' ''web'' True])
     [\<lparr>sc_agent = False, sc_now = 9, sc_host = ''h1'', sc_prev = [], sc_containers = [ident ''0123456789ab'' ''web'' None]\<rparr>])"
  by (rule sweeps_only_add_copies [THEN conjunct2]) code_simp

end
