(* ===== verification/StatsHistory.thy ===== *)
theory StatsHistory
  imports ContainerSpec
begin

text \<open>
  The live buffers behind the sparklines (\<open>backend/docker_monitor/stats_history.py\<close>): smoothing, the ring of points
  per host or container, trimming by age, and how many points an endpoint serves. Values come from JSON messages, so
  a sample may be any value; floats are exact rationals.
\<close>

section \<open>Arithmetic on values\<close>

text \<open>The float that a value becomes in a product with a float; \<open>None\<close> is \<open>TypeError\<close> or \<open>OverflowError\<close>.\<close>

definition as_float :: "pyval \<Rightarrow> pyfloat option" where
  "as_float v = (case v of VStr s \<Rightarrow> None | _ \<Rightarrow> (case to_float v of Inl e \<Rightarrow> None | Inr f \<Rightarrow> Some f))"

fun pf_scale :: "rat \<Rightarrow> pyfloat \<Rightarrow> pyfloat" where
  \<comment> \<open>by a positive factor\<close>
  "pf_scale c (Fin x) = Fin (c * x)"
| "pf_scale c f = f"

fun pf_add :: "pyfloat \<Rightarrow> pyfloat \<Rightarrow> pyfloat" where
  "pf_add (Fin x) (Fin y) = Fin (x + y)"
| "pf_add NaN f = NaN"
| "pf_add f NaN = NaN"
| "pf_add PosInf NegInf = NaN"
| "pf_add NegInf PosInf = NaN"
| "pf_add PosInf f = PosInf"
| "pf_add f PosInf = PosInf"
| "pf_add NegInf f = NegInf"
| "pf_add f NegInf = NegInf"

section \<open>The buffer\<close>

definition EMA_ALPHA :: rat where "EMA_ALPHA = 3 / 10"
definition BROADCAST_POINTS :: nat where "BROADCAST_POINTS = 30"
definition LIVE_BUFFER_MAX_POINTS :: nat where "LIVE_BUFFER_MAX_POINTS = 1800"

record stats_point =
  sp_timestamp :: time
  sp_cpu_percent :: pyval
  sp_mem_percent :: pyval
  sp_net_bytes_per_sec :: pyval
  sp_memory_used_bytes :: pyval
  sp_memory_limit_bytes :: pyval

record stats_buffer =
  bf_history :: "(string, stats_point list) pydict"
  bf_last_raw :: "(string, pyval \<times> pyval \<times> pyval) pydict"
  bf_agent_fed :: "(string, time) pydict" \<comment> \<open>of the host buffer only\<close>

definition new_buffer :: stats_buffer where
  "new_buffer = \<lparr>bf_history = [], bf_last_raw = [], bf_agent_fed = []\<rparr>"

definition smooth :: "pyval \<Rightarrow> pyval \<Rightarrow> pyval option" where
  "smooth cur prev = (case (as_float cur, as_float prev) of
      (Some c, Some p) \<Rightarrow> Some (VFloat (pf_add (pf_scale EMA_ALPHA c) (pf_scale (1 - EMA_ALPHA) p)))
    | _ \<Rightarrow> None)"

text \<open>\<open>deque(maxlen)\<close>: an append to a full ring drops the oldest point.\<close>

definition ring_append :: "'a \<Rightarrow> 'a list \<Rightarrow> 'a list" where
  "ring_append x xs = drop (Suc (length xs) - LIVE_BUFFER_MAX_POINTS) (xs @ [x])"

text \<open>\<open>Inl\<close>: the exception of an operand that is no number, with the buffer left behind.\<close>

definition add_stats :: "time \<Rightarrow> string \<Rightarrow> pyval \<Rightarrow> pyval \<Rightarrow> pyval \<Rightarrow> pyval \<Rightarrow> pyval \<Rightarrow> stats_buffer \<Rightarrow> stats_buffer + stats_buffer" where
  "add_stats now key cpu mem net used limit b =
     (let b = b\<lparr>bf_history := dsetdefault key [] (bf_history b)\<rparr>;
          smoothed = (case dget (bf_last_raw b) key of
              None \<Rightarrow> Some (cpu, mem, net)
            | Some (c, m, n) \<Rightarrow> (case (smooth cpu c, smooth mem m, smooth net n) of
                  (Some c', Some m', Some n') \<Rightarrow> Some (c', m', n') | _ \<Rightarrow> None))
      in case smoothed of
           None \<Rightarrow> Inl b
         | Some (c, m, n) \<Rightarrow>
             Inr (b\<lparr>bf_last_raw := dset key (cpu, mem, net) (bf_last_raw b),
                    bf_history := dset key (ring_append \<lparr>sp_timestamp = now, sp_cpu_percent = c, sp_mem_percent = m,
                        sp_net_bytes_per_sec = n, sp_memory_used_bytes = used, sp_memory_limit_bytes = limit\<rparr>
                        (case dget (bf_history b) key of None \<Rightarrow> [] | Some h \<Rightarrow> h)) (bf_history b)\<rparr>))"

definition sample_points :: "stats_point list option \<Rightarrow> int \<Rightarrow> stats_point list" where
  "sample_points history num_points = (case history of
      None \<Rightarrow> []
    | Some points \<Rightarrow>
        let n = (if num_points \<le> 0 then BROADCAST_POINTS else nat num_points)
        in drop (length points - n) points)"

record sparklines =
  sl_cpu :: "pyval list"
  sl_mem :: "pyval list"
  sl_net :: "pyval list"
  sl_extended :: "(time list \<times> pyval list \<times> pyval list) option"

definition build_sparklines :: "stats_point list \<Rightarrow> bool \<Rightarrow> sparklines" where
  "build_sparklines sampled include_extended =
     \<lparr>sl_cpu = map sp_cpu_percent sampled, sl_mem = map sp_mem_percent sampled, sl_net = map sp_net_bytes_per_sec sampled,
      sl_extended = (if \<not> include_extended then None
        else Some (map sp_timestamp sampled, map sp_memory_used_bytes sampled, map sp_memory_limit_bytes sampled))\<rparr>"

definition get_sparklines :: "string \<Rightarrow> int \<Rightarrow> bool \<Rightarrow> stats_buffer \<Rightarrow> sparklines" where
  "get_sparklines key num_points include_extended b =
     build_sparklines (sample_points (dget (bf_history b) key) num_points) include_extended"

definition cleanup_entry :: "time \<Rightarrow> string \<Rightarrow> stats_buffer \<Rightarrow> stats_buffer" where
  "cleanup_entry cutoff_time key b =
     (case dget (bf_history b) key of
        None \<Rightarrow> b
      | Some history \<Rightarrow>
          let rest = dropWhile (\<lambda>p. sp_timestamp p < cutoff_time) history
          in if rest = [] then b\<lparr>bf_history := ddel key (bf_history b), bf_last_raw := ddel key (bf_last_raw b)\<rparr>
             else b\<lparr>bf_history := dset key rest (bf_history b)\<rparr>)"

definition cleanup_old_data :: "time \<Rightarrow> int \<Rightarrow> stats_buffer \<Rightarrow> stats_buffer" where
  "cleanup_old_data now max_age_seconds b =
     fold (cleanup_entry (now - secs max_age_seconds)) (map fst (bf_history b)) b"

definition remove_entry :: "string \<Rightarrow> stats_buffer \<Rightarrow> stats_buffer" where
  "remove_entry key b = b\<lparr>bf_history := ddel key (bf_history b), bf_last_raw := ddel key (bf_last_raw b)\<rparr>"

definition mark_agent_fed :: "time \<Rightarrow> string \<Rightarrow> stats_buffer \<Rightarrow> stats_buffer" where
  "mark_agent_fed now host_id b = b\<lparr>bf_agent_fed := dset host_id now (bf_agent_fed b)\<rparr>"

definition is_agent_fed :: "time \<Rightarrow> string \<Rightarrow> int \<Rightarrow> stats_buffer \<Rightarrow> bool" where
  "is_agent_fed now host_id max_age_seconds b = (case dget (bf_agent_fed b) host_id of
      None \<Rightarrow> False | Some t \<Rightarrow> now - t < secs max_age_seconds)"

section \<open>Windows\<close>

definition live_buffer_max_age_seconds :: "int \<Rightarrow> rat \<Rightarrow> int" where
  "live_buffer_max_age_seconds live_window_seconds polling_interval =
     \<lfloor>max (of_int live_window_seconds) (of_nat BROADCAST_POINTS * polling_interval)\<rfloor>"

definition live_window_points :: "int \<Rightarrow> rat \<Rightarrow> int" where
  "live_window_points live_window_seconds polling_interval =
     (let interval = (if polling_interval = 0 then 1 else polling_interval)
      in max 1 (min \<lfloor>of_int live_window_seconds / interval\<rfloor> (int LIVE_BUFFER_MAX_POINTS)))"

section \<open>Laws\<close>

datatype buffer_op =
    AddStats time string pyval pyval pyval pyval pyval
  | CleanupOld time int
  | RemoveEntry string
  | MarkFed time string

fun buffer_does :: "stats_buffer \<Rightarrow> buffer_op \<Rightarrow> stats_buffer" where
  "buffer_does b (AddStats now k c m n u l) = (case add_stats now k c m n u l b of Inl b' \<Rightarrow> b' | Inr b' \<Rightarrow> b')"
| "buffer_does b (CleanupOld now age) = cleanup_old_data now age b"
| "buffer_does b (RemoveEntry k) = remove_entry k b"
| "buffer_does b (MarkFed now k) = mark_agent_fed now k b"

definition buffer_ok :: "stats_buffer \<Rightarrow> bool" where
  "buffer_ok b = ((\<forall>k h. dget (bf_history b) k = Some h \<longrightarrow> length h \<le> LIVE_BUFFER_MAX_POINTS)
     \<and> (\<forall>k. dhas (bf_last_raw b) k \<longrightarrow> dhas (bf_history b) k))"

lemma length_ring_append: "length xs \<le> LIVE_BUFFER_MAX_POINTS \<Longrightarrow> length (ring_append x xs) \<le> LIVE_BUFFER_MAX_POINTS"
  by (simp add: ring_append_def LIVE_BUFFER_MAX_POINTS_def)

lemma buffer_ok_cleanup_entry:
  assumes "buffer_ok b"
  shows "buffer_ok (cleanup_entry t k b)"
proof (cases "dget (bf_history b) k")
  case (Some h)
  then have "length (dropWhile (\<lambda>p. sp_timestamp p < t) h) \<le> LIVE_BUFFER_MAX_POINTS"
    using assms length_dropWhile_le le_trans unfolding buffer_ok_def by blast
  with assms Some show ?thesis by (auto simp: cleanup_entry_def buffer_ok_def Let_def)
qed (use assms in \<open>simp add: cleanup_entry_def\<close>)

lemma buffer_ok_store:
  assumes "buffer_ok b" and "length h \<le> LIVE_BUFFER_MAX_POINTS"
  shows "buffer_ok (b\<lparr>bf_last_raw := dset k x (bf_last_raw b), bf_history := dset k h (bf_history b)\<rparr>)"
  using assms by (auto simp: buffer_ok_def)

lemma buffer_ok_add:
  assumes "buffer_ok b"
  shows "buffer_ok (case add_stats now k c m n u l b of Inl b' \<Rightarrow> b' | Inr b' \<Rightarrow> b')"
proof -
  define b0 where "b0 = b\<lparr>bf_history := dsetdefault k [] (bf_history b)\<rparr>"
  have b0: "buffer_ok b0"
    using assms by (auto simp: b0_def buffer_ok_def dhas_def split: option.splits)
  then have "length (case dget (bf_history b0) k of None \<Rightarrow> [] | Some h \<Rightarrow> h) \<le> LIVE_BUFFER_MAX_POINTS"
    by (auto simp: buffer_ok_def split: option.split)
  note store = buffer_ok_store [OF b0 length_ring_append [OF this]]
  show ?thesis
    unfolding add_stats_def b0_def [symmetric] by (simp add: Let_def store b0 split: option.split prod.split)
qed

interpretation buffer: machine buffer_does buffer_ok
proof unfold_locales
  fix b e assume ok: "buffer_ok b"
  have fold: "buffer_ok (fold (cleanup_entry t) ks b)" for t ks
    using ok by (induction ks arbitrary: b) (auto intro: buffer_ok_cleanup_entry)
  show "buffer_ok (buffer_does b e)"
    by (cases e) (use ok fold buffer_ok_add in \<open>auto simp: cleanup_old_data_def remove_entry_def mark_agent_fed_def buffer_ok_def\<close>)
qed

text \<open>After trimming nothing is older than the age that was asked for, and nothing younger is lost.\<close>

lemma cleanup_entry_get:
  "dget (bf_history (cleanup_entry t k b)) k' =
     (if k' = k then (case dget (bf_history b) k of None \<Rightarrow> None
        | Some h \<Rightarrow> let rest = dropWhile (\<lambda>p. sp_timestamp p < t) h in if rest = [] then None else Some rest)
      else dget (bf_history b) k')"
  by (auto simp: cleanup_entry_def Let_def split: option.split)

lemma cleanup_fold_get:
  "dget (bf_history (fold (cleanup_entry t) ks b)) k =
     (if k \<in> set ks then (case dget (bf_history b) k of None \<Rightarrow> None
        | Some h \<Rightarrow> let rest = dropWhile (\<lambda>p. sp_timestamp p < t) h in if rest = [] then None else Some rest)
      else dget (bf_history b) k)"
proof (induction ks arbitrary: b)
  case (Cons x ks)
  have idem: "dropWhile (\<lambda>p. sp_timestamp p < t) (dropWhile (\<lambda>p. sp_timestamp p < t) h) = dropWhile (\<lambda>p. sp_timestamp p < t) h" for h :: "stats_point list"
    by (simp add: dropWhile_idem)
  show ?case by (auto simp: Cons.IH cleanup_entry_get Let_def idem split: option.split)
qed simp

lemma dropWhile_sorted:
  "sorted (map f xs) \<Longrightarrow> dropWhile (\<lambda>x. f x < (t::time)) xs = filter (\<lambda>x. t \<le> f x) xs"
proof (induction xs)
  case (Cons x xs)
  then show ?case by (cases "f x < t") (auto intro!: filter_True [symmetric])
qed simp

lemma cleanup_keeps_exactly:
  assumes "dget (bf_history b) k = Some h" and "sorted (map sp_timestamp h)"
  shows "(case dget (bf_history (cleanup_old_data now age b)) k of None \<Rightarrow> [] | Some r \<Rightarrow> r)
    = filter (\<lambda>p. now - secs age \<le> sp_timestamp p) h"
proof -
  have "k \<in> set (map fst (bf_history b))" using assms(1) dhas_iff_set [of "bf_history b" k] by (simp add: dhas_def)
  then show ?thesis using assms by (auto simp: cleanup_old_data_def cleanup_fold_get Let_def dropWhile_sorted)
qed

text \<open>Proved as well: Along any run a buffer holds at most 1800 points per host or container whatever is fed into it, and for the
  points of one in time order trimming keeps exactly those of the asked age.
\<close>

theorem live_buffers_are_bounded:
  assumes "dget (bf_history (run buffer_does new_buffer es)) k = Some h"
  shows "length h \<le> 1800
    \<and> (sorted (map sp_timestamp h) \<longrightarrow>
        (case dget (bf_history (cleanup_old_data now age (run buffer_does new_buffer es))) k of None \<Rightarrow> [] | Some r \<Rightarrow> r)
          = filter (\<lambda>p. now - secs age \<le> sp_timestamp p) h)"
proof -
  have "buffer_ok (run buffer_does new_buffer es)"
    by (rule buffer.run_inv) (simp add: buffer_ok_def new_buffer_def)
  with assms cleanup_keeps_exactly [OF assms] show ?thesis by (auto simp: buffer_ok_def LIVE_BUFFER_MAX_POINTS_def)
qed

lemma live_buffers_are_bounded_witness:
  "length [\<lparr>sp_timestamp = 5, sp_cpu_percent = VInt 1, sp_mem_percent = VInt 2, sp_net_bytes_per_sec = VInt 3,
      sp_memory_used_bytes = VNone, sp_memory_limit_bytes = VNone\<rparr>] \<le> 1800"
  by (rule live_buffers_are_bounded [of "[AddStats 5 ''h1'' (VInt 1) (VInt 2) (VInt 3) VNone VNone]" "''h1''", THEN conjunct1]) code_simp

text \<open>The points an endpoint serves lie within what trimming keeps, and at least the newest one is served.\<close>

lemma window_fits_buffer:
  assumes "0 < polling_interval"
  shows "1 \<le> live_window_points w polling_interval \<and> live_window_points w polling_interval \<le> 1800
    \<and> (1 < live_window_points w polling_interval \<longrightarrow>
         of_int (live_window_points w polling_interval) * polling_interval < of_int (live_buffer_max_age_seconds w polling_interval) + 1)"
proof -
  let ?p = "live_window_points w polling_interval"
  have p: "?p = max 1 (min \<lfloor>of_int w / polling_interval\<rfloor> 1800)"
    using assms by (simp add: live_window_points_def Let_def LIVE_BUFFER_MAX_POINTS_def)
  have "of_int ?p * polling_interval < of_int (live_buffer_max_age_seconds w polling_interval) + 1" if "1 < ?p"
  proof -
    from that p have "?p \<le> \<lfloor>of_int w / polling_interval\<rfloor>" by linarith
    then have "of_int ?p \<le> of_int w / polling_interval" by linarith
    then have "of_int ?p * polling_interval \<le> of_int w" using assms by (simp add: pos_le_divide_eq)
    also have "(of_int w :: rat) \<le> max (of_int w) (of_nat BROADCAST_POINTS * polling_interval)" by simp
    also have "\<dots> < of_int (live_buffer_max_age_seconds w polling_interval) + 1"
      unfolding live_buffer_max_age_seconds_def by linarith
    finally show ?thesis .
  qed
  moreover have "1 \<le> ?p" "?p \<le> 1800" unfolding p by linarith+
  ultimately show ?thesis by blast
qed

text \<open>
  The smoothing is described as an exponential moving average; the previous value it mixes in is the previous raw
  sample, so a point depends on two samples only, and more on the older one.
\<close>

lemma smoothing_forgets:
  assumes "dget (bf_last_raw b) k = Some (VInt c, VInt m, VInt n)"
    and "\<bar>c\<bar> < 100" "\<bar>m\<bar> < 100" "\<bar>n\<bar> < 100" "\<bar>c'\<bar> < 100" "\<bar>m'\<bar> < 100" "\<bar>n'\<bar> < 100"
  shows "map_sum id (\<lambda>b'. (map_option (sp_cpu_percent \<circ> last) (dget (bf_history b') k), dget (bf_last_raw b') k))
      (add_stats now k (VInt c') (VInt m') (VInt n') u l b) =
    Inr (Some (VFloat (Fin (3 / 10 * of_int c' + 7 / 10 * of_int c))), Some (VInt c', VInt m', VInt n'))"
proof -
  have big: "(2::int) ^ 970 + 100 \<le> 2 ^ 1024" by simp
  have f: "as_float (VInt x) = Some (Fin (of_int x))" if "\<bar>x\<bar> < 100" for x
    using that big by (simp add: as_float_def to_float_def)
  show ?thesis using assms
    by (simp add: add_stats_def Let_def smooth_def f EMA_ALPHA_def ring_append_def LIVE_BUFFER_MAX_POINTS_def last_drop split: option.split)
qed

text \<open>A first sample that is no number is stored as it is; every later sample of the container then raises.\<close>

lemma bad_first_sample_blocks:
  assumes "dget (bf_last_raw b) k = Some (VStr s, m, n)"
  shows "\<exists>b'. add_stats now k c' m' n' u l b = Inl b' \<and> dget (bf_last_raw b') k = Some (VStr s, m, n)"
  using assms by (simp add: add_stats_def Let_def smooth_def as_float_def split: option.split)

end
