(* ===== verification/AgentMessages.thy ===== *)
theory AgentMessages
  imports StatsHistory AutoRestart HealthCheck
begin

text \<open>
  What the server does with the messages of an agent (\<open>backend/agent/websocket_handler.py\<close>) and what it sends about
  health checks (\<open>health_check_sync.py\<close>): routing, container events, container statistics, results of health checks.
  A message is a JSON object; ids of containers are texts.
\<close>

section \<open>Routing\<close>

datatype route =
    ToExecutor pyval \<comment> \<open>the message with its correlation id\<close>
  | SystemStats | Progress | AgentError | Heartbeat
  | AgentEvent string pyval \<comment> \<open>the handler of an event and its payload\<close>
  | UnknownEvent | UnknownType

definition event_handlers :: "(string \<times> string) list" where
  "event_handlers = [(''container_event'', ''_handle_container_event''), (''container_stats'', ''_handle_container_stats''),
     (''health_check_result'', ''_handle_health_check_result''), (''update_progress'', ''_handle_update_progress''),
     (''update_layer_progress'', ''_handle_update_layer_progress''), (''update_complete'', ''_handle_update_complete''),
     (''selfupdate_progress'', ''_handle_selfupdate_progress''), (''deploy_progress'', ''_handle_deploy_progress''),
     (''deploy_complete'', ''_handle_deploy_complete''), (''shell_data'', ''_handle_shell_data'')]"

definition route_message :: "(pyval \<times> pyval) list \<Rightarrow> route" where
  "route_message message =
     (let msg_type = map_of message (VStr ''type'');
          has = (\<lambda>k. map_of message (VStr k) \<noteq> None)
      in if has ''correlation_id'' \<or> (has ''id'' \<and> msg_type = Some (VStr ''response'')) then
           ToExecutor (VDict (if has ''id'' \<and> \<not> has ''correlation_id''
             then dset (VStr ''correlation_id'') (the (map_of message (VStr ''id''))) message else message))
         else if msg_type = Some (VStr ''stats'') then SystemStats
         else if msg_type = Some (VStr ''progress'') then Progress
         else if msg_type = Some (VStr ''error'') then AgentError
         else if msg_type = Some (VStr ''heartbeat'') then Heartbeat
         else if msg_type = Some (VStr ''event'') then
           (let payload = vget_or (VDict message) ''payload'' (VDict []) in
            case map_of message (VStr ''command'') of
              Some (VStr c) \<Rightarrow> (case map_of event_handlers c of Some h \<Rightarrow> AgentEvent h payload | None \<Rightarrow> UnknownEvent)
            | _ \<Rightarrow> UnknownEvent)
         else UnknownType)"

definition truncate_container_id :: "string option \<Rightarrow> string" where
  "truncate_container_id container_id = (case container_id of None \<Rightarrow> []
     | Some c \<Rightarrow> if length c > 12 then take 12 c else c)"

section \<open>Container events\<close>

record agent_event =
  ae_action :: "string option"
  ae_container_id :: "string option"
  ae_attributes :: "(string, string) pydict option" \<comment> \<open>\<open>None\<close>: JSON \<open>null\<close>; an absent key reads as the empty object\<close>

definition event_type_map :: "(string \<times> docker_bus_type) list" where
  "event_type_map = [(''start'', BUS_STARTED), (''restart'', BUS_RESTARTED), (''destroy'', BUS_DELETED)]"

definition state_map :: "(string \<times> string) list" where
  "state_map = [(''start'', ''running''), (''stop'', ''exited''), (''die'', ''exited''), (''kill'', ''exited''),
     (''pause'', ''paused''), (''unpause'', ''running''), (''restart'', ''running'')]"

text \<open>Bus type, new state and exit code; \<open>None\<close>: the event is not mapped or \<open>attributes.get\<close> raises.\<close>

definition read_agent_action :: "agent_event \<Rightarrow> (docker_bus_type \<times> string option \<times> int option) option" where
  "read_agent_action ev = (case ae_action ev of
      None \<Rightarrow> None
    | Some action \<Rightarrow>
        if action = ''die'' then
          (case ae_attributes ev of None \<Rightarrow> None
           | Some a \<Rightarrow>
               let exit_code = (case dget a ''exitCode'' of None \<Rightarrow> 0
                     | Some s \<Rightarrow> (case py_int s of Some n \<Rightarrow> n | None \<Rightarrow> 0))
               in Some (if exit_code = 0 then BUS_STOPPED else BUS_DIED,
                        Some (if exit_code = 0 then ''stopped'' else ''exited''), Some exit_code))
        else map_option (\<lambda>t. (t, map_of state_map action, None)) (map_of event_type_map action))"

definition handle_agent_container_event :: "time \<Rightarrow> string \<Rightarrow> agent_event \<Rightarrow> monitor \<Rightarrow> monitor" where
  "handle_agent_container_event now host_id ev m =
     (let container_id = truncate_container_id (ae_container_id ev) in
      if container_id = [] then m
      else case read_agent_action ev of
          None \<Rightarrow> m
        | Some (event_type, new_state, exit_code) \<Rightarrow>
            (case make_composite_key host_id container_id of
               Inl e \<Rightarrow> m
             | Inr composite_key \<Rightarrow>
                 let m = (case new_state of None \<Rightarrow> m
                       | Some s \<Rightarrow> m\<lparr>mo_states := dset composite_key s (mo_states m),
                             mo_stamps := dset composite_key now (mo_stamps m),
                             mo_sources := dset composite_key FromEvent (mo_sources m)\<rparr>)
                 in m\<lparr>mo_bus := \<lparr>db_type = event_type, db_scope_id = composite_key, db_new_state = new_state,
                        db_old_state = None, db_exit_code = exit_code\<rparr> # mo_bus m\<rparr>))"

section \<open>Statistics\<close>

definition byte_counter :: "pyval \<Rightarrow> int option" where
  \<comment> \<open>\<open>_byte_counter\<close>: a boolean is an \<open>int\<close> for Python, so it is excluded first; \<open>int\<close> drops the fraction\<close>
  "byte_counter value = (case value of
      VInt n \<Rightarrow> if n < 0 \<or> n \<ge> 2 ^ 64 then None else Some n
    | VFloat (Fin x) \<Rightarrow> if x < 0 \<or> x \<ge> 2 ^ 64 then None else Some \<lfloor>x\<rfloor>
    | _ \<Rightarrow> None)"

record agent_feed =
  af_prev :: "(string, int \<times> int \<times> time) pydict" \<comment> \<open>\<open>prev_network_stats\<close> of the connection\<close>
  af_cache :: "(string, pyval) pydict" \<comment> \<open>\<open>agent_container_stats_cache\<close>\<close>
  af_buffer :: stats_buffer \<comment> \<open>\<open>container_stats_history\<close>\<close>
  af_sent :: "(string \<times> pyval) list" \<comment> \<open>broadcasts of \<open>container_stats\<close>, latest first\<close>

text \<open>Bytes per second of the two directions since the previous sample; times are microseconds.\<close>

definition rate :: "int \<Rightarrow> int \<Rightarrow> time \<Rightarrow> pyval" where
  "rate cur prev dt = VFloat (Fin (of_int (cur - prev) * 1000000 / of_int dt))"

definition network_rates :: "time \<Rightarrow> int option \<Rightarrow> int option \<Rightarrow> (int \<times> int \<times> time) option \<Rightarrow> pyval \<times> pyval \<times> pyval" where
  "network_rates now rx tx prev = (case (rx, tx, prev) of
      (Some r, Some t, Some (pr, pt, then_at)) \<Rightarrow>
        if now - then_at > 0 \<and> r \<ge> pr \<and> t \<ge> pt
        then (VFloat (Fin (of_int (r - pr) * 1000000 / of_int (now - then_at) + of_int (t - pt) * 1000000 / of_int (now - then_at))),
              rate r pr (now - then_at), rate t pt (now - then_at))
        else (VInt 0, VInt 0, VInt 0)
    | _ \<Rightarrow> (VInt 0, VInt 0, VInt 0))"

definition with_rates :: "(pyval \<times> pyval) list \<Rightarrow> int \<Rightarrow> int \<Rightarrow> pyval \<times> pyval \<times> pyval \<Rightarrow> pyval" where
  "with_rates stats rx tx rates = (case rates of (net_rate, rx_rate, tx_rate) \<Rightarrow>
     VDict (fold (\<lambda>(k, v) d. dset (VStr k) v d)
       [(''network_rx'', VInt rx), (''network_tx'', VInt tx), (''net_bytes_per_sec'', net_rate),
        (''net_rx_bytes_per_sec'', rx_rate), (''net_tx_bytes_per_sec'', tx_rate)] stats))"

definition handle_container_stats :: "time \<Rightarrow> string \<Rightarrow> string option \<Rightarrow> (pyval \<times> pyval) list \<Rightarrow> agent_feed \<Rightarrow> agent_feed" where
  "handle_container_stats now host_id given_id stats f =
     (let container_id = truncate_container_id given_id;
          get = (\<lambda>k d. vget_or (VDict stats) k d)
      in if container_id = [] then f
         else case make_composite_key host_id container_id of
             Inl e \<Rightarrow> f
           | Inr key \<Rightarrow>
               let rx = byte_counter (get ''network_rx'' (VInt 0));
                   tx = byte_counter (get ''network_tx'' (VInt 0));
                   usable = (rx \<noteq> None \<and> tx \<noteq> None);
                   net_rx = (if usable then the rx else 0);
                   net_tx = (if usable then the tx else 0);
                   rates = (if usable then network_rates now rx tx (dget (af_prev f) key) else (VInt 0, VInt 0, VInt 0));
                   f = f\<lparr>af_prev := (if usable then dset key (net_rx, net_tx, now) (af_prev f) else ddel key (af_prev f))\<rparr>
               in case add_stats now key (get ''cpu_percent'' (VFloat (Fin 0))) (get ''memory_percent'' (VFloat (Fin 0)))
                    (fst rates) (get ''memory_usage'' VNone) (get ''memory_limit'' VNone) (af_buffer f) of
                    Inl b \<Rightarrow> f\<lparr>af_buffer := b\<rparr>
                  | Inr b \<Rightarrow>
                      let full = with_rates stats net_rx net_tx rates
                      in f\<lparr>af_buffer := b, af_cache := dset key full (af_cache f), af_sent := (key, full) # af_sent f\<rparr>)"

section \<open>Health checks\<close>

record health_result =
  hr_container_id :: "string option"
  hr_healthy :: bool
  hr_response_time_ms :: int
  hr_error_message :: "string option"
  hr_check_time :: time \<comment> \<open>the time of the message, or the current time\<close>

definition record_agent_outcome :: "time \<Rightarrow> health_result \<Rightarrow> check_row \<Rightarrow> check_row" where
  \<comment> \<open>\<open>updated_at\<close> is set to the time of the commit by the column\<close>
  "record_agent_outcome now r c =
     (let c = c\<lparr>h_last_checked_at := Some (hr_check_time r), h_last_response_time_ms := Some (hr_response_time_ms r)\<rparr>;
          c = (if hr_healthy r then
                 (let c = c\<lparr>h_last_success_at := Some (hr_check_time r),
                       h_consecutive_successes := h_consecutive_successes c + 1, h_consecutive_failures := 0,
                       h_last_error_message := None\<rparr>
                  in if h_consecutive_successes c \<ge> h_success_threshold c \<and> h_current_status c \<noteq> ''healthy''
                     then c\<lparr>h_current_status := ''healthy''\<rparr> else c)
               else
                 (let c = c\<lparr>h_last_failure_at := Some (hr_check_time r),
                       h_consecutive_failures := h_consecutive_failures c + 1, h_consecutive_successes := 0,
                       h_last_error_message := hr_error_message r\<rparr>
                  in if h_consecutive_failures c \<ge> h_failure_threshold c \<and> h_current_status c \<noteq> ''unhealthy''
                     then c\<lparr>h_current_status := ''unhealthy''\<rparr> else c))
      in c\<lparr>h_updated_at := now\<rparr>)"

definition agent_restart_due :: "health_result \<Rightarrow> check_row \<Rightarrow> bool" where
  "agent_restart_due r c = (\<not> hr_healthy r \<and> h_consecutive_failures c + 1 \<ge> h_failure_threshold c
     \<and> h_current_status c \<noteq> ''unhealthy'' \<and> h_auto_restart_on_failure c)"

text \<open>The class that the handler imports and the one that the module defines.\<close>

definition operations_classes :: "string list" where
  "operations_classes = [''ContainerOperations'']"

definition trigger_agent_restart :: "time \<Rightarrow> string \<Rightarrow> string \<Rightarrow> string \<Rightarrow> checker \<Rightarrow> checker" where
  \<comment> \<open>a name that the module lacks is an \<open>ImportError\<close>, which is logged\<close>
  "trigger_agent_restart now host_id key short_id k =
     (if ''DockerOperations'' \<notin> set operations_classes then k
      else k\<lparr>k_restarts := k_restarts k @ [\<lparr>rr_container_id = key, rr_host_id = host_id, rr_short_id = short_id, rr_at = now\<rparr>]\<rparr>)"

definition handle_health_check_result :: "time \<Rightarrow> string \<Rightarrow> health_result \<Rightarrow> checker \<Rightarrow> checker" where
  "handle_health_check_result now host_id r k =
     (let container_id = truncate_container_id (hr_container_id r) in
      if container_id = [] then k
      else case make_composite_key host_id container_id of
          Inl e \<Rightarrow> k
        | Inr key \<Rightarrow>
            (case dget (k_rows k) key of
               None \<Rightarrow> k
             | Some c \<Rightarrow>
                 let k = k\<lparr>k_rows := dset key (record_agent_outcome now r c) (k_rows k)\<rparr>
                 in if agent_restart_due r c then trigger_agent_restart now host_id key container_id k else k))"

text \<open>What the agent is sent: at a connection all its checks, but nothing when there are none.\<close>

definition sync_health_check_configs :: "string \<Rightarrow> checker \<Rightarrow> (string \<times> check_row) list option" where
  "sync_health_check_configs host_id k =
     (let configs = filter (\<lambda>(key, c). h_host_id c = host_id \<and> h_check_from c = ''agent'') (k_rows k)
      in if host_id = [] \<or> configs = [] then None
         else Some (map (\<lambda>(key, c). (last (split_on (CHR '':'') key), c)) configs))"

text \<open>The methods of the connection manager; the two functions call one that it lacks.\<close>

definition connection_manager_methods :: "string list" where
  "connection_manager_methods = [''register_connection'', ''unregister_connection'', ''send_command'', ''is_connected'',
     ''get_connected_agent_ids'', ''get_connection_count'']"

datatype config_message = SendConfig string check_row | SendRemove string

definition push_health_check_config_to_agent :: "string \<Rightarrow> string \<Rightarrow> bool \<Rightarrow> checker \<Rightarrow> config_message list" where
  \<comment> \<open>\<open>agent\<close>: the host has a connected agent; an \<open>AttributeError\<close> is logged\<close>
  "push_health_check_config_to_agent host_id container_id agent k =
     (if ''get_agent_for_host'' \<notin> set connection_manager_methods \<or> \<not> agent then []
      else (case dget (k_rows k) (host_id @ '':'' @ container_id) of
          None \<Rightarrow> []
        | Some c \<Rightarrow> if h_check_from c \<noteq> ''agent'' then [] else [SendConfig container_id c]))"

definition remove_health_check_config_from_agent :: "string \<Rightarrow> string \<Rightarrow> bool \<Rightarrow> config_message list" where
  "remove_health_check_config_from_agent host_id container_id agent =
     (if ''get_agent_for_host'' \<notin> set connection_manager_methods \<or> \<not> agent then [] else [SendRemove container_id])"

section \<open>Laws of the statistics\<close>

definition counter_value :: "pyval \<Rightarrow> bool" where
  "counter_value v = (case v of VInt n \<Rightarrow> 0 \<le> n \<and> n < 2 ^ 64 | _ \<Rightarrow> False)"

definition rate_value :: "pyval \<Rightarrow> bool" where
  "rate_value v = (case v of VInt n \<Rightarrow> n = 0 | VFloat (Fin x) \<Rightarrow> 0 \<le> x | _ \<Rightarrow> False)"

definition network_typed :: "pyval \<Rightarrow> bool" where
  "network_typed v = ((\<forall>k \<in> {''network_rx'', ''network_tx''}. \<exists>c. vget v k = Some c \<and> counter_value c)
     \<and> (\<forall>k \<in> {''net_bytes_per_sec'', ''net_rx_bytes_per_sec'', ''net_tx_bytes_per_sec''}. \<exists>c. vget v k = Some c \<and> rate_value c))"

lemma byte_counter_range: "byte_counter v = Some n \<Longrightarrow> 0 \<le> n \<and> n < 2 ^ 64"
  by (auto simp: byte_counter_def floor_less_iff split: pyval.splits pyfloat.splits if_splits)

lemma network_rates_typed:
  assumes "network_rates now rx tx prev = (a, b, c)"
  shows "rate_value a \<and> rate_value b \<and> rate_value c"
proof -
  have "0 \<le> of_int (x - y) * 1000000 / rat_of_int dt" if "y \<le> x" "0 < dt" for x y dt :: int
    using that by (intro divide_nonneg_pos mult_nonneg_nonneg) simp_all
  then show ?thesis using assms
    by (auto simp: network_rates_def rate_def rate_value_def intro!: add_nonneg_nonneg split: option.splits if_splits)
qed

lemma network_typed_with_rates:
  assumes "0 \<le> rx" "rx < 2 ^ 64" "0 \<le> tx" "tx < 2 ^ 64" "rate_value a" "rate_value b" "rate_value c"
  shows "network_typed (with_rates stats rx tx (a, b, c))"
  using assms by (simp add: network_typed_def with_rates_def counter_value_def)

datatype stats_message = StatsMessage time string "string option" "(pyval \<times> pyval) list"

fun feed_step :: "agent_feed \<Rightarrow> stats_message \<Rightarrow> agent_feed" where
  "feed_step f (StatsMessage now host_id i stats) = handle_container_stats now host_id i stats f"

definition feed_typed :: "agent_feed \<Rightarrow> bool" where
  "feed_typed f = ((\<forall>k v. dget (af_cache f) k = Some v \<longrightarrow> network_typed v) \<and> list_all (\<lambda>(k, v). network_typed v) (af_sent f))"

definition new_feed :: agent_feed where
  "new_feed = \<lparr>af_prev = [], af_cache = [], af_buffer = new_buffer, af_sent = []\<rparr>"

lemma feed_typed_step:
  assumes "feed_typed f"
  shows "feed_typed (handle_container_stats now host_id i stats f)"
proof (cases "truncate_container_id i = []")
  case False
  show ?thesis
  proof (cases "make_composite_key host_id (truncate_container_id i)")
    case (Inr key)
    define rx where "rx = byte_counter (vget_or (VDict stats) ''network_rx'' (VInt 0))"
    define tx where "tx = byte_counter (vget_or (VDict stats) ''network_tx'' (VInt 0))"
    define rates where "rates = (if rx \<noteq> None \<and> tx \<noteq> None then network_rates now rx tx (dget (af_prev f) key) else (VInt 0, VInt 0, VInt 0))"
    define nr where "nr = (if rx \<noteq> None \<and> tx \<noteq> None then the rx else 0)"
    define nt where "nt = (if rx \<noteq> None \<and> tx \<noteq> None then the tx else 0)"
    obtain a b c where abc: "rates = (a, b, c)" by (cases rates)
    have "rate_value a \<and> rate_value b \<and> rate_value c"
      using abc network_rates_typed by (auto simp: rates_def rate_value_def split: if_splits)
    moreover have "0 \<le> nr \<and> nr < 2 ^ 64" "0 \<le> nt \<and> nt < 2 ^ 64"
      using byte_counter_range by (auto simp: nr_def nt_def rx_def tx_def)
    ultimately have t: "network_typed (with_rates stats nr nt rates)" using abc network_typed_with_rates by simp
    define r where "r = add_stats now key (vget_or (VDict stats) ''cpu_percent'' (VFloat (Fin 0)))
      (vget_or (VDict stats) ''memory_percent'' (VFloat (Fin 0))) (fst rates) (vget_or (VDict stats) ''memory_usage'' VNone)
      (vget_or (VDict stats) ''memory_limit'' VNone) (af_buffer f)"
    define p where "p = (if rx \<noteq> None \<and> tx \<noteq> None then dset key (nr, nt, now) (af_prev f) else ddel key (af_prev f))"
    have "handle_container_stats now host_id i stats f = (case r of
        Inl b \<Rightarrow> f\<lparr>af_prev := p, af_buffer := b\<rparr>
      | Inr b \<Rightarrow> f\<lparr>af_prev := p, af_buffer := b, af_cache := dset key (with_rates stats nr nt rates) (af_cache f),
            af_sent := (key, with_rates stats nr nt rates) # af_sent f\<rparr>)"
      unfolding handle_container_stats_def Let_def Inr sum.case if_not_P [OF False] rx_def [symmetric] tx_def [symmetric]
        nr_def [symmetric] nt_def [symmetric] rates_def [symmetric] p_def [symmetric]
      by (simp add: r_def split: sum.split)
    with assms t show ?thesis by (cases r) (simp_all add: feed_typed_def)
  qed (use assms False in \<open>simp add: handle_container_stats_def\<close>)
qed (use assms in \<open>simp add: handle_container_stats_def\<close>)

interpretation feed: machine feed_step feed_typed
  by unfold_locales (metis feed_step.simps feed_typed_step stats_message.exhaust)

text \<open>C33: Whatever JSON values an agent sends, in every cached and broadcast statistics object the two network counters are
  integers from 0 to 2^64 - 1 and the three rates are zero or finite non-negative numbers.
\<close>

theorem network_statistics_are_typed:
  shows "list_all (\<lambda>(k, v). network_typed v) (af_sent (run feed_step new_feed ms))
    \<and> pred_option network_typed (dget (af_cache (run feed_step new_feed ms)) key)"
proof -
  have "feed_typed (run feed_step new_feed ms)"
    by (rule feed.run_inv) (simp add: feed_typed_def new_feed_def)
  then show ?thesis by (auto simp: feed_typed_def pred_option_def)
qed

section \<open>The two paths of container events\<close>

definition as_docker :: "string \<Rightarrow> string \<Rightarrow> agent_event \<Rightarrow> docker_event" where
  "as_docker host_id name ev = \<lparr>de_action = (case ae_action ev of None \<Rightarrow> [] | Some a \<Rightarrow> a),
     de_container_id = truncate_container_id (ae_container_id ev), de_container_name = name, de_host_id = host_id,
     de_attributes = ae_attributes ev\<rparr>"

definition exit_code_readable :: "agent_event \<Rightarrow> bool" where
  "exit_code_readable ev = (case ae_attributes ev of None \<Rightarrow> False
     | Some a \<Rightarrow> (case dget a ''exitCode'' of None \<Rightarrow> True | Some s \<Rightarrow> py_int s \<noteq> None))"

text \<open>Proved as well: For starts, restarts and deaths with a readable exit code, the event of an agent leaves the same tracked state
  and emits the same bus event - but for the old state - as the Docker event of a host without agent.
\<close>

theorem agent_and_docker_events_agree:
  assumes "ae_action ev \<in> {Some ''start'', Some ''restart'', Some ''die''}" and "exit_code_readable ev" and "mo_alerts_on m"
    and "make_composite_key host_id (truncate_container_id (ae_container_id ev)) = Inr key"
  shows "\<exists>m'. alert_part now (as_docker host_id name ev) m = Inr m'
    \<and> mo_states (handle_agent_container_event now host_id ev m) = mo_states m'
    \<and> mo_stamps (handle_agent_container_event now host_id ev m) = mo_stamps m'
    \<and> mo_sources (handle_agent_container_event now host_id ev m) = mo_sources m'
    \<and> map (db_old_state_update (\<lambda>_. None)) (mo_bus (handle_agent_container_event now host_id ev (m\<lparr>mo_bus := []\<rparr>)))
      = [db_old_state_update (\<lambda>_. None) (hd (mo_bus m'))]"
proof -
  obtain a where attrs: "ae_attributes ev = Some a" and code: "dget a ''exitCode'' = None \<or> (\<exists>s n. dget a ''exitCode'' = Some s \<and> py_int s = Some n)"
    using assms(2) by (auto simp: exit_code_readable_def split: option.splits)
  have c: "truncate_container_id (ae_container_id ev) \<noteq> []" using assms(4) by (auto simp: make_composite_key_Inr)
  note defs = alert_part_def as_docker_def handle_agent_container_event_def read_action_def read_agent_action_def
    track_event_def event_type_map_def state_map_def Let_def
  from assms(1) consider "ae_action ev = Some ''start''" | "ae_action ev = Some ''restart''" | "ae_action ev = Some ''die''" by blast
  then show ?thesis
  proof cases
    case 3
    with code show ?thesis using assms(3,4) attrs c by (elim disjE exE conjE) (simp_all add: defs)
  qed (use assms(3,4) attrs c in \<open>simp_all add: defs\<close>)
qed

definition demo_agent_event :: "string \<Rightarrow> string \<Rightarrow> agent_event" where
  "demo_agent_event action code = \<lparr>ae_action = Some action, ae_container_id = Some ''0123456789abcdef'', ae_attributes = Some [(''exitCode'', code)]\<rparr>"

lemma agent_and_docker_events_agree_witness:
  "mo_states (handle_agent_container_event 7 ''h1'' (demo_agent_event ''die'' ''137'') (init_monitor \<lparr>max_retries = 3, default_auto_restart = False\<rparr> []))
     = [(''h1:0123456789ab'', ''exited'')]"
proof -
  let ?m = "init_monitor \<lparr>max_retries = 3, default_auto_restart = False\<rparr> []"
  have "exit_code_readable (demo_agent_event ''die'' ''137'')" by code_simp
  moreover have "make_composite_key ''h1'' (truncate_container_id (ae_container_id (demo_agent_event ''die'' ''137''))) = Inr ''h1:0123456789ab''" by code_simp
  ultimately obtain m' where "alert_part 7 (as_docker ''h1'' ''web'' (demo_agent_event ''die'' ''137'')) ?m = Inr m'"
    "mo_states (handle_agent_container_event 7 ''h1'' (demo_agent_event ''die'' ''137'') ?m) = mo_states m'"
    using agent_and_docker_events_agree [of "demo_agent_event ''die'' ''137''" ?m "''h1''" "''h1:0123456789ab''" 7 "''web''"]
    by (auto simp: demo_agent_event_def init_monitor_def)
  moreover have "map_sum mo_states mo_states (alert_part 7 (as_docker ''h1'' ''web'' (demo_agent_event ''die'' ''137'')) ?m) = Inr [(''h1:0123456789ab'', ''exited'')]"
    by code_simp
  ultimately show ?thesis by simp
qed

text \<open>An unreadable exit code is a crash on one path and a clean stop on the other.\<close>

lemma unreadable_exit_code_disagrees:
  "map db_type (mo_bus (handle_agent_container_event 0 ''h1'' (demo_agent_event ''die'' ''?'') (init_monitor \<lparr>max_retries = 3, default_auto_restart = False\<rparr> []))) = [BUS_STOPPED]
   \<and> map db_type (mo_bus (handle_docker_event 0 True (as_docker ''h1'' ''web'' (demo_agent_event ''die'' ''?'')) (init_monitor \<lparr>max_retries = 3, default_auto_restart = False\<rparr> []))) = [BUS_DIED]"
  by code_simp

text \<open>Four entries of the state map are never read, an agent's \<open>oom\<close> and health events are dropped, and a removed
  container keeps its tracked state.\<close>

lemma unmapped_agent_events_are_dropped:
  assumes "ae_action ev \<in> {Some ''stop'', Some ''kill'', Some ''pause'', Some ''unpause'', Some ''oom'', Some ''health_status''}"
  shows "handle_agent_container_event now host_id ev m = m"
  using assms by (auto simp: handle_agent_container_event_def read_agent_action_def event_type_map_def Let_def)

lemma agent_destroy_keeps_state:
  "mo_states (handle_agent_container_event now host_id (ev\<lparr>ae_action := Some ''destroy''\<rparr>) m) = mo_states m"
  by (auto simp: handle_agent_container_event_def read_agent_action_def event_type_map_def state_map_def Let_def split: sum.split)

section \<open>The two paths of health checks\<close>

text \<open>Proved as well: A result of an agent moves the counters and the debounced status of a check exactly as a probe of the server
  with the same verdict does.
\<close>

theorem agent_results_debounce_alike:
  assumes "pr_is_healthy p = hr_healthy r"
  shows "h_current_status (record_agent_outcome now r c) = h_current_status (record_outcome now' (h_current_status c) p c)
    \<and> h_consecutive_successes (record_agent_outcome now r c) = h_consecutive_successes (record_outcome now' (h_current_status c) p c)
    \<and> h_consecutive_failures (record_agent_outcome now r c) = h_consecutive_failures (record_outcome now' (h_current_status c) p c)"
  using assms by (auto simp: record_agent_outcome_def record_outcome_def Let_def)

definition demo_check :: check_row where
  "demo_check = \<lparr>h_host_id = ''h1'', h_enabled = True, h_check_from = ''agent'', h_current_status = ''healthy'',
     h_consecutive_successes = 4, h_consecutive_failures = 0, h_last_success_at = None, h_last_failure_at = None,
     h_last_error_message = None, h_last_checked_at = None, h_last_response_time_ms = None, h_auto_restart_on_failure = True,
     h_failure_threshold = 1, h_success_threshold = 1, h_max_restart_attempts = 3, h_restart_retry_delay_seconds = 0, h_updated_at = 0\<rparr>"

definition demo_failure :: health_result where
  "demo_failure = \<lparr>hr_container_id = Some ''0123456789ab'', hr_healthy = False, hr_response_time_ms = 3, hr_error_message = Some ''refused'', hr_check_time = 5\<rparr>"

lemma agent_results_debounce_alike_witness:
  "h_current_status (record_agent_outcome 5 demo_failure demo_check) =
     h_current_status (record_outcome 5 (h_current_status demo_check) \<lparr>pr_is_healthy = False, pr_response_time_ms = 3, pr_error_message = None\<rparr> demo_check)"
  by (rule agent_results_debounce_alike [THEN conjunct1]) (simp add: demo_failure_def)

text \<open>An agent-side check never restarts its container: the class that the handler imports does not exist. Nor is there an event.\<close>

lemma agent_checks_never_restart:
  "k_restarts (handle_health_check_result now host_id r k) = k_restarts k \<and> k_events (handle_health_check_result now host_id r k) = k_events k"
  by (auto simp: handle_health_check_result_def trigger_agent_restart_def operations_classes_def Let_def split: sum.split option.split)

lemma agent_restart_was_due:
  "agent_restart_due demo_failure demo_check
   \<and> map (h_current_status \<circ> snd) (k_rows (handle_health_check_result 5 ''h1'' demo_failure (new_checker\<lparr>k_rows := [(''h1:0123456789ab'', demo_check)]\<rparr>))) = [''unhealthy'']"
  by code_simp

text \<open>Changes of a check never reach a connected agent, and when the last check of a host was deleted, neither does the
  synchronization at the next connection: the agent keeps the check.\<close>

lemma config_changes_never_reach_agents:
  "push_health_check_config_to_agent host_id container_id agent k = [] \<and> remove_health_check_config_from_agent host_id container_id agent = []"
  by (simp add: push_health_check_config_to_agent_def remove_health_check_config_from_agent_def connection_manager_methods_def)

lemma last_check_is_not_withdrawn:
  assumes "\<And>key c. (key, c) \<in> set (k_rows k) \<Longrightarrow> h_check_from c \<noteq> ''agent''"
  shows "sync_health_check_configs host_id k = None"
proof -
  have "filter (\<lambda>(key, c). h_host_id c = host_id \<and> h_check_from c = ''agent'') (k_rows k) = []"
    using assms by (auto simp: filter_empty_conv)
  then show ?thesis by (simp add: sync_health_check_configs_def)
qed

text \<open>Only the network figures are checked: a \<open>NaN\<close> of another figure reaches the cache, and so the responses.\<close>

lemma nan_cpu_is_cached:
  "map_option (\<lambda>v. vget v ''cpu_percent'') (dget (af_cache (handle_container_stats 0 ''h1'' (Some ''0123456789ab'')
     [(VStr ''cpu_percent'', VFloat NaN)] new_feed)) ''h1:0123456789ab'') = Some (Some (VFloat NaN))"
  by code_simp

end
