(* ===== verification/PortConflict.thy ===== *)
theory PortConflict
  imports PyValue "HOL-Library.Product_Lexorder"
begin

text \<open>
  Host ports: how the discovery prints the bindings of a container (\<open>parse_container_ports\<close> of
  \<open>backend/docker_monitor/container_discovery.py\<close>), which ports a compose file asks for, and which of them collide
  (\<open>backend/deployment/port_conflict.py\<close>), and which hosts run a stack (\<open>container_utils.py\<close>). The document that the YAML library loads is a value.
\<close>

section \<open>Printing bindings\<close>

definition port_sort_key :: "string \<Rightarrow> int \<times> string" where
  "port_sort_key port_str =
     (case py_int (hd (split_on (CHR ''/'') (hd (split_on (CHR '':'') port_str)))) of
        Some n \<Rightarrow> (n, port_str) | None \<Rightarrow> (0, port_str))"

text \<open>A container port with the \<open>HostPort\<close> of its bindings; \<open>[]\<close> stands for the empty list and for \<open>null\<close>.\<close>

type_synonym port_bindings = "(string \<times> string list) list"

definition port_texts :: "string \<times> string list \<Rightarrow> string list" where
  "port_texts b = (case b of (container_port, host_ports) \<Rightarrow>
     if host_ports = [] then [container_port]
     else map (\<lambda>host_port. if host_port = [] then container_port else host_port @ '':'' @ container_port) host_ports)"

definition parse_container_ports :: "port_bindings \<Rightarrow> string list" where
  "parse_container_ports bindings = sort_key port_sort_key (remdups (concat (map port_texts bindings)))"

section \<open>Requested ports\<close>

record port_spec =
  ps_port :: int
  ps_protocol :: pyval

definition digits5 :: "string \<Rightarrow> bool" where
  "digits5 s = (s \<noteq> [] \<and> length s \<le> 5 \<and> list_all is_dec s)"

definition range5 :: "string \<Rightarrow> bool" where
  "range5 s = (case split_first (CHR ''-'') s of None \<Rightarrow> digits5 s | Some (a, b) \<Rightarrow> digits5 a \<and> digits5 b)"

definition dotted_quad :: "string \<Rightarrow> bool" where
  "dotted_quad s = (let ps = split_on (CHR ''.'') s in
     length ps = 4 \<and> list_all (\<lambda>p. p \<noteq> [] \<and> length p \<le> 3 \<and> list_all is_dec p) ps)"

text \<open>The two patterns end in an optional protocol; digits, dots and dashes hold no slash.\<close>

definition split_protocol :: "string \<Rightarrow> (string \<times> string) option" where
  "split_protocol e = (case split_first (CHR ''/'') e of
      None \<Rightarrow> Some (e, ''tcp'')
    | Some (body, p) \<Rightarrow> if p = ''tcp'' \<or> p = ''udp'' then Some (body, p) else None)"

definition specs_between :: "int \<Rightarrow> int \<Rightarrow> pyval \<Rightarrow> port_spec list" where
  "specs_between a b protocol = (if a > b then [] else map (\<lambda>p. \<lparr>ps_port = p, ps_protocol = protocol\<rparr>) [a..b])"

definition host_specs :: "string \<Rightarrow> string \<Rightarrow> port_spec list" where
  "host_specs host protocol = (case split_first (CHR ''-'') host of
      None \<Rightarrow> [\<lparr>ps_port = dec_val host, ps_protocol = VStr protocol\<rparr>]
    | Some (a, b) \<Rightarrow> specs_between (dec_val a) (dec_val b) (VStr protocol))"

definition parse_short_form :: "string \<Rightarrow> port_spec list" where
  "parse_short_form entry = (case split_protocol (strip entry) of
      None \<Rightarrow> []
    | Some (body, protocol) \<Rightarrow> (case split_on (CHR '':'') body of
          [host, container] \<Rightarrow> if range5 host \<and> range5 container then host_specs host protocol else []
        | [ip, host, container] \<Rightarrow>
            if dotted_quad ip \<and> range5 host \<and> range5 container then host_specs host protocol else []
        | _ \<Rightarrow> []))"

datatype port_error = InvalidPublished | UnhashableProtocol

text \<open>\<open>str\<close> of a value; the text of a float, a list, an object or a truth value is no integer literal.\<close>

definition published_text :: "pyval \<Rightarrow> string option" where
  "published_text v = (case v of VStr s \<Rightarrow> Some s | VInt n \<Rightarrow> Some (int_str n) | _ \<Rightarrow> None)"

definition parse_long_form :: "(pyval \<times> pyval) list \<Rightarrow> (port_error, port_spec list) res" where
  "parse_long_form entry = (case vget (VDict entry) ''published'' of
      None \<Rightarrow> Inr []
    | Some VNone \<Rightarrow> Inr []
    | Some published \<Rightarrow>
        let given = vget_or (VDict entry) ''protocol'' VNone;
            protocol = (if truthy given then given else VStr ''tcp'')
        in (case published_text published of
              None \<Rightarrow> Inl InvalidPublished
            | Some s \<Rightarrow> (case split_first (CHR ''-'') s of
                  Some (a, b) \<Rightarrow> (case (py_int a, py_int b) of
                      (Some x, Some y) \<Rightarrow> Inr (specs_between x y protocol) | _ \<Rightarrow> Inl InvalidPublished)
                | None \<Rightarrow> (case py_int s of Some n \<Rightarrow> Inr [\<lparr>ps_port = n, ps_protocol = protocol\<rparr>] | None \<Rightarrow> Inl InvalidPublished))))"

definition add_spec :: "port_spec \<Rightarrow> (port_error, port_spec list) res \<Rightarrow> (port_error, port_spec list) res" where
  "add_spec spec acc = res_bind acc (\<lambda>result.
     if is_list (ps_protocol spec) \<or> is_dict (ps_protocol spec) then Inl UnhashableProtocol
     else Inr (if spec \<in> set result then result else result @ [spec]))"

definition entry_specs :: "pyval \<Rightarrow> (port_error, port_spec list) res" where
  "entry_specs entry = (case entry of
      VDict e \<Rightarrow> parse_long_form e
    | VStr s \<Rightarrow> Inr (parse_short_form s)
    | _ \<Rightarrow> Inr [])" \<comment> \<open>the text of any other value has no colon followed by digits\<close>

fun service_entries :: "pyval \<Rightarrow> pyval list" where
  "service_entries (VDict s) = (case vget (VDict s) ''ports'' of Some (VList es) \<Rightarrow> es | _ \<Rightarrow> [])"
| "service_entries _ = []"

definition extract_ports :: "pyval \<Rightarrow> (port_error, port_spec list) res" where
  \<comment> \<open>\<open>extract_ports_from_compose\<close> after the document was loaded\<close>
  "extract_ports doc = (case vget doc ''services'' of
      Some (VDict services) \<Rightarrow>
        fold (\<lambda>entry acc. res_bind acc (\<lambda>result. res_bind (entry_specs entry) (\<lambda>specs. fold add_spec specs (Inr result))))
          (concat (map (service_entries \<circ> snd) services)) (Inr [])
    | _ \<Rightarrow> Inr [])"

section \<open>Conflicts\<close>

record port_container =
  pc_id :: string
  pc_name :: string
  pc_ports :: "string list"
  pc_labels :: "(string, string) pydict"

record conflict =
  cf_port :: int
  cf_protocol :: pyval
  cf_container_id :: string
  cf_container_name :: string

definition get_container_compose_project :: "port_container \<Rightarrow> string option" where
  "get_container_compose_project c = dget (pc_labels c) ''com.docker.compose.project''"

definition parse_cache_port :: "string \<Rightarrow> port_spec option" where
  "parse_cache_port entry = (case split_protocol (strip entry) of
      None \<Rightarrow> None
    | Some (body, protocol) \<Rightarrow> (case split_on (CHR '':'') body of
          [host, container] \<Rightarrow> if digits5 host \<and> digits5 container
            then Some \<lparr>ps_port = dec_val host, ps_protocol = VStr protocol\<rparr> else None
        | _ \<Rightarrow> None))"

definition excluded_container :: "string option \<Rightarrow> port_container \<Rightarrow> bool" where
  "excluded_container exclude_project c =
     (case exclude_project of None \<Rightarrow> False | Some p \<Rightarrow> p \<noteq> [] \<and> get_container_compose_project c = Some p)"

definition port_baseline :: "string option \<Rightarrow> port_container list \<Rightarrow> (port_spec, string \<times> string) pydict" where
  "port_baseline exclude_project containers =
     fold (\<lambda>(spec, v) d. dsetdefault spec v d)
       (concat (map (\<lambda>c. map (\<lambda>spec. (spec, (take 12 (pc_id c), pc_name c))) (List.map_filter parse_cache_port (pc_ports c)))
          (filter (\<lambda>c. \<not> excluded_container exclude_project c) containers))) []"

definition find_port_conflicts :: "port_spec list \<Rightarrow> port_container list \<Rightarrow> string option \<Rightarrow> conflict list" where
  "find_port_conflicts requested containers exclude_project =
     (let baseline = port_baseline exclude_project containers in
      List.map_filter (\<lambda>spec. map_option (\<lambda>(cid, cname). \<lparr>cf_port = ps_port spec, cf_protocol = ps_protocol spec,
          cf_container_id = cid, cf_container_name = cname\<rparr>) (dget baseline spec)) requested)"

section \<open>Reading back what was printed\<close>

lemma length_nat_str: "n < 10 ^ Suc k \<Longrightarrow> length (nat_str n) \<le> Suc k"
proof (induction k arbitrary: n)
  case 0
  then show ?case by (subst nat_str.simps) simp
next
  case (Suc k)
  show ?case
  proof (cases "n < 10")
    case True
    then show ?thesis by (subst nat_str.simps) simp
  next
    case False
    have "n div 10 < 10 ^ Suc k" using Suc.prems by (simp add: div_less_iff_less_mult)
    from Suc.IH [OF this] False show ?thesis by (subst nat_str.simps) simp
  qed
qed

lemma digits5_nat_str: "n < 100000 \<Longrightarrow> digits5 (nat_str n)"
  using length_nat_str [of n 4] nat_str_digits nat_str_not_Nil by (auto simp: digits5_def list_all_iff)

lemma dec_no_sep: "list_all is_dec s \<Longrightarrow> CHR '':'' \<notin> set s \<and> CHR ''/'' \<notin> set s \<and> CHR ''-'' \<notin> set s"
  by (auto simp: list_all_iff is_dec_def ccode_def)

lemma nat_str_dec: "list_all is_dec (nat_str n)"
  using nat_str_digits by (auto simp: list_all_iff)

lemma strip_printed:
  assumes "digits5 a" and "p = ''tcp'' \<or> p = ''udp''"
  shows "strip (a @ s @ p) = a @ s @ p"
proof (rule strip_id)
  show "a @ s @ p \<noteq> []" using assms by (auto simp: digits5_def)
  show "\<not> is_space (hd (a @ s @ p))"
    using assms(1) is_dec_not_space by (cases a) (auto simp: digits5_def)
  have "last (a @ s @ p) = CHR ''p''" using assms(2) by auto
  then show "\<not> is_space (last (a @ s @ p))" by (simp add: is_space_def ccode_def)
qed

text \<open>What Docker holds of a container: the host ports of its ports, as numbers.\<close>

type_synonym bindings = "((nat \<times> string) \<times> nat list) list"

definition keyed :: "bindings \<Rightarrow> port_bindings" where
  "keyed t = map (\<lambda>((cp, proto), hps). (nat_str cp @ ''/'' @ proto, map nat_str hps)) t"

definition well_formed_bindings :: "bindings \<Rightarrow> bool" where
  "well_formed_bindings t = list_all (\<lambda>((cp, proto), hps).
     cp < 65536 \<and> (proto = ''tcp'' \<or> proto = ''udp'' \<or> proto = ''sctp'') \<and> list_all (\<lambda>hp. hp < 65536) hps) t"

definition binds_port :: "bindings \<Rightarrow> port_spec \<Rightarrow> bool" where
  "binds_port t spec = list_ex (\<lambda>((cp, proto), hps). (proto = ''tcp'' \<or> proto = ''udp'') \<and> ps_protocol spec = VStr proto \<and>
     list_ex (\<lambda>hp. ps_port spec = int hp) hps) t"

lemma parse_printed_binding:
  assumes "hp < 65536" and "cp < 65536" and p: "p = ''tcp'' \<or> p = ''udp''"
  shows "parse_cache_port (nat_str hp @ CHR '':'' # nat_str cp @ CHR ''/'' # p) =
    Some \<lparr>ps_port = int hp, ps_protocol = VStr p\<rparr>"
proof -
  have h: "digits5 (nat_str hp)" and c: "digits5 (nat_str cp)" using assms by (auto intro: digits5_nat_str)
  note n = dec_no_sep [OF nat_str_dec]
  have s: "strip (nat_str hp @ CHR '':'' # nat_str cp @ CHR ''/'' # p) = nat_str hp @ CHR '':'' # nat_str cp @ CHR ''/'' # p"
    using strip_printed [OF h p, of "CHR '':'' # nat_str cp @ ''/''"] by simp
  have f: "split_first (CHR ''/'') (nat_str hp @ CHR '':'' # nat_str cp @ CHR ''/'' # p) = Some (nat_str hp @ CHR '':'' # nat_str cp, p)"
    using split_first_append [of "CHR ''/''" "nat_str hp @ CHR '':'' # nat_str cp" p] n by simp
  have o: "split_on (CHR '':'') (nat_str hp @ CHR '':'' # nat_str cp) = [nat_str hp, nat_str cp]"
    using n by (simp add: split_on_append split_on_no_sep)
  from s f o h c p show ?thesis by (auto simp: parse_cache_port_def split_protocol_def dec_val_nat_str)
qed

lemma parse_exposed_port:
  assumes "p = ''tcp'' \<or> p = ''udp''"
  shows "parse_cache_port (nat_str cp @ CHR ''/'' # p) = None"
proof -
  note n = dec_no_sep [OF nat_str_dec [of cp]]
  have h: "nat_str cp \<noteq> []" by (rule nat_str_not_Nil)
  have "\<not> is_space (hd (nat_str cp))" using nat_str_dec [of cp] h is_dec_not_space by (cases "nat_str cp") auto
  moreover have "\<not> is_space (last (nat_str cp @ CHR ''/'' # p))" using assms by (auto simp: is_space_def ccode_def)
  ultimately have "strip (nat_str cp @ CHR ''/'' # p) = nat_str cp @ CHR ''/'' # p" using h by (intro strip_id) auto
  moreover have "split_first (CHR ''/'') (nat_str cp @ CHR ''/'' # p) = Some (nat_str cp, p)"
    using n by (intro split_first_append) simp
  ultimately show ?thesis using assms n by (auto simp: parse_cache_port_def split_protocol_def split_on_no_sep)
qed

lemma parse_sctp:
  assumes "CHR ''/'' \<notin> set a" and "a \<noteq> []" and "\<not> is_space (hd a)"
  shows "parse_cache_port (a @ ''/sctp'') = None"
proof -
  have "strip (a @ ''/sctp'') = a @ ''/sctp''" using assms by (intro strip_id) (auto simp: is_space_def ccode_def)
  moreover have "split_first (CHR ''/'') (a @ CHR ''/'' # ''sctp'') = Some (a, ''sctp'')"
    using assms by (intro split_first_append) simp
  ultimately show ?thesis by (simp add: parse_cache_port_def split_protocol_def)
qed

lemma binding_specs:
  assumes "well_formed_bindings t"
  shows "(\<exists>e \<in> set (parse_container_ports (keyed t)). parse_cache_port e = Some spec) \<longleftrightarrow> binds_port t spec"
proof -
  have e: "set (parse_container_ports (keyed t)) = (\<Union>b \<in> set t. set (port_texts ((\<lambda>((cp, proto), hps). (nat_str cp @ ''/'' @ proto, map nat_str hps)) b)))"
    by (auto simp: parse_container_ports_def keyed_def)
  have "(\<exists>e \<in> set (port_texts (nat_str cp @ ''/'' @ proto, map nat_str hps)). parse_cache_port e = Some spec) \<longleftrightarrow>
      (proto = ''tcp'' \<or> proto = ''udp'') \<and> ps_protocol spec = VStr proto \<and> (\<exists>hp \<in> set hps. ps_port spec = int hp)"
    if b: "((cp, proto), hps) \<in> set t" for cp proto hps
  proof -
    from assms b have cp: "cp < 65536" and hp: "\<And>x. x \<in> set hps \<Longrightarrow> x < 65536"
      and p: "proto = ''tcp'' \<or> proto = ''udp'' \<or> proto = ''sctp''"
      by (auto simp: well_formed_bindings_def list_all_iff)
    have hd: "\<not> is_space (hd (nat_str n))" for n
      using nat_str_dec [of n] nat_str_not_Nil [of n] is_dec_not_space by (cases "nat_str n") auto
    show ?thesis
    proof (cases "proto = ''sctp''")
      case True
      have n: "parse_cache_port (nat_str cp @ ''/sctp'') = None"
        using dec_no_sep [OF nat_str_dec] hd nat_str_not_Nil by (intro parse_sctp) auto
      have m: "parse_cache_port ((nat_str x @ '':'' @ nat_str cp) @ ''/sctp'') = None" for x
        using dec_no_sep [OF nat_str_dec] hd nat_str_not_Nil by (intro parse_sctp) auto
      from True n m show ?thesis by (auto simp: port_texts_def nat_str_not_Nil)
    next
      case False
      with p have p': "proto = ''tcp'' \<or> proto = ''udp''" by simp
      have m: "parse_cache_port (nat_str x @ CHR '':'' # nat_str cp @ CHR ''/'' # proto) = Some \<lparr>ps_port = int x, ps_protocol = VStr proto\<rparr>"
        if "x \<in> set hps" for x using that hp cp p' by (intro parse_printed_binding) auto
      from p' m parse_exposed_port [OF p', of cp] show ?thesis
        by (cases spec) (force simp: port_texts_def nat_str_not_Nil)
    qed
  qed
  note one = this
  have "b \<in> set t \<Longrightarrow> (\<exists>e \<in> set (port_texts ((\<lambda>((cp, proto), hps). (nat_str cp @ ''/'' @ proto, map nat_str hps)) b)). parse_cache_port e = Some spec) \<longleftrightarrow>
      (\<lambda>((cp, proto), hps). (proto = ''tcp'' \<or> proto = ''udp'') \<and> ps_protocol spec = VStr proto \<and> list_ex (\<lambda>hp. ps_port spec = int hp) hps) b" for b
    using one by (cases b; cases "fst b") (simp add: list_ex_iff)
  then show ?thesis unfolding e binds_port_def list_ex_iff by blast
qed

lemma dget_first_wins:
  "dget (fold (\<lambda>(k, v) d. dsetdefault k v d) xs d) k = (case dget d k of Some v \<Rightarrow> Some v | None \<Rightarrow> map_of xs k)"
  by (induction xs arbitrary: d) (auto split: option.splits)

lemma first_of_groups:
  "map_of (concat (map (\<lambda>c. map (\<lambda>s. (s, v c)) (S c)) cs)) k = map_option v (List.find (\<lambda>c. k \<in> set (S c)) cs)"
proof -
  have "map_of (map (\<lambda>s. (s, w)) ys) k = (if k \<in> set ys then Some w else None)" for w and ys
    by (induction ys) auto
  note one = this
  show ?thesis by (induction cs) (simp_all add: map_of_append map_add_def one split: option.split)
qed

lemma map_filter_has: "x \<in> set (List.map_filter g ys) \<longleftrightarrow> (\<exists>y \<in> set ys. g y = Some x)"
  by (induction ys) (auto simp: map_filter_simps split: option.splits)

definition on_host :: "(string \<times> string \<times> (string, string) pydict \<times> bindings) \<Rightarrow> port_container" where
  "on_host c = (case c of (cid, cname, labels, t) \<Rightarrow>
     \<lparr>pc_id = cid, pc_name = cname, pc_ports = parse_container_ports (keyed t), pc_labels = labels\<rparr>)"

lemma on_host_ports:
  "well_formed_bindings t \<Longrightarrow> (\<exists>e \<in> set (pc_ports (on_host (i, n, l, t))). parse_cache_port e = Some spec) \<longleftrightarrow> binds_port t spec"
  using binding_specs [of t spec] by (simp add: on_host_def)

lemma baseline_finds:
  "dget (port_baseline x cs) spec = map_option (\<lambda>c. (take 12 (pc_id c), pc_name c))
     (List.find (\<lambda>c. \<not> excluded_container x c \<and> (\<exists>e \<in> set (pc_ports c). parse_cache_port e = Some spec)) cs)"
proof -
  have f: "List.find Q (filter P ys) = List.find (\<lambda>c. P c \<and> Q c) ys" for P Q and ys :: "port_container list"
    by (induction ys) auto
  show ?thesis
    unfolding port_baseline_def dget_first_wins first_of_groups f map_filter_has by simp
qed



lemma protocols_that_never_conflict:
  "let web = (\<lambda>p. on_host (''0123456789abcdef'', ''web'', [], [((80, p), [8080])]));
       asked = (\<lambda>p. case parse_long_form [(VStr ''published'', VInt 8080), (VStr ''protocol'', VStr p)] of Inr xs \<Rightarrow> xs | Inl _ \<Rightarrow> [])
   in find_port_conflicts (asked ''sctp'') [web ''sctp''] None = [] \<and> find_port_conflicts (asked ''TCP'') [web ''tcp''] None = []"
  by code_simp

section \<open>Deployed stacks\<close>

record stack_container =
  sc_labels :: "(string, string) pydict"
  sc_host_id :: "string option"
  sc_host_name :: "string option"

record host_info =
  hi_id :: string
  hi_name :: string

record stack_info =
  si_hosts :: "host_info list"
  si_services :: "string list"
  si_count :: nat

text \<open>\<open>host_name or host_id\<close>, for a container whose host id is set\<close>

definition host_info_of :: "stack_container \<Rightarrow> string \<Rightarrow> host_info" where
  "host_info_of c h = \<lparr>hi_id = h, hi_name = (case sc_host_name c of Some n \<Rightarrow> if n = [] then h else n | None \<Rightarrow> h)\<rparr>"

definition add_host :: "stack_container \<Rightarrow> host_info list \<Rightarrow> host_info list" where
  "add_host c hosts = (case sc_host_id c of
      None \<Rightarrow> hosts
    | Some h \<Rightarrow> if h \<noteq> [] \<and> \<not> list_ex (\<lambda>i. hi_id i = h) hosts then hosts @ [host_info_of c h] else hosts)"

definition get_container_compose_service :: "stack_container \<Rightarrow> string option" where
  "get_container_compose_service c = dget (sc_labels c) ''com.docker.compose.service''"

definition add_service :: "stack_container \<Rightarrow> string list \<Rightarrow> string list" where
  "add_service c services = (case get_container_compose_service c of
      None \<Rightarrow> services
    | Some s \<Rightarrow> if s \<noteq> [] \<and> s \<notin> set services then services @ [s] else services)"

definition scan_container :: "stack_container \<Rightarrow> (string, stack_info) pydict \<Rightarrow> (string, stack_info) pydict" where
  "scan_container c stacks = (case dget (sc_labels c) ''com.docker.compose.project'' of
      None \<Rightarrow> stacks
    | Some project \<Rightarrow>
        if project = [] then stacks
        else let stacks = dsetdefault project \<lparr>si_hosts = [], si_services = [], si_count = 0\<rparr> stacks;
                 stack = the (dget stacks project)
             in AList.update project \<lparr>si_hosts = add_host c (si_hosts stack), si_services = add_service c (si_services stack),
                  si_count = si_count stack + 1\<rparr> stacks)"

definition scan_deployed_stacks :: "stack_container list \<Rightarrow> (string, stack_info) pydict" where
  "scan_deployed_stacks containers = fold scan_container containers []"

definition get_deployed_hosts_for_stack :: "stack_container list \<Rightarrow> string \<Rightarrow> host_info list" where
  "get_deployed_hosts_for_stack containers stack_name =
     fst (fold (\<lambda>c (hosts, seen). if dget (sc_labels c) ''com.docker.compose.project'' \<noteq> Some stack_name then (hosts, seen)
        else (case sc_host_id c of
            None \<Rightarrow> (hosts, seen)
          | Some h \<Rightarrow> if h = [] \<or> h \<in> seen then (hosts, seen) else (hosts @ [host_info_of c h], insert h seen)))
        containers ([], {}))"

lemma scan_agrees:
  assumes "name \<noteq> []" and "seen = hi_id ` set hosts"
    and "hosts = (case dget stacks name of None \<Rightarrow> [] | Some i \<Rightarrow> si_hosts i)"
  shows "fst (fold (\<lambda>c (hosts, seen). if dget (sc_labels c) ''com.docker.compose.project'' \<noteq> Some name then (hosts, seen)
        else (case sc_host_id c of
            None \<Rightarrow> (hosts, seen)
          | Some h \<Rightarrow> if h = [] \<or> h \<in> seen then (hosts, seen) else (hosts @ [host_info_of c h], insert h seen)))
        cs (hosts, seen)) = (case dget (fold scan_container cs stacks) name of None \<Rightarrow> [] | Some i \<Rightarrow> si_hosts i)"
  using assms(2,3)
proof (induction cs arbitrary: hosts seen stacks)
  case (Cons c cs)
  have same: "dget (scan_container c stacks) name = dget stacks name"
    if "dget (sc_labels c) ''com.docker.compose.project'' \<noteq> Some name"
    using that by (auto simp: scan_container_def Let_def split: option.splits)
  have grown: "(case dget (scan_container c stacks) name of None \<Rightarrow> [] | Some i \<Rightarrow> si_hosts i) = add_host c hosts"
    if "dget (sc_labels c) ''com.docker.compose.project'' = Some name"
    using that assms(1) Cons.prems(2) by (simp add: scan_container_def Let_def split: option.splits)
  show ?case
  proof (cases "dget (sc_labels c) ''com.docker.compose.project'' = Some name")
    case False
    then show ?thesis using Cons.prems Cons.IH [of seen hosts "scan_container c stacks"] same by simp
  next
    case True
    let ?h = "add_host c hosts"
    have "fst (fold (\<lambda>c (hosts, seen). if dget (sc_labels c) ''com.docker.compose.project'' \<noteq> Some name then (hosts, seen)
        else (case sc_host_id c of
            None \<Rightarrow> (hosts, seen)
          | Some h \<Rightarrow> if h = [] \<or> h \<in> seen then (hosts, seen) else (hosts @ [host_info_of c h], insert h seen)))
        cs (?h, hi_id ` set ?h)) = (case dget (fold scan_container cs (scan_container c stacks)) name of None \<Rightarrow> [] | Some i \<Rightarrow> si_hosts i)"
      using grown [OF True] by (intro Cons.IH) auto
    moreover have "(case sc_host_id c of
            None \<Rightarrow> (hosts, seen)
          | Some h \<Rightarrow> if h = [] \<or> h \<in> seen then (hosts, seen) else (hosts @ [host_info_of c h], insert h seen)) = (?h, hi_id ` set ?h)"
      using Cons.prems(1) by (auto simp: add_host_def host_info_of_def list_ex_iff split: option.splits)
    ultimately show ?thesis using True by simp
  qed
qed simp

text \<open>Proved as well: The hosts of one stack are those that the scan of all stacks records for it, in the same order.\<close>
theorem stack_hosts_agree:
  assumes "name \<noteq> []"
  shows "get_deployed_hosts_for_stack containers name =
    (case dget (scan_deployed_stacks containers) name of None \<Rightarrow> [] | Some i \<Rightarrow> si_hosts i)"
  unfolding get_deployed_hosts_for_stack_def scan_deployed_stacks_def
  using assms by (intro scan_agrees) auto

theorem stack_hosts_agree_witness:
  "let c = \<lparr>sc_labels = [(''com.docker.compose.project'', ''shop'')], sc_host_id = Some ''h1'', sc_host_name = None\<rparr> in
   get_deployed_hosts_for_stack [c, c] ''shop'' = [\<lparr>hi_id = ''h1'', hi_name = ''h1''\<rparr>]
   \<and> dget (scan_deployed_stacks [c, c]) ''shop'' = Some \<lparr>si_hosts = [\<lparr>hi_id = ''h1'', hi_name = ''h1''\<rparr>], si_services = [], si_count = 2\<rparr>"
  unfolding Let_def by (subst stack_hosts_agree, simp, code_simp)

end
