(* ===== verification/ActionTokens.thy ===== *)
theory ActionTokens
  imports PyValue
begin

text \<open>
  One-time tokens in notification links (\<open>backend/auth/action_token_auth.py\<close>, \<open>action_token_routes.py\<close>). The
  digest is a parameter, the random part of a token and the clock are arguments; a JSON column holds the value that its
  text parses to (\<open>None\<close> is malformed). The audit log is left out. Every operation is one database transaction.
\<close>

section \<open>Tokens\<close>

record action_token =
  at_id :: nat
  at_hash :: string
  at_type :: string
  at_params :: "pyval option"
  at_created :: time
  at_expires :: time
  at_used :: "time option"
  at_used_ip :: "string option"
  at_revoked :: "time option"

record token_table =
  tt_rows :: "action_token list"
  tt_next :: nat

definition ACTION_TOKEN_PREFIX :: string where
  "ACTION_TOKEN_PREFIX = ''dockmon_action_''"

definition ACTION_TOKEN_TTL_HOURS :: int where
  "ACTION_TOKEN_TTL_HOURS = 24"

definition hours :: "int \<Rightarrow> time" where
  "hours n = secs (3600 * n)"

text \<open>The column of digests is unique: a second row with the same digest is an integrity error, here \<open>None\<close>.\<close>

definition generate_action_token ::
  "(string \<Rightarrow> string) \<Rightarrow> string \<Rightarrow> time \<Rightarrow> int \<Rightarrow> string \<Rightarrow> pyval \<Rightarrow> token_table \<Rightarrow> (string \<times> token_table) option" where
  "generate_action_token digest random_bytes now ttl_hours action_type action_params tt =
     (let plaintext = ACTION_TOKEN_PREFIX @ random_bytes; h = digest plaintext in
      if list_ex (\<lambda>r. at_hash r = h) (tt_rows tt) then None
      else Some (plaintext, \<lparr>tt_rows = tt_rows tt @ [\<lparr>at_id = tt_next tt, at_hash = h, at_type = action_type,
             at_params = Some action_params, at_created = now, at_expires = now + hours ttl_hours,
             at_used = None, at_used_ip = None, at_revoked = None\<rparr>], tt_next = tt_next tt + 1\<rparr>))"

datatype token_reason = InvalidFormat | NotFound | Revoked | AlreadyUsed | Expired | InvalidParams

record token_details =
  td_id :: nat
  td_type :: string
  td_params :: pyval
  td_created :: time
  td_expires :: time
  td_remaining :: int

definition well_formed_token :: "string \<Rightarrow> bool" where
  "well_formed_token token = (token \<noteq> [] \<and> starts_with token ACTION_TOKEN_PREFIX)"

definition find_token :: "string \<Rightarrow> action_token list \<Rightarrow> action_token option" where
  "find_token h rows = find (\<lambda>r. at_hash r = h) rows"

definition details_of :: "time \<Rightarrow> action_token \<Rightarrow> (token_reason, token_details) res" where
  "details_of now r = (case at_params r of
      None \<Rightarrow> Inl InvalidParams
    | Some params \<Rightarrow> Inr \<lparr>td_id = at_id r, td_type = at_type r, td_params = params, td_created = at_created r,
        td_expires = at_expires r, td_remaining = at_expires r - now\<rparr>)"

text \<open>\<open>mark_used=True\<close>: the update that claims the row, then the answer.\<close>

definition spendable :: "string \<Rightarrow> time \<Rightarrow> action_token \<Rightarrow> bool" where
  "spendable h now r = (at_hash r = h \<and> at_used r = None \<and> at_revoked r = None \<and> at_expires r > now)"

definition spend_token ::
  "(string \<Rightarrow> string) \<Rightarrow> time \<Rightarrow> string \<Rightarrow> string \<Rightarrow> action_token list \<Rightarrow> action_token list \<times> (token_reason, token_details) res" where
  "spend_token digest now token client_ip rows =
     (let h = digest token in
      if \<not> list_ex (spendable h now) rows
      then (rows, Inl (case find_token h rows of
              None \<Rightarrow> NotFound
            | Some r \<Rightarrow> if at_revoked r \<noteq> None then Revoked else if at_used r \<noteq> None then AlreadyUsed else Expired))
      else let rows = map (\<lambda>r. if spendable h now r then r\<lparr>at_used := Some now, at_used_ip := Some client_ip\<rparr> else r) rows
           in (rows, case find_token h rows of None \<Rightarrow> Inl NotFound | Some r \<Rightarrow> details_of now r))"

text \<open>\<open>mark_used=False\<close>\<close>

definition inspect_token :: "(string \<Rightarrow> string) \<Rightarrow> time \<Rightarrow> string \<Rightarrow> action_token list \<Rightarrow> (token_reason, token_details) res" where
  "inspect_token digest now token rows =
     (case find_token (digest token) rows of
        None \<Rightarrow> Inl NotFound
      | Some r \<Rightarrow>
          if at_revoked r \<noteq> None then Inl Revoked
          else if at_used r \<noteq> None then Inl AlreadyUsed
          else if now > at_expires r then Inl Expired
          else details_of now r)"

definition validate_action_token ::
  "(string \<Rightarrow> string) \<Rightarrow> time \<Rightarrow> string \<Rightarrow> string \<Rightarrow> bool \<Rightarrow> token_table \<Rightarrow> token_table \<times> (token_reason, token_details) res" where
  "validate_action_token digest now token client_ip mark_used tt =
     (if \<not> well_formed_token token then (tt, Inl InvalidFormat)
      else if mark_used then
        (case spend_token digest now token client_ip (tt_rows tt) of (rows, r) \<Rightarrow> (tt\<lparr>tt_rows := rows\<rparr>, r))
      else (tt, inspect_token digest now token (tt_rows tt)))"

definition stale_token :: "time \<Rightarrow> action_token \<Rightarrow> bool" where
  "stale_token now r = (at_expires r < now \<and> at_used r = None)"

definition old_used_token :: "time \<Rightarrow> action_token \<Rightarrow> bool" where
  "old_used_token now r = (case at_used r of None \<Rightarrow> False | Some t \<Rightarrow> t < now - hours (7 * 24))"

definition cleanup_expired_action_tokens :: "time \<Rightarrow> token_table \<Rightarrow> token_table \<times> nat" where
  "cleanup_expired_action_tokens now tt =
     (let count = (\<lambda>P. length (filter P (tt_rows tt))) in
      (tt\<lparr>tt_rows := filter (\<lambda>r. \<not> (at_revoked r \<noteq> None)) (filter (\<lambda>r. \<not> old_used_token now r)
             (filter (\<lambda>r. \<not> stale_token now r) (tt_rows tt)))\<rparr>,
       count (stale_token now) + count (old_used_token now) + count (\<lambda>r. at_revoked r \<noteq> None)))"

section \<open>The two endpoints\<close>

datatype consume_answer = ConfirmationRequired | TokenInvalid token_reason | Consumed string pyval

definition consume_action_token ::
  "(string \<Rightarrow> string) \<Rightarrow> time \<Rightarrow> string \<Rightarrow> string \<Rightarrow> bool \<Rightarrow> token_table \<Rightarrow> token_table \<times> consume_answer" where
  "consume_action_token digest now token client_ip confirmed tt =
     (if \<not> confirmed then (tt, ConfirmationRequired)
      else case validate_action_token digest now token client_ip True tt of
             (tt, Inl reason) \<Rightarrow> (tt, TokenInvalid reason)
           | (tt, Inr d) \<Rightarrow> (tt, Consumed (td_type d) (td_params d)))"

definition get_action_token_info ::
  "(string \<Rightarrow> string) \<Rightarrow> time \<Rightarrow> string \<Rightarrow> string \<Rightarrow> token_table \<Rightarrow> (token_reason, token_details) res" where
  "get_action_token_info digest now token client_ip tt = snd (validate_action_token digest now token client_ip False tt)"

section \<open>Tokens along a run\<close>

text \<open>What was issued and what was granted, with the clock that only moves forward.\<close>

record grant =
  gr_hash :: string
  gr_time :: time
  gr_type :: string
  gr_params :: pyval
  gr_until :: time \<comment> \<open>of an issue: when it expires; of a grant: when it was given\<close>

record token_desk =
  dk_table :: token_table
  dk_clock :: time
  dk_issued :: "grant list"
  dk_granted :: "grant list"

definition new_desk :: "time \<Rightarrow> token_desk" where
  "new_desk now = \<lparr>dk_table = \<lparr>tt_rows = [], tt_next = 1\<rparr>, dk_clock = now, dk_issued = [], dk_granted = []\<rparr>"

inductive desk_step :: "(string \<Rightarrow> string) \<Rightarrow> token_desk \<Rightarrow> token_desk \<Rightarrow> bool" for digest where
  issue: "dk_clock d \<le> now \<Longrightarrow>
    generate_action_token digest random_bytes now ttl action_type params (dk_table d) = Some (token, tt) \<Longrightarrow>
    desk_step digest d \<lparr>dk_table = tt, dk_clock = now,
      dk_issued = \<lparr>gr_hash = digest token, gr_time = now, gr_type = action_type, gr_params = params,
        gr_until = now + hours ttl\<rparr> # dk_issued d, dk_granted = dk_granted d\<rparr>"
| consumed: "dk_clock d \<le> now \<Longrightarrow>
    consume_action_token digest now token client_ip confirmed (dk_table d) = (tt, Consumed action_type params) \<Longrightarrow>
    desk_step digest d \<lparr>dk_table = tt, dk_clock = now, dk_issued = dk_issued d,
      dk_granted = \<lparr>gr_hash = digest token, gr_time = now, gr_type = action_type, gr_params = params,
        gr_until = now\<rparr> # dk_granted d\<rparr>"
| refused: "dk_clock d \<le> now \<Longrightarrow>
    consume_action_token digest now token client_ip confirmed (dk_table d) = (tt, answer) \<Longrightarrow>
    \<forall>action_type params. answer \<noteq> Consumed action_type params \<Longrightarrow>
    desk_step digest d (d\<lparr>dk_table := tt, dk_clock := now\<rparr>)"
| revoke: \<comment> \<open>by hand in the database: the column waits for an administration page\<close>
  "dk_clock d \<le> now \<Longrightarrow>
    desk_step digest d (d\<lparr>dk_table := (dk_table d)\<lparr>tt_rows :=
      map (\<lambda>r. if at_id r = i then r\<lparr>at_revoked := Some now\<rparr> else r) (tt_rows (dk_table d))\<rparr>, dk_clock := now\<rparr>)"
| cleanup: "dk_clock d \<le> now \<Longrightarrow>
    desk_step digest d (d\<lparr>dk_table := fst (cleanup_expired_action_tokens now (dk_table d)), dk_clock := now\<rparr>)"

section \<open>What tokens guarantee\<close>

text \<open>Rows change by losing rows, by being used and by being revoked.\<close>

definition core :: "action_token \<Rightarrow> string \<times> string \<times> pyval option \<times> time \<times> time" where
  "core r = (at_hash r, at_type r, at_params r, at_created r, at_expires r)"

definition later_rows :: "action_token list \<Rightarrow> action_token list \<Rightarrow> bool" where
  "later_rows rows rows' = ((distinct (map at_hash rows) \<longrightarrow> distinct (map at_hash rows')) \<and>
     (\<forall>r' \<in> set rows'. \<exists>r \<in> set rows. core r' = core r \<and> (at_used r' = None \<longrightarrow> at_used r = None)))"

lemma later_rows_refl [simp]: "later_rows rows rows"
  by (auto simp: later_rows_def)

lemma later_rows_map:
  assumes "\<And>r. core (f r) = core r" and "\<And>r. at_used (f r) = None \<Longrightarrow> at_used r = None"
  shows "later_rows rows (map f rows)"
proof -
  have "map at_hash (map f rows) = map at_hash rows" using assms(1) by (simp add: core_def)
  then show ?thesis using assms by (auto simp: later_rows_def simp del: map_map)
qed

lemma later_rows_filter: "later_rows rows (filter P rows)"
  by (auto simp: later_rows_def distinct_map_filter)

lemma later_rows_spend: "later_rows rows (fst (spend_token digest now token ip rows))"
proof -
  have "later_rows rows (map (\<lambda>r. if spendable h now r then r\<lparr>at_used := Some now, at_used_ip := Some ip\<rparr> else r) rows)" for h
    by (rule later_rows_map) (auto simp: core_def split: if_splits)
  then show ?thesis by (simp add: spend_token_def Let_def)
qed

lemma later_rows_consume: "later_rows (tt_rows tt) (tt_rows (fst (consume_action_token digest now token ip c tt)))"
  using later_rows_spend [of "tt_rows tt" digest now token ip]
  by (auto simp: consume_action_token_def validate_action_token_def split: prod.splits sum.splits)

lemma later_rows_cleanup: "later_rows (tt_rows tt) (tt_rows (fst (cleanup_expired_action_tokens now tt)))"
  using later_rows_filter by (simp add: cleanup_expired_action_tokens_def Let_def)

lemma find_unique: "distinct (map f rows) \<Longrightarrow> r \<in> set rows \<Longrightarrow> f r = k \<Longrightarrow> find (\<lambda>r. f r = k) rows = Some r"
  by (induction rows) auto

lemma consumed_row:
  assumes c: "consume_action_token digest now token ip confirmed tt = (tt', Consumed ty ps)" and d: "distinct (map at_hash (tt_rows tt))"
  obtains r where "r \<in> set (tt_rows tt)" and "spendable (digest token) now r" and "at_type r = ty" and "at_params r = Some ps"
    and "\<forall>r' \<in> set (tt_rows tt'). at_hash r' = digest token \<longrightarrow> at_used r' \<noteq> None"
proof -
  let ?h = "digest token"
  let ?f = "\<lambda>r. if spendable ?h now r then r\<lparr>at_used := Some now, at_used_ip := Some ip\<rparr> else r"
  let ?rows' = "map ?f (tt_rows tt)"
  from c obtain e where e: "spend_token digest now token ip (tt_rows tt) = (tt_rows tt', Inr e)" and ty: "td_type e = ty" "td_params e = ps"
    by (auto simp: consume_action_token_def validate_action_token_def split: if_splits prod.splits sum.splits)
  then have ex: "list_ex (spendable ?h now) (tt_rows tt)" by (auto simp: spend_token_def Let_def split: if_splits)
  then obtain r where r: "r \<in> set (tt_rows tt)" "spendable ?h now r" by (auto simp: list_ex_iff)
  have rows: "tt_rows tt' = ?rows'" using e ex by (simp add: spend_token_def Let_def)
  have "distinct (map at_hash ?rows')" using d by (simp add: comp_def if_distrib cong: if_cong)
  then have f: "find_token ?h ?rows' = Some (?f r)"
    unfolding find_token_def using r by (intro find_unique) (auto simp: spendable_def)
  with e ex have "details_of now (?f r) = Inr e" by (simp add: spend_token_def Let_def)
  then have "at_type r = ty" "at_params r = Some ps" using r ty by (auto simp: details_of_def split: option.splits)
  moreover have "\<forall>r' \<in> set (tt_rows tt'). at_hash r' = ?h \<longrightarrow> at_used r' \<noteq> None"
  proof (intro ballI impI)
    fix r' assume r': "r' \<in> set (tt_rows tt')" "at_hash r' = ?h"
    then obtain s where s: "s \<in> set (tt_rows tt)" "r' = ?f s" unfolding rows by auto
    with r' have "at_hash s = ?h" by (auto split: if_splits)
    with r d s(1) have "s = r" by (auto simp: spendable_def distinct_map inj_on_def)
    with s r show "at_used r' \<noteq> None" by simp
  qed
  ultimately show ?thesis using that r by blast
qed

definition issued_as :: "grant list \<Rightarrow> action_token \<Rightarrow> bool" where
  "issued_as gs r = (\<exists>i \<in> set gs. core r = (gr_hash i, gr_type i, Some (gr_params i), gr_time i, gr_until i))"

definition covered :: "grant list \<Rightarrow> grant \<Rightarrow> bool" where
  "covered gs g = (\<exists>i \<in> set gs. gr_hash i = gr_hash g \<and> gr_type i = gr_type g \<and> gr_params i = gr_params g \<and>
     gr_time i \<le> gr_time g \<and> gr_time g < gr_until i)"

definition desk_inv :: "token_desk \<Rightarrow> bool" where
  "desk_inv d = (distinct (map at_hash (tt_rows (dk_table d))) \<and>
     (\<forall>r \<in> set (tt_rows (dk_table d)). issued_as (dk_issued d) r \<and> at_created r \<le> dk_clock d) \<and>
     (\<forall>g \<in> set (dk_granted d). covered (dk_issued d) g) \<and>
     (distinct (map gr_hash (dk_issued d)) \<longrightarrow> distinct (map gr_hash (dk_granted d)) \<and>
        (\<forall>r \<in> set (tt_rows (dk_table d)). at_used r = None \<longrightarrow> at_hash r \<notin> gr_hash ` set (dk_granted d))))"

lemma later_rows_issued:
  assumes "later_rows rows rows'" and "\<forall>r \<in> set rows. issued_as gs r \<and> at_created r \<le> t" and "t \<le> now"
  shows "\<forall>r \<in> set rows'. issued_as gs r \<and> at_created r \<le> now"
proof
  fix r' assume "r' \<in> set rows'"
  with assms(1) obtain r where "r \<in> set rows" "core r' = core r" unfolding later_rows_def by blast
  with assms(2,3) show "issued_as gs r' \<and> at_created r' \<le> now" by (fastforce simp: issued_as_def core_def)
qed

lemma later_rows_unused:
  assumes "later_rows rows rows'" and "\<forall>r \<in> set rows. at_used r = None \<longrightarrow> at_hash r \<notin> A"
  shows "\<forall>r \<in> set rows'. at_used r = None \<longrightarrow> at_hash r \<notin> A"
  using assms unfolding later_rows_def core_def by (metis Pair_inject)

lemma desk_inv_later:
  assumes "desk_inv d" and "later_rows (tt_rows (dk_table d)) (tt_rows tt)" and "dk_clock d \<le> now"
  shows "desk_inv (d\<lparr>dk_table := tt, dk_clock := now\<rparr>)"
proof -
  from assms(1) have "\<forall>r \<in> set (tt_rows (dk_table d)). issued_as (dk_issued d) r \<and> at_created r \<le> dk_clock d"
    by (simp add: desk_inv_def)
  from later_rows_issued [OF assms(2) this assms(3)] assms(1,2) later_rows_unused [OF assms(2)]
  show ?thesis unfolding desk_inv_def later_rows_def by simp
qed

lemma issued_as_Cons [simp]: "issued_as gs r \<Longrightarrow> issued_as (i # gs) r"
  by (simp add: issued_as_def)

lemma covered_Cons [simp]: "covered gs g \<Longrightarrow> covered (i # gs) g"
  by (simp add: covered_def)

lemma granted_were_issued: "desk_inv d \<Longrightarrow> gr_hash ` set (dk_granted d) \<subseteq> gr_hash ` set (dk_issued d)"
proof (rule image_subsetI)
  fix g assume "desk_inv d" and "g \<in> set (dk_granted d)"
  then have "covered (dk_issued d) g" by (simp add: desk_inv_def)
  then show "gr_hash g \<in> gr_hash ` set (dk_issued d)" unfolding covered_def by (metis imageI)
qed

lemma desk_inv_step:
  assumes "desk_step digest d d'" and inv: "desk_inv d"
  shows "desk_inv d'"
  using assms(1)
proof (cases rule: desk_step.cases)
  case (issue now random_bytes ttl ty ps token tt)
  from issue(3) have new: "digest token \<notin> at_hash ` set (tt_rows (dk_table d))"
    and tt: "tt_rows tt = tt_rows (dk_table d) @ [\<lparr>at_id = tt_next (dk_table d), at_hash = digest token, at_type = ty,
             at_params = Some ps, at_created = now, at_expires = now + hours ttl,
             at_used = None, at_used_ip = None, at_revoked = None\<rparr>]"
    by (auto simp: generate_action_token_def Let_def list_ex_iff split: if_splits)
  have "\<forall>r \<in> set (tt_rows (dk_table d)). at_created r \<le> now" using inv issue(2) by (fastforce simp: desk_inv_def)
  then show ?thesis using inv new granted_were_issued [OF inv] unfolding desk_inv_def issue(1)
    by (auto simp: tt issued_as_def core_def)
next
  case (consumed now token ip confirmed tt ty ps)
  note later = later_rows_consume [of "dk_table d" digest now token ip confirmed, unfolded consumed(3) fst_conv]
  have "distinct (map at_hash (tt_rows (dk_table d)))" using inv by (simp add: desk_inv_def)
  from consumed_row [OF consumed(3) this] obtain r where r: "r \<in> set (tt_rows (dk_table d))" "spendable (digest token) now r"
      "at_type r = ty" "at_params r = Some ps" and used: "\<forall>r' \<in> set (tt_rows tt). at_hash r' = digest token \<longrightarrow> at_used r' \<noteq> None"
    by blast
  let ?g = "\<lparr>gr_hash = digest token, gr_time = now, gr_type = ty, gr_params = ps, gr_until = now\<rparr>"
  from inv r consumed(2) have c: "covered (dk_issued d) ?g"
    by (fastforce simp: desk_inv_def issued_as_def covered_def core_def spendable_def)
  from desk_inv_later [OF inv later consumed(2)] have i: "desk_inv (d\<lparr>dk_table := tt, dk_clock := now\<rparr>)" .
  have n: "distinct (map gr_hash (dk_issued d)) \<Longrightarrow> digest token \<notin> gr_hash ` set (dk_granted d)"
    using inv r by (auto simp: desk_inv_def spendable_def)
  show ?thesis using i c n used unfolding desk_inv_def consumed(1) by auto
next
  case (refused now token ip confirmed tt answer)
  note later = later_rows_consume [of "dk_table d" digest now token ip confirmed, unfolded refused(3) fst_conv]
  show ?thesis unfolding refused(1) by (rule desk_inv_later [OF inv later refused(2)])
next
  case (revoke now i)
  show ?thesis unfolding revoke(1)
    by (rule desk_inv_later [OF inv _ revoke(2)]) (auto intro!: later_rows_map simp: core_def split: if_splits)
next
  case (cleanup now)
  show ?thesis unfolding cleanup(1) by (rule desk_inv_later [OF inv later_rows_cleanup cleanup(2)])
qed

lemma desk_inv_run: "(desk_step digest)\<^sup>*\<^sup>* (new_desk t) d \<Longrightarrow> desk_inv d"
proof (induction rule: rtranclp_induct)
  case base
  show ?case by (simp add: desk_inv_def new_desk_def)
next
  case (step y z)
  from desk_inv_step [OF step(2,3)] show ?case .
qed

text \<open>C20: Along every run, when no two random tokens have the same digest, each token is granted at most once; and a
  grant is for the action it was issued for, from its issue until before its expiry.\<close>
theorem tokens_are_granted_once:
  assumes "(desk_step digest)\<^sup>*\<^sup>* (new_desk t) d" and "distinct (map gr_hash (dk_issued d))"
  shows "distinct (map gr_hash (dk_granted d)) \<and> list_all (covered (dk_issued d)) (dk_granted d)"
  using desk_inv_run [OF assms(1)] assms(2) by (auto simp: desk_inv_def list_all_iff)

theorem tokens_are_granted_once_witness:
  "\<exists>d :: token_desk. dk_granted d = [\<lparr>gr_hash = ''dockmon_action_x'', gr_time = 5, gr_type = ''container_update'', gr_params = VNone, gr_until = 5\<rparr>]
     \<and> distinct (map gr_hash (dk_granted d)) \<and> list_all (covered (dk_issued d)) (dk_granted d)"
proof -
  let ?i = "\<lparr>gr_hash = ''dockmon_action_x'', gr_time = 3, gr_type = ''container_update'', gr_params = VNone, gr_until = 3 + hours 24\<rparr>"
  let ?g = "\<lparr>gr_hash = ''dockmon_action_x'', gr_time = 5, gr_type = ''container_update'', gr_params = VNone, gr_until = 5\<rparr>"
  let ?tt = "snd (the (generate_action_token id ''x'' 3 24 ''container_update'' VNone (dk_table (new_desk 0))))"
  let ?d1 = "\<lparr>dk_table = ?tt, dk_clock = 3, dk_issued = [?i], dk_granted = []\<rparr>"
  let ?d2 = "\<lparr>dk_table = fst (consume_action_token id 5 ''dockmon_action_x'' ''10.0.0.1'' True ?tt), dk_clock = 5,
    dk_issued = [?i], dk_granted = [?g]\<rparr>"
  have "desk_step id (new_desk 0) ?d1"
    using desk_step.issue [of "new_desk 0" 3 id "''x''" 24 "''container_update''" VNone "''dockmon_action_x''" ?tt]
    by (simp add: new_desk_def generate_action_token_def ACTION_TOKEN_PREFIX_def Let_def)
  moreover have "consume_action_token id 5 ''dockmon_action_x'' ''10.0.0.1'' True ?tt =
      (fst (consume_action_token id 5 ''dockmon_action_x'' ''10.0.0.1'' True ?tt), Consumed ''container_update'' VNone)"
    by code_simp
  from desk_step.consumed [of ?d1 5 id, simplified, OF this] have "desk_step id ?d1 ?d2" by simp
  ultimately have "(desk_step id)\<^sup>*\<^sup>* (new_desk 0) ?d2" by (meson converse_rtranclp_into_rtranclp rtranclp.rtrancl_refl)
  note once = tokens_are_granted_once [OF this]
  show ?thesis by (rule exI [of _ ?d2]) (insert once, simp)
qed

text \<open>Proved as well: The information page says of a token what its consumption at the same moment will answer, except in the
  very microsecond in which the token expires.\<close>
theorem information_predicts_consumption:
  assumes "distinct (map at_hash (tt_rows tt))" and "list_all (\<lambda>r. at_expires r \<noteq> now) (tt_rows tt)"
  shows "snd (consume_action_token digest now token client_ip True tt) =
    (case get_action_token_info digest now token client_ip tt of
       Inl reason \<Rightarrow> TokenInvalid reason | Inr d \<Rightarrow> Consumed (td_type d) (td_params d))"
proof -
  let ?h = "digest token"
  let ?f = "\<lambda>r. if spendable ?h now r then r\<lparr>at_used := Some now, at_used_ip := Some client_ip\<rparr> else r"
  have "snd (spend_token digest now token client_ip (tt_rows tt)) = inspect_token digest now token (tt_rows tt)"
  proof (cases "find_token ?h (tt_rows tt)")
    case None
    then have "\<not> list_ex (spendable ?h now) (tt_rows tt)"
      by (auto simp: find_token_def find_None_iff list_ex_iff spendable_def)
    with None show ?thesis by (simp add: spend_token_def inspect_token_def Let_def)
  next
    case (Some r)
    then have r: "r \<in> set (tt_rows tt)" "at_hash r = ?h" unfolding find_token_def by (auto dest: find_SomeD)
    have ex: "list_ex (spendable ?h now) (tt_rows tt) \<longleftrightarrow> spendable ?h now r"
      using r assms(1) by (auto simp: list_ex_iff spendable_def distinct_map inj_on_def)
    have e: "at_expires r \<noteq> now" using assms(2) r by (auto simp: list_all_iff)
    have "distinct (map at_hash (map ?f (tt_rows tt)))" using assms(1) by (simp add: comp_def if_distrib cong: if_cong)
    then have "find_token ?h (map ?f (tt_rows tt)) = Some (?f r)"
      unfolding find_token_def using r by (intro find_unique) auto
    with Some ex e r show ?thesis
      by (auto simp: spend_token_def inspect_token_def Let_def spendable_def details_of_def split: option.splits)
  qed
  then show ?thesis
    by (auto simp: consume_action_token_def get_action_token_info_def validate_action_token_def split: prod.splits sum.splits)
qed

theorem information_predicts_consumption_witness:
  "let tt = snd (the (generate_action_token id ''x'' 3 24 ''container_update'' VNone \<lparr>tt_rows = [], tt_next = 1\<rparr>)) in
   snd (consume_action_token id 5 ''dockmon_action_x'' ''10.0.0.1'' True tt) = Consumed ''container_update'' VNone"
  unfolding Let_def by (subst information_predicts_consumption, code_simp, code_simp, code_simp)

lemma expiring_token_is_shown_valid:
  "let tt = snd (the (generate_action_token id ''x'' 0 24 ''container_update'' VNone \<lparr>tt_rows = [], tt_next = 1\<rparr>)) in
   is_ok (get_action_token_info id (hours 24) ''dockmon_action_x'' ''10.0.0.1'' tt)
   \<and> snd (consume_action_token id (hours 24) ''dockmon_action_x'' ''10.0.0.1'' True tt) = TokenInvalid Expired"
  by code_simp

lemma cleanup_counts_twice:
  "let r = \<lparr>at_id = 1, at_hash = ''h'', at_type = ''container_update'', at_params = Some VNone, at_created = 0, at_expires = 1,
       at_used = None, at_used_ip = None, at_revoked = Some 1\<rparr> in
   snd (cleanup_expired_action_tokens 9 \<lparr>tt_rows = [r], tt_next = 2\<rparr>) = 2"
  by code_simp

end
