(* ===== verification/SecurityCheck.thy ===== *)
theory SecurityCheck
  imports PyValue "HOL-Library.Multiset"
begin

text \<open>
  Security findings on a container definition (\<open>SecurityValidator\<close> of \<open>backend/deployment/security_validator.py\<close>): the
  checks, their severities and the report. A definition is the JSON object of the form; floats are exact rationals; an
  exception of a check (a method that a value does not have, a value that is not iterable, a text that is no number) is
  \<open>Inl\<close>.
\<close>

section \<open>Severities\<close>

datatype security_level = INFO | LOW | MEDIUM | HIGH | CRITICAL

fun level_value :: "security_level \<Rightarrow> nat" where
  "level_value CRITICAL = 4"
| "level_value HIGH = 3"
| "level_value MEDIUM = 2"
| "level_value LOW = 1"
| "level_value INFO = 0"

instantiation security_level :: linorder
begin

definition less_eq_security_level :: "security_level \<Rightarrow> security_level \<Rightarrow> bool" where
  "less_eq_security_level a b = (level_value a \<le> level_value b)"

definition less_security_level :: "security_level \<Rightarrow> security_level \<Rightarrow> bool" where
  "less_security_level a b = (level_value a < level_value b)"

instance
proof
  fix a b :: security_level
  show "a \<le> b \<Longrightarrow> b \<le> a \<Longrightarrow> a = b"
    by (cases a; cases b) (simp_all add: less_eq_security_level_def)
qed (auto simp: less_eq_security_level_def less_security_level_def)

end

record violation =
  sv_level :: security_level
  sv_field :: string
  sv_message :: string

datatype check_error = AttributeError | TypeError | ValueError

type_synonym findings = "(check_error, violation list) res"

section \<open>The checks\<close>

definition DANGEROUS_MOUNTS :: "(string \<times> security_level \<times> string) list" where
  "DANGEROUS_MOUNTS =
    [(''/var/run/docker.sock'', CRITICAL, ''Mounting docker.sock grants full Docker API access (container escape risk)''),
     (''/var/run/podman/podman.sock'', CRITICAL, ''Mounting podman.sock grants full Podman API access (container escape risk)''),
     (''/'', CRITICAL, ''Mounting root filesystem grants full host access''),
     (''/etc'', HIGH, ''Mounting /etc exposes sensitive host configuration''),
     (''/proc'', HIGH, ''Mounting /proc exposes host processes and system information''),
     (''/sys'', HIGH, ''Mounting /sys exposes host kernel interfaces''),
     (''/boot'', HIGH, ''Mounting /boot exposes bootloader and kernel files''),
     (''/dev'', HIGH, ''Mounting /dev exposes host devices'')]"

definition DANGEROUS_CAPABILITIES :: "(string \<times> security_level \<times> string) list" where
  "DANGEROUS_CAPABILITIES =
    [(''SYS_ADMIN'', HIGH, ''CAP_SYS_ADMIN grants broad system administration privileges (container escape risk)''),
     (''SYS_MODULE'', HIGH, ''CAP_SYS_MODULE allows loading kernel modules (container escape risk)''),
     (''SYS_PTRACE'', MEDIUM, ''CAP_SYS_PTRACE allows debugging other processes (information disclosure risk)''),
     (''SYS_BOOT'', HIGH, ''CAP_SYS_BOOT allows system reboot''),
     (''NET_ADMIN'', MEDIUM, ''CAP_NET_ADMIN grants network administration privileges''),
     (''SYS_RAWIO'', HIGH, ''CAP_SYS_RAWIO allows raw I/O operations (hardware access risk)'')]"

definition read_only_note :: string where
  "read_only_note = '' (read-only reduces risk)''"

fun downgrade :: "security_level \<Rightarrow> security_level" where
  "downgrade CRITICAL = HIGH"
| "downgrade HIGH = MEDIUM"
| "downgrade l = l"

definition mount_violation :: "string \<Rightarrow> security_level \<Rightarrow> string \<Rightarrow> violation" where
  "mount_violation host_path level message =
     \<lparr>sv_level = level, sv_field = ''volumes'',
      sv_message = ''Dangerous mount '' @ [CHR 39] @ host_path @ [CHR 39] @ '': '' @ message\<rparr>"

definition under_path :: "string \<Rightarrow> string \<Rightarrow> bool" where
  "under_path host_path dangerous = (host_path = dangerous \<or> starts_with host_path (dangerous @ ''/''))"

definition check_dangerous_mount :: "string \<Rightarrow> pyval \<Rightarrow> violation list" where
  "check_dangerous_mount host_path mode =
     (let ro = (mode = VStr ''ro'') in
      case find (\<lambda>(p, _). under_path host_path p) DANGEROUS_MOUNTS of
        Some (_, level, message) \<Rightarrow>
          [mount_violation host_path (if ro then downgrade level else level) (if ro then message @ read_only_note else message)]
      | None \<Rightarrow>
          if contains ''podman.sock'' host_path \<and> contains ''/run/user/'' host_path
          then [mount_violation host_path (if ro then HIGH else CRITICAL)
                 (''Mounting podman.sock grants full Podman API access (container escape risk)'' @ (if ro then read_only_note else []))]
          else [])"

definition listed_mount :: "pyval \<Rightarrow> (string \<times> pyval) option" where
  \<comment> \<open>an entry of the list form\<close>
  "listed_mount v = (case v of
      VStr spec \<Rightarrow> (let parts = split_on (CHR '':'') spec in
        if length parts < 2 then None
        else Some (hd parts, if length parts \<ge> 3 then VStr (parts ! 2) else VStr ''rw''))
    | _ \<Rightarrow> None)"

definition bind_mode :: "pyval \<Rightarrow> pyval" where
  "bind_mode b = (if is_dict b then vget_or b ''mode'' (VStr ''rw'') else VStr ''rw'')"

definition collect :: "('a \<Rightarrow> findings) \<Rightarrow> 'a list \<Rightarrow> findings" where
  \<comment> \<open>the loops of the checks: findings in order, the first exception ends the check\<close>
  "collect f xs = fold (\<lambda>x acc. res_bind acc (\<lambda>vs. res_bind (f x) (\<lambda>ws. Inr (vs @ ws)))) xs (Inr [])"

definition check_volume_mounts :: "pyval \<Rightarrow> findings" where
  "check_volume_mounts config = (case vget_or config ''volumes'' (VDict []) of
      VList vs \<Rightarrow> Inr (concat (map (\<lambda>(p, m). check_dangerous_mount p m) (List.map_filter listed_mount vs)))
    | VDict d \<Rightarrow> collect (\<lambda>(k, b). case k of
          VStr p \<Rightarrow> Inr (check_dangerous_mount p (bind_mode b)) | _ \<Rightarrow> Inl AttributeError) d
    | _ \<Rightarrow> Inr [])"

definition check_privileged :: "pyval \<Rightarrow> violation list" where
  "check_privileged config = (if truthy (vget_or config ''privileged'' (VBool False))
     then [\<lparr>sv_level = CRITICAL, sv_field = ''privileged'',
            sv_message = ''Privileged mode disables all security isolation (full host access)''\<rparr>] else [])"

definition check_network_mode :: "pyval \<Rightarrow> violation list" where
  "check_network_mode config = (if vget_or config ''network_mode'' (VStr ''bridge'') = VStr ''host''
     then [\<lparr>sv_level = HIGH, sv_field = ''network_mode'',
            sv_message = ''Host network mode bypasses network isolation and exposes all host ports''\<rparr>] else [])"

definition capability_name :: "string \<Rightarrow> string" where
  "capability_name s = remove_all ''CAP_'' (py_upper s)"

definition check_capability :: "pyval \<Rightarrow> findings" where
  "check_capability c = (case c of
      VStr s \<Rightarrow> (let cap = capability_name s in
        case map_of DANGEROUS_CAPABILITIES cap of
          None \<Rightarrow> Inr []
        | Some (level, message) \<Rightarrow> Inr [\<lparr>sv_level = level, sv_field = ''cap_add'',
            sv_message = ''Dangerous capability '' @ [CHR 39] @ cap @ [CHR 39] @ '': '' @ message\<rparr>])
    | _ \<Rightarrow> Inl AttributeError)"

definition check_capabilities :: "pyval \<Rightarrow> findings" where
  "check_capabilities config =
     (let cap_add = vget_or config ''cap_add'' (VList []) in
      if \<not> truthy cap_add then Inr []
      else case py_iter cap_add of None \<Rightarrow> Inl TypeError | Some cs \<Rightarrow> collect check_capability cs)"

text \<open>\<open>^(\d+(?:\.\d+)?)\s*([kmgtKMGT]?)(?:b|B)?$\<close> on a stripped text\<close>

definition unit_factor :: "char \<Rightarrow> int option" where
  "unit_factor c = (let l = lower_char c in
     if l = CHR ''k'' then Some 1024 else if l = CHR ''m'' then Some (1024 ^ 2)
     else if l = CHR ''g'' then Some (1024 ^ 3) else if l = CHR ''t'' then Some (1024 ^ 4) else None)"

definition parse_memory_string :: "pyval \<Rightarrow> int option" where
  "parse_memory_string v = (case v of
      VStr text \<Rightarrow>
        let s = strip text; whole = takeWhile is_dec s; s = dropWhile is_dec s;
            fraction = (case s of c # t \<Rightarrow> if c = CHR ''.'' then takeWhile is_dec t else [] | [] \<Rightarrow> []);
            s = (if fraction = [] then s else drop (Suc (length fraction)) s);
            s = dropWhile is_space s;
            factor = (case s of c # _ \<Rightarrow> unit_factor c | [] \<Rightarrow> None);
            s = (if factor = None then s else tl s)
        in if whole = [] \<or> \<not> (s = [] \<or> s = ''b'' \<or> s = ''B'') then None
           else Some \<lfloor>(of_int (dec_val whole) + of_int (dec_val fraction) / 10 ^ length fraction) *
                      (of_int (case factor of None \<Rightarrow> 1 | Some f \<Rightarrow> f) :: rat)\<rfloor>
    | _ \<Rightarrow> None)"

definition value_text :: "pyval \<Rightarrow> string" where
  \<comment> \<open>\<open>str\<close> of the values that reach a message\<close>
  "value_text v = (case v of VStr s \<Rightarrow> s | VInt n \<Rightarrow> int_str n | VBool b \<Rightarrow> if b then ''True'' else ''False'' | _ \<Rightarrow> [])"

definition check_resource_limits :: "pyval \<Rightarrow> violation list" where
  "check_resource_limits config =
     (let mem_limit = vget_or config ''mem_limit'' VNone in
      (if \<not> truthy mem_limit
       then [\<lparr>sv_level = LOW, sv_field = ''mem_limit'',
              sv_message = ''No memory limit set - container can consume all available memory''\<rparr>]
       else case parse_memory_string mem_limit of
              Some n \<Rightarrow> if n > 16 * 1024 * 1024 * 1024
                then [\<lparr>sv_level = MEDIUM, sv_field = ''mem_limit'',
                       sv_message = ''Excessive memory limit ('' @ value_text mem_limit @ '') - review if this is intentional''\<rparr>]
                else []
            | None \<Rightarrow> []) @
      (if \<not> truthy (vget_or config ''cpu_count'' VNone) \<and> \<not> truthy (vget_or config ''cpu_shares'' VNone) \<and>
          \<not> truthy (vget_or config ''cpus'' VNone)
       then [\<lparr>sv_level = LOW, sv_field = ''cpu_limit'', sv_message = ''No CPU limit set - container can consume all available CPU''\<rparr>]
       else []))"

text \<open>\<open>int\<close> of a JSON value\<close>

fun int_of_value :: "pyval \<Rightarrow> (check_error, int) res" where
  "int_of_value (VInt n) = Inr n"
| "int_of_value (VBool b) = Inr (if b then 1 else 0)"
| "int_of_value (VStr s) = (case py_int s of Some n \<Rightarrow> Inr n | None \<Rightarrow> Inl ValueError)"
| "int_of_value (VFloat (Fin q)) = Inr (if q < 0 then \<lceil>q\<rceil> else \<lfloor>q\<rfloor>)"
| "int_of_value (VFloat f) = Inl ValueError"
| "int_of_value v = Inl TypeError"

definition collect_ints :: "('a \<Rightarrow> (check_error, int list) res) \<Rightarrow> 'a list \<Rightarrow> (check_error, int list) res" where
  "collect_ints f xs = fold (\<lambda>x acc. res_bind acc (\<lambda>ns. res_bind (f x) (\<lambda>ms. Inr (ns @ ms)))) xs (Inr [])"

definition binding_port :: "pyval \<Rightarrow> (check_error, int list) res" where
  "binding_port b = (case (is_dict b, vget b ''HostPort'') of
      (True, Some p) \<Rightarrow> res_bind (int_of_value p) (\<lambda>n. Inr [n]) | _ \<Rightarrow> Inr [])"

definition container_ports :: "pyval \<Rightarrow> (check_error, int list) res" where
  "container_ports container = (case container of
      VDict _ \<Rightarrow> (case vget_or container ''ports'' (VDict []) of
          VDict d \<Rightarrow> collect_ints (\<lambda>(_, bindings). if \<not> truthy bindings then Inr [] else
            (case py_iter bindings of None \<Rightarrow> Inl TypeError | Some bs \<Rightarrow> collect_ints binding_port bs)) d
        | _ \<Rightarrow> Inl AttributeError)
    | _ \<Rightarrow> Inl AttributeError)"

definition check_port_conflicts :: "pyval \<Rightarrow> pyval list \<Rightarrow> findings" where
  "check_port_conflicts config existing =
     (let ports = vget_or config ''ports'' (VDict []) in
      if \<not> truthy ports then Inr []
      else res_bind (collect_ints container_ports existing) (\<lambda>used.
        case ports of
          VDict d \<Rightarrow> Inr (concat (map (\<lambda>(_, host_port).
            if is_int host_port \<and> (case int_of_value host_port of Inr n \<Rightarrow> n \<in> set used | Inl _ \<Rightarrow> False)
            then [\<lparr>sv_level = HIGH, sv_field = ''ports'',
                   sv_message = ''Port '' @ value_text host_port @ '' is already in use by another container on this host''\<rparr>]
            else []) d))
        | _ \<Rightarrow> Inl AttributeError))"

definition check_image_security :: "pyval \<Rightarrow> findings" where
  "check_image_security config =
     (let image = vget_or config ''image'' (VStr []) in
      if \<not> truthy image then Inr []
      else (case image of
          VStr i \<Rightarrow> Inr (
            (if ends_with i '':latest'' \<or> CHR '':'' \<notin> set i
             then [\<lparr>sv_level = LOW, sv_field = ''image'',
                    sv_message = ''Using :latest tag - prefer specific version tags for reproducibility''\<rparr>] else []) @
            (if CHR ''/'' \<in> set i \<and> \<not> starts_with i ''docker.io/''
             then [\<lparr>sv_level = INFO, sv_field = ''image'',
                    sv_message = ''Custom registry image - verify image signature and provenance''\<rparr>] else []))
        | _ \<Rightarrow> Inl AttributeError))"

definition password_patterns :: "string list" where
  "password_patterns = [''PASSWORD'', ''SECRET'', ''TOKEN'', ''KEY'', ''APIKEY'']"

text \<open>\<open>re.match('.*WORD.*', name, re.IGNORECASE)\<close>: a dot matches no line break.\<close>

definition looks_secret :: "string \<Rightarrow> bool" where
  "looks_secret name = list_ex (\<lambda>w. contains (py_lower w) (py_lower (takeWhile (\<lambda>c. ccode c \<noteq> 10) name))) password_patterns"

definition env_violation :: "string \<Rightarrow> pyval \<Rightarrow> violation list" where
  "env_violation name value =
     (if looks_secret name \<and> \<not> (is_str value \<and> (contains ''_FILE'' name \<or>
           (case value of VStr s \<Rightarrow> starts_with s ''/run/secrets'' | _ \<Rightarrow> False)))
      then [\<lparr>sv_level = MEDIUM, sv_field = ''environment'',
             sv_message = ''Environment variable '' @ [CHR 39] @ name @ [CHR 39] @
               '' appears to contain plaintext credentials - consider using Docker secrets''\<rparr>] else [])"

definition check_environment_variables :: "pyval \<Rightarrow> findings" where
  "check_environment_variables config =
     (let environment = vget_or config ''environment'' (VDict []) in
      if \<not> truthy environment then Inr []
      else (case environment of
          VDict d \<Rightarrow> collect (\<lambda>(k, v). case k of VStr name \<Rightarrow> Inr (env_violation name v) | _ \<Rightarrow> Inl TypeError) d
        | _ \<Rightarrow> Inl AttributeError))"

definition validate_container_config :: "pyval \<Rightarrow> string option \<Rightarrow> pyval list \<Rightarrow> findings" where
  "validate_container_config config host_id existing = collect (\<lambda>check. check config)
     [check_volume_mounts, \<lambda>c. Inr (check_privileged c), \<lambda>c. Inr (check_network_mode c), check_capabilities,
      \<lambda>c. Inr (check_resource_limits c),
      \<lambda>c. if host_id \<noteq> None \<and> host_id \<noteq> Some [] \<and> existing \<noteq> [] then check_port_conflicts c existing else Inr [],
      check_image_security, check_environment_variables]"

section \<open>The report\<close>

definition filter_by_level :: "violation list \<Rightarrow> security_level \<Rightarrow> bool \<Rightarrow> violation list" where
  "filter_by_level vs level include_higher =
     (if include_higher then filter (\<lambda>v. level_value (sv_level v) \<ge> level_value level) vs
      else filter (\<lambda>v. sv_level v = level) vs)"

definition has_blocking_violations :: "violation list \<Rightarrow> bool" where
  "has_blocking_violations vs = list_ex (\<lambda>v. sv_level v = CRITICAL) vs"

fun level_name :: "security_level \<Rightarrow> string" where
  "level_name CRITICAL = ''CRITICAL''"
| "level_name HIGH = ''HIGH''"
| "level_name MEDIUM = ''MEDIUM''"
| "level_name LOW = ''LOW''"
| "level_name INFO = ''INFO''"

definition violation_line :: "violation \<Rightarrow> string" where
  "violation_line v = ''  - ['' @ sv_field v @ ''] '' @ sv_message v"

definition group_by_level :: "violation list \<Rightarrow> (string, violation list) pydict" where
  "group_by_level vs = fold (\<lambda>v d. let d = dsetdefault (level_name (sv_level v)) [] d in
     dset (level_name (sv_level v)) (the (dget d (level_name (sv_level v))) @ [v]) d) vs []"

definition report_lines :: "violation list \<Rightarrow> string list" where
  "report_lines vs = (let by_level = group_by_level vs in
     concat (map (\<lambda>level. case dget by_level level of
         None \<Rightarrow> [] | Some ws \<Rightarrow> [level @ '':''] @ map violation_line ws @ [[]])
       [''CRITICAL'', ''HIGH'', ''MEDIUM'', ''LOW'', ''INFO'']))"

definition format_violations :: "violation list \<Rightarrow> string" where
  "format_violations vs = (if vs = [] then ''No security violations found.''
     else strip (join_on (CHR 10) (report_lines vs)))"

section \<open>What blocks a deployment\<close>

lemma collect_simps [simp]:
  "collect f [] = Inr []"
  "collect f (x # xs) = res_bind (f x) (\<lambda>ws. res_bind (collect f xs) (\<lambda>vs. Inr (ws @ vs)))"
proof -
  have g: "fold (\<lambda>x acc. res_bind acc (\<lambda>vs. res_bind (f x) (\<lambda>ws. Inr (vs @ ws)))) xs acc =
      res_bind acc (\<lambda>v. res_bind (collect f xs) (\<lambda>vs. Inr (v @ vs)))" for xs acc
  proof (induction xs arbitrary: acc)
    case Nil
    then show ?case by (cases acc) (simp_all add: collect_def)
  next
    case (Cons x xs)
    show ?case
    proof (cases acc)
      case (Inr v)
      then show ?thesis
        by (cases "f x"; cases "collect f xs") (simp_all add: Cons.IH collect_def [of f "x # xs"])
    qed (simp add: Cons.IH)
  qed
  show "collect f [] = Inr []" by (simp add: collect_def)
  show "collect f (x # xs) = res_bind (f x) (\<lambda>ws. res_bind (collect f xs) (\<lambda>vs. Inr (ws @ vs)))"
    by (subst collect_def) (cases "f x", simp_all add: g)
qed

definition calm :: "findings \<Rightarrow> bool" where
  "calm r = (case r of Inr vs \<Rightarrow> \<not> has_blocking_violations vs | Inl _ \<Rightarrow> True)"

lemma blocking_append [simp]: "has_blocking_violations (vs @ ws) \<longleftrightarrow> has_blocking_violations vs \<or> has_blocking_violations ws"
  by (simp add: has_blocking_violations_def)

lemma blocking_simps [simp]:
  "has_blocking_violations [] = False"
  "has_blocking_violations (v # vs) \<longleftrightarrow> sv_level v = CRITICAL \<or> has_blocking_violations vs"
  by (simp_all add: has_blocking_violations_def)

lemma calm_collect: "(\<And>x. x \<in> set xs \<Longrightarrow> calm (f x)) \<Longrightarrow> calm (collect f xs)"
proof (induction xs)
  case (Cons x xs)
  then have "calm (f x)" and "calm (collect f xs)" by auto
  then show ?case by (cases "f x"; cases "collect f xs") (simp_all add: calm_def)
qed (simp add: calm_def)

lemma calm_checks:
  "calm (Inr (check_network_mode c))" "calm (check_capabilities c)" "calm (Inr (check_resource_limits c))"
  "calm (check_port_conflicts c existing)" "calm (check_image_security c)" "calm (check_environment_variables c)"
proof -
  show "calm (Inr (check_network_mode c))" by (simp add: calm_def check_network_mode_def)
  have "calm (check_capability v)" for v
    by (simp add: calm_def check_capability_def DANGEROUS_CAPABILITIES_def Let_def split: pyval.split)
  then show "calm (check_capabilities c)"
    by (auto simp: check_capabilities_def Let_def calm_def [of "Inr []"] calm_def [of "Inl _"] split: option.split intro!: calm_collect)
  show "calm (Inr (check_resource_limits c))"
    by (simp add: calm_def check_resource_limits_def Let_def split: option.split)
  have "\<not> has_blocking_violations (concat (map (\<lambda>(_, p). if P p then [\<lparr>sv_level = HIGH, sv_field = a, sv_message = b p\<rparr>] else []) d))"
    for P a b and d :: "(pyval \<times> pyval) list"
    by (induction d) (auto split: if_splits)
  then show "calm (check_port_conflicts c existing)"
    by (cases "collect_ints container_ports existing")
      (simp_all add: calm_def check_port_conflicts_def Let_def split: pyval.split)
  show "calm (check_image_security c)"
    by (simp add: calm_def check_image_security_def Let_def split: pyval.split)
  have "\<not> has_blocking_violations (env_violation n v)" for n v by (simp add: env_violation_def)
  then have "calm (collect (\<lambda>(k, v). case k of VStr name \<Rightarrow> Inr (env_violation name v) | _ \<Rightarrow> Inl TypeError) d)" for d
    by (intro calm_collect) (auto simp: calm_def split: pyval.splits)
  then show "calm (check_environment_variables c)"
    by (auto simp: check_environment_variables_def Let_def calm_def [of "Inr []"] calm_def [of "Inl _"] split: pyval.split)
qed

text \<open>The mounts of a definition, and those that block: writable, and the root or a socket of the engine.\<close>

definition mounts_of :: "pyval \<Rightarrow> (string \<times> pyval) list" where
  "mounts_of config = (case vget_or config ''volumes'' (VDict []) of
      VList vs \<Rightarrow> List.map_filter listed_mount vs
    | VDict d \<Rightarrow> List.map_filter (\<lambda>(k, b). case k of VStr p \<Rightarrow> Some (p, bind_mode b) | _ \<Rightarrow> None) d
    | _ \<Rightarrow> [])"

definition blocking_mount :: "string \<times> pyval \<Rightarrow> bool" where
  "blocking_mount pm = (case pm of (p, mode) \<Rightarrow> mode \<noteq> VStr ''ro'' \<and>
     (under_path p ''/var/run/docker.sock'' \<or> under_path p ''/var/run/podman/podman.sock'' \<or> under_path p ''/'' \<or>
      contains ''podman.sock'' p \<and> contains ''/run/user/'' p \<and>
        \<not> list_ex (under_path p) [''/etc'', ''/proc'', ''/sys'', ''/boot'', ''/dev'']))"

lemma blocking_mount_exact: "has_blocking_violations (check_dangerous_mount p mode) \<longleftrightarrow> blocking_mount (p, mode)"
  by (simp add: check_dangerous_mount_def DANGEROUS_MOUNTS_def blocking_mount_def mount_violation_def Let_def)

lemma blocking_volumes:
  "check_volume_mounts config = Inr vs \<Longrightarrow> has_blocking_violations vs \<longleftrightarrow> list_ex blocking_mount (mounts_of config)"
proof -
  have l: "has_blocking_violations (concat (map (\<lambda>(p, m). check_dangerous_mount p m) ms)) \<longleftrightarrow> list_ex blocking_mount ms" for ms
    by (induction ms) (auto simp: blocking_mount_exact)
  have d: "collect (\<lambda>(k, b). case k of VStr p \<Rightarrow> Inr (check_dangerous_mount p (bind_mode b)) | _ \<Rightarrow> Inl AttributeError) es = Inr ws \<Longrightarrow>
      has_blocking_violations ws \<longleftrightarrow>
        list_ex blocking_mount (List.map_filter (\<lambda>(k, b). case k of VStr p \<Rightarrow> Some (p, bind_mode b) | _ \<Rightarrow> None) es)" for es ws
    by (induction es arbitrary: ws) (auto simp: map_filter_simps blocking_mount_exact split: pyval.splits)
  assume "check_volume_mounts config = Inr vs"
  then show ?thesis
    using l d by (auto simp: check_volume_mounts_def mounts_of_def split: pyval.splits)
qed

text \<open>Proved as well: A definition that the checks get through is blocked exactly when it is privileged or mounts the root or a
  socket of the engine with a mode other than \<open>ro\<close>.\<close>
theorem blocking_is_exact:
  assumes "validate_container_config config host_id existing = Inr vs"
  shows "has_blocking_violations vs \<longleftrightarrow>
    truthy (vget_or config ''privileged'' (VBool False)) \<or> list_ex blocking_mount (mounts_of config)"
proof -
  have p: "has_blocking_violations (check_privileged config) \<longleftrightarrow> truthy (vget_or config ''privileged'' (VBool False))"
    by (simp add: check_privileged_def)
  have n: "\<not> has_blocking_violations ws" if "r = Inr ws" "calm r" for r ws using that by (simp add: calm_def)
  have ports: "calm (if host_id \<noteq> None \<and> host_id \<noteq> Some [] \<and> existing \<noteq> [] then check_port_conflicts config existing else Inr [])"
    using calm_checks(4) by (simp add: calm_def [of "Inr []"])
  obtain v c pt i e where parts: "check_volume_mounts config = Inr v" "check_capabilities config = Inr c"
      "(if host_id \<noteq> None \<and> host_id \<noteq> Some [] \<and> existing \<noteq> [] then check_port_conflicts config existing else Inr []) = Inr pt"
      "check_image_security config = Inr i" "check_environment_variables config = Inr e"
    and vs: "vs = v @ check_privileged config @ check_network_mode config @ c @ check_resource_limits config @ pt @ i @ e"
    using assms unfolding validate_container_config_def by (auto simp: split del: if_split)
  show ?thesis
    using vs p blocking_volumes [OF parts(1)] n [OF parts(2) calm_checks(2)] n [OF parts(3) ports] n [OF parts(4) calm_checks(5)]
      n [OF parts(5) calm_checks(6)] n [OF refl calm_checks(1)] n [OF refl calm_checks(3)]
    by (simp add: disj_commute)
qed

theorem blocking_is_exact_witness:
  "let config = VDict [(VStr ''image'', VStr ''nginx:1.27''),
       (VStr ''volumes'', VList [VStr ''/var/run/docker.sock:/var/run/docker.sock:ro'', VStr ''/data:/data''])];
     open_config = VDict [(VStr ''volumes'', VDict [(VStr ''/run/user/1000/podman/podman.sock'', VDict [(VStr ''bind'', VStr ''/s'')])])]
   in validate_container_config config None [] = Inr (case validate_container_config config None [] of Inr vs \<Rightarrow> vs | Inl _ \<Rightarrow> [])
    \<and> \<not> has_blocking_violations (case validate_container_config config None [] of Inr vs \<Rightarrow> vs | Inl _ \<Rightarrow> [])
    \<and> has_blocking_violations (case validate_container_config open_config None [] of Inr vs \<Rightarrow> vs | Inl _ \<Rightarrow> [])"
proof -
  let ?c = "VDict [(VStr ''image'', VStr ''nginx:1.27''),
       (VStr ''volumes'', VList [VStr ''/var/run/docker.sock:/var/run/docker.sock:ro'', VStr ''/data:/data''])]"
  let ?o = "VDict [(VStr ''volumes'', VDict [(VStr ''/run/user/1000/podman/podman.sock'', VDict [(VStr ''bind'', VStr ''/s'')])])]"
  have c: "validate_container_config ?c None [] = Inr (case validate_container_config ?c None [] of Inr vs \<Rightarrow> vs | Inl _ \<Rightarrow> [])"
    and o: "validate_container_config ?o None [] = Inr (case validate_container_config ?o None [] of Inr vs \<Rightarrow> vs | Inl _ \<Rightarrow> [])"
    by code_simp+
  have "\<not> (truthy (vget_or ?c ''privileged'' (VBool False)) \<or> list_ex blocking_mount (mounts_of ?c))"
    and "truthy (vget_or ?o ''privileged'' (VBool False)) \<or> list_ex blocking_mount (mounts_of ?o)" by code_simp+
  with blocking_is_exact [OF c] blocking_is_exact [OF o] c show ?thesis unfolding Let_def by blast
qed

lemma unchecked_dangers:
  "case validate_container_config (VDict [(VStr ''image'', VStr ''nginx:1.27''), (VStr ''cap_add'', VList [VStr ''ALL'']),
      (VStr ''mem_limit'', VInt (64 * 1024 ^ 3)), (VStr ''cpus'', VInt 1),
      (VStr ''volumes'', VList [VStr ''/run/docker.sock:/var/run/docker.sock''])]) None [] of
    Inr vs \<Rightarrow> vs = [] | Inl _ \<Rightarrow> False"
  by code_simp

lemma list_forms_raise:
  "validate_container_config (VDict [(VStr ''environment'', VList [VStr ''A=b''])]) None [] = Inl AttributeError
   \<and> validate_container_config (VDict [(VStr ''ports'', VList [VStr ''8080:80''])]) (Some ''h1'') [VDict []] = Inl AttributeError"
  by code_simp

section \<open>The order of the report\<close>

lemma level_name_inj [simp]: "level_name a = level_name b \<longleftrightarrow> a = b"
  by (cases a; cases b) simp_all

lemma group_by_level_get:
  "dget (group_by_level vs) (level_name l) =
     (if filter (\<lambda>v. sv_level v = l) vs = [] then None else Some (filter (\<lambda>v. sv_level v = l) vs))"
proof (induction vs rule: rev_induct)
  case (snoc v vs)
  have "group_by_level (vs @ [v]) = (let d = dsetdefault (level_name (sv_level v)) [] (group_by_level vs) in
     dset (level_name (sv_level v)) (the (dget d (level_name (sv_level v))) @ [v]) d)"
    by (simp add: group_by_level_def)
  with snoc show ?case by (cases "sv_level v = l") (auto simp: Let_def split: option.splits)
qed (simp add: group_by_level_def)

lemma sort_by_level:
  "rev (sort_key sv_level (rev vs)) = concat (map (\<lambda>l. filter (\<lambda>v. sv_level v = l) vs) [CRITICAL, HIGH, MEDIUM, LOW, INFO])"
proof -
  have all: "l = INFO \<or> l = LOW \<or> l = MEDIUM \<or> l = HIGH \<or> l = CRITICAL" for l by (cases l) simp_all
  have "sort_key sv_level ws = concat (map (\<lambda>l. filter (\<lambda>v. sv_level v = l) ws) [INFO, LOW, MEDIUM, HIGH, CRITICAL])" for ws
  proof (rule properties_for_sort_key)
    show "mset (concat (map (\<lambda>l. filter (\<lambda>v. sv_level v = l) ws) [INFO, LOW, MEDIUM, HIGH, CRITICAL])) = mset ws"
    proof (induction ws)
      case (Cons v ws)
      then show ?case by (cases "sv_level v") simp_all
    qed simp
    fix k assume "k \<in> set (concat (map (\<lambda>l. filter (\<lambda>v. sv_level v = l) ws) [INFO, LOW, MEDIUM, HIGH, CRITICAL]))"
    show "filter (\<lambda>x. sv_level k = sv_level x) (concat (map (\<lambda>l. filter (\<lambda>v. sv_level v = l) ws) [INFO, LOW, MEDIUM, HIGH, CRITICAL])) =
        filter (\<lambda>x. sv_level k = sv_level x) ws"
    proof -
      have e: "filter (\<lambda>x. a = sv_level x) (filter (\<lambda>v. sv_level v = l) ws) = (if l = a then filter (\<lambda>x. a = sv_level x) ws else [])" for a l
        by (auto simp: filter_empty_conv intro: filter_cong)
      show ?thesis using all [of "sv_level k"] by (auto simp: e intro!: filter_cong)
    qed
  next
    show "sorted (map sv_level (concat (map (\<lambda>l. filter (\<lambda>v. sv_level v = l) ws) [INFO, LOW, MEDIUM, HIGH, CRITICAL])))"
    proof -
      have "sorted (map sv_level (filter (\<lambda>v. sv_level v = l) ws))" for l
        by (induction ws) (auto simp: less_eq_security_level_def)
      then show ?thesis by (auto simp: sorted_append less_eq_security_level_def)
    qed
  qed
  from this [of "rev vs"] show ?thesis by (simp add: rev_filter)
qed

lemma violation_line_mark: "starts_with (violation_line v) ''  - ''"
  by (simp add: violation_line_def starts_with_def)

text \<open>Proved as well: The report lists every violation once, the severest first and those of one severity in the order they were found.\<close>
theorem report_is_sorted:
  "filter (\<lambda>l. starts_with l ''  - '') (report_lines vs) = map violation_line (rev (sort_key sv_level (rev vs)))"
proof -
  have g: "filter (\<lambda>l. starts_with l ''  - '') (case dget (group_by_level vs) (level_name l) of
         None \<Rightarrow> [] | Some ws \<Rightarrow> [level_name l @ '':''] @ map violation_line ws @ [[]]) =
      map violation_line (filter (\<lambda>v. sv_level v = l) vs)" for l
  proof -
    have h: "\<not> starts_with (level_name l @ '':'') ''  - ''" by (cases l) (simp_all add: starts_with_def)
    have "filter (\<lambda>l. starts_with l ''  - '') (map violation_line ws) = map violation_line ws" for ws
      by (simp add: violation_line_mark filter_id_conv)
    moreover have "\<not> starts_with [] ''  - ''" by (simp add: starts_with_def)
    ultimately show ?thesis using h by (simp add: group_by_level_get)
  qed
  have "report_lines vs = concat (map (\<lambda>l. case dget (group_by_level vs) (level_name l) of
         None \<Rightarrow> [] | Some ws \<Rightarrow> [level_name l @ '':''] @ map violation_line ws @ [[]]) [CRITICAL, HIGH, MEDIUM, LOW, INFO])"
    unfolding report_lines_def Let_def list.map level_name.simps by (rule refl)
  then show ?thesis by (simp only: sort_by_level filter_concat map_map comp_def g map_concat)
qed

end
