(* ===== verification/StackFiles.thy ===== *)
theory StackFiles
  imports PyValue
begin

text \<open>
  Stacks on disk (\<open>backend/deployment/stack_storage.py\<close>) and the names of their env files
  (\<open>backend/utils/env_files.py\<close>). A directory is a dictionary of nodes; a symbolic link holds the node it leads to
  (\<open>None\<close> when it dangles). Loading a YAML text is a parameter (\<open>None\<close> is an error of the parser). A stack name reaches
  these functions as one segment of a URL path or from a validated field, so it holds no slash. A thread of the pool does
  one operation at a time.
\<close>

section \<open>The file system\<close>

datatype node = RegFile string | Folder "(string \<times> node) list" | Link "node option" | Special

type_synonym folder = "(string \<times> node) list"
type_synonym yaml = "string \<Rightarrow> pyval option"

text \<open>The node a path leads to when links are followed.\<close>

fun followed :: "node option \<Rightarrow> node option" where
  "followed None = None"
| "followed (Some (Link t)) = followed t"
| "followed (Some n) = Some n"

definition entries_of :: "node option \<Rightarrow> folder" where
  "entries_of n = (case followed n of Some (Folder es) \<Rightarrow> es | _ \<Rightarrow> [])"

definition is_folder :: "node option \<Rightarrow> bool" where
  "is_folder n = (case followed n of Some (Folder _) \<Rightarrow> True | _ \<Rightarrow> False)"

definition utf8_size :: "string \<Rightarrow> nat" where
  "utf8_size s = sum_list (map (\<lambda>c. if ccode c < 128 then 1 else 2) s)"

section \<open>Names of env files\<close>

definition MAX_ENV_FILE_BYTES :: nat where
  "MAX_ENV_FILE_BYTES = 1024 * 1024"

definition normalize_env_filename :: "string \<Rightarrow> string" where
  "normalize_env_filename name = (if starts_with name ''./'' then drop 2 name else name)"

definition is_safe_env_filename :: "string \<Rightarrow> bool" where
  "is_safe_env_filename name = (name \<noteq> [] \<and> (let candidate = normalize_env_filename name in
     candidate \<noteq> [] \<and> candidate \<noteq> ''.'' \<and> candidate \<noteq> ''..'' \<and>
     candidate = strip candidate \<and> strip candidate \<noteq> [] \<and>
     CHR ''/'' \<notin> set candidate \<and> CHR 92 \<notin> set candidate \<and> CHR 0x00 \<notin> set candidate))"
  \<comment> \<open>the last test, against the base name, asks again whether there is a slash\<close>

definition is_env_filename :: "string \<Rightarrow> bool" where
  "is_env_filename name = (name \<noteq> [] \<and> (name = ''.env'' \<or> starts_with name ''.env.'' \<or> ends_with name ''.env''))"

definition env_ref_path :: "pyval \<Rightarrow> string option" where
  "env_ref_path ref = (let path = (if is_dict ref then vget_or ref ''path'' VNone else ref) in
     case path of VStr p \<Rightarrow> if p = [] then None else Some p | _ \<Rightarrow> None)"

definition service_env_refs :: "pyval \<Rightarrow> string list" where
  "service_env_refs svc = (if \<not> is_dict svc then [] else
     (case vget svc ''env_file'' of
        None \<Rightarrow> [] | Some VNone \<Rightarrow> []
      | Some (VList refs) \<Rightarrow> List.map_filter env_ref_path refs
      | Some ref \<Rightarrow> List.map_filter env_ref_path [ref]))"

definition services_of :: "pyval option \<Rightarrow> pyval list" where
  "services_of doc = (case doc of
      Some d \<Rightarrow> (case vget d ''services'' of Some (VDict ss) \<Rightarrow> map snd ss | _ \<Rightarrow> []) | None \<Rightarrow> [])"

definition parse_env_file_refs :: "yaml \<Rightarrow> string \<Rightarrow> string list \<times> string list" where
  "parse_env_file_refs load compose_yaml =
     (let refs = concat (map service_env_refs (services_of (load compose_yaml))) in
      (sort (remdups (map normalize_env_filename (filter is_safe_env_filename refs))),
       filter (\<lambda>p. \<not> is_safe_env_filename p) refs))"

definition ident_start :: "char \<Rightarrow> bool" where
  "ident_start c = (is_lower_ascii c \<or> is_upper_ascii c \<or> c = CHR ''_'')"

text \<open>\<open>^(?:\$\{[^}/]+\}|\$[A-Za-z_][A-Za-z0-9_]*)/(.+)$\<close>: the part after the variable, up to a final line break.\<close>

definition last_line :: "string \<Rightarrow> string option" where
  "last_line rest = (let line = takeWhile (\<lambda>c. c \<noteq> CHR 10) rest in
     if line \<noteq> [] \<and> (rest = line \<or> rest = line @ [CHR 10]) then Some line else None)"

definition after_variable :: "string \<Rightarrow> string option" where
  "after_variable src = (if starts_with src ''${''
     then let name = takeWhile (\<lambda>c. c \<noteq> CHR ''}'' \<and> c \<noteq> CHR ''/'') (drop 2 src); rest = drop (2 + length name) src in
       if name \<noteq> [] \<and> starts_with rest ''}/'' then last_line (drop 2 rest) else None
     else if starts_with src ''$'' \<and> tl src \<noteq> [] \<and> ident_start (hd (tl src))
     then let rest = dropWhile (\<lambda>c. ident_start c \<or> is_dec c) (tl src) in
       if starts_with rest ''/'' then last_line (tl rest) else None
     else None)"

definition bind_source :: "pyval \<Rightarrow> string option" where
  "bind_source src = (case src of
      VStr s \<Rightarrow> (let candidate = (case after_variable s of Some c \<Rightarrow> c | None \<Rightarrow> s) in
        if s \<noteq> [] \<and> is_safe_env_filename candidate then Some (normalize_env_filename candidate) else None)
    | _ \<Rightarrow> None)"

definition volume_source :: "pyval \<Rightarrow> string option" where
  "volume_source vol = (case vol of
      VStr v \<Rightarrow> bind_source (VStr (hd (split_on (CHR '':'') v)))
    | VDict _ \<Rightarrow> if vget_or vol ''type'' (VStr ''bind'') = VStr ''bind'' then bind_source (vget_or vol ''source'' VNone) else None
    | _ \<Rightarrow> None)"

definition device_source :: "pyval \<Rightarrow> string option" where
  "device_source vol = (case vget vol ''driver_opts'' of
      Some (VDict d) \<Rightarrow> bind_source (vget_or (VDict d) ''device'' VNone) | _ \<Rightarrow> None)"

definition parse_bind_mount_sources :: "yaml \<Rightarrow> string \<Rightarrow> string list" where
  "parse_bind_mount_sources load compose_yaml = (case load compose_yaml of
      None \<Rightarrow> []
    | Some doc \<Rightarrow>
        concat (map (\<lambda>svc. case vget svc ''volumes'' of Some (VList vs) \<Rightarrow> List.map_filter volume_source vs | _ \<Rightarrow> [])
          (services_of (Some doc))) @
        (case vget doc ''volumes'' of Some (VDict vs) \<Rightarrow> List.map_filter (device_source \<circ> snd) vs | _ \<Rightarrow> []))"

section \<open>Names and paths of stacks\<close>

definition COMPOSE_FILENAMES :: "string list" where
  "COMPOSE_FILENAMES = [''compose.yaml'', ''compose.yml'', ''docker-compose.yaml'', ''docker-compose.yml'']"

definition name_start :: "char \<Rightarrow> bool" where
  "name_start c = (is_lower_ascii c \<or> is_dec c)"

definition name_char :: "char \<Rightarrow> bool" where
  "name_char c = (name_start c \<or> c = CHR ''_'' \<or> c = CHR ''-'')"

text \<open>\<open>^[a-z0-9][a-z0-9_-]*$\<close>, where the dollar also matches before a final line break\<close>

definition VALID_NAME_PATTERN :: "string \<Rightarrow> bool" where
  "VALID_NAME_PATTERN name = (case name of [] \<Rightarrow> False
     | c # rest \<Rightarrow> name_start c \<and> (let rest = dropWhile name_char rest in rest = [] \<or> rest = [CHR 10]))"

definition validate_stack_name :: "string \<Rightarrow> bool" where
  "validate_stack_name name = (name \<noteq> [] \<and> length name \<le> 100 \<and> VALID_NAME_PATTERN name)"

fun squeeze :: "string \<Rightarrow> string" where
  \<comment> \<open>\<open>re.sub(r'-+', '-', s)\<close>\<close>
  "squeeze [] = []"
| "squeeze [c] = [c]"
| "squeeze (c # d # s) = (if c = CHR ''-'' \<and> d = CHR ''-'' then squeeze (d # s) else c # squeeze (d # s))"

definition strip_hyphens :: "string \<Rightarrow> string" where
  "strip_hyphens s = rstrip_char (CHR ''-'') (dropWhile (\<lambda>x. x = CHR ''-'') s)"

definition sanitize_stack_name :: "string \<Rightarrow> string" where
  "sanitize_stack_name name =
     (let safe = strip_hyphens (squeeze (map (\<lambda>c. if name_char c then c else CHR ''-'') (py_lower name)));
          safe = (if safe \<noteq> [] \<and> \<not> is_alnum (hd safe) then ''stack-'' @ safe else safe)
      in if safe = [] then ''unnamed-stack'' else safe)"

definition numbered :: "string \<Rightarrow> nat \<Rightarrow> string" where
  "numbered base_name counter = (if counter = 0 then base_name else base_name @ ''-'' @ nat_str counter)"

text \<open>The loop tries the name and then the numbered names; each try that fails uses up one of the names in use.\<close>

lemma numbered_inj: "numbered b i = numbered b j \<Longrightarrow> i = j"
proof -
  have "length (nat_str n) > 0" for n using nat_str_not_Nil by simp
  then have p: "numbered b (Suc n) \<noteq> b" for n by (auto simp: numbered_def)
  assume e: "numbered b i = numbered b j"
  show "i = j"
  proof (cases "i = 0 \<or> j = 0")
    case True
    with e p show ?thesis by (cases i; cases j) (auto simp: numbered_def)
  next
    case False
    with e have "nat_str i = nat_str j" by (simp add: numbered_def)
    then have "dec_val (nat_str i) = dec_val (nat_str j)" by simp
    then show ?thesis by (simp add: dec_val_nat_str)
  qed
qed

function unique_from :: "string \<Rightarrow> string list \<Rightarrow> nat \<Rightarrow> string" where
  "unique_from base_name existing counter =
     (if numbered base_name counter \<in> set existing then unique_from base_name existing (counter + 1)
      else numbered base_name counter)"
  by pat_completeness auto
termination
proof (relation "measure (\<lambda>(b, existing, k). card {i. k \<le> i \<and> numbered b i \<in> set existing})")
  fix b :: string and existing k
  assume "numbered b k \<in> set existing"
  have "finite {i. k \<le> i \<and> numbered b i \<in> set existing}"
    by (rule finite_subset [of _ "numbered b -` set existing"]) (auto intro!: finite_vimageI simp: inj_on_def dest: numbered_inj)
  moreover have "k \<in> {i. k \<le> i \<and> numbered b i \<in> set existing}" and "k \<notin> {i. k + 1 \<le> i \<and> numbered b i \<in> set existing}"
    and "{i. k + 1 \<le> i \<and> numbered b i \<in> set existing} \<subseteq> {i. k \<le> i \<and> numbered b i \<in> set existing}"
    using \<open>numbered b k \<in> set existing\<close> by auto
  then have "{i. k + 1 \<le> i \<and> numbered b i \<in> set existing} \<subset> {i. k \<le> i \<and> numbered b i \<in> set existing}" by blast
  ultimately show "((b, existing, k + 1), (b, existing, k)) \<in> measure (\<lambda>(b, existing, k). card {i. k \<le> i \<and> numbered b i \<in> set existing})"
    by (simp add: psubset_card_mono)
qed simp

declare unique_from.simps [simp del]

definition get_unique_stack_name :: "string \<Rightarrow> string list \<Rightarrow> string" where
  "get_unique_stack_name base_name existing_names = unique_from base_name existing_names 0"

text \<open>A path below the directory of the stacks: the directory itself or one of its entries.\<close>

datatype stack_path = Root | Child string

datatype stack_error = InvalidName | SymlinkNotAllowed | PathEscapes | UnsafeEnvName | InvalidCompose | StackExists | StackMissing | OsError

definition get_stack_path :: "folder \<Rightarrow> string \<Rightarrow> (stack_error, stack_path) res" where
  "get_stack_path stacks name =
     (if name = [] \<or> name = ''.'' then Inr Root
      else case dget stacks name of
             Some (Link _) \<Rightarrow> Inl SymlinkNotAllowed
           | _ \<Rightarrow> if name = ''..'' then Inl PathEscapes else Inr (Child name))"

definition node_at :: "folder \<Rightarrow> stack_path \<Rightarrow> node option" where
  "node_at stacks p = (case p of Root \<Rightarrow> Some (Folder stacks) | Child n \<Rightarrow> dget stacks n)"

definition find_compose_file :: "folder \<Rightarrow> string option" where
  "find_compose_file es = find (\<lambda>f. followed (dget es f) \<noteq> None) COMPOSE_FILENAMES"

definition stack_exists :: "folder \<Rightarrow> string \<Rightarrow> bool" where
  "stack_exists stacks name = (case get_stack_path stacks name of
      Inl _ \<Rightarrow> False | Inr p \<Rightarrow> find_compose_file (entries_of (node_at stacks p)) \<noteq> None)"

definition is_stack :: "string \<times> node \<Rightarrow> bool" where
  "is_stack d = (is_folder (Some (snd d)) \<and> find_compose_file (entries_of (Some (snd d))) \<noteq> None)"

definition find_stack_by_name :: "folder \<Rightarrow> string \<Rightarrow> string option" where
  "find_stack_by_name stacks name =
     map_option fst (find (\<lambda>d. py_lower (fst d) = py_lower name \<and> is_stack d) stacks)"

definition list_stacks :: "folder \<Rightarrow> string list" where
  "list_stacks stacks = sort (map fst (filter is_stack stacks))"

section \<open>Env files of a stack\<close>

definition referenced_env_filenames :: "yaml \<Rightarrow> string \<Rightarrow> string list" where
  "referenced_env_filenames load compose_yaml =
     filter (\<lambda>f. f \<notin> set COMPOSE_FILENAMES) (''.env'' # fst (parse_env_file_refs load compose_yaml))"

definition discovered_env_filenames :: "yaml \<Rightarrow> folder \<Rightarrow> string \<Rightarrow> string list" where
  "discovered_env_filenames load es compose_yaml =
     (let referenced = referenced_env_filenames load compose_yaml;
          bind_sources = parse_bind_mount_sources load compose_yaml
      in map fst (filter (\<lambda>(name, n). name \<notin> set referenced \<and> name \<notin> set COMPOSE_FILENAMES \<and> name \<notin> set bind_sources \<and>
           is_env_filename name \<and> is_safe_env_filename name \<and>
           (case n of RegFile text \<Rightarrow> utf8_size text \<le> MAX_ENV_FILE_BYTES | _ \<Rightarrow> False)) es))"

definition managed_env_filenames :: "yaml \<Rightarrow> folder \<Rightarrow> string \<Rightarrow> string list" where
  "managed_env_filenames load es compose_yaml =
     referenced_env_filenames load compose_yaml @ discovered_env_filenames load es compose_yaml"

definition read_text :: "node option \<Rightarrow> (stack_error, string) res" where
  "read_text n = (case followed n of Some (RegFile text) \<Rightarrow> Inr text | _ \<Rightarrow> Inl OsError)"

definition add_referenced :: "folder \<Rightarrow> string \<Rightarrow> (string, string) pydict \<Rightarrow> (string, string) pydict" where
  "add_referenced es fname files =
     (if \<not> is_safe_env_filename fname \<or> dhas files fname then files
      else case dget es fname of
             Some (Link _) \<Rightarrow> files
           | Some (RegFile text) \<Rightarrow> dset fname text files
           | _ \<Rightarrow> dset fname [] files)"

definition add_discovered :: "folder \<Rightarrow> string \<Rightarrow> (string, string) pydict \<Rightarrow> (string, string) pydict" where
  "add_discovered es fname files =
     (if dhas files fname then files
      else case dget es fname of
             Some (RegFile text) \<Rightarrow> if utf8_size text > MAX_ENV_FILE_BYTES then files else dset fname text files
           | _ \<Rightarrow> files)"

definition read_stack :: "yaml \<Rightarrow> folder \<Rightarrow> string \<Rightarrow> bool \<Rightarrow> (stack_error, string \<times> (string, string) pydict) res" where
  "read_stack load stacks name include_discovered =
     res_bind (get_stack_path stacks name) (\<lambda>p. let es = entries_of (node_at stacks p) in
       (case find_compose_file es of
          None \<Rightarrow> Inl StackMissing
        | Some f \<Rightarrow> res_bind (read_text (dget es f)) (\<lambda>compose_yaml.
            let files = (case dget es ''.env'' of Some (RegFile text) \<Rightarrow> [(''.env'', text)] | _ \<Rightarrow> []);
                files = fold (add_referenced es) (fst (parse_env_file_refs load compose_yaml)) files;
                files = (if include_discovered then fold (add_discovered es) (discovered_env_filenames load es compose_yaml) files
                         else files)
            in Inr (compose_yaml, files))))"

section \<open>Changing stacks\<close>

definition put_node :: "folder \<Rightarrow> stack_path \<Rightarrow> folder \<Rightarrow> folder" where
  "put_node stacks p es = (case p of Root \<Rightarrow> es | Child n \<Rightarrow> dset n (Folder es) stacks)"

text \<open>A temporary file renamed over the target: a link is replaced, a folder is not.\<close>

definition atomic_write_file :: "string \<Rightarrow> string \<Rightarrow> folder \<Rightarrow> (stack_error, folder) res" where
  "atomic_write_file fname content es = (case dget es fname of
      Some (Folder _) \<Rightarrow> Inl OsError | _ \<Rightarrow> Inr (dset fname (RegFile content) es))"

fun write_files :: "(string \<times> string) list \<Rightarrow> folder \<Rightarrow> folder \<times> (stack_error, unit) res" where
  "write_files [] es = (es, Inr ())"
| "write_files ((fname, content) # rest) es = (case atomic_write_file fname content es of
      Inl e \<Rightarrow> (es, Inl e) | Inr es' \<Rightarrow> write_files rest es')"

definition validate_compose_syntax :: "yaml \<Rightarrow> string \<Rightarrow> bool" where
  "validate_compose_syntax load compose_yaml = (strip compose_yaml = [] \<or> load compose_yaml \<noteq> None)"

definition write_stack ::
  "yaml \<Rightarrow> folder \<Rightarrow> string \<Rightarrow> string \<Rightarrow> (string, string) pydict \<Rightarrow> bool \<Rightarrow> folder \<times> (stack_error, unit) res" where
  "write_stack load stacks name compose_yaml env_files create_only =
     (if \<not> validate_stack_name name then (stacks, Inl InvalidName)
      else if \<not> validate_compose_syntax load compose_yaml then (stacks, Inl InvalidCompose)
      else if list_ex (\<lambda>(f, _). \<not> is_safe_env_filename f) env_files then (stacks, Inl UnsafeEnvName)
      else case get_stack_path stacks name of
        Inl e \<Rightarrow> (stacks, Inl e)
      | Inr p \<Rightarrow> (case node_at stacks p of
            Some (Folder es) \<Rightarrow> if create_only then (stacks, Inl StackExists)
              else (case write_files ((''compose.yaml'', compose_yaml) # map (\<lambda>(f, c). (normalize_env_filename f, c)) env_files) es of
                      (es', r) \<Rightarrow> (put_node stacks p es', r))
          | None \<Rightarrow> (case write_files ((''compose.yaml'', compose_yaml) # map (\<lambda>(f, c). (normalize_env_filename f, c)) env_files) [] of
                      (es', r) \<Rightarrow> (put_node stacks p es', r))
          | Some _ \<Rightarrow> (stacks, Inl (if create_only then StackExists else OsError))))"

definition delete_stack_files :: "folder \<Rightarrow> string \<Rightarrow> folder \<times> (stack_error, unit) res" where
  "delete_stack_files stacks name = (case get_stack_path stacks name of
      Inl e \<Rightarrow> (stacks, Inl e)
    | Inr Root \<Rightarrow> ([], Inr ())
    | Inr (Child n) \<Rightarrow> (case dget stacks n of
          None \<Rightarrow> (stacks, Inr ())
        | Some (Folder _) \<Rightarrow> (ddel n stacks, Inr ())
        | Some _ \<Rightarrow> (stacks, Inl OsError)))"

definition delete_env_file :: "yaml \<Rightarrow> folder \<Rightarrow> string \<Rightarrow> string \<Rightarrow> folder \<times> (stack_error, bool) res" where
  "delete_env_file load stacks name filename =
     (if \<not> validate_stack_name name then (stacks, Inl InvalidName)
      else if \<not> is_safe_env_filename filename then (stacks, Inl UnsafeEnvName)
      else let bare = normalize_env_filename filename in
        case get_stack_path stacks name of
          Inl e \<Rightarrow> (stacks, Inl e)
        | Inr p \<Rightarrow> let es = entries_of (node_at stacks p) in
            (case find_compose_file es of
               None \<Rightarrow> (stacks, Inr False)
             | Some f \<Rightarrow> (case read_text (dget es f) of
                   Inl e \<Rightarrow> (stacks, Inl e)
                 | Inr compose_yaml \<Rightarrow>
                     if bare \<notin> set (managed_env_filenames load es compose_yaml) then (stacks, Inr False)
                     else (case dget es bare of
                             Some (RegFile _) \<Rightarrow> (put_node stacks p (ddel bare es), Inr True)
                           | _ \<Rightarrow> (stacks, Inr False)))))"

text \<open>\<open>shutil.copytree\<close> with links followed: what can be copied is, and an entry that cannot raises at the end.\<close>

fun copied :: "node \<Rightarrow> node option" where
  "copied (RegFile text) = Some (RegFile text)"
| "copied (Folder es) = Some (Folder (List.map_filter (\<lambda>(n, t). map_option (\<lambda>t. (n, t)) t) (map (\<lambda>(n, t). (n, copied t)) es)))"
| "copied (Link None) = None"
| "copied (Link (Some t)) = copied t"
| "copied Special = None"

fun copies_fully :: "node \<Rightarrow> bool" where
  "copies_fully (RegFile text) = True"
| "copies_fully (Folder es) = list_all (\<lambda>(n, t). t) (map (\<lambda>(n, t). (n, copies_fully t)) es)"
| "copies_fully (Link None) = False"
| "copies_fully (Link (Some t)) = copies_fully t"
| "copies_fully Special = False"

definition copy_stack :: "folder \<Rightarrow> string \<Rightarrow> string \<Rightarrow> folder \<times> (stack_error, unit) res" where
  "copy_stack stacks source_name dest_name =
     (if \<not> validate_stack_name dest_name then (stacks, Inl InvalidName)
      else case (get_stack_path stacks source_name, get_stack_path stacks dest_name) of
        (Inl e, _) \<Rightarrow> (stacks, Inl e)
      | (_, Inl e) \<Rightarrow> (stacks, Inl e)
      | (Inr source, Inr dest) \<Rightarrow> (case node_at stacks source of
            None \<Rightarrow> (stacks, Inl StackMissing)
          | Some n \<Rightarrow> if node_at stacks dest \<noteq> None then (stacks, Inl StackExists)
              else (case (n, copied n) of
                  (Folder _, Some (Folder es)) \<Rightarrow> (put_node stacks dest es, if copies_fully n then Inr () else Inl OsError)
                | _ \<Rightarrow> (stacks, Inl OsError))))"

definition rename_stack_files :: "folder \<Rightarrow> string \<Rightarrow> string \<Rightarrow> folder \<times> (stack_error, unit) res" where
  "rename_stack_files stacks old_name new_name =
     (if \<not> validate_stack_name new_name then (stacks, Inl InvalidName)
      else case (get_stack_path stacks old_name, get_stack_path stacks new_name) of
        (Inl e, _) \<Rightarrow> (stacks, Inl e)
      | (_, Inl e) \<Rightarrow> (stacks, Inl e)
      | (Inr old, Inr new) \<Rightarrow> (case (node_at stacks old, node_at stacks new) of
            (None, _) \<Rightarrow> (stacks, Inl StackMissing)
          | (_, Some _) \<Rightarrow> (stacks, Inl StackExists)
          | (Some n, None) \<Rightarrow> (case (old, new) of
                (Child o', Child n') \<Rightarrow> (dset n' n (ddel o' stacks), Inr ())
              | _ \<Rightarrow> (stacks, Inl OsError))))" \<comment> \<open>a directory cannot move into itself\<close>

end
