(* ===== verification/StackFilesLaws.thy ===== *)
theory StackFilesLaws
  imports StackFiles
begin

text \<open>
  What the storage of stacks guarantees: what is written is read back, writing and deleting touch nothing but the named
  files, names made for a stack are accepted ones. Then runs in which the code does not keep what it means to.
\<close>

section \<open>Names\<close>

lemma name_char_plain: "name_char c \<Longrightarrow> c \<noteq> CHR ''/'' \<and> c \<noteq> CHR ''.'' \<and> c \<noteq> CHR 10"
  by (auto simp: name_char_def name_start_def is_lower_ascii_def is_dec_def ccode_def)

lemma valid_name_child: "validate_stack_name name \<Longrightarrow> name \<noteq> [] \<and> name \<noteq> ''.'' \<and> name \<noteq> ''..''"
  by (auto simp: validate_stack_name_def VALID_NAME_PATTERN_def name_start_def is_lower_ascii_def is_dec_def ccode_def)

lemma valid_path:
  assumes "validate_stack_name name" and "get_stack_path stacks name = Inr p"
  shows "p = Child name"
  using assms valid_name_child [OF assms(1)] by (auto simp: get_stack_path_def split: option.splits node.splits)

lemma squeeze_subset: "c \<in> set (squeeze s) \<Longrightarrow> c \<in> set s"
  by (induction s rule: squeeze.induct) (auto split: if_splits)

lemma strip_hyphens_subset: "c \<in> set (strip_hyphens s) \<Longrightarrow> c \<in> set s"
  unfolding strip_hyphens_def rstrip_char_def by (metis set_dropWhileD set_rev)

lemma strip_hyphens_hd: "strip_hyphens s \<noteq> [] \<Longrightarrow> hd (strip_hyphens s) \<noteq> CHR ''-''"
proof -
  let ?P = "\<lambda>x. x = CHR ''-''"
  define t where "t = dropWhile ?P s"
  have e: "strip_hyphens s = rev (dropWhile ?P (rev t))"
    by (simp add: strip_hyphens_def rstrip_char_def t_def)
  have "rev t = takeWhile ?P (rev t) @ dropWhile ?P (rev t)" by simp
  then have "t = rev (dropWhile ?P (rev t)) @ rev (takeWhile ?P (rev t))" by (metis rev_append rev_rev_ident)
  with e have u: "t = strip_hyphens s @ rev (takeWhile ?P (rev t))" by simp
  assume n: "strip_hyphens s \<noteq> []"
  with u have "t \<noteq> []" by (metis append_is_Nil_conv)
  then have "hd t \<noteq> CHR ''-''" using hd_dropWhile [of ?P s] by (simp add: t_def)
  with n u show ?thesis by (metis hd_append2)
qed

lemma clean_name_valid:
  "s \<noteq> [] \<Longrightarrow> name_start (hd s) \<Longrightarrow> list_all name_char s \<Longrightarrow> validate_stack_name s \<longleftrightarrow> length s \<le> 100"
  by (cases s) (auto simp: validate_stack_name_def VALID_NAME_PATTERN_def list_all_iff Let_def dropWhile_eq_Nil_conv)

text \<open>Proved as well: The name made from any text is accepted exactly when it has at most 100 characters.\<close>
theorem sanitized_names_are_valid:
  "validate_stack_name (sanitize_stack_name name) \<longleftrightarrow> length (sanitize_stack_name name) \<le> 100"
proof (rule clean_name_valid)
  define safe where "safe = strip_hyphens (squeeze (map (\<lambda>c. if name_char c then c else CHR ''-'') (py_lower name)))"
  have c: "list_all name_char safe"
    by (auto simp: list_all_iff safe_def name_char_def dest!: strip_hyphens_subset squeeze_subset)
  have h: "name_start (hd safe)" if "safe \<noteq> []" "is_alnum (hd safe)"
    using that c by (cases safe) (auto simp: name_char_def is_alnum_def is_alpha_def is_digit_def name_start_def
        is_lower_ascii_def is_upper_ascii_def is_dec_def ccode_def)
  have r: "sanitize_stack_name name = (if safe = [] then ''unnamed-stack'' else if is_alnum (hd safe) then safe else ''stack-'' @ safe)"
    by (simp add: sanitize_stack_name_def safe_def Let_def)
  show "sanitize_stack_name name \<noteq> []" by (simp add: r)
  show "name_start (hd (sanitize_stack_name name))"
    using h by (simp add: r name_start_def is_lower_ascii_def ccode_def)
  show "list_all name_char (sanitize_stack_name name)"
    using c by (simp add: r name_char_def name_start_def is_lower_ascii_def ccode_def)
qed

lemma unique_from_spec:
  "\<exists>k \<ge> counter. unique_from b existing counter = numbered b k \<and> numbered b k \<notin> set existing \<and>
     (\<forall>i. counter \<le> i \<and> i < k \<longrightarrow> numbered b i \<in> set existing)"
proof (induction b existing counter rule: unique_from.induct)
  case (1 b existing counter)
  show ?case
  proof (cases "numbered b counter \<in> set existing")
    case True
    from 1 [OF True] obtain k where "k \<ge> counter + 1" "unique_from b existing (counter + 1) = numbered b k"
      "numbered b k \<notin> set existing" and l: "\<forall>i. counter + 1 \<le> i \<and> i < k \<longrightarrow> numbered b i \<in> set existing" by blast
    moreover have "\<forall>i. counter \<le> i \<and> i < k \<longrightarrow> numbered b i \<in> set existing"
      using True l by (metis Suc_eq_plus1 le_SucE le_antisym not_less_eq_eq)
    ultimately show ?thesis using True by (intro exI [of _ k]) (simp add: unique_from.simps [of b existing counter])
  next
    case False
    then show ?thesis by (intro exI [of _ counter]) (auto simp: unique_from.simps [of b existing counter])
  qed
qed

text \<open>Proved as well: The search for a free name ends, with the first of the name and its numbered variants that is not in use.\<close>
theorem unique_names_are_found:
  "\<exists>k. get_unique_stack_name base_name existing = numbered base_name k \<and> numbered base_name k \<notin> set existing \<and>
     list_all (\<lambda>i. numbered base_name i \<in> set existing) [0..<k]"
  using unique_from_spec [of 0 base_name existing] by (auto simp: get_unique_stack_name_def list_all_iff)

section \<open>Writing and reading back\<close>

definition written :: "(string, string) pydict \<Rightarrow> string \<Rightarrow> string option" where
  \<comment> \<open>the last content given for a file\<close>
  "written env_files = map_of (rev (map (\<lambda>(f, c). (normalize_env_filename f, c)) env_files))"

lemma write_files_get:
  "write_files ws es = (es', Inr ()) \<Longrightarrow>
     dget es' g = (case map_of (rev ws) g of Some c \<Rightarrow> Some (RegFile c) | None \<Rightarrow> dget es g)"
proof (induction ws arbitrary: es)
  case (Cons w ws)
  obtain f c where w: "w = (f, c)" by (cases w)
  from Cons.prems obtain e where e: "atomic_write_file f c es = Inr e" and r: "write_files ws e = (es', Inr ())"
    by (auto simp: w split: sum.splits)
  then have "dget e g = (if g = f then Some (RegFile c) else dget es g)"
    by (auto simp: atomic_write_file_def split: option.splits node.splits)
  with Cons.IH [OF r] show ?case by (simp add: w map_of_append map_add_def split: option.splits)
qed simp

lemma write_files_frame: "g \<notin> fst ` set ws \<Longrightarrow> dget (fst (write_files ws es)) g = dget es g"
proof (induction ws arbitrary: es)
  case (Cons w ws)
  then show ?case
    by (cases w) (auto simp: atomic_write_file_def split: sum.splits option.splits node.splits)
qed simp

lemma safe_normalized: "is_safe_env_filename f \<Longrightarrow> is_safe_env_filename (normalize_env_filename f)"
proof -
  assume f: "is_safe_env_filename f"
  then have "CHR ''/'' \<notin> set (normalize_env_filename f)" by (simp add: is_safe_env_filename_def Let_def)
  then have "normalize_env_filename (normalize_env_filename f) = normalize_env_filename f"
    by (auto simp: normalize_env_filename_def [of "normalize_env_filename f"] starts_with_iff)
  with f show ?thesis by (simp add: is_safe_env_filename_def Let_def)
qed

lemma add_referenced_get:
  "dget (fold (add_referenced es) gs files) g =
     (case dget files g of Some t \<Rightarrow> Some t
      | None \<Rightarrow> if g \<in> set gs \<and> is_safe_env_filename g
          then (case dget es g of Some (Link _) \<Rightarrow> None | Some (RegFile t) \<Rightarrow> Some t | _ \<Rightarrow> Some []) else None)"
proof (induction gs arbitrary: files)
  case (Cons h gs)
  have one: "dget (add_referenced es h files) g =
      (case dget files g of Some t \<Rightarrow> Some t
      | None \<Rightarrow> if g = h \<and> is_safe_env_filename g
          then (case dget es g of Some (Link _) \<Rightarrow> None | Some (RegFile t) \<Rightarrow> Some t | _ \<Rightarrow> Some []) else None)"
    by (auto simp: add_referenced_def dhas_def split: option.splits node.splits)
  show ?case by (auto simp: Cons.IH one split: option.splits node.splits)
qed (simp split: option.splits)

lemma write_stack_ok:
  assumes "write_stack load stacks name compose_yaml env_files create_only = (stacks', Inr ())"
  obtains es es' where "validate_stack_name name" and "stacks' = dset name (Folder es') stacks"
    and "list_all (\<lambda>(f, _). is_safe_env_filename f) env_files"
    and "write_files ((''compose.yaml'', compose_yaml) # map (\<lambda>(f, c). (normalize_env_filename f, c)) env_files) es = (es', Inr ())"
proof -
  from assms have v: "validate_stack_name name" and s: "\<not> list_ex (\<lambda>(f, _). \<not> is_safe_env_filename f) env_files"
    and e: "\<exists>p. get_stack_path stacks name = Inr p"
    by (auto simp: write_stack_def split: if_splits sum.splits)
  from e valid_path [OF v] have p: "get_stack_path stacks name = Inr (Child name)" by blast
  from s have "list_all (\<lambda>(f, _). is_safe_env_filename f) env_files" by (auto simp: list_all_iff list_ex_iff)
  with that v assms s p show thesis
    by (auto simp: write_stack_def node_at_def put_node_def split: if_splits option.splits node.splits prod.splits simp del: write_files.simps)
qed



section \<open>What changes\<close>

text \<open>Proved as well: Writing a stack leaves every other stack alone, and of the stack itself every file but the compose file and the
  env files given.\<close>
theorem writes_touch_only_named_files:
  assumes "write_stack load stacks name compose_yaml env_files create_only = (stacks', r)"
    and "other \<noteq> name" and "g \<noteq> ''compose.yaml''" and "written env_files g = None"
  shows "dget stacks' other = dget stacks other \<and> dget (entries_of (dget stacks' name)) g = dget (entries_of (dget stacks name)) g"
proof -
  let ?ws = "(''compose.yaml'', compose_yaml) # map (\<lambda>(f, c). (normalize_env_filename f, c)) env_files"
  have "g \<notin> fst ` set (map (\<lambda>(f, c). (normalize_env_filename f, c)) env_files)"
    using assms(4) by (simp only: written_def map_of_eq_None_iff set_rev not_False_eq_True)
  then have g: "g \<notin> fst ` set ?ws" using assms(3) by simp
  define out where "out es = write_files ?ws es" for es
  have "stacks' = stacks \<or> (\<exists>es. entries_of (dget stacks name) = es \<and> stacks' = dset name (Folder (fst (out es))) stacks)"
  proof (cases "validate_stack_name name \<and> (\<exists>p. get_stack_path stacks name = Inr p)")
    case True
    with valid_path have "get_stack_path stacks name = Inr (Child name)" by blast
    with assms(1) show ?thesis
      unfolding write_stack_def out_def [symmetric]
      by (auto simp: node_at_def put_node_def entries_of_def split: if_splits option.splits node.splits prod.splits)
  next
    case False
    with assms(1) show ?thesis by (auto simp: write_stack_def split: if_splits sum.splits)
  qed
  then show ?thesis
    using assms(2) write_files_frame [OF g] by (auto simp: out_def entries_of_def simp del: write_files.simps)
qed

theorem writes_touch_only_named_files_witness:
  "let load = (\<lambda>s. Some VNone); stacks = [(''db'', Folder []), (''web'', Folder [(''data'', RegFile ''x'')])];
       stacks' = fst (write_stack load stacks ''web'' ''services: {}'' [(''.env'', ''A=1'')] False)
   in dget stacks' ''db'' = Some (Folder []) \<and> dget (entries_of (dget stacks' ''web'')) ''data'' = Some (RegFile ''x'')"
  unfolding Let_def
  using writes_touch_only_named_files [of "\<lambda>s. Some VNone" "[(''db'', Folder []), (''web'', Folder [(''data'', RegFile ''x'')])]"
      "''web''" "''services: {}''" "[(''.env'', ''A=1'')]" False _ _ "''db''" "''data''", OF surjective_pairing]
  by (simp add: written_def normalize_env_filename_def starts_with_def entries_of_def)

text \<open>The one entry that a deletion may remove.\<close>

definition deletable :: "yaml \<Rightarrow> folder \<Rightarrow> string \<Rightarrow> bool" where
  "deletable load es bare = ((case dget es bare of Some (RegFile _) \<Rightarrow> True | _ \<Rightarrow> False) \<and> bare \<notin> set COMPOSE_FILENAMES \<and>
     CHR ''/'' \<notin> set bare \<and>
     (case find_compose_file es of None \<Rightarrow> False
      | Some f \<Rightarrow> (case read_text (dget es f) of
            Inl _ \<Rightarrow> False
          | Inr compose_yaml \<Rightarrow> bare \<in> set (referenced_env_filenames load compose_yaml) \<or>
              is_env_filename bare \<and> bare \<notin> set (parse_bind_mount_sources load compose_yaml))))"

lemma managed_not_compose: "bare \<in> set (managed_env_filenames load es yaml) \<Longrightarrow> bare \<notin> set COMPOSE_FILENAMES"
  unfolding managed_env_filenames_def referenced_env_filenames_def discovered_env_filenames_def Let_def set_append set_map set_filter
  by auto

text \<open>C35: Deleting an env file changes nothing when it does not answer that it deleted; otherwise the one entry it removed
  was a regular file of the stack that is no compose file, and that the compose file refers to or - env-named - does not mount.\<close>
theorem deletion_is_contained:
  assumes "delete_env_file load stacks name filename = (stacks', r)"
  shows "if r = Inr True
    then deletable load (entries_of (dget stacks name)) (normalize_env_filename filename) \<and>
      stacks' = dset name (Folder (ddel (normalize_env_filename filename) (entries_of (dget stacks name)))) stacks
    else stacks' = stacks"
proof (cases "r = Inr True")
  case False
  with assms show ?thesis
    by (auto simp: delete_env_file_def Let_def split: if_splits sum.splits option.splits node.splits)
next
  case True
  let ?bare = "normalize_env_filename filename" and ?es = "entries_of (dget stacks name)"
  from True assms have v: "validate_stack_name name" and s: "is_safe_env_filename filename" and p: "\<exists>p. get_stack_path stacks name = Inr p"
    by (auto simp: delete_env_file_def Let_def split: if_splits sum.splits)
  from p valid_path [OF v] have path: "get_stack_path stacks name = Inr (Child name)" by blast
  have slash: "CHR ''/'' \<notin> set ?bare" using s by (simp add: is_safe_env_filename_def Let_def)
  from True assms v s path obtain f yaml content where f: "find_compose_file ?es = Some f" and y: "read_text (dget ?es f) = Inr yaml"
    and m: "?bare \<in> set (managed_env_filenames load ?es yaml)" and t: "dget ?es ?bare = Some (RegFile content)"
    and st: "stacks' = dset name (Folder (ddel ?bare ?es)) stacks"
    by (auto simp: delete_env_file_def Let_def node_at_def put_node_def split: if_splits sum.splits option.splits node.splits)
  have "?bare \<in> set (referenced_env_filenames load yaml) \<or> is_env_filename ?bare \<and> ?bare \<notin> set (parse_bind_mount_sources load yaml)"
    using m unfolding managed_env_filenames_def discovered_env_filenames_def Let_def set_append set_map set_filter by auto
  with True f y t st slash managed_not_compose [OF m] show ?thesis by (simp add: deletable_def)
qed

theorem deletion_is_contained_witness:
  "let load = (\<lambda>s. Some VNone); stacks = [(''web'', Folder [(''compose.yaml'', RegFile ''services: {}''), (''.env'', RegFile ''A=1'')])] in
   fst (delete_env_file load stacks ''web'' ''.env'') = [(''web'', Folder [(''compose.yaml'', RegFile ''services: {}'')])]
   \<and> fst (delete_env_file load stacks ''web'' ''compose.yaml'') = stacks"
proof -
  let ?load = "\<lambda>s :: string. Some VNone"
  let ?stacks = "[(''web'', Folder [(''compose.yaml'', RegFile ''services: {}''), (''.env'', RegFile ''A=1'')])]"
  have a: "delete_env_file ?load ?stacks ''web'' ''.env'' = (fst (delete_env_file ?load ?stacks ''web'' ''.env''), Inr True)"
    and b: "delete_env_file ?load ?stacks ''web'' ''compose.yaml'' = (fst (delete_env_file ?load ?stacks ''web'' ''compose.yaml''), Inr False)"
    by code_simp+
  have n: "dset ''web'' (Folder (ddel (normalize_env_filename ''.env'') (entries_of (dget ?stacks ''web'')))) ?stacks =
      [(''web'', Folder [(''compose.yaml'', RegFile ''services: {}'')])]" by code_simp
  from deletion_is_contained [OF a] n have "fst (delete_env_file ?load ?stacks ''web'' ''.env'') =
      [(''web'', Folder [(''compose.yaml'', RegFile ''services: {}'')])]" by (simp only: if_True refl)
  moreover from deletion_is_contained [OF b] have "fst (delete_env_file ?load ?stacks ''web'' ''compose.yaml'') = ?stacks"
    by (simp only: sum.inject bool.simps if_False)
  ultimately show ?thesis unfolding Let_def by (rule conjI)
qed

section \<open>What does not hold\<close>

lemma name_with_line_break_accepted: "validate_stack_name (''web'' @ [CHR 10])"
  by code_simp

lemma env_named_compose_replaces_it:
  "let r = write_stack (\<lambda>_. Some VNone) [] ''web'' ''services: {}'' [(''compose.yaml'', ''A=1'')] True
   in snd r = Inr () \<and> dget (entries_of (dget (fst r) ''web'')) ''compose.yaml'' = Some (RegFile ''A=1'')"
  by code_simp

text \<open>A compose file that names itself as an env file: what the editor shows, saved with a new compose text, keeps the old one.\<close>

lemma edit_of_self_reference_is_lost:
  "let load = (\<lambda>s. Some (VDict [(VStr ''services'', VDict [(VStr ''db'', VDict [(VStr ''env_file'', VStr ''compose.yaml'')])])]));
       stacks = fst (write_stack load [] ''web'' ''old'' [] True);
       files = (case read_stack load stacks ''web'' True of Inr (_, files) \<Rightarrow> files | Inl _ \<Rightarrow> []);
       r = write_stack load stacks ''web'' ''new'' files False
   in snd r = Inr () \<and> dget (entries_of (dget (fst r) ''web'')) ''compose.yaml'' = Some (RegFile ''old'')"
  by code_simp

lemma mounted_env_file_is_deleted:
  "let load = (\<lambda>s. Some (VDict [(VStr ''services'', VDict [(VStr ''db'', VDict [(VStr ''volumes'', VList [VStr ''./.env:/app/.env''])])])]));
       stacks = [(''web'', Folder [(''compose.yaml'', RegFile ''services''), (''.env'', RegFile ''A=1'')])] in
   ''.env'' \<in> set (parse_bind_mount_sources load ''services'') \<and> snd (delete_env_file load stacks ''web'' ''.env'') = Inr True"
  by code_simp

lemma dot_is_every_stack:
  "let stacks = [(''compose.yaml'', RegFile ''services: {}''), (''web'', Folder [])] in
   stack_exists stacks ''.'' \<and> delete_stack_files stacks ''.'' = ([], Inr ())"
  by code_simp

end
