(* ===== verification/BatchJobs.thy ===== *)
theory BatchJobs
  imports Keys PyValue
begin

text \<open>
  Bulk operations (\<open>backend/batch_manager.py\<close>) with the check for network dependencies
  (\<open>backend/updates/dependency_analyzer.py\<close>). A job's task and the tasks of its items are cut at their awaits: an item
  takes a slot of its host, the action runs elsewhere, its result is recorded, and the slot is given back. What the monitor,
  the update check and the update executor answer to a call is a parameter; broadcasts and the (Chinese) texts are left
  out, a message is a constructor.
\<close>

section \<open>Dependencies inside a batch\<close>

record batch_container =
  bc_host :: string
  bc_short :: string
  bc_id :: string
  bc_name :: string
  bc_state :: string

text \<open>The network mode that the Docker client of the host reports: \<open>None\<close> without a client or when the call raises.\<close>

type_synonym network_modes = "batch_container \<Rightarrow> string option"

definition container_map :: "batch_container list \<Rightarrow> (string, batch_container) pydict" where
  "container_map containers = fold (\<lambda>c d. dset (bc_host c @ '':'' @ bc_short c) c d) containers []"

definition find_provider_in_batch ::
  "string \<Rightarrow> string \<Rightarrow> string list \<Rightarrow> (string, batch_container) pydict \<Rightarrow> batch_container option" where
  "find_provider_in_batch provider_ref host_id container_ids cmap =
     find (\<lambda>other. bc_host other = host_id \<and>
         (provider_ref \<in> {bc_name other, bc_short other, bc_id other} \<or> starts_with provider_ref (bc_short other)))
       (List.map_filter (dget cmap) container_ids)"

definition check_network_dependency ::
  "network_modes \<Rightarrow> batch_container \<Rightarrow> string list \<Rightarrow> (string, batch_container) pydict \<Rightarrow> (string \<times> string) option" where
  \<comment> \<open>the names that the error message is made of\<close>
  "check_network_dependency modes container container_ids cmap = (case modes container of
      None \<Rightarrow> None
    | Some network_mode \<Rightarrow>
        if \<not> starts_with network_mode ''container:'' then None
        else map_option (\<lambda>provider. (bc_name container, bc_name provider))
               (find_provider_in_batch (drop 10 network_mode) (bc_host container) container_ids cmap))"

definition check_batch ::
  "network_modes \<Rightarrow> string list \<Rightarrow> (string, batch_container) pydict \<Rightarrow> (string \<times> string) option" where
  "check_batch modes container_ids cmap =
     (if length container_ids < 2 then None
      else case List.map_filter (\<lambda>container_id. case dget cmap container_id of
               None \<Rightarrow> None | Some container \<Rightarrow> check_network_dependency modes container container_ids cmap) container_ids of
             [] \<Rightarrow> None | conflict # _ \<Rightarrow> Some conflict)"

section \<open>Actions\<close>

datatype batch_call =
    StartContainer string string | StopContainer string string | RestartContainer string string
  | UpdateTags string string "pyval list" "pyval list" | SetAutoRestart string string pyval
  | SetAutoUpdate string string pyval string | SetDesiredState string string string
  | CheckUpdate string string | DeleteContainer string string pyval | RemoveImage string string pyval
  | UpdateContainer string string pyval

datatype call_answer = CallRaises string | CallDone bool \<comment> \<open>of an update: whether it succeeded; of a check: whether the image is local\<close>

datatype item_status = ItemQueued | ItemRunning | ItemSuccess | ItemError | ItemSkipped

datatype batch_message =
    ContainerNotFound | AlreadyRunning | AlreadyStopped | MissingParameter string | InvalidParameter string pyval
  | NoUpdateFound | UpdateFailed | UnknownAction string | Failed string | LocalImageSkipped
  | Performed string | TagsChanged bool nat | AutoUpdateSet bool string | DesiredStateShown bool

record batch_env =
  be_containers :: "string \<Rightarrow> batch_container list"
  be_has_update :: "string \<Rightarrow> bool"
  be_answer :: "batch_call \<Rightarrow> call_answer"

type_synonym item_result = "batch_call list \<times> item_status \<times> batch_message"

definition after_call :: "batch_env \<Rightarrow> batch_call \<Rightarrow> (bool \<Rightarrow> item_status \<times> batch_message) \<Rightarrow> item_result" where
  \<comment> \<open>the \<open>try\<close> around the action: an exception is an error with its text\<close>
  "after_call env call f = ([call], case be_answer env call of CallRaises e \<Rightarrow> (ItemError, Failed e) | CallDone b \<Rightarrow> f b)"

definition param :: "pyval option \<Rightarrow> string \<Rightarrow> pyval option" where
  "param params key = (case params of None \<Rightarrow> None | Some p \<Rightarrow> if truthy p then vget p key else None)"

definition tags_action :: "batch_env \<Rightarrow> string \<Rightarrow> string \<Rightarrow> bool \<Rightarrow> pyval option \<Rightarrow> item_result" where
  "tags_action env host_id short_id adding params = (case param params ''tags'' of
      None \<Rightarrow> ([], ItemError, MissingParameter ''tags'')
    | Some (VList tags) \<Rightarrow>
        after_call env (UpdateTags host_id short_id (if adding then tags else []) (if adding then [] else tags))
          (\<lambda>_. (ItemSuccess, TagsChanged adding (length tags)))
    | Some _ \<Rightarrow> ([], ItemError, Failed ''tags''))" \<comment> \<open>the monitor iterates the tags and they are counted: no list fails\<close>

definition auto_update_action :: "batch_env \<Rightarrow> string \<Rightarrow> string \<Rightarrow> pyval option \<Rightarrow> item_result" where
  "auto_update_action env host_id short_id params = (case param params ''enabled'' of
      None \<Rightarrow> ([], ItemError, MissingParameter ''enabled'')
    | Some enabled \<Rightarrow>
        let mode = (case param params ''floating_tag_mode'' of None \<Rightarrow> VStr ''exact'' | Some m \<Rightarrow> m) in
        (case mode of
           VStr m \<Rightarrow> if m \<in> {''exact'', ''patch'', ''minor'', ''latest''}
             then after_call env (SetAutoUpdate host_id short_id enabled m)
                    (\<lambda>_. (ItemSuccess, AutoUpdateSet (truthy enabled) (if truthy enabled then m else [])))
             else ([], ItemError, InvalidParameter ''floating_tag_mode'' mode)
         | _ \<Rightarrow> ([], ItemError, InvalidParameter ''floating_tag_mode'' mode)))"

definition desired_state_action :: "batch_env \<Rightarrow> string \<Rightarrow> string \<Rightarrow> pyval option \<Rightarrow> item_result" where
  "desired_state_action env host_id short_id params = (case param params ''desired_state'' of
      None \<Rightarrow> ([], ItemError, MissingParameter ''desired_state'')
    | Some (VStr s) \<Rightarrow> if s \<in> {''should_run'', ''on_demand'', ''unspecified''}
        then after_call env (SetDesiredState host_id short_id s) (\<lambda>_. (ItemSuccess, DesiredStateShown (s = ''should_run'')))
        else ([], ItemError, InvalidParameter ''desired_state'' (VStr s))
    | Some v \<Rightarrow> ([], ItemError, InvalidParameter ''desired_state'' v))"

definition perform_action :: "batch_env \<Rightarrow> string \<Rightarrow> string \<Rightarrow> string \<Rightarrow> pyval option \<Rightarrow> item_result" where
  "perform_action env action host_id short_id params =
     (let flag = (\<lambda>key. case param params key of None \<Rightarrow> VBool False | Some v \<Rightarrow> v);
          run = (\<lambda>call. after_call env call (\<lambda>_. (ItemSuccess, Performed action))) in
      if action = ''start'' then run (StartContainer host_id short_id)
      else if action = ''stop'' then run (StopContainer host_id short_id)
      else if action = ''restart'' then run (RestartContainer host_id short_id)
      else if action = ''add-tags'' \<or> action = ''remove-tags'' then tags_action env host_id short_id (action = ''add-tags'') params
      else if action = ''set-auto-restart'' then
        (case param params ''enabled'' of
           None \<Rightarrow> ([], ItemError, MissingParameter ''enabled'') | Some enabled \<Rightarrow> run (SetAutoRestart host_id short_id enabled))
      else if action = ''set-auto-update'' then auto_update_action env host_id short_id params
      else if action = ''set-desired-state'' then desired_state_action env host_id short_id params
      else if action = ''check-updates'' then
        after_call env (CheckUpdate host_id short_id) (\<lambda>local. (ItemSuccess, if local then LocalImageSkipped else Performed action))
      else if action = ''delete-containers'' then run (DeleteContainer host_id short_id (flag ''remove_volumes''))
      else if action = ''delete-images'' then run (RemoveImage host_id short_id (flag ''force''))
      else if action = ''update-containers'' then
        (case make_composite_key host_id short_id of
           Inl _ \<Rightarrow> ([], ItemError, Failed ''invalid key'')
         | Inr key \<Rightarrow> if \<not> be_has_update env key then ([], ItemError, NoUpdateFound)
             else after_call env (UpdateContainer host_id short_id (flag ''force_warn''))
                (\<lambda>ok. if ok then (ItemSuccess, Performed action) else (ItemError, UpdateFailed)))
      else ([], ItemError, UnknownAction action))"

definition needs_no_action :: "string \<Rightarrow> string \<Rightarrow> batch_message option" where
  "needs_no_action action state =
     (if action = ''start'' \<and> state = ''running'' then Some AlreadyRunning
      else if action = ''stop'' \<and> state \<in> {''exited'', ''stopped'', ''created''} then Some AlreadyStopped else None)"

definition execute_action :: "batch_env \<Rightarrow> string \<Rightarrow> string \<Rightarrow> string \<Rightarrow> pyval option \<Rightarrow> item_result" where
  "execute_action env action host_id container_id params =
     (let short_id = (if length container_id > 12 then take 12 container_id else container_id) in
      if action = ''delete-containers'' \<or> action = ''delete-images'' then perform_action env action host_id short_id params
      else case find (\<lambda>c. bc_short c = short_id) (be_containers env host_id) of
             None \<Rightarrow> ([], ItemError, ContainerNotFound)
           | Some c \<Rightarrow> (case needs_no_action action (bc_state c) of
                 Some m \<Rightarrow> ([], ItemSkipped, m)
               | None \<Rightarrow> perform_action env action host_id short_id params))"

section \<open>Jobs\<close>

datatype job_status = JobQueued | JobRunning | JobCompleted | JobPartial | JobFailed

record batch_job =
  bj_action :: string
  bj_params :: "pyval option"
  bj_status :: job_status
  bj_total :: nat
  bj_completed :: nat
  bj_success :: nat
  bj_error :: nat
  bj_skipped :: nat

record batch_item =
  bi_id :: nat
  bi_job :: string
  bi_container :: string
  bi_name :: string
  bi_host :: string
  bi_status :: item_status
  bi_message :: "batch_message option"

record batch_state =
  bs_jobs :: "(string, batch_job) pydict"
  bs_items :: "batch_item list"
  bs_next :: nat
  bs_slots :: "(nat \<times> string) list" \<comment> \<open>the items inside the semaphore of their host\<close>

definition SLOTS_PER_HOST :: nat where
  "SLOTS_PER_HOST = 5"

definition new_item :: "string \<Rightarrow> nat \<Rightarrow> string \<Rightarrow> string \<Rightarrow> string \<Rightarrow> batch_item" where
  "new_item job_id i container_id name host_id = \<lparr>bi_id = i, bi_job = job_id, bi_container = container_id, bi_name = name,
     bi_host = host_id, bi_status = ItemQueued, bi_message = None\<rparr>"

text \<open>What an id of the request becomes: container id, name and host; \<open>None\<close> is skipped.\<close>

definition image_target :: "pyval option \<Rightarrow> string \<Rightarrow> (string \<times> string \<times> string) option" where
  "image_target params composite_id = (case split_first (CHR '':'') composite_id of
      None \<Rightarrow> None
    | Some (host_id, image_id) \<Rightarrow>
        let names = (case param params ''image_names'' of Some v \<Rightarrow> v | None \<Rightarrow> VDict []) in
        Some (image_id, (case vget names composite_id of Some (VStr n) \<Rightarrow> n | _ \<Rightarrow> image_id), host_id))"

definition container_target :: "(string, batch_container) pydict \<Rightarrow> string \<Rightarrow> (string \<times> string \<times> string) option" where
  "container_target cmap container_id = map_option (\<lambda>c. (bc_short c, bc_name c, bc_host c)) (dget cmap container_id)"

fun number_items :: "string \<Rightarrow> nat \<Rightarrow> (string \<times> string \<times> string) list \<Rightarrow> batch_item list" where
  "number_items job_id i [] = []"
| "number_items job_id i ((cid, name, host) # ts) = new_item job_id i cid name host # number_items job_id (Suc i) ts"

definition create_job ::
  "network_modes \<Rightarrow> batch_container list \<Rightarrow> string \<Rightarrow> string \<Rightarrow> string \<Rightarrow> string list \<Rightarrow> pyval option \<Rightarrow> batch_state \<Rightarrow>
     ((string \<times> string), batch_state) res" where
  "create_job modes containers job_id scope action container_ids params s =
     (let cmap = container_map containers;
          conflict = (if scope \<noteq> ''image'' \<and> action = ''update-containers'' then check_batch modes container_ids cmap else None);
          target = (if scope = ''image'' then image_target params else container_target cmap);
          items = number_items job_id (bs_next s) (List.map_filter target container_ids)
      in case conflict of
           Some e \<Rightarrow> Inl e
         | None \<Rightarrow> Inr (s\<lparr>bs_jobs := dset job_id \<lparr>bj_action = action,
               bj_params = (case params of Some p \<Rightarrow> if truthy p then Some p else None | None \<Rightarrow> None),
               bj_status = JobQueued, bj_total = length container_ids, bj_completed = 0, bj_success = 0, bj_error = 0, bj_skipped = 0\<rparr>
               (bs_jobs s), bs_items := bs_items s @ items, bs_next := bs_next s + length items\<rparr>))"

definition start_job :: "string \<Rightarrow> batch_state \<Rightarrow> batch_state" where
  "start_job job_id s = (case dget (bs_jobs s) job_id of
      None \<Rightarrow> s | Some j \<Rightarrow> s\<lparr>bs_jobs := dset job_id (j\<lparr>bj_status := JobRunning\<rparr>) (bs_jobs s)\<rparr>)"

definition slots_of :: "string \<Rightarrow> batch_state \<Rightarrow> nat" where
  "slots_of host_id s = length (filter (\<lambda>(_, h). h = host_id) (bs_slots s))"

definition find_item :: "nat \<Rightarrow> batch_state \<Rightarrow> batch_item option" where
  "find_item i s = find (\<lambda>it. bi_id it = i) (bs_items s)"

definition set_item :: "nat \<Rightarrow> item_status \<Rightarrow> batch_message option \<Rightarrow> batch_state \<Rightarrow> batch_state" where
  "set_item i st msg s = s\<lparr>bs_items := map (\<lambda>it. if bi_id it = i then it\<lparr>bi_status := st, bi_message := msg\<rparr> else it) (bs_items s)\<rparr>"

definition start_item :: "nat \<Rightarrow> batch_state \<Rightarrow> batch_state" where
  "start_item i s = (case find_item i s of
      None \<Rightarrow> s
    | Some it \<Rightarrow> (set_item i ItemRunning None s)\<lparr>bs_slots := (i, bi_host it) # bs_slots s\<rparr>)"

definition count_result :: "item_status \<Rightarrow> batch_job \<Rightarrow> batch_job" where
  "count_result st j = (let j = j\<lparr>bj_completed := bj_completed j + 1\<rparr> in
     case st of ItemSuccess \<Rightarrow> j\<lparr>bj_success := bj_success j + 1\<rparr>
     | ItemError \<Rightarrow> j\<lparr>bj_error := bj_error j + 1\<rparr>
     | ItemSkipped \<Rightarrow> j\<lparr>bj_skipped := bj_skipped j + 1\<rparr>
     | _ \<Rightarrow> j)"

definition record_result :: "nat \<Rightarrow> item_status \<Rightarrow> batch_message \<Rightarrow> batch_state \<Rightarrow> batch_state" where
  "record_result i st msg s = (case find_item i s of
      None \<Rightarrow> s
    | Some it \<Rightarrow> (case dget (bs_jobs s) (bi_job it) of
          None \<Rightarrow> s
        | Some j \<Rightarrow> (set_item i st (Some msg) s)\<lparr>bs_jobs := dset (bi_job it) (count_result st j) (bs_jobs s)\<rparr>))"

definition finish_item :: "batch_env \<Rightarrow> nat \<Rightarrow> batch_state \<Rightarrow> batch_state" where
  "finish_item env i s = (case find_item i s of
      None \<Rightarrow> s
    | Some it \<Rightarrow> (case dget (bs_jobs s) (bi_job it) of
          None \<Rightarrow> record_result i ItemError (Failed ''Job not found'') s
        | Some j \<Rightarrow> (case execute_action env (bj_action j) (bi_host it) (bi_container it) (bj_params j) of
              (_, st, msg) \<Rightarrow> record_result i st msg s)))"

definition release_item :: "nat \<Rightarrow> batch_state \<Rightarrow> batch_state" where
  "release_item i s = s\<lparr>bs_slots := filter (\<lambda>(k, _). k \<noteq> i) (bs_slots s)\<rparr>"

definition final_status :: "batch_job \<Rightarrow> job_status" where
  "final_status j = (if bj_error j > 0 \<and> bj_success j > 0 then JobPartial else if bj_error j > 0 then JobFailed else JobCompleted)"

definition end_job :: "string \<Rightarrow> batch_state \<Rightarrow> batch_state" where
  "end_job job_id s = (case dget (bs_jobs s) job_id of
      None \<Rightarrow> s | Some j \<Rightarrow> s\<lparr>bs_jobs := dset job_id (j\<lparr>bj_status := final_status j\<rparr>) (bs_jobs s)\<rparr>)"

end
