(* ===== verification/BatchJobsLaws.thy ===== *)
theory BatchJobsLaws
  imports BatchJobs
begin

text \<open>
  What bulk operations guarantee: the counters of a job are those of its items along every interleaving, a host works on at
  most five items at once, and no accepted batch updates a container together with the provider of its network.
\<close>

section \<open>Runs\<close>

definition finished :: "item_status \<Rightarrow> bool" where
  "finished st = (st = ItemSuccess \<or> st = ItemError \<or> st = ItemSkipped)"

inductive batch_step :: "batch_state \<Rightarrow> batch_state \<Rightarrow> bool" where
  create: "\<not> dhas (bs_jobs s) job_id \<Longrightarrow>
    create_job modes containers job_id scope action container_ids params s = Inr s' \<Longrightarrow> batch_step s s'"
| begin_job: "dget (bs_jobs s) job_id = Some j \<Longrightarrow> bj_status j = JobQueued \<Longrightarrow> batch_step s (start_job job_id s)"
| begin_item: "find_item i s = Some it \<Longrightarrow> bi_status it = ItemQueued \<Longrightarrow> slots_of (bi_host it) s < SLOTS_PER_HOST \<Longrightarrow>
    dget (bs_jobs s) (bi_job it) = Some j \<Longrightarrow> bj_status j = JobRunning \<Longrightarrow> batch_step s (start_item i s)"
| end_item: "find_item i s = Some it \<Longrightarrow> bi_status it = ItemRunning \<Longrightarrow> batch_step s (finish_item env i s)"
| free_slot: "find_item i s = Some it \<Longrightarrow> finished (bi_status it) \<Longrightarrow> batch_step s (release_item i s)"
| finish_job: "dget (bs_jobs s) job_id = Some j \<Longrightarrow> bj_status j = JobRunning \<Longrightarrow>
    list_all (\<lambda>it. bi_job it = job_id \<longrightarrow> finished (bi_status it)) (bs_items s) \<Longrightarrow> batch_step s (end_job job_id s)"

inductive_cases batch_stepE [elim]: "batch_step s s'"

definition no_jobs :: batch_state where
  "no_jobs = \<lparr>bs_jobs = [], bs_items = [], bs_next = 1, bs_slots = []\<rparr>"

section \<open>Counting\<close>

definition cnt :: "string \<Rightarrow> item_status \<Rightarrow> batch_item list \<Rightarrow> nat" where
  "cnt job_id st items = length (filter (\<lambda>it. bi_job it = job_id \<and> bi_status it = st) items)"

definition counted :: "string \<Rightarrow> batch_job \<Rightarrow> batch_item list \<Rightarrow> bool" where
  "counted job_id j items = (bj_success j = cnt job_id ItemSuccess items \<and> bj_error j = cnt job_id ItemError items \<and>
     bj_skipped j = cnt job_id ItemSkipped items \<and> bj_completed j = bj_success j + bj_error j + bj_skipped j)"

lemma cnt_simps [simp]:
  "cnt job_id st [] = 0"
  "cnt job_id st (xs @ ys) = cnt job_id st xs + cnt job_id st ys"
  "cnt job_id st (it # xs) = (if bi_job it = job_id \<and> bi_status it = st then 1 else 0) + cnt job_id st xs"
  by (simp_all add: cnt_def)

lemma item_split:
  assumes "find_item i s = Some it" and "distinct (map bi_id (bs_items s))"
  obtains xs ys where "bs_items s = xs @ it # ys" and "bi_id it = i"
    and "bs_items (set_item i st msg s) = xs @ it\<lparr>bi_status := st, bi_message := msg\<rparr> # ys"
proof -
  from assms(1) have it: "it \<in> set (bs_items s)" "bi_id it = i" unfolding find_item_def by (auto dest: find_SomeD)
  then obtain xs ys where x: "bs_items s = xs @ it # ys" by (meson split_list)
  let ?f = "\<lambda>k. if bi_id k = i then k\<lparr>bi_status := st, bi_message := msg\<rparr> else k"
  have "i \<notin> bi_id ` set xs" "i \<notin> bi_id ` set ys" using assms(2) it(2) by (auto simp: x)
  then have "map ?f xs = xs" and "map ?f ys = ys" by (auto intro!: map_idI)
  then have "bs_items (set_item i st msg s) = xs @ it\<lparr>bi_status := st, bi_message := msg\<rparr> # ys"
    by (simp add: set_item_def x it)
  with that x it show thesis by blast
qed

lemma number_items_ids: "map bi_id (number_items job i ts) = [i..<i + length (number_items job i ts)]"
proof (induction job i ts rule: number_items.induct)
  case (2 job i cid name host ts)
  then show ?case by (simp add: new_item_def upt_conv_Cons del: upt_Suc)
qed simp

lemma number_items_new: "it \<in> set (number_items job i ts) \<Longrightarrow> bi_job it = job \<and> bi_status it = ItemQueued"
  by (induction job i ts rule: number_items.induct) (auto simp: new_item_def)

lemma finished_simps [simp]:
  "finished ItemSuccess" "finished ItemError" "finished ItemSkipped" "\<not> finished ItemQueued" "\<not> finished ItemRunning"
  by (simp_all add: finished_def)

lemma cnt_new: "finished st \<Longrightarrow> cnt k st (number_items job i ts) = 0"
  by (auto simp: cnt_def filter_empty_conv dest!: number_items_new)

lemma action_finishes: "execute_action env action host cid params = (calls, st, msg) \<Longrightarrow> finished st"
proof -
  have a: "(\<And>b. finished (fst (f b))) \<Longrightarrow> finished (fst (snd (after_call env call f)))" for call f
    by (simp add: after_call_def split: call_answer.split)
  have t: "finished (fst (snd (tags_action env host sid adding params)))" for host sid adding
    by (simp add: tags_action_def a split: option.split pyval.split)
  have u: "finished (fst (snd (auto_update_action env host sid params)))" for host sid
    by (simp add: auto_update_action_def Let_def a split: option.split pyval.split)
  have d: "finished (fst (snd (desired_state_action env host sid params)))" for host sid
    by (simp add: desired_state_action_def a split: option.split pyval.split)
  have p: "finished (fst (snd (perform_action env action host sid params)))" for sid
    unfolding perform_action_def Let_def by (simp add: a t u d split: option.split sum.split)
  assume e: "execute_action env action host cid params = (calls, st, msg)"
  have "finished (fst (snd (execute_action env action host cid params)))"
    unfolding execute_action_def Let_def by (simp add: p split: option.split)
  with e show ?thesis by simp
qed

section \<open>The invariant\<close>

definition batch_inv :: "batch_state \<Rightarrow> bool" where
  "batch_inv s = (distinct (map bi_id (bs_items s)) \<and> (\<forall>it \<in> set (bs_items s). bi_id it < bs_next s \<and> dhas (bs_jobs s) (bi_job it)) \<and>
     distinct (map fst (bs_slots s)) \<and>
     (\<forall>it \<in> set (bs_items s). bi_status it = ItemRunning \<longrightarrow> (bi_id it, bi_host it) \<in> set (bs_slots s)) \<and>
     (\<forall>(i, h) \<in> set (bs_slots s). \<exists>it \<in> set (bs_items s). bi_id it = i \<and> bi_status it \<noteq> ItemQueued) \<and>
     (\<forall>h. slots_of h s \<le> SLOTS_PER_HOST) \<and>
     (\<forall>job_id j. dget (bs_jobs s) job_id = Some j \<longrightarrow> counted job_id j (bs_items s) \<and>
        (bj_status j \<in> {JobCompleted, JobPartial, JobFailed} \<longrightarrow> bj_status j = final_status j \<and>
           (\<forall>it \<in> set (bs_items s). bi_job it = job_id \<longrightarrow> finished (bi_status it)))))"

lemma inv_create:
  assumes inv: "batch_inv s" and new: "\<not> dhas (bs_jobs s) job_id"
    and c: "create_job modes containers job_id scope action container_ids params s = Inr s'"
  shows "batch_inv s'"
proof -
  from c obtain ts j where jobs: "bs_jobs s' = dset job_id j (bs_jobs s)" and j: "bj_status j = JobQueued" "bj_completed j = 0"
      "bj_success j = 0" "bj_error j = 0" "bj_skipped j = 0"
    and items: "bs_items s' = bs_items s @ number_items job_id (bs_next s) ts"
    and next_id: "bs_next s' = bs_next s + length (number_items job_id (bs_next s) ts)" and slots: "bs_slots s' = bs_slots s"
    by (auto simp: create_job_def Let_def split: option.splits)
  have ids: "bi_id ` set (number_items job_id (bs_next s) ts) = {bs_next s..<bs_next s'}"
    using arg_cong [OF number_items_ids [of job_id "bs_next s" ts], of set] by (simp add: next_id)
  have old: "bi_job it \<noteq> job_id" if "it \<in> set (bs_items s)" for it using inv new that by (auto simp: batch_inv_def)
  then have z: "cnt job_id st (bs_items s) = 0" for st by (auto simp: cnt_def filter_empty_conv)
  have d: "distinct (map bi_id (bs_items s'))"
    using inv ids by (auto simp: items batch_inv_def number_items_ids)
  have n: "\<forall>it \<in> set (bs_items s'). bi_id it < bs_next s' \<and> dhas (bs_jobs s') (bi_job it)"
    using inv ids number_items_new by (fastforce simp: items jobs batch_inv_def next_id)
  have r: "\<forall>it \<in> set (bs_items s'). bi_status it = ItemRunning \<longrightarrow> (bi_id it, bi_host it) \<in> set (bs_slots s')"
    using inv number_items_new by (fastforce simp: items slots batch_inv_def)
  have jj: "counted k jk (bs_items s') \<and> (bj_status jk \<in> {JobCompleted, JobPartial, JobFailed} \<longrightarrow> bj_status jk = final_status jk \<and>
           (\<forall>it \<in> set (bs_items s'). bi_job it = k \<longrightarrow> finished (bi_status it)))" if "dget (bs_jobs s') k = Some jk" for k jk
  proof (cases "k = job_id")
    case True
    with that j show ?thesis by (simp add: jobs counted_def items z cnt_new finished_def)
  next
    case False
    with that have "dget (bs_jobs s) k = Some jk" by (simp add: jobs)
    with inv False number_items_new show ?thesis
      by (fastforce simp: batch_inv_def counted_def items cnt_new finished_def)
  qed
  have "slots_of h s' = slots_of h s" for h by (simp add: slots_of_def slots)
  with inv d n r jj show ?thesis unfolding batch_inv_def by (auto simp: slots items)
qed

lemma counted_status [simp]: "counted k (j\<lparr>bj_status := x\<rparr>) items = counted k j items"
  by (simp add: counted_def)

lemma final_status_status [simp]: "final_status (j\<lparr>bj_status := x\<rparr>) = final_status j"
  by (simp add: final_status_def)

lemma inv_begin_job:
  assumes "batch_inv s" and "dget (bs_jobs s) job_id = Some j"
  shows "batch_inv (start_job job_id s)"
  using assms unfolding batch_inv_def start_job_def by (auto simp: slots_of_def split: if_splits)

lemma inv_finish_job:
  assumes "batch_inv s" and "dget (bs_jobs s) job_id = Some j"
    and "list_all (\<lambda>it. bi_job it = job_id \<longrightarrow> finished (bi_status it)) (bs_items s)"
  shows "batch_inv (end_job job_id s)"
  using assms unfolding batch_inv_def end_job_def by (auto simp: slots_of_def list_all_iff split: if_splits)

lemma inv_free_slot:
  assumes inv: "batch_inv s" and i: "find_item i s = Some it" and f: "finished (bi_status it)"
  shows "batch_inv (release_item i s)"
proof -
  have d: "distinct (map bi_id (bs_items s))" using inv by (simp add: batch_inv_def)
  from i have it: "it \<in> set (bs_items s)" "bi_id it = i" unfolding find_item_def by (auto dest: find_SomeD)
  have other: "bi_id k \<noteq> i" if "k \<in> set (bs_items s)" "bi_status k = ItemRunning" for k
    using that it d f by (auto simp: distinct_map inj_on_def)
  have s: "slots_of h (release_item i s) \<le> slots_of h s" for h
    unfolding slots_of_def release_item_def by (simp, rule length_filter_imp, auto)
  show ?thesis
    using inv other order_trans [OF s] unfolding batch_inv_def
    by (auto simp: release_item_def distinct_map_filter)
qed

lemma inv_begin_item:
  assumes inv: "batch_inv s" and i: "find_item i s = Some it" and q: "bi_status it = ItemQueued"
    and free: "slots_of (bi_host it) s < SLOTS_PER_HOST" and j: "dget (bs_jobs s) (bi_job it) = Some j" and r: "bj_status j = JobRunning"
  shows "batch_inv (start_item i s)"
proof -
  have d: "distinct (map bi_id (bs_items s))" using inv by (simp add: batch_inv_def)
  from item_split [OF i d] obtain xs ys where x: "bs_items s = xs @ it # ys" and id: "bi_id it = i"
    and x': "bs_items (set_item i ItemRunning None s) = xs @ it\<lparr>bi_status := ItemRunning, bi_message := None\<rparr> # ys" by blast
  let ?it = "it\<lparr>bi_status := ItemRunning, bi_message := None\<rparr>"
  have items: "bs_items (start_item i s) = xs @ ?it # ys" and slots: "bs_slots (start_item i s) = (i, bi_host it) # bs_slots s"
    and jobs: "bs_jobs (start_item i s) = bs_jobs s" and nid: "bs_next (start_item i s) = bs_next s"
    using x' by (simp_all add: start_item_def i set_item_def)
  have ids: "i \<notin> bi_id ` set xs" "i \<notin> bi_id ` set ys" using d id by (auto simp: x)
  have fresh: "i \<notin> fst ` set (bs_slots s)"
  proof
    assume "i \<in> fst ` set (bs_slots s)"
    then obtain h where "(i, h) \<in> set (bs_slots s)" by auto
    with inv obtain k where "k \<in> set (bs_items s)" "bi_id k = i" "bi_status k \<noteq> ItemQueued" unfolding batch_inv_def by blast
    with ids q show False by (auto simp: x)
  qed
  have c: "counted k jk (xs @ ?it # ys) = counted k jk (bs_items s)" for k jk
    using q by (simp add: counted_def x)
  have n: "slots_of h (start_item i s) \<le> SLOTS_PER_HOST" for h
    using inv free by (auto simp: batch_inv_def slots_of_def slots)
  have final: "\<forall>it' \<in> set (xs @ ?it # ys). bi_job it' = k \<longrightarrow> finished (bi_status it')"
    if "dget (bs_jobs s) k = Some jk" "bj_status jk \<in> {JobCompleted, JobPartial, JobFailed}" for k jk
  proof -
    have "bi_job it \<noteq> k" using that j r by auto
    with that inv show ?thesis unfolding batch_inv_def x by auto
  qed
  have "distinct (map bi_id (xs @ ?it # ys))" using d by (simp add: x)
  moreover have "\<forall>k \<in> set (xs @ ?it # ys). bi_id k < bs_next s \<and> dhas (bs_jobs s) (bi_job k)"
    using inv by (auto simp: batch_inv_def x)
  moreover have "\<forall>k \<in> set (xs @ ?it # ys). bi_status k = ItemRunning \<longrightarrow> (bi_id k, bi_host k) \<in> set ((i, bi_host it) # bs_slots s)"
    using inv by (auto simp: batch_inv_def x id)
  moreover have "\<exists>k \<in> set (xs @ ?it # ys). bi_id k = a \<and> bi_status k \<noteq> ItemQueued" if "(a, h) \<in> set ((i, bi_host it) # bs_slots s)" for a h
  proof (cases "a = i")
    case True
    then show ?thesis by (simp add: id)
  next
    case False
    with that have "(a, h) \<in> set (bs_slots s)" by simp
    with inv obtain k where "k \<in> set (bs_items s)" "bi_id k = a" "bi_status k \<noteq> ItemQueued" unfolding batch_inv_def by blast
    with False show ?thesis by (auto simp: x id)
  qed
  ultimately show ?thesis
    using inv fresh n c final unfolding batch_inv_def items slots jobs nid by auto
qed

lemma inv_end_item:
  assumes inv: "batch_inv s" and i: "find_item i s = Some it" and r: "bi_status it = ItemRunning"
  shows "batch_inv (finish_item env i s)"
proof -
  have d: "distinct (map bi_id (bs_items s))" using inv by (simp add: batch_inv_def)
  from i have "it \<in> set (bs_items s)" unfolding find_item_def by (auto dest: find_SomeD)
  with inv obtain j where j: "dget (bs_jobs s) (bi_job it) = Some j" by (auto simp: batch_inv_def dhas_def)
  obtain calls st msg where e: "execute_action env (bj_action j) (bi_host it) (bi_container it) (bj_params j) = (calls, st, msg)"
    using prod_cases3 by blast
  then have fin: "finished st" by (rule action_finishes)
  from item_split [OF i d] obtain xs ys where x: "bs_items s = xs @ it # ys" and id: "bi_id it = i"
    and x': "bs_items (set_item i st (Some msg) s) = xs @ it\<lparr>bi_status := st, bi_message := Some msg\<rparr> # ys" by blast
  let ?it = "it\<lparr>bi_status := st, bi_message := Some msg\<rparr>" and ?s = "finish_item env i s"
  have items: "bs_items ?s = xs @ ?it # ys" and slots: "bs_slots ?s = bs_slots s" and nid: "bs_next ?s = bs_next s"
    and jobs: "bs_jobs ?s = dset (bi_job it) (count_result st j) (bs_jobs s)"
    using x' by (simp_all add: finish_item_def record_result_def i j e set_item_def)
  have open_job: "bj_status j \<notin> {JobCompleted, JobPartial, JobFailed}"
  proof
    assume "bj_status j \<in> {JobCompleted, JobPartial, JobFailed}"
    with inv j have "\<forall>k \<in> set (bs_items s). bi_job k = bi_job it \<longrightarrow> finished (bi_status k)" unfolding batch_inv_def by blast
    with r show False by (auto simp: x)
  qed
  have st: "bj_status (count_result st j) = bj_status j" using fin by (auto simp: count_result_def finished_def)
  have mine: "counted (bi_job it) (count_result st j) (xs @ ?it # ys)"
    using inv j r fin unfolding batch_inv_def by (auto simp: counted_def x count_result_def finished_def)
  have others: "counted k jk (xs @ ?it # ys)" if "dget (bs_jobs s) k = Some jk" "k \<noteq> bi_job it" for k jk
    using inv that unfolding batch_inv_def by (auto simp: counted_def x)
  have others_done: "\<forall>it' \<in> set (xs @ ?it # ys). bi_job it' = k \<longrightarrow> finished (bi_status it')"
    if "dget (bs_jobs s) k = Some jk" "bj_status jk \<in> {JobCompleted, JobPartial, JobFailed}" for k jk
    using inv that fin unfolding batch_inv_def x by auto
  have held: "\<exists>k \<in> set (xs @ ?it # ys). bi_id k = a \<and> bi_status k \<noteq> ItemQueued" if "(a, h) \<in> set (bs_slots s)" for a h
  proof -
    from inv that obtain k where "k \<in> set (bs_items s)" "bi_id k = a" "bi_status k \<noteq> ItemQueued" unfolding batch_inv_def by blast
    then show ?thesis using fin by (auto simp: x)
  qed
  have n: "slots_of h ?s = slots_of h s" for h by (simp add: slots_of_def slots)
  have jobs_ok: "counted k jk (xs @ ?it # ys) \<and> (bj_status jk \<in> {JobCompleted, JobPartial, JobFailed} \<longrightarrow> bj_status jk = final_status jk \<and>
      (\<forall>it' \<in> set (xs @ ?it # ys). bi_job it' = k \<longrightarrow> finished (bi_status it')))"
    if "dget (bs_jobs ?s) k = Some jk" for k jk
  proof (cases "k = bi_job it")
    case True
    with that have "jk = count_result st j" by (simp add: jobs)
    with True mine open_job st show ?thesis by auto
  next
    case False
    with that have k: "dget (bs_jobs s) k = Some jk" by (simp add: jobs)
    with inv have "bj_status jk \<in> {JobCompleted, JobPartial, JobFailed} \<longrightarrow> bj_status jk = final_status jk"
      unfolding batch_inv_def by blast
    with k False others others_done show ?thesis by blast
  qed
  have "distinct (map bi_id (xs @ ?it # ys))" using d by (simp add: x)
  moreover have "\<forall>k \<in> set (xs @ ?it # ys). bi_id k < bs_next s \<and> dhas (bs_jobs ?s) (bi_job k)"
    using inv by (auto simp: batch_inv_def x jobs)
  moreover have "\<forall>k \<in> set (xs @ ?it # ys). bi_status k = ItemRunning \<longrightarrow> (bi_id k, bi_host k) \<in> set (bs_slots s)"
    using inv fin by (auto simp: batch_inv_def x)
  ultimately show ?thesis
    using inv n held jobs_ok unfolding batch_inv_def items slots nid by auto
qed

lemma inv_step: "batch_step s s' \<Longrightarrow> batch_inv s \<Longrightarrow> batch_inv s'"
  by (erule batch_stepE)
    (auto intro: inv_create inv_begin_job inv_begin_item inv_end_item inv_free_slot inv_finish_job)

lemma inv_run: "batch_step\<^sup>*\<^sup>* no_jobs s \<Longrightarrow> batch_inv s"
proof (induction rule: rtranclp_induct)
  case base
  show ?case by (simp add: batch_inv_def no_jobs_def slots_of_def)
next
  case (step y z)
  from inv_step [OF step(2,3)] show ?case .
qed

section \<open>Properties\<close>


text \<open>C37: At every moment at most five items are at work on one host, over all jobs together.\<close>
theorem five_items_per_host:
  assumes "batch_step\<^sup>*\<^sup>* no_jobs s"
  shows "length (filter (\<lambda>it. bi_host it = host_id \<and> bi_status it = ItemRunning) (bs_items s)) \<le> 5"
proof -
  have inv: "batch_inv s" by (rule inv_run [OF assms])
  let ?running = "filter (\<lambda>it. bi_host it = host_id \<and> bi_status it = ItemRunning) (bs_items s)"
  let ?held = "filter (\<lambda>(_, h). h = host_id) (bs_slots s)"
  have "distinct (map bi_id ?running)" using inv by (simp add: batch_inv_def distinct_map_filter)
  then have len: "length ?running = card (bi_id ` set ?running)" using distinct_card [of "map bi_id ?running"] by simp
  have "bi_id ` set ?running \<subseteq> fst ` set ?held"
  proof (rule image_subsetI)
    fix it assume it: "it \<in> set ?running"
    then have "it \<in> set (bs_items s)" and "bi_status it = ItemRunning" by simp_all
    with inv have "(bi_id it, bi_host it) \<in> set (bs_slots s)" unfolding batch_inv_def by blast
    with it show "bi_id it \<in> fst ` set ?held" by (auto intro: rev_image_eqI)
  qed
  then have "card (bi_id ` set ?running) \<le> card (fst ` set ?held)" by (rule card_mono [rotated]) simp
  with len have "length ?running \<le> card (fst ` set ?held)" by simp
  also have "... \<le> length ?held" using card_length [of "map fst ?held"] by simp
  also have "... \<le> SLOTS_PER_HOST" using inv by (auto simp: batch_inv_def slots_of_def)
  finally show ?thesis by (simp add: SLOTS_PER_HOST_def)
qed

definition sample_env :: batch_env where
  "sample_env = \<lparr>be_containers = (\<lambda>_. [\<lparr>bc_host = ''h1'', bc_short = ''0123456789ab'', bc_id = ''0123456789ab'', bc_name = ''web'', bc_state = ''exited''\<rparr>]),
     be_has_update = (\<lambda>_. False), be_answer = (\<lambda>_. CallDone True)\<rparr>"

definition sample1 :: batch_state where
  "sample1 = (case create_job (\<lambda>_. None) (be_containers sample_env ''h1'') ''job_1'' ''container'' ''start''
     [''h1:0123456789ab'', ''h1:ffffffffffff''] None no_jobs of Inr s \<Rightarrow> s | Inl _ \<Rightarrow> no_jobs)"

definition sample2 :: batch_state where "sample2 = start_job ''job_1'' sample1"
definition sample3 :: batch_state where "sample3 = start_item 1 sample2"
definition sample4 :: batch_state where "sample4 = finish_item sample_env 1 sample3"
definition sample5 :: batch_state where "sample5 = end_job ''job_1'' sample4"

lemma sample_run: "batch_step\<^sup>*\<^sup>* no_jobs sample3" "batch_step\<^sup>*\<^sup>* no_jobs sample5"
proof -
  have "batch_step no_jobs sample1"
    by (rule batch_step.create [of _ "''job_1''" "\<lambda>_. None" "be_containers sample_env ''h1''" "''container''" "''start''"
          "[''h1:0123456789ab'', ''h1:ffffffffffff'']" None]) (simp add: no_jobs_def, code_simp)
  moreover have "batch_step sample1 sample2"
    unfolding sample2_def by (rule batch_step.begin_job [where j = "the (dget (bs_jobs sample1) ''job_1'')"]; code_simp)
  moreover have "batch_step sample2 sample3"
    unfolding sample3_def
    by (rule batch_step.begin_item [where it = "the (find_item 1 sample2)" and j = "the (dget (bs_jobs sample2) ''job_1'')"]; code_simp)
  ultimately show r: "batch_step\<^sup>*\<^sup>* no_jobs sample3" by (meson converse_rtranclp_into_rtranclp rtranclp.rtrancl_refl)
  have "batch_step sample3 sample4"
    unfolding sample4_def by (rule batch_step.end_item [where it = "the (find_item 1 sample3)"]; code_simp)
  moreover have "batch_step sample4 sample5"
    unfolding sample5_def by (rule batch_step.finish_job [where j = "the (dget (bs_jobs sample4) ''job_1'')"]; code_simp)
  ultimately show "batch_step\<^sup>*\<^sup>* no_jobs sample5" using r by (meson rtranclp.rtrancl_into_rtrancl)
qed


theorem five_items_per_host_witness:
  "length (filter (\<lambda>it. bi_host it = ''h1'' \<and> bi_status it = ItemRunning) (bs_items sample3)) \<le> 5
   \<and> map bi_status (bs_items sample3) = [ItemRunning]"
  using five_items_per_host [OF sample_run(1), of "''h1''"] by (rule conjI) code_simp

text \<open>The second id of this request names no container: the job ends as completed although its counter stops at one of two.\<close>

lemma missing_containers_are_counted:
  "map_option (\<lambda>j. (bj_status j, bj_total j, bj_completed j)) (dget (bs_jobs sample5) ''job_1'') = Some (JobCompleted, 2, 1)"
  by code_simp

section \<open>Dependencies\<close>

lemma container_map_get: "dget (container_map cs) key = find (\<lambda>c. bc_host c @ '':'' @ bc_short c = key) (rev cs)"
proof (induction cs rule: rev_induct)
  case (snoc c cs)
  then show ?case by (simp add: container_map_def)
qed (simp add: container_map_def)

lemma map_filter_None: "List.map_filter f xs = [] \<longleftrightarrow> list_all (\<lambda>x. f x = None) xs"
  by (induction xs) (auto simp: map_filter_simps split: option.splits)

text \<open>Proved as well: A batch of updates that is accepted holds no container together with the provider of its network - named by its
  name, short id or id - where the Docker client of the host reports the network mode.\<close>
theorem accepted_updates_are_independent:
  assumes "create_job modes containers job_id ''container'' ''update-containers'' ids params s = Inr s'"
    and "a \<in> set ids" and "b \<in> set ids" and "a \<noteq> b"
    and "dget (container_map containers) a = Some c" and "dget (container_map containers) b = Some p"
    and "modes c = Some (''container:'' @ ref)" and "bc_host p = bc_host c"
  shows "ref \<notin> {bc_name p, bc_short p, bc_id p}"
proof
  assume ref: "ref \<in> {bc_name p, bc_short p, bc_id p}"
  let ?m = "container_map containers"
  have "check_batch modes ids ?m = None"
    using assms(1) by (simp add: create_job_def Let_def split: option.splits)
  moreover have "\<not> length ids < 2"
    using assms(2-4) by (cases ids; cases "tl ids") auto
  ultimately have "List.map_filter (\<lambda>i. case dget ?m i of None \<Rightarrow> None | Some x \<Rightarrow> check_network_dependency modes x ids ?m) ids = []"
    by (simp add: check_batch_def split: list.splits)
  with assms(2,5) have "check_network_dependency modes c ids ?m = None"
    unfolding map_filter_None list_all_iff by fastforce
  with assms(7) have none: "find_provider_in_batch ref (bc_host c) ids ?m = None"
    by (simp add: check_network_dependency_def starts_with_def)
  have "p \<in> set (List.map_filter (dget ?m) ids)" using assms(3,6) by (auto simp: List.map_filter_def intro!: rev_image_eqI)
  with none ref assms(8) show False by (auto simp: find_provider_in_batch_def find_None_iff)
qed

theorem accepted_updates_are_independent_witness:
  "let cs = [\<lparr>bc_host = ''h1'', bc_short = ''a'', bc_id = ''a'', bc_name = ''vpn'', bc_state = ''running''\<rparr>,
             \<lparr>bc_host = ''h1'', bc_short = ''b'', bc_id = ''b'', bc_name = ''app'', bc_state = ''running''\<rparr>];
       modes = (\<lambda>c. if bc_short c = ''b'' then Some ''container:db'' else Some ''bridge'') in
   is_ok (create_job modes cs ''job_1'' ''container'' ''update-containers'' [''h1:a'', ''h1:b''] None no_jobs)
   \<and> ''db'' \<notin> {''vpn'', ''a'', ''a''}"
proof -
  let ?vpn = "\<lparr>bc_host = ''h1'', bc_short = ''a'', bc_id = ''a'', bc_name = ''vpn'', bc_state = ''running''\<rparr>"
  let ?app = "\<lparr>bc_host = ''h1'', bc_short = ''b'', bc_id = ''b'', bc_name = ''app'', bc_state = ''running''\<rparr>"
  let ?modes = "\<lambda>c :: batch_container. if bc_short c = ''b'' then Some ''container:db'' else Some ''bridge''"
  let ?r = "create_job ?modes [?vpn, ?app] ''job_1'' ''container'' ''update-containers'' [''h1:a'', ''h1:b''] None no_jobs"
  have ok: "is_ok ?r" by code_simp
  then obtain s' where s': "?r = Inr s'" by (auto simp: is_ok_iff)
  have a: "dget (container_map [?vpn, ?app]) ''h1:b'' = Some ?app" and b: "dget (container_map [?vpn, ?app]) ''h1:a'' = Some ?vpn"
    by code_simp+
  from accepted_updates_are_independent [OF s' _ _ _ a b, of "''db''"] ok show ?thesis unfolding Let_def by simp
qed

text \<open>A host behind an agent has no Docker client, so nothing is checked there.\<close>

lemma agent_hosts_are_not_checked:
  "create_job (\<lambda>_. None) containers job_id scope action ids params s \<noteq> Inl e"
proof -
  have "check_network_dependency (\<lambda>_. None) c ids cmap = None" for c cmap by (simp add: check_network_dependency_def)
  then have "List.map_filter (\<lambda>i. case dget cmap i of None \<Rightarrow> None | Some x \<Rightarrow> check_network_dependency (\<lambda>_. None) x ids cmap) ids = []"
    for cmap unfolding map_filter_None by (simp add: list_all_iff split: option.split)
  then have "check_batch (\<lambda>_. None) ids cmap = None" for cmap by (simp add: check_batch_def)
  then show ?thesis by (simp add: create_job_def Let_def)
qed

end
