(* ===== verification/OidcLogin.thy ===== *)
theory OidcLogin
  imports GroupAdmin PyValue PyUrl
begin

text \<open>
  The login through an identity provider (\<open>backend/auth/oidc_auth_routes.py\<close>, \<open>utils/oidc.py\<close>): pending
  authorizations, the checks of what the provider answers, and the user with its groups that a login creates or updates. The provider, the JWT
  library and the digest of an access token are parameters; claims about a person that are not texts count as absent. The
  session itself is created by the store of theory \<open>Sessions\<close>; audit rows, notifications and log lines are left out, and so
  is the second path for a user that another process created at the same time.
\<close>

section \<open>Pending authorizations\<close>

record oidc_config =
  oc_enabled :: bool
  oc_provider_url :: "string option"
  oc_client_id :: "string option"
  oc_client_secret :: "string option"
  oc_scopes :: string
  oc_claim_for_groups :: string
  oc_default_group_id :: "int option"
  oc_disable_pkce_with_secret :: bool
  oc_redirect_uri_override :: "string option"
  oc_require_approval :: bool

record pending_auth =
  pe_state :: string
  pe_nonce :: string
  pe_code_verifier :: string
  pe_redirect_uri :: string
  pe_frontend_redirect :: string
  pe_expires_at :: time

definition PENDING_AUTH_EXPIRY_MINUTES :: int where
  "PENDING_AUTH_EXPIRY_MINUTES = 10"

text \<open>\<open>None\<close> is the \<open>ValueError\<close> of the URL library.\<close>

definition validate_redirect_url :: "string option \<Rightarrow> string option" where
  "validate_redirect_url redirect = (case redirect of
      None \<Rightarrow> Some ''/''
    | Some r \<Rightarrow>
        if r = [] then Some ''/''
        else map_option (\<lambda>(scheme, netloc).
          if scheme \<noteq> [] \<or> netloc \<noteq> [] then ''/''
          else if \<not> starts_with r ''/'' then ''/''
          else if starts_with r ''//'' \<or> starts_with r [CHR ''/'', CHR 92] \<or> starts_with r [CHR 92] then ''/''
          else r) (urlsplit r))"

definition words :: "string \<Rightarrow> string list" where
  \<comment> \<open>\<open>s.replace(',', ' ').split()\<close>\<close>
  "words s = filter (\<lambda>w. w \<noteq> [])
     (fold (\<lambda>c acc. if c = CHR '','' \<or> is_space c then acc @ [[]] else butlast acc @ [last acc @ [c]]) s [[]])"

definition build_scopes :: "oidc_config \<Rightarrow> string" where
  "build_scopes config = join_on (CHR '' '') (sort (remdups (words (oc_scopes config))))"

text \<open>One authorization: what is stored; the random values and the callback address are arguments.\<close>

definition drop_expired :: "time \<Rightarrow> pending_auth list \<Rightarrow> pending_auth list" where
  "drop_expired now ps = filter (\<lambda>p. \<not> pe_expires_at p < now) ps"

definition skip_pkce :: "oidc_config \<Rightarrow> bool" where
  "skip_pkce config = (oc_client_secret config \<noteq> None \<and> oc_client_secret config \<noteq> Some [] \<and> oc_disable_pkce_with_secret config)"

definition store_pending ::
  "oidc_config \<Rightarrow> time \<Rightarrow> string \<Rightarrow> string \<Rightarrow> string \<Rightarrow> string \<Rightarrow> string \<Rightarrow> pending_auth list \<Rightarrow> pending_auth list" where
  "store_pending config now state nonce verifier redirect_uri frontend ps =
     drop_expired now ps @ [\<lparr>pe_state = state, pe_nonce = nonce, pe_code_verifier = (if skip_pkce config then [] else verifier),
       pe_redirect_uri = redirect_uri, pe_frontend_redirect = frontend,
       pe_expires_at = now + secs (60 * PENDING_AUTH_EXPIRY_MINUTES)\<rparr>]"

datatype login_error =
    AuthFailed | MissingCode | InvalidState | SessionExpired | OidcDisabled | OidcNotConfigured | TokenVerificationFailed
  | TokenExchangeFailed | NoMatchingGroups | EmailConflict | PendingApproval

definition safe_frontend :: "string \<Rightarrow> string" where
  "safe_frontend f = (if f = [] \<or> \<not> starts_with f ''/'' \<or> starts_with f ''//'' then ''/'' else f)"

text \<open>The callback up to the point where the state is used up, on one reading of the clock.\<close>

definition take_pending ::
  "time \<Rightarrow> string option \<Rightarrow> string option \<Rightarrow> string option \<Rightarrow> pending_auth list \<Rightarrow> pending_auth list \<times> (login_error, pending_auth) res" where
  "take_pending now code state provider_error ps =
     (if provider_error \<noteq> None \<and> provider_error \<noteq> Some [] then (ps, Inl AuthFailed)
      else if code = None \<or> code = Some [] \<or> state = None \<or> state = Some [] then (ps, Inl MissingCode)
      else let live = drop_expired now ps in
        case find (\<lambda>p. Some (pe_state p) = state) live of
          None \<Rightarrow> (ps, Inl InvalidState) \<comment> \<open>the session ends without a commit\<close>
        | Some p \<Rightarrow>
            let rest = filter (\<lambda>q. pe_state q \<noteq> pe_state p) live in
            if now > pe_expires_at p then (rest, Inl SessionExpired)
            else (rest, Inr (p\<lparr>pe_frontend_redirect := safe_frontend (pe_frontend_redirect p)\<rparr>)))"

section \<open>What the provider answers\<close>

definition DISCOVERY_SUFFIX :: string where
  "DISCOVERY_SUFFIX = ''/.well-known/openid-configuration''"

definition normalize_provider_url :: "string \<Rightarrow> string" where
  "normalize_provider_url url = (let u = rstrip_char (CHR ''/'') url in
     if ends_with u DISCOVERY_SUFFIX then take (length u - length DISCOVERY_SUFFIX) u else u)"

definition build_discovery_url :: "string \<Rightarrow> string" where
  "build_discovery_url url = normalize_provider_url url @ DISCOVERY_SUFFIX"

datatype http_answer = HttpFails | StatusError | HttpJson pyval

text \<open>The JWT library: the header of a token, and its verified claims for a key, an algorithm, an audience and an issuer.\<close>

record oidc_provider =
  pv_get :: "string \<Rightarrow> http_answer"
  pv_exchange :: "string \<Rightarrow> string \<Rightarrow> pending_auth \<Rightarrow> oidc_config \<Rightarrow> http_answer"
  pv_userinfo :: "string \<Rightarrow> string \<Rightarrow> http_answer"
  pv_header :: "string \<Rightarrow> pyval option"
  pv_claims :: "string \<Rightarrow> pyval \<Rightarrow> string \<Rightarrow> string \<Rightarrow> string \<Rightarrow> pyval option"
  pv_at_hash :: "string \<Rightarrow> string \<Rightarrow> string"

definition text_of :: "pyval option \<Rightarrow> string option" where
  "text_of v = (case v of Some (VStr s) \<Rightarrow> if s = [] then None else Some s | _ \<Rightarrow> None)"

definition https :: "string \<Rightarrow> bool" where
  "https u = starts_with u ''https://''"

definition check_discovery :: "string \<Rightarrow> pyval \<Rightarrow> bool" where
  "check_discovery provider_url discovery =
     (list_all (\<lambda>key. case text_of (vget discovery key) of None \<Rightarrow> True | Some u \<Rightarrow> https u)
        [''issuer'', ''token_endpoint'', ''userinfo_endpoint'', ''jwks_uri''] \<and>
      (case text_of (vget discovery ''issuer'') of
         None \<Rightarrow> False | Some issuer \<Rightarrow> rstrip_char (CHR ''/'') issuer = provider_url))"

definition fetch_oidc_discovery :: "oidc_provider \<Rightarrow> string \<Rightarrow> pyval option" where
  "fetch_oidc_discovery pv url = (let provider_url = normalize_provider_url url in
     if \<not> https provider_url then None
     else case pv_get pv (build_discovery_url provider_url) of
            HttpJson discovery \<Rightarrow> if check_discovery provider_url discovery then Some discovery else None
          | _ \<Rightarrow> None)"

text \<open>The cache of key sets; the clock is in whole seconds.\<close>

type_synonym jwks_cache = "(string, int \<times> pyval) pydict"

definition fetch_jwks :: "oidc_provider \<Rightarrow> int \<Rightarrow> string \<Rightarrow> jwks_cache \<Rightarrow> pyval option \<times> jwks_cache" where
  "fetch_jwks pv now uri cache =
     (let fresh = (\<lambda>ttl. case dget cache uri of Some (fetched, jwks) \<Rightarrow> if now - fetched < ttl then Some jwks else None | None \<Rightarrow> None) in
      case fresh 3600 of
        Some jwks \<Rightarrow> (Some jwks, cache)
      | None \<Rightarrow> (case pv_get pv uri of
            HttpJson jwks \<Rightarrow> (Some jwks, dset uri (now, jwks) cache)
          | _ \<Rightarrow> (fresh 86400, cache)))"

definition ALLOWED_JWT_ALGORITHMS :: "string list" where
  "ALLOWED_JWT_ALGORITHMS = [''RS256'', ''RS384'', ''RS512'', ''ES256'', ''ES384'', ''ES512'']"

definition signing_key :: "pyval \<Rightarrow> pyval list \<Rightarrow> pyval option" where
  "signing_key header keys =
     (let key = (case vget header ''kid'' of
             Some kid \<Rightarrow> if truthy kid then find (\<lambda>k. vget k ''kid'' = Some kid) keys else (case keys of [] \<Rightarrow> None | k # _ \<Rightarrow> Some k)
           | None \<Rightarrow> (case keys of [] \<Rightarrow> None | k # _ \<Rightarrow> Some k))
      in case key of
           None \<Rightarrow> None
         | Some k \<Rightarrow> if vget_or k ''kty'' (VStr ''RSA'') \<in> {VStr ''RSA'', VStr ''EC''} then Some k else None)"

definition verify_id_token :: "oidc_provider \<Rightarrow> string \<Rightarrow> pyval \<Rightarrow> string \<Rightarrow> string \<Rightarrow> string \<Rightarrow> pyval option" where
  "verify_id_token pv id_token jwks expected_issuer client_id expected_nonce = (case pv_header pv id_token of
      None \<Rightarrow> None
    | Some header \<Rightarrow>
        (case vget_or header ''alg'' (VStr ''RS256'') of
           VStr alg \<Rightarrow>
             if alg \<notin> set ALLOWED_JWT_ALGORITHMS then None
             else (case signing_key header (case vget jwks ''keys'' of Some (VList ks) \<Rightarrow> ks | _ \<Rightarrow> []) of
                     None \<Rightarrow> None
                   | Some key \<Rightarrow> (case pv_claims pv id_token key alg client_id expected_issuer of
                         None \<Rightarrow> None
                       | Some claims \<Rightarrow> if vget claims ''nonce'' = Some (VStr expected_nonce) then Some claims else None))
         | _ \<Rightarrow> None))"

definition at_hash_fits :: "oidc_provider \<Rightarrow> string \<Rightarrow> string \<Rightarrow> pyval \<Rightarrow> bool" where
  "at_hash_fits pv access_token id_token claims = (case vget claims ''at_hash'' of
      None \<Rightarrow> True
    | Some h \<Rightarrow> \<not> truthy h \<or> (case map_option (\<lambda>header. vget_or header ''alg'' (VStr ''RS256'')) (pv_header pv id_token) of
          Some (VStr alg) \<Rightarrow> alg \<notin> set ALLOWED_JWT_ALGORITHMS \<or> h = VStr (pv_at_hash pv alg access_token)
        | _ \<Rightarrow> True))"

record identity =
  id_subject :: string
  id_email :: "string option"
  id_preferred_username :: "string option"
  id_name :: "string option"
  id_groups :: "string list option" \<comment> \<open>\<open>None\<close> when no groups claim was sent\<close>

definition normalize_groups_claim :: "pyval \<Rightarrow> string list" where
  "normalize_groups_claim v = (case v of
      VStr s \<Rightarrow> [s]
    | VList xs \<Rightarrow> List.map_filter (\<lambda>x. case x of VStr s \<Rightarrow> Some s | _ \<Rightarrow> None) xs
    | VDict d \<Rightarrow> List.map_filter (\<lambda>(k, _). case k of VStr s \<Rightarrow> Some s | _ \<Rightarrow> None) d
    | _ \<Rightarrow> [])"

definition present :: "pyval option \<Rightarrow> pyval option" where
  "present v = (if v = Some VNone then None else v)"

definition read_identity :: "oidc_config \<Rightarrow> pyval \<Rightarrow> pyval option \<Rightarrow> (login_error, identity) res" where
  "read_identity config userinfo claims =
     (if \<not> is_dict userinfo \<or> \<not> truthy userinfo then Inl AuthFailed
      else case text_of (vget userinfo ''sub'') of
        None \<Rightarrow> Inl AuthFailed
      | Some sub \<Rightarrow>
          let email = text_of (vget userinfo ''email'');
              preferred = (case text_of (vget userinfo ''preferred_username'') of Some p \<Rightarrow> Some p | None \<Rightarrow> email);
              shown = (case vget userinfo ''name'' of None \<Rightarrow> preferred | n \<Rightarrow> text_of n);
              groups_raw = (case present (vget userinfo (oc_claim_for_groups config)) of
                  Some g \<Rightarrow> Some g
                | None \<Rightarrow> (case claims of None \<Rightarrow> None | Some c \<Rightarrow> present (vget c (oc_claim_for_groups config))));
              token_sub = (case claims of None \<Rightarrow> None | Some c \<Rightarrow> text_of (vget c ''sub''))
          in if token_sub \<noteq> None \<and> token_sub \<noteq> Some sub then Inl AuthFailed
             else Inr \<lparr>id_subject = sub, id_email = email, id_preferred_username = preferred, id_name = shown,
                id_groups = map_option normalize_groups_claim groups_raw\<rparr>)"

text \<open>The callback from the used-up state to the identity. \<open>now\<close> is the monotonic clock of the key cache.\<close>

definition token_claims ::
  "oidc_provider \<Rightarrow> int \<Rightarrow> oidc_config \<Rightarrow> pyval \<Rightarrow> pending_auth \<Rightarrow> string \<Rightarrow> string \<Rightarrow> jwks_cache \<Rightarrow> (login_error, pyval) res \<times> jwks_cache" where
  "token_claims pv now config discovery pending access_token id_token cache = (case text_of (vget discovery ''jwks_uri'') of
      None \<Rightarrow> (Inl AuthFailed, cache)
    | Some uri \<Rightarrow> (case fetch_jwks pv now uri cache of
          (None, cache) \<Rightarrow> (Inl TokenVerificationFailed, cache)
        | (Some jwks, cache) \<Rightarrow>
            (case (text_of (vget discovery ''issuer''), oc_client_id config) of
               (Some issuer, Some client_id) \<Rightarrow>
                 (case verify_id_token pv id_token jwks issuer client_id (pe_nonce pending) of
                    None \<Rightarrow> (Inl TokenVerificationFailed, cache)
                  | Some claims \<Rightarrow> (if at_hash_fits pv access_token id_token claims then Inr claims else Inl TokenVerificationFailed, cache))
             | _ \<Rightarrow> (Inl TokenVerificationFailed, cache))))"

definition identify ::
  "oidc_provider \<Rightarrow> int \<Rightarrow> oidc_config option \<Rightarrow> string \<Rightarrow> pending_auth \<Rightarrow> jwks_cache \<Rightarrow> (login_error, identity) res \<times> jwks_cache" where
  "identify pv now cfg code pending cache = (case cfg of
      None \<Rightarrow> (Inl OidcDisabled, cache)
    | Some config \<Rightarrow>
        if \<not> oc_enabled config then (Inl OidcDisabled, cache)
        else case oc_provider_url config of
          None \<Rightarrow> (Inl OidcNotConfigured, cache)
        | Some url \<Rightarrow> if url = [] then (Inl OidcNotConfigured, cache)
            else (case fetch_oidc_discovery pv url of
              None \<Rightarrow> (Inl AuthFailed, cache)
            | Some discovery \<Rightarrow>
                (case text_of (vget discovery ''token_endpoint'') of
                   None \<Rightarrow> (Inl AuthFailed, cache)
                 | Some endpoint \<Rightarrow>
                     (case pv_exchange pv endpoint code pending config of
                        HttpFails \<Rightarrow> (Inl AuthFailed, cache)
                      | StatusError \<Rightarrow> (Inl TokenExchangeFailed, cache)
                      | HttpJson tokens \<Rightarrow>
                          (case text_of (vget tokens ''access_token'') of
                             None \<Rightarrow> (Inl AuthFailed, cache)
                           | Some access_token \<Rightarrow>
                               let id_token = text_of (vget tokens ''id_token'');
                                   (claims, cache) = (case id_token of
                                       None \<Rightarrow> (if ''openid'' \<in> set (words (oc_scopes config)) then Inl AuthFailed else Inr None, cache)
                                     | Some t \<Rightarrow> (case token_claims pv now config discovery pending access_token t cache of
                                           (Inl e, cache) \<Rightarrow> (Inl e, cache) | (Inr c, cache) \<Rightarrow> (Inr (Some c), cache)))
                               in (res_bind claims (\<lambda>claims.
                                    case text_of (vget discovery ''userinfo_endpoint'') of
                                      None \<Rightarrow> Inl AuthFailed
                                    | Some endpoint \<Rightarrow> (case pv_userinfo pv endpoint access_token of
                                          HttpJson userinfo \<Rightarrow> read_identity config userinfo claims
                                        | _ \<Rightarrow> Inl AuthFailed)), cache))))))"

section \<open>The user\<close>

record oidc_state =
  os_auth :: auth_state
  os_subjects :: "(string, int) pydict" \<comment> \<open>the unique column \<open>oidc_subject\<close> of the users\<close>

definition get_groups_for_oidc_user :: "(string \<times> int) list \<Rightarrow> oidc_config \<Rightarrow> string list \<Rightarrow> int list" where
  "get_groups_for_oidc_user mappings config oidc_groups =
     (let matched = map snd (filter (\<lambda>(v, _). v \<in> set oidc_groups) mappings) in
      if matched \<noteq> [] then remdups matched
      else case oc_default_group_id config of Some g \<Rightarrow> if g = 0 then [] else [g] | None \<Rightarrow> [])"

text \<open>The new memberships come in the order of the resolved groups (the code goes through a set).\<close>

definition sync_oidc_user_groups :: "int \<Rightarrow> int list \<Rightarrow> auth_db \<Rightarrow> auth_db" where
  "sync_oidc_user_groups user_id new_group_ids db =
     (let existing = map snd (filter (\<lambda>(u, _). u = user_id) (db_members db));
          added = filter (\<lambda>g. g \<notin> set existing) new_group_ids;
          removed = filter (\<lambda>g. g \<notin> set new_group_ids) existing;
          removed = (case admin_group db of
              None \<Rightarrow> removed
            | Some a \<Rightarrow> if g_id a \<in> set removed \<and> count_other_admins db user_id = 0 then filter (\<lambda>g. g \<noteq> g_id a) removed else removed)
      in db\<lparr>db_members := filter (\<lambda>(u, g). \<not> (u = user_id \<and> g \<in> set removed)) (db_members db) @ map (\<lambda>g. (user_id, g)) added\<rparr>)"

definition sync_profile :: "int \<Rightarrow> identity \<Rightarrow> auth_db \<Rightarrow> auth_db" where
  "sync_profile user_id ident db =
     (let taken = (\<lambda>e. list_ex (\<lambda>u. u_email u = Some e \<and> u_id u \<noteq> user_id) (db_users db)) in
      set_user user_id (\<lambda>u. u\<lparr>
        u_display_name := (case id_name ident of Some n \<Rightarrow> Some n | None \<Rightarrow> u_display_name u),
        u_email := (case id_email ident of Some e \<Rightarrow> if taken e then u_email u else Some e | None \<Rightarrow> u_email u)\<rparr>) db)"

definition login_known ::
  "(string \<times> int) list \<Rightarrow> oidc_config \<Rightarrow> identity \<Rightarrow> user_row \<Rightarrow> oidc_state \<Rightarrow> oidc_state \<times> (login_error, int) res" where
  "login_known mappings config ident user s =
     (let db = as_db (os_auth s); uid = u_id user;
          finish = (\<lambda>db. (s\<lparr>os_auth := (os_auth s)\<lparr>as_db := sync_profile uid ident db,
              as_cache := invalidate_user_groups_cache (Some uid) (as_cache (os_auth s))\<rparr>\<rparr>,
            if u_approved user then Inr uid else Inl PendingApproval))
      in case id_groups ident of
           None \<Rightarrow> finish db
         | Some groups \<Rightarrow>
             let ids = get_groups_for_oidc_user mappings config groups in
             if ids = [] then (s, Inl NoMatchingGroups) else finish (sync_oidc_user_groups uid ids db))"

definition sanitize_username :: "string \<Rightarrow> string" where
  "sanitize_username raw = take 64 (map (\<lambda>c. if is_lower_ascii c \<or> is_upper_ascii c \<or> is_dec c \<or>
       c \<in> {CHR ''.'', CHR ''_'', CHR ''@'', CHR ''-''} then c else CHR ''_'') raw)"

definition unused_username :: "string \<Rightarrow> auth_db \<Rightarrow> string option" where
  "unused_username base db =
     find (\<lambda>n. \<not> list_ex (\<lambda>u. u_username u = n) (db_users db))
       (base # map (\<lambda>k. base @ ''_'' @ nat_str k) [1..<100])"

definition raw_username :: "identity \<Rightarrow> string" where
  "raw_username ident = (case id_preferred_username ident of
      Some p \<Rightarrow> p | None \<Rightarrow> (case id_email ident of Some e \<Rightarrow> e | None \<Rightarrow> take 20 (id_subject ident)))"

definition first_groups :: "(string \<times> int) list \<Rightarrow> oidc_config \<Rightarrow> identity \<Rightarrow> auth_db \<Rightarrow> int list" where
  "first_groups mappings config ident db =
     (let mapped = get_groups_for_oidc_user mappings config (case id_groups ident of Some g \<Rightarrow> g | None \<Rightarrow> []) in
      if db_users db = [] then (case admin_group db of Some a \<Rightarrow> [g_id a] | None \<Rightarrow> mapped) else mapped)"

definition new_oidc_user :: "int \<Rightarrow> string \<Rightarrow> identity \<Rightarrow> bool \<Rightarrow> user_row" where
  "new_oidc_user new_id username ident approved =
     \<lparr>u_id = new_id, u_username = username, u_password_hash = ''!OIDC_NO_PASSWORD'', u_display_name = id_name ident,
      u_email = id_email ident, u_role = ''user'', u_auth_provider = ''oidc'', u_is_first_login = False,
      u_must_change_password = False, u_approved = approved\<rparr>"

definition login_new ::
  "(string \<times> int) list \<Rightarrow> oidc_config \<Rightarrow> int \<Rightarrow> identity \<Rightarrow> oidc_state \<Rightarrow> oidc_state \<times> (login_error, int) res" where
  "login_new mappings config new_id ident s =
     (let db = as_db (os_auth s) in
      if id_email ident \<noteq> None \<and> list_ex (\<lambda>u. u_email u = id_email ident) (db_users db) then (s, Inl EmailConflict)
      else case unused_username (sanitize_username (raw_username ident)) db of
        None \<Rightarrow> (s, Inl AuthFailed)
      | Some username \<Rightarrow>
          let group_ids = first_groups mappings config ident db;
              needs_approval = (oc_require_approval config \<and> db_users db \<noteq> [])
          in if group_ids = [] then (s, Inl NoMatchingGroups)
             else (s\<lparr>os_auth := (os_auth s)\<lparr>
                    as_db := db\<lparr>db_users := db_users db @ [new_oidc_user new_id username ident (\<not> needs_approval)],
                      db_members := db_members db @ map (\<lambda>g. (new_id, g)) group_ids\<rparr>,
                    as_cache := invalidate_user_groups_cache (Some new_id) (as_cache (os_auth s))\<rparr>,
                  os_subjects := dset (id_subject ident) new_id (os_subjects s)\<rparr>,
                if needs_approval then Inl PendingApproval else Inr new_id))"

definition login_identity ::
  "(string \<times> int) list \<Rightarrow> oidc_config \<Rightarrow> int \<Rightarrow> identity \<Rightarrow> oidc_state \<Rightarrow> oidc_state \<times> (login_error, int) res" where
  "login_identity mappings config new_id ident s =
     (case (case dget (os_subjects s) (id_subject ident) of None \<Rightarrow> None | Some i \<Rightarrow> find_user (as_db (os_auth s)) i) of
        Some user \<Rightarrow> login_known mappings config ident user s
      | None \<Rightarrow> login_new mappings config new_id ident s)"

end
