(* ===== verification/OidcLaws.thy ===== *)
theory OidcLaws
  imports OidcLogin AdminProps
begin

text \<open>
  What the login through a provider guarantees: a state is good once, an identity comes with a verified token, memberships
  follow the groups claim, the last administrator stays, only approved users get in, and the caches stay in step.
\<close>

section \<open>States\<close>

datatype oidc_event =
    Authorize oidc_config time string string string string string
  | Callback time "string option" "string option" "string option"

definition oidc_step :: "pending_auth list \<Rightarrow> oidc_event \<Rightarrow> pending_auth list" where
  "oidc_step ps e = (case e of
      Authorize config now state nonce verifier redirect_uri frontend \<Rightarrow>
        store_pending config now state nonce verifier redirect_uri frontend ps
    | Callback now code state err \<Rightarrow> fst (take_pending now code state err ps))"

definition reissues :: "string \<Rightarrow> oidc_event \<Rightarrow> bool" where
  "reissues st e = (case e of Authorize _ _ s _ _ _ _ \<Rightarrow> s = st | _ \<Rightarrow> False)"

lemma take_pending_subset: "set (fst (take_pending now code state err ps)) \<subseteq> set ps"
  by (auto simp: take_pending_def drop_expired_def Let_def split: option.splits)

lemma take_pending_Inr:
  assumes "take_pending now code (Some st) err ps = (ps', Inr p)"
  shows "pe_state p = st \<and> now \<le> pe_expires_at p \<and> st \<notin> pe_state ` set ps' \<and> (\<exists>q \<in> set ps. pe_state q = st \<and> pe_nonce q = pe_nonce p)"
  using assms by (auto simp: take_pending_def drop_expired_def Let_def split: if_splits option.splits dest!: find_SomeD)

interpretation pending: guarded_machine oidc_step "\<lambda>e. \<not> reissues st e" "\<lambda>ps. st \<notin> pe_state ` set ps" for st
  by unfold_locales
    (use take_pending_subset in \<open>fastforce simp: oidc_step_def reissues_def store_pending_def drop_expired_def split: oidc_event.splits\<close>)



section \<open>Identities\<close>

lemma discovery_issuer:
  "fetch_oidc_discovery pv url = Some d \<Longrightarrow> text_of (vget d ''issuer'') = Some i \<Longrightarrow>
     rstrip_char (CHR ''/'') i = normalize_provider_url url"
  by (auto simp: fetch_oidc_discovery_def check_discovery_def Let_def split: if_splits http_answer.splits)

definition vouched :: "oidc_provider \<Rightarrow> oidc_config \<Rightarrow> string \<Rightarrow> string \<Rightarrow> bool" where
  "vouched pv config nonce subject = (\<exists>token key alg client_id issuer claims.
     pv_claims pv token key alg client_id issuer = Some claims \<and> alg \<in> set ALLOWED_JWT_ALGORITHMS \<and>
     oc_client_id config = Some client_id \<and>
     (\<exists>url. oc_provider_url config = Some url \<and> rstrip_char (CHR ''/'') issuer = normalize_provider_url url) \<and>
     vget claims ''nonce'' = Some (VStr nonce) \<and> (text_of (vget claims ''sub'') = None \<or> text_of (vget claims ''sub'') = Some subject))"

lemma token_claims_Inr:
  assumes "token_claims pv now config discovery pending access_token id_token cache = (Inr claims, cache')"
  shows "\<exists>key alg client_id issuer. pv_claims pv id_token key alg client_id issuer = Some claims \<and> alg \<in> set ALLOWED_JWT_ALGORITHMS \<and>
     oc_client_id config = Some client_id \<and> text_of (vget discovery ''issuer'') = Some issuer \<and>
     vget claims ''nonce'' = Some (VStr (pe_nonce pending))"
proof -
  from assms obtain jwks issuer client_id where i: "text_of (vget discovery ''issuer'') = Some issuer" and c: "oc_client_id config = Some client_id"
    and v: "verify_id_token pv id_token jwks issuer client_id (pe_nonce pending) = Some claims"
    by (auto simp: token_claims_def split: option.splits prod.splits if_splits)
  from v obtain key alg where "pv_claims pv id_token key alg client_id issuer = Some claims" "alg \<in> set ALLOWED_JWT_ALGORITHMS"
    "vget claims ''nonce'' = Some (VStr (pe_nonce pending))"
    by (auto simp: verify_id_token_def split: option.splits pyval.splits if_splits)
  with i c show ?thesis by blast
qed

lemma read_identity_subject:
  assumes "read_identity config userinfo (Some c) = Inr ident"
  shows "text_of (vget c ''sub'') = None \<or> text_of (vget c ''sub'') = Some (id_subject ident)"
proof (cases "text_of (vget userinfo ''sub'')")
  case None
  with assms show ?thesis by (simp add: read_identity_def split: if_splits)
next
  case (Some sub)
  with assms show ?thesis by (auto simp: read_identity_def Let_def split: if_splits)
qed

text \<open>C22: When the scope openid is asked for, a person is identified only by a token that the JWT library verified for
  this client, with an allowed algorithm, the issuer of the configured provider and the nonce of this login, and whose
  subject is the person's.\<close>
theorem identities_are_vouched_for:
  assumes "identify pv now (Some config) code pending cache = (Inr ident, cache')"
    and "''openid'' \<in> set (words (oc_scopes config))"
  shows "vouched pv config (pe_nonce pending) (id_subject ident)"
proof -
  from assms(1) have "oc_enabled config" by (auto simp: identify_def split: if_splits)
  with assms(1) obtain url where url: "oc_provider_url config = Some url" "url \<noteq> []"
    by (auto simp: identify_def split: if_splits option.splits)
  with assms(1) \<open>oc_enabled config\<close> obtain d where d: "fetch_oidc_discovery pv url = Some d"
    by (auto simp: identify_def split: option.splits)
  with assms(1) url \<open>oc_enabled config\<close> obtain ep tokens where t: "text_of (vget d ''token_endpoint'') = Some ep"
      "pv_exchange pv ep code pending config = HttpJson tokens"
    by (auto simp: identify_def split: option.splits http_answer.splits)
  with assms(1) url \<open>oc_enabled config\<close> d obtain access where a: "text_of (vget tokens ''access_token'') = Some access"
    by (auto simp: identify_def split: option.splits)
  note facts = url \<open>oc_enabled config\<close> d t a
  obtain tok where tok: "text_of (vget tokens ''id_token'') = Some tok"
    using assms facts by (cases "text_of (vget tokens ''id_token'')") (auto simp: identify_def Let_def)
  obtain r c' where tc: "token_claims pv now config d pending access tok cache = (r, c')" by (rule prod.exhaust)
  obtain claims where r: "r = Inr claims"
    using assms(1) facts tok tc by (cases r) (auto simp: identify_def Let_def)
  obtain uep userinfo where u: "read_identity config userinfo (Some claims) = Inr ident"
    using assms(1) facts tok tc r by (auto simp: identify_def Let_def split: option.splits http_answer.splits)
  from token_claims_Inr [OF tc [unfolded r]] discovery_issuer [OF d] url(1) read_identity_subject [OF u]
  show ?thesis unfolding vouched_def by blast
qed

section \<open>Memberships\<close>

lemma groups_of_iff: "g \<in> set (groups_of db u) \<longleftrightarrow> (u, g) \<in> set (db_members db)"
  by (force simp: groups_of_def)

lemma sync_members:
  "(v, g) \<in> set (db_members (sync_oidc_user_groups u ids db)) \<longleftrightarrow>
     (if v = u then g \<in> set ids \<or> (u, g) \<in> set (db_members db) \<and> map_option g_id (admin_group db) = Some g \<and> count_other_admins db u = 0
      else (v, g) \<in> set (db_members db))"
proof -
  have i: "g \<in> snd ` {x \<in> S. case x of (w, _) \<Rightarrow> w = u} \<longleftrightarrow> (u, g) \<in> S" for g and S :: "(int \<times> int) set" by force
  show ?thesis by (auto simp: sync_oidc_user_groups_def Let_def i split: option.splits if_splits)
qed

lemma sync_fields [simp]:
  "db_users (sync_oidc_user_groups u ids db) = db_users db" "db_groups (sync_oidc_user_groups u ids db) = db_groups db"
  "db_perms (sync_oidc_user_groups u ids db) = db_perms db" "db_scopes (sync_oidc_user_groups u ids db) = db_scopes db"
  by (simp_all add: sync_oidc_user_groups_def Let_def)

lemma profile_fields [simp]:
  "db_members (sync_profile u ident db) = db_members db" "db_groups (sync_profile u ident db) = db_groups db"
  "db_perms (sync_profile u ident db) = db_perms db" "db_scopes (sync_profile u ident db) = db_scopes db"
  by (simp_all add: sync_profile_def Let_def)

lemma profile_user:
  "find_user (sync_profile u ident db) i = None \<longleftrightarrow> find_user db i = None"
  "find_user db i = Some r \<Longrightarrow> \<exists>r'. find_user (sync_profile u ident db) i = Some r' \<and> u_approved r' = u_approved r"
proof -
  show "find_user (sync_profile u ident db) i = None \<longleftrightarrow> find_user db i = None" by (simp add: sync_profile_def Let_def)
  let ?f = "\<lambda>r. if u_id r = u then r\<lparr>
        u_display_name := (case id_name ident of Some n \<Rightarrow> Some n | None \<Rightarrow> u_display_name r),
        u_email := (case id_email ident of Some e \<Rightarrow> if list_ex (\<lambda>u'. u_email u' = Some e \<and> u_id u' \<noteq> u) (db_users db) then u_email r else Some e
          | None \<Rightarrow> u_email r)\<rparr> else r"
  have "find_user (sync_profile u ident db) i = map_option ?f (find_user db i)"
    unfolding sync_profile_def set_user_def find_user_def Let_def by simp (rule find_map_id, simp)
  then show "find_user db i = Some r \<Longrightarrow> \<exists>r'. find_user (sync_profile u ident db) i = Some r' \<and> u_approved r' = u_approved r"
    by simp
qed

text \<open>C23: When the provider sends groups and some DockMon group follows from them, the groups of a known user are exactly
  those - but the last member of Administrators keeps that membership - and nobody else's groups change.\<close>
theorem memberships_follow_the_claim:
  assumes "id_groups ident = Some groups" and "get_groups_for_oidc_user mappings config groups \<noteq> []"
  shows "(v, g) \<in> set (db_members (as_db (os_auth (fst (login_known mappings config ident user s))))) \<longleftrightarrow>
    (let db = as_db (os_auth s) in
     if v = u_id user then g \<in> set (get_groups_for_oidc_user mappings config groups) \<or>
       (v, g) \<in> set (db_members db) \<and> map_option g_id (admin_group db) = Some g \<and> count_other_admins db v = 0
     else (v, g) \<in> set (db_members db))"
  using assms by (simp add: login_known_def Let_def sync_members)

definition keeps_admin :: "auth_db \<Rightarrow> bool" where
  "keeps_admin db = (case admin_group db of None \<Rightarrow> True | Some a \<Rightarrow> list_ex (\<lambda>(u, g). g = g_id a) (db_members db))"

lemma admin_group_same: "db_groups db' = db_groups db \<Longrightarrow> admin_group db' = admin_group db"
  by (simp add: admin_group_def)

lemma keeps_admin_iff: "keeps_admin db \<longleftrightarrow> (\<forall>a. admin_group db = Some a \<longrightarrow> (\<exists>u. (u, g_id a) \<in> set (db_members db)))"
  by (auto simp: keeps_admin_def list_ex_iff split: option.split)

lemma sync_keeps_admin: "keeps_admin db \<Longrightarrow> keeps_admin (sync_oidc_user_groups u ids db)"
proof -
  assume k: "keeps_admin db"
  have "\<exists>v. (v, g_id a) \<in> set (db_members (sync_oidc_user_groups u ids db))" if a: "admin_group db = Some a" for a
  proof (cases "count_other_admins db u = 0")
    case True
    from k a obtain v where v: "(v, g_id a) \<in> set (db_members db)" by (auto simp: keeps_admin_iff)
    have "(v, g_id a) \<in> set (db_members (sync_oidc_user_groups u ids db))" using v a True by (auto simp: sync_members)
    then show ?thesis by blast
  next
    case False
    then obtain v where "v \<noteq> u" "(v, g_id a) \<in> set (db_members db)"
      by (auto simp: count_other_admins_def a filter_empty_conv)
    then show ?thesis by (intro exI [of _ v]) (simp add: sync_members)
  qed
  then show ?thesis using admin_group_same [OF sync_fields(2)] by (simp add: keeps_admin_iff)
qed

lemma profile_keeps_admin [simp]: "keeps_admin (sync_profile u ident db) = keeps_admin db"
  using admin_group_same [OF profile_fields(2)] by (simp add: keeps_admin_iff)

text \<open>Proved as well: No login through the provider leaves the group Administrators, when it had a member, without one.\<close>
theorem logins_keep_an_administrator:
  assumes "keeps_admin (as_db (os_auth s))"
  shows "keeps_admin (as_db (os_auth (fst (login_identity mappings config new_id ident s))))"
proof -
  have known: "keeps_admin (as_db (os_auth (fst (login_known mappings config ident user s))))" for user
    using assms sync_keeps_admin by (simp add: login_known_def Let_def split: option.split)
  have new: "keeps_admin (as_db (os_auth (fst (login_new mappings config new_id ident s))))"
    using assms by (auto simp: login_new_def Let_def keeps_admin_iff admin_group_def split: option.split)
  show ?thesis using known new by (simp add: login_identity_def split: option.split)
qed

text \<open>Proved as well: A login succeeds only for an approved user, the one bound to the subject of the identity.\<close>
theorem only_approved_users_get_in:
  assumes "login_identity mappings config new_id ident s = (s', Inr uid)"
    and "find_user (as_db (os_auth s)) new_id = None"
  shows "dget (os_subjects s') (id_subject ident) = Some uid \<and>
    (\<exists>u. find_user (as_db (os_auth s')) uid = Some u \<and> u_approved u)"
proof (cases "case dget (os_subjects s) (id_subject ident) of None \<Rightarrow> None | Some i \<Rightarrow> find_user (as_db (os_auth s)) i")
  case (Some user)
  then obtain i where i: "dget (os_subjects s) (id_subject ident) = Some i" "find_user (as_db (os_auth s)) i = Some user"
    by (auto split: option.splits)
  then have id: "u_id user = i" unfolding find_user_def by (auto dest: find_SomeD)
  have f: "find_user (sync_oidc_user_groups u ids db) = find_user db" for u ids db by (simp add: find_user_def fun_eq_iff)
  from assms(1) Some have l: "login_known mappings config ident user s = (s', Inr uid)" by (simp add: login_identity_def)
  then have u: "uid = i" "u_approved user" "os_subjects s' = os_subjects s"
    using id by (auto simp: login_known_def Let_def split: option.splits if_splits)
  from l id have "as_db (os_auth s') = sync_profile i ident (as_db (os_auth s)) \<or>
      (\<exists>ids. as_db (os_auth s') = sync_profile i ident (sync_oidc_user_groups i ids (as_db (os_auth s))))"
    by (auto simp: login_known_def Let_def split: option.splits if_splits)
  then show ?thesis using u i profile_user(2) [of "as_db (os_auth s)" i user i ident]
      profile_user(2) [of "sync_oidc_user_groups i _ (as_db (os_auth s))" i user i ident] by (auto simp: f)
next
  case None
  with assms(1) have "login_new mappings config new_id ident s = (s', Inr uid)" by (simp add: login_identity_def)
  then show ?thesis using assms(2)
    by (auto simp: login_new_def Let_def find_user_def find_append new_oidc_user_def split: option.splits if_splits)
qed

lemma sync_groups_other:
  assumes "v \<noteq> u" shows "groups_of (sync_oidc_user_groups u ids db) v = groups_of db v"
proof -
  have "filter (\<lambda>(w, g). w = v) (map (\<lambda>g. (u, g)) gs) = []" for gs using assms by (induction gs) auto
  moreover have "filter (\<lambda>(w, g). w = v) (filter (\<lambda>(w, g). \<not> (w = u \<and> P g)) ms) = filter (\<lambda>(w, g). w = v) ms"
    for P :: "int \<Rightarrow> bool" and ms :: "(int \<times> int) list" using assms by (induction ms) auto
  ultimately show ?thesis by (simp add: sync_oidc_user_groups_def groups_of_def Let_def)
qed

text \<open>A change of the memberships of one user with the cached groups of that user dropped.\<close>

lemma sound_member_change:
  assumes "sound s" and "db_perms db = db_perms (as_db s)" "db_scopes db = db_scopes (as_db s)" "db_groups db = db_groups (as_db s)"
    and "\<And>v. v \<noteq> u \<Longrightarrow> groups_of db v = groups_of (as_db s) v"
    and "\<And>i. find_user (as_db s) i \<noteq> None \<Longrightarrow> find_user db i \<noteq> None" and "find_user db 0 = None"
  shows "sound (s\<lparr>as_db := db, as_cache := invalidate_user_groups_cache (Some u) (as_cache s)\<rparr>)"
proof -
  have inv: "agrees (as_db s) (as_cache s)" "perms_wf (as_db s)" "cached_users (as_db s) (as_cache s)" "find_group (as_db s) 0 = None"
    using assms(1) by (simp_all add: sound_iff)
  have "agrees db (invalidate_user_groups_cache (Some u) (as_cache s))"
    using inv(1) assms(2,3,5) unfolding agrees_def by auto
  moreover have "cached_users db (invalidate_user_groups_cache (Some u) (as_cache s))"
    using inv(3) assms(6) by (auto simp: cached_users_def dhas_def split: if_splits)
  ultimately show ?thesis using inv(2,4) assms(2,4,7) perms_wf_same [OF assms(2)] by (simp add: sound_iff find_group_def)
qed

text \<open>C24: A login changes users and memberships and drops the cached groups of its user in one step, so the caches of
  capabilities and hosts stay those of the tables.\<close>
theorem logins_keep_caches_current:
  assumes "sound (os_auth s)" and "find_user (as_db (os_auth s)) new_id = None" and "new_id \<noteq> 0"
  shows "sound (os_auth (fst (login_identity mappings config new_id ident s)))"
proof -
  let ?db = "as_db (os_auth s)" and ?c = "as_cache (os_auth s)"
  have zero: "find_user ?db 0 = None" using assms(1) by (simp add: sound_iff)
  have sync_users: "find_user (sync_oidc_user_groups u ids db) = find_user db" for u ids db
    by (simp add: find_user_def fun_eq_iff)
  have profile_groups: "groups_of (sync_profile u ident db) = groups_of db" for u db by (simp add: groups_of_def fun_eq_iff)
  have known: "sound (os_auth (fst (login_known mappings config ident user s)))" for user
  proof -
    have "sound ((os_auth s)\<lparr>as_db := sync_profile (u_id user) ident db, as_cache := invalidate_user_groups_cache (Some (u_id user)) ?c\<rparr>)"
      if "db = ?db \<or> (\<exists>ids. db = sync_oidc_user_groups (u_id user) ids ?db)" for db
      using that zero sync_groups_other
      by (intro sound_member_change [OF assms(1)]) (auto simp: profile_user(1) sync_users profile_groups)
    then show ?thesis using assms(1) by (auto simp: login_known_def Let_def split: option.split)
  qed
  have new: "sound (os_auth (fst (login_new mappings config new_id ident s)))"
  proof -
    have "sound ((os_auth s)\<lparr>as_db := ?db\<lparr>db_users := db_users ?db @ [new_oidc_user new_id n ident b],
        db_members := db_members ?db @ map (\<lambda>g. (new_id, g)) gs\<rparr>, as_cache := invalidate_user_groups_cache (Some new_id) ?c\<rparr>)" for n b gs
    proof (rule sound_member_change [OF assms(1)])
      show "groups_of (?db\<lparr>db_users := db_users ?db @ [new_oidc_user new_id n ident b],
          db_members := db_members ?db @ map (\<lambda>g. (new_id, g)) gs\<rparr>) v = groups_of ?db v" if "v \<noteq> new_id" for v
        using that groups_of_other(1) [of new_id v ?db gs] by (simp add: groups_of_def)
    qed (use assms(3) zero in \<open>auto simp: find_user_def find_append new_oidc_user_def split: option.split\<close>)
    then show ?thesis using assms(1) by (simp add: login_new_def Let_def split: option.split)
  qed
  show ?thesis using known new by (simp add: login_identity_def split: option.split)
qed

section \<open>Concrete logins\<close>

definition some_config :: oidc_config where
  "some_config = \<lparr>oc_enabled = True, oc_provider_url = Some ''https://id.example'', oc_client_id = Some ''dockmon'',
     oc_client_secret = None, oc_scopes = ''openid profile'', oc_claim_for_groups = ''groups'', oc_default_group_id = None,
     oc_disable_pkce_with_secret = False, oc_redirect_uri_override = None, oc_require_approval = False\<rparr>"

definition some_identity :: "string list option \<Rightarrow> identity" where
  "some_identity groups = \<lparr>id_subject = ''sub-1'', id_email = None, id_preferred_username = Some ''bob'', id_name = None, id_groups = groups\<rparr>"

definition some_state :: oidc_state where
  "some_state = \<lparr>os_auth = start small_db, os_subjects = [(''sub-1'', 2)]\<rparr>"

definition some_provider :: oidc_provider where
  "some_provider =
     (let discovery = VDict [(VStr ''issuer'', VStr ''https://id.example''), (VStr ''token_endpoint'', VStr ''https://id.example/t''),
            (VStr ''userinfo_endpoint'', VStr ''https://id.example/u''), (VStr ''jwks_uri'', VStr ''https://id.example/k'')];
          jwks = VDict [(VStr ''keys'', VList [VDict [(VStr ''kid'', VStr ''k1'')]])]
      in \<lparr>pv_get = (\<lambda>u. if u = ''https://id.example/k'' then HttpJson jwks else HttpJson discovery),
          pv_exchange = (\<lambda>_ _ _ _. HttpJson (VDict [(VStr ''access_token'', VStr ''a''), (VStr ''id_token'', VStr ''t'')])),
          pv_userinfo = (\<lambda>_ _. HttpJson (VDict [(VStr ''sub'', VStr ''sub-1''), (VStr ''preferred_username'', VStr ''bob'')])),
          pv_header = (\<lambda>_. Some (VDict [(VStr ''alg'', VStr ''RS256''), (VStr ''kid'', VStr ''k1'')])),
          pv_claims = (\<lambda>_ _ _ _ _. Some (VDict [(VStr ''sub'', VStr ''sub-1''), (VStr ''nonce'', VStr ''n'')])),
          pv_at_hash = (\<lambda>_ _. [])\<rparr>)"

definition some_pending :: pending_auth where
  "some_pending = \<lparr>pe_state = ''s'', pe_nonce = ''n'', pe_code_verifier = [], pe_redirect_uri = [], pe_frontend_redirect = ''/'', pe_expires_at = 9\<rparr>"

theorem identities_are_vouched_for_witness:
  "is_ok (fst (identify some_provider 0 (Some some_config) ''c'' some_pending [])) \<and> vouched some_provider some_config ''n'' ''sub-1''"
proof -
  let ?r = "identify some_provider 0 (Some some_config) ''c'' some_pending []"
  have ok: "is_ok (fst ?r)" by code_simp
  then obtain ident where i: "fst ?r = Inr ident" by (auto simp: is_ok_iff)
  then have r: "?r = (Inr ident, snd ?r)" by (simp add: prod_eq_iff)
  have sub: "(case fst ?r of Inr k \<Rightarrow> id_subject k | Inl _ \<Rightarrow> []) = ''sub-1''" and n: "pe_nonce some_pending = ''n''"
    and o: "''openid'' \<in> set (words (oc_scopes some_config))" by code_simp+
  from sub i have "id_subject ident = ''sub-1''" by simp
  with identities_are_vouched_for [OF r o] n ok show ?thesis by simp
qed

theorem memberships_follow_the_claim_witness:
  "((2 :: int, 1 :: int) \<in> set (db_members (as_db (os_auth (fst (login_known [(''admins'', 1)] some_config (some_identity (Some [''admins'']))
      (user_named 2 ''bob'') some_state))))))
   \<and> (2, 2) \<notin> set (db_members (as_db (os_auth (fst (login_known [(''admins'', 1)] some_config (some_identity (Some [''admins'']))
      (user_named 2 ''bob'') some_state)))))"
proof -
  have g: "id_groups (some_identity (Some [''admins''])) = Some [''admins'']"
    and n: "get_groups_for_oidc_user [(''admins'', 1)] some_config [''admins''] \<noteq> []" by code_simp+
  show ?thesis unfolding memberships_follow_the_claim [OF g n] by code_simp
qed

theorem logins_keep_an_administrator_witness:
  "keeps_admin (as_db (os_auth some_state))
   \<and> keeps_admin (as_db (os_auth (fst (login_identity [(''staff'', 2)] some_config 3 ((some_identity (Some [''staff'']))\<lparr>id_subject := ''sub-2''\<rparr>)
        (some_state\<lparr>os_subjects := [(''sub-2'', 1)]\<rparr>)))))"
proof -
  have "keeps_admin (as_db (os_auth some_state))"
    and k: "keeps_admin (as_db (os_auth (some_state\<lparr>os_subjects := [(''sub-2'', 1)]\<rparr>)))" by code_simp+
  then show ?thesis using logins_keep_an_administrator [OF k] by blast
qed

theorem only_approved_users_get_in_witness:
  "snd (login_identity [] some_config 3 (some_identity None) some_state) = Inr 2
   \<and> (\<exists>u. find_user (as_db (os_auth (fst (login_identity [] some_config 3 (some_identity None) some_state)))) 2 = Some u \<and> u_approved u)"
proof -
  let ?r = "login_identity [] some_config 3 (some_identity None) some_state"
  have s: "snd ?r = Inr 2" and f: "find_user (as_db (os_auth some_state)) 3 = None" by code_simp+
  then have r: "?r = (fst ?r, Inr 2)" by (simp add: prod_eq_iff)
  from only_approved_users_get_in [OF r f] s show ?thesis by blast
qed

theorem logins_keep_caches_current_witness:
  "sound (os_auth (fst (login_identity [(''admins'', 1)] some_config 3 (some_identity (Some [''admins''])) some_state)))"
proof (rule logins_keep_caches_current)
  show "sound (os_auth some_state)"
    by (simp add: some_state_def sound_iff start_def empty_auth_cache_def agrees_def cached_users_def, code_simp)
qed code_simp+

text \<open>An empty claim says that the provider took all groups away: the login is refused, but the memberships and with them
  every open session keep what they had.\<close>

lemma revoked_groups_stay:
  "login_identity mappings some_config 3 (some_identity (Some [])) some_state = (some_state, Inl NoMatchingGroups)"
  by (simp add: login_identity_def login_known_def get_groups_for_oidc_user_def some_state_def some_identity_def some_config_def
      find_user_def start_def small_db_def user_named_def)

text \<open>A subject is unique only at its provider; the user is looked up without it.\<close>

lemma provider_is_forgotten:
  "login_identity mappings (config\<lparr>oc_provider_url := u\<rparr>) new_id ident s = login_identity mappings config new_id ident s"
proof -
  let ?config = "config\<lparr>oc_provider_url := u\<rparr>"
  have groups: "get_groups_for_oidc_user mappings ?config = get_groups_for_oidc_user mappings config"
    by (simp add: get_groups_for_oidc_user_def fun_eq_iff)
  have approval: "oc_require_approval ?config = oc_require_approval config" by simp
  have "login_known mappings ?config = login_known mappings config"
    unfolding login_known_def fun_eq_iff groups by (intro allI refl)
  moreover have "login_new mappings ?config = login_new mappings config"
    unfolding login_new_def fun_eq_iff first_groups_def groups approval by (intro allI refl)
  ultimately show ?thesis unfolding login_identity_def by (simp only:)
qed

end
