(* ===== verification/Spec2Isabelle.thy ===== *)
theory Spec2Isabelle
  imports Prelude PyText PyValue Keys RateLimits
    SafeRegex AlertMetrics AlertRules AlertEngine AlertEngineLaws
    Blackout DeployState ContainerSpec AgentCommands HealthCheck PyUrl HealthProbe Sessions ClientIp
    Access GroupAdmin GroupAdminLaws AdminProps PyIp ApiKeys
    AgentRegistry AgentRegistryLaws AgentLinks AgentLinksLaws
    ImageTracking UpdateChecks UpdateCheckLaws UpdateRuns UpdateRunLaws
    WsFilter StatsStreams Broadcast LiveUpdates
    EvalService EvalEvents EvalServiceLaws
    AutoRestart AutoRestartLaws StickySettings StickySettingsLaws StatsHistory AgentMessages PortConflict ActionTokens SecurityCheck StackFiles StackFilesLaws BatchJobs BatchJobsLaws
    OidcLogin OidcLaws
begin

text \<open>
  A verification development for DockMon, a server that watches and operates Docker hosts. The
  server is a Python process (\<open>backend/\<close>) with an SQLite database, reached through HTTP and WebSocket
  routes; hosts are reached through the Docker SDK or through an agent that holds a WebSocket to the
  server. The Go programs (agent, compose and statistics service), the user interface and the
  libraries are not modelled; where the server depends on what they answer, the answer is an
  argument of the definition, and theorems name what they need of it as a hypothesis.

  \<^bold>\<open>How the parts interact.\<close> A request is admitted by a rate limiter, resolved to a client address,
  authenticated by a session cookie, an API key, a one-time token or a login through an identity provider,
  and then answered according to the capabilities and visible hosts of its user. Agents and Docker
  report containers; discovery reattaches settings to rebuilt containers, the monitor tracks states and
  restarts containers, and both feed the alert evaluation, which opens, updates and clears alerts under
  blackout windows and notifies with retries. Deployments, updates and batch jobs change containers;
  broadcasts tell the connected browsers what each of them may see.

  \<^bold>\<open>Conventions.\<close> A theory models one component with the definitions in the order of the code, and
  where the proofs are long a theory of the same name with the suffix \<open>Laws\<close> (or \<open>Props\<close>) holds
  them. Functions that may raise return \<open>Inl\<close> of the error or \<open>Inr\<close> of the result. A Python
  dictionary is an association list in insertion order, a table a list of rows, time a number of
  microseconds; clocks, random values and fresh ids are arguments, since the code draws them from
  outside. Python integers are \<open>int\<close>; the floats that matter are exact rationals with infinities and
  NaN (theory \<open>PyValue\<close>), so rounding is not modelled. Strings are lists of the code points U+0000 to U+00FF.
  Asynchronous code is cut at its suspension points: one definition per stretch that runs without
  interruption, composed by a step function or an inductive step relation, so that the theorems about
  runs hold for all interleavings of those stretches.

  \<^bold>\<open>Shared theories.\<close>
  \<^item> \<open>Prelude\<close>: results, dictionaries, runs of events (\<open>run\<close>), and three interfaces as locales:
    \<open>key_store\<close> (what lookup returns after insertion and deletion), \<open>machine\<close> and \<open>guarded_machine\<close>
    (a step function with an invariant, always or for admissible events); a machine is the guarded
    machine that admits everything.
  \<^item> \<open>PyText\<close>, \<open>PyValue\<close>, \<open>PyUrl\<close>, \<open>PyIp\<close>: what the code uses of Python's strings, JSON values,
    \<open>urllib.parse\<close> and \<open>ipaddress\<close>.
  \<^item> \<open>Keys\<close>: composite keys, container ids and image references (\<open>utils/keys.py\<close>), with the locale
    \<open>container_keys\<close> for what the components rely on: distinct containers have distinct keys.

  \<^bold>\<open>Requests and people.\<close>
  \<^item> \<open>RateLimits\<close>: the token bucket with bans (\<open>security/rate_limiting.py\<close>) and the sliding windows
    of WebSocket messages (\<open>websocket/rate_limiter.py\<close>): how many requests get through.
  \<^item> \<open>ClientIp\<close>: client address, public origin and cookie flags behind proxies (\<open>utils/client_ip.py\<close>):
    a forged prefix of a forwarding header is ignored and only declared hosts become public.
  \<^item> \<open>Sessions\<close>: the session store (\<open>auth/cookie_sessions.py\<close>) refines a store without expired
    sessions; limits per user and in total; a revoked session stays revoked.
  \<^item> \<open>ApiKeys\<close>: authentication by cookie or key and the allowed networks of a key (\<open>auth/api_key_auth.py\<close>).
  \<^item> \<open>ActionTokens\<close>: one-time tokens in notification links (\<open>auth/action_token_auth.py\<close>): granted once in all
    interleavings of requests.
  \<^item> \<open>OidcLogin\<close>, \<open>OidcLaws\<close>: the login through an identity provider (\<open>auth/oidc_auth_routes.py\<close>): states are
    used once, identities are vouched for by a verified token, memberships follow the groups claim.
    The checks of the JWT library are an argument (\<open>pv_claims\<close>); \<open>vouched\<close> names what they were asked.
  \<^item> \<open>Access\<close>: capabilities and visible hosts with their three caches (\<open>auth/api_key_auth.py\<close>); the locales
    \<open>read_through\<close> and \<open>yes_no\<close> say that a question asked through a cache has the answer of the tables, and
    are interpreted for each cached question.
  \<^item> \<open>GroupAdmin\<close>, \<open>GroupAdminLaws\<close>, \<open>AdminProps\<close>: the routes that change users, groups, permissions, scopes
    and memberships (\<open>auth/custom_groups_routes.py\<close>, \<open>auth/user_management_routes.py\<close>): the caches stay those
    of the tables (\<open>sound\<close>), nobody gives away more than they hold, critical capabilities keep a holder.

  \<^bold>\<open>Alerts.\<close>
  \<^item> \<open>SafeRegex\<close>, \<open>AlertMetrics\<close>, \<open>AlertRules\<close>: patterns of users evaluated with bounds, the metrics with
    their thresholds, and which rules apply to what (\<open>alerts/safe_regex.py\<close>, \<open>metrics.py\<close>, \<open>engine.py\<close>).
  \<^item> \<open>AlertEngine\<close>, \<open>AlertEngineLaws\<close>: rule evaluation with windows, pending, cooldown and clear timers
    (\<open>alerts/engine.py\<close>): one open alert per key, alerts fire and clear after exactly their durations.
  \<^item> \<open>Blackout\<close>, \<open>EvalService\<close>, \<open>EvalEvents\<close>, \<open>EvalServiceLaws\<close>: blackout windows, the notification of
    alerts with retries, and events that raise or withdraw alerts (\<open>alerts/evaluation_service.py\<close>,
    \<open>blackout_manager.py\<close>, \<open>notifications.py\<close>): retries end.

  \<^bold>\<open>Hosts, agents and live data.\<close>
  \<^item> \<open>AgentRegistry\<close>, \<open>AgentRegistryLaws\<close>, \<open>AgentLinks\<close>, \<open>AgentLinksLaws\<close>: registration and migration of agents,
    their sockets and shells (\<open>agent/manager.py\<close>, \<open>connection_manager.py\<close>, \<open>shell_manager.py\<close>): the registry stays
    consistent, a migrated host keeps its settings, a superseded socket is harmless.
  \<^item> \<open>AgentCommands\<close>: commands with circuit breaker, retries and pending answers (\<open>agent/command_executor.py\<close>).
  \<^item> \<open>AgentMessages\<close>, \<open>StatsHistory\<close>: events and statistics that agents send, and the ring buffers of the
    statistics (\<open>agent/websocket_handler.py\<close>, \<open>docker_monitor/stats_history.py\<close>).
  \<^item> \<open>StatsStreams\<close>, \<open>Broadcast\<close>, \<open>WsFilter\<close>, \<open>LiveUpdates\<close>: statistics streams, browser connections and what is
    sent to them (\<open>realtime.py\<close>, \<open>websocket/connection.py\<close>, \<open>utils/response_filtering.py\<close>): what a socket receives obeys the tables.
  \<^item> \<open>AutoRestart\<close>, \<open>AutoRestartLaws\<close>: tracked states, restarts and their attempts (\<open>docker_monitor/monitor.py\<close>,
    \<open>state_manager.py\<close>): one restart at a time, and an end to the attempts.
  \<^item> \<open>StickySettings\<close>, \<open>StickySettingsLaws\<close>: settings that follow rebuilt containers (\<open>database.py\<close>,
    \<open>docker_monitor/container_discovery.py\<close>).
  \<^item> \<open>HealthCheck\<close>, \<open>HealthProbe\<close>: HTTP health checks (\<open>health_check/http_checker.py\<close>): thresholds,
    restarts with their budget, redirects.

  \<^bold>\<open>Changing containers.\<close>
  \<^item> \<open>DeployState\<close>, \<open>ContainerSpec\<close>, \<open>SecurityCheck\<close>, \<open>PortConflict\<close>, \<open>StackFiles\<close>, \<open>StackFilesLaws\<close>: the life of a
    deployment, definitions of containers, findings on them, conflicts of host ports, and the files of stacks
    (\<open>deployment/\<close>).
  \<^item> \<open>ImageTracking\<close>, \<open>UpdateChecks\<close>, \<open>UpdateCheckLaws\<close>, \<open>UpdateRuns\<close>, \<open>UpdateRunLaws\<close>: image versions, update
    checks and running updates (\<open>updates/\<close>): no downgrade is offered, one update of a container at a time.
  \<^item> \<open>BatchJobs\<close>, \<open>BatchJobsLaws\<close>: bulk operations (\<open>batch_manager.py\<close>, \<open>updates/dependency_analyzer.py\<close>).

  \<^bold>\<open>Bounds and fuel.\<close> Recursions of the code that are not structural have a termination proof:
  the scanner of patterns, redirects (at most as many as the request allows), names made unique (a free one among as
  many as there are names), replacement of text. Fuel occurs only where the code itself counts: ten redirects,
  the retries of a command, the hundred names of a new user. Other loops of the code are over lists. No
  definition may run out of fuel.

  \<^bold>\<open>Not modelled.\<close> Routes that only check a capability, call an operation and serialize its answer; plain getters
  and setters of one row; log lines, audit rows and texts sent to people; the calls of the Docker SDK, the
  compose and statistics services, registries and notification channels; schema migrations and developer tools.
  The manifest lists each with its reason. Failures of the database are modelled where the code handles them.

  Several lemmas at the ends of the theories are runs in which the code does not do what its comments or
  documents say; the manifest names them as findings.
\<close>

end
